(* ===== verification/GoPrelude.thy ===== *)
theory GoPrelude
  imports Main "HOL-Library.Sublist" "HOL-Library.List_Lexorder"
    "HOL-Library.Product_Lexorder" "HOL-Library.Char_ord"
begin

text \<open>
  What every component shares: Go values (byte strings, errors, the dynamic values a decoded
  JSON payload holds), the string functions of the Go standard library the program calls, and
  the generic facts on lists and tables the component proofs rest on.

  A Go string is a byte sequence, so it is a HOL \<open>string\<close> (a list of 8-bit characters).
  Times are nanoseconds counted from Go's zero time, so \<open>IsZero\<close> is equality with 0.
\<close>

named_theorems go_simps \<open>evaluation of the Go library functions on concrete strings\<close>
named_theorems table_simps \<open>effect of table updates on projections and selections\<close>

type_synonym gotime = int
type_synonym int64 = int


section \<open>Strings\<close>

text \<open>
  \<open>strings.TrimSpace\<close> removes leading and trailing white space as \<open>unicode.IsSpace\<close>
  defines it. The table lists the UTF-8 encodings of those code points: a byte sequence that
  starts (or ends) with one of them decodes to exactly that code point there.
\<close>

definition go_spaces :: "string list" where
  "go_spaces =
     [[CHR 0x20], [CHR 0x09], [CHR 0x0A], [CHR 0x0B], [CHR 0x0C], [CHR 0x0D],
      [CHR 0xC2, CHR 0x85], [CHR 0xC2, CHR 0xA0], [CHR 0xE1, CHR 0x9A, CHR 0x80],
      [CHR 0xE2, CHR 0x80, CHR 0x80], [CHR 0xE2, CHR 0x80, CHR 0x81],
      [CHR 0xE2, CHR 0x80, CHR 0x82], [CHR 0xE2, CHR 0x80, CHR 0x83],
      [CHR 0xE2, CHR 0x80, CHR 0x84], [CHR 0xE2, CHR 0x80, CHR 0x85],
      [CHR 0xE2, CHR 0x80, CHR 0x86], [CHR 0xE2, CHR 0x80, CHR 0x87],
      [CHR 0xE2, CHR 0x80, CHR 0x88], [CHR 0xE2, CHR 0x80, CHR 0x89],
      [CHR 0xE2, CHR 0x80, CHR 0x8A], [CHR 0xE2, CHR 0x80, CHR 0xA8],
      [CHR 0xE2, CHR 0x80, CHR 0xA9], [CHR 0xE2, CHR 0x80, CHR 0xAF],
      [CHR 0xE2, CHR 0x81, CHR 0x9F], [CHR 0xE3, CHR 0x80, CHR 0x80]]"

fun drop_word :: "string list \<Rightarrow> string \<Rightarrow> nat" where
  "drop_word [] s = 0"
| "drop_word (w # ws) s = (if prefix w s then length w else drop_word ws s)"

function trim_with :: "string list \<Rightarrow> string \<Rightarrow> string" where
  "trim_with ws s =
     (if s = [] \<or> drop_word ws s = 0 then s else trim_with ws (drop (drop_word ws s) s))"
  by pat_completeness auto
termination
  by (relation "measure (\<lambda>(ws, s). length s)") auto

declare trim_with.simps [simp del]

definition TrimLeftSpace :: "string \<Rightarrow> string" where
  "TrimLeftSpace s = trim_with go_spaces s"

definition TrimRightSpace :: "string \<Rightarrow> string" where
  "TrimRightSpace s = rev (trim_with (map rev go_spaces) (rev s))"

definition TrimSpace :: "string \<Rightarrow> string" where
  "TrimSpace s = TrimRightSpace (TrimLeftSpace s)"

lemma drop_word_0: "[] \<notin> set ws \<Longrightarrow> drop_word ws s = 0 \<longleftrightarrow> (\<forall>w \<in> set ws. \<not> prefix w s)"
  by (induction ws) auto

lemma trim_with_Nil [simp]: "trim_with ws [] = []"
  by (simp add: trim_with.simps)

lemma trim_with_fixed: "drop_word ws (trim_with ws s) = 0 \<or> trim_with ws s = []"
proof (induction ws s rule: trim_with.induct)
  case (1 ws s)
  then show ?case
    by (cases "s = [] \<or> drop_word ws s = 0") (auto simp: trim_with.simps [of ws s])
qed

lemma trim_with_id: "drop_word ws s = 0 \<Longrightarrow> trim_with ws s = s"
  by (simp add: trim_with.simps)

lemma trim_with_suffix: "suffix (trim_with ws s) s"
proof (induction ws s rule: trim_with.induct)
  case (1 ws s)
  show ?case
  proof (cases "s = [] \<or> drop_word ws s = 0")
    case True
    then show ?thesis by (auto simp: trim_with.simps [of ws s])
  next
    case False
    then have "suffix (trim_with ws (drop (drop_word ws s) s)) (drop (drop_word ws s) s)"
      by (intro 1) auto
    moreover have "suffix (drop (drop_word ws s) s) s" by (rule suffix_drop)
    ultimately have "suffix (trim_with ws (drop (drop_word ws s) s)) s"
      by (rule suffix_order.trans)
    with False show ?thesis by (simp add: trim_with.simps [of ws s])
  qed
qed

lemma go_spaces_nonempty: "[] \<notin> set go_spaces"
  by (simp add: go_spaces_def)

lemma TrimRightSpace_prefix: "prefix (TrimRightSpace s) s"
proof -
  have "suffix (trim_with (map rev go_spaces) (rev s)) (rev s)" by (rule trim_with_suffix)
  then show ?thesis by (simp add: TrimRightSpace_def suffix_to_prefix)
qed

lemma drop_word_prefix_mono:
  assumes "[] \<notin> set ws" "drop_word ws s = 0" "prefix t s"
  shows "drop_word ws t = 0"
  using assms by (auto simp: drop_word_0 dest: prefix_order.trans)

text \<open>Trimming twice is trimming once: the trimmed value is in normal form.\<close>

lemma TrimSpace_idem [simp]: "TrimSpace (TrimSpace s) = TrimSpace s"
proof -
  let ?l = "TrimLeftSpace s"
  let ?r = "TrimRightSpace ?l"
  have "drop_word go_spaces ?l = 0 \<or> ?l = []"
    unfolding TrimLeftSpace_def by (rule trim_with_fixed)
  then have "drop_word go_spaces ?r = 0 \<or> ?r = []"
    using drop_word_prefix_mono [OF go_spaces_nonempty _ TrimRightSpace_prefix]
      TrimRightSpace_prefix [of ?l] by auto
  then have left: "TrimLeftSpace ?r = ?r"
    by (auto simp: TrimLeftSpace_def trim_with_id)
  have "trim_with (map rev go_spaces) (trim_with (map rev go_spaces) (rev ?l)) =
        trim_with (map rev go_spaces) (rev ?l)"
    using trim_with_fixed [of "map rev go_spaces" "rev ?l"] by (auto simp: trim_with_id)
  then have "TrimRightSpace ?r = ?r" by (simp add: TrimRightSpace_def)
  with left show ?thesis by (simp add: TrimSpace_def)
qed

lemma TrimSpace_Nil [simp, go_simps]: "TrimSpace [] = []"
  by (simp add: TrimSpace_def TrimLeftSpace_def TrimRightSpace_def)

lemma sublist_TrimSpace: "sublist (TrimSpace s) s"
proof -
  have "suffix (TrimLeftSpace s) s" unfolding TrimLeftSpace_def by (rule trim_with_suffix)
  moreover have "prefix (TrimSpace s) (TrimLeftSpace s)"
    unfolding TrimSpace_def by (rule TrimRightSpace_prefix)
  ultimately show ?thesis
    by (meson prefix_imp_sublist suffix_imp_sublist sublist_order.order.trans)
qed

lemma set_TrimSpace: "set (TrimSpace s) \<subseteq> set s"
  using sublist_TrimSpace by (rule set_mono_sublist)

lemma length_TrimSpace: "length (TrimSpace s) \<le> length s"
  using sublist_TrimSpace by (rule sublist_length_le)

text \<open>
  A string whose first and last byte are ASCII and no white space is unchanged: the rule that
  evaluates \<open>TrimSpace\<close> on the literals the program uses.
\<close>

definition plain_char :: "char \<Rightarrow> bool" where
  "plain_char c \<longleftrightarrow> of_char c < (128 :: nat) \<and>
     of_char c \<notin> {0x20, 0x09, 0x0A, 0x0B, 0x0C, 0x0D :: nat}"

lemma plain_char_not_space: "plain_char c \<Longrightarrow> w \<in> set go_spaces \<Longrightarrow> hd w \<noteq> c \<and> last w \<noteq> c"
  unfolding go_spaces_def plain_char_def by (auto simp del: of_char_of)

lemma drop_word_plain:
  assumes "plain_char c"
  shows "drop_word go_spaces (c # s) = 0" and "drop_word (map rev go_spaces) (c # s) = 0"
proof -
  have "\<not> prefix w (c # s)" if "w \<in> set go_spaces" for w
    using plain_char_not_space [OF assms that] that go_spaces_nonempty
    by (cases w) auto
  then show "drop_word go_spaces (c # s) = 0"
    by (simp add: drop_word_0 go_spaces_nonempty)
  have "\<not> prefix (rev w) (c # s)" if "w \<in> set go_spaces" for w
    using plain_char_not_space [OF assms that] that go_spaces_nonempty
    by (cases w rule: rev_cases) auto
  then show "drop_word (map rev go_spaces) (c # s) = 0"
    using go_spaces_nonempty by (subst drop_word_0) auto
qed

lemma TrimSpace_plain [go_simps]:
  assumes "plain_char c" "plain_char (last (c # s))"
  shows "TrimSpace (c # s) = c # s"
proof -
  have l: "TrimLeftSpace (c # s) = c # s"
    using assms(1) by (simp add: TrimLeftSpace_def trim_with_id drop_word_plain)
  obtain d t where r: "rev (c # s) = d # t" by (cases "rev (c # s)") auto
  then have "d = last (c # s)" by (metis hd_rev list.sel(1))
  with assms(2) r have "TrimRightSpace (c # s) = c # s"
    unfolding TrimRightSpace_def by (metis trim_with_id drop_word_plain(2) rev_rev_ident)
  with l show ?thesis by (simp add: TrimSpace_def)
qed

text \<open>
  \<open>strings.EqualFold\<close> folds ASCII letters here: the program compares hexadecimal digests with it.
\<close>

definition ascii_upper :: "char \<Rightarrow> char" where
  "ascii_upper c = (if of_char c \<ge> (97 :: nat) \<and> of_char c \<le> (122 :: nat)
                    then char_of (of_char c - (32 :: nat)) else c)"

definition ascii_lower :: "char \<Rightarrow> char" where
  "ascii_lower c = (if of_char c \<ge> (65 :: nat) \<and> of_char c \<le> (90 :: nat)
                    then char_of (of_char c + (32 :: nat)) else c)"

definition EqualFold :: "string \<Rightarrow> string \<Rightarrow> bool" where
  "EqualFold s t \<longleftrightarrow> map ascii_lower s = map ascii_lower t"

lemma EqualFold_refl [simp]: "EqualFold s s"
  by (simp add: EqualFold_def)

lemma EqualFold_sym: "EqualFold s t \<Longrightarrow> EqualFold t s"
  by (simp add: EqualFold_def)

lemma EqualFold_trans: "EqualFold s t \<Longrightarrow> EqualFold t u \<Longrightarrow> EqualFold s u"
  by (simp add: EqualFold_def)

text \<open>Decimal text, as \<open>%d\<close> and \<open>strconv.Itoa\<close> print it.\<close>

fun show_nat :: "nat \<Rightarrow> string" where
  "show_nat n = (if n < 10 then [char_of (48 + n)]
                 else show_nat (n div 10) @ [char_of (48 + n mod 10)])"

declare show_nat.simps [simp del]

definition show_int :: "int \<Rightarrow> string" where
  "show_int i = (if i < 0 then CHR ''-'' # show_nat (nat (- i)) else show_nat (nat i))"

text \<open>\<open>strings.Join\<close>.\<close>

fun Join_strings :: "string list \<Rightarrow> string \<Rightarrow> string" where
  "Join_strings [] sep = []"
| "Join_strings [x] sep = x"
| "Join_strings (x # y # xs) sep = x @ sep @ Join_strings (y # xs) sep"

section \<open>Errors\<close>

text \<open>
  A Go \<open>error\<close> is a value: a failure of the database driver or the file system (which one is
  not distinguished), \<open>sql.ErrNoRows\<close>, a violated constraint, \<open>context.Canceled\<close>, or a
  formatted message, possibly wrapping (\<open>%w\<close>) or joining other errors.
\<close>

datatype error =
    ErrDriver
  | ErrNoRows
  | ErrConstraint
  | Canceled
  | Errorf string "string list"
  | Wrapf string "string list" error
  | JoinErr error error

fun fmt :: "string \<Rightarrow> string list \<Rightarrow> string" where
  "fmt [] args = []"
| "fmt (c # s) args =
     (if c = CHR ''%'' then
        (case s of [] \<Rightarrow> [c]
         | v # s' \<Rightarrow> (case args of [] \<Rightarrow> fmt s' [] | a # args' \<Rightarrow> a @ fmt s' args'))
      else c # fmt s args)"

fun err_text :: "error \<Rightarrow> string" where
  "err_text ErrDriver = ''driver failure''"
| "err_text ErrNoRows = ''sql: no rows in result set''"
| "err_text ErrConstraint = ''constraint failed''"
| "err_text Canceled = ''context canceled''"
| "err_text (Errorf f as) = fmt f as"
| "err_text (Wrapf f as e) = fmt f (as @ [err_text e])"
| "err_text (JoinErr a b) = err_text a @ CHR 0x0A # err_text b"

fun errors_is :: "error \<Rightarrow> error \<Rightarrow> bool" where
  "errors_is (Wrapf f as e) t \<longleftrightarrow> Wrapf f as e = t \<or> errors_is e t"
| "errors_is (JoinErr a b) t \<longleftrightarrow> JoinErr a b = t \<or> errors_is a t \<or> errors_is b t"
| "errors_is e t \<longleftrightarrow> e = t"

lemma errors_is_refl [simp]: "errors_is e e"
  by (cases e) auto

section \<open>Dynamic values\<close>

text \<open>
  A \<open>map[string]any\<close> payload holds what \<open>encoding/json\<close> produces, and the \<open>[]string\<close>
  values the program itself stores before encoding. A JSON number is an integer or not; which
  non-integer it is never matters to the program.
\<close>

datatype goval =
    VNil
  | VBool bool
  | VInt int
  | VFrac
  | VStr string
  | VStrs "string list"
  | VList "goval list"
  | VMap "(string \<times> goval) list"

type_synonym payload = "(string \<times> goval) list"

section \<open>Tables\<close>

text \<open>
  A database table is the list of its rows in insertion order. \<open>sql_update\<close> is
  \<open>UPDATE ... SET f WHERE p\<close>, \<open>sql_count\<close> the number of rows it affects.
\<close>

definition sql_update :: "('r \<Rightarrow> bool) \<Rightarrow> ('r \<Rightarrow> 'r) \<Rightarrow> 'r list \<Rightarrow> 'r list" where
  "sql_update p f rows = map (\<lambda>r. if p r then f r else r) rows"

definition sql_count :: "('r \<Rightarrow> bool) \<Rightarrow> 'r list \<Rightarrow> nat" where
  "sql_count p rows = length (filter p rows)"

definition sql_delete :: "('r \<Rightarrow> bool) \<Rightarrow> 'r list \<Rightarrow> 'r list" where
  "sql_delete p rows = filter (\<lambda>r. \<not> p r) rows"

definition sql_find :: "('r \<Rightarrow> bool) \<Rightarrow> 'r list \<Rightarrow> 'r option" where
  "sql_find p rows = find p rows"

text \<open>The row \<open>ORDER BY id DESC LIMIT 1\<close> selects: the last one, ids grow with insertion.\<close>

definition sql_last :: "('r \<Rightarrow> bool) \<Rightarrow> 'r list \<Rightarrow> 'r option" where
  "sql_last p rows = (if filter p rows = [] then None else Some (last (filter p rows)))"

lemma set_sql_update:
  "set (sql_update p f rows) = {r \<in> set rows. \<not> p r} \<union> f ` {r \<in> set rows. p r}"
  by (auto simp: sql_update_def)

lemma sql_updateE:
  assumes "r \<in> set (sql_update p f rows)"
  obtains r0 where "r0 \<in> set rows" "r = (if p r0 then f r0 else r0)"
  using assms unfolding sql_update_def set_map by (elim imageE) (rule that)

lemma length_sql_update [simp, table_simps]: "length (sql_update p f rows) = length rows"
  by (simp add: sql_update_def)

lemma sql_update_Nil [simp]: "sql_update p f [] = []"
  by (simp add: sql_update_def)

lemma sql_update_Cons [simp]:
  "sql_update p f (r # rows) = (if p r then f r else r) # sql_update p f rows"
  by (simp add: sql_update_def)

lemma sql_update_append [table_simps]:
  "sql_update p f (xs @ ys) = sql_update p f xs @ sql_update p f ys"
  by (simp add: sql_update_def)

lemma sql_update_none: "\<forall>r \<in> set rows. \<not> p r \<Longrightarrow> sql_update p f rows = rows"
  by (induction rows) auto

lemma map_sql_update [table_simps]:
  "(\<And>r. k (f r) = k r) \<Longrightarrow> map k (sql_update p f rows) = map k rows"
  by (simp add: sql_update_def)

lemma filter_sql_update:
  "(\<And>r. q (f r) = q r) \<Longrightarrow> filter q (sql_update p f rows) = sql_update p f (filter q rows)"
  by (induction rows) auto

lemma sql_count_0: "sql_count p rows = 0 \<longleftrightarrow> (\<forall>r \<in> set rows. \<not> p r)"
  by (simp add: sql_count_def filter_empty_conv)

lemma sql_find_Some: "sql_find p rows = Some r \<Longrightarrow> r \<in> set rows \<and> p r"
  by (auto simp: sql_find_def find_Some_iff)

lemma sql_find_None: "sql_find p rows = None \<longleftrightarrow> (\<forall>r \<in> set rows. \<not> p r)"
  by (auto simp: sql_find_def find_None_iff)

lemma sql_last_None: "sql_last p rows = None \<longleftrightarrow> (\<forall>r \<in> set rows. \<not> p r)"
  by (simp add: sql_last_def filter_empty_conv)

lemma sql_last_Some: "sql_last p rows = Some r \<Longrightarrow> r \<in> set rows \<and> p r"
  using last_in_set [of "filter p rows"] by (auto simp: sql_last_def split: if_splits)

lemma sql_last_conv: "filter p rows \<noteq> [] \<Longrightarrow> sql_last p rows = Some (last (filter p rows))"
  by (simp add: sql_last_def)

text \<open>With a key that no two rows share, a key selects one row.\<close>

lemma distinct_key_eq:
  "distinct (map k rows) \<Longrightarrow> r \<in> set rows \<Longrightarrow> r' \<in> set rows \<Longrightarrow> k r = k r' \<Longrightarrow> r = r'"
  by (auto simp: distinct_map inj_on_def)

lemma sql_find_key:
  "distinct (map k rows) \<Longrightarrow> r \<in> set rows \<Longrightarrow> sql_find (\<lambda>x. k x = k r) rows = Some r"
  by (cases "sql_find (\<lambda>x. k x = k r) rows")
    (auto simp: sql_find_None dest: sql_find_Some distinct_key_eq)

lemma sql_count_key:
  assumes "distinct (map k rows)" "r \<in> set rows" "p r" "\<And>x. p x \<Longrightarrow> k x = k r"
  shows "sql_count p rows = 1"
proof -
  have "set (filter p rows) = {r}"
    using assms by (auto dest: distinct_key_eq)
  moreover have "distinct (filter p rows)"
    using assms(1) by (simp add: distinct_map)
  ultimately show ?thesis
    unfolding sql_count_def by (metis card.empty card_insert_disjoint distinct_card empty_iff
        finite.emptyI One_nat_def)
qed

lemma sql_count_key_le:
  assumes "distinct (map k rows)" "\<And>x. p x \<Longrightarrow> k x = v"
  shows "sql_count p rows \<le> 1"
proof (cases "\<exists>r \<in> set rows. p r")
  case True
  then obtain r where r: "r \<in> set rows" "p r" by blast
  then have "sql_count p rows = 1"
    using assms by (intro sql_count_key [where k = k and r = r]) auto
  then show ?thesis by simp
next
  case False
  then have "sql_count p rows = 0" by (simp add: sql_count_0)
  then show ?thesis by simp
qed
section \<open>Numbers in text\<close>

definition digit_value :: "char \<Rightarrow> nat option" where
  "digit_value c =
     (let n = of_char c :: nat in
      if 48 \<le> n \<and> n \<le> 57 then Some (n - 48)
      else if 97 \<le> n \<and> n \<le> 102 then Some (n - 87)
      else if 65 \<le> n \<and> n \<le> 70 then Some (n - 55)
      else None)"

fun read_digits :: "nat \<Rightarrow> nat \<Rightarrow> string \<Rightarrow> nat option" where
  "read_digits base acc [] = Some acc"
| "read_digits base acc (c # s) =
     (case digit_value c of
        Some d \<Rightarrow> if d < base then read_digits base (base * acc + d) s else None
      | None \<Rightarrow> None)"

definition split_sign :: "string \<Rightarrow> bool \<times> string" where
  "split_sign s = (case s of c # t \<Rightarrow> if c = CHR ''-'' then (True, t) else if c = CHR ''+'' then (False, t) else (False, s)
     | [] \<Rightarrow> (False, []))"

definition signed64 :: "bool \<Rightarrow> nat \<Rightarrow> int option" where
  "signed64 neg n = (let i = (if neg then - int n else int n) in if - (2 ^ 63) \<le> i \<and> i < 2 ^ 63 then Some i else None)"

text \<open>\<open>strconv.Atoi\<close> and \<open>strconv.ParseInt(s, 10, 64)\<close>.\<close>

definition Atoi :: "string \<Rightarrow> int option" where
  "Atoi s = (case split_sign s of (neg, t) \<Rightarrow>
     if t = [] then None else Option.bind (read_digits 10 0 t) (signed64 neg))"

end
