(* ===== verification/DbMonad.thy ===== *)
theory DbMonad
  imports GoPrelude
begin

text \<open>
  Database programs. An operation of \<open>internal/storage\<close> is a sequence of SQL statements run
  under the mutex of \<open>DB\<close>, so no other operation is interleaved with it; what can happen in
  its middle is that a statement fails in the driver. A program therefore takes a list of
  fault bits, one for each statement it issues (an exhausted list means no further fault), and
  the database, and returns an error or a value, the unused fault bits and the database.

  \<open>db_stmt\<close> is one statement: a fault or a violated constraint leaves the database as it was.
  \<open>db_tx\<close> is \<open>Begin\<close> \dots \<open>Commit\<close> with the deferred \<open>Rollback\<close>: an error inside, a
  failing commit, or a return without a commit restores the database.

  The predicates \<open>db_det\<close> (a run that succeeds despite the fault bits did what the fault-free
  run does) and \<open>db_safe\<close> (an operation that reports an error changed nothing) compose, and
  \<open>db_operation\<close> states the contract every operation of the store gives its callers.
\<close>

named_theorems db_rules \<open>introduction rules for the database program predicates\<close>
named_theorems db_eval \<open>evaluation of database programs without faults\<close>

type_synonym ('d, 'a) dbm = "bool list \<Rightarrow> 'd \<Rightarrow> (error + 'a) \<times> bool list \<times> 'd"

datatype 'a tx = Commit 'a | Rollback 'a

fun next_fault :: "bool list \<Rightarrow> bool \<times> bool list" where
  "next_fault [] = (False, [])"
| "next_fault (f # fs) = (f, fs)"

definition db_ret :: "'a \<Rightarrow> ('d, 'a) dbm" where
  "db_ret x = (\<lambda>fs d. (Inr x, fs, d))"

definition db_fail :: "error \<Rightarrow> ('d, 'a) dbm" where
  "db_fail e = (\<lambda>fs d. (Inl e, fs, d))"

definition db_bind :: "('d, 'a) dbm \<Rightarrow> ('a \<Rightarrow> ('d, 'b) dbm) \<Rightarrow> ('d, 'b) dbm" where
  "db_bind m k = (\<lambda>fs d. case m fs d of (Inl e, fs', d') \<Rightarrow> (Inl e, fs', d')
                                        | (Inr x, fs', d') \<Rightarrow> k x fs' d')"

definition db_stmt :: "('d \<Rightarrow> error + 'a \<times> 'd) \<Rightarrow> ('d, 'a) dbm" where
  "db_stmt f = (\<lambda>fs d. case next_fault fs of (fault, fs') \<Rightarrow>
     if fault then (Inl ErrDriver, fs', d)
     else (case f d of Inl e \<Rightarrow> (Inl e, fs', d) | Inr (x, d') \<Rightarrow> (Inr x, fs', d')))"

definition db_exec :: "('d \<Rightarrow> 'a \<times> 'd) \<Rightarrow> ('d, 'a) dbm" where
  "db_exec f = db_stmt (\<lambda>d. Inr (f d))"

definition db_query :: "('d \<Rightarrow> error + 'a) \<Rightarrow> ('d, 'a) dbm" where
  "db_query f = db_stmt (\<lambda>d. case f d of Inl e \<Rightarrow> Inl e | Inr x \<Rightarrow> Inr (x, d))"

definition db_tx :: "('d, 'a tx) dbm \<Rightarrow> ('d, 'a) dbm" where
  "db_tx m = (\<lambda>fs d. case next_fault fs of (fault, fs1) \<Rightarrow>
     if fault then (Inl ErrDriver, fs1, d)
     else (case m fs1 d of
             (Inl e, fs2, d') \<Rightarrow> (Inl e, fs2, d)
           | (Inr (Rollback x), fs2, d') \<Rightarrow> (Inr x, fs2, d)
           | (Inr (Commit x), fs2, d') \<Rightarrow>
               (case next_fault fs2 of (fault', fs3) \<Rightarrow>
                  if fault' then (Inl ErrDriver, fs3, d) else (Inr x, fs3, d'))))"

text \<open>\<open>if err != nil\<close> around a call: the error becomes a value the caller inspects.\<close>

definition db_try :: "('d, 'a) dbm \<Rightarrow> ('d, error + 'a) dbm" where
  "db_try m = (\<lambda>fs d. case m fs d of (r, fs', d') \<Rightarrow> (Inr r, fs', d'))"

text \<open>\<open>fmt.Errorf("...: %w", err)\<close> on the error a call returns.\<close>

definition db_wrap :: "(error \<Rightarrow> error) \<Rightarrow> ('d, 'a) dbm \<Rightarrow> ('d, 'a) dbm" where
  "db_wrap w m = (\<lambda>fs d. case m fs d of (Inl e, fs', d') \<Rightarrow> (Inl (w e), fs', d')
                                        | (Inr x, fs', d') \<Rightarrow> (Inr x, fs', d'))"

text \<open>An assignment to the program's own memory, which cannot fail.\<close>

definition db_upd :: "('d \<Rightarrow> 'd) \<Rightarrow> ('d, unit) dbm" where
  "db_upd f = (\<lambda>fs d. (Inr (), fs, f d))"

definition db_get :: "('d \<Rightarrow> 'a) \<Rightarrow> ('d, 'a) dbm" where
  "db_get f = (\<lambda>fs d. (Inr (f d), fs, d))"

text \<open>A guard with its error message.\<close>

definition db_require :: "bool \<Rightarrow> error \<Rightarrow> ('d, unit) dbm" where
  "db_require b e = (if b then db_ret () else db_fail e)"

text \<open>A Go loop over a slice that stops at the first error.\<close>

fun db_foreach :: "('x \<Rightarrow> ('d, unit) dbm) \<Rightarrow> 'x list \<Rightarrow> ('d, unit) dbm" where
  "db_foreach f [] = db_ret ()"
| "db_foreach f (x # xs) = db_bind (f x) (\<lambda>_. db_foreach f xs)"

abbreviation db_state :: "(error + 'a) \<times> bool list \<times> 'd \<Rightarrow> 'd" where
  "db_state r \<equiv> snd (snd r)"

abbreviation db_result :: "(error + 'a) \<times> bool list \<times> 'd \<Rightarrow> error + 'a" where
  "db_result r \<equiv> fst r"

section \<open>Evaluation without faults\<close>

lemma db_bind_Inr [db_eval]: "m fs d = (Inr x, fs', d') \<Longrightarrow> db_bind m k fs d = k x fs' d'"
  by (simp add: db_bind_def)

lemma db_bind_Inl [db_eval]: "m fs d = (Inl e, fs', d') \<Longrightarrow> db_bind m k fs d = (Inl e, fs', d')"
  by (simp add: db_bind_def)

lemma db_ret_eval [db_eval]: "db_ret x fs d = (Inr x, fs, d)"
  by (simp add: db_ret_def)

lemma db_fail_eval [db_eval]: "db_fail e fs d = (Inl e, fs, d)"
  by (simp add: db_fail_def)

lemma db_stmt_eval [db_eval]:
  "db_stmt f [] d = (case f d of Inl e \<Rightarrow> (Inl e, [], d) | Inr (x, d') \<Rightarrow> (Inr x, [], d'))"
  by (simp add: db_stmt_def)

lemma db_exec_eval [db_eval]: "db_exec f [] d = (Inr (fst (f d)), [], snd (f d))"
  by (simp add: db_exec_def db_stmt_def split: prod.splits)

lemma db_query_eval [db_eval]:
  "db_query f [] d = (case f d of Inl e \<Rightarrow> (Inl e, [], d) | Inr x \<Rightarrow> (Inr x, [], d))"
  by (simp add: db_query_def db_stmt_def split: sum.splits)

lemma db_upd_eval [db_eval]: "db_upd f fs d = (Inr (), fs, f d)"
  by (simp add: db_upd_def)

lemma db_get_eval [db_eval]: "db_get f fs d = (Inr (f d), fs, d)"
  by (simp add: db_get_def)

lemma db_require_eval [db_eval]:
  "db_require b e fs d = (if b then (Inr (), fs, d) else (Inl e, fs, d))"
  by (simp add: db_require_def db_ret_def db_fail_def)

lemma db_try_eval [db_eval]: "m fs d = (r, fs', d') \<Longrightarrow> db_try m fs d = (Inr r, fs', d')"
  by (simp add: db_try_def)

lemma db_wrap_Inl [db_eval]: "m fs d = (Inl e, fs', d') \<Longrightarrow> db_wrap w m fs d = (Inl (w e), fs', d')"
  by (simp add: db_wrap_def)

lemma db_wrap_Inr [db_eval]: "m fs d = (Inr x, fs', d') \<Longrightarrow> db_wrap w m fs d = (Inr x, fs', d')"
  by (simp add: db_wrap_def)

lemma db_tx_Commit [db_eval]: "m [] d = (Inr (Commit x), [], d') \<Longrightarrow> db_tx m [] d = (Inr x, [], d')"
  by (simp add: db_tx_def)

lemma db_tx_Rollback [db_eval]:
  "m [] d = (Inr (Rollback x), fs', d') \<Longrightarrow> db_tx m [] d = (Inr x, fs', d)"
  by (simp add: db_tx_def)

lemma db_tx_Inl [db_eval]: "m [] d = (Inl e, fs', d') \<Longrightarrow> db_tx m [] d = (Inl e, fs', d)"
  by (simp add: db_tx_def)

section \<open>Predicates on programs\<close>

definition db_det :: "('d, 'a) dbm \<Rightarrow> bool" where
  "db_det m \<longleftrightarrow> (\<forall>fs d x fs' d'. m fs d = (Inr x, fs', d') \<longrightarrow> m [] d = (Inr x, [], d'))"

definition db_safe :: "('d, 'a) dbm \<Rightarrow> bool" where
  "db_safe m \<longleftrightarrow> (\<forall>fs d e fs' d'. m fs d = (Inl e, fs', d') \<longrightarrow> d' = d)"

definition db_readonly :: "('d, 'a) dbm \<Rightarrow> bool" where
  "db_readonly m \<longleftrightarrow> (\<forall>fs d r fs' d'. m fs d = (r, fs', d') \<longrightarrow> d' = d)"

lemma db_detD: "db_det m \<Longrightarrow> m fs d = (Inr x, fs', d') \<Longrightarrow> m [] d = (Inr x, [], d')"
  by (simp add: db_det_def)

lemma db_safeD: "db_safe m \<Longrightarrow> m fs d = (Inl e, fs', d') \<Longrightarrow> d' = d"
  by (simp add: db_safe_def)

lemma db_readonlyD: "db_readonly m \<Longrightarrow> m fs d = (r, fs', d') \<Longrightarrow> d' = d"
  by (simp add: db_readonly_def)

lemma db_det_ret [db_rules]: "db_det (db_ret x)"
  by (simp add: db_det_def db_ret_def)

lemma db_det_fail [db_rules]: "db_det (db_fail e)"
  by (simp add: db_det_def db_fail_def)

lemma db_det_stmt [db_rules]: "db_det (db_stmt f)"
  by (auto simp: db_det_def db_stmt_def split: prod.splits sum.splits if_splits)

lemma db_det_exec [db_rules]: "db_det (db_exec f)"
  unfolding db_exec_def by (rule db_det_stmt)

lemma db_det_query [db_rules]: "db_det (db_query f)"
  unfolding db_query_def by (rule db_det_stmt)

lemma db_det_require [db_rules]: "db_det (db_require b e)"
  by (simp add: db_require_def db_det_ret db_det_fail)

lemma db_det_bind [db_rules]:
  assumes "db_det m" and "\<And>x. db_det (k x)"
  shows "db_det (db_bind m k)"
  unfolding db_det_def
proof (intro allI impI)
  fix fs d y fs' d'
  assume "db_bind m k fs d = (Inr y, fs', d')"
  then obtain x fs1 d1 where m: "m fs d = (Inr x, fs1, d1)" and k: "k x fs1 d1 = (Inr y, fs', d')"
    by (auto simp: db_bind_def split: prod.splits sum.splits)
  from m have "m [] d = (Inr x, [], d1)" by (rule db_detD [OF assms(1)])
  moreover from k have "k x [] d1 = (Inr y, [], d')" by (rule db_detD [OF assms(2)])
  ultimately show "db_bind m k [] d = (Inr y, [], d')" by (simp add: db_bind_def)
qed

lemma db_det_wrap [db_rules]: "db_det m \<Longrightarrow> db_det (db_wrap w m)"
  by (fastforce simp: db_det_def db_wrap_def split: prod.splits sum.splits)

lemma db_det_tx [db_rules]:
  assumes "db_det m"
  shows "db_det (db_tx m)"
  unfolding db_det_def
proof (intro allI impI)
  fix fs d y fs' d'
  assume run: "db_tx m fs d = (Inr y, fs', d')"
  then obtain t fs1 fs2 d1 where m: "m fs1 d = (Inr t, fs2, d1)"
    and t: "t = Commit y \<and> d' = d1 \<or> t = Rollback y \<and> d' = d"
    by (auto simp: db_tx_def split: prod.splits sum.splits tx.splits if_splits)
  from m have "m [] d = (Inr t, [], d1)" by (rule db_detD [OF assms])
  with t show "db_tx m [] d = (Inr y, [], d')" by (auto simp: db_tx_def)
qed

lemma db_det_foreach [db_rules]: "(\<And>x. db_det (f x)) \<Longrightarrow> db_det (db_foreach f xs)"
  by (induction xs) (auto intro: db_rules)

lemma db_safe_ret [db_rules]: "db_safe (db_ret x)"
  by (simp add: db_safe_def db_ret_def)

lemma db_safe_fail [db_rules]: "db_safe (db_fail e)"
  by (simp add: db_safe_def db_fail_def)

lemma db_safe_stmt [db_rules]: "db_safe (db_stmt f)"
  by (auto simp: db_safe_def db_stmt_def split: prod.splits sum.splits if_splits)

lemma db_safe_exec [db_rules]: "db_safe (db_exec f)"
  unfolding db_exec_def by (rule db_safe_stmt)

lemma db_safe_tx [db_rules]: "db_safe (db_tx m)"
  by (auto simp: db_safe_def db_tx_def split: prod.splits sum.splits tx.splits if_splits)

lemma db_safe_wrap [db_rules]: "db_safe m \<Longrightarrow> db_safe (db_wrap w m)"
  by (fastforce simp: db_safe_def db_wrap_def split: prod.splits sum.splits)

lemma db_safe_bind [db_rules]:
  assumes "db_readonly m" and "\<And>x. db_safe (k x)"
  shows "db_safe (db_bind m k)"
  using assms
  by (fastforce simp: db_safe_def db_readonly_def db_bind_def split: prod.splits sum.splits)

text \<open>A write followed by nothing but the returned value is as safe as the write.\<close>

lemma db_safe_bind_ret [db_rules]:
  assumes "db_safe m"
  shows "db_safe (db_bind m (\<lambda>x. db_ret (g x)))"
  using assms by (fastforce simp: db_safe_def db_bind_def db_ret_def split: prod.splits sum.splits)

lemma db_readonly_ret [db_rules]: "db_readonly (db_ret x)"
  by (simp add: db_readonly_def db_ret_def)

lemma db_readonly_fail [db_rules]: "db_readonly (db_fail e)"
  by (simp add: db_readonly_def db_fail_def)

lemma db_readonly_require [db_rules]: "db_readonly (db_require b e)"
  by (simp add: db_require_def db_readonly_ret db_readonly_fail)

lemma db_readonly_query [db_rules]: "db_readonly (db_query f)"
  by (auto simp: db_readonly_def db_query_def db_stmt_def split: prod.splits sum.splits if_splits)

lemma db_readonly_bind [db_rules]:
  assumes "db_readonly m" and "\<And>x. db_readonly (k x)"
  shows "db_readonly (db_bind m k)"
  using assms
  by (fastforce simp: db_readonly_def db_bind_def split: prod.splits sum.splits)

lemma db_readonly_wrap [db_rules]: "db_readonly m \<Longrightarrow> db_readonly (db_wrap w m)"
  by (fastforce simp: db_readonly_def db_wrap_def split: prod.splits sum.splits)

lemma db_readonly_try [db_rules]: "db_readonly m \<Longrightarrow> db_readonly (db_try m)"
  by (fastforce simp: db_readonly_def db_try_def split: prod.splits)

lemma db_readonly_safe: "db_readonly m \<Longrightarrow> db_safe m"
  by (auto simp: db_readonly_def db_safe_def)

lemma db_safe_require [db_rules]: "db_safe (db_require b e)"
  by (rule db_readonly_safe, rule db_readonly_require)

lemma db_safe_query [db_rules]: "db_safe (db_query f)"
  by (rule db_readonly_safe, rule db_readonly_query)

lemma db_safe_if [db_rules]: "db_safe a \<Longrightarrow> db_safe b \<Longrightarrow> db_safe (if c then a else b)"
  by simp

lemma db_det_if [db_rules]: "db_det a \<Longrightarrow> db_det b \<Longrightarrow> db_det (if c then a else b)"
  by simp

lemma db_readonly_if [db_rules]:
  "db_readonly a \<Longrightarrow> db_readonly b \<Longrightarrow> db_readonly (if c then a else b)"
  by simp

section \<open>The contract of a store operation\<close>

locale db_operation =
  fixes op_prog :: "('d, 'a) dbm"
  assumes op_det: "db_det op_prog"
    and op_safe: "db_safe op_prog"
begin

text \<open>Whatever fails, the operation reports an error and changed nothing, or did its whole work.\<close>

lemma atomic:
  "(\<exists>e fs'. op_prog fs d = (Inl e, fs', d)) \<or>
   (\<exists>x fs' d'. op_prog fs d = (Inr x, fs', d') \<and> op_prog [] d = (Inr x, [], d'))"
proof -
  obtain r fs' d' where run: "op_prog fs d = (r, fs', d')" by (cases "op_prog fs d")
  show ?thesis
  proof (cases r)
    case (Inl e)
    with run show ?thesis using op_safe by (auto dest: db_safeD)
  next
    case (Inr x)
    with run show ?thesis using op_det by (auto dest: db_detD)
  qed
qed

lemma error_unchanged: "op_prog fs d = (Inl e, fs', d') \<Longrightarrow> d' = d"
  using op_safe by (rule db_safeD)

lemma success: "op_prog fs d = (Inr x, fs', d') \<Longrightarrow> op_prog [] d = (Inr x, [], d')"
  using op_det by (rule db_detD)

lemma state_cases:
  "db_state (op_prog fs d) = d \<or>
   (\<exists>x fs'. op_prog fs d = (Inr x, fs', db_state (op_prog [] d)) \<and>
            op_prog [] d = (Inr x, [], db_state (op_prog [] d)))"
  using atomic [of fs d] by auto

text \<open>So a fact that the fault-free run keeps is kept by every run.\<close>

lemma preserves:
  assumes "\<And>x d'. op_prog [] d = (Inr x, [], d') \<Longrightarrow> P d'" and "P d"
  shows "P (db_state (op_prog fs d))"
  using atomic [of fs d] assms by auto

end

locale db_invariant_operation = db_operation op_prog
  for op_prog :: "('d, 'a) dbm" +
  fixes invar :: "'d \<Rightarrow> bool"
  assumes op_keeps: "invar d \<Longrightarrow> invar (db_state (op_prog [] d))"
begin

lemma keeps_invar: "invar d \<Longrightarrow> invar (db_state (op_prog fs d))"
  using state_cases [of fs d] op_keeps [of d] by auto

end

section \<open>Facts kept by a program\<close>

text \<open>
  \<open>db_keeps P m\<close>: whatever fails, and wherever the program stops, \<open>P\<close> still holds
  afterwards. It composes over every construct, so it also covers operations that are not
  \<open>db_safe\<close> and service code made of several operations.
\<close>

definition db_keeps :: "('d \<Rightarrow> bool) \<Rightarrow> ('d, 'a) dbm \<Rightarrow> bool" where
  "db_keeps P m \<longleftrightarrow> (\<forall>fs d. P d \<longrightarrow> P (db_state (m fs d)))"

named_theorems keeps_rules \<open>introduction rules for db_keeps\<close>

lemma db_keepsD: "db_keeps P m \<Longrightarrow> P d \<Longrightarrow> P (db_state (m fs d))"
  by (simp add: db_keeps_def)

lemma db_keeps_ret [keeps_rules]: "db_keeps P (db_ret x)"
  by (simp add: db_keeps_def db_ret_def)

lemma db_keeps_fail [keeps_rules]: "db_keeps P (db_fail e)"
  by (simp add: db_keeps_def db_fail_def)

lemma db_keeps_require [keeps_rules]: "db_keeps P (db_require b e)"
  by (simp add: db_keeps_def db_require_def db_ret_def db_fail_def)

lemma db_keeps_query [keeps_rules]: "db_keeps P (db_query f)"
  using db_readonly_query [of f] by (auto simp: db_keeps_def db_readonly_def) (metis prod.collapse)

lemma db_keeps_exec [keeps_rules]: "(\<And>d. P d \<Longrightarrow> P (snd (f d))) \<Longrightarrow> db_keeps P (db_exec f)"
  by (auto simp: db_keeps_def db_exec_def db_stmt_def split: prod.splits) (metis snd_conv)

lemma db_keeps_stmt [keeps_rules]:
  "(\<And>d. P d \<Longrightarrow> case f d of Inl e \<Rightarrow> True | Inr (x, d') \<Rightarrow> P d') \<Longrightarrow> db_keeps P (db_stmt f)"
  by (fastforce simp: db_keeps_def db_stmt_def split: prod.splits sum.splits)

lemma db_keeps_bind [keeps_rules]:
  assumes "db_keeps P m" and "\<And>x. db_keeps P (k x)"
  shows "db_keeps P (db_bind m k)"
  unfolding db_keeps_def
proof (intro allI impI)
  fix fs d assume "P d"
  obtain r fs' d' where m: "m fs d = (r, fs', d')" by (cases "m fs d")
  with assms(1) \<open>P d\<close> have "P d'" by (metis db_keepsD snd_conv)
  then show "P (db_state (db_bind m k fs d))"
    using assms(2) by (cases r) (auto simp: db_bind_def m db_keeps_def)
qed

lemma db_state_wrap [simp]: "db_state (db_wrap w m fs d) = db_state (m fs d)"
  by (simp add: db_wrap_def split: prod.splits sum.splits)

lemma db_state_try [simp]: "db_state (db_try m fs d) = db_state (m fs d)"
  by (simp add: db_try_def split: prod.splits)

lemma db_keeps_wrap [keeps_rules]: "db_keeps P m \<Longrightarrow> db_keeps P (db_wrap w m)"
  by (simp add: db_keeps_def)

lemma db_keeps_try [keeps_rules]: "db_keeps P m \<Longrightarrow> db_keeps P (db_try m)"
  by (simp add: db_keeps_def)

lemma db_keeps_tx [keeps_rules]: "db_keeps P m \<Longrightarrow> db_keeps P (db_tx m)"
  unfolding db_keeps_def db_tx_def
  by (auto split: prod.splits sum.splits tx.splits) (metis snd_conv)

lemma db_keeps_if [keeps_rules]:
  "(c \<Longrightarrow> db_keeps P a) \<Longrightarrow> (\<not> c \<Longrightarrow> db_keeps P b) \<Longrightarrow> db_keeps P (if c then a else b)"
  by simp

lemma db_keeps_case_sum [keeps_rules]:
  "(\<And>a. db_keeps P (f a)) \<Longrightarrow> (\<And>b. db_keeps P (g b)) \<Longrightarrow> db_keeps P (case s of Inl a \<Rightarrow> f a | Inr b \<Rightarrow> g b)"
  by (cases s) auto

lemma db_keeps_case_option [keeps_rules]:
  "db_keeps P f \<Longrightarrow> (\<And>b. db_keeps P (g b)) \<Longrightarrow> db_keeps P (case s of None \<Rightarrow> f | Some b \<Rightarrow> g b)"
  by (cases s) auto

lemma db_keeps_case_prod [keeps_rules]:
  "(\<And>a b. db_keeps P (f a b)) \<Longrightarrow> db_keeps P (case s of (a, b) \<Rightarrow> f a b)"
  by (cases s) auto

lemma db_keeps_let [keeps_rules]: "db_keeps P (f x) \<Longrightarrow> db_keeps P (Let x f)"
  by simp

lemma db_keeps_foreach [keeps_rules]: "(\<And>x. db_keeps P (f x)) \<Longrightarrow> db_keeps P (db_foreach f xs)"
  by (induction xs) (auto intro: keeps_rules)

context db_invariant_operation
begin

lemma keeps: "db_keeps invar op_prog"
  by (simp add: db_keeps_def keeps_invar)

end

section \<open>Inverting a successful run\<close>

lemma db_bind_success:
  "db_bind m k fs d = (Inr y, fs', d') \<Longrightarrow>
   \<exists>x fs1 d1. m fs d = (Inr x, fs1, d1) \<and> k x fs1 d1 = (Inr y, fs', d')"
  by (auto simp: db_bind_def split: prod.splits sum.splits)

lemma db_exec_success:
  "db_exec f fs d = (Inr x, fs', d') \<Longrightarrow> x = fst (f d) \<and> d' = snd (f d)"
  by (auto simp: db_exec_def db_stmt_def split: prod.splits if_splits)

lemma db_stmt_success: "db_stmt f fs d = (Inr x, fs', d') \<Longrightarrow> f d = Inr (x, d')"
  by (auto simp: db_stmt_def split: prod.splits if_splits sum.splits)

lemma db_query_success: "db_query f fs d = (Inr x, fs', d') \<Longrightarrow> f d = Inr x \<and> d' = d"
  by (auto simp: db_query_def db_stmt_def split: prod.splits if_splits sum.splits)

lemma db_fail_success: "db_fail e fs d = (Inr x, fs', d') \<Longrightarrow> False"
  by (simp add: db_fail_def)

lemma db_ret_success: "db_ret y fs d = (Inr x, fs', d') \<Longrightarrow> x = y \<and> d' = d"
  by (simp add: db_ret_def)

section \<open>Weakest preconditions\<close>

text \<open>
  \<open>db_wp m Q E d\<close>: run from \<open>d\<close> under any driver faults, \<open>m\<close> either succeeds with a value and
  a database that satisfy \<open>Q\<close>, or reports an error and leaves a database that satisfy \<open>E\<close>.
\<close>

definition db_wp ::
  "('d, 'a) dbm \<Rightarrow> ('a \<Rightarrow> 'd \<Rightarrow> bool) \<Rightarrow> (error \<Rightarrow> 'd \<Rightarrow> bool) \<Rightarrow> 'd \<Rightarrow> bool" where
  "db_wp m Q E d \<longleftrightarrow>
     (\<forall>fs. case m fs d of (Inr x, fs', d') \<Rightarrow> Q x d' | (Inl e, fs', d') \<Rightarrow> E e d')"

named_theorems wp_rules \<open>introduction rules for db_wp\<close>

lemma db_wpD:
  assumes "db_wp m Q E d"
  shows "m fs d = (Inr x, fs', d') \<Longrightarrow> Q x d'" and "m fs d = (Inl e, fs', d') \<Longrightarrow> E e d'"
  using spec [OF assms [unfolded db_wp_def], of fs] by auto

lemma db_wp_state: "db_wp m (\<lambda>_. P) (\<lambda>_. P) d \<Longrightarrow> P (db_state (m fs d))"
  unfolding db_wp_def by (drule spec [of _ fs]) (auto split: prod.splits sum.splits)

lemma db_wp_result:
  assumes "db_wp m (\<lambda>x d'. R (Inr x) d') (\<lambda>e d'. R (Inl e) d') d"
  shows "R (db_result (m fs d)) (db_state (m fs d))"
  using spec [OF assms [unfolded db_wp_def], of fs] by (auto split: prod.splits sum.splits)

lemma db_wp_conseq:
  "db_wp m Q E d \<Longrightarrow> (\<And>x d'. Q x d' \<Longrightarrow> Q' x d') \<Longrightarrow> (\<And>e d'. E e d' \<Longrightarrow> E' e d') \<Longrightarrow>
   db_wp m Q' E' d"
  by (force simp: db_wp_def split: prod.splits sum.splits)

lemma db_wp_conj:
  "db_wp m Q E d \<Longrightarrow> db_wp m Q' E' d \<Longrightarrow>
   db_wp m (\<lambda>x d. Q x d \<and> Q' x d) (\<lambda>e d. E e d \<and> E' e d) d"
  by (force simp: db_wp_def split: prod.splits sum.splits)

lemma db_wp_ret [wp_rules]: "Q x d \<Longrightarrow> db_wp (db_ret x) Q E d"
  by (simp add: db_wp_def db_ret_def)

lemma db_wp_fail [wp_rules]: "E e d \<Longrightarrow> db_wp (db_fail e) Q E d"
  by (simp add: db_wp_def db_fail_def)

lemma db_wp_upd [wp_rules]: "Q () (f d) \<Longrightarrow> db_wp (db_upd f) Q E d"
  by (simp add: db_wp_def db_upd_def)

lemma db_wp_get [wp_rules]: "Q (f d) d \<Longrightarrow> db_wp (db_get f) Q E d"
  by (simp add: db_wp_def db_get_def)

lemma db_wp_require [wp_rules]:
  "(b \<Longrightarrow> Q () d) \<Longrightarrow> (\<not> b \<Longrightarrow> E e d) \<Longrightarrow> db_wp (db_require b e) Q E d"
  by (simp add: db_wp_def db_require_def db_ret_def db_fail_def)

lemma db_wp_bind [wp_rules]:
  assumes "db_wp m (\<lambda>x d'. db_wp (k x) Q E d') E d"
  shows "db_wp (db_bind m k) Q E d"
  unfolding db_wp_def
proof
  fix fs
  obtain r fs' d' where m: "m fs d = (r, fs', d')" by (cases "m fs d")
  show "case db_bind m k fs d of (Inr x, fs', d') \<Rightarrow> Q x d' | (Inl e, fs', d') \<Rightarrow> E e d'"
  proof (cases r)
    case (Inl e)
    with db_wpD(2) [OF assms m [unfolded Inl]] m show ?thesis by (simp add: db_bind_def)
  next
    case (Inr x)
    from db_wpD(1) [OF assms m [unfolded Inr]] have "db_wp (k x) Q E d'" .
    with m Inr show ?thesis by (simp add: db_bind_def db_wp_def)
  qed
qed

lemma db_wp_stmt [wp_rules]:
  "E ErrDriver d \<Longrightarrow> (\<And>e. f d = Inl e \<Longrightarrow> E e d) \<Longrightarrow> (\<And>x d'. f d = Inr (x, d') \<Longrightarrow> Q x d') \<Longrightarrow>
   db_wp (db_stmt f) Q E d"
  by (auto simp: db_wp_def db_stmt_def split: prod.splits sum.splits)

lemma db_wp_exec [wp_rules]:
  "E ErrDriver d \<Longrightarrow> Q (fst (f d)) (snd (f d)) \<Longrightarrow> db_wp (db_exec f) Q E d"
  unfolding db_exec_def by (rule db_wp_stmt) auto

lemma db_wp_query [wp_rules]:
  "E ErrDriver d \<Longrightarrow> (\<And>e. f d = Inl e \<Longrightarrow> E e d) \<Longrightarrow> (\<And>x. f d = Inr x \<Longrightarrow> Q x d) \<Longrightarrow>
   db_wp (db_query f) Q E d"
  unfolding db_query_def by (rule db_wp_stmt) (auto split: sum.splits)

lemma db_wp_tx [wp_rules]:
  assumes "E ErrDriver d"
    and "db_wp m (\<lambda>r d'. case r of Commit x \<Rightarrow> Q x d' | Rollback x \<Rightarrow> Q x d) (\<lambda>e _. E e d) d"
  shows "db_wp (db_tx m) Q E d"
  unfolding db_wp_def
proof
  fix fs
  obtain fault fs1 where n: "next_fault fs = (fault, fs1)" by (cases "next_fault fs")
  obtain r fs2 d' where m: "m fs1 d = (r, fs2, d')" by (cases "m fs1 d")
  show "case db_tx m fs d of (Inr x, fs', d') \<Rightarrow> Q x d' | (Inl e, fs', d') \<Rightarrow> E e d'"
  proof (cases r)
    case (Inl e)
    with m assms n show ?thesis by (auto simp: db_tx_def dest: db_wpD)
  next
    case (Inr t)
    with db_wpD(1) [OF assms(2) m [unfolded Inr]] assms(1) m n show ?thesis
      by (cases t) (auto simp: db_tx_def split: prod.splits)
  qed
qed

lemma db_wp_wrap [wp_rules]: "db_wp m Q (\<lambda>e. E (w e)) d \<Longrightarrow> db_wp (db_wrap w m) Q E d"
  by (fastforce simp: db_wp_def db_wrap_def split: prod.splits sum.splits)

lemma db_wp_try [wp_rules]:
  "db_wp m (\<lambda>x. Q (Inr x)) (\<lambda>e. Q (Inl e)) d \<Longrightarrow> db_wp (db_try m) Q E d"
proof -
  assume m: "db_wp m (\<lambda>x. Q (Inr x)) (\<lambda>e. Q (Inl e)) d"
  have "Q (db_result (m fs d)) (db_state (m fs d))" for fs
    using db_wp_result [where R = Q, OF m] .
  then show ?thesis by (simp add: db_wp_def db_try_def split: prod.splits) (metis fst_conv snd_conv)
qed

lemma db_wp_if [wp_rules]:
  "(c \<Longrightarrow> db_wp a Q E d) \<Longrightarrow> (\<not> c \<Longrightarrow> db_wp b Q E d) \<Longrightarrow> db_wp (if c then a else b) Q E d"
  by simp

lemma db_wp_case_option [wp_rules]:
  "(x = None \<Longrightarrow> db_wp a Q E d) \<Longrightarrow> (\<And>y. x = Some y \<Longrightarrow> db_wp (b y) Q E d) \<Longrightarrow>
   db_wp (case x of None \<Rightarrow> a | Some y \<Rightarrow> b y) Q E d"
  by (cases x) auto

lemma db_wp_case_sum [wp_rules]:
  "(\<And>e. x = Inl e \<Longrightarrow> db_wp (a e) Q E d) \<Longrightarrow> (\<And>y. x = Inr y \<Longrightarrow> db_wp (b y) Q E d) \<Longrightarrow>
   db_wp (case x of Inl e \<Rightarrow> a e | Inr y \<Rightarrow> b y) Q E d"
  by (cases x) auto

lemma db_wp_case_prod [wp_rules]:
  "(\<And>a b. x = (a, b) \<Longrightarrow> db_wp (m a b) Q E d) \<Longrightarrow> db_wp (case x of (a, b) \<Rightarrow> m a b) Q E d"
  by (cases x) auto

lemma db_wp_let [wp_rules]: "(\<And>y. y = x \<Longrightarrow> db_wp (m y) Q E d) \<Longrightarrow> db_wp (Let x m) Q E d"
  by simp

lemma db_wp_foreach [wp_rules]:
  assumes "I d" "\<And>x d. x \<in> set xs \<Longrightarrow> I d \<Longrightarrow> db_wp (f x) (\<lambda>_. I) E d" "\<And>d. I d \<Longrightarrow> Q () d"
  shows "db_wp (db_foreach f xs) Q E d"
  using assms(1,2)
proof (induction xs arbitrary: d)
  case Nil
  with assms(3) show ?case by (simp add: db_wp_ret)
next
  case (Cons x xs)
  from Cons.prems have "db_wp (f x) (\<lambda>_. I) E d" by simp
  then have "db_wp (f x) (\<lambda>_ d'. db_wp (db_foreach f xs) Q E d') E d"
  proof (rule db_wp_conseq)
    fix d' assume "I d'"
    with Cons show "db_wp (db_foreach f xs) Q E d'" by simp
  qed
  then show ?case by (simp add: db_wp_bind)
qed

lemma db_keeps_upd [keeps_rules]: "(\<And>d. P d \<Longrightarrow> P (f d)) \<Longrightarrow> db_keeps P (db_upd f)"
  by (simp add: db_keeps_def db_upd_def)

lemma db_keeps_get [keeps_rules]: "db_keeps P (db_get f)"
  by (simp add: db_keeps_def db_get_def)

lemma db_keeps_wp: "db_keeps P m \<Longrightarrow> P d \<Longrightarrow> db_wp m (\<lambda>_. P) (\<lambda>_. P) d"
  unfolding db_wp_def
proof (intro allI)
  fix fs assume "db_keeps P m" "P d"
  then have "P (db_state (m fs d))" by (rule db_keepsD)
  then show "case m fs d of (Inl e, fs', x) \<Rightarrow> P x | (Inr a, fs', x) \<Rightarrow> P x"
    by (auto split: prod.splits sum.splits)
qed

section \<open>Programs that stay within an evolution of the database\<close>

text \<open>
  \<open>db_within R m\<close>: whatever fails, the database \<open>m\<close> leaves is related by \<open>R\<close> to the one it
  found. For a reflexive and transitive relation it composes over every construct.
\<close>

definition db_within :: "('d \<Rightarrow> 'd \<Rightarrow> bool) \<Rightarrow> ('d, 'a) dbm \<Rightarrow> bool" where
  "db_within R m \<longleftrightarrow> (\<forall>fs d. R d (db_state (m fs d)))"

named_theorems within_rules \<open>introduction rules for db_within\<close>

lemma db_withinD: "db_within R m \<Longrightarrow> R d (db_state (m fs d))"
  by (simp add: db_within_def)

lemma db_within_wp: "(\<And>d. db_wp m (\<lambda>_. R d) (\<lambda>_. R d) d) \<Longrightarrow> db_within R m"
  unfolding db_within_def using db_wp_state [where P = "R d" for d] by blast

lemma db_within_if [within_rules]:
  "(c \<Longrightarrow> db_within R a) \<Longrightarrow> (\<not> c \<Longrightarrow> db_within R b) \<Longrightarrow> db_within R (if c then a else b)"
  by simp

lemma db_within_case_option [within_rules]:
  "(x = None \<Longrightarrow> db_within R a) \<Longrightarrow> (\<And>y. x = Some y \<Longrightarrow> db_within R (b y)) \<Longrightarrow>
   db_within R (case x of None \<Rightarrow> a | Some y \<Rightarrow> b y)"
  by (cases x) auto

lemma db_within_case_sum [within_rules]:
  "(\<And>e. db_within R (a e)) \<Longrightarrow> (\<And>y. db_within R (b y)) \<Longrightarrow>
   db_within R (case x of Inl e \<Rightarrow> a e | Inr y \<Rightarrow> b y)"
  by (cases x) auto

lemma db_within_case_prod [within_rules]:
  "(\<And>a b. x = (a, b) \<Longrightarrow> db_within R (m a b)) \<Longrightarrow> db_within R (case x of (a, b) \<Rightarrow> m a b)"
  by (cases x) auto

lemma db_within_let [within_rules]: "(\<And>y. db_within R (m y)) \<Longrightarrow> db_within R (Let x m)"
  by simp

locale evolution =
  fixes evo :: "'d \<Rightarrow> 'd \<Rightarrow> bool"
  assumes evo_refl: "evo d d"
    and evo_trans: "evo d e \<Longrightarrow> evo e g \<Longrightarrow> evo d g"
begin

lemma within_ret [within_rules]: "db_within evo (db_ret x)"
  by (simp add: db_within_def db_ret_def evo_refl)

lemma within_fail [within_rules]: "db_within evo (db_fail e)"
  by (simp add: db_within_def db_fail_def evo_refl)

lemma within_query [within_rules]: "db_within evo (db_query f)"
  by (rule db_within_wp, rule db_wp_query) (rule evo_refl)+

lemma within_stmt [within_rules]:
  "(\<And>d x d'. f d = Inr (x, d') \<Longrightarrow> evo d d') \<Longrightarrow> db_within evo (db_stmt f)"
  by (rule db_within_wp, rule db_wp_stmt) (auto intro: evo_refl)

lemma within_exec [within_rules]: "(\<And>d. evo d (snd (f d))) \<Longrightarrow> db_within evo (db_exec f)"
  by (rule db_within_wp, rule db_wp_exec) (auto intro: evo_refl)

lemma within_bind [within_rules]:
  assumes "db_within evo m" "\<And>x. db_within evo (k x)"
  shows "db_within evo (db_bind m k)"
  unfolding db_within_def
proof (intro allI)
  fix fs d
  obtain r fs' d' where m: "m fs d = (r, fs', d')" by (cases "m fs d")
  with assms(1) have "evo d d'" by (metis db_withinD snd_conv)
  then show "evo d (db_state (db_bind m k fs d))"
    using assms(2) by (cases r) (auto simp: db_bind_def m db_within_def intro: evo_trans)
qed

lemma within_upd [within_rules]: "(\<And>d. evo d (f d)) \<Longrightarrow> db_within evo (db_upd f)"
  by (simp add: db_within_def db_upd_def)

lemma within_get [within_rules]: "db_within evo (db_get f)"
  by (simp add: db_within_def db_get_def evo_refl)

lemma within_try [within_rules]: "db_within evo m \<Longrightarrow> db_within evo (db_try m)"
  by (simp add: db_within_def)

lemma within_tx [within_rules]: "db_within evo m \<Longrightarrow> db_within evo (db_tx m)"
proof (rule db_within_wp, rule db_wp_tx, rule evo_refl)
  fix d assume m: "db_within evo m"
  show "db_wp m (\<lambda>r d'. case r of Commit x \<Rightarrow> evo d d' | Rollback x \<Rightarrow> evo d d) (\<lambda>e _. evo d d) d"
    unfolding db_wp_def
  proof
    fix fs
    have "evo d (db_state (m fs d))" using m by (rule db_withinD)
    then show "case m fs d of (Inr r, fs', d') \<Rightarrow> (case r of Commit x \<Rightarrow> evo d d' | Rollback x \<Rightarrow> evo d d)
        | (Inl e, fs', d') \<Rightarrow> evo d d"
      by (auto simp: evo_refl split: prod.splits sum.splits tx.splits)
  qed
qed

lemma within_wrap [within_rules]: "db_within evo m \<Longrightarrow> db_within evo (db_wrap w m)"
  by (simp add: db_within_def)

lemma within_foreach [within_rules]: "(\<And>x. db_within evo (f x)) \<Longrightarrow> db_within evo (db_foreach f xs)"
  by (induction xs) (auto intro: within_ret within_bind)

end
lemma db_wp_any: "db_wp m (\<lambda>_ _. True) (\<lambda>_ _. True) d"
  by (auto simp: db_wp_def split: prod.splits sum.splits)

lemma db_within_wpD: "db_within R m \<Longrightarrow> db_wp m (\<lambda>_. R d) (\<lambda>_. R d) d"
  unfolding db_within_def db_wp_def by (auto split: prod.splits sum.splits) (metis snd_conv)+

section \<open>Runs that complete\<close>

text \<open>
  \<open>db_total m Q d\<close>: without faults \<open>m\<close> succeeds from \<open>d\<close>, with a value and a database that satisfy
  \<open>Q\<close>. Unlike \<open>db_wp\<close> it says that there is a result.
\<close>

definition db_total :: "('d, 'a) dbm \<Rightarrow> ('a \<Rightarrow> 'd \<Rightarrow> bool) \<Rightarrow> 'd \<Rightarrow> bool" where
  "db_total m Q d \<longleftrightarrow> (\<exists>x d'. m [] d = (Inr x, [], d') \<and> Q x d')"

named_theorems total_rules \<open>introduction rules for db_total\<close>

lemma db_total_conseq: "db_total m Q d \<Longrightarrow> (\<And>x d'. Q x d' \<Longrightarrow> Q' x d') \<Longrightarrow> db_total m Q' d"
  by (auto simp: db_total_def)

lemma db_total_wp:
  assumes "db_total m Q d" "db_wp m R E d"
  shows "db_total m (\<lambda>x d'. Q x d' \<and> R x d') d"
  using assms db_wpD(1) [OF assms(2)] by (fastforce simp: db_total_def)

lemma db_total_ret [total_rules]: "Q x d \<Longrightarrow> db_total (db_ret x) Q d"
  by (simp add: db_total_def db_ret_def)

lemma db_total_upd [total_rules]: "Q () (f d) \<Longrightarrow> db_total (db_upd f) Q d"
  by (simp add: db_total_def db_upd_def)

lemma db_total_get [total_rules]: "Q (f d) d \<Longrightarrow> db_total (db_get f) Q d"
  by (simp add: db_total_def db_get_def)

lemma db_total_exec [total_rules]: "Q (fst (f d)) (snd (f d)) \<Longrightarrow> db_total (db_exec f) Q d"
  by (simp add: db_total_def db_exec_eval)

lemma db_total_query [total_rules]: "f d = Inr x \<Longrightarrow> Q x d \<Longrightarrow> db_total (db_query f) Q d"
  by (simp add: db_total_def db_query_eval)

lemma db_total_require [total_rules]: "b \<Longrightarrow> Q () d \<Longrightarrow> db_total (db_require b e) Q d"
  by (simp add: db_total_def db_require_eval)

lemma db_total_bind [total_rules]:
  "db_total m (\<lambda>x d'. db_total (k x) Q d') d \<Longrightarrow> db_total (db_bind m k) Q d"
  by (auto simp: db_total_def db_bind_def)

lemma db_total_try [total_rules]: "db_total m (\<lambda>x. Q (Inr x)) d \<Longrightarrow> db_total (db_try m) Q d"
  by (auto simp: db_total_def db_try_def)

lemma db_total_wrap [total_rules]: "db_total m Q d \<Longrightarrow> db_total (db_wrap w m) Q d"
  by (auto simp: db_total_def db_wrap_def)

lemma db_total_if [total_rules]:
  "(c \<Longrightarrow> db_total a Q d) \<Longrightarrow> (\<not> c \<Longrightarrow> db_total b Q d) \<Longrightarrow> db_total (if c then a else b) Q d"
  by simp

lemma db_total_foreach [total_rules]:
  assumes "I d" "\<And>x d. x \<in> set xs \<Longrightarrow> I d \<Longrightarrow> db_total (f x) (\<lambda>_. I) d" "\<And>d. I d \<Longrightarrow> Q () d"
  shows "db_total (db_foreach f xs) Q d"
  using assms(1,2)
proof (induction xs arbitrary: d)
  case Nil
  with assms(3) show ?case by (simp add: db_total_ret)
next
  case (Cons x xs)
  from Cons.prems have "db_total (f x) (\<lambda>_. I) d" by simp
  then have "db_total (f x) (\<lambda>_ d'. db_total (db_foreach f xs) Q d') d"
  proof (rule db_total_conseq)
    fix d' assume "I d'"
    with Cons show "db_total (db_foreach f xs) Q d'" by simp
  qed
  then show ?case by (simp add: db_total_bind)
qed

end
