(* ===== verification/Models.thy ===== *)
theory Models
  imports DbMonad Complex_Main
begin

text \<open>
  The data model: the structs of \<open>internal/domain\<close> as records, in the order of their Go fields,
  and the database \<open>db\<close> as a record of tables (the \<open>CREATE TABLE\<close> statements of
  \<open>internal/storage/sqlite.go\<close>). A row of a table is the struct the storage code scans it
  into. Columns stored as JSON hold the decoded value, which is what the code marshals into
  them; a column that a statement leaves unset (\<open>NULL\<close>) is an \<open>option\<close>. Field names carry a
  prefix for their struct, because HOL record fields share one name space.

  \<open>float64\<close> progress values are rational numbers: rounding is not modelled.
\<close>

section \<open>internal/domain/models.go\<close>

record DriveAccount =
  acc_ID :: string
  acc_Type :: string
  acc_Name :: string
  acc_Cookie :: string
  acc_Token :: string
  acc_IsDefault :: bool
  acc_Status :: string
  acc_QuotaUsed :: int64
  acc_QuotaTotal :: int64
  acc_VIPLevel :: int
  acc_VIPExpiresAt :: "gotime option"
  acc_CreatedAt :: gotime
  acc_UpdatedAt :: gotime

record DriveFile =
  file_FileID :: string
  file_ParentID :: string
  file_Name :: string
  file_Size :: int64
  file_PickCode :: string
  file_Sha1 :: string
  file_Revision :: string
  file_IsFolder :: bool
  file_UpdatedTime :: gotime

record DestructiveTarget =
  tgt_FileID :: string
  tgt_Name :: string
  tgt_IsFolder :: bool
  tgt_Size :: int64

record DestructiveApproval =
  apr_ID :: string
  apr_Action :: string
  apr_AccountID :: string
  apr_ParentCID :: string
  apr_Targets :: "DestructiveTarget list"
  apr_Status :: string
  apr_RequestedBy :: string
  apr_ApprovedBy :: string
  apr_Error :: string
  apr_ExpiresAt :: gotime
  apr_CreatedAt :: gotime
  apr_DecidedAt :: "gotime option"
  apr_ExecutedAt :: "gotime option"

record ShareSubscription =
  sub_ID :: string
  sub_Name :: string
  sub_Provider :: string
  sub_URL :: string
  sub_Password :: string
  sub_TargetCID :: string
  sub_Active :: bool
  sub_LastCursorTime :: gotime
  sub_LastError :: string
  sub_LastSyncAt :: gotime
  sub_CreatedAt :: gotime
  sub_UpdatedAt :: gotime

record ScheduledTask =
  sch_ID :: string
  sch_Type :: string
  sch_Name :: string
  sch_CronExpr :: string
  sch_Enabled :: bool
  sch_Status :: string
  sch_Progress :: rat
  sch_Params :: string
  sch_Result :: string
  sch_Error :: string
  sch_LastRunAt :: "gotime option"
  sch_NextRunAt :: "gotime option"
  sch_CreatedAt :: gotime
  sch_UpdatedAt :: gotime

record TaskRun =
  run_ID :: nat
  run_TaskID :: string
  run_Attempt :: nat
  run_Status :: string
  run_Progress :: rat
  run_Logs :: "string list"
  run_Error :: "string option"
  run_StartedAt :: gotime
  run_CompletedAt :: "gotime option"

record AsyncTask =
  task_ID :: string
  task_Type :: string
  task_ScheduleID :: string
  task_Payload :: payload
  task_Status :: string
  task_Progress :: rat
  task_Result :: string
  task_Error :: string
  task_Attempts :: nat
  task_MaxAttempts :: int
  task_CreatedAt :: gotime
  task_UpdatedAt :: gotime

record AgentToken =
  tok_ID :: string
  tok_Token :: string
  tok_Name :: string
  tok_Role :: string
  tok_Scopes :: "string list"
  tok_RateLimit :: int
  tok_Enabled :: bool
  tok_LastUsedAt :: "gotime option"
  tok_CreatedAt :: gotime

record AuditLog =
  log_ID :: nat
  log_Caller :: string
  log_TokenID :: string
  log_AgentName :: string
  log_Action :: string
  log_Target :: string
  log_Input :: string
  log_Output :: string
  log_Status :: string
  log_LatencyMS :: int64
  log_IP :: string
  log_CreatedAt :: gotime

section \<open>internal/domain/cross\_drive.go\<close>

record CrossDriveImport =
  imp_TaskID :: string
  imp_PriorTaskID :: string
  imp_Phase :: string
  imp_QuarkAccountID :: string
  imp_SavedRootIDs :: "string list"
  imp_QuarkTargetID :: string
  imp_C115AccountID :: string
  imp_SelectedSourceIDs :: "string list"
  imp_AutofillLibraryName :: string
  imp_AutofillLibraryID :: string
  imp_AutofillLibraryCID :: string
  imp_AutofillSeriesID :: string
  imp_AutofillTMDBID :: string
  imp_AutofillSeriesFolder :: string
  imp_ExpectedEpisodes :: "string list"
  imp_DestinationCID :: string
  imp_DestinationPath :: string
  imp_TotalFiles :: nat
  imp_CompletedFiles :: nat
  imp_TotalBytes :: int64
  imp_CompletedBytes :: int64
  imp_CurrentFile :: string
  imp_CancelRequested :: bool
  imp_Error :: string
  imp_CreatedAt :: gotime
  imp_UpdatedAt :: gotime

text \<open>The row has one column more than the struct: the owner of the active run.\<close>

record CrossDriveImportRow = CrossDriveImport +
  imp_RunOwner :: "string option"

record CrossDriveItem =
  item_ID :: nat
  item_TaskID :: string
  item_SourceFileID :: string
  item_SourceRevision :: string
  item_RelativePath :: string
  item_Name :: string
  item_Size :: int64
  item_SHA1 :: string
  item_PreSHA1 :: string
  item_State :: string
  item_SpoolPath :: string
  item_DownloadedBytes :: int64
  item_DestinationParent :: string
  item_DestinationID :: string
  item_UploadID :: string
  item_UploadBucket :: string
  item_UploadObject :: string
  item_Error :: string
  item_UpdatedAt :: gotime

record CrossDriveUploadPart =
  part_ItemID :: nat
  part_PartNumber :: int
  part_ETag :: string
  part_Size :: int64

record CrossDriveImportDetail =
  det_Import :: CrossDriveImport
  det_Items :: "CrossDriveItem list"

section \<open>The database\<close>

record DownloadSegmentRow =
  seg_Spool :: string
  seg_Segment :: int
  seg_Bytes :: int64

record SettingRow =
  set_Key :: string
  set_Value :: string
  set_UpdatedAt :: gotime

record ConfigRow =
  cfg_Key :: string
  cfg_Value :: string
  cfg_Description :: string
  cfg_UpdatedAt :: gotime

record db =
  drive_accounts :: "DriveAccount list"
  scheduled_tasks :: "ScheduledTask list"
  async_tasks :: "AsyncTask list"
  task_runs :: "TaskRun list"
  task_runs_seq :: nat
  cross_drive_imports :: "CrossDriveImportRow list"
  cross_drive_items :: "CrossDriveItem list"
  cross_drive_items_seq :: nat
  cross_drive_download_segments_v2 :: "DownloadSegmentRow list"
  cross_drive_upload_parts :: "CrossDriveUploadPart list"
  agent_tokens :: "AgentToken list"
  agent_audit_logs :: "AuditLog list"
  agent_audit_logs_seq :: nat
  destructive_approvals :: "DestructiveApproval list"
  system_configs :: "ConfigRow list"
  system_settings :: "SettingRow list"
  share_subscriptions :: "ShareSubscription list"

type_synonym 'a dbop = "(db, 'a) dbm"

text \<open>A freshly migrated database.\<close>

definition empty_db :: db where
  "empty_db = \<lparr>drive_accounts = [], scheduled_tasks = [], async_tasks = [], task_runs = [],
     task_runs_seq = 0, cross_drive_imports = [], cross_drive_items = [],
     cross_drive_items_seq = 0, cross_drive_download_segments_v2 = [],
     cross_drive_upload_parts = [], agent_tokens = [], agent_audit_logs = [],
     agent_audit_logs_seq = 0, destructive_approvals = [], system_configs = [],
     system_settings = [], share_subscriptions = []\<rparr>"

end
