(* ===== verification/TaskStore.thy ===== *)
theory TaskStore
  imports Models
begin

text \<open>
  The task tables of \<open>internal/storage/sqlite.go\<close>: \<open>async_tasks\<close> (one row per task), and
  \<open>task_runs\<close> (one row per execution attempt). First the operations, statement by statement;
  then the consistency of the two tables, \<open>task_store_inv\<close>, with the lemma that each
  operation keeps it under any driver faults; then the facts about single operations. Among the
  operations are the statements with which \<open>migrate\<close> redacts error texts when the database is opened.
  \<open>now\<close> stands for the reading of \<open>time.Now()\<close> an operation makes.
\<close>

section \<open>Operations\<close>

text \<open>What \<open>json.Marshal\<close> followed by \<open>json.Unmarshal\<close> into \<open>any\<close> makes of a payload value.\<close>

fun json_value :: "goval \<Rightarrow> goval" where
  "json_value (VStrs xs) = VList (map VStr xs)"
| "json_value (VList xs) = VList (map json_value xs)"
| "json_value (VMap kvs) = VMap (map (\<lambda>kv. (fst kv, json_value (snd kv))) kvs)"
| "json_value v = v"

definition json_payload :: "payload \<Rightarrow> payload" where
  "json_payload p = map (\<lambda>(k, v). (k, json_value v)) p"

definition prepareAsyncTask :: "AsyncTask \<Rightarrow> gotime \<Rightarrow> AsyncTask" where
  "prepareAsyncTask task now =
     (let created = (if task_CreatedAt task = 0 then now else task_CreatedAt task)
      in task\<lparr>task_Status := (if task_Status task = '''' then ''pending'' else task_Status task),
              task_MaxAttempts := (if task_MaxAttempts task \<le> 0 then 1 else task_MaxAttempts task),
              task_CreatedAt := created, task_UpdatedAt := created\<rparr>)"

lemma prepareAsyncTask_simps [simp]:
  "task_ID (prepareAsyncTask task now) = task_ID task"
  "task_Type (prepareAsyncTask task now) = task_Type task"
  "task_ScheduleID (prepareAsyncTask task now) = task_ScheduleID task"
  "task_Payload (prepareAsyncTask task now) = task_Payload task"
  "task_Attempts (prepareAsyncTask task now) = task_Attempts task"
  by (simp_all add: prepareAsyncTask_def Let_def)

definition insertAsyncTask :: "AsyncTask \<Rightarrow> unit dbop" where
  "insertAsyncTask task =
     db_stmt (\<lambda>d. if task_ID task \<in> set (map task_ID (async_tasks d)) then Inl ErrConstraint
                  else Inr ((), d\<lparr>async_tasks := async_tasks d @
                                   [task\<lparr>task_Payload := json_payload (task_Payload task)\<rparr>]\<rparr>))"

definition update_tasks :: "(AsyncTask \<Rightarrow> bool) \<Rightarrow> (AsyncTask \<Rightarrow> AsyncTask) \<Rightarrow> nat dbop" where
  "update_tasks p f =
     db_exec (\<lambda>d. (sql_count p (async_tasks d),
                   d\<lparr>async_tasks := sql_update p f (async_tasks d)\<rparr>))"

definition update_runs :: "(TaskRun \<Rightarrow> bool) \<Rightarrow> (TaskRun \<Rightarrow> TaskRun) \<Rightarrow> nat dbop" where
  "update_runs p f =
     db_exec (\<lambda>d. (sql_count p (task_runs d), d\<lparr>task_runs := sql_update p f (task_runs d)\<rparr>))"

definition CreateAsyncTask :: "AsyncTask \<Rightarrow> gotime \<Rightarrow> AsyncTask dbop" where
  "CreateAsyncTask task now =
     (let t = prepareAsyncTask task now in db_bind (insertAsyncTask t) (\<lambda>_. db_ret t))"

definition CreateScheduledAsyncTask :: "AsyncTask \<Rightarrow> string \<Rightarrow> gotime \<Rightarrow> AsyncTask dbop" where
  "CreateScheduledAsyncTask task scheduleID now =
     (let t = prepareAsyncTask (task\<lparr>task_ScheduleID := scheduleID\<rparr>) now
      in db_tx (db_bind (insertAsyncTask t) (\<lambda>_.
         db_bind (db_exec (\<lambda>d. (sql_count (\<lambda>s. sch_ID s = scheduleID) (scheduled_tasks d),
                    d\<lparr>scheduled_tasks := sql_update (\<lambda>s. sch_ID s = scheduleID)
                        (\<lambda>s. s\<lparr>sch_LastRunAt := Some (task_CreatedAt t), sch_Result := task_ID t,
                                 sch_Error := '''', sch_UpdatedAt := task_CreatedAt t\<rparr>)
                        (scheduled_tasks d)\<rparr>))) (\<lambda>changed.
         if changed \<noteq> 1 then db_fail (Errorf ''scheduled task %s not found'' [scheduleID])
         else db_ret (Commit t)))))"

definition limit_rows :: "int \<Rightarrow> 'r list \<Rightarrow> 'r list" where
  "limit_rows limit rows = (if limit > 0 then take (nat limit) rows else rows)"

definition ListAsyncTasks :: "string \<Rightarrow> int \<Rightarrow> AsyncTask list dbop" where
  "ListAsyncTasks status limit =
     db_query (\<lambda>d. Inr (limit_rows limit
       (rev (sort_key (\<lambda>t. (task_CreatedAt t, task_ID t))
          (filter (\<lambda>t. status = '''' \<or> task_Status t = status) (async_tasks d))))))"

definition pending_order :: "AsyncTask list \<Rightarrow> AsyncTask list" where
  "pending_order tasks =
     sort_key (\<lambda>t. (task_CreatedAt t, task_ID t)) (filter (\<lambda>t. task_Status t = ''pending'') tasks)"

definition ListPendingAsyncTasks :: "int \<Rightarrow> AsyncTask list dbop" where
  "ListPendingAsyncTasks limit =
     db_query (\<lambda>d. Inr (limit_rows limit (pending_order (async_tasks d))))"

definition GetAsyncTask :: "string \<Rightarrow> AsyncTask dbop" where
  "GetAsyncTask id' =
     db_query (\<lambda>d. case sql_find (\<lambda>t. task_ID t = id') (async_tasks d) of
                     None \<Rightarrow> Inl ErrNoRows | Some t \<Rightarrow> Inr t)"

text \<open>\<open>INSERT INTO task_runs\<close>: the foreign key, \<open>UNIQUE(task_id, attempt)\<close>, the next id.\<close>

definition insert_run :: "string \<Rightarrow> nat \<Rightarrow> rat \<Rightarrow> gotime \<Rightarrow> nat dbop" where
  "insert_run tid attempt progress now =
     db_stmt (\<lambda>d.
       if tid \<notin> set (map task_ID (async_tasks d)) \<or>
          (\<exists>r \<in> set (task_runs d). run_TaskID r = tid \<and> run_Attempt r = attempt)
       then Inl ErrConstraint
       else let rid = Suc (task_runs_seq d) in
         Inr (rid, d\<lparr>task_runs := task_runs d @
                [\<lparr>run_ID = rid, run_TaskID = tid, run_Attempt = attempt, run_Status = ''running'',
                  run_Progress = progress, run_Logs = [], run_Error = None, run_StartedAt = now,
                  run_CompletedAt = None\<rparr>],
              task_runs_seq := rid\<rparr>))"

definition claimable :: "string \<Rightarrow> AsyncTask \<Rightarrow> bool" where
  "claimable id' t \<longleftrightarrow> task_ID t = id' \<and> task_Status t = ''pending'' \<and>
                      int (task_Attempts t) < task_MaxAttempts t"

definition claim_task :: "gotime \<Rightarrow> AsyncTask \<Rightarrow> AsyncTask" where
  "claim_task now t = t\<lparr>task_Status := ''running'',
     task_Progress := (if task_Type t = ''quark_to_115_import'' then task_Progress t else 0),
     task_Result := '''', task_Error := '''', task_Attempts := task_Attempts t + 1,
     task_UpdatedAt := now\<rparr>"

text \<open>The result \<open>None\<close> stands for \<open>nil, false, nil\<close>: the task was not claimed.\<close>

definition BeginAsyncTask :: "string \<Rightarrow> gotime \<Rightarrow> TaskRun option dbop" where
  "BeginAsyncTask id' now =
     db_tx (db_bind (update_tasks (claimable id') (claim_task now)) (\<lambda>changed.
       if changed = 0 then db_ret (Rollback None)
       else db_bind (GetAsyncTask id') (\<lambda>t.
         db_bind (insert_run id' (task_Attempts t) (task_Progress t) now) (\<lambda>runID.
           db_ret (Commit (Some \<lparr>run_ID = runID, run_TaskID = id', run_Attempt = task_Attempts t,
              run_Status = ''running'', run_Progress = task_Progress t, run_Logs = [],
              run_Error = None, run_StartedAt = now, run_CompletedAt = None\<rparr>))))))"

definition UpdateAsyncTaskProgress :: "string \<Rightarrow> rat \<Rightarrow> gotime \<Rightarrow> unit dbop" where
  "UpdateAsyncTaskProgress id' progress now =
     db_tx (db_bind (update_tasks (\<lambda>t. task_ID t = id' \<and> task_Status t = ''running'')
                      (\<lambda>t. t\<lparr>task_Progress := max (task_Progress t) progress,
                               task_UpdatedAt := now\<rparr>)) (\<lambda>_.
       db_bind (db_exec (\<lambda>d. ((), case sql_last (\<lambda>r. run_TaskID r = id') (task_runs d) of
                  None \<Rightarrow> d
                | Some latest \<Rightarrow> d\<lparr>task_runs := sql_update (\<lambda>r. run_ID r = run_ID latest)
                     (\<lambda>r. r\<lparr>run_Progress := max (run_Progress r) progress\<rparr>) (task_runs d)\<rparr>)))
         (\<lambda>_. db_ret (Commit ()))))"

definition AppendTaskLog :: "string \<Rightarrow> string \<Rightarrow> unit dbop" where
  "AppendTaskLog id' message =
     db_bind (db_query (\<lambda>d. case sql_last (\<lambda>r. run_TaskID r = id') (task_runs d) of
                 None \<Rightarrow> Inl ErrNoRows | Some r \<Rightarrow> Inr r)) (\<lambda>latest.
       db_bind (update_runs (\<lambda>r. run_ID r = run_ID latest)
                  (\<lambda>r. r\<lparr>run_Logs := run_Logs latest @ [message]\<rparr>)) (\<lambda>_. db_ret ()))"

definition FinishAsyncTask ::
  "string \<Rightarrow> string \<Rightarrow> rat \<Rightarrow> string \<Rightarrow> string \<Rightarrow> string \<Rightarrow> gotime \<Rightarrow> unit dbop" where
  "FinishAsyncTask id' status progress resultText errText logMessage now =
     db_tx (db_bind (db_wrap (Wrapf ''task %s has no running execution record: %w'' [id'])
              (db_query (\<lambda>d. case sql_last (\<lambda>r. run_TaskID r = id' \<and> run_Status r = ''running'')
                                  (task_runs d) of
                 None \<Rightarrow> Inl ErrNoRows | Some r \<Rightarrow> Inr r))) (\<lambda>active.
       let logs = (if logMessage \<noteq> '''' then run_Logs active @ [logMessage] else run_Logs active) in
       db_bind (update_tasks (\<lambda>t. task_ID t = id' \<and> task_Status t = ''running'')
                  (\<lambda>t. t\<lparr>task_Status := status, task_Progress := progress,
                           task_Result := resultText, task_Error := errText,
                           task_UpdatedAt := now\<rparr>)) (\<lambda>changed.
       if changed \<noteq> 1
       then db_fail (Errorf ''task %s is no longer owned by the running worker'' [id'])
       else db_bind (update_runs (\<lambda>r. run_ID r = run_ID active \<and> run_Status r = ''running'')
                  (\<lambda>r. r\<lparr>run_Status := status, run_Progress := progress, run_Logs := logs,
                           run_Error := Some errText, run_CompletedAt := Some now\<rparr>)) (\<lambda>changed'.
       if changed' \<noteq> 1
       then db_fail (Errorf ''task %s lost its running execution record'' [id'])
       else db_ret (Commit ())))))"

definition CancelPendingAsyncTask :: "string \<Rightarrow> gotime \<Rightarrow> bool dbop" where
  "CancelPendingAsyncTask id' now =
     db_bind (update_tasks (\<lambda>t. task_ID t = id' \<and> task_Status t = ''pending'')
                (\<lambda>t. t\<lparr>task_Status := ''cancelled'', task_Error := ''cancelled by operator'',
                         task_UpdatedAt := now\<rparr>)) (\<lambda>changed. db_ret (changed > 0))"

definition recover_message :: string where
  "recover_message =
     ''service restarted while task was running; verify upstream state before retrying''"

definition recover_reconcile :: string where
  "recover_reconcile = ''service restarted; reconciling durable cross-drive checkpoints''"

definition RecoverInterruptedAsyncTasks :: "gotime \<Rightarrow> unit dbop" where
  "RecoverInterruptedAsyncTasks now =
     db_tx (db_bind (update_tasks
                (\<lambda>t. task_Status t = ''running'' \<and> task_Type t \<noteq> ''quark_to_115_import'')
                (\<lambda>t. t\<lparr>task_Status := ''failed'', task_Error := recover_message,
                         task_UpdatedAt := now\<rparr>)) (\<lambda>_.
       db_bind (update_tasks
                (\<lambda>t. task_Status t = ''running'' \<and> task_Type t = ''quark_to_115_import'')
                (\<lambda>t. t\<lparr>task_Status := ''pending'', task_Error := recover_reconcile,
                         task_MaxAttempts := max (task_MaxAttempts t) (int (task_Attempts t) + 1),
                         task_UpdatedAt := now\<rparr>)) (\<lambda>_.
       db_bind (db_exec (\<lambda>d. ((), d\<lparr>cross_drive_imports := sql_update
                (\<lambda>i. \<exists>t \<in> set (async_tasks d). task_ID t = imp_TaskID i \<and>
                       task_Type t = ''quark_to_115_import'' \<and> task_Status t = ''pending'')
                (\<lambda>i. i\<lparr>imp_RunOwner := None, imp_Error := recover_reconcile,
                         imp_UpdatedAt := now\<rparr>) (cross_drive_imports d)\<rparr>))) (\<lambda>_.
       db_bind (update_runs (\<lambda>r. run_Status r = ''running'')
                (\<lambda>r. r\<lparr>run_Status := ''failed'', run_Error := Some recover_message,
                         run_CompletedAt := Some now\<rparr>)) (\<lambda>_.
       db_ret (Commit ()))))))"

definition ListTaskRuns :: "string \<Rightarrow> TaskRun list dbop" where
  "ListTaskRuns taskID =
     db_query (\<lambda>d. Inr (sort_key run_Attempt (filter (\<lambda>r. run_TaskID r = taskID) (task_runs d))))"

text \<open>
  The last statements of \<open>migrate\<close>, run whenever the database is opened: error texts that hold a part of
  a signed download address are replaced. SQLite's \<open>LIKE '%p%'\<close> finds \<open>p\<close> anywhere, with no regard to the case of
  ASCII letters; a NULL is not found. The column \<open>logs\<close> holds the JSON of its entries, which spells the
  letters, hyphens and equality signs of the three patterns as they are. Each statement commits on its own.
\<close>

fun starts_like :: "string \<Rightarrow> string \<Rightarrow> bool" where
  "starts_like [] s = True"
| "starts_like (c # p) [] = False"
| "starts_like (c # p) (x # s) = (ascii_lower c = ascii_lower x \<and> starts_like p s)"

fun like_within :: "string \<Rightarrow> string \<Rightarrow> bool" where
  "like_within p [] = starts_like p []"
| "like_within p (x # s) = (starts_like p (x # s) \<or> like_within p s)"

definition signed_text :: "string \<Rightarrow> bool" where
  "signed_text e \<longleftrightarrow> like_within ''dl-pc-'' e \<or> like_within ''OSSAccessKeyId='' e \<or> like_within ''callback-var='' e"

definition redacted_text :: string where
  "redacted_text = ''Quark download request failed; signed URL removed''"

definition redactable_task :: "AsyncTask \<Rightarrow> bool" where
  "redactable_task t \<longleftrightarrow> task_Type t = ''quark_to_115_import'' \<and> signed_text (task_Error t)"

definition redact_task :: "AsyncTask \<Rightarrow> AsyncTask" where
  "redact_task t = t\<lparr>task_Error := redacted_text\<rparr>"

definition migrate_task_errors :: "unit dbop" where
  "migrate_task_errors = db_bind (update_tasks redactable_task redact_task) (\<lambda>_. db_ret ())"

definition redact_item :: "CrossDriveItem \<Rightarrow> CrossDriveItem" where
  "redact_item i = i\<lparr>item_Error := redacted_text\<rparr>"

definition migrate_item_errors :: "unit dbop" where
  "migrate_item_errors =
     db_exec (\<lambda>d. ((), d\<lparr>cross_drive_items := sql_update (\<lambda>i. signed_text (item_Error i)) redact_item
                         (cross_drive_items d)\<rparr>))"

definition redact_run :: "TaskRun \<Rightarrow> TaskRun" where
  "redact_run r = r\<lparr>run_Error := Some redacted_text, run_Logs := [redacted_text]\<rparr>"

definition migrate_run_errors :: "unit dbop" where
  "migrate_run_errors =
     db_exec (\<lambda>d. ((), d\<lparr>task_runs := sql_update
        (\<lambda>r. (\<exists>t \<in> set (async_tasks d). task_ID t = run_TaskID r \<and> task_Type t = ''quark_to_115_import'') \<and>
             ((case run_Error r of None \<Rightarrow> False | Some e \<Rightarrow> signed_text e) \<or>
              (\<exists>l \<in> set (run_Logs r). signed_text l)))
        redact_run (task_runs d)\<rparr>))"

definition migrate_errors :: "unit dbop" where
  "migrate_errors = db_bind migrate_task_errors (\<lambda>_. db_bind migrate_item_errors (\<lambda>_. migrate_run_errors))"

lemmas migrate_defs =
  migrate_task_errors_def migrate_item_errors_def migrate_run_errors_def

lemmas task_ops_defs =
  CreateAsyncTask_def CreateScheduledAsyncTask_def BeginAsyncTask_def UpdateAsyncTaskProgress_def
  AppendTaskLog_def FinishAsyncTask_def CancelPendingAsyncTask_def RecoverInterruptedAsyncTasks_def
  insertAsyncTask_def insert_run_def GetAsyncTask_def update_tasks_def update_runs_def

lemmas db_unfold =
  db_tx_def db_bind_def db_stmt_def db_exec_def db_query_def db_ret_def db_fail_def db_wrap_def

section \<open>Consistency of the task tables\<close>

definition runs_of :: "db \<Rightarrow> string \<Rightarrow> TaskRun list" where
  "runs_of d tid = filter (\<lambda>r. run_TaskID r = tid) (task_runs d)"

text \<open>
  A task and its runs agree: attempts are numbered 1, 2, \dots without gaps, only the latest run
  can be active and it is exactly when the task is running, finished runs carry a completion
  time, attempts stay within \<open>max_attempts\<close>, and only a restart-safe import can have more than
  one attempt.
\<close>

definition task_wf :: "AsyncTask \<Rightarrow> TaskRun list \<Rightarrow> bool" where
  "task_wf t rs \<longleftrightarrow>
     map run_Attempt rs = [1..<Suc (task_Attempts t)] \<and>
     int (task_Attempts t) \<le> task_MaxAttempts t \<and>
     (task_Type t \<noteq> ''quark_to_115_import'' \<longrightarrow> task_MaxAttempts t = 1) \<and>
     (\<forall>r \<in> set (butlast rs). run_Status r \<noteq> ''running'') \<and>
     (task_Status t = ''running'' \<longleftrightarrow> rs \<noteq> [] \<and> run_Status (last rs) = ''running'') \<and>
     (\<forall>r \<in> set rs. run_Status r \<noteq> ''running'' \<longrightarrow> run_CompletedAt r \<noteq> None)"

definition task_store_inv :: "db \<Rightarrow> bool" where
  "task_store_inv d \<longleftrightarrow>
     distinct (map task_ID (async_tasks d)) \<and>
     sorted_wrt (<) (map run_ID (task_runs d)) \<and>
     (\<forall>r \<in> set (task_runs d). run_ID r \<le> task_runs_seq d) \<and>
     (\<forall>r \<in> set (task_runs d). run_TaskID r \<in> set (map task_ID (async_tasks d))) \<and>
     (\<forall>t \<in> set (async_tasks d). task_wf t (runs_of d (task_ID t)))"

lemma task_store_invD:
  assumes "task_store_inv d"
  shows "distinct (map task_ID (async_tasks d))"
    and "t \<in> set (async_tasks d) \<Longrightarrow> task_wf t (runs_of d (task_ID t))"
    and "r \<in> set (task_runs d) \<Longrightarrow> run_ID r \<le> task_runs_seq d"
    and "distinct (map run_ID (task_runs d))"
    and "r \<in> set (task_runs d) \<Longrightarrow> run_TaskID r \<in> set (map task_ID (async_tasks d))"
  using assms by (auto simp: task_store_inv_def dest: strict_sorted_imp_sorted
      intro: strict_sorted_iff [THEN iffD1, THEN conjunct2])

text \<open>One lemma covers every operation that only updates rows in place.\<close>

lemma task_store_inv_update:
  assumes inv: "task_store_inv d"
    and tasks: "async_tasks d' = sql_update p f (async_tasks d)"
    and runs: "task_runs d' = sql_update q g (task_runs d)"
    and seq: "task_runs_seq d' = task_runs_seq d"
    and f: "\<And>t. task_ID (f t) = task_ID t"
    and g: "\<And>r. run_ID (g r) = run_ID r" "\<And>r. run_TaskID (g r) = run_TaskID r"
    and wf: "\<And>t. t \<in> set (async_tasks d) \<Longrightarrow> task_wf t (runs_of d (task_ID t)) \<Longrightarrow>
               task_wf (if p t then f t else t) (sql_update q g (runs_of d (task_ID t)))"
  shows "task_store_inv d'"
proof -
  have ids: "map task_ID (async_tasks d') = map task_ID (async_tasks d)"
    unfolding tasks by (rule map_sql_update) (rule f)
  have rids: "map run_ID (task_runs d') = map run_ID (task_runs d)"
    unfolding runs by (rule map_sql_update) (rule g)
  have of: "runs_of d' tid = sql_update q g (runs_of d tid)" for tid
    unfolding runs_of_def runs by (rule filter_sql_update) (simp add: g)
  have "task_wf t (runs_of d' (task_ID t))" if "t \<in> set (async_tasks d')" for t
  proof -
    from that obtain t0 where "t0 \<in> set (async_tasks d)" "t = (if p t0 then f t0 else t0)"
      unfolding tasks by (auto simp: sql_update_def)
    then show ?thesis using wf [of t0] inv by (auto simp: of f task_store_inv_def split: if_splits)
  qed
  moreover have "\<forall>r \<in> set (task_runs d'). run_ID r \<le> task_runs_seq d' \<and>
      run_TaskID r \<in> set (map task_ID (async_tasks d'))"
    unfolding ids seq using inv unfolding runs task_store_inv_def
    by (auto simp: set_sql_update g)
  ultimately show ?thesis
    using inv unfolding task_store_inv_def ids rids by auto
qed

lemma wf_same_id:
  assumes "task_store_inv d" "t \<in> set (async_tasks d)" "t' \<in> set (async_tasks d)"
    "task_ID t = task_ID t'"
  shows "t = t'"
  using assms by (auto dest: task_store_invD(1) distinct_key_eq)

section \<open>Every operation keeps the tables consistent\<close>

lemma sql_last_runs_of:
  "sql_last (\<lambda>r. run_TaskID r = tid) (task_runs d) =
     (if runs_of d tid = [] then None else Some (last (runs_of d tid)))"
  by (simp add: sql_last_def runs_of_def)

lemma runs_of_mem: "r \<in> set (runs_of d tid) \<longleftrightarrow> r \<in> set (task_runs d) \<and> run_TaskID r = tid"
  by (auto simp: runs_of_def)

lemma distinct_runs_of: "task_store_inv d \<Longrightarrow> distinct (runs_of d tid)"
  by (auto simp: runs_of_def distinct_map dest: task_store_invD(4))

lemma run_id_eq:
  "task_store_inv d \<Longrightarrow> r \<in> set (task_runs d) \<Longrightarrow> r' \<in> set (task_runs d) \<Longrightarrow>
   run_ID r = run_ID r' \<Longrightarrow> r = r'"
  by (auto dest: task_store_invD(4) distinct_key_eq)

text \<open>In a consistent store the active run of a task, if there is one, is its latest run.\<close>

lemma active_run_last:
  assumes inv: "task_store_inv d" and t: "t \<in> set (async_tasks d)"
    and r: "r \<in> set (runs_of d (task_ID t))" "run_Status r = ''running''"
  shows "runs_of d (task_ID t) \<noteq> [] \<and> r = last (runs_of d (task_ID t)) \<and>
         task_Status t = ''running''"
proof -
  let ?rs = "runs_of d (task_ID t)"
  have wf: "task_wf t ?rs" using inv t by (rule task_store_invD(2))
  from r have ne: "?rs \<noteq> []" by auto
  then have "?rs = butlast ?rs @ [last ?rs]" by simp
  with r have "r \<in> set (butlast ?rs) \<or> r = last ?rs"
    by (metis Un_iff empty_iff insert_iff list.set set_append)
  with r(2) wf ne show ?thesis by (auto simp: task_wf_def)
qed

lemma sql_update_last:
  assumes "rs \<noteq> []" "distinct rs" "\<And>r. r \<in> set rs \<Longrightarrow> q r \<longleftrightarrow> r = last rs"
  shows "sql_update q g rs = butlast rs @ [g (last rs)]"
proof -
  have split: "rs = butlast rs @ [last rs]" using assms(1) by simp
  have "last rs \<notin> set (butlast rs)"
    using assms(2) split by (metis distinct_append disjoint_iff list.set_intros(1))
  then have "sql_update q g (butlast rs) = butlast rs"
    using assms(3) by (auto intro!: sql_update_none dest: in_set_butlastD)
  moreover have "q (last rs)" using assms(1,3) by simp
  ultimately show ?thesis
    by (subst split) (simp add: sql_update_append del: append_butlast_last_id)
qed

text \<open>Updating the runs in fields the consistency does not read, or finishing the active one.\<close>

lemma task_wf_touch_runs:
  assumes "task_wf t rs" "\<And>r. run_Attempt (g r) = run_Attempt r"
    "\<And>r. run_Status (g r) = run_Status r" "\<And>r. run_CompletedAt (g r) = run_CompletedAt r"
  shows "task_wf t (sql_update q g rs)"
proof -
  have "butlast (sql_update q g rs) = sql_update q g (butlast rs)"
    by (simp add: sql_update_def map_butlast)
  moreover have "rs \<noteq> [] \<Longrightarrow> run_Status (last (sql_update q g rs)) = run_Status (last rs)"
    by (simp add: sql_update_def last_map assms(3))
  moreover have "sql_update q g rs = [] \<longleftrightarrow> rs = []" by (simp add: sql_update_def)
  ultimately show ?thesis
    using assms by (auto simp: task_wf_def set_sql_update map_sql_update)
qed

lemma task_wf_finish:
  assumes wf: "task_wf t rs" and run: "task_Status t = ''running''"
    and g: "run_Attempt (g (last rs)) = run_Attempt (last rs)"
      "run_CompletedAt (g (last rs)) \<noteq> None"
    and st: "task_Status t' = ''running'' \<longleftrightarrow> run_Status (g (last rs)) = ''running''"
    and keep: "task_Attempts t' = task_Attempts t" "task_Type t' = task_Type t"
      "task_Type t \<noteq> ''quark_to_115_import'' \<longrightarrow> task_MaxAttempts t' = task_MaxAttempts t"
      "task_MaxAttempts t \<le> task_MaxAttempts t'"
  shows "task_wf t' (butlast rs @ [g (last rs)])"
proof -
  from wf run have ne: "rs \<noteq> []" by (auto simp: task_wf_def)
  have "map run_Attempt rs = map run_Attempt (butlast rs) @ [run_Attempt (last rs)]"
    using ne by (subst append_butlast_last_id [OF ne, symmetric]) (simp del: append_butlast_last_id)
  with wf g keep st ne show ?thesis
    by (auto simp: task_wf_def dest: in_set_butlastD)
qed

lemma task_wf_no_active:
  assumes "task_wf t rs" "task_Status t \<noteq> ''running''" "r \<in> set rs"
  shows "run_Status r \<noteq> ''running''"
proof -
  from assms(3) have "r \<in> set (butlast rs @ [last rs])"
    by (subst append_butlast_last_id) auto
  with assms show ?thesis by (auto simp: task_wf_def)
qed

lemma task_wf_claim:
  assumes wf: "task_wf t rs" and cl: "claimable tid t"
    and r: "run_Attempt r = Suc (task_Attempts t)" "run_Status r = ''running''"
  shows "task_wf (claim_task now t) (rs @ [r])"
proof -
  from cl have pending: "task_Status t \<noteq> ''running''" by (simp add: claimable_def)
  have "\<forall>x \<in> set rs. run_Status x \<noteq> ''running''"
    using task_wf_no_active [OF wf pending] by blast
  moreover have "map run_Attempt (rs @ [r]) = [1..<Suc (Suc (task_Attempts t))]"
    using wf r by (simp add: task_wf_def)
  ultimately show ?thesis
    using wf cl r by (auto simp: task_wf_def claim_task_def claimable_def)
qed

text \<open>The consistency reads only the two task tables and the run sequence.\<close>

lemma task_store_inv_cong:
  "async_tasks d' = async_tasks d \<Longrightarrow> task_runs d' = task_runs d \<Longrightarrow>
   task_runs_seq d' = task_runs_seq d \<Longrightarrow> task_store_inv d' = task_store_inv d"
  by (simp add: task_store_inv_def runs_of_def)

lemma task_store_inv_insert:
  assumes inv: "task_store_inv d" and new: "task_ID t \<notin> task_ID ` set (async_tasks d)"
    and fresh: "task_wf t []"
    and d': "async_tasks d' = async_tasks d @ [t]" "task_runs d' = task_runs d"
      "task_runs_seq d' = task_runs_seq d"
  shows "task_store_inv d'"
proof -
  have none: "runs_of d (task_ID t) = []"
    using task_store_invD(5) [OF inv] new unfolding runs_of_def filter_empty_conv by (metis list.set_map)
  have same: "runs_of d' tid = runs_of d tid" for tid by (simp add: d' runs_of_def)
  show ?thesis
    using inv new none fresh d' unfolding task_store_inv_def same by auto
qed

text \<open>What \<open>persistTask\<close> hands to the store: a pending task with one attempt to spend.\<close>

definition fresh_task :: "AsyncTask \<Rightarrow> bool" where
  "fresh_task t \<longleftrightarrow> task_Attempts t = 0 \<and> task_Status t = ''pending'' \<and> task_MaxAttempts t = 1"

lemma fresh_task_wf:
  "fresh_task task \<Longrightarrow> task_wf ((prepareAsyncTask task now)\<lparr>task_Payload := p\<rparr>) []"
  by (simp add: fresh_task_def task_wf_def prepareAsyncTask_def Let_def)

lemma CreateAsyncTask_eval [db_eval]:
  "CreateAsyncTask task now [] d =
     (if task_ID task \<in> set (map task_ID (async_tasks d)) then (Inl ErrConstraint, [], d)
      else (Inr (prepareAsyncTask task now), [], d\<lparr>async_tasks := async_tasks d @
              [(prepareAsyncTask task now)\<lparr>task_Payload := json_payload (task_Payload task)\<rparr>]\<rparr>))"
  by (simp add: CreateAsyncTask_def insertAsyncTask_def db_unfold Let_def)

lemma CreateAsyncTask_inv:
  assumes "task_store_inv d" "fresh_task task"
  shows "task_store_inv (db_state (CreateAsyncTask task now [] d))"
proof (cases "task_ID task \<in> set (map task_ID (async_tasks d))")
  case False
  with assms(1) fresh_task_wf [OF assms(2)] show ?thesis
    by (simp add: CreateAsyncTask_eval) (rule task_store_inv_insert; simp)
qed (use assms in \<open>simp add: CreateAsyncTask_eval\<close>)

lemma CreateScheduledAsyncTask_eval [db_eval]:
  "CreateScheduledAsyncTask task sid now [] d =
     (let t = prepareAsyncTask (task\<lparr>task_ScheduleID := sid\<rparr>) now
      in if task_ID task \<in> set (map task_ID (async_tasks d)) then (Inl ErrConstraint, [], d)
         else if sql_count (\<lambda>s. sch_ID s = sid) (scheduled_tasks d) \<noteq> 1
         then (Inl (Errorf ''scheduled task %s not found'' [sid]), [], d)
         else (Inr t, [], d\<lparr>async_tasks := async_tasks d @
                              [t\<lparr>task_Payload := json_payload (task_Payload task)\<rparr>],
                scheduled_tasks := sql_update (\<lambda>s. sch_ID s = sid)
                  (\<lambda>s. s\<lparr>sch_LastRunAt := Some (task_CreatedAt t), sch_Result := task_ID t,
                           sch_Error := '''', sch_UpdatedAt := task_CreatedAt t\<rparr>)
                  (scheduled_tasks d)\<rparr>))"
  by (simp add: CreateScheduledAsyncTask_def insertAsyncTask_def db_unfold Let_def)

lemma CreateScheduledAsyncTask_inv:
  assumes "task_store_inv d" "fresh_task task"
  shows "task_store_inv (db_state (CreateScheduledAsyncTask task sid now [] d))"
proof -
  have "fresh_task (task\<lparr>task_ScheduleID := sid\<rparr>)" using assms(2) by (simp add: fresh_task_def)
  note wf = fresh_task_wf [OF this]
  show ?thesis
  proof (cases "task_ID task \<in> set (map task_ID (async_tasks d)) \<or>
                sql_count (\<lambda>s. sch_ID s = sid) (scheduled_tasks d) \<noteq> 1")
    case False
    with assms(1) wf show ?thesis
      by (simp add: CreateScheduledAsyncTask_eval Let_def) (rule task_store_inv_insert; simp)
  qed (use assms in \<open>auto simp: CreateScheduledAsyncTask_eval Let_def\<close>)
qed

text \<open>The claim evaluated: the update, the re-read row and the inserted run.\<close>

definition claimed_run :: "nat \<Rightarrow> gotime \<Rightarrow> AsyncTask \<Rightarrow> TaskRun" where
  "claimed_run rid now t =
     \<lparr>run_ID = rid, run_TaskID = task_ID t, run_Attempt = task_Attempts t,
      run_Status = ''running'', run_Progress = task_Progress t, run_Logs = [],
      run_Error = None, run_StartedAt = now, run_CompletedAt = None\<rparr>"

lemma claim_task_simps [simp]:
  "task_ID (claim_task now t) = task_ID t"
  "task_Type (claim_task now t) = task_Type t"
  "task_Status (claim_task now t) = ''running''"
  "task_Attempts (claim_task now t) = Suc (task_Attempts t)"
  "task_MaxAttempts (claim_task now t) = task_MaxAttempts t"
  by (simp_all add: claim_task_def)

lemma BeginAsyncTask_skip [db_eval]:
  "\<forall>t \<in> set (async_tasks d). \<not> claimable tid t \<Longrightarrow> BeginAsyncTask tid now [] d = (Inr None, [], d)"
  by (simp add: BeginAsyncTask_def update_tasks_def db_unfold sql_count_0)

lemma BeginAsyncTask_claim:
  assumes inv: "task_store_inv d" and t: "t \<in> set (async_tasks d)" "claimable tid t"
  shows "BeginAsyncTask tid now [] d =
     (Inr (Some (claimed_run (Suc (task_runs_seq d)) now (claim_task now t))), [],
      d\<lparr>async_tasks := sql_update (claimable tid) (claim_task now) (async_tasks d),
        task_runs := task_runs d @ [claimed_run (Suc (task_runs_seq d)) now (claim_task now t)],
        task_runs_seq := Suc (task_runs_seq d)\<rparr>)"
proof -
  let ?ts = "sql_update (claimable tid) (claim_task now) (async_tasks d)"
  have id: "task_ID t = tid" using t(2) by (simp add: claimable_def)
  have n: "sql_count (claimable tid) (async_tasks d) \<noteq> 0"
    using t by (auto simp: sql_count_0)
  have ids: "map task_ID ?ts = map task_ID (async_tasks d)" by (rule map_sql_update) simp
  have mem: "(claim_task now t) \<in> set ?ts" using t by (auto simp: set_sql_update)
  have "distinct (map task_ID ?ts)" unfolding ids by (rule task_store_invD(1) [OF inv])
  from sql_find_key [OF this mem] have find: "sql_find (\<lambda>x. task_ID x = tid) ?ts = Some (claim_task now t)"
    by (simp add: id)
  have "run_Attempt r \<noteq> Suc (task_Attempts t)" if "r \<in> set (runs_of d tid)" for r
  proof -
    from that have "run_Attempt r \<in> set (map run_Attempt (runs_of d tid))" by simp
    with task_store_invD(2) [OF inv t(1)] id show ?thesis by (auto simp: task_wf_def)
  qed
  then have uniq: "\<not> (\<exists>r \<in> set (task_runs d). run_TaskID r = tid \<and> run_Attempt r = Suc (task_Attempts t))"
    by (auto simp: runs_of_mem)
  have "tid \<in> task_ID ` set ?ts" using imageI [OF mem, of task_ID] id by simp
  with n find uniq show ?thesis
    by (simp add: BeginAsyncTask_def update_tasks_def GetAsyncTask_def insert_run_def db_unfold
        Let_def claimed_run_def id)
qed

lemma BeginAsyncTask_inv:
  assumes inv: "task_store_inv d"
  shows "task_store_inv (db_state (BeginAsyncTask tid now [] d))"
proof (cases "\<exists>t \<in> set (async_tasks d). claimable tid t")
  case False
  then show ?thesis using inv by (simp add: BeginAsyncTask_skip)
next
  case True
  then obtain t where t: "t \<in> set (async_tasks d)" "claimable tid t" by blast
  let ?r = "claimed_run (Suc (task_runs_seq d)) now (claim_task now t)"
  let ?d' = "db_state (BeginAsyncTask tid now [] d)"
  have id: "task_ID t = tid" using t(2) by (simp add: claimable_def)
  have tables: "async_tasks ?d' = sql_update (claimable tid) (claim_task now) (async_tasks d)"
      "task_runs ?d' = task_runs d @ [?r]" "task_runs_seq ?d' = Suc (task_runs_seq d)"
    by (simp_all add: BeginAsyncTask_claim [OF inv t])
  have r: "run_ID ?r = Suc (task_runs_seq d)" "run_TaskID ?r = tid"
      "run_Attempt ?r = Suc (task_Attempts t)" "run_Status ?r = ''running''"
    by (simp_all add: claimed_run_def id)
  have ids: "map task_ID (async_tasks ?d') = map task_ID (async_tasks d)"
    unfolding tables by (rule map_sql_update) simp
  have of: "runs_of ?d' x = (if x = tid then runs_of d x @ [?r] else runs_of d x)" for x
    by (simp add: runs_of_def tables r)
  have wf: "task_wf u (runs_of ?d' (task_ID u))" if u: "u \<in> set (async_tasks ?d')" for u
  proof -
    from u obtain u0 where u0: "u0 \<in> set (async_tasks d)"
      and ueq: "u = (if claimable tid u0 then claim_task now u0 else u0)"
      unfolding tables by (auto simp: sql_update_def)
    show ?thesis
    proof (cases "task_ID u0 = tid")
      case True
      with inv u0 t id have "u0 = t" by (metis wf_same_id)
      with ueq t have "u = claim_task now t" by simp
      moreover have "task_wf (claim_task now t) (runs_of d tid @ [?r])"
        using task_store_invD(2) [OF inv t(1)] t(2) r id by (intro task_wf_claim) auto
      ultimately show ?thesis using of [of tid] id by simp
    next
      case False
      with ueq have "u = u0" by (auto simp: claimable_def split: if_splits)
      with False of u0 inv show ?thesis by (simp add: task_store_invD(2))
    qed
  qed
  have tid: "tid \<in> set (map task_ID (async_tasks d))" using t id by auto
  have lt: "run_ID x < run_ID ?r" if "x \<in> set (task_runs d)" for x
    using task_store_invD(3) [OF inv that] r by simp
  show ?thesis
    unfolding task_store_inv_def ids
  proof (intro conjI)
    show "sorted_wrt (<) (map run_ID (task_runs ?d'))"
      using inv lt by (simp add: tables sorted_wrt_append task_store_inv_def)
    show "\<forall>x \<in> set (task_runs ?d'). run_ID x \<le> task_runs_seq ?d'"
      using task_store_invD(3) [OF inv] r by (auto simp: tables le_SucI)
    show "\<forall>x \<in> set (task_runs ?d'). run_TaskID x \<in> set (map task_ID (async_tasks d))"
      using inv tid r by (auto simp: tables task_store_inv_def)
  qed (use wf task_store_invD(1) [OF inv] in auto)
qed

text \<open>The in-place updates.\<close>

lemma UpdateAsyncTaskProgress_eval [db_eval]:
  "UpdateAsyncTaskProgress tid progress now [] d =
     (Inr (), [], d\<lparr>async_tasks := sql_update (\<lambda>t. task_ID t = tid \<and> task_Status t = ''running'')
                        (\<lambda>t. t\<lparr>task_Progress := max (task_Progress t) progress,
                                 task_UpdatedAt := now\<rparr>) (async_tasks d),
        task_runs := sql_update (\<lambda>r. runs_of d tid \<noteq> [] \<and> run_ID r = run_ID (last (runs_of d tid)))
                       (\<lambda>r. r\<lparr>run_Progress := max (run_Progress r) progress\<rparr>) (task_runs d)\<rparr>)"
  by (simp add: UpdateAsyncTaskProgress_def update_tasks_def db_unfold sql_last_runs_of [of _ d]
      sql_last_def runs_of_def sql_update_none)

lemma UpdateAsyncTaskProgress_inv:
  assumes "task_store_inv d"
  shows "task_store_inv (db_state (UpdateAsyncTaskProgress tid progress now [] d))"
proof (rule task_store_inv_update [OF assms])
  fix t assume wf: "task_wf t (runs_of d (task_ID t))"
  let ?t = "if task_ID t = tid \<and> task_Status t = ''running'' then
      t\<lparr>task_Progress := max (task_Progress t) progress, task_UpdatedAt := now\<rparr> else t"
  from wf have "task_wf ?t (runs_of d (task_ID t))" by (simp add: task_wf_def)
  then show "task_wf ?t (sql_update (\<lambda>r. runs_of d tid \<noteq> [] \<and> run_ID r = run_ID (last (runs_of d tid)))
      (\<lambda>r. r\<lparr>run_Progress := max (run_Progress r) progress\<rparr>) (runs_of d (task_ID t)))"
    by (rule task_wf_touch_runs) simp_all
qed (simp_all add: UpdateAsyncTaskProgress_eval)

lemma AppendTaskLog_eval [db_eval]:
  "AppendTaskLog tid message [] d =
     (if runs_of d tid = [] then (Inl ErrNoRows, [], d)
      else let latest = last (runs_of d tid) in
        (Inr (), [], d\<lparr>task_runs := sql_update (\<lambda>r. run_ID r = run_ID latest)
                       (\<lambda>r. r\<lparr>run_Logs := run_Logs latest @ [message]\<rparr>) (task_runs d)\<rparr>))"
  by (simp add: AppendTaskLog_def update_runs_def db_unfold sql_last_runs_of Let_def)

lemma AppendTaskLog_inv:
  assumes "task_store_inv d"
  shows "task_store_inv (db_state (AppendTaskLog tid message [] d))"
proof (cases "runs_of d tid = []")
  case False
  let ?l = "last (runs_of d tid)"
  show ?thesis
  proof (rule task_store_inv_update [OF assms, where p = "\<lambda>_. False" and f = id])
    fix t assume "task_wf t (runs_of d (task_ID t))"
    then show "task_wf (if False then id t else t) (sql_update (\<lambda>r. run_ID r = run_ID ?l)
        (\<lambda>r. r\<lparr>run_Logs := run_Logs ?l @ [message]\<rparr>) (runs_of d (task_ID t)))"
      by (simp add: task_wf_touch_runs)
  qed (use False in \<open>simp_all add: AppendTaskLog_eval Let_def sql_update_none\<close>)
qed (use assms in \<open>simp add: AppendTaskLog_eval\<close>)

definition finish_task :: "string \<Rightarrow> rat \<Rightarrow> string \<Rightarrow> string \<Rightarrow> gotime \<Rightarrow> AsyncTask \<Rightarrow> AsyncTask" where
  "finish_task status progress resultText errText now t =
     t\<lparr>task_Status := status, task_Progress := progress, task_Result := resultText,
       task_Error := errText, task_UpdatedAt := now\<rparr>"

definition finish_run ::
  "string \<Rightarrow> rat \<Rightarrow> string list \<Rightarrow> string \<Rightarrow> gotime \<Rightarrow> TaskRun \<Rightarrow> TaskRun" where
  "finish_run status progress logs errText now r =
     r\<lparr>run_Status := status, run_Progress := progress, run_Logs := logs,
       run_Error := Some errText, run_CompletedAt := Some now\<rparr>"

definition finish_logs :: "string \<Rightarrow> TaskRun \<Rightarrow> string list" where
  "finish_logs logMessage r =
     (if logMessage \<noteq> '''' then run_Logs r @ [logMessage] else run_Logs r)"

lemma running_task_active:
  assumes inv: "task_store_inv d" and t: "t \<in> set (async_tasks d)" "task_Status t = ''running''"
  shows "runs_of d (task_ID t) \<noteq> []"
    and "last (runs_of d (task_ID t)) \<in> set (task_runs d)"
    and "run_TaskID (last (runs_of d (task_ID t))) = task_ID t"
    and "run_Status (last (runs_of d (task_ID t))) = ''running''"
    and "sql_last (\<lambda>r. run_TaskID r = task_ID t \<and> run_Status r = ''running'') (task_runs d) =
           Some (last (runs_of d (task_ID t)))"
proof -
  let ?rs = "runs_of d (task_ID t)"
  show ne: "?rs \<noteq> []" and st: "run_Status (last ?rs) = ''running''"
    using task_store_invD(2) [OF inv t(1)] t(2) by (simp_all add: task_wf_def)
  from last_in_set [OF ne] show "last ?rs \<in> set (task_runs d)" "run_TaskID (last ?rs) = task_ID t"
    by (simp_all add: runs_of_mem)
  have filt: "filter (\<lambda>r. run_TaskID r = task_ID t \<and> run_Status r = ''running'') (task_runs d) =
        filter (\<lambda>r. run_Status r = ''running'') ?rs"
    by (simp add: runs_of_def conj_commute)
  have "filter (\<lambda>r. run_Status r = ''running'') ?rs =
        filter (\<lambda>r. run_Status r = ''running'') (butlast ?rs @ [last ?rs])" using ne by simp
  also have "\<dots> = filter (\<lambda>r. run_Status r = ''running'') (butlast ?rs) @ [last ?rs]"
    using st by (simp del: append_butlast_last_id)
  finally show "sql_last (\<lambda>r. run_TaskID r = task_ID t \<and> run_Status r = ''running'') (task_runs d) =
           Some (last ?rs)"
    by (simp add: sql_last_def filt)
qed

lemma FinishAsyncTask_running [db_eval]:
  assumes inv: "task_store_inv d" and t: "t \<in> set (async_tasks d)" "task_Status t = ''running''"
  defines "r \<equiv> last (runs_of d (task_ID t))"
  shows "FinishAsyncTask (task_ID t) status progress resultText errText logMessage now [] d =
     (Inr (), [], d\<lparr>async_tasks := sql_update (\<lambda>u. task_ID u = task_ID t \<and> task_Status u = ''running'')
                       (finish_task status progress resultText errText now) (async_tasks d),
        task_runs := sql_update (\<lambda>x. run_ID x = run_ID r \<and> run_Status x = ''running'')
                       (finish_run status progress (finish_logs logMessage r) errText now)
                       (task_runs d)\<rparr>)"
proof -
  note act = running_task_active [OF inv t]
  have one: "sql_count (\<lambda>u. task_ID u = task_ID t \<and> task_Status u = ''running'') (async_tasks d) = 1"
    by (rule sql_count_key [OF task_store_invD(1) [OF inv] t(1)]) (simp_all add: t)
  have two: "sql_count (\<lambda>x. run_ID x = run_ID r \<and> run_Status x = ''running'') (task_runs d) = 1"
    unfolding r_def by (rule sql_count_key [OF task_store_invD(4) [OF inv] act(2)]) (simp_all add: act)
  show ?thesis
    using one two act(5)
    by (simp add: FinishAsyncTask_def update_tasks_def update_runs_def db_unfold Let_def
        finish_task_def [abs_def] finish_run_def [abs_def] finish_logs_def r_def)
qed

lemma FinishAsyncTask_not_running:
  assumes inv: "task_store_inv d"
    and no: "\<forall>t \<in> set (async_tasks d). task_ID t = tid \<longrightarrow> task_Status t \<noteq> ''running''"
  shows "FinishAsyncTask tid status progress resultText errText logMessage now [] d =
     (Inl (Wrapf ''task %s has no running execution record: %w'' [tid] ErrNoRows), [], d)"
proof -
  have "\<not> (run_TaskID r = tid \<and> run_Status r = ''running'')" if r: "r \<in> set (task_runs d)" for r
  proof
    assume a: "run_TaskID r = tid \<and> run_Status r = ''running''"
    with task_store_invD(5) [OF inv r] obtain t where "t \<in> set (async_tasks d)" "task_ID t = tid"
      by auto
    moreover from this a r have "r \<in> set (runs_of d (task_ID t))" by (simp add: runs_of_mem)
    ultimately show False using active_run_last [OF inv, of t r] a no by blast
  qed
  then have "sql_last (\<lambda>r. run_TaskID r = tid \<and> run_Status r = ''running'') (task_runs d) = None"
    by (simp add: sql_last_None)
  then show ?thesis by (simp add: FinishAsyncTask_def db_unfold)
qed

lemma FinishAsyncTask_inv:
  assumes inv: "task_store_inv d"
  shows "task_store_inv (db_state (FinishAsyncTask tid status progress res err msg now [] d))"
proof (cases "\<exists>t \<in> set (async_tasks d). task_ID t = tid \<and> task_Status t = ''running''")
  case False
  then have "\<forall>t \<in> set (async_tasks d). task_ID t = tid \<longrightarrow> task_Status t \<noteq> ''running''" by blast
  from FinishAsyncTask_not_running [OF inv this] inv show ?thesis by simp
next
  case True
  then obtain t where t: "t \<in> set (async_tasks d)" "task_Status t = ''running''"
    and tid: "tid = task_ID t" by blast
  note act = running_task_active [OF inv t]
  let ?r = "last (runs_of d (task_ID t))"
  let ?q = "\<lambda>x. run_ID x = run_ID ?r \<and> run_Status x = ''running''"
  let ?g = "finish_run status progress (finish_logs msg ?r) err now"
  let ?p = "\<lambda>u. task_ID u = task_ID t \<and> task_Status u = ''running''"
  let ?f = "finish_task status progress res err now"
  show ?thesis
    unfolding tid
  proof (rule task_store_inv_update [OF inv, where p = ?p and f = ?f and q = ?q and g = ?g])
    fix u assume u: "u \<in> set (async_tasks d)" and wf: "task_wf u (runs_of d (task_ID u))"
    have eq: "?q x \<longleftrightarrow> x = ?r" if "x \<in> set (task_runs d)" for x
      using run_id_eq [OF inv that act(2)] act(4) by auto
    show "task_wf (if ?p u then ?f u else u) (sql_update ?q ?g (runs_of d (task_ID u)))"
    proof (cases "task_ID u = task_ID t")
      case True
      with inv u t(1) have ut: "u = t" by (metis wf_same_id)
      have "sql_update ?q ?g (runs_of d (task_ID t)) = butlast (runs_of d (task_ID t)) @ [?g ?r]"
        by (rule sql_update_last) (use act(1) distinct_runs_of [OF inv] eq in \<open>auto simp: runs_of_mem\<close>)
      moreover have "task_wf (?f t) (butlast (runs_of d (task_ID t)) @ [?g ?r])"
        by (rule task_wf_finish [OF wf [unfolded ut] t(2)]) (simp_all add: finish_run_def finish_task_def)
      ultimately show ?thesis using ut t(2) by simp
    next
      case False
      then have "\<forall>x \<in> set (runs_of d (task_ID u)). \<not> ?q x"
        using eq act(3) by (auto simp: runs_of_mem)
      with False wf show ?thesis by (simp add: sql_update_none)
    qed
  qed (simp_all add: FinishAsyncTask_running [OF inv t] finish_task_def finish_run_def)
qed

lemma CancelPendingAsyncTask_eval [db_eval]:
  "CancelPendingAsyncTask tid now [] d =
     (Inr (\<exists>t \<in> set (async_tasks d). task_ID t = tid \<and> task_Status t = ''pending''), [],
      d\<lparr>async_tasks := sql_update (\<lambda>t. task_ID t = tid \<and> task_Status t = ''pending'')
           (\<lambda>t. t\<lparr>task_Status := ''cancelled'', task_Error := ''cancelled by operator'',
                    task_UpdatedAt := now\<rparr>) (async_tasks d)\<rparr>)"
  by (simp add: CancelPendingAsyncTask_def update_tasks_def db_unfold sql_count_def
      filter_empty_conv)

lemma CancelPendingAsyncTask_inv:
  assumes "task_store_inv d"
  shows "task_store_inv (db_state (CancelPendingAsyncTask tid now [] d))"
proof (rule task_store_inv_update [OF assms, where q = "\<lambda>_. False" and g = id])
  fix t assume "task_wf t (runs_of d (task_ID t))"
  then show "task_wf (if task_ID t = tid \<and> task_Status t = ''pending''
      then t\<lparr>task_Status := ''cancelled'', task_Error := ''cancelled by operator'',
             task_UpdatedAt := now\<rparr> else t)
      (sql_update (\<lambda>_. False) id (runs_of d (task_ID t)))"
    by (auto simp: task_wf_def sql_update_none)
qed (simp_all add: CancelPendingAsyncTask_eval sql_update_none)

definition recover_task :: "gotime \<Rightarrow> AsyncTask \<Rightarrow> AsyncTask" where
  "recover_task now t =
     (if task_Type t = ''quark_to_115_import''
      then t\<lparr>task_Status := ''pending'', task_Error := recover_reconcile,
             task_MaxAttempts := max (task_MaxAttempts t) (int (task_Attempts t) + 1),
             task_UpdatedAt := now\<rparr>
      else t\<lparr>task_Status := ''failed'', task_Error := recover_message, task_UpdatedAt := now\<rparr>)"

lemma recover_task_ID [simp]: "task_ID (recover_task now t) = task_ID t"
  by (simp add: recover_task_def)

definition recover_run :: "gotime \<Rightarrow> TaskRun \<Rightarrow> TaskRun" where
  "recover_run now r = r\<lparr>run_Status := ''failed'', run_Error := Some recover_message,
     run_CompletedAt := Some now\<rparr>"

definition recover_tasks :: "gotime \<Rightarrow> AsyncTask list \<Rightarrow> AsyncTask list" where
  "recover_tasks now ts = sql_update (\<lambda>t. task_Status t = ''running'') (recover_task now) ts"

lemma RecoverInterruptedAsyncTasks_eval [db_eval]:
  "RecoverInterruptedAsyncTasks now [] d =
     (Inr (), [], d\<lparr>async_tasks := recover_tasks now (async_tasks d),
        cross_drive_imports := sql_update
           (\<lambda>i. \<exists>t \<in> set (recover_tasks now (async_tasks d)). task_ID t = imp_TaskID i \<and>
                  task_Type t = ''quark_to_115_import'' \<and> task_Status t = ''pending'')
           (\<lambda>i. i\<lparr>imp_RunOwner := None, imp_Error := recover_reconcile, imp_UpdatedAt := now\<rparr>)
           (cross_drive_imports d),
        task_runs := sql_update (\<lambda>r. run_Status r = ''running'') (recover_run now) (task_runs d)\<rparr>)"
proof -
  have "sql_update (\<lambda>t. task_Status t = ''running'' \<and> task_Type t = ''quark_to_115_import'')
          (\<lambda>t. t\<lparr>task_Status := ''pending'', task_Error := recover_reconcile,
             task_MaxAttempts := max (task_MaxAttempts t) (int (task_Attempts t) + 1),
             task_UpdatedAt := now\<rparr>)
          (sql_update (\<lambda>t. task_Status t = ''running'' \<and> task_Type t \<noteq> ''quark_to_115_import'')
             (\<lambda>t. t\<lparr>task_Status := ''failed'', task_Error := recover_message, task_UpdatedAt := now\<rparr>)
             ts) = recover_tasks now ts" for ts
    by (induction ts) (auto simp: recover_tasks_def recover_task_def)
  then show ?thesis
    by (simp add: RecoverInterruptedAsyncTasks_def update_tasks_def update_runs_def db_unfold
        recover_run_def [abs_def])
qed

lemma RecoverInterruptedAsyncTasks_inv:
  assumes inv: "task_store_inv d"
  shows "task_store_inv (db_state (RecoverInterruptedAsyncTasks now [] d))"
proof (rule task_store_inv_update [OF inv])
  fix t assume t: "t \<in> set (async_tasks d)" and wf: "task_wf t (runs_of d (task_ID t))"
  let ?rs = "runs_of d (task_ID t)"
  let ?q = "\<lambda>r. run_Status r = ''running''"
  show "task_wf (if task_Status t = ''running'' then recover_task now t else t)
      (sql_update ?q (recover_run now) ?rs)"
  proof (cases "task_Status t = ''running''")
    case False
    then have "\<forall>r \<in> set ?rs. \<not> ?q r" using task_wf_no_active [OF wf False] by blast
    with False wf show ?thesis by (simp add: sql_update_none)
  next
    case True
    with wf have "?rs \<noteq> []" by (simp add: task_wf_def)
    then have "sql_update ?q (recover_run now) ?rs = butlast ?rs @ [recover_run now (last ?rs)]"
      using active_run_last [OF inv t] distinct_runs_of [OF inv] wf True
      by (intro sql_update_last) (auto simp: task_wf_def)
    moreover have "task_wf (recover_task now t) (butlast ?rs @ [recover_run now (last ?rs)])"
      by (rule task_wf_finish [OF wf True]) (simp_all add: recover_run_def recover_task_def)
    ultimately show ?thesis using True by simp
  qed
qed (simp_all add: RecoverInterruptedAsyncTasks_eval recover_tasks_def recover_run_def)

text \<open>The migration touches texts only.\<close>

lemma redact_task_simps [simp]:
  "task_ID (redact_task t) = task_ID t" "task_Type (redact_task t) = task_Type t"
  "task_Status (redact_task t) = task_Status t" "task_Attempts (redact_task t) = task_Attempts t"
  "task_MaxAttempts (redact_task t) = task_MaxAttempts t" "redact_task (redact_task t) = redact_task t"
  by (simp_all add: redact_task_def)

lemma migrate_task_errors_eval [db_eval]:
  "migrate_task_errors [] d =
     (Inr (), [], d\<lparr>async_tasks := sql_update redactable_task redact_task (async_tasks d)\<rparr>)"
  by (simp add: migrate_task_errors_def update_tasks_def db_unfold)

lemma migrate_task_errors_inv:
  assumes "task_store_inv d"
  shows "task_store_inv (db_state (migrate_task_errors [] d))"
proof (rule task_store_inv_update [OF assms, where q = "\<lambda>_. False" and g = id])
  fix t assume "task_wf t (runs_of d (task_ID t))"
  then show "task_wf (if redactable_task t then redact_task t else t)
      (sql_update (\<lambda>_. False) id (runs_of d (task_ID t)))"
    by (auto simp: task_wf_def sql_update_none)
qed (simp_all add: migrate_task_errors_eval sql_update_none)

lemma migrate_item_errors_inv:
  "task_store_inv d \<Longrightarrow> task_store_inv (db_state (migrate_item_errors [] d))"
  by (simp add: migrate_item_errors_def db_unfold task_store_inv_def runs_of_def)

lemma migrate_run_errors_inv:
  assumes "task_store_inv d"
  shows "task_store_inv (db_state (migrate_run_errors [] d))"
proof (rule task_store_inv_update [OF assms, where p = "\<lambda>_. False" and f = id])
  fix t and q :: "TaskRun \<Rightarrow> bool" assume "task_wf t (runs_of d (task_ID t))"
  then show "task_wf (if False then id t else t) (sql_update (\<lambda>r. (\<exists>t \<in> set (async_tasks d).
        task_ID t = run_TaskID r \<and> task_Type t = ''quark_to_115_import'') \<and>
      ((case run_Error r of None \<Rightarrow> False | Some e \<Rightarrow> signed_text e) \<or> (\<exists>l \<in> set (run_Logs r). signed_text l)))
      redact_run (runs_of d (task_ID t)))"
    by (simp add: task_wf_touch_runs redact_run_def)
qed (simp_all add: migrate_run_errors_def db_unfold sql_update_none redact_run_def)

section \<open>The operations meet the store contract\<close>

text \<open>
  A driver failure at any statement of any of them leaves the tables as they were or lets the
  whole operation happen, and the consistency survives either way.
\<close>

lemma BeginAsyncTask_prog [db_rules]: "db_det (BeginAsyncTask tid now)" "db_safe (BeginAsyncTask tid now)"
  by (auto simp: BeginAsyncTask_def update_tasks_def GetAsyncTask_def insert_run_def Let_def intro!: db_rules)

lemma UpdateAsyncTaskProgress_prog [db_rules]: "db_det (UpdateAsyncTaskProgress tid progress now)" "db_safe (UpdateAsyncTaskProgress tid progress now)"
  by (auto simp: UpdateAsyncTaskProgress_def update_tasks_def intro!: db_rules)

lemma AppendTaskLog_prog [db_rules]: "db_det (AppendTaskLog tid message)" "db_safe (AppendTaskLog tid message)"
  by (auto simp: AppendTaskLog_def update_runs_def intro!: db_rules)

lemma FinishAsyncTask_prog [db_rules]: "db_det (FinishAsyncTask tid status progress res err msg now)" "db_safe (FinishAsyncTask tid status progress res err msg now)"
  by (auto simp: FinishAsyncTask_def update_tasks_def update_runs_def Let_def intro!: db_rules)

lemma CancelPendingAsyncTask_prog [db_rules]: "db_det (CancelPendingAsyncTask tid now)" "db_safe (CancelPendingAsyncTask tid now)"
  by (auto simp: CancelPendingAsyncTask_def update_tasks_def intro!: db_rules)

lemma RecoverInterruptedAsyncTasks_prog [db_rules]: "db_det (RecoverInterruptedAsyncTasks now)" "db_safe (RecoverInterruptedAsyncTasks now)"
  by (auto simp: RecoverInterruptedAsyncTasks_def update_tasks_def update_runs_def intro!: db_rules)

lemma migrate_prog [db_rules]:
  "db_det migrate_task_errors" "db_safe migrate_task_errors" "db_det migrate_item_errors"
  "db_safe migrate_item_errors" "db_det migrate_run_errors" "db_safe migrate_run_errors"
  by (auto simp: migrate_defs update_tasks_def intro!: db_rules)

lemma CreateAsyncTask_prog [db_rules]: "db_det (CreateAsyncTask task now)" "db_safe (CreateAsyncTask task now)"
  by (auto simp: CreateAsyncTask_def insertAsyncTask_def Let_def intro!: db_rules)

lemma CreateScheduledAsyncTask_prog [db_rules]: "db_det (CreateScheduledAsyncTask task sid now)" "db_safe (CreateScheduledAsyncTask task sid now)"
  by (auto simp: CreateScheduledAsyncTask_def insertAsyncTask_def Let_def intro!: db_rules)

interpretation begin_op: db_invariant_operation "BeginAsyncTask tid now" task_store_inv
  for tid now
  by unfold_locales (fact BeginAsyncTask_prog BeginAsyncTask_inv)+

interpretation progress_op: db_invariant_operation "UpdateAsyncTaskProgress tid progress now" task_store_inv
  for tid progress now
  by unfold_locales (fact UpdateAsyncTaskProgress_prog UpdateAsyncTaskProgress_inv)+

interpretation log_op: db_invariant_operation "AppendTaskLog tid message" task_store_inv
  for tid message
  by unfold_locales (fact AppendTaskLog_prog AppendTaskLog_inv)+

interpretation finish_op: db_invariant_operation "FinishAsyncTask tid status progress res err msg now" task_store_inv
  for tid status progress res err msg now
  by unfold_locales (fact FinishAsyncTask_prog FinishAsyncTask_inv)+

interpretation cancel_op: db_invariant_operation "CancelPendingAsyncTask tid now" task_store_inv
  for tid now
  by unfold_locales (fact CancelPendingAsyncTask_prog CancelPendingAsyncTask_inv)+

interpretation recover_op: db_invariant_operation "RecoverInterruptedAsyncTasks now" task_store_inv
  for now
  by unfold_locales (fact RecoverInterruptedAsyncTasks_prog RecoverInterruptedAsyncTasks_inv)+

interpretation migrate_task_op: db_invariant_operation migrate_task_errors task_store_inv
  by unfold_locales (fact migrate_prog migrate_task_errors_inv)+

interpretation migrate_item_op: db_invariant_operation migrate_item_errors task_store_inv
  by unfold_locales (fact migrate_prog migrate_item_errors_inv)+

interpretation migrate_run_op: db_invariant_operation migrate_run_errors task_store_inv
  by unfold_locales (fact migrate_prog migrate_run_errors_inv)+

interpretation create_op: db_operation "CreateAsyncTask task now" for task now
  by unfold_locales (fact CreateAsyncTask_prog)+

interpretation create_scheduled_op: db_operation "CreateScheduledAsyncTask task sid now" for task sid now
  by unfold_locales (fact CreateScheduledAsyncTask_prog)+

section \<open>Histories of the task tables\<close>

text \<open>
  Any sequence of task operations, each with its own driver faults. A history yields the tasks
  it claimed (a worker got a run to execute), in order, and the final database.
\<close>

datatype task_op =
    TCreate AsyncTask gotime
  | TCreateScheduled AsyncTask string gotime
  | TBegin string gotime
  | TProgress string rat gotime
  | TLog string string
  | TFinish string string rat string string string gotime
  | TCancel string gotime
  | TRecover gotime
  | TMigrateTasks
  | TMigrateItems
  | TMigrateRuns

definition claimed_task :: "error + TaskRun option \<Rightarrow> string list" where
  "claimed_task r = (case r of Inr (Some run) \<Rightarrow> [run_TaskID run] | _ \<Rightarrow> [])"

fun task_op_state :: "task_op \<Rightarrow> bool list \<Rightarrow> db \<Rightarrow> db" where
  "task_op_state (TCreate t now) fs d = db_state (CreateAsyncTask t now fs d)"
| "task_op_state (TCreateScheduled t sid now) fs d = db_state (CreateScheduledAsyncTask t sid now fs d)"
| "task_op_state (TBegin i now) fs d = db_state (BeginAsyncTask i now fs d)"
| "task_op_state (TProgress i p now) fs d = db_state (UpdateAsyncTaskProgress i p now fs d)"
| "task_op_state (TLog i m) fs d = db_state (AppendTaskLog i m fs d)"
| "task_op_state (TFinish i st p res err m now) fs d =
     db_state (FinishAsyncTask i st p res err m now fs d)"
| "task_op_state (TCancel i now) fs d = db_state (CancelPendingAsyncTask i now fs d)"
| "task_op_state (TRecover now) fs d = db_state (RecoverInterruptedAsyncTasks now fs d)"
| "task_op_state TMigrateTasks fs d = db_state (migrate_task_errors fs d)"
| "task_op_state TMigrateItems fs d = db_state (migrate_item_errors fs d)"
| "task_op_state TMigrateRuns fs d = db_state (migrate_run_errors fs d)"

fun task_op_claims :: "task_op \<Rightarrow> bool list \<Rightarrow> db \<Rightarrow> string list" where
  "task_op_claims (TBegin i now) fs d = claimed_task (db_result (BeginAsyncTask i now fs d))"
| "task_op_claims op fs d = []"

fun run_task_ops :: "(task_op \<times> bool list) list \<Rightarrow> db \<Rightarrow> string list \<times> db" where
  "run_task_ops [] d = ([], d)"
| "run_task_ops (e # ops) d =
     (let rest = run_task_ops ops (task_op_state (fst e) (snd e) d)
      in (task_op_claims (fst e) (snd e) d @ fst rest, snd rest))"

text \<open>The only tasks the program creates are fresh ones (\<open>persistTask\<close>).\<close>

fun creates_fresh :: "task_op \<Rightarrow> bool" where
  "creates_fresh (TCreate t now) = fresh_task t"
| "creates_fresh (TCreateScheduled t sid now) = fresh_task t"
| "creates_fresh _ = True"

fun is_recover :: "task_op \<Rightarrow> bool" where
  "is_recover (TRecover now) = True"
| "is_recover _ = False"

lemma task_op_state_cases:
  "task_op_state op fs d = d \<or> task_op_state op fs d = task_op_state op [] d"
proof (cases op)
  case (TCreate t now)
  then show ?thesis using create_op.state_cases [of t now fs d] by auto
next
  case (TCreateScheduled t sid now)
  then show ?thesis using create_scheduled_op.state_cases [of t sid now fs d] by auto
next
  case (TBegin i now)
  then show ?thesis using begin_op.state_cases [of i now fs d] by auto
next
  case (TProgress i p now)
  then show ?thesis using progress_op.state_cases [of i p now fs d] by auto
next
  case (TLog i m)
  then show ?thesis using log_op.state_cases [of i m fs d] by auto
next
  case (TFinish i st p res err m now)
  then show ?thesis using finish_op.state_cases [of i st p res err m now fs d] by auto
next
  case (TCancel i now)
  then show ?thesis using cancel_op.state_cases [of i now fs d] by auto
next
  case (TRecover now)
  then show ?thesis using recover_op.state_cases [of now fs d] by auto
next
  case TMigrateTasks
  then show ?thesis using migrate_task_op.state_cases [of fs d] by auto
next
  case TMigrateItems
  then show ?thesis using migrate_item_op.state_cases [of fs d] by auto
next
  case TMigrateRuns
  then show ?thesis using migrate_run_op.state_cases [of fs d] by auto
qed

text \<open>However far the statements of the migration get, it is a history of the single ones.\<close>

lemma migrate_errors_history:
  "\<exists>ops. set (map fst ops) \<subseteq> {TMigrateTasks, TMigrateItems, TMigrateRuns} \<and>
     db_state (migrate_errors fs d) = snd (run_task_ops ops d)"
proof -
  obtain a fs1 d1 where 1: "migrate_task_errors fs d = (a, fs1, d1)" by (metis prod.collapse)
  obtain b fs2 d2 where 2: "migrate_item_errors fs1 d1 = (b, fs2, d2)" by (metis prod.collapse)
  show ?thesis
  proof (cases "(\<exists>e. a = Inl e) \<or> (\<exists>e. b = Inl e)")
    case True
    then show ?thesis
    proof
      assume "\<exists>e. a = Inl e"
      with 1 show ?thesis
        by (intro exI [of _ "[(TMigrateTasks, fs)]"]) (auto simp: migrate_errors_def db_bind_def)
    next
      assume "\<exists>e. b = Inl e"
      with 1 2 show ?thesis
        by (cases a; intro exI [of _ "(TMigrateTasks, fs) # (if isl a then [] else [(TMigrateItems, fs1)])"])
          (auto simp: migrate_errors_def db_bind_def)
    qed
  next
    case False
    with 1 2 show ?thesis
      by (intro exI [of _ "[(TMigrateTasks, fs), (TMigrateItems, fs1), (TMigrateRuns, fs2)]"])
        (cases a; cases b; simp add: migrate_errors_def db_bind_def)
  qed
qed

lemma task_op_keeps_inv:
  assumes "task_store_inv d" "creates_fresh op"
  shows "task_store_inv (task_op_state op fs d)"
proof -
  have "task_store_inv (task_op_state op [] d)"
    using assms CreateAsyncTask_inv CreateScheduledAsyncTask_inv BeginAsyncTask_inv
      UpdateAsyncTaskProgress_inv AppendTaskLog_inv FinishAsyncTask_inv CancelPendingAsyncTask_inv
      RecoverInterruptedAsyncTasks_inv migrate_task_errors_inv migrate_item_errors_inv migrate_run_errors_inv
    by (cases op) (simp_all del: creates_fresh.simps(3-))
  with assms(1) task_op_state_cases [of op fs d] show ?thesis by auto
qed

text \<open>
  The life of one task, with the number of claims and of restarts a step counts: the abstract
  specification every operation refines.
\<close>

definition terminal_task :: "AsyncTask \<Rightarrow> bool" where
  "terminal_task t \<longleftrightarrow> task_Status t \<noteq> ''pending'' \<and> task_Status t \<noteq> ''running''"

inductive task_step :: "nat \<Rightarrow> nat \<Rightarrow> AsyncTask \<Rightarrow> AsyncTask \<Rightarrow> bool" where
  idle: "task_step 0 r t t"
| claim: "claimable (task_ID t) t \<Longrightarrow> task_step (Suc 0) r t (claim_task now t)"
| progress: "task_Status t = ''running'' \<Longrightarrow>
     task_step 0 r t (t\<lparr>task_Progress := max (task_Progress t) p, task_UpdatedAt := now\<rparr>)"
| finish: "task_Status t = ''running'' \<Longrightarrow> task_step 0 r t (finish_task st p res err now t)"
| cancel: "task_Status t = ''pending'' \<Longrightarrow>
     task_step 0 r t (t\<lparr>task_Status := ''cancelled'', task_Error := ''cancelled by operator'',
       task_UpdatedAt := now\<rparr>)"
| interrupt: "task_Status t = ''running'' \<Longrightarrow> task_step 0 (Suc 0) t (recover_task now t)"
| redact: "redactable_task t \<Longrightarrow> task_step 0 r t (redact_task t)"

lemma terminal_redact [simp]: "terminal_task (redact_task t) = terminal_task t"
  by (simp add: terminal_task_def)

lemma task_step_terminal:
  "task_step c r t t' \<Longrightarrow> terminal_task t \<Longrightarrow> t' = t \<or> redactable_task t \<and> t' = redact_task t"
  by (induction rule: task_step.induct) (auto simp: terminal_task_def claimable_def)

lemma task_step_counts:
  assumes "task_step c r t t'" "int (task_Attempts t) \<le> task_MaxAttempts t"
  shows "task_ID t' = task_ID t \<and> task_Type t' = task_Type t \<and>
    task_Attempts t' = task_Attempts t + c \<and> task_MaxAttempts t \<le> task_MaxAttempts t' \<and>
    task_MaxAttempts t' \<le>
      task_MaxAttempts t + (if task_Type t = ''quark_to_115_import'' then int r else 0)"
  using assms
  by (induction rule: task_step.induct) (auto simp: finish_task_def recover_task_def)

lemma task_step_update:
  assumes "t \<in> set ts" "p t \<Longrightarrow> task_step c r t (f t)" "\<not> p t \<Longrightarrow> c = 0"
  shows "\<exists>t' \<in> set (sql_update p f ts). task_step c r t t'"
proof -
  have "(if p t then f t else t) \<in> set (sql_update p f ts)" using assms(1) by (simp add: sql_update_def)
  moreover have "task_step c r t (if p t then f t else t)"
    using assms(2,3) by (auto intro: task_step.idle)
  ultimately show ?thesis by blast
qed

lemma BeginAsyncTask_step:
  assumes inv: "task_store_inv d" and t: "t \<in> set (async_tasks d)"
  shows "\<exists>t' \<in> set (async_tasks (task_op_state (TBegin i now) [] d)).
           task_step (count_list (task_op_claims (TBegin i now) [] d) (task_ID t)) r t t'"
proof (cases "\<exists>u \<in> set (async_tasks d). claimable i u")
  case False
  then show ?thesis
    using t by (simp add: BeginAsyncTask_skip claimed_task_def) (blast intro: task_step.idle)
next
  case True
  then obtain u where u: "u \<in> set (async_tasks d)" "claimable i u" by blast
  then have i: "task_ID u = i" by (simp add: claimable_def)
  have claims: "task_op_claims (TBegin i now) [] d = [i]"
    by (simp add: BeginAsyncTask_claim [OF inv u] claimed_task_def claimed_run_def i)
  have tasks: "async_tasks (task_op_state (TBegin i now) [] d) =
      sql_update (claimable i) (claim_task now) (async_tasks d)"
    by (simp add: BeginAsyncTask_claim [OF inv u])
  show ?thesis
    unfolding claims tasks
  proof (rule task_step_update [OF t])
    assume c: "claimable i t"
    then have "task_ID t = i" by (simp add: claimable_def)
    with c show "task_step (count_list [i] (task_ID t)) r t (claim_task now t)"
      using task_step.claim [of t] by simp
  next
    assume c: "\<not> claimable i t"
    show "count_list [i] (task_ID t) = 0"
    proof (cases "task_ID t = i")
      case True
      with wf_same_id [OF inv t u(1)] i u(2) c show ?thesis by simp
    qed simp
  qed
qed

lemma task_op_step:
  assumes inv: "task_store_inv d" and t: "t \<in> set (async_tasks d)"
  shows "\<exists>t' \<in> set (async_tasks (task_op_state op [] d)).
           task_step (count_list (task_op_claims op [] d) (task_ID t)) (of_bool (is_recover op)) t t'"
proof (cases op)
  case (TCreate u now)
  then show ?thesis
    by (simp add: CreateAsyncTask_eval) (use t in \<open>blast intro: task_step.idle\<close>)
next
  case (TCreateScheduled u sid now)
  then show ?thesis
    by (simp add: CreateScheduledAsyncTask_eval Let_def) (use t in \<open>blast intro: task_step.idle\<close>)
next
  case (TBegin i now)
  with BeginAsyncTask_step [OF inv t] show ?thesis by simp
next
  case (TProgress i p now)
  then show ?thesis
    by (simp add: UpdateAsyncTaskProgress_eval)
      (rule task_step_update [OF t], auto intro: task_step.progress)
next
  case (TLog i m)
  then show ?thesis
    by (simp add: AppendTaskLog_eval Let_def) (use t in \<open>blast intro: task_step.idle\<close>)
next
  case (TFinish i st p res err m now)
  show ?thesis
  proof (cases "\<exists>u \<in> set (async_tasks d). task_ID u = i \<and> task_Status u = ''running''")
    case True
    then obtain u where u: "u \<in> set (async_tasks d)" "task_Status u = ''running''" "i = task_ID u"
      by blast
    show ?thesis
      unfolding TFinish u(3)
      by (simp add: FinishAsyncTask_running [OF inv u(1,2)])
        (rule task_step_update [OF t], auto intro: task_step.finish)
  next
    case False
    then have "\<forall>u \<in> set (async_tasks d). task_ID u = i \<longrightarrow> task_Status u \<noteq> ''running''" by blast
    from FinishAsyncTask_not_running [OF inv this] t TFinish show ?thesis
      by (simp) (blast intro: task_step.idle)
  qed
next
  case (TCancel i now)
  then show ?thesis
    by (simp add: CancelPendingAsyncTask_eval)
      (rule task_step_update [OF t], auto intro: task_step.cancel)
next
  case (TRecover now)
  then show ?thesis
    by (simp add: RecoverInterruptedAsyncTasks_eval recover_tasks_def)
      (rule task_step_update [OF t], auto intro: task_step.interrupt)
next
  case TMigrateTasks
  then show ?thesis
    by (simp add: migrate_task_errors_eval)
      (rule task_step_update [OF t], auto intro: task_step.redact)
next
  case TMigrateItems
  then show ?thesis
    by (simp add: migrate_item_errors_def db_unfold) (use t in \<open>blast intro: task_step.idle\<close>)
next
  case TMigrateRuns
  then show ?thesis
    by (simp add: migrate_run_errors_def db_unfold) (use t in \<open>blast intro: task_step.idle\<close>)
qed

lemma task_op_cases:
  "task_op_state op fs d = d \<and> task_op_claims op fs d = [] \<or>
   task_op_state op fs d = task_op_state op [] d \<and> task_op_claims op fs d = task_op_claims op [] d"
proof (cases op)
  case (TBegin i now)
  then show ?thesis using begin_op.atomic [of i now fs d] by (auto simp: claimed_task_def)
qed (use task_op_state_cases [of op fs d] in auto)

lemma task_op_step_faults:
  assumes inv: "task_store_inv d" and t: "t \<in> set (async_tasks d)"
  shows "\<exists>t' \<in> set (async_tasks (task_op_state op fs d)).
           task_step (count_list (task_op_claims op fs d) (task_ID t)) (of_bool (is_recover op)) t t'"
  using task_op_cases [of op fs d]
proof
  assume "task_op_state op fs d = d \<and> task_op_claims op fs d = []"
  with t show ?thesis by (auto intro: task_step.idle)
next
  assume "task_op_state op fs d = task_op_state op [] d \<and>
      task_op_claims op fs d = task_op_claims op [] d"
  with task_op_step [OF inv t] show ?thesis by simp
qed

section \<open>Properties\<close>

lemma run_task_ops_inv:
  "task_store_inv d \<Longrightarrow> \<forall>e \<in> set ops. creates_fresh (fst e) \<Longrightarrow>
   task_store_inv (snd (run_task_ops ops d))"
  by (induction ops arbitrary: d) (simp_all add: Let_def task_op_keeps_inv)

text \<open>
  C7. The task tables stay consistent over every history: whatever sequence of operations runs,
  with driver faults at any statement of any of them, every task agrees with its runs (attempts
  numbered without gaps and within \<open>max_attempts\<close>, an active run exactly for a running task,
  only restart-safe imports may be attempted more than once).
\<close>

theorem task_store_consistent:
  assumes "task_store_inv d" "\<forall>e \<in> set ops. creates_fresh (fst e)"
  shows "task_store_inv (snd (run_task_ops ops d))"
  using assms by (rule run_task_ops_inv)

lemma run_task_ops_step:
  assumes "task_store_inv d" "\<forall>e \<in> set ops. creates_fresh (fst e)" "t \<in> set (async_tasks d)"
  shows "\<exists>t' \<in> set (async_tasks (snd (run_task_ops ops d))).
    task_ID t' = task_ID t \<and> task_Type t' = task_Type t \<and>
    task_Attempts t' = task_Attempts t + count_list (fst (run_task_ops ops d)) (task_ID t) \<and>
    task_MaxAttempts t' \<le> task_MaxAttempts t + (if task_Type t = ''quark_to_115_import''
      then int (length (filter (\<lambda>e. is_recover (fst e)) ops)) else 0) \<and>
    (terminal_task t \<longrightarrow> t' = t \<or> redactable_task t \<and> t' = redact_task t)"
  using assms
proof (induction ops arbitrary: d t)
  case (Cons e ops)
  let ?d = "task_op_state (fst e) (snd e) d"
  note prems = Cons.prems
  have inv: "task_store_inv ?d" using prems by (simp add: task_op_keeps_inv)
  obtain u where u: "u \<in> set (async_tasks ?d)"
    and step: "task_step (count_list (task_op_claims (fst e) (snd e) d) (task_ID t))
                 (of_bool (is_recover (fst e))) t u"
    using task_op_step_faults [OF prems(1,3)] by blast
  have "int (task_Attempts t) \<le> task_MaxAttempts t"
    using task_store_invD(2) [OF prems(1,3)] by (simp add: task_wf_def)
  note counts = task_step_counts [OF step this]
  from prems(2) have "\<forall>e \<in> set ops. creates_fresh (fst e)" by simp
  from Cons.IH [OF inv this u] obtain t' where t': "t' \<in> set (async_tasks (snd (run_task_ops ops ?d)))"
    "task_ID t' = task_ID u" "task_Type t' = task_Type u"
    "task_Attempts t' = task_Attempts u + count_list (fst (run_task_ops ops ?d)) (task_ID u)"
    "task_MaxAttempts t' \<le> task_MaxAttempts u + (if task_Type u = ''quark_to_115_import''
      then int (length (filter (\<lambda>e. is_recover (fst e)) ops)) else 0)"
    "terminal_task u \<longrightarrow> t' = u \<or> redactable_task u \<and> t' = redact_task u" by blast
  have "t' = t \<or> redactable_task t \<and> t' = redact_task t" if "terminal_task t"
    using task_step_terminal [OF step that] that t'(6) by auto
  show ?case
  proof (rule bexI [of _ t'])
    show "t' \<in> set (async_tasks (snd (run_task_ops (e # ops) d)))" using t'(1) by (simp add: Let_def)
  qed (use counts t' \<open>terminal_task t \<Longrightarrow> _\<close> in \<open>auto simp: Let_def split: if_splits\<close>)
qed auto

text \<open>
  C1. No double execution: after a task is created, over any history with driver faults anywhere,
  a worker gets to execute it at most once, and a restart-safe cross-drive import at most once
  more for each restart recovery.
\<close>

theorem task_claimed_at_most_once:
  assumes "task_store_inv d" "\<forall>e \<in> set ops. creates_fresh (fst e)"
    and "t \<in> set (async_tasks d)" "fresh_task t"
  shows "count_list (fst (run_task_ops ops d)) (task_ID t) \<le>
    1 + (if task_Type t = ''quark_to_115_import''
         then length (filter (\<lambda>e. is_recover (fst e)) ops) else 0)"
proof -
  from run_task_ops_step [OF assms(1-3)] obtain t' where
    t': "t' \<in> set (async_tasks (snd (run_task_ops ops d)))"
    "task_Attempts t' = task_Attempts t + count_list (fst (run_task_ops ops d)) (task_ID t)"
    "task_MaxAttempts t' \<le> task_MaxAttempts t + (if task_Type t = ''quark_to_115_import''
      then int (length (filter (\<lambda>e. is_recover (fst e)) ops)) else 0)" by blast
  have "task_store_inv (snd (run_task_ops ops d))"
    using assms(1,2) by (rule run_task_ops_inv)
  from task_store_invD(2) [OF this t'(1)] have "int (task_Attempts t') \<le> task_MaxAttempts t'"
    by (simp add: task_wf_def)
  with t'(2,3) assms(4) show ?thesis by (auto simp: fresh_task_def split: if_splits)
qed

lemma terminal_op_kept:
  assumes inv: "task_store_inv d" and t: "t \<in> set (async_tasks d)" "terminal_task t" and op: "op \<noteq> TMigrateTasks"
  shows "t \<in> set (async_tasks (task_op_state op fs d))"
proof -
  have keep: "t \<in> set (sql_update p f (async_tasks d))" if "\<not> p t" for p f
    using t(1) that by (auto simp: set_sql_update)
  have "t \<in> set (async_tasks (task_op_state op [] d))"
  proof (cases op)
    case (TBegin i now)
    have "\<not> claimable i t" using t(2) by (simp add: claimable_def terminal_task_def)
    with TBegin t show ?thesis
      by (cases "\<exists>u \<in> set (async_tasks d). claimable i u")
        (auto simp: BeginAsyncTask_skip BeginAsyncTask_claim [OF inv] intro: keep)
  next
    case (TFinish i st p res err m now)
    show ?thesis
    proof (cases "\<exists>u \<in> set (async_tasks d). task_ID u = i \<and> task_Status u = ''running''")
      case True
      with TFinish t show ?thesis
        by (auto simp: FinishAsyncTask_running [OF inv] terminal_task_def intro: keep)
    next
      case False
      then have "\<forall>u \<in> set (async_tasks d). task_ID u = i \<longrightarrow> task_Status u \<noteq> ''running''" by blast
      from FinishAsyncTask_not_running [OF inv this] t TFinish show ?thesis by simp
    qed
  qed (use t op in \<open>auto simp: CreateAsyncTask_eval CreateScheduledAsyncTask_eval Let_def
      UpdateAsyncTaskProgress_eval AppendTaskLog_eval CancelPendingAsyncTask_eval
      RecoverInterruptedAsyncTasks_eval recover_tasks_def migrate_item_errors_def migrate_run_errors_def
      db_unfold terminal_task_def intro!: keep\<close>)
  with t(1) task_op_state_cases [of op fs d] show ?thesis by auto
qed

lemma terminal_run_kept:
  "task_store_inv d \<Longrightarrow> \<forall>e \<in> set ops. creates_fresh (fst e) \<Longrightarrow> t \<in> set (async_tasks d) \<Longrightarrow>
   terminal_task t \<Longrightarrow> TMigrateTasks \<notin> fst ` set ops \<Longrightarrow> t \<in> set (async_tasks (snd (run_task_ops ops d)))"
  by (induction ops arbitrary: d) (auto simp: Let_def task_op_keeps_inv terminal_op_kept)

text \<open>
  C18. A finished task is final: over any history, with driver faults anywhere, the row of a completed,
  failed or cancelled task is never changed, but for one thing. The migration at a later start may replace the error
  text of an import when that holds a part of a signed download address.
\<close>

theorem terminal_task_final:
  assumes "task_store_inv d" "\<forall>e \<in> set ops. creates_fresh (fst e)"
    and "t \<in> set (async_tasks d)" "terminal_task t"
  shows "(TMigrateTasks \<notin> fst ` set ops \<or> \<not> redactable_task t \<longrightarrow>
      t \<in> set (async_tasks (snd (run_task_ops ops d)))) \<and>
    (t \<in> set (async_tasks (snd (run_task_ops ops d))) \<or>
     t\<lparr>task_Error := redacted_text\<rparr> \<in> set (async_tasks (snd (run_task_ops ops d))))"
  using run_task_ops_step [OF assms(1-3)] terminal_run_kept [OF assms] assms(4)
  by (auto simp: redact_task_def)

text \<open>What the migration may do to the rows, and what it leaves when it succeeds.\<close>

definition texts_only :: "db \<Rightarrow> db \<Rightarrow> bool" where
  "texts_only d d' \<longleftrightarrow>
     list_all2 (\<lambda>t t'. t' = t \<or> redactable_task t \<and> t' = redact_task t) (async_tasks d) (async_tasks d') \<and>
     list_all2 (\<lambda>i i'. i' = i \<or> signed_text (item_Error i) \<and> i' = redact_item i)
       (cross_drive_items d) (cross_drive_items d') \<and>
     list_all2 (\<lambda>x x'. x' = x \<or> ((\<exists>e. run_Error x = Some e \<and> signed_text e) \<or> (\<exists>l \<in> set (run_Logs x). signed_text l)) \<and>
         x' = redact_run x) (task_runs d) (task_runs d')"

definition redacted :: "db \<Rightarrow> bool" where
  "redacted d \<longleftrightarrow>
     (\<forall>t \<in> set (async_tasks d). task_Type t = ''quark_to_115_import'' \<longrightarrow> \<not> signed_text (task_Error t) \<and>
        (\<forall>x \<in> set (task_runs d). run_TaskID x = task_ID t \<longrightarrow>
           (\<forall>e. run_Error x = Some e \<longrightarrow> \<not> signed_text e) \<and> (\<forall>l \<in> set (run_Logs x). \<not> signed_text l))) \<and>
     (\<forall>i \<in> set (cross_drive_items d). \<not> signed_text (item_Error i))"

lemma redacted_text_clean [simp]: "\<not> signed_text redacted_text"
  by code_simp

lemma list_all2_sql_update:
  "(\<And>x. K x x) \<Longrightarrow> (\<And>x. p x \<Longrightarrow> K x (f x)) \<Longrightarrow> list_all2 K xs (sql_update p f xs)"
  by (auto simp: list_all2_conv_all_nth sql_update_def)

lemma texts_only_refl: "texts_only d d"
  by (simp add: texts_only_def list_all2_refl)

lemma redacted_rows:
  assumes tasks: "async_tasks d' = sql_update redactable_task redact_task ts"
    and items: "cross_drive_items d' = sql_update (\<lambda>i. signed_text (item_Error i)) redact_item is"
    and runs: "task_runs d' = sql_update (\<lambda>r. (\<exists>t \<in> set (async_tasks d'). task_ID t = run_TaskID r \<and>
        task_Type t = ''quark_to_115_import'') \<and> ((case run_Error r of None \<Rightarrow> False | Some e \<Rightarrow> signed_text e) \<or>
        (\<exists>l \<in> set (run_Logs r). signed_text l))) redact_run rs"
  shows "redacted d'"
  unfolding redacted_def
proof (intro conjI ballI impI allI)
  fix t assume t: "t \<in> set (async_tasks d')" "task_Type t = ''quark_to_115_import''"
  from t(1) show "\<not> signed_text (task_Error t)"
    unfolding tasks using t(2)
    by (elim sql_updateE) (auto simp: redactable_task_def redact_task_def split: if_splits)
  fix x assume x: "x \<in> set (task_runs d')" and id: "run_TaskID x = task_ID t"
  obtain x0 where "x = (if (\<exists>t \<in> set (async_tasks d'). task_ID t = run_TaskID x0 \<and>
        task_Type t = ''quark_to_115_import'') \<and> ((case run_Error x0 of None \<Rightarrow> False | Some e \<Rightarrow> signed_text e) \<or>
        (\<exists>l \<in> set (run_Logs x0). signed_text l)) then redact_run x0 else x0)"
    using x unfolding runs by (rule sql_updateE)
  with t id show "\<not> signed_text e" if "run_Error x = Some e" for e
    using that by (auto simp: redact_run_def split: if_splits option.splits)
  from \<open>x = _\<close> t id show "\<not> signed_text l" if "l \<in> set (run_Logs x)" for l
    using that by (auto simp: redact_run_def split: if_splits option.splits)
next
  fix i assume "i \<in> set (cross_drive_items d')"
  then show "\<not> signed_text (item_Error i)"
    unfolding items by (elim sql_updateE) (auto simp: redact_item_def split: if_splits)
qed

lemma migrate_errors_wp:
  "db_wp migrate_errors (\<lambda>_ d'. texts_only d d' \<and> redacted d') (\<lambda>_. texts_only d) d"
proof -
  have upd: "list_all2 (\<lambda>t t'. t' = t \<or> p t \<and> t' = f t) ts (sql_update p f ts)" for p f ts
    by (rule list_all2_sql_update) simp_all
  have runs: "list_all2 (\<lambda>x x'. x' = x \<or> ((\<exists>e. run_Error x = Some e \<and> signed_text e) \<or>
      (\<exists>l \<in> set (run_Logs x). signed_text l)) \<and> x' = redact_run x) rs (sql_update (\<lambda>r. Q r \<and>
      ((case run_Error r of None \<Rightarrow> False | Some e \<Rightarrow> signed_text e) \<or> (\<exists>l \<in> set (run_Logs r). signed_text l)))
      redact_run rs)" for Q rs
    by (rule list_all2_sql_update) (auto split: option.splits)
  show ?thesis
    unfolding migrate_errors_def migrate_defs update_tasks_def
    by (intro wp_rules; simp add: texts_only_refl;
      (simp add: texts_only_def list_all2_refl upd runs)?; rule redacted_rows; simp)
qed


text \<open>
  C14. Restart recovery: afterwards no task and no run is marked running, an interrupted
  cross-drive import can be claimed again for its next attempt and its import row has no owner
  left, any other interrupted task has failed with the advice to verify the upstream state and is never
  claimed again, and every task that was not interrupted is as before.
\<close>

theorem recovery_outcome:
  assumes inv: "task_store_inv d"
    and d': "d' = db_state (RecoverInterruptedAsyncTasks now [] d)"
  shows "(\<forall>t \<in> set (async_tasks d'). task_Status t \<noteq> ''running'') \<and>
    (\<forall>r \<in> set (task_runs d'). run_Status r \<noteq> ''running'') \<and>
    (\<forall>t \<in> set (async_tasks d). task_Status t = ''running'' \<longrightarrow>
       (if task_Type t = ''quark_to_115_import''
        then (\<exists>run. db_result (BeginAsyncTask (task_ID t) later [] d') = Inr (Some run) \<and>
                    run_Attempt run = Suc (task_Attempts t)) \<and>
             (\<forall>i \<in> set (cross_drive_imports d'). imp_TaskID i = task_ID t \<longrightarrow> imp_RunOwner i = None)
        else db_result (BeginAsyncTask (task_ID t) later [] d') = Inr None \<and>
             t\<lparr>task_Status := ''failed'', task_Error := recover_message, task_UpdatedAt := now\<rparr>
               \<in> set (async_tasks d'))) \<and>
    (\<forall>t \<in> set (async_tasks d). task_Status t \<noteq> ''running'' \<longrightarrow> t \<in> set (async_tasks d'))"
proof (intro conjI ballI impI)
  have tasks: "async_tasks d' = recover_tasks now (async_tasks d)"
    by (simp add: d' RecoverInterruptedAsyncTasks_eval)
  show "task_Status t \<noteq> ''running''" if "t \<in> set (async_tasks d')" for t
    using that by (auto simp: tasks recover_tasks_def recover_task_def set_sql_update)
  show "run_Status r \<noteq> ''running''" if "r \<in> set (task_runs d')" for r
    using that by (auto simp: d' RecoverInterruptedAsyncTasks_eval recover_run_def set_sql_update)
  show "t \<in> set (async_tasks d')" if "t \<in> set (async_tasks d)" "task_Status t \<noteq> ''running''" for t
    using that by (auto simp: tasks recover_tasks_def set_sql_update)
  fix t assume t: "t \<in> set (async_tasks d)" "task_Status t = ''running''"
  have inv': "task_store_inv d'" unfolding d' by (rule RecoverInterruptedAsyncTasks_inv [OF inv])
  let ?t = "recover_task now t"
  have t': "?t \<in> set (async_tasks d')" using t by (auto simp: tasks recover_tasks_def set_sql_update)
  show "if task_Type t = ''quark_to_115_import''
        then (\<exists>run. db_result (BeginAsyncTask (task_ID t) later [] d') = Inr (Some run) \<and>
                    run_Attempt run = Suc (task_Attempts t)) \<and>
             (\<forall>i \<in> set (cross_drive_imports d'). imp_TaskID i = task_ID t \<longrightarrow> imp_RunOwner i = None)
        else db_result (BeginAsyncTask (task_ID t) later [] d') = Inr None \<and>
             t\<lparr>task_Status := ''failed'', task_Error := recover_message, task_UpdatedAt := now\<rparr>
               \<in> set (async_tasks d')"
  proof (cases "task_Type t = ''quark_to_115_import''")
    case True
    then have c: "claimable (task_ID t) ?t" and a: "task_Attempts ?t = task_Attempts t"
      and p: "task_Status ?t = ''pending''" "task_Type ?t = ''quark_to_115_import''"
      by (simp_all add: claimable_def recover_task_def)
    have "imp_RunOwner i = None"
      if i: "i \<in> set (cross_drive_imports d')" "imp_TaskID i = task_ID t" for i
    proof -
      obtain i0 where "i = (if \<exists>t \<in> set (async_tasks d'). task_ID t = imp_TaskID i0 \<and>
          task_Type t = ''quark_to_115_import'' \<and> task_Status t = ''pending''
        then i0\<lparr>imp_RunOwner := None, imp_Error := recover_reconcile, imp_UpdatedAt := now\<rparr> else i0)"
        using i(1) by (simp add: d' RecoverInterruptedAsyncTasks_eval) (erule sql_updateE, metis)
      with i(2) t' p show ?thesis by (auto split: if_splits)
    qed
    with True BeginAsyncTask_claim [OF inv' t' c] show ?thesis by (simp add: claimed_run_def a)
  next
    case False
    have "\<not> claimable (task_ID t) u" if "u \<in> set (async_tasks d')" for u
    proof
      assume c: "claimable (task_ID t) u"
      then have "u = ?t" using wf_same_id [OF inv' that t'] by (simp add: claimable_def)
      with c False show False by (simp add: claimable_def recover_task_def)
    qed
    with False t' show ?thesis by (simp add: BeginAsyncTask_skip) (simp add: recover_task_def)
  qed
qed

text \<open>
  C23. Atomicity: a driver failure at any statement of a task operation leaves the whole database
  as it was before the operation, or the operation did all its work as if nothing had failed.
\<close>

theorem task_operation_atomic:
  "task_op_state op fs d \<in> {d, task_op_state op [] d}"
  using task_op_state_cases [of op fs d] by blast

text \<open>
  C26. A worker that finishes its task writes the outcome once: on a running task the task and its
  latest run get the status, result and error together and the log message is appended; on a task
  that is not running the call fails and changes nothing.
\<close>

theorem finish_task_outcome:
  assumes inv: "task_store_inv d"
    and outcome_def: "outcome = FinishAsyncTask tid st p res err msg now [] d"
  shows "(\<forall>t \<in> set (async_tasks d). task_ID t = tid \<longrightarrow> task_Status t = ''running'' \<longrightarrow>
      db_result outcome = Inr () \<and>
      finish_task st p res err now t \<in> set (async_tasks (db_state outcome)) \<and>
      last (runs_of (db_state outcome) tid) =
        finish_run st p (finish_logs msg (last (runs_of d tid))) err now (last (runs_of d tid))) \<and>
    ((\<forall>t \<in> set (async_tasks d). task_ID t = tid \<longrightarrow> task_Status t \<noteq> ''running'') \<longrightarrow>
      (\<exists>e. db_result outcome = Inl e \<and> errors_is e ErrNoRows) \<and> db_state outcome = d)"
proof (intro conjI ballI impI)
  fix t assume t: "t \<in> set (async_tasks d)" and tid: "task_ID t = tid"
    and run: "task_Status t = ''running''"
  note eval = FinishAsyncTask_running [OF inv t run, of st p res err msg now, unfolded tid]
  note act = running_task_active [OF inv t run, unfolded tid]
  let ?r = "last (runs_of d tid)"
  let ?q = "\<lambda>x. run_ID x = run_ID ?r \<and> run_Status x = ''running''"
  let ?g = "finish_run st p (finish_logs msg ?r) err now"
  show "db_result outcome = Inr ()" by (simp add: outcome_def eval)
  show "finish_task st p res err now t \<in> set (async_tasks (db_state outcome))"
    using t tid run by (auto simp: outcome_def eval set_sql_update)
  have "runs_of (db_state outcome) tid = sql_update ?q ?g (runs_of d tid)"
    by (subst runs_of_def) (simp add: outcome_def eval filter_sql_update finish_run_def,
      simp add: runs_of_def)
  also have "\<dots> = butlast (runs_of d tid) @ [?g ?r]"
    using act run_id_eq [OF inv _ act(2)] distinct_runs_of [OF inv]
    by (intro sql_update_last) (auto simp: runs_of_mem)
  finally show "last (runs_of (db_state outcome) tid) = ?g ?r" by simp
next
  assume no: "\<forall>t \<in> set (async_tasks d). task_ID t = tid \<longrightarrow> task_Status t \<noteq> ''running''"
  note eval = FinishAsyncTask_not_running [OF inv no, of st p res err msg now]
  show "\<exists>e. db_result outcome = Inl e \<and> errors_is e ErrNoRows" by (simp add: outcome_def eval)
  show "db_state outcome = d" by (simp add: outcome_def eval)
qed

text \<open>
  First in, first out: the pending tasks come in creation order, and a task left out by the
  limit is not older than any that is returned.
\<close>

theorem pending_tasks_fifo:
  assumes "db_result (ListPendingAsyncTasks limit [] d) = Inr ts"
  shows "set ts \<subseteq> {t \<in> set (async_tasks d). task_Status t = ''pending''} \<and>
    sorted (map (\<lambda>t. (task_CreatedAt t, task_ID t)) ts) \<and>
    (limit > 0 \<longrightarrow> length ts \<le> nat limit) \<and>
    (\<forall>u \<in> set (async_tasks d). task_Status u = ''pending'' \<longrightarrow> u \<notin> set ts \<longrightarrow>
       limit > 0 \<and> length ts = nat limit \<and>
       (\<forall>t \<in> set ts. (task_CreatedAt t, task_ID t) \<le> (task_CreatedAt u, task_ID u)))"
proof -
  let ?k = "\<lambda>t. (task_CreatedAt t, task_ID t)"
  let ?all = "pending_order (async_tasks d)"
  have all: "set ?all = {t \<in> set (async_tasks d). task_Status t = ''pending''}" "sorted (map ?k ?all)"
    by (simp_all add: pending_order_def)
  from assms have ts: "ts = limit_rows limit ?all"
    by (simp add: ListPendingAsyncTasks_def db_query_eval)
  show ?thesis
  proof (cases "limit > 0")
    case True
    then have take: "ts = take (nat limit) ?all" by (simp add: ts limit_rows_def)
    have "length ts = nat limit \<and> (\<forall>t \<in> set ts. ?k t \<le> ?k u)"
      if u: "u \<in> set (async_tasks d)" "task_Status u = ''pending''" "u \<notin> set ts" for u
    proof -
      have "u \<in> set (take (nat limit) ?all @ drop (nat limit) ?all)" using u all(1) by simp
      with u(3) have drop: "u \<in> set (drop (nat limit) ?all)" unfolding take set_append by blast
      then have "nat limit < length ?all" by (cases "nat limit < length ?all") auto
      moreover have "sorted (map ?k (take (nat limit) ?all @ drop (nat limit) ?all))"
        using all(2) by simp
      then have "\<forall>t \<in> set ts. ?k t \<le> ?k u"
        using drop unfolding take map_append sorted_append by auto
      ultimately show ?thesis by (simp add: take)
    qed
    moreover have "set ts \<subseteq> set ?all" by (simp add: take set_take_subset)
    moreover have "sorted (map ?k ts)" unfolding take take_map [symmetric] using all(2) by (rule sorted_wrt_take)
    ultimately show ?thesis using True all by (auto simp: take)
  qed (use all ts in \<open>auto simp: limit_rows_def\<close>)
qed

text \<open>Example data for the witnesses: two tasks, one of them running.\<close>

definition example_task :: "string \<Rightarrow> string \<Rightarrow> AsyncTask" where
  "example_task tid type = \<lparr>task_ID = tid, task_Type = type, task_ScheduleID = '''',
     task_Payload = [(''share_code'', VStr ''abc'')], task_Status = ''pending'', task_Progress = 0,
     task_Result = '''', task_Error = '''', task_Attempts = 0, task_MaxAttempts = 1,
     task_CreatedAt = 5, task_UpdatedAt = 5\<rparr>"

lemma example_task_simps [simp]:
  "task_ID (example_task tid type) = tid" "task_Type (example_task tid type) = type"
  "task_Status (example_task tid type) = ''pending''" "task_Attempts (example_task tid type) = 0"
  "task_MaxAttempts (example_task tid type) = 1" "task_CreatedAt (example_task tid type) = 5"
  by (simp_all add: example_task_def)

definition example_db :: db where
  "example_db = empty_db\<lparr>async_tasks := [example_task ''t1'' ''quark_to_115_import'',
                                         example_task ''t2'' ''offline'']\<rparr>"

definition running_db :: db where
  "running_db = db_state (BeginAsyncTask ''t2'' 7 [] (db_state (BeginAsyncTask ''t1'' 6 [] example_db)))"

lemma example_db_inv: "task_store_inv example_db"
  by (simp add: task_store_inv_def task_wf_def runs_of_def example_db_def empty_db_def)

lemma running_db_inv: "task_store_inv running_db"
  unfolding running_db_def by (intro BeginAsyncTask_inv example_db_inv)

lemma example_fresh: "fresh_task (example_task tid type)"
  by (simp add: fresh_task_def)

lemmas db_compute =
  db_bind_def db_exec_def db_stmt_def db_query_def db_fail_def db_ret_def db_tx_def db_wrap_def
  sql_count_def sql_find_def sql_last_def Let_def

lemma running_db_tasks:
  "async_tasks running_db = [claim_task 6 (example_task ''t1'' ''quark_to_115_import''),
                             claim_task 7 (example_task ''t2'' ''offline'')]"
  by (simp add: running_db_def example_db_def empty_db_def task_ops_defs db_compute claimable_def)

theorem task_store_consistent_witness:
  "creates_fresh (TCreate (example_task ''t3'' ''offline'') 9) \<and>
   task_store_inv (snd (run_task_ops [(TCreate (example_task ''t3'' ''offline'') 9, []),
     (TBegin ''t3'' 10, [False, True]), (TBegin ''t3'' 11, [])] example_db))"
  using task_store_consistent [OF example_db_inv, of "[(TCreate (example_task ''t3'' ''offline'') 9, []),
     (TBegin ''t3'' 10, [False, True]), (TBegin ''t3'' 11, [])]"]
  by (simp add: example_fresh)

theorem task_claimed_at_most_once_witness:
  "example_task ''t2'' ''offline'' \<in> set (async_tasks example_db) \<and>
   fst (run_task_ops [(TBegin ''t2'' 10, []), (TBegin ''t2'' 11, [])] example_db) = [''t2''] \<and>
   count_list (fst (run_task_ops [(TBegin ''t2'' 10, []), (TRecover 11, []), (TBegin ''t2'' 12, [])]
     example_db)) ''t2'' \<le> 1"
proof -
  have mem: "example_task ''t2'' ''offline'' \<in> set (async_tasks example_db)"
    by (simp add: example_db_def)
  have run: "fst (run_task_ops [(TBegin ''t2'' 10, []), (TBegin ''t2'' 11, [])] example_db) = [''t2'']"
    by (simp add: example_db_def empty_db_def task_ops_defs db_compute claimable_def claimed_task_def)
  show ?thesis
    using task_claimed_at_most_once [OF example_db_inv _ mem example_fresh,
      of "[(TBegin ''t2'' 10, []), (TRecover 11, []), (TBegin ''t2'' 12, [])]"] mem run
    by simp
qed

text \<open>A finished task stays as it is over a restart, an import whose error held a signed address up to that text.\<close>

definition leaked_text :: string where
  "leaked_text = ''Get https://dl-pc.example/file?OSSAccessKeyId=k: timeout''"

definition finished_db :: db where
  "finished_db = db_state (FinishAsyncTask ''t1'' ''failed'' 0 '''' leaked_text '''' 9 []
     (db_state (FinishAsyncTask ''t2'' ''failed'' 0 '''' ''x'' '''' 8 [] running_db)))"

definition failed_import :: AsyncTask where
  "failed_import = finish_task ''failed'' 0 '''' leaked_text 9 (claim_task 6 (example_task ''t1'' ''quark_to_115_import''))"

definition failed_offline :: AsyncTask where
  "failed_offline = finish_task ''failed'' 0 '''' ''x'' 8 (claim_task 7 (example_task ''t2'' ''offline''))"

lemma finished_db_inv: "task_store_inv finished_db"
  unfolding finished_db_def by (intro FinishAsyncTask_inv running_db_inv)

lemma finished_db_tasks: "async_tasks finished_db = [failed_import, failed_offline]"
proof -
  let ?i = "claim_task 6 (example_task ''t1'' ''quark_to_115_import'')"
  let ?o = "claim_task 7 (example_task ''t2'' ''offline'')"
  let ?d = "db_state (FinishAsyncTask ''t2'' ''failed'' 0 '''' ''x'' '''' 8 [] running_db)"
  have o: "?o \<in> set (async_tasks running_db)" by (simp add: running_db_tasks)
  have d: "async_tasks ?d = [?i, failed_offline]"
    using FinishAsyncTask_running [OF running_db_inv o, of "''failed''" 0 "''''" "''x''" "''''" 8]
    by (simp add: running_db_tasks failed_offline_def)
  have inv: "task_store_inv ?d" by (rule FinishAsyncTask_inv [OF running_db_inv])
  have i: "?i \<in> set (async_tasks ?d)" by (simp add: d)
  show ?thesis
    using FinishAsyncTask_running [OF inv i, of "''failed''" 0 "''''" leaked_text "''''" 9]
    by (simp add: finished_db_def d failed_import_def failed_offline_def finish_task_def)
qed

lemma failed_import_redactable: "redactable_task failed_import"
  by code_simp

theorem terminal_task_final_witness:
  "redactable_task failed_import \<and>
   (let d' = snd (run_task_ops [(TRecover 20, []), (TMigrateTasks, []), (TBegin ''t1'' 21, [])] finished_db)
    in failed_offline \<in> set (async_tasks d') \<and>
       (failed_import \<in> set (async_tasks d') \<or> failed_import\<lparr>task_Error := redacted_text\<rparr> \<in> set (async_tasks d')))"
proof -
  let ?ops = "[(TRecover 20, []), (TMigrateTasks, []), (TBegin ''t1'' 21, [])]"
  have mem: "failed_import \<in> set (async_tasks finished_db)" "failed_offline \<in> set (async_tasks finished_db)"
    by (simp_all add: finished_db_tasks)
  have done': "terminal_task failed_import" "terminal_task failed_offline" "\<not> redactable_task failed_offline"
    by (simp_all add: terminal_task_def failed_import_def failed_offline_def finish_task_def redactable_task_def)
  show ?thesis
    unfolding Let_def
    using terminal_task_final [OF finished_db_inv _ mem(1) done'(1), of ?ops]
      terminal_task_final [OF finished_db_inv _ mem(2) done'(2), of ?ops] done'(3) failed_import_redactable
    by (simp del: run_task_ops.simps)
qed


theorem recovery_outcome_witness:
  "let d' = db_state (RecoverInterruptedAsyncTasks 9 [] running_db)
   in (\<exists>run. db_result (BeginAsyncTask ''t1'' 10 [] d') = Inr (Some run)) \<and>
      db_result (BeginAsyncTask ''t2'' 10 [] d') = Inr None \<and>
      (\<exists>t \<in> set (async_tasks d'). task_ID t = ''t2'' \<and> task_Status t = ''failed'')"
proof -
  let ?a = "claim_task 6 (example_task ''t1'' ''quark_to_115_import'')"
  let ?b = "claim_task 7 (example_task ''t2'' ''offline'')"
  let ?d' = "db_state (RecoverInterruptedAsyncTasks 9 [] running_db)"
  note out = recovery_outcome [OF running_db_inv refl, of 9 10, THEN conjunct2, THEN conjunct2, THEN conjunct1]
  have "\<exists>run. db_result (BeginAsyncTask ''t1'' 10 [] ?d') = Inr (Some run)"
    using bspec [OF out, of ?a] by (auto simp: running_db_tasks)
  moreover have "db_result (BeginAsyncTask ''t2'' 10 [] ?d') = Inr None \<and>
      ?b\<lparr>task_Status := ''failed'', task_Error := recover_message, task_UpdatedAt := 9\<rparr> \<in> set (async_tasks ?d')"
    using bspec [OF out, of ?b] by (simp add: running_db_tasks)
  then have "db_result (BeginAsyncTask ''t2'' 10 [] ?d') = Inr None \<and>
      (\<exists>t \<in> set (async_tasks ?d'). task_ID t = ''t2'' \<and> task_Status t = ''failed'')"
    by (auto intro!: bexI [of _ "?b\<lparr>task_Status := ''failed'', task_Error := recover_message, task_UpdatedAt := 9\<rparr>"])
  ultimately show ?thesis by (simp add: Let_def)
qed

theorem finish_task_outcome_witness:
  "db_result (FinishAsyncTask ''t2'' ''completed'' 1 ''ok'' '''' ''done'' 8 [] running_db) = Inr () \<and>
   (\<exists>e. db_result (FinishAsyncTask ''t9'' ''completed'' 1 ''ok'' '''' ''done'' 8 [] running_db) = Inl e)"
  using finish_task_outcome [OF running_db_inv refl, of "''t2''" "''completed''" 1 "''ok''" "''''" "''done''" 8]
    finish_task_outcome [OF running_db_inv refl, of "''t9''" "''completed''" 1 "''ok''" "''''" "''done''" 8]
  by (auto simp: running_db_tasks)

theorem pending_tasks_fifo_witness:
  "db_result (ListPendingAsyncTasks 1 [] example_db) = Inr [example_task ''t1'' ''quark_to_115_import''] \<and>
   sorted (map (\<lambda>t. (task_CreatedAt t, task_ID t)) [example_task ''t1'' ''quark_to_115_import''])"
proof -
  have "db_result (ListPendingAsyncTasks 1 [] example_db) = Inr [example_task ''t1'' ''quark_to_115_import'']"
    by (simp add: ListPendingAsyncTasks_def db_query_eval limit_rows_def pending_order_def
        example_db_def)
  with pending_tasks_fifo [OF this] show ?thesis by simp
qed

end
