(* ===== verification/ApprovalStore.thy ===== *)
theory ApprovalStore
  imports Models
begin

text \<open>
  Destructive approvals (\<open>destructive_approvals\<close> in \<open>internal/storage/sqlite.go\<close>): a request to
  delete remote objects is stored pending, decided once by a browser user, consumed once by the
  executor, and finished once. The decision and the claim are an \<open>UPDATE\<close> followed by a
  \<open>SELECT\<close> outside a transaction: a driver fault between the two reports an error although the
  row has moved on, so these operations are not \<open>db_safe\<close>, and the facts here are stated with
  \<open>db_keeps\<close>, which covers such runs.
\<close>

section \<open>Operations\<close>

definition update_approvals ::
  "(DestructiveApproval \<Rightarrow> bool) \<Rightarrow> (DestructiveApproval \<Rightarrow> DestructiveApproval) \<Rightarrow> nat dbop" where
  "update_approvals p f =
     db_exec (\<lambda>d. (sql_count p (destructive_approvals d),
                   d\<lparr>destructive_approvals := sql_update p f (destructive_approvals d)\<rparr>))"

definition scanDestructiveApproval :: "string \<Rightarrow> DestructiveApproval dbop" where
  "scanDestructiveApproval aid =
     db_query (\<lambda>d. case sql_find (\<lambda>a. apr_ID a = aid) (destructive_approvals d) of
                     None \<Rightarrow> Inl ErrNoRows | Some a \<Rightarrow> Inr a)"

definition CreateDestructiveApproval :: "DestructiveApproval \<Rightarrow> unit dbop" where
  "CreateDestructiveApproval approval =
     db_stmt (\<lambda>d. if apr_ID approval \<in> set (map apr_ID (destructive_approvals d))
                  then Inl ErrConstraint
                  else Inr ((), d\<lparr>destructive_approvals := destructive_approvals d @
                    [approval\<lparr>apr_Status := ''pending'', apr_ApprovedBy := '''', apr_Error := '''',
                               apr_DecidedAt := None, apr_ExecutedAt := None\<rparr>]\<rparr>))"

definition ListPendingDestructiveApprovals :: "gotime \<Rightarrow> DestructiveApproval list dbop" where
  "ListPendingDestructiveApprovals now =
     db_bind (update_approvals (\<lambda>a. apr_Status a = ''pending'' \<and> apr_ExpiresAt a \<le> now)
                (\<lambda>a. a\<lparr>apr_Status := ''expired''\<rparr>)) (\<lambda>_.
     db_query (\<lambda>d. Inr (sort_key apr_CreatedAt
                 (filter (\<lambda>a. apr_Status a = ''pending'') (destructive_approvals d)))))"

definition DecideDestructiveApproval ::
  "string \<Rightarrow> string \<Rightarrow> string \<Rightarrow> gotime \<Rightarrow> DestructiveApproval dbop" where
  "DecideDestructiveApproval aid user status now =
     (if status \<noteq> ''approved'' \<and> status \<noteq> ''rejected''
      then db_fail (Errorf ''invalid destructive approval decision'' [])
      else db_bind (update_approvals
             (\<lambda>a. apr_ID a = aid \<and> apr_Status a = ''pending'' \<and> apr_ExpiresAt a > now)
             (\<lambda>a. a\<lparr>apr_Status := status, apr_ApprovedBy := user, apr_DecidedAt := Some now\<rparr>))
           (\<lambda>changed.
             if changed \<noteq> 1
             then db_fail (Errorf ''destructive approval is missing, expired, or already decided'' [])
             else scanDestructiveApproval aid))"

definition ClaimDestructiveApproval :: "string \<Rightarrow> string \<Rightarrow> gotime \<Rightarrow> DestructiveApproval dbop" where
  "ClaimDestructiveApproval aid action now =
     db_bind (update_approvals
        (\<lambda>a. apr_ID a = aid \<and> apr_Action a = action \<and> apr_Status a = ''approved'' \<and>
             apr_ExpiresAt a > now)
        (\<lambda>a. a\<lparr>apr_Status := ''executing''\<rparr>))
      (\<lambda>changed.
        if changed \<noteq> 1
        then db_fail (Errorf
          ''destructive approval is missing, expired, already used, or not approved'' [])
        else scanDestructiveApproval aid)"

definition FinishDestructiveApproval :: "string \<Rightarrow> string \<Rightarrow> string \<Rightarrow> gotime \<Rightarrow> unit dbop" where
  "FinishDestructiveApproval aid status errorText now =
     (if status \<noteq> ''executed'' \<and> status \<noteq> ''failed''
      then db_fail (Errorf ''invalid destructive approval terminal status'' [])
      else db_bind (update_approvals (\<lambda>a. apr_ID a = aid \<and> apr_Status a = ''executing'')
             (\<lambda>a. a\<lparr>apr_Status := status, apr_Error := errorText, apr_ExecutedAt := Some now\<rparr>))
           (\<lambda>changed.
             if changed \<noteq> 1 then db_fail (Errorf ''destructive approval is not executing'' [])
             else db_ret ()))"

lemmas approval_ops_defs =
  CreateDestructiveApproval_def ListPendingDestructiveApprovals_def DecideDestructiveApproval_def
  ClaimDestructiveApproval_def FinishDestructiveApproval_def update_approvals_def
  scanDestructiveApproval_def

section \<open>The life of one approval\<close>

text \<open>The abstract specification: what may happen to one approval, and in which order.\<close>

inductive approval_step :: "DestructiveApproval \<Rightarrow> DestructiveApproval \<Rightarrow> bool" where
  decide: "apr_Status a = ''pending'' \<Longrightarrow> now < apr_ExpiresAt a \<Longrightarrow>
     st = ''approved'' \<or> st = ''rejected'' \<Longrightarrow>
     approval_step a (a\<lparr>apr_Status := st, apr_ApprovedBy := user, apr_DecidedAt := Some now\<rparr>)"
| expire: "apr_Status a = ''pending'' \<Longrightarrow> apr_ExpiresAt a \<le> now \<Longrightarrow>
     approval_step a (a\<lparr>apr_Status := ''expired''\<rparr>)"
| claim: "apr_Status a = ''approved'' \<Longrightarrow> now < apr_ExpiresAt a \<Longrightarrow>
     approval_step a (a\<lparr>apr_Status := ''executing''\<rparr>)"
| finish: "apr_Status a = ''executing'' \<Longrightarrow> st = ''executed'' \<or> st = ''failed'' \<Longrightarrow>
     approval_step a (a\<lparr>apr_Status := st, apr_Error := e, apr_ExecutedAt := Some now\<rparr>)"

inductive_cases approval_stepE: "approval_step a b"

text \<open>What the request asked for: never changed by any step.\<close>

definition approval_binding ::
  "DestructiveApproval \<Rightarrow> string \<times> string \<times> string \<times> string \<times> DestructiveTarget list \<times> gotime" where
  "approval_binding a =
     (apr_ID a, apr_Action a, apr_AccountID a, apr_ParentCID a, apr_Targets a, apr_ExpiresAt a)"

lemma approval_step_binding: "approval_step a b \<Longrightarrow> approval_binding b = approval_binding a"
  by (induction rule: approval_step.induct) (simp_all add: approval_binding_def)

definition approval_spent :: "DestructiveApproval \<Rightarrow> bool" where
  "approval_spent a \<longleftrightarrow> apr_Status a \<in> {''executing'', ''executed'', ''failed''}"

lemma approval_step_spent: "approval_step a b \<Longrightarrow> approval_spent a \<Longrightarrow> approval_spent b"
  by (induction rule: approval_step.induct) (auto simp: approval_spent_def)

section \<open>Every operation moves each approval along its life\<close>

text \<open>
  A predicate of one approval that every step keeps, holding of some stored row, is kept by
  every operation under any driver faults.
\<close>

definition holds_of_row :: "(DestructiveApproval \<Rightarrow> bool) \<Rightarrow> db \<Rightarrow> bool" where
  "holds_of_row Q d \<longleftrightarrow> (\<exists>a \<in> set (destructive_approvals d). Q a)"

lemma keeps_update_row:
  assumes "\<And>a. Q a \<Longrightarrow> p a \<Longrightarrow> Q (f a)"
  shows "db_keeps (holds_of_row Q) (update_approvals p f)"
  unfolding update_approvals_def
proof (rule keeps_rules)
  fix d assume "holds_of_row Q d"
  then obtain a where a: "a \<in> set (destructive_approvals d)" "Q a" by (auto simp: holds_of_row_def)
  then have "(if p a then f a else a) \<in> set (sql_update p f (destructive_approvals d))"
    by (auto simp: sql_update_def)
  with a assms show "holds_of_row Q (snd (sql_count p (destructive_approvals d),
      d\<lparr>destructive_approvals := sql_update p f (destructive_approvals d)\<rparr>))"
    by (auto simp: holds_of_row_def split: if_splits)
qed

lemma keeps_update_all:
  assumes "\<And>a. Q a \<Longrightarrow> p a \<Longrightarrow> Q (f a)" "\<And>a. apr_ID (f a) = apr_ID a"
  shows "db_keeps (\<lambda>d. distinct (map apr_ID (destructive_approvals d)) \<and>
           (\<forall>a \<in> set (destructive_approvals d). Q a)) (update_approvals p f)"
  unfolding update_approvals_def
  by (rule keeps_rules) (use assms in \<open>auto simp: map_sql_update set_sql_update\<close>)

datatype approval_op =
    OpCreate DestructiveApproval
  | OpList gotime
  | OpDecide string string string gotime
  | OpClaim string string gotime
  | OpFinish string string string gotime

text \<open>One operation with its outcome reduced to the id it claimed, if it claimed one.\<close>

definition claimed_id :: "error + DestructiveApproval \<Rightarrow> string list" where
  "claimed_id r = (case r of Inl e \<Rightarrow> [] | Inr a \<Rightarrow> [apr_ID a])"

fun run_approval_op :: "approval_op \<Rightarrow> bool list \<Rightarrow> db \<Rightarrow> string list \<times> db" where
  "run_approval_op (OpCreate a) fs d = ([], db_state (CreateDestructiveApproval a fs d))"
| "run_approval_op (OpList now) fs d = ([], db_state (ListPendingDestructiveApprovals now fs d))"
| "run_approval_op (OpDecide i u s now) fs d =
     ([], db_state (DecideDestructiveApproval i u s now fs d))"
| "run_approval_op (OpClaim i act now) fs d =
     (let r = ClaimDestructiveApproval i act now fs d in (claimed_id (db_result r), db_state r))"
| "run_approval_op (OpFinish i s e now) fs d =
     ([], db_state (FinishDestructiveApproval i s e now fs d))"

fun run_approvals :: "(approval_op \<times> bool list) list \<Rightarrow> db \<Rightarrow> string list \<times> db" where
  "run_approvals [] d = ([], d)"
| "run_approvals ((op, fs) # ops) d =
     (let (c, d1) = run_approval_op op fs d; (cs, d2) = run_approvals ops d1 in (c @ cs, d2))"

lemma keeps_row_ops:
  assumes Q: "\<And>a b. approval_step a b \<Longrightarrow> Q a \<Longrightarrow> Q b"
  shows "db_keeps (holds_of_row Q) (CreateDestructiveApproval a)"
    and "db_keeps (holds_of_row Q) (ListPendingDestructiveApprovals now)"
    and "db_keeps (holds_of_row Q) (DecideDestructiveApproval aid user status now)"
    and "db_keeps (holds_of_row Q) (ClaimDestructiveApproval aid action now)"
    and "db_keeps (holds_of_row Q) (FinishDestructiveApproval aid status err now)"
proof -
  show "db_keeps (holds_of_row Q) (CreateDestructiveApproval a)"
    unfolding CreateDestructiveApproval_def
    by (rule keeps_rules) (auto simp: holds_of_row_def split: if_splits)
  show "db_keeps (holds_of_row Q) (ListPendingDestructiveApprovals now)"
    unfolding ListPendingDestructiveApprovals_def
    by (intro keeps_rules keeps_update_row) (elim conjE, rule Q [OF expire], assumption+)
  show "db_keeps (holds_of_row Q) (DecideDestructiveApproval aid user status now)"
    unfolding DecideDestructiveApproval_def scanDestructiveApproval_def
    by (intro keeps_rules keeps_update_row) (rule Q [OF decide], auto)
  show "db_keeps (holds_of_row Q) (ClaimDestructiveApproval aid action now)"
    unfolding ClaimDestructiveApproval_def scanDestructiveApproval_def
    by (intro keeps_rules keeps_update_row) (elim conjE, rule Q [OF claim], assumption+)
  show "db_keeps (holds_of_row Q) (FinishDestructiveApproval aid status err now)"
    unfolding FinishDestructiveApproval_def
    by (intro keeps_rules keeps_update_row) (rule Q [OF finish], auto)
qed

lemma run_approval_op_row:
  assumes "\<And>a b. approval_step a b \<Longrightarrow> Q a \<Longrightarrow> Q b" "holds_of_row Q d"
  shows "holds_of_row Q (snd (run_approval_op op fs d))"
  using assms(2) db_keepsD [OF keeps_row_ops(1)] db_keepsD [OF keeps_row_ops(2)]
    db_keepsD [OF keeps_row_ops(3)] db_keepsD [OF keeps_row_ops(4)] db_keepsD [OF keeps_row_ops(5)]
    assms(1)
  by (cases op) (simp_all add: Let_def)

definition approvals_distinct :: "db \<Rightarrow> bool" where
  "approvals_distinct d \<longleftrightarrow> distinct (map apr_ID (destructive_approvals d))"

lemma keeps_distinct_update:
  assumes "\<And>a. apr_ID (f a) = apr_ID a"
  shows "db_keeps approvals_distinct (update_approvals p f)"
  unfolding update_approvals_def approvals_distinct_def
  by (rule keeps_rules) (simp add: map_sql_update assms)

lemma keeps_distinct_ops:
  "db_keeps approvals_distinct (CreateDestructiveApproval a)"
  "db_keeps approvals_distinct (ListPendingDestructiveApprovals now)"
  "db_keeps approvals_distinct (DecideDestructiveApproval aid user status now)"
  "db_keeps approvals_distinct (ClaimDestructiveApproval aid action now)"
  "db_keeps approvals_distinct (FinishDestructiveApproval aid status err now)"
  unfolding CreateDestructiveApproval_def ListPendingDestructiveApprovals_def
    DecideDestructiveApproval_def ClaimDestructiveApproval_def FinishDestructiveApproval_def
    scanDestructiveApproval_def
  by (intro keeps_rules keeps_distinct_update; simp add: approvals_distinct_def)+

lemma run_approval_op_distinct:
  "approvals_distinct d \<Longrightarrow> approvals_distinct (snd (run_approval_op op fs d))"
  using keeps_distinct_ops [THEN db_keepsD] by (cases op) (simp_all add: Let_def)

lemma run_approvals_Cons:
  "fst (run_approvals (e # ops) d) =
     fst (run_approval_op (fst e) (snd e) d) @
     fst (run_approvals ops (snd (run_approval_op (fst e) (snd e) d)))"
  "snd (run_approvals (e # ops) d) =
     snd (run_approvals ops (snd (run_approval_op (fst e) (snd e) d)))"
  by (cases e; simp add: Let_def split: prod.splits)+

declare run_approvals.simps(2) [simp del] run_approvals_Cons [simp]

lemma run_approvals_distinct:
  "approvals_distinct d \<Longrightarrow> approvals_distinct (snd (run_approvals ops d))"
  by (induction ops arbitrary: d) (simp_all add: run_approval_op_distinct)

lemma run_approvals_row:
  assumes "\<And>a b. approval_step a b \<Longrightarrow> Q a \<Longrightarrow> Q b"
  shows "holds_of_row Q d \<Longrightarrow> holds_of_row Q (snd (run_approvals ops d))"
  by (induction ops arbitrary: d) (simp_all add: run_approval_op_row [of Q, OF assms])

text \<open>What a successful claim did, fault bits or not.\<close>

lemma ClaimDestructiveApproval_success:
  assumes dist: "approvals_distinct d"
    and run: "ClaimDestructiveApproval aid action now fs d = (Inr b, fs', d')"
  obtains a where "a \<in> set (destructive_approvals d)" "apr_ID a = aid" "apr_Action a = action"
    "apr_Status a = ''approved''" "now < apr_ExpiresAt a" "approval_step a b"
    "apr_Status b = ''executing''" "b \<in> set (destructive_approvals d')" "b = a\<lparr>apr_Status := ''executing''\<rparr>"
proof -
  let ?p = "\<lambda>a. apr_ID a = aid \<and> apr_Action a = action \<and> apr_Status a = ''approved'' \<and>
      apr_ExpiresAt a > now"
  let ?f = "\<lambda>a. a\<lparr>apr_Status := ''executing''\<rparr>"
  let ?rows = "sql_update ?p ?f (destructive_approvals d)"
  obtain x fs1 d1 where u: "update_approvals ?p ?f fs d = (Inr x, fs1, d1)"
    and k: "(if x \<noteq> 1 then db_fail (Errorf
        ''destructive approval is missing, expired, already used, or not approved'' [])
      else scanDestructiveApproval aid) fs1 d1 = (Inr b, fs', d')"
    using db_bind_success [OF run [unfolded ClaimDestructiveApproval_def]] by blast
  from k have x: "x = 1" by (auto dest: db_fail_success split: if_splits)
  note u' = db_exec_success [OF u [unfolded update_approvals_def]]
  from u' x have n: "sql_count ?p (destructive_approvals d) = 1" by simp
  from u' have d1: "destructive_approvals d1 = ?rows" by simp
  from k x have "scanDestructiveApproval aid fs1 d1 = (Inr b, fs', d')" by simp
  note q = db_query_success [OF this [unfolded scanDestructiveApproval_def]]
  then have find: "sql_find (\<lambda>a. apr_ID a = aid) (destructive_approvals d1) = Some b"
    by (simp split: option.splits)
  from q d1 have d': "destructive_approvals d' = ?rows" by simp
  from sql_find_Some [OF find] have b: "b \<in> set ?rows" "apr_ID b = aid" unfolding d1 by simp_all
  from n have "sql_count ?p (destructive_approvals d) \<noteq> 0" by simp
  then obtain a where a: "a \<in> set (destructive_approvals d)" "?p a"
    unfolding sql_count_0 by blast
  obtain a' where a': "a' \<in> set (destructive_approvals d)" "b = (if ?p a' then ?f a' else a')"
    by (rule sql_updateE [OF b(1)])
  with b(2) have "apr_ID a' = aid" by (auto split: if_splits)
  with a a'(1) dist have "a' = a"
    unfolding approvals_distinct_def by (metis distinct_key_eq)
  with a a'(2) have eq: "b = ?f a" by simp
  with a have "approval_step a b" by (auto intro: claim)
  with a b d' eq that [of a] show ?thesis by simp
qed

lemma claimed_idD: "i \<in> set (claimed_id r) \<Longrightarrow> \<exists>b. r = Inr b \<and> i = apr_ID b"
  by (auto simp: claimed_id_def split: sum.splits)

lemma claim_step_spent:
  assumes "approvals_distinct d" "aid \<in> set (fst (run_approval_op op fs d))"
  shows "\<not> holds_of_row (\<lambda>a. apr_ID a = aid \<and> approval_spent a) d"
    and "holds_of_row (\<lambda>a. apr_ID a = aid \<and> approval_spent a) (snd (run_approval_op op fs d))"
    and "fst (run_approval_op op fs d) = [aid]"
proof -
  from assms(2) obtain i act now where op: "op = OpClaim i act now"
    by (cases op) simp_all
  obtain r fs' d' where run: "ClaimDestructiveApproval i act now fs d = (r, fs', d')"
    by (cases "ClaimDestructiveApproval i act now fs d")
  from assms(2) op run obtain b where b: "r = Inr b" "apr_ID b = aid"
    by (auto dest: claimed_idD)
  from run op b have fst: "fst (run_approval_op op fs d) = [aid]"
    and snd: "snd (run_approval_op op fs d) = d'" by (simp_all add: claimed_id_def)
  from ClaimDestructiveApproval_success [OF assms(1) run [unfolded b]] obtain a where
    a: "a \<in> set (destructive_approvals d)" "apr_Status a = ''approved''" "approval_step a b"
    "b \<in> set (destructive_approvals d')" "apr_Status b = ''executing''" by metis
  from approval_step_binding [OF a(3)] b have id: "apr_ID a = aid"
    by (simp add: approval_binding_def)
  show "\<not> holds_of_row (\<lambda>a. apr_ID a = aid \<and> approval_spent a) d"
  proof
    assume "holds_of_row (\<lambda>a. apr_ID a = aid \<and> approval_spent a) d"
    then obtain c where c: "c \<in> set (destructive_approvals d)" "apr_ID c = aid" "approval_spent c"
      by (auto simp: holds_of_row_def)
    with a id assms(1) have "c = a" unfolding approvals_distinct_def by (metis distinct_key_eq)
    with c(3) a(2) show False by (simp add: approval_spent_def)
  qed
  show "holds_of_row (\<lambda>a. apr_ID a = aid \<and> approval_spent a) (snd (run_approval_op op fs d))"
    using a b by (auto simp: snd holds_of_row_def approval_spent_def)
  show "fst (run_approval_op op fs d) = [aid]" by (rule fst)
qed

lemma run_approvals_spent_unclaimed:
  "approvals_distinct d \<Longrightarrow> holds_of_row (\<lambda>a. apr_ID a = aid \<and> approval_spent a) d \<Longrightarrow>
   aid \<notin> set (fst (run_approvals ops d))"
proof (induction ops arbitrary: d)
  case (Cons e ops)
  let ?Q = "\<lambda>a. apr_ID a = aid \<and> approval_spent a"
  let ?d = "snd (run_approval_op (fst e) (snd e) d)"
  have "holds_of_row ?Q ?d"
    by (rule run_approval_op_row [OF _ Cons.prems(2)])
      (auto dest: approval_step_spent approval_step_binding simp: approval_binding_def)
  moreover have "aid \<notin> set (fst (run_approval_op (fst e) (snd e) d))"
    using claim_step_spent(1) [OF Cons.prems(1)] Cons.prems(2) by blast
  ultimately show ?case
    using Cons.IH run_approval_op_distinct [OF Cons.prems(1)] by simp
qed simp

section \<open>Properties\<close>

text \<open>
  C10. An approval authorises at most one execution: over any sequence of approval operations,
  with driver faults at any statement of any of them, no approval id is claimed twice.
\<close>

theorem approval_claimed_once:
  "approvals_distinct d \<Longrightarrow> distinct (fst (run_approvals ops d))"
proof (induction ops arbitrary: d)
  case (Cons e ops)
  let ?c = "fst (run_approval_op (fst e) (snd e) d)"
  let ?d = "snd (run_approval_op (fst e) (snd e) d)"
  note prems = Cons.prems
  have d: "approvals_distinct ?d" using prems by (rule run_approval_op_distinct)
  have "distinct ?c \<and> set ?c \<inter> set (fst (run_approvals ops ?d)) = {}"
  proof (cases ?c)
    case (Cons i cs)
    then have i: "i \<in> set ?c" by simp
    note spent = claim_step_spent [OF prems i]
    from run_approvals_spent_unclaimed [OF d spent(2)] spent(3) show ?thesis by simp
  qed simp
  with Cons.IH [OF d] show ?case by simp
qed simp

theorem approval_claimed_once_witness:
  "approvals_distinct empty_db \<and>
   fst (run_approvals
     [(OpCreate \<lparr>apr_ID = ''a1'', apr_Action = ''delete'', apr_AccountID = ''acc'', apr_ParentCID = ''0'',
         apr_Targets = [], apr_Status = '''', apr_RequestedBy = ''agent'', apr_ApprovedBy = '''',
         apr_Error = '''', apr_ExpiresAt = 900, apr_CreatedAt = 1, apr_DecidedAt = None,
         apr_ExecutedAt = None\<rparr>, []),
      (OpDecide ''a1'' ''root'' ''approved'' 10, []),
      (OpClaim ''a1'' ''delete'' 20, []), (OpClaim ''a1'' ''delete'' 21, [])] empty_db) = [''a1''] \<and>
   distinct (fst (run_approvals [(OpClaim ''a1'' ''delete'' 20, [True])] empty_db))"
proof -
  have d: "approvals_distinct empty_db" by (simp add: approvals_distinct_def empty_db_def)
  show ?thesis
    using approval_claimed_once [OF d, of "[(OpClaim ''a1'' ''delete'' 20, [True])]"] d
    by (simp add: approval_ops_defs db_bind_def db_exec_def db_stmt_def db_query_def db_fail_def
        db_ret_def empty_db_def Let_def claimed_id_def sql_count_def sql_find_def)
qed

text \<open>
  A row that reads approved was approved: among the operations \<open>S\<close> there is the decision, by the user the
  row names and at the time it names, before the request expired.
\<close>

definition approved_in :: "approval_op set \<Rightarrow> DestructiveApproval \<Rightarrow> bool" where
  "approved_in S a \<longleftrightarrow> (apr_Status a = ''approved'' \<longrightarrow>
     (\<exists>t. apr_DecidedAt a = Some t \<and> t < apr_ExpiresAt a \<and>
          OpDecide (apr_ID a) (apr_ApprovedBy a) ''approved'' t \<in> S))"

lemma CreateDestructiveApproval_success:
  assumes "CreateDestructiveApproval a0 fs d = (Inr (), fs', d1)"
  shows "holds_of_row (\<lambda>a. approval_binding a = approval_binding a0 \<and> approved_in S a) d1"
    and "apr_ID a0 \<notin> set (map apr_ID (destructive_approvals d))"
proof -
  let ?a = "a0\<lparr>apr_Status := ''pending'', apr_ApprovedBy := '''', apr_Error := '''',
       apr_DecidedAt := None, apr_ExecutedAt := None\<rparr>"
  note s = db_stmt_success [OF assms [unfolded CreateDestructiveApproval_def]]
  then show "apr_ID a0 \<notin> set (map apr_ID (destructive_approvals d))"
    by (simp split: if_splits)
  from s have "d1 = d\<lparr>destructive_approvals := destructive_approvals d @ [?a]\<rparr>"
    by (simp split: if_splits)
  then show "holds_of_row (\<lambda>a. approval_binding a = approval_binding a0 \<and> approved_in S a) d1"
    by (simp add: holds_of_row_def approval_binding_def approved_in_def)
qed

lemma run_approval_op_approved:
  assumes S: "op \<in> S" and row: "holds_of_row (\<lambda>a. approval_binding a = B \<and> approved_in S a) d"
  shows "holds_of_row (\<lambda>a. approval_binding a = B \<and> approved_in S a) (snd (run_approval_op op fs d))"
proof -
  let ?I = "holds_of_row (\<lambda>a. approval_binding a = B \<and> approved_in S a)"
  have create: "db_keeps ?I (CreateDestructiveApproval a)" for a
    unfolding CreateDestructiveApproval_def
    by (rule keeps_rules) (auto simp: holds_of_row_def split: if_splits)
  have others: "db_keeps ?I (ListPendingDestructiveApprovals now)"
    "db_keeps ?I (ClaimDestructiveApproval i act now)" "db_keeps ?I (FinishDestructiveApproval i s e now)"
    for now i act s e
    unfolding ListPendingDestructiveApprovals_def ClaimDestructiveApproval_def scanDestructiveApproval_def
      FinishDestructiveApproval_def
    by (intro keeps_rules keeps_update_row; auto simp: approved_in_def approval_binding_def)+
  have decide: "db_keeps ?I (DecideDestructiveApproval i u s now)" if "op = OpDecide i u s now" for i u s now
    unfolding DecideDestructiveApproval_def scanDestructiveApproval_def
    by (intro keeps_rules keeps_update_row) (use S that in \<open>auto simp: approved_in_def approval_binding_def\<close>)
  show ?thesis
    using row db_keepsD [OF create] db_keepsD [OF others(1)] db_keepsD [OF others(2)]
      db_keepsD [OF others(3)] db_keepsD [OF decide]
    by (cases op) (simp_all add: Let_def)
qed

lemma run_approvals_approved:
  "fst ` set ops \<subseteq> S \<Longrightarrow> holds_of_row (\<lambda>a. approval_binding a = B \<and> approved_in S a) d \<Longrightarrow>
   holds_of_row (\<lambda>a. approval_binding a = B \<and> approved_in S a) (snd (run_approvals ops d))"
  by (induction ops arbitrary: d) (simp_all add: run_approval_op_approved)

text \<open>
  C9. What a successful claim authorises is what was requested and approved: after a request is
  stored, whatever operations follow, a claim that succeeds returns exactly the requested action,
  account, parent and targets, and its action is the requested one. Among those operations is the decision of a
  browser user for this request that says approved; the claim names that user and time, the decision came
  before the request expired, and the request has not expired yet.
\<close>

theorem approval_claim_authorised:
  assumes dist: "approvals_distinct d"
    and create: "CreateDestructiveApproval a0 fs0 d = (Inr (), fs1, d1)"
    and claim: "ClaimDestructiveApproval (apr_ID a0) action now fs (snd (run_approvals ops d1)) =
                  (Inr b, fs2, d2)"
  shows "approval_binding b = approval_binding a0 \<and> action = apr_Action a0 \<and>
         now < apr_ExpiresAt a0 \<and>
         (\<exists>t. apr_DecidedAt b = Some t \<and> t < apr_ExpiresAt a0 \<and>
              OpDecide (apr_ID a0) (apr_ApprovedBy b) ''approved'' t \<in> fst ` set ops)"
proof -
  let ?Q = "\<lambda>a. approval_binding a = approval_binding a0 \<and> approved_in (fst ` set ops) a"
  let ?d = "snd (run_approvals ops d1)"
  have "approvals_distinct d1"
    using db_keepsD [OF keeps_distinct_ops(1) dist, of a0 fs0] create by simp
  then have dist': "approvals_distinct ?d" by (rule run_approvals_distinct)
  have "holds_of_row ?Q ?d"
    by (rule run_approvals_approved [OF subset_refl CreateDestructiveApproval_success(1) [OF create]])
  then obtain c where c: "c \<in> set (destructive_approvals ?d)" "?Q c" by (auto simp: holds_of_row_def)
  from ClaimDestructiveApproval_success [OF dist' claim] obtain a where
    a: "a \<in> set (destructive_approvals ?d)" "apr_ID a = apr_ID a0" "apr_Action a = action"
      "apr_Status a = ''approved''" "now < apr_ExpiresAt a" "b = a\<lparr>apr_Status := ''executing''\<rparr>" by metis
  from c(2) a(2) have "apr_ID c = apr_ID a" by (simp add: approval_binding_def)
  with a(1) c(1) dist' have "c = a" unfolding approvals_distinct_def by (metis distinct_key_eq)
  with c(2) a show ?thesis by (auto simp: approval_binding_def approved_in_def)
qed

theorem approval_claim_authorised_witness:
  "\<exists>a0 d1 b d2. apr_Targets a0 = [\<lparr>tgt_FileID = ''f'', tgt_Name = ''n'', tgt_IsFolder = False, tgt_Size = 7\<rparr>] \<and>
     CreateDestructiveApproval a0 [] empty_db = (Inr (), [], d1) \<and>
     ClaimDestructiveApproval (apr_ID a0) ''delete'' 20 []
       (snd (run_approvals [(OpDecide ''a1'' ''root'' ''approved'' 10, [])] d1)) = (Inr b, [], d2) \<and>
     approval_binding b = approval_binding a0 \<and> apr_ApprovedBy b = ''root''"
proof -
  let ?a = "\<lparr>apr_ID = ''a1'', apr_Action = ''delete'', apr_AccountID = ''acc'', apr_ParentCID = ''0'',
     apr_Targets = [\<lparr>tgt_FileID = ''f'', tgt_Name = ''n'', tgt_IsFolder = False, tgt_Size = 7\<rparr>],
     apr_Status = ''pending'', apr_RequestedBy = ''agent'', apr_ApprovedBy = '''',
     apr_Error = '''', apr_ExpiresAt = 900, apr_CreatedAt = 1, apr_DecidedAt = None,
     apr_ExecutedAt = None\<rparr>"
  let ?d1 = "empty_db\<lparr>destructive_approvals := [?a]\<rparr>"
  let ?b = "?a\<lparr>apr_Status := ''executing'', apr_ApprovedBy := ''root'', apr_DecidedAt := Some 10\<rparr>"
  let ?d2 = "empty_db\<lparr>destructive_approvals := [?b]\<rparr>"
  have d: "approvals_distinct empty_db" by (simp add: approvals_distinct_def empty_db_def)
  have c: "CreateDestructiveApproval ?a [] empty_db = (Inr (), [], ?d1)"
    by (simp add: CreateDestructiveApproval_def db_stmt_def empty_db_def)
  have k: "ClaimDestructiveApproval (apr_ID ?a) ''delete'' 20 []
       (snd (run_approvals [(OpDecide ''a1'' ''root'' ''approved'' 10, [])] ?d1)) = (Inr ?b, [], ?d2)"
    by (simp add: approval_ops_defs db_bind_def db_exec_def db_stmt_def db_query_def db_fail_def
        db_ret_def empty_db_def Let_def sql_count_def sql_find_def)
  from approval_claim_authorised [OF d c k] have "approval_binding ?b = approval_binding ?a" by simp
  with c k show ?thesis by (intro exI [of _ ?a] exI [of _ ?d1] exI [of _ ?b] exI [of _ ?d2]) simp
qed

end
