(* ===== verification/GoPath.thy ===== *)
theory GoPath
  imports GoPrelude
begin

text \<open>
  The lexical path functions of the Go standard library (\<open>path\<close> and \<open>path/filepath\<close> on Unix)
  the program calls: \<open>Clean\<close>, \<open>Join\<close>, \<open>IsAbs\<close>, \<open>Base\<close>, \<open>Rel\<close>. They are defined on the list of
  path elements between slashes; the lemmas say that a cleaned path has no empty, \<open>.\<close> or inner
  \<open>..\<close> element, and what joining and relating paths does to the element lists.
\<close>

definition slash :: char where
  "slash = CHR ''/''"

fun split_slash :: "string \<Rightarrow> string list" where
  "split_slash [] = [[]]"
| "split_slash (c # s) =
     (if c = slash then [] # split_slash s
      else (case split_slash s of [] \<Rightarrow> [[c]] | w # ws \<Rightarrow> (c # w) # ws))"

definition join_slash :: "string list \<Rightarrow> string" where
  "join_slash segs = Join_strings segs [slash]"

text \<open>The element loop of \<open>Clean\<close>; \<open>acc\<close> is the output so far, last element first.\<close>

fun clean_segs :: "bool \<Rightarrow> string list \<Rightarrow> string list \<Rightarrow> string list" where
  "clean_segs rooted acc [] = rev acc"
| "clean_segs rooted acc (s # ss) =
     (if s = '''' \<or> s = ''.'' then clean_segs rooted acc ss
      else if s = ''..'' then
        (case acc of
           [] \<Rightarrow> if rooted then clean_segs rooted [] ss else clean_segs rooted [''..''] ss
         | a # acc' \<Rightarrow> if a = ''..'' then clean_segs rooted (''..'' # acc) ss
                      else clean_segs rooted acc' ss)
      else clean_segs rooted (s # acc) ss)"

definition IsAbs :: "string \<Rightarrow> bool" where
  "IsAbs s \<longleftrightarrow> (case s of [] \<Rightarrow> False | c # _ \<Rightarrow> c = slash)"

definition path_segs :: "string \<Rightarrow> string list" where
  "path_segs s = clean_segs (IsAbs s) [] (split_slash s)"

definition Clean :: "string \<Rightarrow> string" where
  "Clean s =
     (if IsAbs s then slash # join_slash (path_segs s)
      else if path_segs s = [] then ''.'' else join_slash (path_segs s))"

fun JoinPath :: "string list \<Rightarrow> string" where
  "JoinPath [] = ''''"
| "JoinPath (e # es) = (if e = '''' then JoinPath es else Clean (join_slash (e # es)))"

definition strip_slashes :: "string \<Rightarrow> string" where
  "strip_slashes s = rev (dropWhile (\<lambda>c. c = slash) (rev s))"

definition Base :: "string \<Rightarrow> string" where
  "Base s =
     (if s = '''' then ''.''
      else let t = strip_slashes s in if t = '''' then ''/'' else last (split_slash t))"

fun rel_segs :: "string list \<Rightarrow> string list \<Rightarrow> string list option" where
  "rel_segs (b # bs) (t # ts) =
     (if b = t then rel_segs bs ts
      else if b = ''..'' then None else Some (replicate (Suc (length bs)) ''..'' @ t # ts))"
| "rel_segs [] ts = Some ts"
| "rel_segs (b # bs) [] =
     (if b = ''..'' then None else Some (replicate (Suc (length bs)) ''..''))"

definition Rel :: "string \<Rightarrow> string \<Rightarrow> error + string" where
  "Rel base targ =
     (if Clean targ = Clean base then Inr ''.''
      else if IsAbs base \<noteq> IsAbs targ
      then Inl (Errorf ''Rel: can't make %s relative to %s'' [targ, base])
      else (case rel_segs (path_segs base) (path_segs targ) of
              None \<Rightarrow> Inl (Errorf ''Rel: can't make %s relative to %s'' [targ, base])
            | Some segs \<Rightarrow> Inr (join_slash segs)))"

section \<open>Elements\<close>

text \<open>An ordinary path element: a name, neither empty nor a dot element, without a slash.\<close>

definition plain_seg :: "string \<Rightarrow> bool" where
  "plain_seg s \<longleftrightarrow> s \<noteq> '''' \<and> s \<noteq> ''.'' \<and> s \<noteq> ''..'' \<and> slash \<notin> set s"

lemma split_slash_nonempty [simp]: "split_slash s \<noteq> []"
  by (induction s) (auto split: list.splits)

lemma split_slash_no_slash: "w \<in> set (split_slash s) \<Longrightarrow> slash \<notin> set w"
proof (induction s arbitrary: w)
  case (Cons c s)
  show ?case
  proof (cases "split_slash s")
    case (Cons v vs)
    with Cons.IH Cons.prems show ?thesis by (fastforce split: if_splits)
  qed simp
qed simp

lemma split_slash_append:
  "slash \<notin> set w \<Longrightarrow> split_slash (w @ slash # s) = w # split_slash s"
  by (induction w) auto

lemma split_slash_word: "slash \<notin> set w \<Longrightarrow> split_slash w = [w]"
  by (induction w) auto

lemma split_join_slash:
  "segs \<noteq> [] \<Longrightarrow> \<forall>w \<in> set segs. slash \<notin> set w \<Longrightarrow> split_slash (join_slash segs) = segs"
  unfolding join_slash_def
  by (induction segs "[slash]" rule: Join_strings.induct)
    (auto simp: split_slash_append split_slash_word)

lemma clean_segs_append:
  "clean_segs r acc (xs @ ys) = clean_segs r (rev (clean_segs r acc xs)) ys"
  by (induction xs arbitrary: acc) (auto split: list.splits)

lemma clean_segs_plain:
  "\<forall>s \<in> set ss. plain_seg s \<Longrightarrow> clean_segs r acc ss = rev acc @ ss"
  by (induction ss arbitrary: acc) (simp_all add: plain_seg_def)

text \<open>What \<open>Clean\<close> outputs: plain elements, after leading \<open>..\<close> ones if the path is relative.\<close>

definition clean_shape :: "bool \<Rightarrow> string list \<Rightarrow> bool" where
  "clean_shape r segs \<longleftrightarrow>
     (\<exists>k ps. segs = replicate k ''..'' @ ps \<and> (\<forall>s \<in> set ps. plain_seg s) \<and> (r \<longrightarrow> k = 0))"

lemma clean_segs_shape:
  "clean_shape r (rev acc) \<Longrightarrow> \<forall>s \<in> set ss. slash \<notin> set s \<Longrightarrow> clean_shape r (clean_segs r acc ss)"
proof (induction ss arbitrary: acc)
  case (Cons s ss)
  from Cons.prems(1) obtain k ps where acc: "rev acc = replicate k ''..'' @ ps"
    and ps: "\<forall>s \<in> set ps. plain_seg s" and k: "r \<longrightarrow> k = 0"
    by (auto simp: clean_shape_def)
  from Cons.prems(2) have ss: "\<forall>s \<in> set ss. slash \<notin> set s" and s: "slash \<notin> set s" by auto
  have push: "clean_shape r (rev (s # acc))" if "s \<noteq> ''''" "s \<noteq> ''.''" "s \<noteq> ''..''"
  proof -
    have "rev (s # acc) = replicate k ''..'' @ (ps @ [s])" using acc by simp
    moreover have "\<forall>x \<in> set (ps @ [s]). plain_seg x" using ps that s by (auto simp: plain_seg_def)
    ultimately show ?thesis using k unfolding clean_shape_def by blast
  qed
  show ?case
  proof (cases "s = ''..''")
    case False
    with Cons.IH [OF push ss] Cons.IH [OF Cons.prems(1) ss] show ?thesis by simp
  next
    case True
    show ?thesis
    proof (cases ps rule: rev_cases)
      case Nil
      then have dots: "acc = replicate k ''..''" using acc by (metis append_Nil2 rev_replicate rev_rev_ident)
      have up: "clean_shape r (rev (replicate (Suc k) ''..''))" if "\<not> r"
        unfolding clean_shape_def using that
        by (intro exI [of _ "Suc k"] exI [of _ "[]"]) (simp add: replicate_append_same)
      show ?thesis
      proof (cases k)
        case 0
        with dots True Cons.IH [OF Cons.prems(1) ss] Cons.IH [OF up ss] show ?thesis by (cases r) simp_all
      next
        case (Suc k')
        with k have "\<not> r" by simp
        with Suc dots True Cons.IH [OF up ss] show ?thesis by simp
      qed
    next
      case (snoc qs q)
      then have "acc = q # rev (replicate k ''..'' @ qs)"
        using acc by (metis append.assoc rev_append rev_rev_ident append_Cons append_Nil rev.simps)
      moreover have "q \<noteq> ''..''" using ps snoc by (simp add: plain_seg_def)
      moreover have "clean_shape r (replicate k ''..'' @ qs)"
        unfolding clean_shape_def using ps snoc k by auto
      ultimately show ?thesis using True Cons.IH [OF _ ss] by simp
    qed
  qed
qed simp

lemma path_segs_shape: "clean_shape (IsAbs s) (path_segs s)"
  unfolding path_segs_def
proof (rule clean_segs_shape)
  show "clean_shape (IsAbs s) (rev [])" by (auto simp: clean_shape_def)
qed (auto dest: split_slash_no_slash)

lemma path_segs_abs_plain: "IsAbs s \<Longrightarrow> \<forall>w \<in> set (path_segs s). plain_seg w"
  using path_segs_shape [of s] by (auto simp: clean_shape_def)

lemma path_segs_rel_plain:
  assumes "\<not> IsAbs s" "path_segs s = [] \<or> hd (path_segs s) \<noteq> ''..''"
  shows "\<forall>w \<in> set (path_segs s). plain_seg w"
proof -
  from path_segs_shape [of s] obtain k ps where "path_segs s = replicate k ''..'' @ ps"
    "\<forall>w \<in> set ps. plain_seg w" by (auto simp: clean_shape_def)
  with assms(2) show ?thesis by (cases k) auto
qed

lemma plain_seg_Nil [simp]: "\<not> plain_seg ''''"
  by (simp add: plain_seg_def)

lemma IsAbs_join_slash:
  "\<forall>w \<in> set segs. plain_seg w \<Longrightarrow> \<not> IsAbs (join_slash segs)"
proof (cases segs)
  case (Cons w ws)
  moreover assume "\<forall>w \<in> set segs. plain_seg w"
  ultimately show ?thesis
    by (cases w; cases ws) (auto simp: join_slash_def IsAbs_def plain_seg_def)
qed (simp add: join_slash_def IsAbs_def)

lemma path_segs_join_plain:
  assumes "\<forall>w \<in> set segs. plain_seg w"
  shows "path_segs (join_slash segs) = segs"
proof (cases "segs = []")
  case True
  then show ?thesis by (simp add: path_segs_def join_slash_def IsAbs_def)
next
  case False
  then show ?thesis
    using assms by (simp add: path_segs_def split_join_slash clean_segs_plain plain_seg_def)
qed

lemma path_segs_abs_join:
  assumes "\<forall>w \<in> set segs. plain_seg w"
  shows "path_segs (slash # join_slash segs) = segs" and "IsAbs (slash # join_slash segs)"
proof -
  show "IsAbs (slash # join_slash segs)" by (simp add: IsAbs_def)
  show "path_segs (slash # join_slash segs) = segs"
  proof (cases "segs = []")
    case True
    then show ?thesis by (simp add: path_segs_def join_slash_def IsAbs_def)
  next
    case False
    then show ?thesis
      using assms by (simp add: path_segs_def IsAbs_def split_join_slash clean_segs_plain plain_seg_def)
  qed
qed

lemma Clean_abs_id:
  assumes "\<forall>w \<in> set segs. plain_seg w"
  shows "Clean (slash # join_slash segs) = slash # join_slash segs"
  using path_segs_abs_join [OF assms] by (simp add: Clean_def)

lemma Clean_abs_segs: "IsAbs s \<Longrightarrow> path_segs (Clean s) = path_segs s \<and> IsAbs (Clean s)"
  using path_segs_abs_join [OF path_segs_abs_plain [of s]] by (simp add: Clean_def)

text \<open>Joining a relative path of plain elements below an absolute root appends the elements.\<close>

lemma JoinPath_below:
  assumes root: "IsAbs root" and segs: "\<forall>w \<in> set segs. plain_seg w" "segs \<noteq> []"
  shows "JoinPath [root, join_slash segs] = slash # join_slash (path_segs root @ segs)"
proof -
  let ?s = "root @ slash # join_slash segs"
  have ne: "root \<noteq> ''''" using root by (auto simp: IsAbs_def)
  have j: "join_slash [root, join_slash segs] = ?s" by (simp add: join_slash_def)
  have abs: "IsAbs ?s" using root by (auto simp: IsAbs_def split: list.splits)
  have split: "split_slash (xs @ slash # ys) = split_slash xs @ split_slash ys" for xs ys
  proof (induction xs)
    case (Cons c xs)
    then show ?case by (cases "split_slash xs") auto
  qed simp
  have "path_segs ?s = clean_segs True (rev (clean_segs True [] (split_slash root))) segs"
    using abs segs by (simp add: path_segs_def split clean_segs_append split_join_slash plain_seg_def)
  also have "\<dots> = path_segs root @ segs"
    using segs root by (simp add: clean_segs_plain path_segs_def)
  finally show ?thesis using ne abs j by (simp add: Clean_def)
qed

lemma rel_segs_prefix: "rel_segs bs (bs @ ts) = Some ts"
  by (induction bs) auto

end
