(* ===== verification/CrossDriveStore.thy ===== *)
theory CrossDriveStore
  imports TaskStore GoPath
begin

text \<open>
  Checkpoints of a cross-drive import (\<open>internal/storage/cross_drive.go\<close>): one row per import
  with the owner of the active run, one row per source file, the completed spool segments and
  the uploaded parts. First the operations, statement by statement; then what a history of them
  never changes (\<open>import_kept\<close>, \<open>item_kept\<close>), the fencing of every write by the owner of the
  run, and what a retry copies from the import it resumes.
\<close>

section \<open>Operations\<close>

definition nul_join :: "string list \<Rightarrow> string" where
  "nul_join xs = Join_strings xs [CHR 0x00]"

definition crossDriveBindingEqual ::
  "'a CrossDriveImport_scheme \<Rightarrow> 'b CrossDriveImport_scheme \<Rightarrow> bool" where
  "crossDriveBindingEqual a b \<longleftrightarrow>
     \<not> (imp_QuarkAccountID a \<noteq> imp_QuarkAccountID b \<or> imp_QuarkTargetID a \<noteq> imp_QuarkTargetID b \<or>
        imp_C115AccountID a \<noteq> imp_C115AccountID b \<or>
        imp_AutofillLibraryName a \<noteq> imp_AutofillLibraryName b \<or>
        imp_AutofillLibraryID a \<noteq> imp_AutofillLibraryID b \<or>
        imp_AutofillLibraryCID a \<noteq> imp_AutofillLibraryCID b \<or>
        imp_AutofillSeriesID a \<noteq> imp_AutofillSeriesID b \<or>
        imp_AutofillTMDBID a \<noteq> imp_AutofillTMDBID b \<or>
        imp_AutofillSeriesFolder a \<noteq> imp_AutofillSeriesFolder b) \<and>
     \<not> (nul_join (imp_SelectedSourceIDs a) \<noteq> nul_join (imp_SelectedSourceIDs b) \<or>
        nul_join (imp_ExpectedEpisodes a) \<noteq> nul_join (imp_ExpectedEpisodes b))"

definition update_imports ::
  "(CrossDriveImportRow \<Rightarrow> bool) \<Rightarrow> (CrossDriveImportRow \<Rightarrow> CrossDriveImportRow) \<Rightarrow> nat dbop" where
  "update_imports p f =
     db_exec (\<lambda>d. (sql_count p (cross_drive_imports d),
                   d\<lparr>cross_drive_imports := sql_update p f (cross_drive_imports d)\<rparr>))"

text \<open>\<open>EXISTS (SELECT 1 FROM cross_drive_imports WHERE task_id = ? AND run_owner = ?)\<close>\<close>

definition owns :: "db \<Rightarrow> string \<Rightarrow> string \<Rightarrow> bool" where
  "owns d taskID owner \<longleftrightarrow>
     (\<exists>i \<in> set (cross_drive_imports d). imp_TaskID i = taskID \<and> imp_RunOwner i = Some owner)"

definition update_owned_item ::
  "nat \<Rightarrow> string \<Rightarrow> string \<Rightarrow> (CrossDriveItem \<Rightarrow> CrossDriveItem) \<Rightarrow> nat dbop" where
  "update_owned_item itemID taskID owner f =
     db_exec (\<lambda>d. let p = (\<lambda>i. item_ID i = itemID \<and> item_TaskID i = taskID \<and> owns d taskID owner) in
                (sql_count p (cross_drive_items d),
                 d\<lparr>cross_drive_items := sql_update p f (cross_drive_items d)\<rparr>))"

text \<open>
  The \<open>UNIQUE\<close> constraints of the item table and the primary key of the part table; a statement
  that would violate one of them, or a foreign key, fails as a whole.
\<close>

definition items_unique :: "CrossDriveItem list \<Rightarrow> bool" where
  "items_unique items \<longleftrightarrow>
     distinct (map (\<lambda>i. (item_TaskID i, item_SourceFileID i)) items) \<and>
     distinct (map (\<lambda>i. (item_TaskID i, item_RelativePath i)) items)"

definition parts_unique :: "CrossDriveUploadPart list \<Rightarrow> bool" where
  "parts_unique parts \<longleftrightarrow> distinct (map (\<lambda>p. (part_ItemID p, part_PartNumber p)) parts)"

definition new_import :: "CrossDriveImport \<Rightarrow> CrossDriveImportRow" where
  "new_import state = \<lparr>imp_TaskID = imp_TaskID state, imp_PriorTaskID = imp_PriorTaskID state,
     imp_Phase = imp_Phase state, imp_QuarkAccountID = imp_QuarkAccountID state,
     imp_SavedRootIDs = [], imp_QuarkTargetID = imp_QuarkTargetID state,
     imp_C115AccountID = imp_C115AccountID state,
     imp_SelectedSourceIDs = imp_SelectedSourceIDs state,
     imp_AutofillLibraryName = imp_AutofillLibraryName state,
     imp_AutofillLibraryID = imp_AutofillLibraryID state,
     imp_AutofillLibraryCID = imp_AutofillLibraryCID state,
     imp_AutofillSeriesID = imp_AutofillSeriesID state,
     imp_AutofillTMDBID = imp_AutofillTMDBID state,
     imp_AutofillSeriesFolder = imp_AutofillSeriesFolder state,
     imp_ExpectedEpisodes = imp_ExpectedEpisodes state,
     imp_DestinationCID = imp_DestinationCID state, imp_DestinationPath = '''',
     imp_TotalFiles = 0, imp_CompletedFiles = 0, imp_TotalBytes = 0, imp_CompletedBytes = 0,
     imp_CurrentFile = '''', imp_CancelRequested = False, imp_Error = '''',
     imp_CreatedAt = imp_CreatedAt state, imp_UpdatedAt = imp_UpdatedAt state,
     imp_RunOwner = None\<rparr>"

definition insert_import :: "CrossDriveImport \<Rightarrow> unit dbop" where
  "insert_import state =
     db_stmt (\<lambda>d. if imp_TaskID state \<notin> set (map task_ID (async_tasks d)) \<or>
                     imp_TaskID state \<in> set (map imp_TaskID (cross_drive_imports d))
                  then Inl ErrConstraint
                  else Inr ((), d\<lparr>cross_drive_imports :=
                         cross_drive_imports d @ [new_import state]\<rparr>))"

text \<open>The \<open>SELECT\<close> list of the statement that copies the items of the import a retry resumes.\<close>

definition copy_item :: "string \<Rightarrow> gotime \<Rightarrow> nat \<Rightarrow> CrossDriveItem \<Rightarrow> CrossDriveItem" where
  "copy_item taskID now newID i =
     i\<lparr>item_ID := newID, item_TaskID := taskID,
       item_State := (if item_State i = ''verified'' then ''verified''
                      else if item_State i = ''downloaded'' \<and> item_DownloadedBytes i = item_Size i
                      then ''downloaded'' else ''discovered''),
       item_DownloadedBytes :=
         (if item_DownloadedBytes i = item_Size i then item_DownloadedBytes i else 0),
       item_UploadID := (if item_State i = ''uploading'' then item_UploadID i else ''''),
       item_Error := '''', item_UpdatedAt := now\<rparr>"

fun copy_rows :: "string \<Rightarrow> gotime \<Rightarrow> nat \<Rightarrow> CrossDriveItem list \<Rightarrow> CrossDriveItem list" where
  "copy_rows taskID now seq [] = []"
| "copy_rows taskID now seq (i # is) =
     copy_item taskID now (Suc seq) i # copy_rows taskID now (Suc seq) is"

definition copy_items :: "string \<Rightarrow> string \<Rightarrow> gotime \<Rightarrow> unit dbop" where
  "copy_items taskID prior now =
     db_stmt (\<lambda>d.
       let rows = filter (\<lambda>i. item_TaskID i = prior) (cross_drive_items d);
           items = cross_drive_items d @ copy_rows taskID now (cross_drive_items_seq d) rows
       in if items_unique items \<and>
             (rows \<noteq> [] \<longrightarrow> taskID \<in> set (map imp_TaskID (cross_drive_imports d)))
          then Inr ((), d\<lparr>cross_drive_items := items,
                  cross_drive_items_seq := cross_drive_items_seq d + length rows\<rparr>)
          else Inl ErrConstraint)"

definition copied_parts ::
  "string \<Rightarrow> string \<Rightarrow> CrossDriveItem list \<Rightarrow> CrossDriveUploadPart list \<Rightarrow> CrossDriveUploadPart list" where
  "copied_parts taskID prior items parts =
     [p\<lparr>part_ItemID := item_ID replacement\<rparr>.
        p \<leftarrow> parts,
        original \<leftarrow> filter (\<lambda>o'. item_ID o' = part_ItemID p \<and> item_TaskID o' = prior) items,
        replacement \<leftarrow> filter (\<lambda>r. item_TaskID r = taskID \<and>
             item_SourceFileID r = item_SourceFileID original \<and> item_UploadID r \<noteq> '''') items]"

definition copy_parts :: "string \<Rightarrow> string \<Rightarrow> unit dbop" where
  "copy_parts taskID prior =
     db_stmt (\<lambda>d.
       let parts = cross_drive_upload_parts d @
             copied_parts taskID prior (cross_drive_items d) (cross_drive_upload_parts d)
       in if parts_unique parts then Inr ((), d\<lparr>cross_drive_upload_parts := parts\<rparr>)
          else Inl ErrConstraint)"

definition CreateCrossDriveImport :: "CrossDriveImport \<Rightarrow> gotime \<Rightarrow> unit dbop" where
  "CreateCrossDriveImport state0 now =
     (if imp_TaskID state0 = '''' \<or> imp_QuarkAccountID state0 = '''' \<or>
         imp_QuarkTargetID state0 = '''' \<or> imp_C115AccountID state0 = ''''
      then db_fail (Errorf ''cross-drive import accounts, target, and task are required'' [])
      else
        let state = state0\<lparr>
              imp_CreatedAt := (if imp_CreatedAt state0 = 0 then now else imp_CreatedAt state0),
              imp_UpdatedAt := now,
              imp_Phase := (if imp_Phase state0 = '''' then ''saving_share'' else imp_Phase state0)\<rparr>
        in db_bind (db_query (\<lambda>d. Inr (sql_find (\<lambda>i. imp_TaskID i = imp_TaskID state)
                                        (cross_drive_imports d)))) (\<lambda>existing.
             case existing of
               Some e \<Rightarrow> if \<not> crossDriveBindingEqual e state
                         then db_fail (Errorf
                           ''cross-drive import %s destination/source binding changed''
                           [imp_TaskID state])
                         else db_ret ()
             | None \<Rightarrow> db_tx (db_bind (insert_import state) (\<lambda>_.
                 if imp_PriorTaskID state \<noteq> ''''
                 then db_bind (copy_items (imp_TaskID state) (imp_PriorTaskID state) now) (\<lambda>_.
                      db_bind (copy_parts (imp_TaskID state) (imp_PriorTaskID state)) (\<lambda>_.
                      db_ret (Commit ())))
                 else db_ret (Commit ())))))"

definition GetCrossDriveImport :: "string \<Rightarrow> CrossDriveImport dbop" where
  "GetCrossDriveImport taskID =
     db_query (\<lambda>d. case sql_find (\<lambda>i. imp_TaskID i = taskID) (cross_drive_imports d) of
                     None \<Rightarrow> Inl ErrNoRows | Some i \<Rightarrow> Inr (CrossDriveImport.truncate i))"

definition ListCrossDriveItems :: "string \<Rightarrow> CrossDriveItem list dbop" where
  "ListCrossDriveItems taskID =
     db_query (\<lambda>d. Inr (sort_key item_RelativePath
                 (filter (\<lambda>i. item_TaskID i = taskID) (cross_drive_items d))))"

text \<open>The staging folder \<open>/emby/_\<close> followed by three Chinese characters, as UTF-8 bytes.\<close>

definition staging_path :: string where
  "staging_path = ''/emby/_'' @ [CHR 0xE5, CHR 0xBE, CHR 0x85, CHR 0xE6, CHR 0x95, CHR 0xB4,
                                  CHR 0xE7, CHR 0x90, CHR 0x86]"

definition GetCrossDriveImportDetail :: "string \<Rightarrow> CrossDriveImportDetail dbop" where
  "GetCrossDriveImportDetail taskID =
     db_bind (GetCrossDriveImport taskID) (\<lambda>state.
       let state' =
         (if imp_AutofillLibraryName state \<noteq> '''' \<and> imp_AutofillSeriesFolder state \<noteq> ''''
          then state\<lparr>imp_DestinationPath :=
                 JoinPath [''/'', imp_AutofillLibraryName state, imp_AutofillSeriesFolder state]\<rparr>
          else if imp_DestinationCID state \<noteq> '''' then state\<lparr>imp_DestinationPath := staging_path\<rparr>
          else state)
       in db_bind (ListCrossDriveItems taskID) (\<lambda>items.
          db_ret \<lparr>det_Import = state', det_Items = items\<rparr>))"

definition lost_ownership :: "string \<Rightarrow> error" where
  "lost_ownership taskID = Errorf ''cross-drive import %s lost run ownership'' [taskID]"

definition item_lost :: "nat \<Rightarrow> error" where
  "item_lost itemID = Errorf ''cross-drive item %d lost run ownership'' [show_nat itemID]"

definition ClaimCrossDriveImport :: "string \<Rightarrow> string \<Rightarrow> gotime \<Rightarrow> unit dbop" where
  "ClaimCrossDriveImport taskID owner now =
     db_bind (update_imports
        (\<lambda>i. imp_TaskID i = taskID \<and> (imp_RunOwner i = None \<or> imp_RunOwner i = Some ''''))
        (\<lambda>i. i\<lparr>imp_RunOwner := Some owner, imp_UpdatedAt := now\<rparr>)) (\<lambda>changed.
     if changed \<noteq> 1
     then db_fail (Errorf ''cross-drive import %s is owned by another run'' [taskID])
     else db_ret ())"

definition ReleaseCrossDriveImport :: "string \<Rightarrow> string \<Rightarrow> gotime \<Rightarrow> unit dbop" where
  "ReleaseCrossDriveImport taskID owner now =
     db_bind (update_imports (\<lambda>i. imp_TaskID i = taskID \<and> imp_RunOwner i = Some owner)
        (\<lambda>i. i\<lparr>imp_RunOwner := None, imp_UpdatedAt := now\<rparr>)) (\<lambda>_. db_ret ())"

definition check_destination :: "string \<Rightarrow> string \<Rightarrow> unit dbop" where
  "check_destination taskID destination =
     (if destination \<noteq> ''''
      then db_bind (db_query (\<lambda>d. Inr (sql_find (\<lambda>i. imp_TaskID i = taskID)
                                        (cross_drive_imports d)))) (\<lambda>persisted.
           case persisted of
             None \<Rightarrow> db_ret ()
           | Some i \<Rightarrow> if imp_DestinationCID i \<noteq> '''' \<and> imp_DestinationCID i \<noteq> destination
               then db_fail (Errorf ''cross-drive import %s destination CID changed'' [taskID])
               else db_ret ())
      else db_ret ())"

definition UpdateCrossDriveImport ::
  "string \<Rightarrow> string \<Rightarrow> string \<Rightarrow> string \<Rightarrow> string \<Rightarrow> string \<Rightarrow> gotime \<Rightarrow> unit dbop" where
  "UpdateCrossDriveImport taskID owner phase destination current errText now =
     db_bind (check_destination taskID destination) (\<lambda>_.
     db_bind (update_imports (\<lambda>i. imp_TaskID i = taskID \<and> imp_RunOwner i = Some owner)
        (\<lambda>i. i\<lparr>imp_Phase := phase,
                 imp_DestinationCID := (if destination \<noteq> '''' then destination
                                        else imp_DestinationCID i),
                 imp_CurrentFile := current, imp_Error := errText, imp_UpdatedAt := now\<rparr>)) (\<lambda>changed.
     if changed \<noteq> 1 then db_fail (lost_ownership taskID) else db_ret ()))"

definition SaveCrossDriveRoots :: "string \<Rightarrow> string \<Rightarrow> string list \<Rightarrow> gotime \<Rightarrow> unit dbop" where
  "SaveCrossDriveRoots taskID owner roots now =
     db_bind (update_imports (\<lambda>i. imp_TaskID i = taskID \<and> imp_RunOwner i = Some owner)
        (\<lambda>i. i\<lparr>imp_SavedRootIDs := roots, imp_Phase := ''discovering'',
                 imp_UpdatedAt := now\<rparr>)) (\<lambda>changed.
     if changed \<noteq> 1 then db_fail (lost_ownership taskID) else db_ret ())"

definition RequestCrossDriveCancellation :: "string \<Rightarrow> gotime \<Rightarrow> unit dbop" where
  "RequestCrossDriveCancellation taskID now =
     db_bind (update_imports (\<lambda>i. imp_TaskID i = taskID)
        (\<lambda>i. i\<lparr>imp_CancelRequested := True, imp_UpdatedAt := now\<rparr>)) (\<lambda>_. db_ret ())"

definition source_identity_changed :: "CrossDriveItem \<Rightarrow> CrossDriveItem \<Rightarrow> bool" where
  "source_identity_changed old item \<longleftrightarrow>
     (item_SourceRevision old \<noteq> '''' \<and> item_SourceRevision item \<noteq> '''' \<and>
      item_SourceRevision old \<noteq> item_SourceRevision item) \<or>
     item_RelativePath old \<noteq> item_RelativePath item \<or> item_Name old \<noteq> item_Name item \<or>
     item_Size old \<noteq> item_Size item \<or>
     (item_SHA1 old \<noteq> '''' \<and> item_SHA1 item \<noteq> '''' \<and> \<not> EqualFold (item_SHA1 old) (item_SHA1 item))"

definition discovered_row :: "nat \<Rightarrow> string \<Rightarrow> gotime \<Rightarrow> CrossDriveItem \<Rightarrow> CrossDriveItem" where
  "discovered_row newID taskID now item =
     \<lparr>item_ID = newID, item_TaskID = taskID, item_SourceFileID = item_SourceFileID item,
      item_SourceRevision = item_SourceRevision item, item_RelativePath = item_RelativePath item,
      item_Name = item_Name item, item_Size = item_Size item, item_SHA1 = item_SHA1 item,
      item_PreSHA1 = '''', item_State = ''discovered'', item_SpoolPath = '''',
      item_DownloadedBytes = 0, item_DestinationParent = '''', item_DestinationID = '''',
      item_UploadID = '''', item_UploadBucket = '''', item_UploadObject = '''', item_Error = '''',
      item_UpdatedAt = now\<rparr>"

text \<open>\<open>INSERT ... SELECT ... WHERE EXISTS ... ON CONFLICT(task_id, source_file_id) DO UPDATE\<close>\<close>

definition upsert_item :: "string \<Rightarrow> string \<Rightarrow> CrossDriveItem \<Rightarrow> gotime \<Rightarrow> nat dbop" where
  "upsert_item taskID owner item now =
     db_stmt (\<lambda>d.
       let same = (\<lambda>i. item_TaskID i = taskID \<and> item_SourceFileID i = item_SourceFileID item) in
       if \<not> owns d taskID owner then Inr (0, d)
       else if \<exists>i \<in> set (cross_drive_items d). same i
       then Inr (1, d\<lparr>cross_drive_items := sql_update same
              (\<lambda>i. i\<lparr>item_UpdatedAt := now,
                       item_SHA1 := (if item_SHA1 item \<noteq> '''' then item_SHA1 item
                                     else item_SHA1 i)\<rparr>) (cross_drive_items d)\<rparr>)
       else let newID = Suc (cross_drive_items_seq d);
                items = cross_drive_items d @ [discovered_row newID taskID now item]
            in if items_unique items
               then Inr (1, d\<lparr>cross_drive_items := items, cross_drive_items_seq := newID\<rparr>)
               else Inl ErrConstraint)"

definition UpsertCrossDriveItem :: "string \<Rightarrow> string \<Rightarrow> CrossDriveItem \<Rightarrow> gotime \<Rightarrow> unit dbop" where
  "UpsertCrossDriveItem taskID owner item now =
     (if TrimSpace (item_SourceFileID item) = ''''
      then db_fail (Errorf ''cross-drive source file ID is required'' [])
      else db_bind (db_query (\<lambda>d. Inr (sql_find (\<lambda>i. item_TaskID i = taskID \<and>
                       item_SourceFileID i = item_SourceFileID item) (cross_drive_items d)))) (\<lambda>old.
        db_bind (case old of
            None \<Rightarrow> db_ret ()
          | Some o' \<Rightarrow> if source_identity_changed o' item
              then db_fail (Errorf ''cross-drive source identity changed for %s''
                     [item_SourceFileID item])
              else db_ret ()) (\<lambda>_.
        db_bind (upsert_item taskID owner item now) (\<lambda>changed.
        if changed = 0 then db_fail (lost_ownership taskID) else db_ret ()))))"

definition item_count :: "(CrossDriveItem \<Rightarrow> bool) \<Rightarrow> db \<Rightarrow> nat" where
  "item_count p d = length (filter p (cross_drive_items d))"

definition item_bytes :: "(CrossDriveItem \<Rightarrow> bool) \<Rightarrow> db \<Rightarrow> int64" where
  "item_bytes p d = sum_list (map item_Size (filter p (cross_drive_items d)))"

definition FinalizeCrossDriveDiscovery :: "string \<Rightarrow> string \<Rightarrow> gotime \<Rightarrow> unit dbop" where
  "FinalizeCrossDriveDiscovery taskID owner now =
     db_bind (db_exec (\<lambda>d.
        let p = (\<lambda>i. imp_TaskID i = taskID \<and> imp_RunOwner i = Some owner);
            mine = (\<lambda>i. item_TaskID i = taskID) in
        (sql_count p (cross_drive_imports d),
         d\<lparr>cross_drive_imports := sql_update p (\<lambda>i. i\<lparr>imp_TotalFiles := item_count mine d,
              imp_TotalBytes := item_bytes mine d, imp_UpdatedAt := now\<rparr>)
            (cross_drive_imports d)\<rparr>))) (\<lambda>changed.
     if changed \<noteq> 1 then db_fail (lost_ownership taskID) else db_ret ())"

definition UpdateCrossDriveItemDownload ::
  "nat \<Rightarrow> string \<Rightarrow> string \<Rightarrow> string \<Rightarrow> string \<Rightarrow> int64 \<Rightarrow> gotime \<Rightarrow> unit dbop" where
  "UpdateCrossDriveItemDownload itemID taskID owner state spool downloaded now =
     db_bind (update_owned_item itemID taskID owner
        (\<lambda>i. i\<lparr>item_State := state, item_SpoolPath := spool, item_DownloadedBytes := downloaded,
                 item_Error := '''', item_UpdatedAt := now\<rparr>)) (\<lambda>changed.
     if changed \<noteq> 1 then db_fail (item_lost itemID) else db_ret ())"

definition UpdateCrossDriveItemHashes ::
  "nat \<Rightarrow> string \<Rightarrow> string \<Rightarrow> string \<Rightarrow> string \<Rightarrow> gotime \<Rightarrow> unit dbop" where
  "UpdateCrossDriveItemHashes itemID taskID owner sha pre now =
     db_bind (update_owned_item itemID taskID owner
        (\<lambda>i. i\<lparr>item_SHA1 := sha, item_PreSHA1 := pre, item_State := ''downloaded'',
                 item_DownloadedBytes := item_Size i, item_UpdatedAt := now\<rparr>)) (\<lambda>_. db_ret ())"

definition delete_parts :: "nat \<Rightarrow> unit dbop" where
  "delete_parts itemID =
     db_exec (\<lambda>d. ((), d\<lparr>cross_drive_upload_parts :=
        sql_delete (\<lambda>p. part_ItemID p = itemID) (cross_drive_upload_parts d)\<rparr>))"

definition ResetCrossDriveUpload :: "nat \<Rightarrow> string \<Rightarrow> string \<Rightarrow> gotime \<Rightarrow> unit dbop" where
  "ResetCrossDriveUpload itemID taskID owner now =
     db_tx (db_bind (delete_parts itemID) (\<lambda>_.
       db_bind (update_owned_item itemID taskID owner
         (\<lambda>i. i\<lparr>item_State := ''downloaded'', item_UploadID := '''', item_UploadBucket := '''',
                  item_UploadObject := '''', item_UpdatedAt := now\<rparr>)) (\<lambda>_. db_ret (Commit ()))))"

definition SaveCrossDriveUploadSession ::
  "nat \<Rightarrow> string \<Rightarrow> string \<Rightarrow> string \<Rightarrow> string \<Rightarrow> string \<Rightarrow> gotime \<Rightarrow> unit dbop" where
  "SaveCrossDriveUploadSession itemID taskID owner uploadID bucket object now =
     db_bind (update_owned_item itemID taskID owner
        (\<lambda>i. i\<lparr>item_State := ''uploading'', item_UploadID := uploadID, item_UploadBucket := bucket,
                 item_UploadObject := object, item_UpdatedAt := now\<rparr>)) (\<lambda>_. db_ret ())"

definition SaveCrossDriveUploadPart :: "nat \<Rightarrow> int \<Rightarrow> string \<Rightarrow> int64 \<Rightarrow> unit dbop" where
  "SaveCrossDriveUploadPart itemID partNumber etag size' =
     db_stmt (\<lambda>d. let same = (\<lambda>p. part_ItemID p = itemID \<and> part_PartNumber p = partNumber) in
       if \<exists>p \<in> set (cross_drive_upload_parts d). same p
       then Inr ((), d\<lparr>cross_drive_upload_parts := sql_update same
              (\<lambda>p. p\<lparr>part_ETag := etag, part_Size := size'\<rparr>) (cross_drive_upload_parts d)\<rparr>)
       else if itemID \<notin> set (map item_ID (cross_drive_items d)) then Inl ErrConstraint
       else Inr ((), d\<lparr>cross_drive_upload_parts := cross_drive_upload_parts d @
              [\<lparr>part_ItemID = itemID, part_PartNumber = partNumber, part_ETag = etag,
                part_Size = size'\<rparr>]\<rparr>))"

definition ListCrossDriveDownloadSegments :: "string \<Rightarrow> (int \<times> int64) list dbop" where
  "ListCrossDriveDownloadSegments spool =
     db_query (\<lambda>d. Inr (map (\<lambda>s. (seg_Segment s, seg_Bytes s))
        (filter (\<lambda>s. seg_Spool s = spool) (cross_drive_download_segments_v2 d))))"

definition FindReusableCrossDriveSpool :: "string \<Rightarrow> int64 \<Rightarrow> string dbop" where
  "FindReusableCrossDriveSpool sourceFileID size' =
     db_query (\<lambda>d. Inr (case rev (sort_key (\<lambda>i. (item_UpdatedAt i, item_ID i))
          (filter (\<lambda>i. item_SourceFileID i = sourceFileID \<and> item_Size i = size' \<and>
                       item_SpoolPath i \<noteq> '''') (cross_drive_items d))) of
        [] \<Rightarrow> '''' | i # _ \<Rightarrow> item_SpoolPath i))"

definition SaveCrossDriveDownloadSegment ::
  "string \<Rightarrow> string \<Rightarrow> string \<Rightarrow> int \<Rightarrow> int64 \<Rightarrow> unit dbop" where
  "SaveCrossDriveDownloadSegment spool taskID owner segment size' =
     db_bind (db_exec (\<lambda>d.
        let same = (\<lambda>s. seg_Spool s = spool \<and> seg_Segment s = segment);
            segs = cross_drive_download_segments_v2 d in
        if \<not> owns d taskID owner then (0 :: nat, d)
        else if \<exists>s \<in> set segs. same s
        then (1, d\<lparr>cross_drive_download_segments_v2 :=
                     sql_update same (\<lambda>s. s\<lparr>seg_Bytes := size'\<rparr>) segs\<rparr>)
        else (1, d\<lparr>cross_drive_download_segments_v2 := segs @
                     [\<lparr>seg_Spool = spool, seg_Segment = segment, seg_Bytes = size'\<rparr>]\<rparr>))) (\<lambda>changed.
     if changed = 0 then db_fail (lost_ownership taskID) else db_ret ())"

definition MarkCrossDriveItemVerified ::
  "nat \<Rightarrow> string \<Rightarrow> string \<Rightarrow> string \<Rightarrow> string \<Rightarrow> gotime \<Rightarrow> unit dbop" where
  "MarkCrossDriveItemVerified itemID taskID owner parent destination now =
     db_tx (db_bind (update_owned_item itemID taskID owner
         (\<lambda>i. i\<lparr>item_State := ''verified'', item_DestinationParent := parent,
                  item_DestinationID := destination, item_Error := '''',
                  item_UpdatedAt := now\<rparr>)) (\<lambda>changed.
       if changed \<noteq> 1 then db_fail (item_lost itemID)
       else db_bind (db_exec (\<lambda>d.
         let p = (\<lambda>i. imp_TaskID i = taskID \<and> imp_RunOwner i = Some owner);
             done' = (\<lambda>i. item_TaskID i = taskID \<and> item_State i = ''verified'') in
         ((), d\<lparr>cross_drive_imports := sql_update p
               (\<lambda>i. i\<lparr>imp_CompletedFiles := item_count done' d,
                        imp_CompletedBytes := item_bytes done' d, imp_UpdatedAt := now\<rparr>)
               (cross_drive_imports d)\<rparr>))) (\<lambda>_. db_ret (Commit ()))))"

definition MarkCrossDriveItemFailed ::
  "nat \<Rightarrow> string \<Rightarrow> string \<Rightarrow> string \<Rightarrow> gotime \<Rightarrow> unit dbop" where
  "MarkCrossDriveItemFailed itemID taskID owner message now =
     db_bind (update_owned_item itemID taskID owner
        (\<lambda>i. i\<lparr>item_State := ''failed'', item_Error := message, item_UpdatedAt := now\<rparr>))
       (\<lambda>_. db_ret ())"

lemmas xd_prims = update_imports_def update_owned_item_def

section \<open>Histories\<close>

datatype xd_op =
    XCreate CrossDriveImport gotime
  | XClaim string string gotime
  | XRelease string string gotime
  | XUpdate string string string string string string gotime
  | XRoots string string "string list" gotime
  | XCancel string gotime
  | XUpsert string string CrossDriveItem gotime
  | XFinalize string string gotime
  | XDownload nat string string string string int64 gotime
  | XHashes nat string string string string gotime
  | XReset nat string string gotime
  | XSession nat string string string string string gotime
  | XPart nat int string int64
  | XSegment string string string int int64
  | XVerified nat string string string string gotime
  | XFailed nat string string string gotime
  | XRecover gotime
  | XMigrateItems

fun xd_prog :: "xd_op \<Rightarrow> unit dbop" where
  "xd_prog (XCreate s now) = CreateCrossDriveImport s now"
| "xd_prog (XClaim t ow now) = ClaimCrossDriveImport t ow now"
| "xd_prog (XRelease t ow now) = ReleaseCrossDriveImport t ow now"
| "xd_prog (XUpdate t ow ph dest cur e now) = UpdateCrossDriveImport t ow ph dest cur e now"
| "xd_prog (XRoots t ow roots now) = SaveCrossDriveRoots t ow roots now"
| "xd_prog (XCancel t now) = RequestCrossDriveCancellation t now"
| "xd_prog (XUpsert t ow item now) = UpsertCrossDriveItem t ow item now"
| "xd_prog (XFinalize t ow now) = FinalizeCrossDriveDiscovery t ow now"
| "xd_prog (XDownload i t ow st sp n now) = UpdateCrossDriveItemDownload i t ow st sp n now"
| "xd_prog (XHashes i t ow sha pre now) = UpdateCrossDriveItemHashes i t ow sha pre now"
| "xd_prog (XReset i t ow now) = ResetCrossDriveUpload i t ow now"
| "xd_prog (XSession i t ow u b ob now) = SaveCrossDriveUploadSession i t ow u b ob now"
| "xd_prog (XPart i n etag sz) = SaveCrossDriveUploadPart i n etag sz"
| "xd_prog (XSegment sp t ow seg sz) = SaveCrossDriveDownloadSegment sp t ow seg sz"
| "xd_prog (XVerified i t ow par dest now) = MarkCrossDriveItemVerified i t ow par dest now"
| "xd_prog (XFailed i t ow msg now) = MarkCrossDriveItemFailed i t ow msg now"
| "xd_prog (XRecover now) = RecoverInterruptedAsyncTasks now"
| "xd_prog XMigrateItems = migrate_item_errors"

definition xd_state :: "xd_op \<Rightarrow> bool list \<Rightarrow> db \<Rightarrow> db" where
  "xd_state op fs d = db_state (xd_prog op fs d)"

fun xd_run :: "(xd_op \<times> bool list) list \<Rightarrow> db \<Rightarrow> db" where
  "xd_run [] d = d"
| "xd_run (e # ops) d = xd_run ops (xd_state (fst e) (snd e) d)"

text \<open>A fact that every operation keeps from every database is kept by a history.\<close>

lemma xd_run_induct:
  assumes "\<And>op fs d. P d \<Longrightarrow> P (xd_state op fs d)" and "P d"
  shows "P (xd_run ops d)"
  using assms(2) by (induction ops arbitrary: d) (simp_all add: assms(1))

lemma xd_state_wp: "db_wp (xd_prog op) (\<lambda>_. P) (\<lambda>_. P) d \<Longrightarrow> P (xd_state op fs d)"
  unfolding xd_state_def by (rule db_wp_state)

section \<open>What no operation changes\<close>

text \<open>
  The binding of an import (its accounts, selected sources, destination and autofill identity)
  is fixed when the row is created, a destination folder once recorded stays, and a requested
  cancellation is never withdrawn.
\<close>

definition import_kept :: "CrossDriveImportRow \<Rightarrow> CrossDriveImportRow \<Rightarrow> bool" where
  "import_kept i j \<longleftrightarrow>
     imp_TaskID j = imp_TaskID i \<and> imp_PriorTaskID j = imp_PriorTaskID i \<and>
     imp_QuarkAccountID j = imp_QuarkAccountID i \<and> imp_QuarkTargetID j = imp_QuarkTargetID i \<and>
     imp_C115AccountID j = imp_C115AccountID i \<and>
     imp_SelectedSourceIDs j = imp_SelectedSourceIDs i \<and>
     imp_AutofillLibraryName j = imp_AutofillLibraryName i \<and>
     imp_AutofillLibraryID j = imp_AutofillLibraryID i \<and>
     imp_AutofillLibraryCID j = imp_AutofillLibraryCID i \<and>
     imp_AutofillSeriesID j = imp_AutofillSeriesID i \<and>
     imp_AutofillTMDBID j = imp_AutofillTMDBID i \<and>
     imp_AutofillSeriesFolder j = imp_AutofillSeriesFolder i \<and>
     imp_ExpectedEpisodes j = imp_ExpectedEpisodes i \<and> imp_CreatedAt j = imp_CreatedAt i \<and>
     (imp_DestinationCID i \<noteq> '''' \<longrightarrow> imp_DestinationCID j = imp_DestinationCID i) \<and>
     (imp_CancelRequested i \<longrightarrow> imp_CancelRequested j)"

text \<open>An item keeps the identity of the source object it was discovered as.\<close>

definition item_kept :: "CrossDriveItem \<Rightarrow> CrossDriveItem \<Rightarrow> bool" where
  "item_kept i j \<longleftrightarrow>
     item_ID j = item_ID i \<and> item_TaskID j = item_TaskID i \<and>
     item_SourceFileID j = item_SourceFileID i \<and> item_SourceRevision j = item_SourceRevision i \<and>
     item_RelativePath j = item_RelativePath i \<and> item_Name j = item_Name i \<and>
     item_Size j = item_Size i"

text \<open>Rows are changed in place or appended, never removed.\<close>

definition rows_evolve :: "('r \<Rightarrow> 'r \<Rightarrow> bool) \<Rightarrow> 'r list \<Rightarrow> 'r list \<Rightarrow> bool" where
  "rows_evolve K xs ys \<longleftrightarrow> (\<exists>us vs. ys = us @ vs \<and> list_all2 K xs us)"

lemma rows_evolve_refl: "(\<And>x. K x x) \<Longrightarrow> rows_evolve K xs xs"
  unfolding rows_evolve_def by (intro exI [of _ xs] exI [of _ "[]"]) (simp add: list_all2_refl)

lemma rows_evolve_append: "(\<And>x. K x x) \<Longrightarrow> rows_evolve K xs (xs @ zs)"
  unfolding rows_evolve_def by (intro exI [of _ xs] exI [of _ zs]) (simp add: list_all2_refl)

lemma rows_evolve_update:
  assumes "\<And>x. K x x" "\<And>x. x \<in> set xs \<Longrightarrow> p x \<Longrightarrow> K x (f x)"
  shows "rows_evolve K xs (sql_update p f xs)"
proof -
  have "list_all2 K xs (sql_update p f xs)"
    using assms by (auto simp: list_all2_conv_all_nth sql_update_def)
  then show ?thesis unfolding rows_evolve_def by (intro exI [of _ "sql_update p f xs"] exI [of _ "[]"]) simp
qed

lemma rows_evolve_trans:
  assumes "\<And>x y z. K x y \<Longrightarrow> K y z \<Longrightarrow> K x z" "rows_evolve K xs ys" "rows_evolve K ys zs"
  shows "rows_evolve K xs zs"
proof -
  from assms obtain us vs ws rest where ys: "ys = us @ vs" "list_all2 K xs us"
    and zs: "zs = ws @ rest" "list_all2 K ys ws" by (auto simp: rows_evolve_def)
  from zs(2) ys(1) obtain w1 w2 where w: "ws = w1 @ w2" "list_all2 K us w1"
    by (auto simp: list_all2_append1)
  have "list_all2 K xs w1"
    using list_all2_trans [of K K K, OF _ ys(2) w(2)] assms(1) by blast
  with zs(1) w(1) show ?thesis by (auto simp: rows_evolve_def)
qed

lemma list_all2_in_set1: "list_all2 K xs us \<Longrightarrow> x \<in> set xs \<Longrightarrow> \<exists>y \<in> set us. K x y"
  by (induction rule: list_all2_induct) auto

lemma rows_evolve_mem:
  "rows_evolve K xs ys \<Longrightarrow> x \<in> set xs \<Longrightarrow> \<exists>y \<in> set ys. K x y"
  unfolding rows_evolve_def by (metis UnCI list_all2_in_set1 set_append)

lemma import_kept_refl: "import_kept i i"
  by (simp add: import_kept_def)

lemma import_kept_trans: "import_kept i j \<Longrightarrow> import_kept j k \<Longrightarrow> import_kept i k"
  unfolding import_kept_def by (elim conjE) simp

lemma item_kept_refl: "item_kept i i"
  by (simp add: item_kept_def)

lemma item_kept_trans: "item_kept i j \<Longrightarrow> item_kept j k \<Longrightarrow> item_kept i k"
  by (simp add: item_kept_def)

definition xd_evolves :: "db \<Rightarrow> db \<Rightarrow> bool" where
  "xd_evolves d d' \<longleftrightarrow>
     rows_evolve import_kept (cross_drive_imports d) (cross_drive_imports d') \<and>
     rows_evolve item_kept (cross_drive_items d) (cross_drive_items d')"

lemma xd_evolves_refl: "xd_evolves d d"
  by (simp add: xd_evolves_def rows_evolve_refl import_kept_refl item_kept_refl)

lemma xd_evolves_trans: "xd_evolves d e \<Longrightarrow> xd_evolves e g \<Longrightarrow> xd_evolves d g"
  unfolding xd_evolves_def
  by (auto intro: rows_evolve_trans [where K = import_kept, OF import_kept_trans]
      rows_evolve_trans [where K = item_kept, OF item_kept_trans])

section \<open>The checkpoint tables are consistent\<close>

definition xd_tables_inv :: "db \<Rightarrow> bool" where
  "xd_tables_inv d \<longleftrightarrow>
     distinct (map imp_TaskID (cross_drive_imports d)) \<and>
     items_unique (cross_drive_items d) \<and> parts_unique (cross_drive_upload_parts d) \<and>
     distinct (map item_ID (cross_drive_items d)) \<and>
     (\<forall>i \<in> set (cross_drive_items d). item_ID i \<le> cross_drive_items_seq d \<and>
        item_TaskID i \<in> set (map imp_TaskID (cross_drive_imports d))) \<and>
     (\<forall>p \<in> set (cross_drive_upload_parts d).
        part_ItemID p \<in> set (map item_ID (cross_drive_items d))) \<and>
     distinct (map (\<lambda>s. (seg_Spool s, seg_Segment s)) (cross_drive_download_segments_v2 d))"

lemmas xd_in_place =
  xd_evolves_def rows_evolve_refl rows_evolve_update rows_evolve_append import_kept_refl item_kept_refl

text \<open>What every operation but one obeys whatever the database: rows evolve, consistency stays.\<close>

definition xd_good :: "db \<Rightarrow> db \<Rightarrow> bool" where
  "xd_good d d' \<longleftrightarrow> xd_evolves d d' \<and> (xd_tables_inv d \<longrightarrow> xd_tables_inv d')"

interpretation xd: evolution xd_good
  by unfold_locales (auto simp: xd_good_def xd_evolves_refl intro: xd_evolves_trans)

lemma items_keys_update:
  assumes "\<And>i. item_kept i (f i)"
  shows "map item_ID (sql_update p f items) = map item_ID items"
    and "items_unique (sql_update p f items) = items_unique items"
    and "map item_TaskID (sql_update p f items) = map item_TaskID items"
  using assms by (simp_all add: map_sql_update items_unique_def item_kept_def)

lemma xd_good_imports:
  assumes "\<And>i. i \<in> set (cross_drive_imports d) \<Longrightarrow> p i \<Longrightarrow> import_kept i (f i)" "\<And>i. imp_TaskID (f i) = imp_TaskID i"
    and "cross_drive_imports d' = sql_update p f (cross_drive_imports d)"
    and "cross_drive_items d' = cross_drive_items d" "cross_drive_items_seq d' = cross_drive_items_seq d"
      "cross_drive_upload_parts d' = cross_drive_upload_parts d"
      "cross_drive_download_segments_v2 d' = cross_drive_download_segments_v2 d"
  shows "xd_good d d'"
proof -
  have "map imp_TaskID (cross_drive_imports d') = map imp_TaskID (cross_drive_imports d)"
    unfolding assms(3) by (rule map_sql_update) (rule assms(2))
  with assms show ?thesis by (simp add: xd_good_def xd_in_place xd_tables_inv_def)
qed

lemma xd_good_items:
  assumes f: "\<And>i. item_kept i (f i)"
    and "cross_drive_imports d' = cross_drive_imports d"
    and items: "cross_drive_items d' = sql_update p f (cross_drive_items d)"
    and "cross_drive_items_seq d' = cross_drive_items_seq d"
      "cross_drive_upload_parts d' = cross_drive_upload_parts d"
      "cross_drive_download_segments_v2 d' = cross_drive_download_segments_v2 d"
  shows "xd_good d d'"
proof -
  have "\<exists>j \<in> set (cross_drive_items d). item_ID i = item_ID j \<and> item_TaskID i = item_TaskID j"
    if i: "i \<in> set (cross_drive_items d')" for i
    by (rule sql_updateE [OF i [unfolded items]]) (use f in \<open>auto simp: item_kept_def\<close>)
  with assms items_keys_update [OF f] show ?thesis
    by (fastforce simp: xd_good_def xd_in_place xd_tables_inv_def)
qed

lemma import_row_eq:
  "xd_tables_inv d \<Longrightarrow> i \<in> set (cross_drive_imports d) \<Longrightarrow> j \<in> set (cross_drive_imports d) \<Longrightarrow>
   imp_TaskID i = imp_TaskID j \<Longrightarrow> i = j"
  unfolding xd_tables_inv_def by (auto dest: distinct_key_eq)

section \<open>Every operation is such an evolution\<close>

lemma update_imports_good:
  "(\<And>i. import_kept i (f i)) \<Longrightarrow> db_within xd_good (update_imports p f)"
  unfolding update_imports_def
  by (rule xd.within_exec, rule xd_good_imports) (simp_all add: import_kept_def)

lemma update_item_good:
  assumes "\<And>i. item_kept i (f i)"
  shows "db_within xd_good (update_owned_item i t ow f)"
  unfolding update_owned_item_def Let_def
  by (rule xd.within_exec, rule xd_good_items [OF assms]) simp_all

lemmas import_ops_defs =
  ClaimCrossDriveImport_def ReleaseCrossDriveImport_def SaveCrossDriveRoots_def
  RequestCrossDriveCancellation_def

lemmas item_ops_defs =
  UpdateCrossDriveItemDownload_def UpdateCrossDriveItemHashes_def SaveCrossDriveUploadSession_def
  MarkCrossDriveItemFailed_def

lemma import_ops_good:
  "db_within xd_good (ClaimCrossDriveImport t ow now)"
  "db_within xd_good (ReleaseCrossDriveImport t ow now)"
  "db_within xd_good (SaveCrossDriveRoots t ow roots now)"
  "db_within xd_good (RequestCrossDriveCancellation t now)"
  unfolding import_ops_defs
  by (intro within_rules update_imports_good; simp add: import_kept_def)+

lemma item_ops_good:
  "db_within xd_good (UpdateCrossDriveItemDownload i t ow st sp n now)"
  "db_within xd_good (UpdateCrossDriveItemHashes i t ow sha pre now)"
  "db_within xd_good (SaveCrossDriveUploadSession i t ow u b ob now)"
  "db_within xd_good (MarkCrossDriveItemFailed i t ow msg now)"
  unfolding item_ops_defs
  by (intro within_rules update_item_good; simp add: item_kept_def)+

lemma counter_ops_good:
  "db_within xd_good (FinalizeCrossDriveDiscovery t ow now)"
  "db_within xd_good (MarkCrossDriveItemVerified i t ow par dest now)"
  unfolding FinalizeCrossDriveDiscovery_def MarkCrossDriveItemVerified_def Let_def
  by (intro within_rules update_item_good; (rule xd_good_imports)?;
      simp add: item_kept_def import_kept_def)+

lemma insert_import_good: "db_within xd_good (insert_import s)"
  unfolding insert_import_def
  by (rule xd.within_stmt)
    (auto simp: xd_good_def xd_in_place xd_tables_inv_def new_import_def split: if_splits)

lemma copy_rows_props:
  "set (map item_ID (copy_rows t now seq rows)) = {Suc seq..seq + length rows}"
  "distinct (map item_ID (copy_rows t now seq rows))"
  "i \<in> set (copy_rows t now seq rows) \<Longrightarrow> item_TaskID i = t"
  "length (copy_rows t now seq rows) = length rows"
proof (induction rows arbitrary: seq)
  case (Cons r rows)
  {
    case 1
    show ?case using Cons.IH(1) [of "Suc seq"] by (auto simp: copy_item_def)
  next
    case 2
    have "Suc seq \<notin> set (map item_ID (copy_rows t now (Suc seq) rows))" using Cons.IH(1) by simp
    then show ?case using Cons.IH(2) [of "Suc seq"] by (simp add: copy_item_def)
  next
    case 3
    then show ?case using Cons.IH(3) [of "Suc seq"] by (auto simp: copy_item_def)
  next
    case 4
    show ?case using Cons.IH(4) by simp
  }
qed auto

lemma copy_items_good: "db_within xd_good (copy_items t prior now)"
  unfolding copy_items_def
proof (rule xd.within_stmt)
  fix d d' :: db and x
  let ?rows = "filter (\<lambda>i. item_TaskID i = prior) (cross_drive_items d)"
  let ?new = "copy_rows t now (cross_drive_items_seq d) ?rows"
  assume "(let rows = ?rows; items = cross_drive_items d @ copy_rows t now (cross_drive_items_seq d) rows
      in if items_unique items \<and> (rows \<noteq> [] \<longrightarrow> t \<in> set (map imp_TaskID (cross_drive_imports d)))
         then Inr ((), d\<lparr>cross_drive_items := items, cross_drive_items_seq := cross_drive_items_seq d + length rows\<rparr>)
         else Inl ErrConstraint) = Inr (x, d')"
  then have u: "items_unique (cross_drive_items d @ ?new)"
    and fk: "?rows \<noteq> [] \<longrightarrow> t \<in> set (map imp_TaskID (cross_drive_imports d))"
    and d': "cross_drive_items d' = cross_drive_items d @ ?new"
      "cross_drive_items_seq d' = cross_drive_items_seq d + length ?rows"
      "cross_drive_imports d' = cross_drive_imports d"
      "cross_drive_upload_parts d' = cross_drive_upload_parts d"
      "cross_drive_download_segments_v2 d' = cross_drive_download_segments_v2 d"
    by (auto simp: Let_def split: if_splits)
  note props = copy_rows_props(1,2) [of t now "cross_drive_items_seq d" ?rows]
  have new: "item_ID i \<le> cross_drive_items_seq d + length ?rows \<and> cross_drive_items_seq d < item_ID i \<and>
      item_TaskID i = t \<and> t \<in> set (map imp_TaskID (cross_drive_imports d))" if "i \<in> set ?new" for i
  proof -
    from that have "item_ID i \<in> set (map item_ID ?new)" by simp
    moreover have "?rows \<noteq> []" using that by (cases ?rows) auto
    ultimately show ?thesis using props(1) copy_rows_props(3) [OF that] fk by simp
  qed
  have "xd_tables_inv d'" if inv: "xd_tables_inv d"
  proof -
    have "set (map item_ID (cross_drive_items d)) \<inter> set (map item_ID ?new) = {}"
      using inv unfolding props(1) by (auto simp: xd_tables_inv_def)
    with inv props(2) have ids: "distinct (map item_ID (cross_drive_items d @ ?new))"
      by (simp add: xd_tables_inv_def)
    have "item_ID i \<le> cross_drive_items_seq d' \<and> item_TaskID i \<in> set (map imp_TaskID (cross_drive_imports d'))"
      if "i \<in> set (cross_drive_items d')" for i
      using that inv new [of i] unfolding d' xd_tables_inv_def by auto
    moreover have "part_ItemID p \<in> set (map item_ID (cross_drive_items d'))"
      if "p \<in> set (cross_drive_upload_parts d')" for p
      using that inv unfolding d' xd_tables_inv_def by auto
    ultimately show ?thesis
      using inv u ids unfolding xd_tables_inv_def d' by blast
  qed
  then show "xd_good d d'" by (simp add: xd_good_def xd_in_place d')
qed

lemma set_copied_parts:
  "p \<in> set (copied_parts t prior items parts) \<Longrightarrow> part_ItemID p \<in> item_ID ` set items"
  by (auto simp: copied_parts_def)

lemma copy_parts_good: "db_within xd_good (copy_parts t prior)"
  unfolding copy_parts_def
  by (rule xd.within_stmt)
    (auto simp: xd_good_def xd_in_place xd_tables_inv_def Let_def dest: set_copied_parts split: if_splits)

lemma CreateCrossDriveImport_good: "db_within xd_good (CreateCrossDriveImport s now)"
  unfolding CreateCrossDriveImport_def
  by (intro within_rules insert_import_good copy_items_good copy_parts_good)

lemma upsert_item_good: "db_within xd_good (upsert_item t ow item now)"
  unfolding upsert_item_def
proof (rule xd.within_stmt)
  fix d d' :: db and x :: nat
  let ?same = "\<lambda>i. item_TaskID i = t \<and> item_SourceFileID i = item_SourceFileID item"
  let ?f = "\<lambda>i. i\<lparr>item_UpdatedAt := now, item_SHA1 := (if item_SHA1 item \<noteq> '''' then item_SHA1 item
                       else item_SHA1 i)\<rparr>"
  let ?id = "Suc (cross_drive_items_seq d)"
  let ?row = "discovered_row ?id t now item"
  assume run: "(let same = ?same in
       if \<not> owns d t ow then Inr (0, d)
       else if \<exists>i \<in> set (cross_drive_items d). same i
       then Inr (1, d\<lparr>cross_drive_items := sql_update same ?f (cross_drive_items d)\<rparr>)
       else let newID = ?id; items = cross_drive_items d @ [discovered_row newID t now item]
            in if items_unique items
               then Inr (1, d\<lparr>cross_drive_items := items, cross_drive_items_seq := newID\<rparr>)
               else Inl ErrConstraint) = Inr (x, d')"
  have upd: "xd_good d (d\<lparr>cross_drive_items := sql_update ?same ?f (cross_drive_items d)\<rparr>)"
    by (rule xd_good_items) (simp_all add: item_kept_def)
  have ins: "xd_good d (d\<lparr>cross_drive_items := cross_drive_items d @ [?row], cross_drive_items_seq := ?id\<rparr>)"
    if "owns d t ow" "items_unique (cross_drive_items d @ [?row])"
  proof -
    have "item_ID ?row = ?id" "item_TaskID ?row = t" by (simp_all add: discovered_row_def)
    moreover have "t \<in> set (map imp_TaskID (cross_drive_imports d))" using that(1) by (auto simp: owns_def)
    ultimately show ?thesis
      using that(2) by (fastforce simp: xd_good_def xd_in_place xd_tables_inv_def)
  qed
  from run consider "d' = d" | "d' = d\<lparr>cross_drive_items := sql_update ?same ?f (cross_drive_items d)\<rparr>"
    | "d' = d\<lparr>cross_drive_items := cross_drive_items d @ [?row], cross_drive_items_seq := ?id\<rparr>"
      "owns d t ow" "items_unique (cross_drive_items d @ [?row])"
    by (simp add: Let_def split: if_splits)
  then show "xd_good d d'" by cases (simp_all add: xd.evo_refl upd ins)
qed

lemma part_ops_good:
  "db_within xd_good (delete_parts i)"
  "db_within xd_good (SaveCrossDriveUploadPart i n etag sz)"
proof -
  show "db_within xd_good (delete_parts i)"
    unfolding delete_parts_def
    by (rule xd.within_exec) (auto simp: xd_good_def xd_in_place xd_tables_inv_def sql_delete_def
        parts_unique_def intro: distinct_map_filter)
  show "db_within xd_good (SaveCrossDriveUploadPart i n etag sz)"
    unfolding SaveCrossDriveUploadPart_def
  proof (rule xd.within_stmt)
    fix d d' :: db and x
    let ?same = "\<lambda>p. part_ItemID p = i \<and> part_PartNumber p = n"
    let ?parts = "cross_drive_upload_parts d"
    let ?new = "\<lparr>part_ItemID = i, part_PartNumber = n, part_ETag = etag, part_Size = sz\<rparr>"
    let ?upd = "sql_update ?same (\<lambda>p. p\<lparr>part_ETag := etag, part_Size := sz\<rparr>) ?parts"
    assume "(let same = ?same in if \<exists>p \<in> set ?parts. same p
        then Inr ((), d\<lparr>cross_drive_upload_parts := sql_update same (\<lambda>p. p\<lparr>part_ETag := etag, part_Size := sz\<rparr>) ?parts\<rparr>)
        else if i \<notin> set (map item_ID (cross_drive_items d)) then Inl ErrConstraint
        else Inr ((), d\<lparr>cross_drive_upload_parts := ?parts @ [?new]\<rparr>)) = Inr (x, d')"
    then consider "d' = d\<lparr>cross_drive_upload_parts := ?upd\<rparr>"
      | "d' = d\<lparr>cross_drive_upload_parts := ?parts @ [?new]\<rparr>" "\<forall>p \<in> set ?parts. \<not> ?same p"
        "i \<in> set (map item_ID (cross_drive_items d))"
      by (auto simp: Let_def split: if_splits)
    then show "xd_good d d'"
    proof cases
      case 1
      have "map (\<lambda>p. (part_ItemID p, part_PartNumber p)) ?upd = map (\<lambda>p. (part_ItemID p, part_PartNumber p)) ?parts"
        by (rule map_sql_update) simp
      moreover have "part_ItemID ` set ?upd = part_ItemID ` set ?parts"
        by (simp only: set_map [symmetric]) (rule arg_cong [where f = set], rule map_sql_update, simp)
      moreover have "(\<forall>q \<in> set ps. part_ItemID q \<in> X) \<longleftrightarrow> part_ItemID ` set ps \<subseteq> X"
        for ps :: "CrossDriveUploadPart list" and X by auto
      ultimately show ?thesis
        unfolding 1 by (simp add: xd_good_def xd_in_place xd_tables_inv_def parts_unique_def)
    next
      case 2
      then have "parts_unique ?parts \<Longrightarrow> parts_unique (?parts @ [?new])" by (auto simp: parts_unique_def)
      with 2 show ?thesis unfolding 2(1) by (auto simp: xd_good_def xd_in_place xd_tables_inv_def)
    qed
  qed
qed

lemma SaveCrossDriveDownloadSegment_good:
  "db_within xd_good (SaveCrossDriveDownloadSegment sp t ow seg sz)"
  unfolding SaveCrossDriveDownloadSegment_def
  by (intro within_rules) (auto simp: xd_good_def xd_in_place xd_tables_inv_def Let_def
      map_sql_update)

lemma RecoverInterruptedAsyncTasks_good: "db_within xd_good (RecoverInterruptedAsyncTasks now)"
proof -
  have other: "xd_good d d'" if "cross_drive_imports d' = cross_drive_imports d"
    "cross_drive_items d' = cross_drive_items d" "cross_drive_items_seq d' = cross_drive_items_seq d"
    "cross_drive_upload_parts d' = cross_drive_upload_parts d"
    "cross_drive_download_segments_v2 d' = cross_drive_download_segments_v2 d" for d d'
    using that by (simp add: xd_good_def xd_in_place xd_tables_inv_def)
  show ?thesis
    unfolding RecoverInterruptedAsyncTasks_def update_tasks_def update_runs_def
    by (intro within_rules; (rule other; simp; fail | rule xd_good_imports; simp add: import_kept_def))
qed

lemma migrate_item_errors_good: "db_within xd_good migrate_item_errors"
  unfolding migrate_item_errors_def
  by (rule xd.within_exec, rule xd_good_items [where f = redact_item]) (simp_all add: redact_item_def item_kept_def)

lemma xd_prog_within:
  "\<not> (\<exists>t ow ph dest cur e now. op = XUpdate t ow ph dest cur e now) \<Longrightarrow> db_within xd_good (xd_prog op)"
  by (cases op) (auto simp: CreateCrossDriveImport_good import_ops_good item_ops_good
      counter_ops_good part_ops_good SaveCrossDriveDownloadSegment_good RecoverInterruptedAsyncTasks_good
      migrate_item_errors_good
      UpsertCrossDriveItem_def ResetCrossDriveUpload_def
      intro!: within_rules upsert_item_good part_ops_good update_item_good simp: item_kept_def)

text \<open>The remaining operation reads the destination before it writes it.\<close>

lemma check_destination_wp:
  assumes inv: "xd_tables_inv d"
  shows "db_wp (check_destination t dest)
    (\<lambda>_ d'. d' = d \<and> (\<forall>i \<in> set (cross_drive_imports d). imp_TaskID i = t \<longrightarrow> dest = '''' \<or>
          imp_DestinationCID i = '''' \<or> imp_DestinationCID i = dest)) (\<lambda>_ d'. d' = d) d"
  unfolding check_destination_def
proof (intro wp_rules)
  fix x y assume "Inr (sql_find (\<lambda>i. imp_TaskID i = t) (cross_drive_imports d)) = Inr x" "x = Some y"
    and ok: "\<not> (imp_DestinationCID y \<noteq> '''' \<and> imp_DestinationCID y \<noteq> dest)"
  then have "y \<in> set (cross_drive_imports d)" "imp_TaskID y = t" by (auto dest: sql_find_Some)
  with ok import_row_eq [OF inv] show "d = d \<and> (\<forall>i \<in> set (cross_drive_imports d).
      imp_TaskID i = t \<longrightarrow> dest = '''' \<or> imp_DestinationCID i = '''' \<or> imp_DestinationCID i = dest)"
    by metis
qed (auto simp: sql_find_None)

lemma UpdateCrossDriveImport_good:
  assumes inv: "xd_tables_inv d"
  shows "db_wp (UpdateCrossDriveImport t ow ph dest cur e now) (\<lambda>_. xd_good d) (\<lambda>_. xd_good d) d"
  unfolding UpdateCrossDriveImport_def
proof (rule db_wp_bind, rule db_wp_conseq [OF check_destination_wp [OF inv]])
  fix d' assume d': "d' = d \<and> (\<forall>i \<in> set (cross_drive_imports d). imp_TaskID i = t \<longrightarrow> dest = '''' \<or>
          imp_DestinationCID i = '''' \<or> imp_DestinationCID i = dest)"
  show "db_wp (db_bind (update_imports (\<lambda>i. imp_TaskID i = t \<and> imp_RunOwner i = Some ow)
        (\<lambda>i. i\<lparr>imp_Phase := ph, imp_DestinationCID := (if dest \<noteq> '''' then dest else imp_DestinationCID i),
          imp_CurrentFile := cur, imp_Error := e, imp_UpdatedAt := now\<rparr>))
        (\<lambda>changed. if changed \<noteq> 1 then db_fail (lost_ownership t) else db_ret ()))
      (\<lambda>_. xd_good d) (\<lambda>_. xd_good d) d'"
    unfolding update_imports_def
    by (intro wp_rules; simp add: xd.evo_refl d')
      (rule xd_good_imports; use d' in \<open>auto simp: import_kept_def\<close>)+
qed (simp add: xd.evo_refl)

lemma xd_state_good: "xd_tables_inv d \<Longrightarrow> xd_good d (xd_state op fs d)"
proof (cases "\<exists>t ow ph dest cur e now. op = XUpdate t ow ph dest cur e now")
  case True
  then obtain t ow ph dest cur e now where op: "op = XUpdate t ow ph dest cur e now" by blast
  assume "xd_tables_inv d"
  then show ?thesis unfolding op
    using xd_state_wp [where P = "xd_good d"] UpdateCrossDriveImport_good by simp
next
  case False
  then show ?thesis unfolding xd_state_def by (rule db_withinD [OF xd_prog_within])
qed

lemma xd_run_good: "xd_tables_inv d \<Longrightarrow> xd_tables_inv (xd_run ops d) \<and> xd_evolves d (xd_run ops d)"
proof (induction ops arbitrary: d)
  case (Cons e ops)
  let ?d = "xd_state (fst e) (snd e) d"
  have good: "xd_good d ?d" using xd_state_good [OF Cons.prems] .
  with Cons.prems have "xd_tables_inv ?d" by (simp add: xd_good_def)
  with Cons.IH [of ?d] good show ?case by (auto simp: xd_good_def intro: xd_evolves_trans)
qed (simp add: xd_evolves_refl)

section \<open>Fencing\<close>

text \<open>The run (import and owner) on whose behalf an operation writes.\<close>

fun fenced_by :: "xd_op \<Rightarrow> (string \<times> string) option" where
  "fenced_by (XRelease t ow now) = Some (t, ow)"
| "fenced_by (XUpdate t ow ph dest cur e now) = Some (t, ow)"
| "fenced_by (XRoots t ow roots now) = Some (t, ow)"
| "fenced_by (XUpsert t ow item now) = Some (t, ow)"
| "fenced_by (XFinalize t ow now) = Some (t, ow)"
| "fenced_by (XDownload i t ow st sp n now) = Some (t, ow)"
| "fenced_by (XHashes i t ow sha pre now) = Some (t, ow)"
| "fenced_by (XReset i t ow now) = Some (t, ow)"
| "fenced_by (XSession i t ow u b ob now) = Some (t, ow)"
| "fenced_by (XSegment sp t ow seg sz) = Some (t, ow)"
| "fenced_by (XVerified i t ow par dest now) = Some (t, ow)"
| "fenced_by (XFailed i t ow msg now) = Some (t, ow)"
| "fenced_by _ = None"

text \<open>The operations that report a lost ownership to their caller.\<close>

fun reports_loss :: "xd_op \<Rightarrow> bool" where
  "reports_loss (XUpdate t ow ph dest cur e now) = True"
| "reports_loss (XRoots t ow roots now) = True"
| "reports_loss (XUpsert t ow item now) = True"
| "reports_loss (XFinalize t ow now) = True"
| "reports_loss (XDownload i t ow st sp n now) = True"
| "reports_loss (XSegment sp t ow seg sz) = True"
| "reports_loss (XVerified i t ow par dest now) = True"
| "reports_loss _ = False"

lemma owns_parts: "owns (d\<lparr>cross_drive_upload_parts := ps\<rparr>) t ow = owns d t ow"
  by (simp add: owns_def)

lemma not_owned:
  assumes "\<not> owns d t ow"
  shows "sql_count (\<lambda>i. imp_TaskID i = t \<and> imp_RunOwner i = Some ow) (cross_drive_imports d) = 0"
    and "sql_update (\<lambda>i. imp_TaskID i = t \<and> imp_RunOwner i = Some ow) f (cross_drive_imports d) =
           cross_drive_imports d"
proof -
  have none: "\<forall>i \<in> set (cross_drive_imports d). \<not> (imp_TaskID i = t \<and> imp_RunOwner i = Some ow)"
    using assms unfolding owns_def by blast
  then show "sql_count (\<lambda>i. imp_TaskID i = t \<and> imp_RunOwner i = Some ow) (cross_drive_imports d) = 0"
    unfolding sql_count_0 .
  from none show "sql_update (\<lambda>i. imp_TaskID i = t \<and> imp_RunOwner i = Some ow) f (cross_drive_imports d) =
           cross_drive_imports d" by (rule sql_update_none)
qed

lemma sql_false [simp]: "sql_count (\<lambda>_. False) rows = 0" "sql_update (\<lambda>_. False) f rows = rows"
  by (simp_all add: sql_count_0 sql_update_none)

lemmas xd_ops_defs =
  import_ops_defs item_ops_defs UpdateCrossDriveImport_def check_destination_def
  UpsertCrossDriveItem_def upsert_item_def FinalizeCrossDriveDiscovery_def ResetCrossDriveUpload_def
  delete_parts_def SaveCrossDriveDownloadSegment_def MarkCrossDriveItemVerified_def

text \<open>What a run that is not (or no longer) the owner leaves behind, and what it is told.\<close>

definition fenced_outcome :: "xd_op \<Rightarrow> db \<Rightarrow> error + unit \<Rightarrow> db \<Rightarrow> bool" where
  "fenced_outcome op d r d' \<longleftrightarrow>
     (if reports_loss op then (\<exists>e. r = Inl e) else r = Inr () \<or> r = Inl ErrDriver) \<and>
     (case op of
        XReset i t ow now \<Rightarrow>
          (let deleted = d\<lparr>cross_drive_upload_parts :=
                 sql_delete (\<lambda>p. part_ItemID p = i) (cross_drive_upload_parts d)\<rparr>
           in d' = deleted \<or> r = Inl ErrDriver \<and> d' = d)
      | _ \<Rightarrow> d' = d)"

lemma fenced_ops:
  assumes n: "\<not> owns d t ow"
  shows "db_wp (UpdateCrossDriveImport t ow ph dest cur e now) (\<lambda>_ _. False) (\<lambda>_ d'. d' = d) d"
    and "db_wp (SaveCrossDriveRoots t ow roots now) (\<lambda>_ _. False) (\<lambda>_ d'. d' = d) d"
    and "db_wp (UpsertCrossDriveItem t ow item now) (\<lambda>_ _. False) (\<lambda>_ d'. d' = d) d"
    and "db_wp (FinalizeCrossDriveDiscovery t ow now) (\<lambda>_ _. False) (\<lambda>_ d'. d' = d) d"
    and "db_wp (UpdateCrossDriveItemDownload i t ow st sp k now) (\<lambda>_ _. False) (\<lambda>_ d'. d' = d) d"
    and "db_wp (SaveCrossDriveDownloadSegment sp t ow seg sz) (\<lambda>_ _. False) (\<lambda>_ d'. d' = d) d"
    and "db_wp (MarkCrossDriveItemVerified i t ow par dest now) (\<lambda>_ _. False) (\<lambda>_ d'. d' = d) d"
    and "db_wp (ReleaseCrossDriveImport t ow now) (\<lambda>_ d'. d' = d) (\<lambda>e d'. e = ErrDriver \<and> d' = d) d"
    and "db_wp (UpdateCrossDriveItemHashes i t ow sha pre now) (\<lambda>_ d'. d' = d) (\<lambda>e d'. e = ErrDriver \<and> d' = d) d"
    and "db_wp (SaveCrossDriveUploadSession i t ow u b ob now) (\<lambda>_ d'. d' = d) (\<lambda>e d'. e = ErrDriver \<and> d' = d) d"
    and "db_wp (MarkCrossDriveItemFailed i t ow msg now) (\<lambda>_ d'. d' = d) (\<lambda>e d'. e = ErrDriver \<and> d' = d) d"
  unfolding xd_ops_defs xd_prims Let_def
  by (intro wp_rules; simp add: not_owned [OF n] n)+

lemma fenced_wp:
  assumes f: "fenced_by op = Some (t, ow)" and n: "\<not> owns d t ow"
  shows "db_wp (xd_prog op) (\<lambda>x. fenced_outcome op d (Inr x)) (\<lambda>e. fenced_outcome op d (Inl e)) d"
proof (cases op)
  case (XReset i t' ow' now)
  with f n show ?thesis
    by (simp add: ResetCrossDriveUpload_def delete_parts_def update_owned_item_def)
      (intro wp_rules; simp add: fenced_outcome_def owns_parts Let_def)
qed (use f in \<open>simp_all add: fenced_outcome_def db_wp_conseq [OF fenced_ops(1) [OF n]]
    db_wp_conseq [OF fenced_ops(2) [OF n]] db_wp_conseq [OF fenced_ops(3) [OF n]]
    db_wp_conseq [OF fenced_ops(4) [OF n]] db_wp_conseq [OF fenced_ops(5) [OF n]]
    db_wp_conseq [OF fenced_ops(6) [OF n]] db_wp_conseq [OF fenced_ops(7) [OF n]]
    db_wp_conseq [OF fenced_ops(8) [OF n]] db_wp_conseq [OF fenced_ops(9) [OF n]]
    db_wp_conseq [OF fenced_ops(10) [OF n]] db_wp_conseq [OF fenced_ops(11) [OF n]]\<close>)

section \<open>Exclusive runs\<close>

definition keeps_owner :: "string \<Rightarrow> string \<Rightarrow> db \<Rightarrow> db \<Rightarrow> bool" where
  "keeps_owner t ow d d' \<longleftrightarrow> (owns d t ow \<longrightarrow> owns d' t ow)"

interpretation own: evolution "keeps_owner t ow" for t ow
  by unfold_locales (simp_all add: keeps_owner_def)

lemma keeps_owner_imports:
  assumes "\<And>i. imp_TaskID (f i) = imp_TaskID i"
    and "\<And>i. p i \<Longrightarrow> imp_TaskID i = t \<Longrightarrow> imp_RunOwner i = Some ow \<Longrightarrow> imp_RunOwner (f i) = Some ow"
    and "cross_drive_imports d' = sql_update p f (cross_drive_imports d)"
  shows "keeps_owner t ow d d'"
  unfolding keeps_owner_def owns_def
proof
  assume "\<exists>i \<in> set (cross_drive_imports d). imp_TaskID i = t \<and> imp_RunOwner i = Some ow"
  then obtain i where "i \<in> set (cross_drive_imports d)" "imp_TaskID i = t" "imp_RunOwner i = Some ow"
    by blast
  then show "\<exists>i \<in> set (cross_drive_imports d'). imp_TaskID i = t \<and> imp_RunOwner i = Some ow"
    using assms by (intro bexI [of _ "if p i then f i else i"]) (auto simp: sql_update_def)
qed

lemma keeps_owner_same:
  "set (cross_drive_imports d) \<subseteq> set (cross_drive_imports d') \<Longrightarrow> keeps_owner t ow d d'"
  by (auto simp: keeps_owner_def owns_def)

lemma update_imports_owner:
  assumes "\<And>i. imp_TaskID (f i) = imp_TaskID i"
    and "\<And>i. p i \<Longrightarrow> imp_TaskID i = t \<Longrightarrow> imp_RunOwner i = Some ow \<Longrightarrow> imp_RunOwner (f i) = Some ow"
  shows "db_within (keeps_owner t ow) (update_imports p f)"
  unfolding update_imports_def
  by (rule own.within_exec, rule keeps_owner_imports [OF assms]) simp_all

lemma update_item_owner: "db_within (keeps_owner t ow) (update_owned_item i t' ow' f)"
  unfolding update_owned_item_def Let_def by (rule own.within_exec, rule keeps_owner_same) simp

lemma xd_prog_owner:
  assumes "\<not> (\<exists>now. op = XRelease t ow now)" "\<not> (\<exists>now. op = XRecover now)" "ow \<noteq> ''''"
  shows "db_within (keeps_owner t ow) (xd_prog op)"
proof -
  have stmts: "db_within (keeps_owner t ow) (insert_import s)" "db_within (keeps_owner t ow) (copy_items a b c)"
    "db_within (keeps_owner t ow) (copy_parts a b)" "db_within (keeps_owner t ow) (upsert_item a b item c)"
    "db_within (keeps_owner t ow) (delete_parts j)" "db_within (keeps_owner t ow) (SaveCrossDriveUploadPart j n a k)"
    for s a b c j n k item
    unfolding insert_import_def copy_items_def copy_parts_def upsert_item_def delete_parts_def
      SaveCrossDriveUploadPart_def
    by (intro own.within_stmt own.within_exec keeps_owner_same; auto simp: Let_def split: if_splits)+
  have counters: "db_within (keeps_owner t ow) (FinalizeCrossDriveDiscovery t' ow' now)"
    "db_within (keeps_owner t ow) (MarkCrossDriveItemVerified i t' ow' par dest now)" for t' ow' i par dest now
    unfolding FinalizeCrossDriveDiscovery_def MarkCrossDriveItemVerified_def Let_def
    by (intro within_rules update_item_owner; rule keeps_owner_imports; simp)+
  show ?thesis
    using assms
    by (cases op; simp only: xd_prog.simps)
      (auto simp: import_ops_defs item_ops_defs UpdateCrossDriveImport_def check_destination_def
        UpsertCrossDriveItem_def ResetCrossDriveUpload_def SaveCrossDriveDownloadSegment_def
        CreateCrossDriveImport_def RecoverInterruptedAsyncTasks_def migrate_item_errors_def Let_def
        intro!: within_rules stmts counters update_imports_owner update_item_owner keeps_owner_same)
qed

text \<open>The imports an operation gave to a run: a claim that succeeded.\<close>

fun xd_claims :: "xd_op \<Rightarrow> bool list \<Rightarrow> db \<Rightarrow> string list" where
  "xd_claims (XClaim t ow now) fs d =
     (case db_result (ClaimCrossDriveImport t ow now fs d) of Inr _ \<Rightarrow> [t] | Inl _ \<Rightarrow> [])"
| "xd_claims op fs d = []"

fun xd_run_claims :: "(xd_op \<times> bool list) list \<Rightarrow> db \<Rightarrow> string list" where
  "xd_run_claims [] d = []"
| "xd_run_claims (e # ops) d =
     xd_claims (fst e) (snd e) d @ xd_run_claims ops (xd_state (fst e) (snd e) d)"

lemma owned_not_claimed:
  assumes inv: "xd_tables_inv d" and own: "owns d t ow" "ow \<noteq> ''''"
  shows "t \<notin> set (xd_claims op fs d)"
proof -
  obtain i where i: "i \<in> set (cross_drive_imports d)" "imp_TaskID i = t" "imp_RunOwner i = Some ow"
    using own(1) by (auto simp: owns_def)
  have "\<not> (imp_TaskID j = t \<and> (imp_RunOwner j = None \<or> imp_RunOwner j = Some ''''))"
    if "j \<in> set (cross_drive_imports d)" for j
    using import_row_eq [OF inv that i(1)] i own(2) by auto
  then have "sql_count (\<lambda>j. imp_TaskID j = t \<and> (imp_RunOwner j = None \<or> imp_RunOwner j = Some ''''))
      (cross_drive_imports d) = 0"
    unfolding sql_count_0 by blast
  then have "db_wp (ClaimCrossDriveImport t ow' now) (\<lambda>_ _. False) (\<lambda>_ _. True) d" for ow' now
    unfolding ClaimCrossDriveImport_def update_imports_def by (intro wp_rules) simp_all
  from db_wpD(1) [OF this]
  have claims: "db_result (ClaimCrossDriveImport t ow' now fs d) \<noteq> Inr x" for ow' now x
    by (metis prod.collapse)
  show ?thesis
  proof (cases op)
    case (XClaim t' ow' now)
    with claims [of ow' now] show ?thesis by (cases "t' = t") (auto split: sum.splits)
  qed simp_all
qed

lemma xd_run_owned:
  assumes "xd_tables_inv d" "owns d t ow" "ow \<noteq> ''''"
    and "\<forall>e \<in> set ops. (\<forall>now. fst e \<noteq> XRelease t ow now) \<and> (\<forall>now. fst e \<noteq> XRecover now)"
  shows "owns (xd_run ops d) t ow \<and> t \<notin> set (xd_run_claims ops d)"
  using assms
proof (induction ops arbitrary: d)
  case (Cons e ops)
  let ?d = "xd_state (fst e) (snd e) d"
  note prems = Cons.prems
  have "xd_tables_inv ?d" using xd_state_good [OF prems(1)] prems(1) by (simp add: xd_good_def)
  moreover have "db_within (keeps_owner t ow) (xd_prog (fst e))"
    using prems(3,4) by (intro xd_prog_owner) auto
  from db_withinD [OF this] prems(2) have "owns ?d t ow" by (simp add: keeps_owner_def xd_state_def)
  ultimately show ?case
    using Cons.IH [of ?d] owned_not_claimed [OF prems(1-3)] prems(3,4) by simp
qed simp

section \<open>What a retry copies\<close>

lemma distinct_map_concat:
  assumes "distinct (map k ps)" "\<And>p. p \<in> set ps \<Longrightarrow> distinct (map k' (g p))"
    and "\<And>p q x y. p \<in> set ps \<Longrightarrow> q \<in> set ps \<Longrightarrow> x \<in> set (g p) \<Longrightarrow> y \<in> set (g q) \<Longrightarrow>
           k' x = k' y \<Longrightarrow> k p = k q"
  shows "distinct (map k' (concat (map g ps)))"
  using assms
proof (induction ps)
  case (Cons p ps)
  have "distinct (map k' (concat (map g ps)))" using Cons.prems by (intro Cons.IH) auto
  moreover have "k' x \<noteq> k' y" if "x \<in> set (g p)" "q \<in> set ps" "y \<in> set (g q)" for x y q
    using Cons.prems(1) Cons.prems(3) [of p q x y] that by force
  ultimately show ?case using Cons.prems(2) [of p] by fastforce
qed simp

lemma filter_key_le1:
  assumes "distinct (map k xs)" "\<And>x. p x \<Longrightarrow> k x = v"
  shows "filter p xs = [] \<or> (\<exists>x \<in> set xs. p x \<and> filter p xs = [x])"
proof -
  have "length (filter p xs) \<le> 1" using sql_count_key_le [OF assms] by (simp add: sql_count_def)
  then consider "filter p xs = []" | x where "filter p xs = [x]"
    by (cases "filter p xs") (auto simp: le_Suc_eq)
  then show ?thesis
  proof cases
    case (2 x)
    then have "set (filter p xs) = {x}" by simp
    then have "x \<in> set xs" "p x" by auto
    with 2 show ?thesis by blast
  qed simp
qed

lemma copied_parts_unique:
  assumes parts: "parts_unique parts" and ids: "distinct (map item_ID items)"
    and srcs: "distinct (map (\<lambda>i. (item_TaskID i, item_SourceFileID i)) items)"
  shows "parts_unique (copied_parts t prior items parts)"
proof -
  let ?orig = "\<lambda>p. filter (\<lambda>o'. item_ID o' = part_ItemID p \<and> item_TaskID o' = prior) items"
  let ?repl = "\<lambda>o'. filter (\<lambda>r. item_TaskID r = t \<and> item_SourceFileID r = item_SourceFileID o' \<and>
      item_UploadID r \<noteq> '''') items"
  let ?g = "\<lambda>p. concat (map (\<lambda>o'. map (\<lambda>r. p\<lparr>part_ItemID := item_ID r\<rparr>) (?repl o')) (?orig p))"
  let ?k = "\<lambda>p. (part_ItemID p, part_PartNumber p)"
  have orig: "?orig p = [] \<or> (\<exists>o'. o' \<in> set items \<and> item_ID o' = part_ItemID p \<and>
      item_TaskID o' = prior \<and> ?orig p = [o'])" for p
    using filter_key_le1 [OF ids, of "\<lambda>o'. item_ID o' = part_ItemID p \<and> item_TaskID o' = prior"] by blast
  have repl: "?repl o' = [] \<or> (\<exists>r. r \<in> set items \<and> ?repl o' = [r])" for o'
    using filter_key_le1 [OF srcs, of "\<lambda>r. item_TaskID r = t \<and> item_SourceFileID r = item_SourceFileID o' \<and>
      item_UploadID r \<noteq> ''''" "(t, item_SourceFileID o')"] by blast
  have mem: "\<exists>o' r. o' \<in> set items \<and> item_ID o' = part_ItemID p \<and> item_TaskID o' = prior \<and>
      r \<in> set items \<and> item_TaskID r = t \<and> item_SourceFileID r = item_SourceFileID o' \<and>
      x = p\<lparr>part_ItemID := item_ID r\<rparr>" if "x \<in> set (?g p)" for p x
    using that by auto
  have "distinct (map ?k (concat (map ?g parts)))"
  proof (rule distinct_map_concat [where k = ?k])
    show "distinct (map ?k parts)" using parts by (simp add: parts_unique_def)
    show "distinct (map ?k (?g p))" for p
    proof (cases "?orig p = []")
      case False
      with orig [of p] obtain o' where "?orig p = [o']" by blast
      then show ?thesis using repl [of o'] by auto
    qed simp
  next
    fix p q x y assume "x \<in> set (?g p)" "y \<in> set (?g q)" and k: "?k x = ?k y"
    then obtain o1 r1 o2 r2 where
      1: "o1 \<in> set items" "item_ID o1 = part_ItemID p" "item_TaskID o1 = prior" "r1 \<in> set items"
        "item_SourceFileID r1 = item_SourceFileID o1" "x = p\<lparr>part_ItemID := item_ID r1\<rparr>"
      and 2: "o2 \<in> set items" "item_ID o2 = part_ItemID q" "item_TaskID o2 = prior" "r2 \<in> set items"
        "item_SourceFileID r2 = item_SourceFileID o2" "y = q\<lparr>part_ItemID := item_ID r2\<rparr>"
      using mem [of x p] mem [of y q] by blast
    from k 1 2 have "item_ID r1 = item_ID r2" and n: "part_PartNumber p = part_PartNumber q" by auto
    with 1 2 ids have "r1 = r2" by (auto dest: distinct_key_eq)
    with 1 2 have "(item_TaskID o1, item_SourceFileID o1) = (item_TaskID o2, item_SourceFileID o2)" by simp
    with 1 2 srcs have "o1 = o2" by (auto dest: distinct_key_eq)
    with 1 2 n show "?k p = ?k q" by auto
  qed
  then show ?thesis by (simp add: parts_unique_def copied_parts_def)
qed

lemma copy_item_simps [simp]:
  "item_TaskID (copy_item t now n i) = t" "item_ID (copy_item t now n i) = n"
  "item_SourceFileID (copy_item t now n i) = item_SourceFileID i"
  "item_RelativePath (copy_item t now n i) = item_RelativePath i"
  by (simp_all add: copy_item_def)

lemma copy_rows_map:
  assumes "\<And>n i. h (copy_item t now n i) = h' i"
  shows "map h (copy_rows t now seq rows) = map h' rows"
  by (induction rows arbitrary: seq) (simp_all add: assms)

lemma set_copy_rows:
  "j \<in> set (copy_rows t now seq rows) \<Longrightarrow> \<exists>i \<in> set rows. \<exists>n. j = copy_item t now n i"
  by (induction rows arbitrary: seq) auto

lemma copied_items_unique:
  assumes inv: "xd_tables_inv d" and new: "t \<notin> set (map imp_TaskID (cross_drive_imports d))"
  shows "items_unique (cross_drive_items d @ copy_rows t now seq
           (filter (\<lambda>i. item_TaskID i = prior) (cross_drive_items d)))"
proof -
  let ?rows = "filter (\<lambda>i. item_TaskID i = prior) (cross_drive_items d)"
  let ?new = "copy_rows t now seq ?rows"
  have fresh: "item_TaskID i \<noteq> t" if "i \<in> set (cross_drive_items d)" for i
    using that inv new by (auto simp: xd_tables_inv_def)
  have tid: "item_TaskID j = t" if "j \<in> set ?new" for j using copy_rows_props(3) [OF that] .
  have uniq: "distinct (map (\<lambda>i. (item_TaskID i, h i)) (cross_drive_items d @ ?new))"
    if h: "\<And>n i. h (copy_item t now n i) = h i"
      and u: "distinct (map (\<lambda>i. (item_TaskID i, h i)) (cross_drive_items d))" for h :: "CrossDriveItem \<Rightarrow> string"
  proof -
    have "map (\<lambda>i. (item_TaskID i, h i)) ?new = map (\<lambda>i. (t, h i)) ?rows"
      by (rule copy_rows_map) (simp add: h)
    moreover have "inj_on h (set ?rows)"
      using u by (auto simp: distinct_map inj_on_def)
    moreover have "distinct ?rows" using u by (simp add: distinct_map)
    ultimately have "distinct (map (\<lambda>i. (item_TaskID i, h i)) ?new)"
      by (simp add: distinct_map inj_on_def)
    moreover have "set (map (\<lambda>i. (item_TaskID i, h i)) (cross_drive_items d)) \<inter>
        set (map (\<lambda>i. (item_TaskID i, h i)) ?new) = {}"
    proof -
      have "(item_TaskID i, h i) \<noteq> (item_TaskID j, h j)"
        if "i \<in> set (cross_drive_items d)" "j \<in> set ?new" for i j
        using fresh [OF that(1)] tid [OF that(2)] by simp
      then show ?thesis unfolding set_map by blast
    qed
    ultimately show ?thesis using u by (simp only: map_append distinct_append simp_thms)
  qed
  have old: "items_unique (cross_drive_items d)" using inv by (simp add: xd_tables_inv_def)
  show ?thesis
    unfolding items_unique_def
    using uniq [of item_SourceFileID] uniq [of item_RelativePath] old
    by (simp only: items_unique_def copy_item_simps simp_thms)
qed

text \<open>The rows of a retry: what the code takes over from each item of the import it resumes.\<close>

definition resumes_item :: "CrossDriveItem \<Rightarrow> CrossDriveItem \<Rightarrow> bool" where
  "resumes_item i j \<longleftrightarrow>
     item_SourceFileID j = item_SourceFileID i \<and> item_SourceRevision j = item_SourceRevision i \<and>
     item_RelativePath j = item_RelativePath i \<and> item_Name j = item_Name i \<and>
     item_Size j = item_Size i \<and> item_SHA1 j = item_SHA1 i \<and> item_PreSHA1 j = item_PreSHA1 i \<and>
     item_State j \<in> {''verified'', ''downloaded'', ''discovered''} \<and>
     (item_State j = ''verified'' \<longleftrightarrow> item_State i = ''verified'') \<and>
     (item_State j = ''downloaded'' \<longleftrightarrow>
        item_State i = ''downloaded'' \<and> item_DownloadedBytes i = item_Size i) \<and>
     item_SpoolPath j = item_SpoolPath i \<and>
     (item_DownloadedBytes i = item_Size i \<longrightarrow> item_DownloadedBytes j = item_Size i) \<and>
     (item_DownloadedBytes i \<noteq> item_Size i \<longrightarrow> item_DownloadedBytes j = 0) \<and>
     item_DestinationParent j = item_DestinationParent i \<and> item_DestinationID j = item_DestinationID i \<and>
     (item_State i = ''uploading'' \<longrightarrow> item_UploadID j = item_UploadID i) \<and>
     (item_State i \<noteq> ''uploading'' \<longrightarrow> item_UploadID j = '''') \<and>
     item_UploadBucket j = item_UploadBucket i \<and> item_UploadObject j = item_UploadObject i \<and>
     item_Error j = ''''"

lemma copy_item_resumes: "resumes_item i (copy_item t now n i)"
  by (simp add: resumes_item_def copy_item_def)

lemma copy_rows_resume: "list_all2 resumes_item is (copy_rows t now seq is)"
  by (induction "is" arbitrary: seq) (simp_all add: copy_item_resumes)

definition valid_import :: "CrossDriveImport \<Rightarrow> bool" where
  "valid_import s \<longleftrightarrow> imp_TaskID s \<noteq> '''' \<and> imp_QuarkAccountID s \<noteq> '''' \<and>
     imp_QuarkTargetID s \<noteq> '''' \<and> imp_C115AccountID s \<noteq> ''''"

definition created_state :: "CrossDriveImport \<Rightarrow> gotime \<Rightarrow> CrossDriveImport" where
  "created_state s now = s\<lparr>
     imp_CreatedAt := (if imp_CreatedAt s = 0 then now else imp_CreatedAt s),
     imp_UpdatedAt := now,
     imp_Phase := (if imp_Phase s = '''' then ''saving_share'' else imp_Phase s)\<rparr>"

lemma created_state_simps [simp]:
  "imp_TaskID (created_state s now) = imp_TaskID s"
  "imp_PriorTaskID (created_state s now) = imp_PriorTaskID s"
  "imp_QuarkAccountID (created_state s now) = imp_QuarkAccountID s"
  "imp_QuarkTargetID (created_state s now) = imp_QuarkTargetID s"
  "imp_C115AccountID (created_state s now) = imp_C115AccountID s"
  "imp_DestinationCID (created_state s now) = imp_DestinationCID s"
  by (simp_all add: created_state_def)

definition prior_items :: "db \<Rightarrow> string \<Rightarrow> CrossDriveItem list" where
  "prior_items d prior = filter (\<lambda>i. item_TaskID i = prior) (cross_drive_items d)"

lemma copied_part_of:
  assumes "x \<in> set (copied_parts t prior items parts)"
  shows "\<exists>r \<in> set items. item_TaskID r = t \<and> item_UploadID r \<noteq> '''' \<and> part_ItemID x = item_ID r"
  using assms unfolding copied_parts_def by fastforce

text \<open>The parts a retry copies: those of the items that were uploading, each to the copy of its item.\<close>

lemma copied_ids:
  assumes inv: "xd_tables_inv d"
  shows "distinct (map item_ID (cross_drive_items d @ copy_rows t now (cross_drive_items_seq d) rows))"
proof -
  have "\<forall>i \<in> set (cross_drive_items d). item_ID i \<le> cross_drive_items_seq d"
    "distinct (map item_ID (cross_drive_items d))" using inv by (simp_all add: xd_tables_inv_def)
  moreover from this have "set (map item_ID (cross_drive_items d)) \<inter>
      set (map item_ID (copy_rows t now (cross_drive_items_seq d) rows)) = {}"
    unfolding copy_rows_props(1) by auto
  ultimately show ?thesis using copy_rows_props(2) by simp
qed

lemma copied_parts_distinct:
  assumes inv: "xd_tables_inv d" and new: "t \<notin> set (map imp_TaskID (cross_drive_imports d))"
  shows "distinct (copied_parts t prior (cross_drive_items d @
     copy_rows t now (cross_drive_items_seq d) (prior_items d prior)) (cross_drive_upload_parts d))"
proof -
  have "parts_unique (cross_drive_upload_parts d)" using inv by (simp add: xd_tables_inv_def)
  from copied_parts_unique [OF this copied_ids [OF inv]] copied_items_unique [OF inv new]
  show ?thesis by (auto simp: items_unique_def prior_items_def parts_unique_def distinct_map)
qed

lemma set_copied_parts_iff:
  "q \<in> set (copied_parts t prior items parts) \<longleftrightarrow> (\<exists>p \<in> set parts. \<exists>i \<in> set items. \<exists>r \<in> set items.
     item_ID i = part_ItemID p \<and> item_TaskID i = prior \<and> item_TaskID r = t \<and>
     item_SourceFileID r = item_SourceFileID i \<and> item_UploadID r \<noteq> '''' \<and> q = p\<lparr>part_ItemID := item_ID r\<rparr>)"
  unfolding copied_parts_def by simp blast

lemma copied_parts_exact:
  fixes t prior :: string and now :: gotime
  assumes inv: "xd_tables_inv d" and new: "t \<notin> set (map imp_TaskID (cross_drive_imports d))"
  defines "rows \<equiv> copy_rows t now (cross_drive_items_seq d) (prior_items d prior)"
  shows "q \<in> set (copied_parts t prior (cross_drive_items d @ rows) (cross_drive_upload_parts d)) \<longleftrightarrow>
     (\<exists>p \<in> set (cross_drive_upload_parts d). \<exists>(i, j) \<in> set (zip (prior_items d prior) rows).
        part_ItemID p = item_ID i \<and> item_State i = ''uploading'' \<and> item_UploadID i \<noteq> '''' \<and>
        q = p\<lparr>part_ItemID := item_ID j\<rparr>)" (is "?L \<longleftrightarrow> ?R")
proof -
  let ?Z = "set (zip (prior_items d prior) rows)"
  have fresh: "\<forall>i \<in> set (cross_drive_items d). item_TaskID i \<noteq> t"
    using inv new unfolding xd_tables_inv_def by metis
  have tid: "item_TaskID j = t" if "j \<in> set rows" for j
    using copy_rows_props(3) that unfolding rows_def by blast
  have len: "length rows = length (prior_items d prior)" unfolding rows_def by (rule copy_rows_props(4))
  have pair: "resumes_item i j \<and> i \<in> set (cross_drive_items d) \<and> item_TaskID i = prior \<and>
      j \<in> set rows" if "(i, j) \<in> ?Z" for i j
    using that copy_rows_resume [of "prior_items d prior" t now "cross_drive_items_seq d"]
      set_zip_leftD [OF that] set_zip_rightD [OF that]
    by (auto simp: rows_def list_all2_iff prior_items_def)
  have old: "i \<in> set (cross_drive_items d)" if "i \<in> set (cross_drive_items d @ rows)" "item_TaskID i = prior"
    "prior \<noteq> t" for i using that tid by auto
  have src: "i = i'" if "i \<in> set (cross_drive_items d)" "i' \<in> set (cross_drive_items d)"
    "item_TaskID i = item_TaskID i'" "item_SourceFileID i = item_SourceFileID i'" for i i'
    using inv that by (auto simp: xd_tables_inv_def items_unique_def dest: distinct_key_eq)
  show ?thesis
  proof
    assume ?L
    then obtain p i r where p: "p \<in> set (cross_drive_upload_parts d)" "q = p\<lparr>part_ItemID := item_ID r\<rparr>"
      and i: "i \<in> set (cross_drive_items d @ rows)" "item_ID i = part_ItemID p" "item_TaskID i = prior"
      and r: "r \<in> set (cross_drive_items d @ rows)" "item_TaskID r = t"
        "item_SourceFileID r = item_SourceFileID i" "item_UploadID r \<noteq> ''''"
      by (auto simp: copied_parts_def)
    have "part_ItemID p \<in> set (map item_ID (cross_drive_items d))" using inv p(1) by (auto simp: xd_tables_inv_def)
    then obtain i0 where i0: "i0 \<in> set (cross_drive_items d)" "item_ID i0 = part_ItemID p" by auto
    have "i0 = i"
      using distinct_key_eq [OF copied_ids [OF inv, of t now "prior_items d prior", folded rows_def], of i0 i]
        i0 i(1,2) by simp
    with i0 have mem: "i \<in> set (cross_drive_items d)" by simp
    from r(1,2) fresh have "r \<in> set rows" by auto
    then obtain k where k: "k < length rows" "r = rows ! k" by (auto simp: in_set_conv_nth)
    let ?i = "prior_items d prior ! k"
    have z: "(?i, r) \<in> ?Z" using k len by (auto simp: set_zip)
    from pair [OF z] r(3) i(3) src [OF _ mem] have "?i = i" by (auto simp: resumes_item_def)
    with z pair [OF z] r(4) i(2) p show ?R by (auto simp: resumes_item_def split: if_splits) force+
  next
    assume ?R
    then obtain p i j where p: "p \<in> set (cross_drive_upload_parts d)" and z: "(i, j) \<in> ?Z"
      and i: "part_ItemID p = item_ID i" "item_State i = ''uploading''" "item_UploadID i \<noteq> ''''"
      and q: "q = p\<lparr>part_ItemID := item_ID j\<rparr>" by blast
    from pair [OF z] i tid have "i \<in> set (cross_drive_items d @ rows)" "item_TaskID i = prior"
      "j \<in> set (cross_drive_items d @ rows)" "item_TaskID j = t" "item_SourceFileID j = item_SourceFileID i"
      "item_UploadID j \<noteq> ''''"
      by (auto simp: resumes_item_def)
    with p i(1) q show ?L unfolding set_copied_parts_iff by metis
  qed
qed

text \<open>The whole of a successful creation, evaluated.\<close>

lemma CreateCrossDriveImport_eval:
  assumes inv: "xd_tables_inv d" and valid: "valid_import s"
    and task: "imp_TaskID s \<in> set (map task_ID (async_tasks d))"
    and new: "imp_TaskID s \<notin> set (map imp_TaskID (cross_drive_imports d))"
    and prior: "imp_PriorTaskID s \<noteq> ''''"
  shows "CreateCrossDriveImport s now [] d =
     (Inr (), [], d\<lparr>cross_drive_imports := cross_drive_imports d @ [new_import (created_state s now)],
        cross_drive_items := cross_drive_items d @
          copy_rows (imp_TaskID s) now (cross_drive_items_seq d) (prior_items d (imp_PriorTaskID s)),
        cross_drive_items_seq := cross_drive_items_seq d + length (prior_items d (imp_PriorTaskID s)),
        cross_drive_upload_parts := cross_drive_upload_parts d @
          copied_parts (imp_TaskID s) (imp_PriorTaskID s) (cross_drive_items d @
            copy_rows (imp_TaskID s) now (cross_drive_items_seq d) (prior_items d (imp_PriorTaskID s)))
            (cross_drive_upload_parts d)\<rparr>)"
proof -
  let ?t = "imp_TaskID s" and ?p = "imp_PriorTaskID s"
  let ?rows = "prior_items d ?p"
  let ?items = "cross_drive_items d @ copy_rows ?t now (cross_drive_items_seq d) ?rows"
  let ?parts = "cross_drive_upload_parts d"
  let ?d1 = "d\<lparr>cross_drive_imports := cross_drive_imports d @ [new_import (created_state s now)]\<rparr>"
  let ?d2 = "?d1\<lparr>cross_drive_items := ?items, cross_drive_items_seq := cross_drive_items_seq d + length ?rows\<rparr>"
  let ?d3 = "?d2\<lparr>cross_drive_upload_parts := ?parts @ copied_parts ?t ?p ?items ?parts\<rparr>"
  have ins: "insert_import (created_state s now) [] d = (Inr (), [], ?d1)"
    using task new by (simp add: insert_import_def db_stmt_eval)
  have unique: "items_unique ?items"
    unfolding prior_items_def by (rule copied_items_unique [OF inv new])
  then have items: "copy_items ?t ?p now [] ?d1 = (Inr (), [], ?d2)"
    by (simp add: copy_items_def db_stmt_eval Let_def prior_items_def new_import_def)
  have old_parts: "parts_unique ?parts" and fk: "\<forall>p \<in> set ?parts. part_ItemID p \<in> set (map item_ID (cross_drive_items d))"
    and seq: "\<forall>i \<in> set (cross_drive_items d). item_ID i \<le> cross_drive_items_seq d"
    and old_ids: "distinct (map item_ID (cross_drive_items d))"
    using inv by (simp_all add: xd_tables_inv_def)
  have fresh: "\<forall>i \<in> set (cross_drive_items d). item_TaskID i \<noteq> ?t"
    using inv new unfolding xd_tables_inv_def by metis
  have "distinct (map item_ID ?items)"
  proof -
    have "set (map item_ID (cross_drive_items d)) \<inter> set (map item_ID (copy_rows ?t now (cross_drive_items_seq d) ?rows)) = {}"
      using seq unfolding copy_rows_props(1) by auto
    with old_ids copy_rows_props(2) show ?thesis by simp
  qed
  then have new_parts: "parts_unique (copied_parts ?t ?p ?items ?parts)"
    using unique old_parts by (intro copied_parts_unique) (simp_all add: items_unique_def)
  have "part_ItemID x > cross_drive_items_seq d" if x: "x \<in> set (copied_parts ?t ?p ?items ?parts)" for x
  proof -
    obtain r where r: "r \<in> set ?items" "item_TaskID r = ?t" "part_ItemID x = item_ID r"
      using copied_part_of [OF x] by blast
    with fresh have "item_ID r \<in> set (map item_ID (copy_rows ?t now (cross_drive_items_seq d) ?rows))" by auto
    with r(3) show ?thesis unfolding copy_rows_props(1) by simp
  qed
  moreover have "part_ItemID x \<le> cross_drive_items_seq d" if "x \<in> set ?parts" for x
    using fk seq that by fastforce
  ultimately have "set (map (\<lambda>p. (part_ItemID p, part_PartNumber p)) ?parts) \<inter>
      set (map (\<lambda>p. (part_ItemID p, part_PartNumber p)) (copied_parts ?t ?p ?items ?parts)) = {}"
    by fastforce
  then have "parts_unique (?parts @ copied_parts ?t ?p ?items ?parts)"
    using old_parts new_parts by (simp add: parts_unique_def)
  then have parts: "copy_parts ?t ?p [] ?d2 = (Inr (), [], ?d3)"
    by (simp add: copy_parts_def db_stmt_eval Let_def)
  have none: "sql_find (\<lambda>i. imp_TaskID i = ?t) (cross_drive_imports d) = None"
    using new unfolding sql_find_None set_map by (metis imageI)
  have body: "db_tx (db_bind (insert_import (created_state s now)) (\<lambda>_.
      db_bind (copy_items ?t ?p now) (\<lambda>_. db_bind (copy_parts ?t ?p) (\<lambda>_. db_ret (Commit ()))))) [] d =
      (Inr (), [], ?d3)"
    using ins items parts by (intro db_tx_Commit) (simp add: db_bind_def db_ret_eval)
  show ?thesis
    using valid prior none body
    by (simp add: CreateCrossDriveImport_def valid_import_def created_state_def [symmetric] Let_def
        db_bind_def [of "db_query _"] db_query_eval)
qed

section \<open>Properties\<close>

text \<open>
  C12. What an import is bound to never changes: over every history, with driver faults anywhere,
  each import row keeps its accounts, selected sources, autofill identity, the destination once
  one is recorded, and a requested cancellation; each item keeps its source object, revision,
  path, name and size; no row is removed.
\<close>

theorem cross_drive_identity_fixed:
  assumes "xd_tables_inv d"
  shows "(\<forall>i \<in> set (cross_drive_imports d).
            \<exists>j \<in> set (cross_drive_imports (xd_run ops d)). import_kept i j) \<and>
         (\<forall>i \<in> set (cross_drive_items d).
            \<exists>j \<in> set (cross_drive_items (xd_run ops d)). item_kept i j)"
  using xd_run_good [OF assms, of ops] by (auto simp: xd_evolves_def dest: rows_evolve_mem)

text \<open>
  C8. A run that lost the import writes nothing: an operation issued for an owner that does not
  hold the import leaves the database unchanged under any driver faults. The updates of phase and roots, the items
  and their downloads, the segments and the verification tell the caller so by an error; the release, the hashes, the
  upload session and the failure note say nothing (they fail only when the driver does). The only exception
  is the upload reset, which deletes the recorded parts of the item, and nothing else.
\<close>

theorem stale_run_fenced:
  assumes "fenced_by op = Some (t, ow)" "\<not> owns d t ow"
  shows "fenced_outcome op d (db_result (xd_prog op fs d)) (db_state (xd_prog op fs d))"
  using fenced_wp [OF assms] by (rule db_wp_result)

text \<open>
  C11. At most one run at a time: while an import is owned by a run, no other claim of it succeeds
  and the owner keeps it, over every history that contains neither its own release nor a restart
  recovery.
\<close>

theorem run_owner_exclusive:
  assumes "xd_tables_inv d" "owns d t ow" "ow \<noteq> ''''"
    and "\<forall>e \<in> set ops. (\<forall>now. fst e \<noteq> XRelease t ow now) \<and> (\<forall>now. fst e \<noteq> XRecover now)"
  shows "owns (xd_run ops d) t ow \<and> t \<notin> set (xd_run_claims ops d)"
  by (rule xd_run_owned [OF assms])

text \<open>
  C13. A retry resumes from the checkpoints of the import it names: its creation succeeds, the new
  import is unowned with no saved roots and the requested binding. Its items are exactly the prior
  import's in their order, verified ones staying verified, fully downloaded ones downloaded and all others back to
  discovery, with their hashes, spool file and destination, and with the upload session of an item that was uploading.
  The uploaded parts of exactly those items are carried over to their copies, each once, and the prior import, its
  items and its parts stay as they were.
\<close>

theorem retry_resumes_checkpoints:
  assumes "xd_tables_inv d" "valid_import s" "imp_TaskID s \<in> set (map task_ID (async_tasks d))"
    and "imp_TaskID s \<notin> set (map imp_TaskID (cross_drive_imports d))" "imp_PriorTaskID s \<noteq> ''''"
    and "d' = db_state (CreateCrossDriveImport s now [] d)"
  shows "db_result (CreateCrossDriveImport s now [] d) = Inr () \<and>
    (\<exists>i. cross_drive_imports d' = cross_drive_imports d @ [i] \<and> crossDriveBindingEqual i s \<and>
         imp_TaskID i = imp_TaskID s \<and> imp_RunOwner i = None \<and> imp_SavedRootIDs i = [] \<and>
         imp_DestinationCID i = imp_DestinationCID s \<and> \<not> imp_CancelRequested i) \<and>
    (\<exists>new parts. cross_drive_items d' = cross_drive_items d @ new \<and>
         list_all2 resumes_item (prior_items d (imp_PriorTaskID s)) new \<and>
         (\<forall>j \<in> set new. item_TaskID j = imp_TaskID s) \<and>
         cross_drive_upload_parts d' = cross_drive_upload_parts d @ parts \<and> distinct parts \<and>
         (\<forall>q. q \<in> set parts \<longleftrightarrow> (\<exists>p \<in> set (cross_drive_upload_parts d).
            \<exists>(i, j) \<in> set (zip (prior_items d (imp_PriorTaskID s)) new).
              part_ItemID p = item_ID i \<and> item_State i = ''uploading'' \<and> item_UploadID i \<noteq> '''' \<and>
              q = p\<lparr>part_ItemID := item_ID j\<rparr>)))"
proof -
  note eval = CreateCrossDriveImport_eval [OF assms(1-5), of now]
  have row: "crossDriveBindingEqual (new_import (created_state s now)) s"
    by (simp add: crossDriveBindingEqual_def new_import_def created_state_def)
  let ?prior = "prior_items d (imp_PriorTaskID s)"
  let ?new = "copy_rows (imp_TaskID s) now (cross_drive_items_seq d) ?prior"
  let ?parts = "copied_parts (imp_TaskID s) (imp_PriorTaskID s) (cross_drive_items d @ ?new) (cross_drive_upload_parts d)"
  have "\<exists>i. cross_drive_imports d' = cross_drive_imports d @ [i] \<and> crossDriveBindingEqual i s \<and>
         imp_TaskID i = imp_TaskID s \<and> imp_RunOwner i = None \<and> imp_SavedRootIDs i = [] \<and>
         imp_DestinationCID i = imp_DestinationCID s \<and> \<not> imp_CancelRequested i"
    unfolding assms(6) eval
    by (rule exI [of _ "new_import (created_state s now)"]) (simp add: row, simp add: new_import_def)
  moreover have "cross_drive_items d' = cross_drive_items d @ ?new"
    "cross_drive_upload_parts d' = cross_drive_upload_parts d @ ?parts"
    unfolding assms(6) eval by simp_all
  ultimately show ?thesis
    using copied_parts_exact [OF assms(1,4)] copied_parts_distinct [OF assms(1,4)] copy_rows_resume
      copy_rows_props(3) unfolding eval by (auto intro!: exI [of _ ?new] exI [of _ ?parts])
qed


text \<open>
  C25. The reported progress is true: when an item is marked verified, under any driver faults, the
  item is verified with its destination and the import counts exactly its verified files and bytes.
\<close>

theorem verified_progress_counts:
  assumes "xd_tables_inv d"
    and "MarkCrossDriveItemVerified k t ow par dest now fs d = (Inr (), fs', d')"
  shows "(\<exists>j \<in> set (cross_drive_items d'). item_ID j = k \<and> item_TaskID j = t \<and>
            item_State j = ''verified'' \<and> item_DestinationParent j = par \<and> item_DestinationID j = dest) \<and>
    (\<forall>i \<in> set (cross_drive_imports d'). imp_TaskID i = t \<longrightarrow>
       imp_CompletedFiles i = item_count (\<lambda>j. item_TaskID j = t \<and> item_State j = ''verified'') d' \<and>
       imp_CompletedBytes i = item_bytes (\<lambda>j. item_TaskID j = t \<and> item_State j = ''verified'') d')"
proof -
  let ?p = "\<lambda>i. item_ID i = k \<and> item_TaskID i = t \<and> owns d t ow"
  let ?f = "\<lambda>i. i\<lparr>item_State := ''verified'', item_DestinationParent := par, item_DestinationID := dest,
      item_Error := '''', item_UpdatedAt := now\<rparr>"
  let ?items = "sql_update ?p ?f (cross_drive_items d)"
  let ?q = "\<lambda>i. imp_TaskID i = t \<and> imp_RunOwner i = Some ow"
  let ?m = "\<lambda>j. item_TaskID j = t \<and> item_State j = ''verified''"
  let ?d1 = "d\<lparr>cross_drive_items := ?items\<rparr>"
  let ?g = "\<lambda>i. i\<lparr>imp_CompletedFiles := item_count ?m ?d1, imp_CompletedBytes := item_bytes ?m ?d1,
      imp_UpdatedAt := now\<rparr>"
  have "db_wp (MarkCrossDriveItemVerified k t ow par dest now)
      (\<lambda>_ d'. sql_count ?p (cross_drive_items d) = 1 \<and> cross_drive_items d' = ?items \<and>
              cross_drive_imports d' = sql_update ?q ?g (cross_drive_imports d)) (\<lambda>_ _. True) d"
    unfolding MarkCrossDriveItemVerified_def update_owned_item_def Let_def by (intro wp_rules) simp_all
  from db_wpD(1) [OF this assms(2)] have one: "sql_count ?p (cross_drive_items d) = 1"
    and items: "cross_drive_items d' = ?items"
    and irows: "cross_drive_imports d' = sql_update ?q ?g (cross_drive_imports d)" by blast+
  from one have "sql_count ?p (cross_drive_items d) \<noteq> 0" by simp
  then obtain j where j: "j \<in> set (cross_drive_items d)" "?p j" unfolding sql_count_0 by blast
  then have "?f j \<in> set (cross_drive_items d')" by (auto simp: items set_sql_update)
  then have "\<exists>j \<in> set (cross_drive_items d'). item_ID j = k \<and> item_TaskID j = t \<and>
      item_State j = ''verified'' \<and> item_DestinationParent j = par \<and> item_DestinationID j = dest"
    using j(2) by (intro bexI [of _ "?f j"]) simp_all
  moreover have counts: "item_count ?m d' = item_count ?m ?d1" "item_bytes ?m d' = item_bytes ?m ?d1"
    by (simp_all add: item_count_def item_bytes_def items)
  have "imp_CompletedFiles i = item_count ?m d' \<and> imp_CompletedBytes i = item_bytes ?m d'"
    if i: "i \<in> set (cross_drive_imports d')" "imp_TaskID i = t" for i
  proof -
    obtain i0 where i0: "i0 \<in> set (cross_drive_imports d)" "i = (if ?q i0 then ?g i0 else i0)"
      using i(1) unfolding irows by (rule sql_updateE)
    with i(2) have "imp_TaskID i0 = t" by (auto split: if_splits)
    moreover obtain o' where "o' \<in> set (cross_drive_imports d)" "imp_TaskID o' = t" "imp_RunOwner o' = Some ow"
      using j(2) by (auto simp: owns_def)
    ultimately have "?q i0" using import_row_eq [OF assms(1) i0(1)] by metis
    with i0(2) counts show ?thesis by simp
  qed
  ultimately show ?thesis by blast
qed

text \<open>Example data for the witnesses: an import owned by \<open>run1\<close> with one item.\<close>

definition example_import :: "string \<Rightarrow> string \<Rightarrow> CrossDriveImport" where
  "example_import t prior = \<lparr>imp_TaskID = t, imp_PriorTaskID = prior, imp_Phase = '''',
     imp_QuarkAccountID = ''q'', imp_SavedRootIDs = [], imp_QuarkTargetID = ''qt'',
     imp_C115AccountID = ''c'', imp_SelectedSourceIDs = [''s1''], imp_AutofillLibraryName = '''',
     imp_AutofillLibraryID = '''', imp_AutofillLibraryCID = '''', imp_AutofillSeriesID = '''',
     imp_AutofillTMDBID = '''', imp_AutofillSeriesFolder = '''', imp_ExpectedEpisodes = [],
     imp_DestinationCID = '''', imp_DestinationPath = '''', imp_TotalFiles = 0,
     imp_CompletedFiles = 0, imp_TotalBytes = 0, imp_CompletedBytes = 0, imp_CurrentFile = '''',
     imp_CancelRequested = False, imp_Error = '''', imp_CreatedAt = 0, imp_UpdatedAt = 0\<rparr>"

definition example_item :: CrossDriveItem where
  "example_item = discovered_row 1 ''t1'' 7 \<lparr>item_ID = 0, item_TaskID = '''', item_SourceFileID = ''f1'',
     item_SourceRevision = ''v1'', item_RelativePath = ''Show/e1.mkv'', item_Name = ''e1.mkv'',
     item_Size = 9, item_SHA1 = '''', item_PreSHA1 = '''', item_State = '''', item_SpoolPath = '''',
     item_DownloadedBytes = 0, item_DestinationParent = '''', item_DestinationID = '''',
     item_UploadID = '''', item_UploadBucket = '''', item_UploadObject = '''', item_Error = '''',
     item_UpdatedAt = 0\<rparr>"

definition owned_db :: db where
  "owned_db = example_db\<lparr>
     cross_drive_imports := [(new_import (created_state (example_import ''t1'' '''') 5))\<lparr>imp_RunOwner := Some ''run1''\<rparr>],
     cross_drive_items := [example_item], cross_drive_items_seq := 1\<rparr>"

lemma owned_db_simps [simp]:
  "cross_drive_imports owned_db =
     [(new_import (created_state (example_import ''t1'' '''') 5))\<lparr>imp_RunOwner := Some ''run1''\<rparr>]"
  "cross_drive_items owned_db = [example_item]" "cross_drive_items_seq owned_db = 1"
  "cross_drive_upload_parts owned_db = []" "cross_drive_download_segments_v2 owned_db = []"
  "async_tasks owned_db = async_tasks example_db"
  by (simp_all add: owned_db_def example_db_def empty_db_def)

lemma example_import_simps [simp]:
  "imp_TaskID (example_import t prior) = t" "imp_PriorTaskID (example_import t prior) = prior"
  "imp_TaskID (new_import s) = imp_TaskID s"
  by (simp_all add: example_import_def new_import_def)

lemma owned_db_inv: "xd_tables_inv owned_db"
  by (simp add: xd_tables_inv_def items_unique_def parts_unique_def example_item_def discovered_row_def)

lemma owned_db_owner: "owns owned_db ''t1'' ow \<longleftrightarrow> ow = ''run1''"
  by (auto simp: owns_def)

lemma example_import_valid: "t \<noteq> '''' \<Longrightarrow> valid_import (example_import t prior)"
  by (simp add: valid_import_def example_import_def)

theorem cross_drive_identity_fixed_witness:
  "\<exists>j \<in> set (cross_drive_items (xd_run [(XVerified 1 ''t1'' ''run1'' ''p'' ''d'' 9, []),
       (XUpdate ''t1'' ''run1'' ''done'' ''77'' '''' '''' 10, [])] owned_db)). item_kept example_item j"
  using cross_drive_identity_fixed [OF owned_db_inv, of "[(XVerified 1 ''t1'' ''run1'' ''p'' ''d'' 9, []),
       (XUpdate ''t1'' ''run1'' ''done'' ''77'' '''' '''' 10, [])]"]
  by (simp del: xd_run.simps)

theorem stale_run_fenced_witness:
  "\<not> owns owned_db ''t1'' ''run0'' \<and>
   (\<exists>e. db_result (MarkCrossDriveItemVerified 1 ''t1'' ''run0'' ''p'' ''d'' 9 [] owned_db) = Inl e) \<and>
   db_state (MarkCrossDriveItemVerified 1 ''t1'' ''run0'' ''p'' ''d'' 9 [] owned_db) = owned_db \<and>
   db_result (UpdateCrossDriveItemHashes 1 ''t1'' ''run0'' ''h'' '''' 9 [False] owned_db) \<in> {Inr (), Inl ErrDriver} \<and>
   db_state (UpdateCrossDriveItemHashes 1 ''t1'' ''run0'' ''h'' '''' 9 [False] owned_db) = owned_db"
  using stale_run_fenced [of "XVerified 1 ''t1'' ''run0'' ''p'' ''d'' 9" "''t1''" "''run0''" owned_db "[]"]
    stale_run_fenced [of "XHashes 1 ''t1'' ''run0'' ''h'' '''' 9" "''t1''" "''run0''" owned_db "[False]"]
  by (simp add: owned_db_owner fenced_outcome_def)

theorem run_owner_exclusive_witness:
  "owns owned_db ''t1'' ''run1'' \<and>
   xd_run_claims [(XClaim ''t1'' ''run2'' 8, []), (XCancel ''t1'' 9, []), (XClaim ''t1'' ''run3'' 10, [])] owned_db = []"
proof -
  have "''t1'' \<notin> set (xd_run_claims [(XClaim ''t1'' ''run2'' 8, []), (XCancel ''t1'' 9, []),
      (XClaim ''t1'' ''run3'' 10, [])] owned_db)"
    using run_owner_exclusive [OF owned_db_inv, of "''t1''" "''run1''"
      "[(XClaim ''t1'' ''run2'' 8, []), (XCancel ''t1'' 9, []), (XClaim ''t1'' ''run3'' 10, [])]"]
    by (simp add: owned_db_owner)
  then show ?thesis by (auto simp: owned_db_owner split: sum.splits)
qed

text \<open>The import \<open>t1\<close> broke off while it uploaded its item; one part was there.\<close>

definition uploading_item :: CrossDriveItem where
  "uploading_item = example_item\<lparr>item_State := ''uploading'', item_UploadID := ''u1'', item_SpoolPath := ''s1''\<rparr>"

definition uploading_db :: db where
  "uploading_db = owned_db\<lparr>cross_drive_items := [uploading_item],
     cross_drive_upload_parts := [\<lparr>part_ItemID = 1, part_PartNumber = 1, part_ETag = ''e'', part_Size = 9\<rparr>]\<rparr>"

lemma uploading_db_simps [simp]:
  "cross_drive_imports uploading_db = cross_drive_imports owned_db" "cross_drive_items uploading_db = [uploading_item]"
  "async_tasks uploading_db = async_tasks example_db" "prior_items uploading_db ''t1'' = [uploading_item]"
  "cross_drive_upload_parts uploading_db =
     [\<lparr>part_ItemID = 1, part_PartNumber = 1, part_ETag = ''e'', part_Size = 9\<rparr>]"
  by (simp_all add: uploading_db_def prior_items_def uploading_item_def example_item_def discovered_row_def)

lemma uploading_db_inv: "xd_tables_inv uploading_db"
  by (simp add: xd_tables_inv_def items_unique_def parts_unique_def uploading_item_def example_item_def
      discovered_row_def uploading_db_def)

theorem retry_resumes_checkpoints_witness:
  "let d' = db_state (CreateCrossDriveImport (example_import ''t2'' ''t1'') 11 [] uploading_db) in
   \<exists>j. cross_drive_items d' = [uploading_item, j] \<and> item_TaskID j = ''t2'' \<and> resumes_item uploading_item j \<and>
       item_UploadID j = ''u1'' \<and> item_State j = ''discovered'' \<and>
       cross_drive_upload_parts d' = cross_drive_upload_parts uploading_db @
         [\<lparr>part_ItemID = item_ID j, part_PartNumber = 1, part_ETag = ''e'', part_Size = 9\<rparr>]"
proof -
  let ?d' = "db_state (CreateCrossDriveImport (example_import ''t2'' ''t1'') 11 [] uploading_db)"
  have task: "imp_TaskID (example_import ''t2'' ''t1'') \<in> set (map task_ID (async_tasks uploading_db))"
    by (simp add: example_db_def)
  have new: "imp_TaskID (example_import ''t2'' ''t1'') \<notin> set (map imp_TaskID (cross_drive_imports uploading_db))"
    by (simp add: created_state_def example_import_def)
  have i: "item_State uploading_item = ''uploading''" "item_UploadID uploading_item = ''u1''"
    "item_ID uploading_item = 1" "item_DownloadedBytes uploading_item = 0"
    by (simp_all add: uploading_item_def example_item_def discovered_row_def)
  obtain j parts where items: "cross_drive_items ?d' = [uploading_item, j]" "item_TaskID j = ''t2''"
    and res: "resumes_item uploading_item j"
    and parts: "cross_drive_upload_parts ?d' = cross_drive_upload_parts uploading_db @ parts" "distinct parts"
    and mem: "\<forall>q. q \<in> set parts \<longleftrightarrow> q = \<lparr>part_ItemID = item_ID j, part_PartNumber = 1, part_ETag = ''e'', part_Size = 9\<rparr>"
    using retry_resumes_checkpoints [OF uploading_db_inv example_import_valid task new _ refl, of 11]
    by (auto simp: list_all2_Cons1 i)
  from mem have "set parts = {\<lparr>part_ItemID = item_ID j, part_PartNumber = 1, part_ETag = ''e'', part_Size = 9\<rparr>}" by blast
  with parts(2) have "parts = [\<lparr>part_ItemID = item_ID j, part_PartNumber = 1, part_ETag = ''e'', part_Size = 9\<rparr>]"
    by (cases parts; cases "tl parts") auto
  with items res parts(1) show ?thesis by (auto simp: resumes_item_def i Let_def)
qed


theorem verified_progress_counts_witness:
  "\<exists>d'. MarkCrossDriveItemVerified 1 ''t1'' ''run1'' ''p'' ''d'' 9 [] owned_db = (Inr (), [], d') \<and>
        (\<forall>i \<in> set (cross_drive_imports d'). imp_TaskID i = ''t1'' \<longrightarrow>
           imp_CompletedFiles i = item_count (\<lambda>j. item_TaskID j = ''t1'' \<and> item_State j = ''verified'') d')"
proof -
  have "db_result (MarkCrossDriveItemVerified 1 ''t1'' ''run1'' ''p'' ''d'' 9 [] owned_db) = Inr () \<and>
        fst (snd (MarkCrossDriveItemVerified 1 ''t1'' ''run1'' ''p'' ''d'' 9 [] owned_db)) = []"
    by (simp add: MarkCrossDriveItemVerified_def update_owned_item_def db_compute owned_db_owner
        example_item_def discovered_row_def)
  then obtain d' where run: "MarkCrossDriveItemVerified 1 ''t1'' ''run1'' ''p'' ''d'' 9 [] owned_db = (Inr (), [], d')"
    by (metis prod.collapse)
  with verified_progress_counts [OF owned_db_inv run] show ?thesis by blast
qed

end
