(* ===== verification/AccountStore.thy ===== *)
theory AccountStore
  imports Models
begin

text \<open>
  Drive accounts, deployment settings and system configuration of \<open>internal/storage/sqlite.go\<close>,
  with the part of the schema migration that repairs the account rows. The facts: at most one
  account of a type is the default one, which the migration establishes and every operation
  keeps; settings are written all or nothing, and read back.
\<close>

section \<open>Accounts\<close>

text \<open>SQLite's \<open>TRIM\<close> removes the space character only.\<close>

definition sql_trim_empty :: "string \<Rightarrow> bool" where
  "sql_trim_empty s \<longleftrightarrow> (\<forall>c \<in> set s. c = CHR 0x20)"

text \<open>\<open>UNIQUE INDEX drive_accounts_one_default_per_type_idx\<close> and the primary key.\<close>

definition one_default :: "DriveAccount list \<Rightarrow> bool" where
  "one_default rows \<longleftrightarrow> distinct (map acc_Type (filter acc_IsDefault rows))"

definition accounts_inv :: "db \<Rightarrow> bool" where
  "accounts_inv d \<longleftrightarrow> distinct (map acc_ID (drive_accounts d)) \<and> one_default (drive_accounts d)"

definition order_accounts :: "DriveAccount list \<Rightarrow> DriveAccount list" where
  "order_accounts rows = sort_key (\<lambda>a. (if acc_IsDefault a then 0 else 1 :: nat, acc_CreatedAt a)) rows"

definition ListAccounts :: "DriveAccount list dbop" where
  "ListAccounts = db_query (\<lambda>d. Inr (order_accounts (drive_accounts d)))"

text \<open>One statement that writes the account table; the unique index makes it fail as a whole.\<close>

definition write_accounts :: "(DriveAccount list \<Rightarrow> DriveAccount list) \<Rightarrow> unit dbop" where
  "write_accounts f =
     db_stmt (\<lambda>d. let rows = f (drive_accounts d) in
       if one_default rows then Inr ((), d\<lparr>drive_accounts := rows\<rparr>) else Inl ErrConstraint)"

definition clear_defaults :: "DriveAccount \<Rightarrow> DriveAccount list \<Rightarrow> DriveAccount list" where
  "clear_defaults account rows =
     sql_update (\<lambda>a. acc_Type a = acc_Type account \<and> acc_ID a \<noteq> acc_ID account)
       (\<lambda>a. a\<lparr>acc_IsDefault := False\<rparr>) rows"

definition upsert_account :: "DriveAccount \<Rightarrow> DriveAccount list \<Rightarrow> DriveAccount list" where
  "upsert_account a rows =
     (if \<exists>r \<in> set rows. acc_ID r = acc_ID a
      then sql_update (\<lambda>r. acc_ID r = acc_ID a) (\<lambda>r. a\<lparr>acc_CreatedAt := acc_CreatedAt r\<rparr>) rows
      else rows @ [a])"

definition SaveAccount :: "DriveAccount \<Rightarrow> gotime \<Rightarrow> DriveAccount dbop" where
  "SaveAccount account0 now =
     (if acc_ID account0 = '''' \<or> acc_Type account0 = '''' \<or> acc_Name account0 = ''''
      then db_fail (Errorf ''account id, type, and name are required'' [])
      else let account = account0\<lparr>
             acc_CreatedAt := (if acc_CreatedAt account0 = 0 then now else acc_CreatedAt account0),
             acc_UpdatedAt := now\<rparr>
      in db_tx (db_bind
           (if acc_IsDefault account then write_accounts (clear_defaults account)
            else db_ret ()) (\<lambda>_.
         db_bind (write_accounts (upsert_account account)) (\<lambda>_. db_ret (Commit account)))))"

definition DeleteAccount :: "string \<Rightarrow> unit dbop" where
  "DeleteAccount aid =
     db_exec (\<lambda>d. ((), d\<lparr>drive_accounts := sql_delete (\<lambda>a. acc_ID a = aid) (drive_accounts d)\<rparr>))"

section \<open>Settings and configuration\<close>

definition upsert_setting :: "string \<Rightarrow> string \<Rightarrow> gotime \<Rightarrow> SettingRow list \<Rightarrow> SettingRow list" where
  "upsert_setting key value now rows =
     (if \<exists>r \<in> set rows. set_Key r = key
      then sql_update (\<lambda>r. set_Key r = key) (\<lambda>r. r\<lparr>set_Value := value, set_UpdatedAt := now\<rparr>) rows
      else rows @ [\<lparr>set_Key = key, set_Value = value, set_UpdatedAt = now\<rparr>])"

definition insert_setting :: "string \<Rightarrow> string \<Rightarrow> gotime \<Rightarrow> unit dbop" where
  "insert_setting key value now =
     db_exec (\<lambda>d. ((), d\<lparr>system_settings := upsert_setting key value now (system_settings d)\<rparr>))"

text \<open>A Go map of rows keyed by their primary key is the association list of the rows.\<close>

definition GetAllSettings :: "(string \<times> string) list dbop" where
  "GetAllSettings = db_query (\<lambda>d. Inr (map (\<lambda>r. (set_Key r, set_Value r)) (system_settings d)))"

definition GetSetting :: "string \<Rightarrow> string dbop" where
  "GetSetting key =
     db_query (\<lambda>d. Inr (case sql_find (\<lambda>r. set_Key r = key) (system_settings d) of
                          None \<Rightarrow> '''' | Some r \<Rightarrow> set_Value r))"

definition SetSetting :: "string \<Rightarrow> string \<Rightarrow> gotime \<Rightarrow> unit dbop" where
  "SetSetting key value now = insert_setting key value now"

text \<open>The account a stored cookie belongs to: the first one in listing order.\<close>

definition first_account :: "DriveAccount list \<Rightarrow> DriveAccount \<Rightarrow> bool" where
  "first_account rows a \<longleftrightarrow>
     (case order_accounts rows of [] \<Rightarrow> False | b # _ \<Rightarrow> acc_ID a = acc_ID b)"

text \<open>The four Chinese characters for a default account, as UTF-8 bytes.\<close>

definition default_account_name :: string where
  "default_account_name = [CHR 0xE9, CHR 0xBB, CHR 0x98, CHR 0xE8, CHR 0xAE, CHR 0xA4,
                           CHR 0xE8, CHR 0xB4, CHR 0xA6, CHR 0xE5, CHR 0x8F, CHR 0xB7]"

definition name_account :: "DriveAccount \<Rightarrow> DriveAccount" where
  "name_account a =
     a\<lparr>acc_Type := (if sql_trim_empty (acc_Type a) then ''115'' else acc_Type a),
       acc_Name := (if sql_trim_empty (acc_Name a) then default_account_name else acc_Name a)\<rparr>"

definition store_cookie :: "string \<Rightarrow> gotime \<Rightarrow> DriveAccount list \<Rightarrow> DriveAccount list" where
  "store_cookie cookie now rows =
     sql_update (first_account rows)
       (\<lambda>a. (name_account a)\<lparr>acc_Cookie := cookie, acc_UpdatedAt := now\<rparr>) rows"

text \<open>\<open>settings\<close> lists the entries of the Go map in the order the loop happens to visit them.\<close>

definition SetSettingsAndDefaultAccountCookie ::
  "(string \<times> string) list \<Rightarrow> string \<Rightarrow> gotime \<Rightarrow> unit dbop" where
  "SetSettingsAndDefaultAccountCookie settings cookie now =
     db_tx (db_bind (db_foreach (\<lambda>kv. insert_setting (fst kv) (snd kv) now) settings) (\<lambda>_.
       db_bind
         (if cookie \<noteq> '''' then write_accounts (store_cookie cookie now)
          else db_ret ()) (\<lambda>_. db_ret (Commit ()))))"

definition SetSettings :: "(string \<times> string) list \<Rightarrow> gotime \<Rightarrow> unit dbop" where
  "SetSettings settings now = SetSettingsAndDefaultAccountCookie settings '''' now"

definition GetConfig :: "string \<Rightarrow> string dbop" where
  "GetConfig key =
     db_bind (db_try (GetSetting key)) (\<lambda>r.
       let stored = db_query (\<lambda>d. Inr (case sql_find (\<lambda>c. cfg_Key c = key) (system_configs d) of
                                    None \<Rightarrow> '''' | Some c \<Rightarrow> cfg_Value c))
       in case r of
            Inr val \<Rightarrow> if val \<noteq> '''' then db_ret val else stored
          | Inl _ \<Rightarrow> stored)"

definition SetConfig :: "string \<Rightarrow> string \<Rightarrow> string \<Rightarrow> gotime \<Rightarrow> unit dbop" where
  "SetConfig key val desc now =
     db_exec (\<lambda>d. ((), d\<lparr>system_configs :=
       (if \<exists>c \<in> set (system_configs d). cfg_Key c = key
        then sql_update (\<lambda>c. cfg_Key c = key)
               (\<lambda>c. c\<lparr>cfg_Value := val, cfg_Description := desc, cfg_UpdatedAt := now\<rparr>) (system_configs d)
        else system_configs d @ [\<lparr>cfg_Key = key, cfg_Value = val, cfg_Description = desc,
               cfg_UpdatedAt = now\<rparr>])\<rparr>))"

definition ListConfigs :: "(string \<times> string) list dbop" where
  "ListConfigs = db_query (\<lambda>d. Inr (map (\<lambda>c. (cfg_Key c, cfg_Value c)) (system_configs d)))"

section \<open>Migration of the account table\<close>

text \<open>
  \<open>migrate\<close> runs these statements on the rows an older version left, which no index constrains
  yet: rows without a type or a name get one, then every default but the most recently updated one
  of each type is cleared, and only then the unique index is created.
\<close>

definition migrate_names :: "SettingRow list \<Rightarrow> DriveAccount list \<Rightarrow> DriveAccount list" where
  "migrate_names settings rows =
     sql_update (\<lambda>a. sql_trim_empty (acc_Type a) \<or> sql_trim_empty (acc_Name a))
       (\<lambda>a. (name_account a)\<lparr>acc_Cookie :=
          (if sql_trim_empty (acc_Type a)
           then (case sql_find (\<lambda>r. set_Key r = ''115_cookie'') settings of
                   Some r \<Rightarrow> if set_Value r \<noteq> '''' then set_Value r else acc_Cookie a
                 | None \<Rightarrow> acc_Cookie a)
           else acc_Cookie a)\<rparr>) rows"

text \<open>
  \<open>COALESCE(updated_at, created_at)\<close>. Every write of the program sets both columns; 0 stands for the NULL of a row
  that something else wrote.
\<close>

definition ranked_at :: "DriveAccount \<Rightarrow> gotime" where
  "ranked_at a = (if acc_UpdatedAt a = 0 then acc_CreatedAt a else acc_UpdatedAt a)"

definition ranked_before :: "DriveAccount \<Rightarrow> DriveAccount \<Rightarrow> bool" where
  "ranked_before b a \<longleftrightarrow> acc_IsDefault b \<and> acc_Type b = acc_Type a \<and>
     (ranked_at a, acc_ID a) < (ranked_at b, acc_ID b)"

definition migrate_defaults :: "DriveAccount list \<Rightarrow> DriveAccount list" where
  "migrate_defaults rows =
     sql_update (\<lambda>a. acc_IsDefault a \<and> (\<exists>b \<in> set rows. ranked_before b a))
       (\<lambda>a. a\<lparr>acc_IsDefault := False\<rparr>) rows"

definition migrate_accounts :: "unit dbop" where
  "migrate_accounts =
     db_bind (db_exec (\<lambda>d. ((), d\<lparr>drive_accounts :=
                migrate_names (system_settings d) (drive_accounts d)\<rparr>))) (\<lambda>_.
     db_bind (db_exec (\<lambda>d. ((), d\<lparr>drive_accounts := migrate_defaults (drive_accounts d)\<rparr>))) (\<lambda>_.
     db_stmt (\<lambda>d. if one_default (drive_accounts d) then Inr ((), d) else Inl ErrConstraint)))"

section \<open>At most one default account per type\<close>

lemma one_default_iff:
  assumes "distinct (map acc_ID rows)"
  shows "one_default rows \<longleftrightarrow> (\<forall>a \<in> set rows. \<forall>b \<in> set rows.
     acc_IsDefault a \<longrightarrow> acc_IsDefault b \<longrightarrow> acc_Type a = acc_Type b \<longrightarrow> a = b)"
proof -
  have "distinct rows" using assms by (simp add: distinct_map)
  then show ?thesis by (auto simp: one_default_def distinct_map inj_on_def)
qed

lemma name_account_simps [simp]:
  "acc_ID (name_account a) = acc_ID a" "acc_IsDefault (name_account a) = acc_IsDefault a"
  by (simp_all add: name_account_def)

lemma ids_clear_defaults [simp]: "map acc_ID (clear_defaults account rows) = map acc_ID rows"
  unfolding clear_defaults_def by (rule map_sql_update) simp

lemma ids_store_cookie [simp]: "map acc_ID (store_cookie cookie now rows) = map acc_ID rows"
  unfolding store_cookie_def by (rule map_sql_update) simp

lemma ids_upsert_account:
  "distinct (map acc_ID rows) \<Longrightarrow> distinct (map acc_ID (upsert_account a rows))"
proof (cases "\<exists>r \<in> set rows. acc_ID r = acc_ID a")
  case True
  have "map acc_ID (sql_update (\<lambda>r. acc_ID r = acc_ID a) (\<lambda>r. a\<lparr>acc_CreatedAt := acc_CreatedAt r\<rparr>) rows) =
      map acc_ID rows"
    by (induction rows) auto
  moreover assume "distinct (map acc_ID rows)"
  ultimately show ?thesis using True by (simp add: upsert_account_def)
qed (auto simp: upsert_account_def)

text \<open>Every write of the table keeps the invariant, as the index enforces it.\<close>

lemma write_accounts_keeps:
  "(\<And>rows. distinct (map acc_ID rows) \<Longrightarrow> distinct (map acc_ID (f rows))) \<Longrightarrow>
   db_keeps accounts_inv (write_accounts f)"
  unfolding write_accounts_def by (rule keeps_rules) (simp add: accounts_inv_def Let_def)

lemma accounts_ops_keep:
  "db_keeps accounts_inv (SaveAccount account now)"
  "db_keeps accounts_inv (DeleteAccount aid)"
  "db_keeps accounts_inv (SetSetting key value now)"
  "db_keeps accounts_inv (SetSettingsAndDefaultAccountCookie settings cookie now)"
  "db_keeps accounts_inv (SetConfig key val desc now)"
proof -
  have same: "accounts_inv d \<Longrightarrow> drive_accounts d' = drive_accounts d \<Longrightarrow> accounts_inv d'" for d d'
    by (simp add: accounts_inv_def)
  show "db_keeps accounts_inv (SaveAccount account now)"
    unfolding SaveAccount_def Let_def
    by (intro keeps_rules write_accounts_keeps) (simp_all add: ids_upsert_account)
  show "db_keeps accounts_inv (DeleteAccount aid)"
    unfolding DeleteAccount_def
  proof (intro keeps_rules)
    fix d assume inv: "accounts_inv d"
    have ids: "distinct (map acc_ID (filter (\<lambda>a. acc_ID a \<noteq> aid) (drive_accounts d)))"
      using inv by (simp add: accounts_inv_def distinct_map_filter)
    from inv have "distinct (map acc_ID (drive_accounts d))" "one_default (drive_accounts d)"
      by (simp_all add: accounts_inv_def)
    with ids show "accounts_inv (snd ((), d\<lparr>drive_accounts := sql_delete (\<lambda>a. acc_ID a = aid) (drive_accounts d)\<rparr>))"
      by (simp add: accounts_inv_def sql_delete_def one_default_iff)
  qed
  show "db_keeps accounts_inv (SetSetting key value now)"
    unfolding SetSetting_def insert_setting_def by (intro keeps_rules) (simp add: accounts_inv_def)
  show "db_keeps accounts_inv (SetSettingsAndDefaultAccountCookie settings cookie now)"
    unfolding SetSettingsAndDefaultAccountCookie_def insert_setting_def
    by (intro keeps_rules write_accounts_keeps) (simp_all add: accounts_inv_def)
  show "db_keeps accounts_inv (SetConfig key val desc now)"
    unfolding SetConfig_def by (intro keeps_rules) (simp add: accounts_inv_def)
qed

text \<open>Saving a default account clears the other default of its type first, so the index lets it through.\<close>

lemma upsert_account_mem:
  "r \<in> set (upsert_account a rows) \<Longrightarrow>
   (r \<in> set rows \<and> acc_ID r \<noteq> acc_ID a) \<or>
   (acc_ID r = acc_ID a \<and> acc_IsDefault r = acc_IsDefault a \<and> acc_Type r = acc_Type a)"
proof (cases "\<exists>r \<in> set rows. acc_ID r = acc_ID a")
  case True
  assume "r \<in> set (upsert_account a rows)"
  with True have "r \<in> set (sql_update (\<lambda>r. acc_ID r = acc_ID a) (\<lambda>r. a\<lparr>acc_CreatedAt := acc_CreatedAt r\<rparr>) rows)"
    by (simp add: upsert_account_def)
  then obtain r0 where "r0 \<in> set rows"
    "r = (if acc_ID r0 = acc_ID a then a\<lparr>acc_CreatedAt := acc_CreatedAt r0\<rparr> else r0)" by (rule sql_updateE)
  then show ?thesis by (cases "acc_ID r0 = acc_ID a") simp_all
next
  case False
  assume "r \<in> set (upsert_account a rows)"
  with False have "r \<in> set rows \<or> r = a" by (auto simp: upsert_account_def)
  with False show ?thesis by auto
qed

lemma save_keeps_one_default:
  assumes inv: "distinct (map acc_ID rows)" "one_default rows"
    and cleared: "acc_IsDefault a \<Longrightarrow> \<forall>r \<in> set rows. acc_Type r = acc_Type a \<longrightarrow> acc_ID r \<noteq> acc_ID a \<longrightarrow> \<not> acc_IsDefault r"
  shows "one_default (upsert_account a rows)"
proof -
  let ?new = "upsert_account a rows"
  have ids: "distinct (map acc_ID ?new)" by (rule ids_upsert_account [OF inv(1)])
  have "x = y" if x: "x \<in> set ?new" and y: "y \<in> set ?new" and d: "acc_IsDefault x" "acc_IsDefault y"
    "acc_Type x = acc_Type y" for x y
  proof (cases "acc_ID x = acc_ID y")
    case True
    with ids x y show ?thesis by (auto dest: distinct_key_eq)
  next
    case False
    from upsert_account_mem [OF x] upsert_account_mem [OF y] False d cleared inv(2)
    show ?thesis unfolding one_default_iff [OF inv(1)] by metis
  qed
  then show ?thesis unfolding one_default_iff [OF ids] by blast
qed

lemma clear_defaults_props:
  assumes "distinct (map acc_ID rows)" "one_default rows"
  shows "one_default (clear_defaults a rows)"
    and "r \<in> set (clear_defaults a rows) \<Longrightarrow> acc_Type r = acc_Type a \<Longrightarrow> acc_ID r \<noteq> acc_ID a \<Longrightarrow> \<not> acc_IsDefault r"
proof -
  let ?p = "\<lambda>x. acc_Type x = acc_Type a \<and> acc_ID x \<noteq> acc_ID a"
  have mem: "(\<not> ?p x \<and> x \<in> set rows) \<or> \<not> acc_IsDefault x" if x: "x \<in> set (clear_defaults a rows)" for x
    using x unfolding clear_defaults_def by (auto elim!: sql_updateE split: if_splits)
  have ids: "distinct (map acc_ID (clear_defaults a rows))" using assms(1) by simp
  show "one_default (clear_defaults a rows)"
    unfolding one_default_iff [OF ids] using mem assms(2) unfolding one_default_iff [OF assms(1)] by blast
  show "\<not> acc_IsDefault r" if "r \<in> set (clear_defaults a rows)" "acc_Type r = acc_Type a" "acc_ID r \<noteq> acc_ID a"
    using mem [OF that(1)] that by blast
qed

lemma SaveAccount_eval:
  assumes inv: "accounts_inv d"
    and fields: "acc_ID a \<noteq> ''''" "acc_Type a \<noteq> ''''" "acc_Name a \<noteq> ''''"
    and stored: "stored = a\<lparr>acc_CreatedAt := (if acc_CreatedAt a = 0 then now else acc_CreatedAt a),
                              acc_UpdatedAt := now\<rparr>"
  shows "SaveAccount a now [] d = (Inr stored, [], d\<lparr>drive_accounts := upsert_account stored
     (if acc_IsDefault a then clear_defaults stored (drive_accounts d) else drive_accounts d)\<rparr>)"
proof -
  let ?rows = "drive_accounts d"
  from inv have ids: "distinct (map acc_ID ?rows)" and one: "one_default ?rows"
    by (simp_all add: accounts_inv_def)
  have def': "acc_IsDefault stored = acc_IsDefault a" by (simp add: stored)
  show ?thesis
  proof (cases "acc_IsDefault a")
    case True
    let ?mid = "clear_defaults stored ?rows"
    have "one_default (upsert_account stored ?mid)"
      by (rule save_keeps_one_default) (use ids one clear_defaults_props in auto)
    with True clear_defaults_props(1) [OF ids one] fields show ?thesis
      by (simp add: SaveAccount_def stored [symmetric] write_accounts_def db_tx_def db_bind_def
          db_stmt_def db_ret_def Let_def def')
  next
    case False
    have "one_default (upsert_account stored ?rows)"
      by (rule save_keeps_one_default [OF ids one]) (use False def' in simp)
    with False fields show ?thesis
      by (simp add: SaveAccount_def stored [symmetric] write_accounts_def db_tx_def db_bind_def
          db_stmt_def db_ret_def Let_def def')
  qed
qed

section \<open>Histories of the account table\<close>

datatype account_op =
    ASave DriveAccount gotime
  | ADelete string
  | ASetting string string gotime
  | ASettings "(string \<times> string) list" string gotime
  | AConfig string string string gotime

fun account_op_state :: "account_op \<Rightarrow> bool list \<Rightarrow> db \<Rightarrow> db" where
  "account_op_state (ASave a now) fs d = db_state (SaveAccount a now fs d)"
| "account_op_state (ADelete aid) fs d = db_state (DeleteAccount aid fs d)"
| "account_op_state (ASetting k v now) fs d = db_state (SetSetting k v now fs d)"
| "account_op_state (ASettings kvs cookie now) fs d =
     db_state (SetSettingsAndDefaultAccountCookie kvs cookie now fs d)"
| "account_op_state (AConfig k v desc now) fs d = db_state (SetConfig k v desc now fs d)"

fun run_account_ops :: "(account_op \<times> bool list) list \<Rightarrow> db \<Rightarrow> db" where
  "run_account_ops [] d = d"
| "run_account_ops (e # ops) d = run_account_ops ops (account_op_state (fst e) (snd e) d)"

lemma account_op_keeps: "accounts_inv d \<Longrightarrow> accounts_inv (account_op_state op fs d)"
  using accounts_ops_keep [THEN db_keepsD] by (cases op) simp_all

lemma migrate_names_ids: "map acc_ID (migrate_names settings rows) = map acc_ID rows"
  unfolding migrate_names_def by (rule map_sql_update) simp

lemma migrate_defaults_one:
  assumes ids: "distinct (map acc_ID rows)"
  shows "one_default (migrate_defaults rows)"
    and "a \<in> set rows \<Longrightarrow> acc_IsDefault a \<Longrightarrow>
         \<exists>b \<in> set (migrate_defaults rows). acc_IsDefault b \<and> acc_Type b = acc_Type a"
proof -
  let ?p = "\<lambda>a. acc_IsDefault a \<and> (\<exists>b \<in> set rows. ranked_before b a)"
  have keys: "map acc_ID (migrate_defaults rows) = map acc_ID rows"
    unfolding migrate_defaults_def by (rule map_sql_update) simp
  have mem: "a \<in> set rows \<and> \<not> ?p a" if "a \<in> set (migrate_defaults rows)" "acc_IsDefault a" for a
    using that unfolding migrate_defaults_def by (auto elim!: sql_updateE split: if_splits)
  have ids': "distinct (map acc_ID (migrate_defaults rows))" using ids keys by simp
  have "a = b" if ab: "a \<in> set (migrate_defaults rows)" "b \<in> set (migrate_defaults rows)"
    "acc_IsDefault a" "acc_IsDefault b" "acc_Type a = acc_Type b" for a b
  proof -
    from mem [OF ab(1,3)] mem [OF ab(2,4)] have in': "a \<in> set rows" "b \<in> set rows"
      and no: "\<not> ?p a" "\<not> ?p b" by blast+
    have "\<not> ranked_before b a" "\<not> ranked_before a b" using no in' ab(3,4) by blast+
    then have "(ranked_at a, acc_ID a) = (ranked_at b, acc_ID b)"
      using ab less_linear [of "(ranked_at a, acc_ID a)" "(ranked_at b, acc_ID b)"]
      unfolding ranked_before_def by auto
    then have "acc_ID a = acc_ID b" by simp
    with ids in' show ?thesis by (auto dest: distinct_key_eq)
  qed
  then show "one_default (migrate_defaults rows)" unfolding one_default_iff [OF ids'] by blast
  assume a: "a \<in> set rows" "acc_IsDefault a"
  let ?S = "{b \<in> set rows. acc_IsDefault b \<and> acc_Type b = acc_Type a}"
  let ?k = "\<lambda>b. (ranked_at b, acc_ID b)"
  have fin: "finite (?k ` ?S)" "?k ` ?S \<noteq> {}" using a by auto
  obtain b where b: "b \<in> ?S" "?k b = Max (?k ` ?S)" using Max_in [OF fin] by (metis (no_types, lifting) imageE)
  have "\<not> ?p b"
  proof
    assume "?p b"
    then obtain c where c: "c \<in> set rows" "ranked_before c b" by blast
    then have "c \<in> ?S" using b(1) by (simp add: ranked_before_def)
    then have "?k c \<le> ?k b" unfolding b(2) using fin(1) by (intro Max_ge) auto
    with c(2) show False by (auto simp: ranked_before_def)
  qed
  then have "b \<in> set (migrate_defaults rows)"
    using b(1) unfolding migrate_defaults_def set_sql_update by blast
  with b(1) show "\<exists>b \<in> set (migrate_defaults rows). acc_IsDefault b \<and> acc_Type b = acc_Type a" by blast
qed

lemma upsert_setting_lookup:
  "map_of (map (\<lambda>r. (set_Key r, set_Value r)) (upsert_setting key value now rows)) =
   (map_of (map (\<lambda>r. (set_Key r, set_Value r)) rows))(key \<mapsto> value)"
proof (cases "\<exists>r \<in> set rows. set_Key r = key")
  case True
  then show ?thesis
  proof (induction rows)
    case (Cons r rows)
    have none: "map_of (map (\<lambda>r. (set_Key r, set_Value r)) (sql_update (\<lambda>r. set_Key r = key)
        (\<lambda>r. r\<lparr>set_Value := value, set_UpdatedAt := now\<rparr>) rs)) k =
        (if k = key \<and> key \<in> set_Key ` set rs then Some value
         else map_of (map (\<lambda>r. (set_Key r, set_Value r)) rs) k)" for rs k
      by (induction rs) auto
    show ?case using Cons.prems by (auto simp: upsert_setting_def none fun_eq_iff)
  qed simp
next
  case False
  then have "map_of (map (\<lambda>r. (set_Key r, set_Value r)) rows) key = None"
    by (auto simp: map_of_eq_None_iff)
  with False show ?thesis by (auto simp: upsert_setting_def map_add_def fun_eq_iff split: option.splits)
qed

definition setting_map :: "db \<Rightarrow> string \<Rightarrow> string option" where
  "setting_map d = map_of (map (\<lambda>r. (set_Key r, set_Value r)) (system_settings d))"

lemma GetSetting_map: "db_result (GetSetting key [] d) = Inr (case setting_map d key of None \<Rightarrow> '''' | Some v \<Rightarrow> v)"
proof -
  have "(case sql_find (\<lambda>r. set_Key r = key) rows of None \<Rightarrow> '''' | Some r \<Rightarrow> set_Value r) =
      (case map_of (map (\<lambda>r. (set_Key r, set_Value r)) rows) key of None \<Rightarrow> '''' | Some v \<Rightarrow> v)" for rows
    by (induction rows) (auto simp: sql_find_def)
  then show ?thesis by (simp add: GetSetting_def db_query_eval setting_map_def)
qed

lemma insert_settings_eval:
  "db_foreach (\<lambda>kv. insert_setting (fst kv) (snd kv) now) kvs [] d =
     (Inr (), [], d\<lparr>system_settings := foldl (\<lambda>rows kv. upsert_setting (fst kv) (snd kv) now rows) (system_settings d) kvs\<rparr>)"
  by (induction kvs arbitrary: d) (simp_all add: db_bind_def insert_setting_def db_exec_eval db_ret_eval)

lemma setting_map_foldl:
  assumes "distinct (map fst kvs)"
  shows "map_of (map (\<lambda>r. (set_Key r, set_Value r)) (foldl (\<lambda>rows kv. upsert_setting (fst kv) (snd kv) now rows) rows kvs)) =
     map_of (map (\<lambda>r. (set_Key r, set_Value r)) rows) ++ map_of kvs"
  using assms
proof (induction kvs arbitrary: rows)
  case (Cons kv kvs)
  obtain k v where kv: "kv = (k, v)" by (cases kv)
  with Cons.prems have "map_of kvs k = None" by (simp add: map_of_eq_None_iff)
  then have "m(k \<mapsto> v) ++ map_of kvs = m ++ map_of (kv # kvs)" for m :: "string \<Rightarrow> string option"
    by (auto simp: map_add_def fun_eq_iff kv split: option.splits)
  moreover have "map_of (map (\<lambda>r. (set_Key r, set_Value r)) (foldl (\<lambda>rows kv. upsert_setting (fst kv) (snd kv) now rows)
      rows (kv # kvs))) = (map_of (map (\<lambda>r. (set_Key r, set_Value r)) rows))(k \<mapsto> v) ++ map_of kvs"
    using Cons by (simp add: kv upsert_setting_lookup del: fun_upd_apply)
  ultimately show ?case by metis
qed simp

lemma SetSettings_db_safe:
  "db_det (SetSettingsAndDefaultAccountCookie kvs cookie now)"
  "db_safe (SetSettingsAndDefaultAccountCookie kvs cookie now)"
  unfolding SetSettingsAndDefaultAccountCookie_def insert_setting_def write_accounts_def
  by (auto intro!: db_rules)

lemma SaveAccount_db_safe: "db_det (SaveAccount a now)" "db_safe (SaveAccount a now)"
  unfolding SaveAccount_def write_accounts_def Let_def by (auto intro!: db_rules)

interpretation settings_op: db_invariant_operation "SetSettingsAndDefaultAccountCookie kvs cookie now" accounts_inv
  for kvs cookie now
  by unfold_locales (rule SetSettings_db_safe | erule db_keepsD [OF accounts_ops_keep(4)])+

interpretation save_account_op: db_invariant_operation "SaveAccount a now" accounts_inv for a now
  by unfold_locales (rule SaveAccount_db_safe | erule db_keepsD [OF accounts_ops_keep(1)])+

section \<open>Properties\<close>

text \<open>
  C17. One default account per type: the migration establishes it for whatever rows an older
  version left (keeping a default for each type that had one), and every history of account and
  setting operations, with driver faults anywhere, keeps it.
\<close>

theorem default_account_unique:
  assumes "distinct (map acc_ID (drive_accounts d))"
    and "d' = db_state (migrate_accounts [] d)"
  shows "db_result (migrate_accounts [] d) = Inr () \<and>
    accounts_inv (run_account_ops ops d') \<and>
    (\<forall>a \<in> set (migrate_names (system_settings d) (drive_accounts d)). acc_IsDefault a \<longrightarrow>
       (\<exists>b \<in> set (drive_accounts d'). acc_IsDefault b \<and> acc_Type b = acc_Type a))"
proof -
  let ?named = "migrate_names (system_settings d) (drive_accounts d)"
  have ids: "distinct (map acc_ID ?named)" using assms(1) by (simp add: migrate_names_ids)
  note m = migrate_defaults_one [OF ids]
  have eval: "migrate_accounts [] d = (Inr (), [], d\<lparr>drive_accounts := migrate_defaults ?named\<rparr>)"
    using m(1) by (simp add: migrate_accounts_def db_bind_def db_exec_eval db_stmt_eval)
  have "map acc_ID (migrate_defaults ?named) = map acc_ID ?named"
    unfolding migrate_defaults_def by (rule map_sql_update) simp
  then have inv: "accounts_inv d'" using m(1) ids by (simp add: assms(2) eval accounts_inv_def)
  have "accounts_inv (run_account_ops ops e)" if "accounts_inv e" for e
    using that by (induction ops arbitrary: e) (simp_all add: account_op_keeps)
  with inv m(2) show ?thesis by (simp add: assms(2) eval)
qed

text \<open>
  Making an account the default works and is exclusive: saving a complete account as default
  succeeds, stores it as given under the time of the save, and leaves it the only default account
  of its type.
\<close>

theorem save_default_account:
  assumes "accounts_inv d" "acc_ID a \<noteq> ''''" "acc_Type a \<noteq> ''''" "acc_Name a \<noteq> ''''" "acc_IsDefault a"
    and "d' = db_state (SaveAccount a now [] d)"
  shows "(\<exists>stored. db_result (SaveAccount a now [] d) = Inr stored) \<and>
    (\<exists>b \<in> set (drive_accounts d'). acc_ID b = acc_ID a \<and> acc_IsDefault b \<and> acc_Type b = acc_Type a \<and>
       acc_Cookie b = acc_Cookie a \<and> acc_Token b = acc_Token a \<and> acc_UpdatedAt b = now) \<and>
    (\<forall>b \<in> set (drive_accounts d'). acc_Type b = acc_Type a \<longrightarrow> acc_IsDefault b \<longrightarrow> acc_ID b = acc_ID a)"
proof -
  define stored where "stored = a\<lparr>acc_CreatedAt := (if acc_CreatedAt a = 0 then now else acc_CreatedAt a),
                              acc_UpdatedAt := now\<rparr>"
  note eval = SaveAccount_eval [OF assms(1-4) stored_def]
  let ?mid = "clear_defaults stored (drive_accounts d)"
  have rows: "drive_accounts d' = upsert_account stored ?mid" using assms(5) by (simp add: assms(6) eval)
  have inv: "distinct (map acc_ID (drive_accounts d'))" "one_default (drive_accounts d')"
    using SaveAccount_db_safe db_keepsD [OF accounts_ops_keep(1) assms(1), of a now "[]"]
    by (simp_all add: assms(6) accounts_inv_def)
  have "\<exists>c. stored\<lparr>acc_CreatedAt := c\<rparr> \<in> set (upsert_account stored ?mid)"
  proof (cases "\<exists>r \<in> set ?mid. acc_ID r = acc_ID stored")
    case True
    then obtain r where "r \<in> set ?mid" "acc_ID r = acc_ID stored" by blast
    then show ?thesis by (auto simp: upsert_account_def set_sql_update)
  next
    case False
    have "stored\<lparr>acc_CreatedAt := acc_CreatedAt stored\<rparr> = stored" by simp
    with False show ?thesis by (metis upsert_account_def in_set_conv_decomp)
  qed
  then obtain c where c: "stored\<lparr>acc_CreatedAt := c\<rparr> \<in> set (drive_accounts d')" unfolding rows by blast
  have "acc_ID b = acc_ID a"
    if "b \<in> set (drive_accounts d')" "acc_Type b = acc_Type a" "acc_IsDefault b" for b
    using inv(2) c that assms(5) unfolding one_default_iff [OF inv(1)]
    by (auto simp: stored_def)
  moreover have "\<exists>b \<in> set (drive_accounts d'). acc_ID b = acc_ID a \<and> acc_IsDefault b \<and> acc_Type b = acc_Type a \<and>
       acc_Cookie b = acc_Cookie a \<and> acc_Token b = acc_Token a \<and> acc_UpdatedAt b = now"
    using assms(5) by (intro bexI [OF _ c]) (simp add: stored_def)
  moreover have "\<exists>stored. db_result (SaveAccount a now [] d) = Inr stored" by (simp add: eval)
  ultimately show ?thesis by blast
qed

text \<open>
  Settings are written all or nothing: whatever statement fails, the database is unchanged, or
  every entry of the map reads back and every other setting reads as before, in whatever order the
  loop visited the map.
\<close>

theorem settings_all_or_nothing:
  assumes "distinct (map fst kvs)" "d' = db_state (SetSettings kvs now fs d)"
  shows "d' = d \<and> (\<exists>e. db_result (SetSettings kvs now fs d) = Inl e) \<or>
    (\<forall>key. db_result (GetSetting key [] d') =
       (case map_of kvs key of Some v \<Rightarrow> Inr v | None \<Rightarrow> db_result (GetSetting key [] d)))"
proof -
  have eval: "db_state (SetSettings kvs now [] d) = d\<lparr>system_settings :=
      foldl (\<lambda>rows kv. upsert_setting (fst kv) (snd kv) now rows) (system_settings d) kvs\<rparr>"
    by (simp add: SetSettings_def SetSettingsAndDefaultAccountCookie_def db_tx_def db_bind_def
        insert_settings_eval db_ret_def)
  have "setting_map (db_state (SetSettings kvs now [] d)) = setting_map d ++ map_of kvs"
    using setting_map_foldl [OF assms(1)] by (simp add: setting_map_def eval)
  then have read: "\<forall>key. db_result (GetSetting key [] (db_state (SetSettings kvs now [] d))) =
      (case map_of kvs key of Some v \<Rightarrow> Inr v | None \<Rightarrow> db_result (GetSetting key [] d))"
    by (simp add: GetSetting_map map_add_def split: option.splits)
  from settings_op.atomic [of kvs "''''" now fs d] read show ?thesis
    unfolding assms(2) SetSettings_def by auto
qed

definition example_account :: "string \<Rightarrow> bool \<Rightarrow> DriveAccount" where
  "example_account aid def' = \<lparr>acc_ID = aid, acc_Type = ''115'', acc_Name = ''main'', acc_Cookie = ''UID=1'',
     acc_Token = '''', acc_IsDefault = def', acc_Status = ''active'', acc_QuotaUsed = 0, acc_QuotaTotal = 0,
     acc_VIPLevel = 0, acc_VIPExpiresAt = None, acc_CreatedAt = 3, acc_UpdatedAt = 3\<rparr>"

theorem default_account_unique_witness:
  "accounts_inv (run_account_ops [(ASave (example_account ''c'' True) 9, [])]
     (db_state (migrate_accounts [] (empty_db\<lparr>drive_accounts :=
        [example_account ''a'' True, example_account ''b'' True]\<rparr>))))"
proof -
  have "distinct (map acc_ID (drive_accounts (empty_db\<lparr>drive_accounts :=
      [example_account ''a'' True, example_account ''b'' True]\<rparr>)))"
    by (simp add: example_account_def)
  from default_account_unique [OF this refl] show ?thesis by blast
qed

theorem save_default_account_witness:
  "\<exists>b \<in> set (drive_accounts (db_state (SaveAccount (example_account ''b'' True) 9 []
       (empty_db\<lparr>drive_accounts := [example_account ''a'' True]\<rparr>)))). acc_ID b = ''b'' \<and> acc_IsDefault b"
proof -
  have "accounts_inv (empty_db\<lparr>drive_accounts := [example_account ''a'' True]\<rparr>)"
    by (simp add: accounts_inv_def one_default_def)
  from save_default_account [OF this _ _ _ _ refl, of "example_account ''b'' True" 9] show ?thesis
    by (auto simp: example_account_def)
qed

theorem settings_all_or_nothing_witness:
  "db_result (GetSetting ''b'' [] (db_state (SetSettings [(''a'', ''1''), (''b'', ''2'')] 9 [] empty_db))) = Inr ''2'' \<and>
   db_state (SetSettings [(''a'', ''1''), (''b'', ''2'')] 9 [False, False, True] empty_db) = empty_db"
proof -
  have k: "distinct (map fst [(''a'', ''1''), (''b'', ''2'')])" by simp
  have "db_result (SetSettings [(''a'', ''1''), (''b'', ''2'')] 9 [] empty_db) = Inr ()"
    by (simp add: SetSettings_def SetSettingsAndDefaultAccountCookie_def db_tx_def db_bind_def
        insert_setting_def db_exec_def db_stmt_def db_ret_def)
  moreover have "db_state (SetSettings [(''a'', ''1''), (''b'', ''2'')] 9 [False, False, True] empty_db) = empty_db"
    by (simp add: SetSettings_def SetSettingsAndDefaultAccountCookie_def db_tx_def db_bind_def
        insert_setting_def db_exec_def db_stmt_def db_ret_def)
  ultimately show ?thesis
    using settings_all_or_nothing [OF k refl, of 9 "[]" empty_db] by auto
qed

end
