(* ===== verification/GoHash.thy ===== *)
theory GoHash
  imports GoPrelude "HOL-Library.Word"
begin

unbundle bit_operations_syntax

text \<open>
  The two hash functions of the Go standard library the program uses, on byte strings:
  \<open>crypto/sha1\<close> (content digests of transferred files) and \<open>crypto/sha256\<close> (token digests),
  with \<open>hex.EncodeToString\<close>. They are executable and agree with the published test vectors; no
  property rests on more than that they are functions of their input.
\<close>

type_synonym w32 = "32 word"

definition byte_word :: "char \<Rightarrow> w32" where
  "byte_word c = word_of_nat (of_char c)"

definition rotl :: "nat \<Rightarrow> w32 \<Rightarrow> w32" where
  "rotl n x = (push_bit n x) OR (drop_bit (32 - n) x)"

definition rotr :: "nat \<Rightarrow> w32 \<Rightarrow> w32" where
  "rotr n x = (drop_bit n x) OR (push_bit (32 - n) x)"

fun be_words :: "string \<Rightarrow> w32 list" where
  "be_words (a # b # c # d # s) =
     ((push_bit 24 (byte_word a)) OR (push_bit 16 (byte_word b)) OR (push_bit 8 (byte_word c)) OR byte_word d)
     # be_words s"
| "be_words _ = []"

definition be_bytes64 :: "nat \<Rightarrow> string" where
  "be_bytes64 n = map (\<lambda>k. char_of (n div 256 ^ k)) [7, 6, 5, 4, 3, 2, 1, 0]"

text \<open>Padding: the bit 1, zeros up to 56 bytes modulo 64, and the length in bits.\<close>

definition pad_message :: "string \<Rightarrow> string" where
  "pad_message s =
     s @ [CHR 0x80] @ replicate ((119 - length s mod 64) mod 64) (CHR 0x00) @ be_bytes64 (8 * length s)"

fun chunks16 :: "nat \<Rightarrow> w32 list \<Rightarrow> w32 list list" where
  "chunks16 0 ws = []"
| "chunks16 (Suc n) ws = take 16 ws # chunks16 n (drop 16 ws)"

definition blocks :: "string \<Rightarrow> w32 list list" where
  "blocks s = (let ws = be_words (pad_message s) in chunks16 (length ws div 16) ws)"

definition hex_digit :: "nat \<Rightarrow> char" where
  "hex_digit n = (if n < 10 then char_of (48 + n) else char_of (87 + n))"

definition hex_word :: "w32 \<Rightarrow> string" where
  "hex_word w = map (\<lambda>k. hex_digit (unat (drop_bit (4 * k) w) mod 16)) [7, 6, 5, 4, 3, 2, 1, 0]"

section \<open>SHA-1\<close>

fun expand1 :: "nat \<Rightarrow> w32 list \<Rightarrow> w32 list" where
  "expand1 0 ws = ws"
| "expand1 (Suc n) ws =
     expand1 n (ws @ [rotl 1 ((ws ! (length ws - 3)) XOR (ws ! (length ws - 8)) XOR
                              (ws ! (length ws - 14)) XOR (ws ! (length ws - 16)))])"

definition round1 :: "nat \<Rightarrow> w32 \<Rightarrow> w32 \<times> w32 \<times> w32 \<times> w32 \<times> w32 \<Rightarrow> w32 \<times> w32 \<times> w32 \<times> w32 \<times> w32" where
  "round1 t w = (\<lambda>(a, b, c, d, e).
     let (f, k) = (if t < 20 then ((b AND c) OR (NOT b AND d), 0x5A827999)
                   else if t < 40 then (b XOR c XOR d, 0x6ED9EBA1)
                   else if t < 60 then ((b AND c) OR (b AND d) OR (c AND d), 0x8F1BBCDC)
                   else (b XOR c XOR d, 0xCA62C1D6))
     in (rotl 5 a + f + e + k + w, a, rotl 30 b, c, d))"

fun rounds1 :: "nat \<Rightarrow> w32 list \<Rightarrow> w32 \<times> w32 \<times> w32 \<times> w32 \<times> w32 \<Rightarrow> w32 \<times> w32 \<times> w32 \<times> w32 \<times> w32" where
  "rounds1 t [] st = st"
| "rounds1 t (w # ws) st = rounds1 (Suc t) ws (round1 t w st)"

definition block1 :: "w32 \<times> w32 \<times> w32 \<times> w32 \<times> w32 \<Rightarrow> w32 list \<Rightarrow> w32 \<times> w32 \<times> w32 \<times> w32 \<times> w32" where
  "block1 h ws = (case h of (a, b, c, d, e) \<Rightarrow>
     case rounds1 0 (expand1 64 ws) h of (a', b', c', d', e') \<Rightarrow>
       (a + a', b + b', c + c', d + d', e + e'))"

definition sha1_hex :: "string \<Rightarrow> string" where
  "sha1_hex s =
     (case foldl block1 (0x67452301, 0xEFCDAB89, 0x98BADCFE, 0x10325476, 0xC3D2E1F0) (blocks s) of
        (a, b, c, d, e) \<Rightarrow> hex_word a @ hex_word b @ hex_word c @ hex_word d @ hex_word e)"

section \<open>SHA-256\<close>

text \<open>
  The round constants are the first 32 bits of the fractional parts of the cube roots of the
  first 64 primes: \<open>cube_root_bits b 0 n\<close> is the integer cube root of \<open>n\<close>, bit by bit.
\<close>

fun cube_root_bits :: "nat \<Rightarrow> nat \<Rightarrow> nat \<Rightarrow> nat" where
  "cube_root_bits 0 r n = r"
| "cube_root_bits (Suc b) r n =
     cube_root_bits b (if (r + 2 ^ b) ^ 3 \<le> n then r + 2 ^ b else r) n"

definition k256 :: "w32 list" where
  "k256 = map (\<lambda>p. of_nat (cube_root_bits 36 0 (p * 2 ^ 96)))
            (filter (\<lambda>p. list_all (\<lambda>d. p mod d \<noteq> 0) [2..<p]) [2..<312])"

fun expand256 :: "nat \<Rightarrow> w32 list \<Rightarrow> w32 list" where
  "expand256 0 ws = ws"
| "expand256 (Suc n) ws =
     (let x = ws ! (length ws - 15); y = ws ! (length ws - 2);
          s0 = rotr 7 x XOR rotr 18 x XOR drop_bit 3 x;
          s1 = rotr 17 y XOR rotr 19 y XOR drop_bit 10 y
      in expand256 n (ws @ [ws ! (length ws - 16) + s0 + ws ! (length ws - 7) + s1]))"

type_synonym st256 = "w32 \<times> w32 \<times> w32 \<times> w32 \<times> w32 \<times> w32 \<times> w32 \<times> w32"

definition round256 :: "w32 \<Rightarrow> w32 \<Rightarrow> st256 \<Rightarrow> st256" where
  "round256 k w = (\<lambda>(a, b, c, d, e, f, g, h).
     let t1 = h + (rotr 6 e XOR rotr 11 e XOR rotr 25 e) + ((e AND f) XOR (NOT e AND g)) + k + w;
         t2 = (rotr 2 a XOR rotr 13 a XOR rotr 22 a) + ((a AND b) XOR (a AND c) XOR (b AND c))
     in (t1 + t2, a, b, c, d + t1, e, f, g))"

fun rounds256 :: "w32 list \<Rightarrow> w32 list \<Rightarrow> st256 \<Rightarrow> st256" where
  "rounds256 (k # ks) (w # ws) st = rounds256 ks ws (round256 k w st)"
| "rounds256 _ _ st = st"

definition block256 :: "st256 \<Rightarrow> w32 list \<Rightarrow> st256" where
  "block256 st ws = (case st of (a, b, c, d, e, f, g, h) \<Rightarrow>
     case rounds256 k256 (expand256 48 ws) st of (a', b', c', d', e', f', g', h') \<Rightarrow>
       (a + a', b + b', c + c', d + d', e + e', f + f', g + g', h + h'))"

definition sha256_hex :: "string \<Rightarrow> string" where
  "sha256_hex s =
     (case foldl block256 (0x6a09e667, 0xbb67ae85, 0x3c6ef372, 0xa54ff53a, 0x510e527f, 0x9b05688c,
                           0x1f83d9ab, 0x5be0cd19) (blocks s) of
        (a, b, c, d, e, f, g, h) \<Rightarrow> hex_word a @ hex_word b @ hex_word c @ hex_word d @
                                    hex_word e @ hex_word f @ hex_word g @ hex_word h)"

section \<open>Shape of the digests\<close>

definition hex_chars :: "char set" where
  "hex_chars = set ''0123456789abcdef''"

lemma hex_digit_mem: "n < 16 \<Longrightarrow> hex_digit n \<in> hex_chars"
proof -
  assume "n < 16"
  then have "n \<in> set [0..<16]" by simp
  moreover have "\<forall>n \<in> set [0..<16]. hex_digit n \<in> hex_chars"
    by code_simp
  ultimately show ?thesis by blast
qed

lemma length_hex_word [simp]: "length (hex_word w) = 8"
  by (simp add: hex_word_def)

lemma set_hex_word: "set (hex_word w) \<subseteq> hex_chars"
  by (auto simp: hex_word_def intro: hex_digit_mem)

lemma length_sha1_hex [simp]: "length (sha1_hex s) = 40"
  by (simp add: sha1_hex_def split: prod.split)

lemma set_sha1_hex: "set (sha1_hex s) \<subseteq> hex_chars"
  using set_hex_word unfolding sha1_hex_def by (auto split: prod.split)

lemma length_sha256_hex [simp]: "length (sha256_hex s) = 64"
  by (simp add: sha256_hex_def split: prod.split)

end
