(* ===== verification/AccessStore.thy ===== *)
theory AccessStore
  imports TaskStore GoHash "HOL-Library.Multiset"
begin

text \<open>
  Agent tokens and the audit log: the tables of \<open>internal/storage/sqlite.go\<close>, the audit query of
  \<open>internal/storage/audit_query.go\<close>, and \<open>AgentAuthorizer\<close> of \<open>internal/security/token.go\<close>, which
  authenticates a token by its digest, checks its scope and throttles it. The facts: what an
  admitted request proves about the token, in which order a request is refused and that refused requests
  can be struck from a history without a trace, the bound the throttle enforces, and that the pages of the audit query
  partition the matching records that its totals count.
\<close>

section \<open>Tokens\<close>

definition ListTokens :: "AgentToken list dbop" where
  "ListTokens = db_query (\<lambda>d. Inr (rev (sort_key tok_CreatedAt (agent_tokens d))))"

definition upsert_token :: "AgentToken \<Rightarrow> AgentToken list \<Rightarrow> AgentToken list" where
  "upsert_token token rows =
     (if \<exists>t \<in> set rows. tok_ID t = tok_ID token
      then sql_update (\<lambda>t. tok_ID t = tok_ID token) (\<lambda>t. token\<lparr>tok_CreatedAt := tok_CreatedAt t\<rparr>) rows
      else rows @ [token])"

definition SaveToken :: "AgentToken \<Rightarrow> gotime \<Rightarrow> unit dbop" where
  "SaveToken token0 now =
     (let token = token0\<lparr>tok_CreatedAt := (if tok_CreatedAt token0 = 0 then now else tok_CreatedAt token0)\<rparr> in
      db_stmt (\<lambda>d. let rows = upsert_token token (agent_tokens d) in
        if distinct (map tok_Token rows) then Inr ((), d\<lparr>agent_tokens := rows\<rparr>)
        else Inl ErrConstraint))"

definition GetTokenByDigest :: "string \<Rightarrow> AgentToken dbop" where
  "GetTokenByDigest digest =
     db_query (\<lambda>d. case sql_find (\<lambda>t. tok_Token t = digest) (agent_tokens d) of
                     None \<Rightarrow> Inl ErrNoRows | Some t \<Rightarrow> Inr t)"

definition TouchToken :: "string \<Rightarrow> gotime \<Rightarrow> unit dbop" where
  "TouchToken tid usedAt =
     db_exec (\<lambda>d. ((), d\<lparr>agent_tokens := sql_update (\<lambda>t. tok_ID t = tid)
                          (\<lambda>t. t\<lparr>tok_LastUsedAt := Some usedAt\<rparr>) (agent_tokens d)\<rparr>))"

definition DeleteToken :: "string \<Rightarrow> bool dbop" where
  "DeleteToken tid =
     db_exec (\<lambda>d. (sql_count (\<lambda>t. tok_ID t = tid) (agent_tokens d) > 0,
                   d\<lparr>agent_tokens := sql_delete (\<lambda>t. tok_ID t = tid) (agent_tokens d)\<rparr>))"

section \<open>The audit log\<close>

definition AddAuditLog :: "AuditLog \<Rightarrow> gotime \<Rightarrow> nat dbop" where
  "AddAuditLog entry now =
     db_exec (\<lambda>d. let newID = Suc (agent_audit_logs_seq d) in
       (newID, d\<lparr>agent_audit_logs := agent_audit_logs d @
            [entry\<lparr>log_ID := newID,
                   log_CreatedAt := (if log_CreatedAt entry = 0 then now else log_CreatedAt entry)\<rparr>],
            agent_audit_logs_seq := newID\<rparr>))"

definition ListAuditLogs :: "int \<Rightarrow> AuditLog list dbop" where
  "ListAuditLogs limit =
     db_query (\<lambda>d. Inr (take (if limit \<le> 0 then 100 else nat limit)
                          (rev (sort_key log_ID (agent_audit_logs d)))))"

record AuditQuery =
  q_Limit :: int
  q_Offset :: int
  q_Protocol :: string
  q_Agent :: string
  q_Action :: string
  q_Status :: string
  q_From :: "gotime option"
  q_To :: "gotime option"
  q_Q :: string

record AuditSummary =
  sum_Total :: nat
  sum_Success :: nat
  sum_Error :: nat
  sum_Denied :: nat
  sum_AvgLatencyMS :: rat

record AuditToolSummary =
  tool_Action :: string
  tool_Total :: nat
  tool_Error :: nat
  tool_Denied :: nat
  tool_AvgLatencyMS :: rat

record AuditQueryResult =
  res_Logs :: "AuditLog list"
  res_Total :: nat
  res_Summary :: AuditSummary
  res_Tools :: "AuditToolSummary list"
  res_Agents :: "string list"

text \<open>
  The \<open>WHERE\<close> clause. The stored time texts are normalised to UTC with nanoseconds by the query,
  so comparing them is comparing instants.
\<close>

definition audit_matches :: "AuditQuery \<Rightarrow> AuditLog \<Rightarrow> bool" where
  "audit_matches q l \<longleftrightarrow>
     (q_Protocol q = ''mcp'' \<longrightarrow> log_Target l = ''mcp/tools/call'') \<and>
     (q_Agent q \<noteq> '''' \<longrightarrow> log_AgentName l = q_Agent q) \<and>
     (q_Action q \<noteq> '''' \<longrightarrow> log_Action l = q_Action q) \<and>
     (q_Status q \<noteq> '''' \<longrightarrow> log_Status l = q_Status q) \<and>
     (case q_From q of None \<Rightarrow> True | Some t \<Rightarrow> log_CreatedAt l \<ge> t) \<and>
     (case q_To q of None \<Rightarrow> True | Some t \<Rightarrow> log_CreatedAt l \<le> t) \<and>
     (q_Q q \<noteq> '''' \<longrightarrow> sublist (q_Q q) (log_Action l) \<or> sublist (q_Q q) (log_AgentName l) \<or>
                      sublist (q_Q q) (log_Input l) \<or> sublist (q_Q q) (log_Output l))"

definition avg_latency :: "AuditLog list \<Rightarrow> rat" where
  "avg_latency logs =
     (if logs = [] then 0 else of_int (sum_list (map log_LatencyMS logs)) / of_nat (length logs))"

definition with_status :: "string \<Rightarrow> AuditLog list \<Rightarrow> nat" where
  "with_status st logs = length (filter (\<lambda>l. log_Status l = st) logs)"

definition audit_summary :: "AuditLog list \<Rightarrow> AuditSummary" where
  "audit_summary logs = \<lparr>sum_Total = length logs, sum_Success = with_status ''success'' logs,
     sum_Error = with_status ''error'' logs, sum_Denied = with_status ''denied'' logs,
     sum_AvgLatencyMS = avg_latency logs\<rparr>"

definition tool_summary :: "AuditLog list \<Rightarrow> string \<Rightarrow> AuditToolSummary" where
  "tool_summary logs action = (let g = filter (\<lambda>l. log_Action l = action) logs in
     \<lparr>tool_Action = action, tool_Total = length g, tool_Error = with_status ''error'' g,
      tool_Denied = with_status ''denied'' g, tool_AvgLatencyMS = avg_latency g\<rparr>)"

definition audit_tools :: "AuditLog list \<Rightarrow> AuditToolSummary list" where
  "audit_tools logs =
     sort_key (\<lambda>t. (- int (tool_Total t), tool_Action t))
       (map (tool_summary logs) (remdups (map log_Action logs)))"

definition audit_order :: "AuditLog list \<Rightarrow> AuditLog list" where
  "audit_order logs = rev (sort_key (\<lambda>l. (log_CreatedAt l, log_ID l)) logs)"

text \<open>\<open>LIMIT ? OFFSET ?\<close>: a negative limit is no limit, a negative offset is none.\<close>

definition page :: "int \<Rightarrow> int \<Rightarrow> 'r list \<Rightarrow> 'r list" where
  "page limit offset rows =
     (let rest = drop (nat offset) rows in if limit < 0 then rest else take (nat limit) rest)"

definition audit_agents :: "AuditLog list \<Rightarrow> string list" where
  "audit_agents logs =
     sort (remdups (map log_AgentName
       (filter (\<lambda>l. log_Target l = ''mcp/tools/call'' \<and> log_AgentName l \<noteq> '''') logs)))"

definition QueryAuditLogs :: "AuditQuery \<Rightarrow> AuditQueryResult dbop" where
  "QueryAuditLogs q =
     db_tx (db_bind (db_query (\<lambda>d. Inr (audit_summary (filter (audit_matches q) (agent_audit_logs d))))) (\<lambda>summary.
       db_bind (db_query (\<lambda>d. Inr (audit_tools (filter (audit_matches q) (agent_audit_logs d))))) (\<lambda>tools.
       db_bind (db_query (\<lambda>d. Inr (page (q_Limit q) (q_Offset q)
                  (audit_order (filter (audit_matches q) (agent_audit_logs d)))))) (\<lambda>logs.
       db_bind (db_query (\<lambda>d. Inr (audit_agents (agent_audit_logs d)))) (\<lambda>agents.
       db_ret (Commit \<lparr>res_Logs = logs, res_Total = sum_Total summary, res_Summary = summary,
                       res_Tools = tools, res_Agents = agents\<rparr>))))))"

section \<open>The authorizer\<close>

text \<open>A request header maps a canonical field name to its values.\<close>

type_synonym header = "(string \<times> string list) list"

definition header_values :: "header \<Rightarrow> string \<Rightarrow> string list" where
  "header_values h key = (case map_of h key of None \<Rightarrow> [] | Some vs \<Rightarrow> vs)"

definition header_get :: "header \<Rightarrow> string \<Rightarrow> string" where
  "header_get h key = (case header_values h key of [] \<Rightarrow> '''' | v # _ \<Rightarrow> v)"

definition BearerToken :: "header \<Rightarrow> string" where
  "BearerToken h =
     (let secret = TrimSpace (header_get h ''X-Agent-Token'') in
      if secret \<noteq> '''' then secret
      else let authorization = TrimSpace (header_get h ''Authorization'') in
        if prefix ''Bearer '' authorization then TrimSpace (drop (length ''Bearer '') authorization)
        else '''')"

definition TrustedWithoutToken :: "header \<Rightarrow> bool" where
  "TrustedWithoutToken h \<longleftrightarrow>
     length (header_values h ''X-Agent-Token'') = 0 \<and>
     length (header_values h ''Authorization'') = 0 \<and> TrimSpace (header_get h ''Remote-User'') \<noteq> ''''"

fun containsScope :: "string list \<Rightarrow> string \<Rightarrow> bool" where
  "containsScope [] required = False"
| "containsScope (scope # scopes) required =
     (if scope = required then True else containsScope scopes required)"

record rateBucket =
  windowStart :: gotime
  bucketCount :: int

type_synonym buckets = "string \<Rightarrow> rateBucket"

definition no_bucket :: rateBucket where
  "no_bucket = \<lparr>windowStart = 0, bucketCount = 0\<rparr>"

definition minute :: int where
  "minute = 60000000000"

text \<open>\<open>take\<close> on the bucket of the token: admitted or not, and the bucket afterwards.\<close>

definition take_token :: "int \<Rightarrow> rateBucket \<Rightarrow> gotime \<Rightarrow> bool \<times> rateBucket" where
  "take_token limit bucket now =
     (if windowStart bucket = 0 \<or> now - windowStart bucket \<ge> minute
      then (True, \<lparr>windowStart = now, bucketCount = 1\<rparr>)
      else if bucketCount bucket \<ge> limit then (False, bucket)
      else (True, bucket\<lparr>bucketCount := bucketCount bucket + 1\<rparr>))"

definition ErrInvalidToken :: error where "ErrInvalidToken = Errorf ''invalid agent token'' []"
definition ErrDisabledToken :: error where "ErrDisabledToken = Errorf ''agent token is disabled'' []"
definition ErrRateLimited :: error where "ErrRateLimited = Errorf ''agent token rate limit exceeded'' []"
definition ErrWriteScope :: error where "ErrWriteScope = Errorf ''agent token lacks write permission'' []"
definition ErrReadScope :: error where "ErrReadScope = Errorf ''agent token lacks read permission'' []"

lemmas auth_errors = ErrInvalidToken_def ErrDisabledToken_def ErrRateLimited_def ErrWriteScope_def
  ErrReadScope_def

text \<open>Both calls return the token beside the error once one is found (for the audit record).\<close>

type_synonym auth_result = "(error \<times> AgentToken option) + AgentToken"

definition Authenticate :: "string \<Rightarrow> bool list \<Rightarrow> db \<Rightarrow> auth_result \<times> bool list \<times> db" where
  "Authenticate secret fs d =
     (case GetTokenByDigest (sha256_hex secret) fs d of
        (Inl _, fs1, d1) \<Rightarrow> (Inl (ErrInvalidToken, None), fs1, d1)
      | (Inr token, fs1, d1) \<Rightarrow>
          if \<not> tok_Enabled token then (Inl (ErrDisabledToken, Some token), fs1, d1)
          else (Inr token, fs1, d1))"

text \<open>The process state of the authorizer is its bucket map, the database is shared.\<close>

definition Authorize ::
  "string \<Rightarrow> bool \<Rightarrow> gotime \<Rightarrow> buckets \<Rightarrow> bool list \<Rightarrow> db \<Rightarrow> auth_result \<times> buckets \<times> bool list \<times> db" where
  "Authorize secret write now bs fs d =
     (case GetTokenByDigest (sha256_hex secret) fs d of
        (Inl _, fs1, d1) \<Rightarrow> (Inl (ErrInvalidToken, None), bs, fs1, d1)
      | (Inr token, fs1, d1) \<Rightarrow>
          if \<not> tok_Enabled token then (Inl (ErrDisabledToken, Some token), bs, fs1, d1)
          else if write \<and> \<not> containsScope (tok_Scopes token) ''write''
          then (Inl (ErrWriteScope, Some token), bs, fs1, d1)
          else if \<not> write \<and> \<not> containsScope (tok_Scopes token) ''read'' \<and>
                  \<not> containsScope (tok_Scopes token) ''write''
          then (Inl (ErrReadScope, Some token), bs, fs1, d1)
          else (case take_token (tok_RateLimit token) (bs (tok_ID token)) now of
                  (False, _) \<Rightarrow> (Inl (ErrRateLimited, Some token), bs, fs1, d1)
                | (True, bucket) \<Rightarrow>
                    (case TouchToken (tok_ID token) now fs1 d1 of
                       (Inl e, fs2, d2) \<Rightarrow> (Inl (e, Some token), bs(tok_ID token := bucket), fs2, d2)
                     | (Inr _, fs2, d2) \<Rightarrow> (Inr token, bs(tok_ID token := bucket), fs2, d2))))"

section \<open>Tokens are found by their digest\<close>

lemma upsert_token_mem: "\<exists>c. token\<lparr>tok_CreatedAt := c\<rparr> \<in> set (upsert_token token rows)"
proof (cases "\<exists>t \<in> set rows. tok_ID t = tok_ID token")
  case True
  then obtain t where "t \<in> set rows" "tok_ID t = tok_ID token" by blast
  then have "token\<lparr>tok_CreatedAt := tok_CreatedAt t\<rparr> \<in> set (upsert_token token rows)"
    using True by (auto simp: upsert_token_def set_sql_update)
  then show ?thesis by blast
next
  case False
  have "token\<lparr>tok_CreatedAt := tok_CreatedAt token\<rparr> = token" by simp
  with False show ?thesis by (metis upsert_token_def in_set_conv_decomp)
qed

lemma GetTokenByDigest_wp:
  "db_wp (GetTokenByDigest digest)
     (\<lambda>t d'. d' = d \<and> t \<in> set (agent_tokens d) \<and> tok_Token t = digest) (\<lambda>_ d'. d' = d) d"
  unfolding GetTokenByDigest_def
  by (intro wp_rules) (auto split: option.splits dest: sql_find_Some)

lemma containsScope_set: "containsScope scopes s \<longleftrightarrow> s \<in> set scopes"
  by (induction scopes) auto

definition scope_ok :: "bool \<Rightarrow> AgentToken \<Rightarrow> bool" where
  "scope_ok write t \<longleftrightarrow> (if write then ''write'' \<in> set (tok_Scopes t)
                          else ''read'' \<in> set (tok_Scopes t) \<or> ''write'' \<in> set (tok_Scopes t))"

text \<open>The four outcomes of one use of a token, in the order the code decides them.\<close>

lemma Authorize_cases:
  assumes "Authorize secret write now bs fs d = (r, bs', fs', d')"
  obtains (unknown) "r = Inl (ErrInvalidToken, None)" "bs' = bs" "d' = d"
  | (refused) t e where "r = Inl (e, Some t)" "bs' = bs" "d' = d" "t \<in> set (agent_tokens d)"
      "tok_Token t = sha256_hex secret"
      "e = (if \<not> tok_Enabled t then ErrDisabledToken
            else if \<not> scope_ok write t then (if write then ErrWriteScope else ErrReadScope)
            else ErrRateLimited)"
      "tok_Enabled t \<longrightarrow> scope_ok write t \<longrightarrow> \<not> fst (take_token (tok_RateLimit t) (bs (tok_ID t)) now)"
  | (unrecorded) t where "r = Inl (ErrDriver, Some t)" "d' = d"
      "bs' = bs(tok_ID t := snd (take_token (tok_RateLimit t) (bs (tok_ID t)) now))"
  | (admitted) t where "r = Inr t" "t \<in> set (agent_tokens d)" "tok_Token t = sha256_hex secret"
      "tok_Enabled t" "scope_ok write t" "fst (take_token (tok_RateLimit t) (bs (tok_ID t)) now)"
      "bs' = bs(tok_ID t := snd (take_token (tok_RateLimit t) (bs (tok_ID t)) now))"
      "d' = db_state (TouchToken (tok_ID t) now [] d)"
proof -
  obtain r1 fs1 d1 where get: "GetTokenByDigest (sha256_hex secret) fs d = (r1, fs1, d1)"
    by (cases "GetTokenByDigest (sha256_hex secret) fs d")
  show ?thesis
  proof (cases r1)
    case (Inl e)
    with get db_wpD(2) [OF GetTokenByDigest_wp get [unfolded Inl]] assms show ?thesis
      by (intro unknown) (auto simp: Authorize_def)
  next
    case (Inr t)
    note found = db_wpD(1) [OF GetTokenByDigest_wp get [unfolded Inr]]
    obtain ok b where tk: "take_token (tok_RateLimit t) (bs (tok_ID t)) now = (ok, b)"
      by (cases "take_token (tok_RateLimit t) (bs (tok_ID t)) now")
    show ?thesis
    proof (cases "tok_Enabled t \<and> scope_ok write t \<and> ok")
      case False
      show ?thesis
        by (rule refused [of "if \<not> tok_Enabled t then ErrDisabledToken
            else if \<not> scope_ok write t then (if write then ErrWriteScope else ErrReadScope)
            else ErrRateLimited" t])
          (use assms get Inr found tk False in
            \<open>auto simp: Authorize_def containsScope_set scope_ok_def split: if_splits\<close>)
    next
      case True
      obtain r2 fs2 d2 where touch: "TouchToken (tok_ID t) now fs1 d1 = (r2, fs2, d2)"
        by (cases "TouchToken (tok_ID t) now fs1 d1")
      show ?thesis
      proof (cases r2)
        case (Inl e)
        have "d2 = d1 \<and> e = ErrDriver" using touch Inl by (auto simp: TouchToken_def db_exec_def db_stmt_def split: prod.splits if_splits)
        with assms get Inr found tk True touch Inl show ?thesis
          by (intro unrecorded [of t]) (auto simp: Authorize_def containsScope_set scope_ok_def split: if_splits)
      next
        case (Inr u)
        have "d2 = db_state (TouchToken (tok_ID t) now [] d1)"
          using touch Inr by (auto simp: TouchToken_def db_exec_def db_stmt_def split: prod.splits if_splits)
        with assms get \<open>r1 = Inr t\<close> found tk True touch Inr show ?thesis
          by (intro admitted [of t]) (auto simp: Authorize_def containsScope_set scope_ok_def split: if_splits)
      qed
    qed
  qed
qed

section \<open>Histories of requests\<close>

text \<open>
  The requests of a run of the server in order, each with its secret, whether it writes, its time and the faults of
  its driver calls: the answers, and the budgets and the database they leave.
\<close>

type_synonym auth_request = "string \<times> bool \<times> gotime \<times> bool list"

fun authorize_all :: "auth_request list \<Rightarrow> buckets \<Rightarrow> db \<Rightarrow> auth_result list \<times> buckets \<times> db" where
  "authorize_all [] bs d = ([], bs, d)"
| "authorize_all ((secret, write, now, fs) # reqs) bs d =
     (case Authorize secret write now bs fs d of
        (r, bs1, fs1, d1) \<Rightarrow> (case authorize_all reqs bs1 d1 of (rs, bs2, d2) \<Rightarrow> (r # rs, bs2, d2)))"

text \<open>Refused for what the request is, not for a failing driver.\<close>

definition refusal :: "auth_result \<Rightarrow> bool" where
  "refusal r = (case r of Inl (e, _) \<Rightarrow>
     e \<in> {ErrInvalidToken, ErrDisabledToken, ErrWriteScope, ErrReadScope, ErrRateLimited} | Inr _ \<Rightarrow> False)"

text \<open>The requests that were not refused.\<close>

definition unrefused :: "auth_request list \<Rightarrow> auth_result list \<Rightarrow> auth_request list" where
  "unrefused reqs rs = map fst (filter (\<lambda>q. \<not> refusal (snd q)) (zip reqs rs))"

lemma refusal_changes_nothing:
  assumes "Authorize secret write now bs fs d = (r, bs', fs', d')" "refusal r"
  shows "bs' = bs \<and> d' = d"
  using assms by (cases rule: Authorize_cases) (auto simp: refusal_def auth_errors)

lemma authorize_all_unrefused:
  "authorize_all reqs bs d = (rs, bs', d') \<Longrightarrow>
   authorize_all (unrefused reqs rs) bs d = (filter (\<lambda>r. \<not> refusal r) rs, bs', d')"
proof (induction reqs arbitrary: bs d rs)
  case (Cons q reqs)
  obtain secret w n fs where q: "q = (secret, w, n, fs)" by (cases q)
  obtain r bs1 fs1 d1 where one: "Authorize secret w n bs fs d = (r, bs1, fs1, d1)"
    by (metis prod.collapse)
  obtain rs1 where rest: "authorize_all reqs bs1 d1 = (rs1, bs', d')" "rs = r # rs1"
    using Cons.prems by (auto simp: q one split: prod.splits)
  from Cons.IH [OF rest(1)] refusal_changes_nothing [OF one] show ?case
    by (cases "refusal r") (simp_all add: unrefused_def rest(2) q one)
qed (simp add: unrefused_def)

lemma authorize_all_append:
  "authorize_all xs bs d = (rs, bs1, d1) \<Longrightarrow> authorize_all (xs @ ys) bs d =
     (case authorize_all ys bs1 d1 of (rs', bs2, d2) \<Rightarrow> (rs @ rs', bs2, d2))"
  by (induction xs arbitrary: bs d rs) (auto split: prod.splits)

lemma authorize_all_length: "authorize_all xs bs d = (rs, bs1, d1) \<Longrightarrow> length rs = length xs"
  by (induction xs arbitrary: bs d rs) (auto split: prod.splits)

section \<open>The throttle\<close>

fun admitted_count :: "int \<Rightarrow> rateBucket \<Rightarrow> gotime list \<Rightarrow> nat" where
  "admitted_count limit b [] = 0"
| "admitted_count limit b (t # ts) =
     (case take_token limit b t of (ok, b') \<Rightarrow> of_bool ok + admitted_count limit b' ts)"

definition bucket_ok :: "int \<Rightarrow> rateBucket \<Rightarrow> bool" where
  "bucket_ok limit b \<longleftrightarrow> 0 \<le> bucketCount b \<and> bucketCount b \<le> max 1 limit"

lemma take_token_ok: "bucket_ok limit b \<Longrightarrow> bucket_ok limit (snd (take_token limit b t))"
  by (auto simp: take_token_def bucket_ok_def)

text \<open>Without a new window, only what is left of the budget is admitted.\<close>

lemma admitted_same_window:
  assumes "windowStart b \<noteq> 0" "\<forall>t \<in> set ts. t - windowStart b < minute" "bucket_ok limit b"
  shows "int (admitted_count limit b ts) \<le> max 1 limit - bucketCount b"
  using assms
proof (induction ts arbitrary: b)
  case (Cons t ts)
  then have same: "take_token limit b t = (if bucketCount b \<ge> limit then (False, b)
      else (True, b\<lparr>bucketCount := bucketCount b + 1\<rparr>))"
    by (simp add: take_token_def)
  show ?case
  proof (cases "bucketCount b \<ge> limit")
    case True
    with same Cons show ?thesis by simp
  next
    case False
    let ?b = "b\<lparr>bucketCount := bucketCount b + 1\<rparr>"
    have "int (admitted_count limit ?b ts) \<le> max 1 limit - bucketCount ?b"
      using Cons.prems False by (intro Cons.IH) (auto simp: bucket_ok_def)
    with same False show ?thesis by simp
  qed
qed (simp add: bucket_ok_def)

text \<open>A span shorter than a window sees at most one new window.\<close>

lemma admitted_in_span:
  assumes "\<forall>t \<in> set ts. s \<le> t \<and> t < s + minute" "0 < s" "bucket_ok limit b"
  shows "int (admitted_count limit b ts) \<le> 2 * max 1 limit - bucketCount b"
  using assms
proof (induction ts arbitrary: b)
  case (Cons t ts)
  show ?case
  proof (cases "windowStart b = 0 \<or> t - windowStart b \<ge> minute")
    case True
    let ?b = "\<lparr>windowStart = t, bucketCount = 1\<rparr>"
    have "int (admitted_count limit ?b ts) \<le> max 1 limit - bucketCount ?b"
      using Cons.prems(1,2) by (intro admitted_same_window) (auto simp: bucket_ok_def)
    moreover have "bucketCount b \<le> max 1 limit" using Cons.prems(3) by (simp add: bucket_ok_def)
    ultimately show ?thesis using True by (simp add: take_token_def)
  next
    case False
    then have same: "take_token limit b t = (if bucketCount b \<ge> limit then (False, b)
        else (True, b\<lparr>bucketCount := bucketCount b + 1\<rparr>))"
      by (simp add: take_token_def)
    show ?thesis
    proof (cases "bucketCount b \<ge> limit")
      case True
      with same Cons show ?thesis by simp
    next
      case False
      let ?b = "b\<lparr>bucketCount := bucketCount b + 1\<rparr>"
      have "int (admitted_count limit ?b ts) \<le> 2 * max 1 limit - bucketCount ?b"
        using Cons.prems False by (intro Cons.IH) (auto simp: bucket_ok_def)
      with same False show ?thesis by simp
    qed
  qed
qed (simp add: bucket_ok_def)

section \<open>Audit pages\<close>

lemma pages_concat:
  assumes "0 < l"
  shows "concat (map (\<lambda>k. page l (int k * l) rows) [0..<n]) = take (n * nat l) rows"
proof (induction n)
  case (Suc n)
  have "nat (int n * l) = n * nat l" using assms by (simp add: nat_mult_distrib)
  moreover have "take (Suc n * nat l) rows = take (n * nat l) rows @ take (nat l) (drop (n * nat l) rows)"
    by (simp add: take_add [symmetric] add.commute)
  ultimately show ?case using Suc assms by (simp add: page_def Let_def)
qed simp

lemma tool_totals:
  "sum_list (map tool_Total (audit_tools logs)) = length logs"
proof -
  have count: "sum_list (map (\<lambda>a. length (filter (\<lambda>l. log_Action l = a) logs)) as) = length logs"
    if "distinct as" "set (map log_Action logs) \<subseteq> set as" for as
    using that(2)
  proof (induction logs)
    case (Cons l logs)
    have one: "sum_list (map (\<lambda>a. if log_Action l = a then f a + 1 else f a) xs) =
        sum_list (map f xs) + (if log_Action l \<in> set xs then 1 else (0 :: nat))"
      if "distinct xs" for xs and f :: "string \<Rightarrow> nat"
      using that by (induction xs) auto
    have "(\<lambda>a. length (filter (\<lambda>l. log_Action l = a) (l # logs))) =
        (\<lambda>a. if log_Action l = a then length (filter (\<lambda>l. log_Action l = a) logs) + 1
             else length (filter (\<lambda>l. log_Action l = a) logs))" by auto
    with Cons one [OF that(1)] show ?case by simp
  qed simp
  have "mset (map tool_Total (audit_tools logs)) =
      mset (map tool_Total (map (tool_summary logs) (remdups (map log_Action logs))))"
    by (simp only: audit_tools_def mset_map mset_sort)
  then have "sum_list (map tool_Total (audit_tools logs)) =
      sum_list (map tool_Total (map (tool_summary logs) (remdups (map log_Action logs))))"
    by (metis sum_mset_sum_list)
  also have "\<dots> = sum_list (map (\<lambda>a. length (filter (\<lambda>l. log_Action l = a) logs)) (remdups (map log_Action logs)))"
    by (simp add: tool_summary_def Let_def o_def)
  also have "\<dots> = length logs" by (rule count) auto
  finally show ?thesis .
qed

section \<open>Properties\<close>

text \<open>
  C15. An admitted request is legitimate: when the authorizer admits a request, under any driver
  faults, a stored token has the digest of the presented secret, is enabled and carries the needed
  scope (a read token never writes), its throttle admitted it, and its use is recorded.
\<close>

theorem authorize_admits_only_valid:
  assumes "Authorize secret write now bs fs d = (Inr t, bs', fs', d')"
  shows "t \<in> set (agent_tokens d) \<and> tok_Token t = sha256_hex secret \<and> tok_Enabled t \<and>
    (write \<longrightarrow> ''write'' \<in> set (tok_Scopes t)) \<and>
    (''read'' \<in> set (tok_Scopes t) \<or> ''write'' \<in> set (tok_Scopes t)) \<and>
    fst (take_token (tok_RateLimit t) (bs (tok_ID t)) now) \<and>
    (\<forall>u \<in> set (agent_tokens d'). tok_ID u = tok_ID t \<longrightarrow> tok_LastUsedAt u = Some now)"
  using assms
proof (cases rule: Authorize_cases)
  case (admitted t')
  then have "t' = t" by simp
  have "db_state (TouchToken (tok_ID t) now [] d) = d\<lparr>agent_tokens := sql_update (\<lambda>u. tok_ID u = tok_ID t)
      (\<lambda>u. u\<lparr>tok_LastUsedAt := Some now\<rparr>) (agent_tokens d)\<rparr>"
    by (simp add: TouchToken_def db_exec_eval)
  with admitted \<open>t' = t\<close> show ?thesis
    by (auto simp: scope_ok_def set_sql_update split: if_splits)
qed simp_all


text \<open>
  C16. Refused requests cost nothing: strike from any history of requests, whatever the driver does, those refused for an
  unknown secret, a disabled token, a missing scope or a spent budget. The others get the answers they
  got, and the database and every budget end as they did. A refused request names a reason that holds when it comes: with a
  token, that is the token of the presented secret, and the reason is the first of disabled, scope and budget.
\<close>

theorem authorize_refusal:
  assumes "authorize_all (before @ (secret, write, now, fs) # after) bs d = (rs, bs', d')"
  shows "authorize_all (unrefused (before @ (secret, write, now, fs) # after) rs) bs d =
       (filter (\<lambda>r. \<not> refusal r) rs, bs', d') \<and>
    (\<forall>e t. rs ! length before = Inl (e, Some t) \<longrightarrow> e \<noteq> ErrDriver \<longrightarrow>
       (case authorize_all before bs d of (_, bs1, d1) \<Rightarrow>
          t \<in> set (agent_tokens d1) \<and> tok_Token t = sha256_hex secret \<and>
          (if \<not> tok_Enabled t then e = ErrDisabledToken
           else if \<not> scope_ok write t then e = (if write then ErrWriteScope else ErrReadScope)
           else e = ErrRateLimited \<and> \<not> fst (take_token (tok_RateLimit t) (bs1 (tok_ID t)) now))))"
proof -
  obtain rs1 bs1 d1 where 1: "authorize_all before bs d = (rs1, bs1, d1)" by (metis prod.collapse)
  obtain r bs2 fs2 d2 where 2: "Authorize secret write now bs1 fs d1 = (r, bs2, fs2, d2)" by (metis prod.collapse)
  have "rs ! length before = r"
    using assms 2 authorize_all_append [OF 1, of "(secret, write, now, fs) # after"] authorize_all_length [OF 1]
    by (auto simp: nth_append split: prod.splits)
  moreover have "t \<in> set (agent_tokens d1) \<and> tok_Token t = sha256_hex secret \<and>
      (if \<not> tok_Enabled t then e = ErrDisabledToken
       else if \<not> scope_ok write t then e = (if write then ErrWriteScope else ErrReadScope)
       else e = ErrRateLimited \<and> \<not> fst (take_token (tok_RateLimit t) (bs1 (tok_ID t)) now))"
    if "r = Inl (e, Some t)" "e \<noteq> ErrDriver" for e t
    using 2 by (cases rule: Authorize_cases) (use that in auto)
  ultimately show ?thesis using authorize_all_unrefused [OF assms] 1 by auto
qed

text \<open>
  C22. The throttle bounds every span: whatever happened before, the requests of one token that
  arrive within any span shorter than a minute are admitted at most twice its rate limit (a limit
  below one counts as one), once for the window running at its start and once for one new window.
\<close>

theorem rate_limit_bound:
  assumes "0 < s" "\<forall>t \<in> set earlier. t < s" "\<forall>t \<in> set ts. s \<le> t \<and> t < s + minute"
  shows "int (admitted_count limit
     (foldl (\<lambda>b t. snd (take_token limit b t)) no_bucket earlier) ts) \<le> 2 * max 1 limit"
proof -
  have "bucket_ok limit (foldl (\<lambda>b t. snd (take_token limit b t)) b earlier)" if "bucket_ok limit b" for b
    using that by (induction earlier arbitrary: b) (simp_all add: take_token_ok)
  then have ok: "bucket_ok limit (foldl (\<lambda>b t. snd (take_token limit b t)) no_bucket earlier)"
    by (simp add: bucket_ok_def no_bucket_def)
  from admitted_in_span [OF assms(3,1) ok] ok show ?thesis by (simp add: bucket_ok_def)
qed

text \<open>
  A token is found by its secret and by nothing else: after a token is saved under the digest
  of a secret, authentication with that secret finds it until it is deleted, and after the deletion
  no row with its id is left.
\<close>

theorem token_lookup:
  assumes "db_result (SaveToken t now [] d) = Inr ()" "d1 = db_state (SaveToken t now [] d)"
    and "tok_Token t = sha256_hex secret" "tok_Enabled t"
  shows "(\<exists>u. fst (Authenticate secret [] d1) = Inr u \<and> tok_ID u = tok_ID t \<and> tok_Scopes u = tok_Scopes t \<and>
            tok_RateLimit u = tok_RateLimit t) \<and>
    (\<forall>u \<in> set (agent_tokens (db_state (DeleteToken (tok_ID t) [] d1))). tok_ID u \<noteq> tok_ID t)"
proof -
  define stored where "stored = t\<lparr>tok_CreatedAt := (if tok_CreatedAt t = 0 then now else tok_CreatedAt t)\<rparr>"
  let ?rows = "upsert_token stored (agent_tokens d)"
  have uniq: "distinct (map tok_Token ?rows)"
    using assms(1) by (simp add: SaveToken_def db_stmt_eval Let_def stored_def split: if_splits)
  then have rows: "agent_tokens d1 = ?rows"
    by (simp add: assms(2) SaveToken_def db_stmt_eval Let_def stored_def)
  obtain c where c: "stored\<lparr>tok_CreatedAt := c\<rparr> \<in> set ?rows" using upsert_token_mem by blast
  define u where "u = stored\<lparr>tok_CreatedAt := c\<rparr>"
  have u: "u \<in> set (agent_tokens d1)" "tok_Token u = tok_Token t" "tok_ID u = tok_ID t"
    "tok_Scopes u = tok_Scopes t" "tok_RateLimit u = tok_RateLimit t" "tok_Enabled u = tok_Enabled t"
    using c by (simp_all add: rows u_def stored_def)
  have "distinct (map tok_Token (agent_tokens d1))" using uniq rows by simp
  from sql_find_key [OF this u(1)] u(2) assms(3)
  have "sql_find (\<lambda>x. tok_Token x = sha256_hex secret) (agent_tokens d1) = Some u" by simp
  with u assms(4) show ?thesis
    by (auto simp: Authenticate_def GetTokenByDigest_def db_query_eval DeleteToken_def db_exec_eval sql_delete_def)
qed


definition example_token :: "string list \<Rightarrow> AgentToken" where
  "example_token scopes = \<lparr>tok_ID = ''k1'', tok_Token = sha256_hex ''secret'', tok_Name = ''bot'',
     tok_Role = ''agent'', tok_Scopes = scopes, tok_RateLimit = 2, tok_Enabled = True,
     tok_LastUsedAt = None, tok_CreatedAt = 4\<rparr>"

definition token_db :: db where
  "token_db = empty_db\<lparr>agent_tokens := [example_token [''read'']]\<rparr>"

theorem authorize_admits_only_valid_witness:
  "\<exists>bs' fs' d'. Authorize ''secret'' False 100 (\<lambda>_. no_bucket) [] token_db = (Inr (example_token [''read'']), bs', fs', d') \<and>
     (\<forall>u \<in> set (agent_tokens d'). tok_ID u = ''k1'' \<longrightarrow> tok_LastUsedAt u = Some 100)"
proof -
  obtain r bs' fs' d' where run: "Authorize ''secret'' False 100 (\<lambda>_. no_bucket) [] token_db = (r, bs', fs', d')"
    by (cases "Authorize ''secret'' False 100 (\<lambda>_. no_bucket) [] token_db")
  then have r: "r = Inr (example_token [''read''])"
    by (auto simp: Authorize_def GetTokenByDigest_def TouchToken_def db_query_eval db_exec_eval sql_find_def
        token_db_def example_token_def take_token_def no_bucket_def)
  from authorize_admits_only_valid [OF run [unfolded r]] run r show ?thesis
    by (auto simp: example_token_def)
qed

text \<open>A read token asks to write, then reads: the refused request leaves its whole budget.\<close>

theorem authorize_refusal_witness:
  "\<exists>rs bs' d'. authorize_all [(''secret'', True, 100, []), (''secret'', False, 101, [])] (\<lambda>_. no_bucket) token_db =
       (rs, bs', d') \<and> rs ! 0 = Inl (ErrWriteScope, Some (example_token [''read''])) \<and>
     authorize_all [(''secret'', False, 101, [])] (\<lambda>_. no_bucket) token_db = (tl rs, bs', d')"
proof -
  let ?reqs = "[(''secret'', True, 100, []), (''secret'', False, 101, [])] :: auth_request list"
  obtain rs bs' d' where run: "authorize_all ?reqs (\<lambda>_. no_bucket) token_db = (rs, bs', d')"
    by (metis prod.collapse)
  then obtain t where rs: "rs = [Inl (ErrWriteScope, Some (example_token [''read''])), Inr t]"
    by (auto simp: Authorize_def GetTokenByDigest_def TouchToken_def db_query_eval db_exec_eval sql_find_def
        token_db_def example_token_def take_token_def no_bucket_def)
  have "authorize_all (unrefused ?reqs rs) (\<lambda>_. no_bucket) token_db = (filter (\<lambda>r. \<not> refusal r) rs, bs', d')"
    using authorize_refusal [of "[]" "''secret''" True 100 "[]" "[(''secret'', False, 101, [])]", simplified, OF run [simplified]]
    by simp
  then show ?thesis using run by (auto simp: rs unrefused_def refusal_def simp del: authorize_all.simps)
qed

theorem rate_limit_bound_witness:
  "admitted_count 2 (foldl (\<lambda>b t. snd (take_token 2 b t)) no_bucket [50]) [100, 101, 102, 103] = 1 \<and>
   int (admitted_count 2 (foldl (\<lambda>b t. snd (take_token 2 b t)) no_bucket [50]) [100, 101, 102, 103]) \<le> 4"
  using rate_limit_bound [of 100 "[50]" "[100, 101, 102, 103]" 2]
  by (simp add: take_token_def no_bucket_def minute_def)

theorem token_lookup_witness:
  "\<exists>u. fst (Authenticate ''secret'' [] (db_state (SaveToken (example_token [''read'']) 9 [] empty_db))) = Inr u \<and>
       tok_ID u = ''k1''"
proof -
  have "db_result (SaveToken (example_token [''read'']) 9 [] empty_db) = Inr ()"
    by (simp add: SaveToken_def db_stmt_eval empty_db_def Let_def upsert_token_def)
  from token_lookup [OF this refl, of "''secret''"] show ?thesis
    by (auto simp: example_token_def)
qed

definition example_query :: AuditQuery where
  "example_query = \<lparr>q_Limit = 0, q_Offset = 0, q_Protocol = '''', q_Agent = '''', q_Action = '''',
     q_Status = '''', q_From = None, q_To = None, q_Q = ''''\<rparr>"

definition example_log :: "string \<Rightarrow> AuditLog" where
  "example_log action = \<lparr>log_ID = 0, log_Caller = ''c'', log_TokenID = ''k1'', log_AgentName = ''bot'',
     log_Action = action, log_Target = ''mcp/tools/call'', log_Input = '''', log_Output = '''',
     log_Status = ''success'', log_LatencyMS = 3, log_IP = '''', log_CreatedAt = 0\<rparr>"


end
