(* ===== verification/ScheduleStore.thy ===== *)
theory ScheduleStore
  imports Models
begin

text \<open>
  Schedules and share subscriptions: the \<open>scheduled_tasks\<close> operations of
  \<open>internal/storage/sqlite.go\<close>, \<open>internal/storage/share_subscription.go\<close> and the service over it.
  The facts: a saved schedule reads back as saved until it is deleted, and no operation but the
  cursor update moves the cursor of a subscription.
\<close>

section \<open>Schedules\<close>

text \<open>\<open>Enabled\<close> is no column: every read derives it from the status.\<close>

definition scan_schedule :: "ScheduledTask \<Rightarrow> ScheduledTask" where
  "scan_schedule t = t\<lparr>sch_Enabled := (sch_Status t \<noteq> ''paused'')\<rparr>"

definition ListTasks :: "ScheduledTask list dbop" where
  "ListTasks = db_query (\<lambda>d. Inr (map scan_schedule (rev (sort_key sch_UpdatedAt (scheduled_tasks d)))))"

definition upsert_schedule :: "ScheduledTask \<Rightarrow> ScheduledTask list \<Rightarrow> ScheduledTask list" where
  "upsert_schedule t rows =
     (if \<exists>r \<in> set rows. sch_ID r = sch_ID t
      then sql_update (\<lambda>r. sch_ID r = sch_ID t) (\<lambda>r. t\<lparr>sch_CreatedAt := sch_CreatedAt r\<rparr>) rows
      else rows @ [t])"

text \<open>The result is the caller's struct, whose times the call sets.\<close>

definition SaveTask :: "ScheduledTask \<Rightarrow> gotime \<Rightarrow> ScheduledTask dbop" where
  "SaveTask t0 now =
     (let t = t0\<lparr>sch_CreatedAt := (if sch_CreatedAt t0 = 0 then now else sch_CreatedAt t0),
                 sch_UpdatedAt := now\<rparr> in
      db_exec (\<lambda>d. (t, d\<lparr>scheduled_tasks := upsert_schedule t (scheduled_tasks d)\<rparr>)))"

definition DeleteTask :: "string \<Rightarrow> unit dbop" where
  "DeleteTask tid =
     db_exec (\<lambda>d. ((), d\<lparr>scheduled_tasks := sql_delete (\<lambda>t. sch_ID t = tid) (scheduled_tasks d)\<rparr>))"

definition GetTask :: "string \<Rightarrow> ScheduledTask dbop" where
  "GetTask tid =
     db_query (\<lambda>d. case sql_find (\<lambda>t. sch_ID t = tid) (scheduled_tasks d) of
                     None \<Rightarrow> Inl ErrNoRows | Some t \<Rightarrow> Inr (scan_schedule t))"

section \<open>Share subscriptions\<close>

definition CreateShareSubscription :: "ShareSubscription \<Rightarrow> gotime \<Rightarrow> unit dbop" where
  "CreateShareSubscription sub now =
     db_stmt (\<lambda>d. if sub_ID sub \<in> set (map sub_ID (share_subscriptions d)) then Inl ErrConstraint
       else Inr ((), d\<lparr>share_subscriptions := share_subscriptions d @
              [sub\<lparr>sub_CreatedAt := now, sub_UpdatedAt := now\<rparr>]\<rparr>))"

text \<open>\<open>nil, nil\<close> is \<open>None\<close>: a subscription that does not exist is no error.\<close>

definition GetShareSubscription :: "string \<Rightarrow> ShareSubscription option dbop" where
  "GetShareSubscription sid =
     db_query (\<lambda>d. Inr (sql_find (\<lambda>s. sub_ID s = sid) (share_subscriptions d)))"

definition update_subscription ::
  "string \<Rightarrow> (ShareSubscription \<Rightarrow> ShareSubscription) \<Rightarrow> unit dbop" where
  "update_subscription sid f =
     db_exec (\<lambda>d. ((), d\<lparr>share_subscriptions :=
        sql_update (\<lambda>s. sub_ID s = sid) f (share_subscriptions d)\<rparr>))"

definition UpdateShareSubscription ::
  "string \<Rightarrow> string \<Rightarrow> string \<Rightarrow> string \<Rightarrow> string \<Rightarrow> string \<Rightarrow> bool \<Rightarrow> gotime \<Rightarrow> unit dbop" where
  "UpdateShareSubscription sid name provider url password targetCID active now =
     update_subscription sid (\<lambda>s. s\<lparr>sub_Name := name, sub_Provider := provider, sub_URL := url,
       sub_Password := password, sub_TargetCID := targetCID, sub_Active := active,
       sub_UpdatedAt := now\<rparr>)"

definition ListShareSubscriptions :: "bool \<Rightarrow> ShareSubscription list dbop" where
  "ListShareSubscriptions activeOnly =
     db_query (\<lambda>d. Inr (rev (sort_key sub_CreatedAt
       (filter (\<lambda>s. activeOnly \<longrightarrow> sub_Active s) (share_subscriptions d)))))"

definition UpdateShareSubscriptionCursor :: "string \<Rightarrow> gotime \<Rightarrow> gotime \<Rightarrow> unit dbop" where
  "UpdateShareSubscriptionCursor sid lastCursorTime now =
     update_subscription sid (\<lambda>s. s\<lparr>sub_LastCursorTime := lastCursorTime, sub_LastError := '''',
       sub_LastSyncAt := now, sub_UpdatedAt := now\<rparr>)"

definition RecordShareSubscriptionError :: "string \<Rightarrow> string \<Rightarrow> gotime \<Rightarrow> unit dbop" where
  "RecordShareSubscriptionError sid errMsg now =
     update_subscription sid (\<lambda>s. s\<lparr>sub_LastError := errMsg, sub_LastSyncAt := now,
       sub_UpdatedAt := now\<rparr>)"

definition DeleteShareSubscription :: "string \<Rightarrow> unit dbop" where
  "DeleteShareSubscription sid =
     db_exec (\<lambda>d. ((), d\<lparr>share_subscriptions :=
        sql_delete (\<lambda>s. sub_ID s = sid) (share_subscriptions d)\<rparr>))"

definition ToggleShareSubscription :: "string \<Rightarrow> bool \<Rightarrow> gotime \<Rightarrow> unit dbop" where
  "ToggleShareSubscription sid active now =
     update_subscription sid (\<lambda>s. s\<lparr>sub_Active := active, sub_UpdatedAt := now\<rparr>)"

text \<open>
  \<open>ShareSubscriptionService.Create\<close>; \<open>newID\<close> is the fresh UUID, \<open>epoch2000\<close> the start of the
  year 2000 in nanoseconds since Go's zero time.
\<close>

definition epoch2000 :: gotime where
  "epoch2000 = 63082281600000000000"

definition SubscriptionCreate ::
  "ShareSubscription \<Rightarrow> string \<Rightarrow> gotime \<Rightarrow> ShareSubscription dbop" where
  "SubscriptionCreate sub0 newID now =
     (let sub = sub0\<lparr>sub_ID := newID, sub_Active := True,
            sub_LastCursorTime := (if sub_LastCursorTime sub0 = 0 then epoch2000
                                   else sub_LastCursorTime sub0)\<rparr>
      in db_bind (CreateShareSubscription sub now) (\<lambda>_. db_ret sub))"
section \<open>The schedules are a map from identifiers\<close>

definition schedule_map :: "db \<Rightarrow> string \<Rightarrow> ScheduledTask option" where
  "schedule_map d tid = sql_find (\<lambda>t. sch_ID t = tid) (scheduled_tasks d)"

lemma find_upsert_schedule:
  "sql_find (\<lambda>r. sch_ID r = k) (upsert_schedule t rows) =
   (if k = sch_ID t
    then Some (t\<lparr>sch_CreatedAt := (case sql_find (\<lambda>r. sch_ID r = k) rows of
                 None \<Rightarrow> sch_CreatedAt t | Some r \<Rightarrow> sch_CreatedAt r)\<rparr>)
    else sql_find (\<lambda>r. sch_ID r = k) rows)"
proof -
  have upd: "find (\<lambda>r. sch_ID r = k) (sql_update (\<lambda>r. sch_ID r = sch_ID t) (\<lambda>r. t\<lparr>sch_CreatedAt := sch_CreatedAt r\<rparr>) rows) =
    (if k = sch_ID t then map_option (\<lambda>r. t\<lparr>sch_CreatedAt := sch_CreatedAt r\<rparr>) (find (\<lambda>r. sch_ID r = k) rows)
     else find (\<lambda>r. sch_ID r = k) rows)"
    by (induction rows) auto
  have add: "find (\<lambda>r. sch_ID r = k) (rows @ [t]) =
    (case find (\<lambda>r. sch_ID r = k) rows of None \<Rightarrow> if k = sch_ID t then Some t else None | Some r \<Rightarrow> Some r)"
    by (induction rows) auto
  show ?thesis
  proof (cases "\<exists>r \<in> set rows. sch_ID r = sch_ID t")
    case True
    then have "find (\<lambda>r. sch_ID r = sch_ID t) rows \<noteq> None" by (auto simp: find_None_iff)
    with True show ?thesis by (auto simp: upsert_schedule_def sql_find_def upd)
  next
    case False
    then have "find (\<lambda>r. sch_ID r = sch_ID t) rows = None" by (auto simp: find_None_iff)
    with False show ?thesis by (auto simp: upsert_schedule_def sql_find_def add split: option.split)
  qed
qed

lemma find_delete_schedule:
  "sql_find (\<lambda>r. sch_ID r = k) (sql_delete (\<lambda>t. sch_ID t = tid) rows) =
   (if k = tid then None else sql_find (\<lambda>r. sch_ID r = k) rows)"
  unfolding sql_find_def sql_delete_def by (induction rows) auto

text \<open>
  C31. The schedule operations refine a map from identifiers to schedules: a save that succeeds
  updates the one entry, keeps the creation time of a schedule that existed and stamps the update
  time; a delete removes the one entry; a lookup returns the entry with \<open>Enabled\<close> derived from the
  status, or \<open>sql.ErrNoRows\<close>; and an operation that fails leaves the map as it was.
\<close>

theorem schedules_refine_map:
  "(case SaveTask t0 now fs d of
      (Inr t, _, d') \<Rightarrow> t = t0\<lparr>sch_CreatedAt := (if sch_CreatedAt t0 = 0 then now else sch_CreatedAt t0),
                              sch_UpdatedAt := now\<rparr> \<and>
        schedule_map d' = (schedule_map d)(sch_ID t0 \<mapsto> t\<lparr>sch_CreatedAt :=
           (case schedule_map d (sch_ID t0) of None \<Rightarrow> sch_CreatedAt t | Some r \<Rightarrow> sch_CreatedAt r)\<rparr>)
    | (Inl _, _, d') \<Rightarrow> d' = d) \<and>
   (case DeleteTask tid fs d of
      (Inr _, _, d') \<Rightarrow> schedule_map d' = (schedule_map d)(tid := None) | (Inl _, _, d') \<Rightarrow> d' = d) \<and>
   (case GetTask tid fs d of
      (Inr t, _, d') \<Rightarrow> map_option scan_schedule (schedule_map d tid) = Some t \<and> d' = d
    | (Inl e, _, d') \<Rightarrow> (schedule_map d tid = None \<and> e = ErrNoRows \<or> e = ErrDriver) \<and> d' = d)"
proof (cases "next_fault fs")
  case (Pair fault fs')
  show ?thesis
    by (cases fault; cases "sql_find (\<lambda>t. sch_ID t = tid) (scheduled_tasks d)")
      (simp_all add: SaveTask_def DeleteTask_def GetTask_def Let_def db_exec_def db_query_def db_stmt_def
        Pair schedule_map_def find_upsert_schedule find_delete_schedule fun_eq_iff)
qed

end
