(* ===== verification/TransferProtocol.thy ===== *)
theory TransferProtocol
  imports GoPath GoHash
begin

text \<open>
  The requests of the NAS transfer worker and their validation, \<open>internal/transfer/protocol.go\<close>.
  Paths are compared by their elements (theory GoPath): a cleaned destination is a list of
  elements that do not begin with \<open>..\<close>, and a cleaned name is one element.
\<close>

definition WorkerCanaryName :: string where
  "WorkerCanaryName = ''.embymedia-nas-worker-health-canary''"

definition EmptySHA1 :: string where
  "EmptySHA1 = ''DA39A3EE5E6B4B0D3255BFEF95601890AFD80709''"

definition ProtocolVersion :: int where
  "ProtocolVersion = 1"

definition OperationCheck :: string where "OperationCheck = ''check''"
definition OperationDownload :: string where "OperationDownload = ''download''"
definition OperationPublish :: string where "OperationPublish = ''publish''"
definition OperationCommit :: string where "OperationCommit = ''commit''"

record Request =
  req_Version :: int
  req_Operation :: string
  req_JobID :: string
  req_AccountID :: string
  req_SourceFileID :: string
  req_SourceRevision :: string
  req_Name :: string
  req_Size :: int64
  req_ExpectedSHA1 :: string
  req_QuarkCookie :: string
  req_Destination :: string
  req_Replace :: bool
  req_Connections :: int
  req_RequiredFreeBytes :: int64

record Event =
  evt_Version :: int
  evt_Type :: string
  evt_Phase :: string
  evt_DownloadedBytes :: int64
  evt_Size :: int64
  evt_SHA1 :: string
  evt_PreSHA1 :: string
  evt_Error :: string

definition nul :: char where
  "nul = CHR 0x00"

definition dotdot_prefix :: "string \<Rightarrow> bool" where
  "dotdot_prefix s \<longleftrightarrow> take 3 s = ''../''"

definition CleanDestination :: "string \<Rightarrow> error + string" where
  "CleanDestination v =
     (if nul \<in> set v \<or> IsAbs v then Inl (Errorf ''destination must be a relative path'' [])
      else let clean = Clean (TrimSpace v) in
        if clean = ''.'' \<or> clean = '''' \<or> clean = ''..'' \<or> dotdot_prefix clean
        then Inl (Errorf ''destination must stay below the mount root'' [])
        else Inr clean)"

definition CleanFileName :: "string \<Rightarrow> error + string" where
  "CleanFileName v =
     (let name = TrimSpace v in
      if name = '''' \<or> name = ''.'' \<or> name = ''..'' \<or> nul \<in> set name \<or> slash \<in> set name \<or>
         CHR 0x5C \<in> set name \<or> Base name \<noteq> name
      then Inl (Errorf ''name must be one filesystem component'' [])
      else Inr name)"

text \<open>\<open>hex.DecodeString\<close> of an even number of characters fails on a character that is no hexadecimal digit.\<close>

definition is_hex :: "char \<Rightarrow> bool" where
  "is_hex c \<longleftrightarrow> (let n = of_char c :: nat in
     48 \<le> n \<and> n \<le> 57 \<or> 97 \<le> n \<and> n \<le> 102 \<or> 65 \<le> n \<and> n \<le> 70)"

definition ValidSHA1 :: "string \<Rightarrow> bool" where
  "ValidSHA1 v \<longleftrightarrow> length v = 40 \<and> list_all is_hex v"

definition Blank :: "string \<Rightarrow> bool" where
  "Blank s \<longleftrightarrow> TrimSpace s = ''''"

text \<open>The first of the two errors of a check and what follows it.\<close>

definition Validate :: "Request \<Rightarrow> error option" where
  "Validate r =
     (let failed = (\<lambda>res. case res of Inl e \<Rightarrow> Some e | Inr (_ :: string) \<Rightarrow> None) in
      if req_Version r \<noteq> ProtocolVersion
      then Some (Errorf ''unsupported transfer protocol version %d'' [show_int (req_Version r)])
      else if Blank (req_JobID r) \<or> length (req_JobID r) > 200
      then Some (Errorf ''job_id is required and must not exceed 200 bytes'' [])
      else if req_RequiredFreeBytes r < 0
      then Some (Errorf ''required_free_bytes must not be negative'' [])
      else if req_Operation r = OperationCheck then failed (CleanDestination (req_Destination r))
      else if req_Operation r = OperationCommit then
        (if Blank (req_AccountID r) \<or> Blank (req_SourceFileID r)
         then Some (Errorf ''account_id and source_file_id are required for commit'' [])
         else None)
      else if req_Operation r = OperationDownload then
        (if Blank (req_AccountID r) \<or> Blank (req_SourceFileID r) \<or> Blank (req_QuarkCookie r)
         then Some (Errorf ''account_id, source_file_id, and quark_cookie are required for download'' [])
         else if req_Size r < 0 then Some (Errorf ''size must not be negative'' [])
         else if req_Connections r < 1 \<or> req_Connections r > 8
         then Some (Errorf ''connections must be between 1 and 8'' [])
         else failed (CleanFileName (req_Name r)))
      else if req_Operation r = OperationPublish then
        (if Blank (req_AccountID r) \<or> Blank (req_SourceFileID r) \<or> req_Size r < 0 \<or>
            \<not> ValidSHA1 (req_ExpectedSHA1 r)
         then Some (Errorf ''account_id, source_file_id, size, and expected_sha1 are required for publish'' [])
         else (case CleanFileName (req_Name r) of
                 Inl e \<Rightarrow> Some e
               | Inr _ \<Rightarrow> failed (CleanDestination (req_Destination r))))
      else Some (Errorf ''operation must be check, download, publish, or commit'' []))"

section \<open>Where a cleaned path leads\<close>

text \<open>The lexical confinement of \<open>publish.go\<close>; \<open>root\<close> is the result of \<open>filepath.Abs\<close>.\<close>

definition confinedPath :: "string \<Rightarrow> string \<Rightarrow> error + string" where
  "confinedPath root relative =
     (let joined = JoinPath [root, relative] in
      case Rel root joined of
        Inl _ \<Rightarrow> Inl (Errorf ''destination escapes the mount root'' [])
      | Inr inside \<Rightarrow>
          if inside = ''..'' \<or> dotdot_prefix inside
          then Inl (Errorf ''destination escapes the mount root'' [])
          else Inr joined)"

lemma join_slash_Cons:
  "join_slash (s # ss) = (if ss = [] then s else s @ slash # join_slash ss)"
  by (cases ss) (simp_all add: join_slash_def)

lemma TrimSpace_noslash: "slash \<notin> set s \<Longrightarrow> slash \<notin> set (TrimSpace s)"
  using set_TrimSpace [of s] by blast

text \<open>A relative path whose cleaned form does not begin with \<open>..\<close> has only plain elements.\<close>

lemma relative_clean_plain:
  assumes "\<not> IsAbs s" "Clean s \<noteq> ''.''" "Clean s \<noteq> ''..''" "\<not> dotdot_prefix (Clean s)"
  shows "\<forall>w \<in> set (path_segs s). plain_seg w" "path_segs s \<noteq> []" "Clean s = join_slash (path_segs s)"
proof -
  show ne: "path_segs s \<noteq> []" and cl: "Clean s = join_slash (path_segs s)"
    using assms(1,2) by (auto simp: Clean_def split: if_splits)
  have "hd (path_segs s) \<noteq> ''..''"
  proof
    assume "hd (path_segs s) = ''..''"
    then obtain ss where "path_segs s = ''..'' # ss" using ne by (cases "path_segs s") auto
    then have "Clean s = ''..'' \<or> dotdot_prefix (Clean s)"
      unfolding cl by (auto simp: join_slash_Cons dotdot_prefix_def slash_def)
    with assms show False by blast
  qed
  then show "\<forall>w \<in> set (path_segs s). plain_seg w" using assms(1) by (intro path_segs_rel_plain) auto
qed
lemma split_slash_join: "split_slash (xs @ slash # ys) = split_slash xs @ split_slash ys"
proof (induction xs)
  case (Cons c xs)
  then show ?case by (cases "split_slash xs") auto
qed simp

lemma path_segs_join:
  "IsAbs root \<Longrightarrow> path_segs (root @ slash # x) = clean_segs True (rev (path_segs root)) (split_slash x)"
  by (cases root) (simp_all add: path_segs_def split_slash_join clean_segs_append IsAbs_def)

lemma JoinPath_abs:
  assumes "IsAbs root"
  shows "JoinPath [root, x] = slash # join_slash (clean_segs True (rev (path_segs root)) (split_slash x))"
    and "IsAbs (JoinPath [root, x])"
proof -
  have "root \<noteq> []" "IsAbs (root @ slash # x)" using assms by (cases root; simp add: IsAbs_def)+
  then show "JoinPath [root, x] = slash # join_slash (clean_segs True (rev (path_segs root)) (split_slash x))"
    using assms by (simp add: join_slash_def Clean_def path_segs_join)
  then show "IsAbs (JoinPath [root, x])" by (simp add: IsAbs_def)
qed

lemma clean_segs_join_plain:
  assumes "\<forall>w \<in> set segs. plain_seg w"
  shows "clean_segs r acc (split_slash (join_slash segs)) = rev acc @ segs"
proof (cases "segs = []")
  case True
  then show ?thesis by (simp add: join_slash_def)
next
  case False
  then have "split_slash (join_slash segs) = segs" using assms by (simp add: split_join_slash plain_seg_def)
  then show ?thesis using assms by (simp add: clean_segs_plain)
qed

text \<open>Joining appends the elements of a path of plain elements, written with a slash in front or not.\<close>

lemma join_plain:
  assumes "IsAbs root" "\<forall>w \<in> set segs. plain_seg w" "x = join_slash segs \<or> x = slash # join_slash segs"
  shows "JoinPath [root, x] = slash # join_slash (path_segs root @ segs)"
  using assms(3)
  by (auto simp: JoinPath_abs(1) [OF assms(1)] clean_segs_join_plain [OF assms(2)] simp del: JoinPath.simps)

lemma plain_no_dotdot:
  assumes "plain_seg s"
  shows "\<not> dotdot_prefix (s @ slash # t)" "\<not> dotdot_prefix s" "s @ slash # t \<noteq> ''..''"
  using assms by (cases s; cases "tl s"; cases "tl (tl s)"; auto simp: dotdot_prefix_def plain_seg_def slash_def)+

lemma rel_segs_inside:
  assumes "rel_segs bs ts = Some r" "r = [] \<or> hd r \<noteq> ''..''"
  shows "ts = bs @ r"
  using assms by (induction bs ts rule: rel_segs.induct) (auto split: if_splits)

lemma CleanDestination_shape:
  assumes "CleanDestination v = Inr clean"
  shows "\<exists>segs. (\<forall>w \<in> set segs. plain_seg w) \<and> clean \<noteq> '''' \<and>
    (if IsAbs (TrimSpace v) then clean = slash # join_slash segs else clean = join_slash segs \<and> segs \<noteq> [])"
proof (cases "IsAbs (TrimSpace v)")
  case True
  then have "clean = slash # join_slash (path_segs (TrimSpace v))"
    using assms by (simp add: CleanDestination_def Let_def Clean_def split: if_splits)
  with True path_segs_abs_plain show ?thesis by auto
next
  case False
  have c: "clean = Clean (TrimSpace v)" "clean \<noteq> ''.''" "clean \<noteq> ''..''" "\<not> dotdot_prefix clean" "clean \<noteq> ''''"
    using assms by (auto simp: CleanDestination_def Let_def split: if_splits)
  with relative_clean_plain [OF False] False show ?thesis by auto
qed

lemma CleanFileName_plain:
  assumes "CleanFileName v = Inr name"
  shows "plain_seg name" "nul \<notin> set name"
  using assms by (auto simp: CleanFileName_def Let_def plain_seg_def split: if_splits)

lemma confinedPath_sound:
  assumes "IsAbs root" "confinedPath root rel = Inr p"
  shows "\<exists>segs. (\<forall>w \<in> set segs. plain_seg w) \<and> p = slash # join_slash (path_segs root @ segs)"
proof -
  have p: "p = JoinPath [root, rel]" and inside: "Rel root p = Inr inside \<Longrightarrow> inside \<noteq> ''..'' \<and> \<not> dotdot_prefix inside" for inside
    using assms(2) by (auto simp: confinedPath_def Let_def split: sum.splits if_splits)
  obtain inside where rel: "Rel root p = Inr inside"
    using assms(2) p by (auto simp: confinedPath_def Let_def split: sum.splits)
  let ?s = "root @ slash # rel"
  have "IsAbs ?s" using assms(1) by (cases root) (simp_all add: IsAbs_def)
  then have "p = slash # join_slash (path_segs ?s)" "\<forall>w \<in> set (path_segs ?s). plain_seg w"
    using p JoinPath_abs(1) [OF assms(1)] path_segs_join [OF assms(1)] path_segs_abs_plain by auto
  then obtain segs where segs: "\<forall>w \<in> set segs. plain_seg w" "p = slash # join_slash segs" by blast
  have ps: "path_segs p = segs" "IsAbs p" "Clean p = p"
    using path_segs_abs_join [OF segs(1)] Clean_abs_id [OF segs(1)] segs(2) by auto
  show ?thesis
  proof (cases "Clean p = Clean root")
    case True
    then have "path_segs root = segs"
      using Clean_abs_segs [OF assms(1)] Clean_abs_segs [OF ps(2)] ps(1) by metis
    with segs show ?thesis by (intro exI [of _ "[]"]) auto
  next
    case False
    with rel ps assms(1) obtain r where r: "rel_segs (path_segs root) segs = Some r" "inside = join_slash r"
      by (auto simp: Rel_def split: option.splits)
    have "r = [] \<or> hd r \<noteq> ''..''"
    proof (rule ccontr)
      assume "\<not> ?thesis"
      then obtain r' where "r = ''..'' # r'" by (cases r) auto
      then have "inside = ''..'' \<or> dotdot_prefix inside"
        using r(2) by (auto simp: join_slash_Cons dotdot_prefix_def slash_def)
      with inside [OF rel] show False by blast
    qed
    with rel_segs_inside [OF r(1)] have "segs = path_segs root @ r" by blast
    with segs show ?thesis by auto
  qed
qed

lemma confinedPath_complete:
  assumes "IsAbs root" "CleanDestination v = Inr clean"
  shows "\<exists>segs. confinedPath root clean = Inr (slash # join_slash (path_segs root @ segs)) \<and>
    (\<forall>w \<in> set segs. plain_seg w) \<and> (clean = join_slash segs \<or> clean = slash # join_slash segs)"
proof -
  obtain segs where segs: "\<forall>w \<in> set segs. plain_seg w" "clean \<noteq> ''''"
    "clean = join_slash segs \<or> clean = slash # join_slash segs"
    using CleanDestination_shape [OF assms(2)] by (meson)
  let ?p = "slash # join_slash (path_segs root @ segs)"
  have join: "JoinPath [root, clean] = ?p" by (rule join_plain [OF assms(1) segs(1,3)])
  have plain: "\<forall>w \<in> set (path_segs root @ segs). plain_seg w"
    using segs(1) path_segs_abs_plain [OF assms(1)] by auto
  have ok: "(case Rel root ?p of Inl _ \<Rightarrow> False | Inr inside \<Rightarrow> inside \<noteq> ''..'' \<and> \<not> dotdot_prefix inside)"
  proof (cases "Clean ?p = Clean root")
    case True
    then show ?thesis by (simp add: Rel_def dotdot_prefix_def)
  next
    case False
    have r: "rel_segs (path_segs root) (path_segs ?p) = Some segs"
      using path_segs_abs_join(1) [OF plain] by (simp add: rel_segs_prefix)
    have "join_slash segs \<noteq> ''..'' \<and> \<not> dotdot_prefix (join_slash segs)"
    proof (cases segs)
      case (Cons s ss)
      then have "plain_seg s" using segs(1) by simp
      with plain_no_dotdot [of s] Cons show ?thesis by (auto simp: join_slash_Cons plain_seg_def)
    qed (simp add: join_slash_def dotdot_prefix_def)
    with False r assms(1) path_segs_abs_join(2) [OF plain] show ?thesis by (simp add: Rel_def)
  qed
  then show ?thesis
    using segs join unfolding confinedPath_def by (auto simp: Let_def split: sum.splits)
qed

lemma final_path:
  assumes "IsAbs root" "CleanDestination v = Inr clean" "CleanFileName n = Inr name"
  shows "\<exists>dir segs. confinedPath root clean = Inr dir \<and> (\<forall>w \<in> set segs. plain_seg w) \<and>
        path_segs dir = path_segs root @ segs \<and>
        JoinPath [dir, name] = slash # join_slash (path_segs root @ segs @ [name]) \<and> plain_seg name"
proof -
  from confinedPath_complete [OF assms(1,2)] obtain segs
    where segs: "confinedPath root clean = Inr (slash # join_slash (path_segs root @ segs))"
      "\<forall>w \<in> set segs. plain_seg w" by blast
  let ?dir = "slash # join_slash (path_segs root @ segs)"
  have plain: "\<forall>w \<in> set (path_segs root @ segs). plain_seg w"
    using segs(2) path_segs_abs_plain [OF assms(1)] by auto
  have "JoinPath [?dir, join_slash [name]] = slash # join_slash (path_segs ?dir @ [name])"
    using CleanFileName_plain(1) [OF assms(3)] by (intro JoinPath_below path_segs_abs_join(2) plain) auto
  then have "JoinPath [?dir, name] = slash # join_slash (path_segs root @ segs @ [name])"
    by (simp add: path_segs_abs_join(1) [OF plain] join_slash_Cons del: JoinPath.simps)
  with segs CleanFileName_plain(1) [OF assms(3)] path_segs_abs_join(1) [OF plain]
  show ?thesis by blast
qed

text \<open>
  C35. Whatever destination is given, a path that \<open>confinedPath\<close> accepts consists of the elements
  of the mount root followed by ordinary elements, none of them empty, \<open>.\<close> or \<open>..\<close>. A destination
  that \<open>CleanDestination\<close> accepts is never refused by it, and a cleaned file name adds exactly one
  element below it.
\<close>

theorem destination_confined:
  assumes "IsAbs root"
  shows "(\<forall>rel p. confinedPath root rel = Inr p \<longrightarrow>
      (\<exists>segs. (\<forall>w \<in> set segs. plain_seg w) \<and> p = slash # join_slash (path_segs root @ segs))) \<and>
    (\<forall>v clean n name. CleanDestination v = Inr clean \<longrightarrow> CleanFileName n = Inr name \<longrightarrow>
      (\<exists>dir segs. confinedPath root clean = Inr dir \<and> (\<forall>w \<in> set segs. plain_seg w) \<and>
        path_segs dir = path_segs root @ segs \<and>
        JoinPath [dir, name] = slash # join_slash (path_segs root @ segs @ [name]) \<and> plain_seg name))"
  using confinedPath_sound [OF assms] final_path [OF assms] by blast

lemmas path_eval = CleanDestination_def CleanFileName_def confinedPath_def Rel_def Clean_def path_segs_def
  join_slash_def dotdot_prefix_def Base_def strip_slashes_def IsAbs_def nul_def slash_def plain_char_def
  TrimSpace_plain

theorem destination_confined_witness:
  "\<exists>segs. (\<forall>w \<in> set segs. plain_seg w) \<and> ''/m/a'' = slash # join_slash (path_segs ''/m'' @ segs)"
proof -
  have "confinedPath ''/m'' ''x/../a'' = Inr ''/m/a''" by (simp add: path_eval)
  moreover have "IsAbs ''/m''" by (simp add: IsAbs_def slash_def)
  ultimately show ?thesis using destination_confined [of "''/m''"] by blast
qed

text \<open>
  The cleaning of destinations is not stable. White space in front hides an absolute path from
  the check for relative paths, so \<open>check\<close> accepts \<open>" /etc"\<close>, and even \<open>" /"\<close> for the mount root
  itself, as destinations; \<open>Publish\<close>, which cleans once more in \<open>CheckDestination\<close>, refuses what
  came out. And a cleaned destination may end in white space that the second cleaning drops, so
  \<open>CheckDestination\<close> inspects another directory than the one \<open>Publish\<close> writes to.
\<close>

theorem destination_cleaning_unstable:
  "CleanDestination '' /etc'' = Inr ''/etc'' \<and> (\<exists>e. CleanDestination ''/etc'' = Inl e) \<and>
   CleanDestination '' /'' = Inr ''/'' \<and> confinedPath ''/m'' ''/'' = Inr ''/m'' \<and>
   CleanDestination ''a /b/..'' = Inr ''a '' \<and> CleanDestination ''a '' = Inr ''a'' \<and>
   confinedPath ''/m'' ''a '' = Inr ''/m/a '' \<and> confinedPath ''/m'' ''a'' = Inr ''/m/a''"
proof -
  have t: "TrimSpace '' /etc'' = ''/etc''" "TrimSpace '' /'' = ''/''" "TrimSpace ''a '' = ''a''" by code_simp+
  show ?thesis by (simp add: path_eval t)
qed

end
