(* ===== verification/Download.thy ===== *)
theory Download
  imports DbMonad TransferProtocol "HOL-Library.AList"
begin

text \<open>
  The segmented download of \<open>internal/transfer\<close>: \<open>checkpoint.go\<close> (the checkpoint file that
  records finished segments) and \<open>download.go\<close> (the download that fills the spool file from
  ranged responses and resumes from the checkpoint).

  A program runs over a \<open>world\<close>: the spool file, the checkpoint store, the number of requests
  made, and the progress counter. Failures of the file system, a cancelled context and a report
  that is not due yet are driven by the fault bits of \<open>DbMonad\<close>. What the provider answers to the
  \<open>k\<close>-th range request is a parameter \<open>net k offset length\<close>.

  The Go routines of the worker pool write disjoint parts of the spool and serialise the
  checkpoint and the counter by mutexes, so a run is determined by the order in which the segment
  jobs complete, a parameter, and by the faults each of them meets.
\<close>

section \<open>The checkpoint file\<close>

type_synonym segments = "(int \<times> int64) list"

record checkpointState =
  cs_Version :: int
  cs_SourceKey :: string
  cs_SourceRevision :: string
  cs_Size :: int64
  cs_SegmentSize :: int64
  cs_Segments :: "segments option"

text \<open>What the file decodes to: the state that was encoded, or nothing.\<close>

datatype ckfile = CkJSON checkpointState | CkGarbage

record FileCheckpoint =
  fc_sourceKey :: string
  fc_sourceRevision :: string
  fc_size :: int64
  fc_segmentSize :: int64
  fc_loaded :: bool
  fc_state :: checkpointState
  fc_file :: "ckfile option"


definition zero_checkpointState :: checkpointState where
  "zero_checkpointState = \<lparr>cs_Version = 0, cs_SourceKey = '''', cs_SourceRevision = '''', cs_Size = 0,
     cs_SegmentSize = 0, cs_Segments = None\<rparr>"

text \<open>A new object over the file found at its path.\<close>

definition NewFileCheckpoint ::
  "ckfile option \<Rightarrow> string \<Rightarrow> string \<Rightarrow> int64 \<Rightarrow> int64 \<Rightarrow> FileCheckpoint" where
  "NewFileCheckpoint file sourceKey sourceRevision sz segmentSize =
     \<lparr>fc_sourceKey = sourceKey, fc_sourceRevision = sourceRevision, fc_size = sz,
      fc_segmentSize = segmentSize, fc_loaded = False, fc_state = zero_checkpointState,
      fc_file = file\<rparr>"

definition SourceKey :: "string \<Rightarrow> string \<Rightarrow> string" where
  "SourceKey accountID sourceFileID = sha1_hex (accountID @ CHR 0x00 # sourceFileID)"

text \<open>A file system call without a lasting effect that matters here.\<close>

definition fs_call :: "('d, unit) dbm" where
  "fs_call = db_exec (\<lambda>d. ((), d))"

definition fresh_state :: "FileCheckpoint \<Rightarrow> checkpointState" where
  "fresh_state c = \<lparr>cs_Version = ProtocolVersion, cs_SourceKey = fc_sourceKey c,
     cs_SourceRevision = fc_sourceRevision c, cs_Size = fc_size c,
     cs_SegmentSize = fc_segmentSize c, cs_Segments = Some []\<rparr>"

definition same_identity :: "FileCheckpoint \<Rightarrow> checkpointState \<Rightarrow> bool" where
  "same_identity c stored \<longleftrightarrow> cs_Version stored = ProtocolVersion \<and>
     cs_SourceKey stored = fc_sourceKey c \<and> cs_SourceRevision stored = fc_sourceRevision c \<and>
     cs_Size stored = fc_size c \<and> cs_SegmentSize stored = fc_segmentSize c \<and>
     cs_Segments stored \<noteq> None"

definition loadLocked :: "(FileCheckpoint, unit) dbm" where
  "loadLocked =
     db_bind (db_get fc_loaded) (\<lambda>loaded.
     if loaded then db_ret ()
     else db_bind (db_upd (\<lambda>c. c\<lparr>fc_state := fresh_state c\<rparr>)) (\<lambda>_.
       db_bind (db_query (\<lambda>c. Inr (fc_file c))) (\<lambda>file.
         case file of
           None \<Rightarrow> db_upd (\<lambda>c. c\<lparr>fc_loaded := True\<rparr>)
         | Some CkGarbage \<Rightarrow> db_fail (Errorf ''decode transfer checkpoint'' [])
         | Some (CkJSON stored) \<Rightarrow>
             db_bind (db_get (\<lambda>c. same_identity c stored)) (\<lambda>same.
             if \<not> same then db_fail (Errorf ''transfer checkpoint identity is ambiguous'' [])
             else db_upd (\<lambda>c. c\<lparr>fc_state := stored, fc_loaded := True\<rparr>)))))"

definition state_segments :: "checkpointState \<Rightarrow> segments" where
  "state_segments st = (case cs_Segments st of None \<Rightarrow> [] | Some segs \<Rightarrow> segs)"

definition FileLoad :: "(FileCheckpoint, segments) dbm" where
  "FileLoad = db_bind loadLocked (\<lambda>_. db_get (\<lambda>c. state_segments (fc_state c)))"

text \<open>
  \<open>MkdirAll\<close>, \<open>Remove\<close> and \<open>OpenFile\<close> of the temporary file, \<open>Encode\<close>, \<open>Sync\<close>, \<open>Close\<close>, then the
  rename that makes the state current, then \<open>Open\<close> and \<open>Sync\<close> of the directory.
\<close>

definition persistLocked :: "(FileCheckpoint, unit) dbm" where
  "persistLocked =
     db_bind (db_foreach (\<lambda>_. fs_call) [(), (), (), (), (), ()]) (\<lambda>_.
     db_bind (db_exec (\<lambda>c. ((), c\<lparr>fc_file := Some (CkJSON (fc_state c))\<rparr>))) (\<lambda>_.
     db_foreach (\<lambda>_. fs_call) [(), ()]))"

definition FileSave :: "int \<Rightarrow> int64 \<Rightarrow> (FileCheckpoint, unit) dbm" where
  "FileSave index sz =
     db_bind loadLocked (\<lambda>_.
     db_bind (db_upd (\<lambda>c. c\<lparr>fc_state := (fc_state c)\<lparr>cs_Segments :=
                Some (AList.update index sz (state_segments (fc_state c)))\<rparr>\<rparr>)) (\<lambda>_.
     persistLocked))"

definition FileRemove :: "(FileCheckpoint, unit) dbm" where
  "FileRemove =
     db_bind (db_exec (\<lambda>c. ((), c\<lparr>fc_file := None\<rparr>))) (\<lambda>_.
     db_upd (\<lambda>c. c\<lparr>fc_loaded := False, fc_state := zero_checkpointState\<rparr>))"

section \<open>The world of a download\<close>

datatype node = Regular string | OtherNode

record 'c world =
  w_spool :: "node option"
  w_store :: 'c
  w_calls :: nat
  w_downloaded :: int64
  w_reports :: "int64 list"

definition on_store :: "('c, 'a) dbm \<Rightarrow> ('c world, 'a) dbm" where
  "on_store m = (\<lambda>fs w. case m fs (w_store w) of (r, fs', c) \<Rightarrow> (r, fs', w\<lparr>w_store := c\<rparr>))"

definition spool_bytes :: "'c world \<Rightarrow> string" where
  "spool_bytes w = (case w_spool w of Some (Regular s) \<Rightarrow> s | _ \<Rightarrow> [])"

definition upd_spool :: "(string \<Rightarrow> string) \<Rightarrow> 'c world \<Rightarrow> 'c world" where
  "upd_spool f w = w\<lparr>w_spool := Some (Regular (f (spool_bytes w)))\<rparr>"

definition zero_byte :: char where
  "zero_byte = CHR 0x00"

definition truncate_bytes :: "nat \<Rightarrow> string \<Rightarrow> string" where
  "truncate_bytes n s = take n s @ replicate (n - length s) zero_byte"

definition write_at :: "nat \<Rightarrow> string \<Rightarrow> string \<Rightarrow> string" where
  "write_at off data s =
     truncate_bytes off s @ data @ drop (off + length data) s"

text \<open>A response body: the bytes it will deliver, how it ends, and what \<open>Close\<close> returns.\<close>

record body =
  b_data :: string
  b_end :: error
  b_close :: "error option"

type_synonym net = "nat \<Rightarrow> int \<Rightarrow> int \<Rightarrow> error + body"

definition ErrEOF :: error where
  "ErrEOF = Errorf ''EOF'' []"

definition ErrUnexpectedEOF :: error where
  "ErrUnexpectedEOF = Errorf ''unexpected EOF'' []"

text \<open>\<open>io.ReadFull\<close> into a buffer of \<open>n\<close> bytes.\<close>

definition ReadFull :: "nat \<Rightarrow> body \<Rightarrow> string \<times> error option \<times> body" where
  "ReadFull n b =
     (if n \<le> length (b_data b) then (take n (b_data b), None, b\<lparr>b_data := drop n (b_data b)\<rparr>)
      else (b_data b,
            Some (if b_data b \<noteq> [] \<and> b_end b = ErrEOF then ErrUnexpectedEOF else b_end b),
            b\<lparr>b_data := []\<rparr>))"

definition ctx_err :: "('d, error option) dbm" where
  "ctx_err = db_bind (db_try fs_call) (\<lambda>r. db_ret (case r of Inl _ \<Rightarrow> Some Canceled | Inr _ \<Rightarrow> None))"

definition sync_err :: "('d, error option) dbm" where
  "sync_err = db_bind (db_try fs_call) (\<lambda>r. db_ret (case r of Inl e \<Rightarrow> Some e | Inr _ \<Rightarrow> None))"

text \<open>The \<open>report\<close> callback: it emits the progress and may fail.\<close>

definition emit_report :: "('c world, unit) dbm" where
  "emit_report = db_exec (\<lambda>w. ((), w\<lparr>w_reports := w_reports w @ [w_downloaded w]\<rparr>))"

text \<open>The closure \<open>Download\<close> passes to \<open>downloadSegment\<close>: count, and report when it is time.\<close>

definition report_chunk :: "bool \<Rightarrow> int64 \<Rightarrow> int64 \<Rightarrow> ('c world, error option) dbm" where
  "report_chunk reporting sz count =
     db_bind (db_upd (\<lambda>w. w\<lparr>w_downloaded := min sz (w_downloaded w + count)\<rparr>)) (\<lambda>_.
     if \<not> reporting then db_ret None
     else db_bind (db_try fs_call) (\<lambda>due.
       case due of
         Inl _ \<Rightarrow> db_ret None
       | Inr _ \<Rightarrow> db_bind (db_try emit_report) (\<lambda>r.
           db_ret (case r of Inl e \<Rightarrow> Some e | Inr _ \<Rightarrow> None))))"

definition write_data :: "int \<Rightarrow> string \<Rightarrow> ('c world, error option) dbm" where
  "write_data off data =
     (if data = [] then db_ret None
      else db_bind (db_try (db_exec (\<lambda>w. ((), upd_spool (write_at (nat off) data) w)))) (\<lambda>r.
        db_ret (case r of Inl e \<Rightarrow> Some e | Inr _ \<Rightarrow> None)))"

definition ended_error :: "int64 \<Rightarrow> int64 \<Rightarrow> error" where
  "ended_error written len =
     Errorf ''ranged response ended at %d of %d bytes'' [show_int written, show_int len]"

text \<open>What follows the write and the report of one read when the read ended with an error.\<close>

definition read_ended :: "error \<Rightarrow> int64 \<Rightarrow> int64 \<Rightarrow> error option" where
  "read_ended e written len =
     (if e = ErrEOF \<or> e = ErrUnexpectedEOF
      then if written = len then None else Some (ended_error written len)
      else Some e)"

text \<open>
  The loop of \<open>consumeRange\<close>; the result is the error that ends the call, if any, and the bytes
  written so far. A buffer of no bytes would read nothing for ever; \<open>Download\<close> refuses it, and the
  guard on \<open>bufferSize\<close> only makes the recursion end.
\<close>

function consume_loop ::
  "(int64 \<Rightarrow> ('c world, error option) dbm) \<Rightarrow> nat \<Rightarrow> int64 \<Rightarrow> int64 \<Rightarrow> int64 \<Rightarrow> body \<Rightarrow>
   ('c world, error option \<times> int64) dbm" where
  "consume_loop report bufferSize start len written body =
     (if \<not> written < len \<or> bufferSize = 0 then db_ret (None, written)
      else db_bind ctx_err (\<lambda>cancelled.
        if cancelled \<noteq> None then db_ret (cancelled, written)
        else case ReadFull (nat (min (int bufferSize) (len - written))) body of
          (data, readErr, body') \<Rightarrow>
            db_bind (write_data (start + written) data) (\<lambda>writeErr.
            if writeErr \<noteq> None then db_ret (writeErr, written)
            else db_bind (if data = [] then db_ret None else report (int (length data))) (\<lambda>repErr.
            if repErr \<noteq> None then db_ret (repErr, written + int (length data))
            else case readErr of
                Some e \<Rightarrow> db_ret (read_ended e (written + int (length data)) len,
                                  written + int (length data))
              | None \<Rightarrow> consume_loop report bufferSize start len (written + int (length data)) body'))))"
  by pat_completeness auto
termination
  by (relation "measure (\<lambda>(_, _, _, len, written, _). nat (len - written))")
    (auto simp: ReadFull_def split: if_splits)

declare consume_loop.simps [simp del]

definition consumeRange ::
  "(int64 \<Rightarrow> ('c world, error option) dbm) \<Rightarrow> nat \<Rightarrow> int64 \<Rightarrow> int64 \<Rightarrow> int64 \<Rightarrow> body \<Rightarrow>
   ('c world, error option \<times> int64) dbm" where
  "consumeRange report bufferSize start len written body =
     db_bind (consume_loop report bufferSize start len written body) (\<lambda>(err, written').
     if err \<noteq> None then db_ret (err, written')
     else if b_close body \<noteq> None then db_ret (b_close body, written')
     else db_bind sync_err (\<lambda>e. db_ret (e, written')))"

text \<open>A range request; the answer may be an error of the provider or of the connection.\<close>

definition open_range :: "net \<Rightarrow> int64 \<Rightarrow> int64 \<Rightarrow> ('c world, error + body) dbm" where
  "open_range net offset len =
     db_bind (db_get (\<lambda>w. net (w_calls w) offset len)) (\<lambda>answer.
     db_bind (db_upd (\<lambda>w. w\<lparr>w_calls := Suc (w_calls w)\<rparr>)) (\<lambda>_. db_ret answer))"

text \<open>The attempts left, whether this is the first one, the bytes written and the last error.\<close>

fun segment_attempts ::
  "(int64 \<Rightarrow> ('c world, error option) dbm) \<Rightarrow> net \<Rightarrow> nat \<Rightarrow> int64 \<Rightarrow> int64 \<Rightarrow>
   nat \<Rightarrow> bool \<Rightarrow> int64 \<Rightarrow> error option \<Rightarrow> ('c world, error option) dbm" where
  "segment_attempts report net bufferSize start len 0 first written lastErr = db_ret lastErr"
| "segment_attempts report net bufferSize start len (Suc attempts) first written lastErr =
     db_bind (if first then db_ret None else ctx_err) (\<lambda>cancelled.
     if cancelled \<noteq> None then db_ret cancelled
     else db_bind (open_range net (start + written) (len - written)) (\<lambda>answer.
       case answer of
         Inl e \<Rightarrow>
           db_bind ctx_err (\<lambda>cancelled.
           if cancelled \<noteq> None then db_ret cancelled
           else segment_attempts report net bufferSize start len attempts False written (Some e))
       | Inr body \<Rightarrow>
           db_bind (consumeRange report bufferSize start len written body) (\<lambda>(err, written').
           if err = None then db_ret None
           else db_bind ctx_err (\<lambda>cancelled.
             if cancelled \<noteq> None then db_ret cancelled
             else segment_attempts report net bufferSize start len attempts False written' err))))"

definition downloadSegment ::
  "(int64 \<Rightarrow> ('c world, error option) dbm) \<Rightarrow> net \<Rightarrow> nat \<Rightarrow> int64 \<Rightarrow> int64 \<Rightarrow> nat \<Rightarrow>
   ('c world, error option) dbm" where
  "downloadSegment report net bufferSize start len attempts =
     segment_attempts report net bufferSize start len attempts True 0 None"

section \<open>The download\<close>

record DownloadOptions =
  opt_Path :: string
  opt_Name :: string
  opt_Size :: int64
  opt_ExpectedSHA1 :: string
  opt_SegmentSize :: int64
  opt_Connections :: int
  opt_Attempts :: int
  opt_BufferSize :: int

record DownloadResult =
  dl_Path :: string
  dl_SHA1 :: string
  dl_PreSHA1 :: string
  dl_Downloaded :: int64

definition total_segments :: "DownloadOptions \<Rightarrow> int" where
  "total_segments opts = (opt_Size opts + opt_SegmentSize opts - 1) div opt_SegmentSize opts"

definition segment_length :: "DownloadOptions \<Rightarrow> int \<Rightarrow> int64" where
  "segment_length opts index =
     min (opt_SegmentSize opts) (opt_Size opts - index * opt_SegmentSize opts)"

text \<open>
  The loop over the segments: the bytes a resumed download starts with and the segments left, or
  the first segment whose recorded size is wrong.
\<close>

fun plan_segments ::
  "DownloadOptions \<Rightarrow> segments \<Rightarrow> int list \<Rightarrow> int64 \<Rightarrow> int list \<Rightarrow> error + int64 \<times> int list" where
  "plan_segments opts segs [] downloaded pending = Inr (downloaded, pending)"
| "plan_segments opts segs (index # rest) downloaded pending =
     (case map_of segs index of
        Some recorded \<Rightarrow>
          if recorded \<noteq> segment_length opts index
          then Inl (Errorf ''segment %d checkpoint size is ambiguous'' [show_int index])
          else plan_segments opts segs rest (downloaded + recorded) pending
      | None \<Rightarrow> plan_segments opts segs rest downloaded (pending @ [index]))"

definition outside_segment :: "DownloadOptions \<Rightarrow> segments \<Rightarrow> int option" where
  "outside_segment opts segs =
     (case filter (\<lambda>i. i < 0 \<or> i \<ge> total_segments opts) (map fst segs) of
        [] \<Rightarrow> None | i # _ \<Rightarrow> Some i)"

text \<open>
  The order in which the pool completes its jobs: any permutation of the pending segments is
  \<open>pool_order order pending\<close> for some \<open>order\<close>.
\<close>

definition pool_order :: "int list \<Rightarrow> int list \<Rightarrow> int list" where
  "pool_order order pending =
     filter (\<lambda>i. i \<in> set pending) (remdups order) @ filter (\<lambda>i. i \<notin> set order) pending"

text \<open>One job of a worker: download the segment, then record it.\<close>

definition run_segment ::
  "(int \<Rightarrow> int64 \<Rightarrow> ('c, unit) dbm) \<Rightarrow> net \<Rightarrow> bool \<Rightarrow> DownloadOptions \<Rightarrow> int \<Rightarrow>
   ('c world, error option) dbm" where
  "run_segment save net reporting opts index =
     db_bind (downloadSegment (report_chunk reporting (opt_Size opts)) net (nat (opt_BufferSize opts))
                (index * opt_SegmentSize opts) (segment_length opts index) (nat (opt_Attempts opts))) (\<lambda>err.
     if err \<noteq> None then db_ret err
     else db_bind (db_try (on_store (save index (segment_length opts index)))) (\<lambda>saved.
       db_ret (case saved of Inl e \<Rightarrow> Some e | Inr _ \<Rightarrow> None)))"

definition segment_failure :: "DownloadOptions \<Rightarrow> int \<Rightarrow> error \<Rightarrow> error" where
  "segment_failure opts index e =
     Wrapf ''segment %d of %s failed after %d attempts: %w''
       [show_int index, opt_Name opts, show_int (opt_Attempts opts)] e"

text \<open>
  The pool: the first failure is kept and cancels the rest; a worker that finds the run cancelled
  gives up silently, and \<open>dropped\<close> says that a segment was left out in this way. Only the jobs
  the other workers had in hand, at most \<open>flying\<close>, can still finish after the first failure.
\<close>

fun run_pool ::
  "(int \<Rightarrow> ('c world, error option) dbm) \<Rightarrow> DownloadOptions \<Rightarrow> nat \<Rightarrow> int list \<Rightarrow> error option \<Rightarrow>
   bool \<Rightarrow> ('c world, error option \<times> bool) dbm" where
  "run_pool job opts flying [] failure dropped = db_ret (failure, dropped)"
| "run_pool job opts flying (index # rest) failure dropped =
     db_bind ctx_err (\<lambda>cancelled.
     if cancelled \<noteq> None \<or> failure \<noteq> None \<and> flying = 0
     then run_pool job opts flying rest failure True
     else db_bind (job index) (\<lambda>err.
       run_pool job opts (if failure = None then flying else flying - 1) rest
         (if failure = None then map_option (segment_failure opts index) err else failure) dropped))"

definition stringsUpperHex :: "string \<Rightarrow> string" where
  "stringsUpperHex s = map ascii_upper s"

definition Hashes :: "int64 \<Rightarrow> ('c world, string \<times> string) dbm" where
  "Hashes sz = db_query (\<lambda>w. Inr (stringsUpperHex (sha1_hex (spool_bytes w)),
     stringsUpperHex (sha1_hex (take (nat (min sz (128 * 1024))) (spool_bytes w)))))"

definition fold_byte :: "char \<Rightarrow> char" where
  "fold_byte a = (if of_char a \<ge> (97 :: nat) \<and> of_char a \<le> (122 :: nat)
                  then char_of (of_char a - (97 - 65 :: nat)) else a)"

fun equalFoldASCII :: "string \<Rightarrow> string \<Rightarrow> bool" where
  "equalFoldASCII [] [] = True"
| "equalFoldASCII (a # left) (b # right) = (fold_byte a = fold_byte b \<and> equalFoldASCII left right)"
| "equalFoldASCII _ _ = False"

definition valid_options :: "DownloadOptions \<Rightarrow> bool" where
  "valid_options opts \<longleftrightarrow> \<not> (opt_Path opts = '''' \<or> opt_Size opts < 0 \<or> opt_SegmentSize opts \<le> 0 \<or>
     opt_Connections opts < 1 \<or> opt_Attempts opts < 1 \<or> opt_BufferSize opts < 1)"

definition maybe_report :: "bool \<Rightarrow> ('c world, unit) dbm" where
  "maybe_report reporting = (if reporting then emit_report else db_ret ())"

text \<open>The block \<open>if len(pending) > 0\<close>: run the pool over the pending segments.\<close>

definition fill_spool ::
  "(int \<Rightarrow> int64 \<Rightarrow> ('c, unit) dbm) \<Rightarrow> net \<Rightarrow> bool \<Rightarrow> int list \<Rightarrow> DownloadOptions \<Rightarrow> int list \<Rightarrow>
   ('c world, unit) dbm" where
  "fill_spool save net reporting order opts pending =
     (if pending = [] then db_ret ()
      else db_bind (run_pool (run_segment save net reporting opts) opts
                      (nat (opt_Connections opts) - 1) (pool_order order pending) None False)
             (\<lambda>(failure, dropped).
        case failure of
          Some e \<Rightarrow> db_fail e
        | None \<Rightarrow> db_bind ctx_err (\<lambda>cancelled.
            if dropped \<or> cancelled \<noteq> None then db_fail Canceled
            else maybe_report reporting)))"

definition verify_spool :: "DownloadOptions \<Rightarrow> ('c world, DownloadResult) dbm" where
  "verify_spool opts =
     db_bind fs_call (\<lambda>_.
     db_bind (Hashes (opt_Size opts)) (\<lambda>(sha, pre).
     if opt_ExpectedSHA1 opts \<noteq> '''' \<and> \<not> equalFoldASCII (opt_ExpectedSHA1 opts) sha
     then db_fail (Errorf ''source SHA-1 changed for %s'' [opt_Name opts])
     else db_ret \<lparr>dl_Path = opt_Path opts, dl_SHA1 = sha, dl_PreSHA1 = pre,
                  dl_Downloaded = opt_Size opts\<rparr>))"

definition resume_spool ::
  "(int \<Rightarrow> int64 \<Rightarrow> ('c, unit) dbm) \<Rightarrow> net \<Rightarrow> bool \<Rightarrow> int list \<Rightarrow> DownloadOptions \<Rightarrow> segments \<Rightarrow>
   ('c world, DownloadResult) dbm" where
  "resume_spool save net reporting order opts segs =
     (case plan_segments opts segs [0..total_segments opts - 1] 0 [] of
        Inl e \<Rightarrow> db_fail e
      | Inr (downloaded, pending) \<Rightarrow>
          (case outside_segment opts segs of
             Some i \<Rightarrow> db_fail (Errorf ''segment %d checkpoint is outside the source'' [show_int i])
           | None \<Rightarrow>
               db_bind (db_upd (\<lambda>w. w\<lparr>w_downloaded := downloaded\<rparr>)) (\<lambda>_.
               db_bind (maybe_report reporting) (\<lambda>_.
               db_bind (fill_spool save net reporting order opts pending) (\<lambda>_.
               verify_spool opts)))))"

definition Download ::
  "('c, segments) dbm \<Rightarrow> (int \<Rightarrow> int64 \<Rightarrow> ('c, unit) dbm) \<Rightarrow> net \<Rightarrow> bool \<Rightarrow> int list \<Rightarrow>
   DownloadOptions \<Rightarrow> ('c world, DownloadResult) dbm" where
  "Download load save net reporting order opts =
     (if \<not> valid_options opts
      then db_fail (Errorf ''invalid segmented download configuration'' [])
      else db_bind (on_store load) (\<lambda>loaded.
      db_bind (db_query (\<lambda>w. Inr (w_spool w))) (\<lambda>info.
      if info = Some OtherNode
      then db_fail (Errorf ''transfer spool is not a regular file'' [])
      else db_bind (db_exec (\<lambda>w. ((), upd_spool (\<lambda>s. s) w))) (\<lambda>_.
        db_bind (db_exec (\<lambda>w. ((), upd_spool (truncate_bytes (nat (opt_Size opts))) w))) (\<lambda>_.
        resume_spool save net reporting order opts (if info = None then [] else loaded))))))"
section \<open>What is on disk: good positions\<close>

definition good :: "string \<Rightarrow> 'c world \<Rightarrow> nat \<Rightarrow> bool" where
  "good content w p \<longleftrightarrow> p < length (spool_bytes w) \<and> p < length content \<and> spool_bytes w ! p = content ! p"

definition filled :: "string \<Rightarrow> 'c world \<Rightarrow> int \<Rightarrow> int64 \<Rightarrow> bool" where
  "filled content w start len \<longleftrightarrow> (\<forall>p. start \<le> int p \<and> int p < start + len \<longrightarrow> good content w p)"

text \<open>What the download of segments does to the world: no good position is lost.\<close>

definition fills :: "string \<Rightarrow> 'c world \<Rightarrow> 'c world \<Rightarrow> bool" where
  "fills content w w' \<longleftrightarrow> w_store w' = w_store w \<and>
     (length (spool_bytes w) = length content \<longrightarrow> length (spool_bytes w') = length content) \<and>
     (\<forall>p. good content w p \<longrightarrow> good content w' p)"

lemma fills_refl [simp]: "fills content w w"
  by (simp add: fills_def)

lemma fills_trans: "fills content w w' \<Longrightarrow> fills content w' w'' \<Longrightarrow> fills content w w''"
  by (simp add: fills_def)

lemma filled_mono: "filled content w a n \<Longrightarrow> fills content w w' \<Longrightarrow> filled content w' a n"
  by (simp add: filled_def fills_def)

text \<open>A memory-only step leaves the spool and the store alone.\<close>

lemma fills_same:
  "w_store w' = w_store w \<Longrightarrow> spool_bytes w' = spool_bytes w \<Longrightarrow> fills content w w'"
  by (simp add: fills_def good_def)

lemma length_truncate_bytes [simp]: "length (truncate_bytes n s) = n"
  by (simp add: truncate_bytes_def)

lemma nth_truncate_bytes: "p < n \<Longrightarrow> p < length s \<Longrightarrow> truncate_bytes n s ! p = s ! p"
  by (simp add: truncate_bytes_def nth_append)

lemma spool_bytes_upd [simp]: "spool_bytes (upd_spool f w) = f (spool_bytes w)"
  by (simp add: upd_spool_def spool_bytes_def)

lemma w_store_upd [simp]: "w_store (upd_spool f w) = w_store w"
  by (simp add: upd_spool_def)

lemma fills_write:
  assumes data: "data = take (length data) (drop off content)" and ne: "data \<noteq> []"
  shows "fills content w (upd_spool (write_at off data) w) \<and>
    filled content (upd_spool (write_at off data) w) (int off) (int (length data))"
proof -
  let ?s = "spool_bytes w" and ?s' = "write_at off data (spool_bytes w)"
  have bound: "off + length data \<le> length content"
    using arg_cong [OF data, of length] ne by (cases data) auto
  have in_data: "?s' ! p = content ! p" if "off \<le> p" "p < off + length data" for p
  proof -
    have "?s' ! p = data ! (p - off)" using that by (auto simp: write_at_def nth_append)
    also have "\<dots> = content ! p"
      by (subst data) (use that bound in auto)
    finally show ?thesis .
  qed
  have before: "?s' ! p = ?s ! p" if "p < off" "p < length ?s" for p
    using that by (simp add: write_at_def nth_append nth_truncate_bytes)
  have after: "?s' ! p = ?s ! p" if "off + length data \<le> p" "p < length ?s" for p
    using that by (auto simp: write_at_def nth_append)
  have len: "length ?s' = max (off + length data) (length ?s)"
    by (auto simp: write_at_def)
  have "good content (upd_spool (write_at off data) w) p" if "good content w p" for p
    using that in_data [of p] before [of p] after [of p] by (force simp: good_def len)
  moreover have "length ?s' = length content" if "length ?s = length content"
    using that bound by (simp add: len)
  moreover have "good content (upd_spool (write_at off data) w) p"
    if "off \<le> p" "p < off + length data" for p
    using that in_data [OF that] bound by (force simp: good_def len)
  ultimately show ?thesis by (auto simp: fills_def filled_def)
qed

section \<open>The laws of a checkpoint store\<close>

locale checkpoint =
  fixes load :: "('c, segments) dbm"
    and save :: "int \<Rightarrow> int64 \<Rightarrow> ('c, unit) dbm"
    and claims :: "'c \<Rightarrow> int set"
  assumes load_law: "db_wp load (\<lambda>segs c'. claims c' \<subseteq> claims c \<and> fst ` set segs \<subseteq> claims c')
                       (\<lambda>_ c'. claims c' \<subseteq> claims c) c"
    and save_law: "db_wp (save i n) (\<lambda>_ c'. claims c' \<subseteq> insert i (claims c) \<and> i \<in> claims c')
                     (\<lambda>_ c'. claims c' \<subseteq> insert i (claims c)) c"

section \<open>One segment\<close>

text \<open>A provider that keeps to the ranges: a body holds the bytes of the source from the offset on.\<close>

definition honest :: "net \<Rightarrow> string \<Rightarrow> bool" where
  "honest net content \<longleftrightarrow> (\<forall>k off len b. net k off len = Inr b \<longrightarrow> 0 \<le> off \<longrightarrow>
     (\<exists>n. b_data b = take n (drop (nat off) content)))"

definition quiet :: "string \<Rightarrow> ('c world, 'a) dbm \<Rightarrow> bool" where
  "quiet content m \<longleftrightarrow> (\<forall>w. db_wp m (\<lambda>_. fills content w) (\<lambda>_ _. False) w)"

text \<open>A step that writes no spool can follow any other.\<close>

lemma db_wp_quiet:
  assumes "quiet content m" "\<And>x w'. fills content w w' \<Longrightarrow> Q x w'"
  shows "db_wp m Q E w"
  using assms db_wp_conseq [of m "\<lambda>_. fills content w" "\<lambda>_ _. False" w Q E]
  by (auto simp: quiet_def)

lemma quiet_ctx_err: "quiet content ctx_err"
  unfolding quiet_def ctx_err_def fs_call_def by (intro allI wp_rules) auto

lemma quiet_sync_err: "quiet content sync_err"
  unfolding quiet_def sync_err_def fs_call_def by (intro allI wp_rules) auto

lemma quiet_ret: "quiet content (db_ret x)"
  unfolding quiet_def by (intro allI wp_rules) simp

lemma quiet_report_chunk: "quiet content (report_chunk reporting sz count)"
  unfolding quiet_def report_chunk_def fs_call_def emit_report_def
  by (intro allI wp_rules) (auto intro!: fills_same simp: spool_bytes_def)

lemma quiet_open_range: "quiet content (open_range net off len)"
  unfolding quiet_def open_range_def
  by (intro allI wp_rules) (auto intro!: fills_same simp: spool_bytes_def)

lemma take_length_eq: "s = take k xs \<Longrightarrow> s = take (length s) xs"
  by (simp add: min_def)

lemma ReadFull_spec:
  assumes "ReadFull n b = (data, e, b')" "b_data b = take k (drop off content)"
  shows "data = take (length data) (drop off content)"
    and "\<exists>k'. b_data b' = take k' (drop (off + length data) content)"
    and "length data \<le> n" and "e = None \<Longrightarrow> length data = n"
    and "b_close b' = b_close b"
proof -
  show "data = take (length data) (drop off content)"
  proof (cases "n \<le> length (b_data b)")
    case True
    then show ?thesis using assms by (auto simp: ReadFull_def intro: take_length_eq)
  next
    case False
    then have "data = b_data b" using assms(1) by (simp add: ReadFull_def)
    with assms(2) show ?thesis by (metis take_length_eq)
  qed
  show "\<exists>k'. b_data b' = take k' (drop (off + length data) content)"
  proof (cases "n \<le> length (b_data b)")
    case True
    then have "b_data b' = take (k - n) (drop (off + n) content)" "length data = n"
      using assms by (auto simp: ReadFull_def drop_take add.commute)
    then show ?thesis by auto
  next
    case False
    then have "b_data b' = take 0 (drop (off + length data) content)"
      using assms by (auto simp: ReadFull_def)
    then show ?thesis by blast
  qed
  show "length data \<le> n" "e = None \<Longrightarrow> length data = n" "b_close b' = b_close b"
    using assms(1) by (auto simp: ReadFull_def split: if_splits)
qed

lemma write_data_wp:
  assumes "data = take (length data) (drop off content)"
    and "\<And>e w'. fills content w w' \<Longrightarrow>
           (e = None \<Longrightarrow> filled content w' (int off) (int (length data))) \<Longrightarrow> Q e w'"
  shows "db_wp (write_data (int off) data) Q E w"
proof (cases "data = []")
  case True
  then have "Q None w" by (intro assms(2)) (auto simp: filled_def)
  then show ?thesis using True by (simp add: write_data_def db_wp_ret)
next
  case False
  have "Q None (upd_spool (write_at off data) w)"
    using fills_write [OF assms(1) False, of w] by (intro assms(2)) auto
  moreover have "Q (Some e) w" for e by (intro assms(2)) auto
  ultimately show ?thesis
    unfolding write_data_def using False by (auto intro!: wp_rules)
qed

lemma filled_append:
  "filled content w a n \<Longrightarrow> filled content w (a + n) m \<Longrightarrow> filled content w a (n + m)"
  unfolding filled_def by (metis add.assoc linorder_not_le)

lemma consume_loop_wp:
  assumes "0 \<le> start" "0 \<le> written" "0 < bufferSize"
    and "b_data body = take k (drop (nat (start + written)) content)"
    and "\<And>n. quiet content (report n)"
    and "filled content w start written"
    and "\<And>e written' w'. fills content w w' \<Longrightarrow> filled content w' start written' \<Longrightarrow>
           0 \<le> written' \<Longrightarrow> (e = None \<Longrightarrow> len \<le> written') \<Longrightarrow> Q (e, written') w'"
  shows "db_wp (consume_loop report bufferSize start len written body) Q E w"
  using assms(2,4,6-7)
proof (induction "nat (len - written)" arbitrary: written body w k rule: less_induct)
  case less
  show ?case
  proof (cases "written < len")
    case False
    then have "Q (None, written) w" using less.prems by (intro less.prems(4)) auto
    with False show ?thesis by (subst consume_loop.simps) (simp add: db_wp_ret)
  next
    case True
    let ?n = "nat (min (int bufferSize) (len - written))"
    obtain data e body' where rf: "ReadFull ?n body = (data, e, body')" by (cases "ReadFull ?n body")
    note spec = ReadFull_spec [OF rf less.prems(2)]
    let ?off = "nat (start + written)"
    have off: "start + written = int ?off" using assms(1) less.prems(1) by simp
    have le: "written + int (length data) \<le> len" using spec(3) True by auto
    have step: "db_wp (case e of Some e \<Rightarrow> db_ret (read_ended e (written + int (length data)) len, written + int (length data))
              | None \<Rightarrow> consume_loop report bufferSize start len (written + int (length data)) body') Q E w2"
      if w2: "fills content w w2" "filled content w2 start (written + int (length data))" for w2
    proof (cases e)
      case None
      have pos: "0 < length data" using spec(4) [OF None] True assms(3) by simp
      obtain k' where "b_data body' = take k' (drop (?off + length data) content)" using spec(2) by blast
      moreover have "?off + length data = nat (start + (written + int (length data)))"
        using assms(1) less.prems(1) by simp
      ultimately have "db_wp (consume_loop report bufferSize start len (written + int (length data)) body') Q E w2"
        using pos True le less.prems(1) w2
        by (intro less.hyps [where k = k']) (auto intro: less.prems(4) fills_trans)
      with None show ?thesis by simp
    next
      case (Some e')
      have "Q (read_ended e' (written + int (length data)) len, written + int (length data)) w2"
        using w2 less.prems(1) le by (intro less.prems(4)) (auto simp: read_ended_def split: if_splits)
      with Some show ?thesis by (simp add: db_wp_ret)
    qed
    have unfold: "consume_loop report bufferSize start len written body =
       db_bind ctx_err (\<lambda>cancelled.
        if cancelled \<noteq> None then db_ret (cancelled, written)
        else db_bind (write_data (int ?off) data) (\<lambda>writeErr.
            if writeErr \<noteq> None then db_ret (writeErr, written)
            else db_bind (if data = [] then db_ret None else report (int (length data))) (\<lambda>repErr.
            if repErr \<noteq> None then db_ret (repErr, written + int (length data))
            else case e of
                Some e \<Rightarrow> db_ret (read_ended e (written + int (length data)) len,
                                  written + int (length data))
              | None \<Rightarrow> consume_loop report bufferSize start len (written + int (length data)) body')))"
      unfolding off [symmetric] by (subst consume_loop.simps) (use True assms(3) rf in \<open>simp cong: if_cong\<close>)
    have out: "Q (c, written) w1" if "c \<noteq> None" "fills content w w1" for c w1
      using that less.prems by (intro less.prems(4)) (auto intro: filled_mono)
    have out': "Q (c, written + int (length data)) w1"
      if "c \<noteq> None" "fills content w w1" "filled content w1 start (written + int (length data))" for c w1
      using that less.prems(1) by (intro less.prems(4)) auto
    show ?thesis
      unfolding unfold
      apply (rule db_wp_bind, rule db_wp_quiet [OF quiet_ctx_err])
      apply (rule db_wp_if, rule db_wp_ret, rule out, assumption, assumption)
      apply (rule db_wp_bind, rule write_data_wp [OF spec(1)])
      apply (rule db_wp_if, rule db_wp_ret, rule out, assumption, erule (1) fills_trans)
      apply (rule db_wp_bind)
      apply (rule db_wp_quiet [of content])
      subgoal by (auto intro: quiet_ret assms(5))
      subgoal for c w1 c2 w2 c3 w3
      proof -
        assume f: "fills content w w1" "fills content w1 w2" "fills content w2 w3"
        assume "c2 = None \<Longrightarrow> filled content w2 (int ?off) (int (length data))" "\<not> c2 \<noteq> None"
        then have "filled content w2 (start + written) (int (length data))" unfolding off [symmetric] by simp
        moreover have "filled content w2 start written"
          using less.prems(3) fills_trans [OF f(1,2)] by (rule filled_mono)
        ultimately have w3: "filled content w3 start (written + int (length data))"
          using f(3) by (blast intro: filled_append filled_mono)
        have "fills content w w3" using f by (blast intro: fills_trans)
        then show ?thesis
          using w3 by (intro db_wp_if db_wp_ret) (auto intro: out' step)
      qed
      done
  qed
qed

lemma consumeRange_wp:
  assumes "0 \<le> start" "0 \<le> written" "0 < bufferSize"
    and "b_data body = take k (drop (nat (start + written)) content)"
    and "\<And>n. quiet content (report n)"
    and "filled content w start written"
    and Q: "\<And>e written' w'. fills content w w' \<Longrightarrow> filled content w' start written' \<Longrightarrow>
           0 \<le> written' \<Longrightarrow> (e = None \<Longrightarrow> len \<le> written') \<Longrightarrow> Q (e, written') w'"
  shows "db_wp (consumeRange report bufferSize start len written body) Q E w"
  unfolding consumeRange_def
proof (rule db_wp_bind, rule consume_loop_wp [OF assms(1-6)])
  fix e :: "error option" and written' w1
  assume w1: "fills content w w1" "filled content w1 start written'" "0 \<le> written'"
    "e = None \<Longrightarrow> len \<le> written'"
  show "db_wp (case (e, written') of (err, written') \<Rightarrow>
       if err \<noteq> None then db_ret (err, written')
       else if b_close body \<noteq> None then db_ret (b_close body, written')
       else db_bind sync_err (\<lambda>e. db_ret (e, written'))) Q E w1"
    using w1
    by (auto intro!: db_wp_if db_wp_ret db_wp_bind db_wp_quiet [OF quiet_sync_err [of content]] Q
        intro: fills_trans filled_mono)
qed

lemma open_range_wp:
  assumes "\<And>w'. fills content w w' \<Longrightarrow> Q (net (w_calls w) off len) w'"
  shows "db_wp (open_range net off len) Q E w"
  unfolding open_range_def
  by (intro wp_rules assms) (auto intro!: fills_same simp: spool_bytes_def)

lemma filled_less: "filled content w start n \<Longrightarrow> m \<le> n \<Longrightarrow> filled content w start m"
  by (simp add: filled_def)

lemma segment_attempts_wp:
  assumes "honest net content" "0 \<le> start" "0 < bufferSize" "0 \<le> len"
    and "\<And>n. quiet content (report n)"
    and "0 \<le> written" "filled content w start written"
    and "0 < attempts \<or> lastErr \<noteq> None"
    and Q: "\<And>e w'. fills content w w' \<Longrightarrow> (e = None \<Longrightarrow> filled content w' start len) \<Longrightarrow> Q e w'"
  shows "db_wp (segment_attempts report net bufferSize start len attempts first written lastErr) Q E w"
  using assms(6-)
proof (induction attempts arbitrary: first written lastErr w)
  case 0
  then show ?case by (auto intro!: db_wp_ret 0)
next
  case (Suc attempts)
  have again: "db_wp (segment_attempts report net bufferSize start len attempts False written' (Some e)) Q E w'"
    if "fills content w w'" "0 \<le> written'" "filled content w' start written'"
    for written' e w'
    using that by (intro Suc.IH) (auto intro: Suc.prems(4) fills_trans)
  show ?case
    unfolding segment_attempts.simps
    apply (rule db_wp_bind, rule db_wp_quiet [of content])
    subgoal by (simp add: quiet_ret quiet_ctx_err)
    subgoal for c w1
      apply (rule db_wp_if)
      subgoal by (auto intro!: db_wp_ret Suc.prems(4))
      apply (rule db_wp_bind, rule open_range_wp [of content])
      subgoal for w2
        apply (rule db_wp_case_sum)
        subgoal premises p for e
        proof -
          have "fills content w w2" using p(1,3) by (rule fills_trans)
          then have w3: "fills content w w3" if "fills content w2 w3" for w3
            using that by (rule fills_trans)
          show ?thesis
            apply (rule db_wp_bind, rule db_wp_quiet [OF quiet_ctx_err [of content]])
            using w3 by (auto intro!: db_wp_if db_wp_ret Suc.prems(4) again Suc.prems(1)
              intro: filled_mono [OF Suc.prems(2)])
        qed
        subgoal premises p for body
        proof -
          have "0 \<le> start + written" using assms(2) Suc.prems(1) by simp
          with assms(1) p(4) obtain k where k: "b_data body = take k (drop (nat (start + written)) content)"
            unfolding honest_def by blast
          have w2: "fills content w w2" using p(1,3) by (rule fills_trans)
          show ?thesis
            apply (rule db_wp_bind)
            apply (rule consumeRange_wp [OF assms(2) Suc.prems(1) assms(3) k assms(5)
                  filled_mono [OF Suc.prems(2) w2]])
            subgoal for e written' w3
              using fills_trans [OF w2, of w3]
              by (auto intro!: db_wp_if db_wp_ret db_wp_bind db_wp_quiet [OF quiet_ctx_err [of content]]
                  Suc.prems(4) again intro: fills_trans filled_mono filled_less)
            done
        qed
        done
      done
    done
qed

lemma downloadSegment_wp:
  assumes "honest net content" "0 \<le> start" "0 < bufferSize" "0 \<le> len" "0 < attempts"
    and "\<And>n. quiet content (report n)"
    and "\<And>e w'. fills content w w' \<Longrightarrow> (e = None \<Longrightarrow> filled content w' start len) \<Longrightarrow> Q e w'"
  shows "db_wp (downloadSegment report net bufferSize start len attempts) Q E w"
  unfolding downloadSegment_def
  by (rule segment_attempts_wp [OF assms(1-4)]) (use assms in \<open>auto simp: filled_def\<close>)

section \<open>A whole download\<close>

definition keeps_good :: "string \<Rightarrow> 'c world \<Rightarrow> 'c world \<Rightarrow> bool" where
  "keeps_good content w w' \<longleftrightarrow> (\<forall>p. good content w p \<longrightarrow> good content w' p)"

lemma keeps_good_refl [simp]: "keeps_good content w w"
  by (simp add: keeps_good_def)

lemma keeps_good_trans: "keeps_good content w w' \<Longrightarrow> keeps_good content w' w'' \<Longrightarrow> keeps_good content w w''"
  by (simp add: keeps_good_def)

lemma fills_keeps: "fills content w w' \<Longrightarrow> keeps_good content w w'"
  by (simp add: keeps_good_def fills_def)

lemma filled_keeps: "filled content w a n \<Longrightarrow> keeps_good content w w' \<Longrightarrow> filled content w' a n"
  by (simp add: filled_def keeps_good_def)

abbreviation segment_filled :: "string \<Rightarrow> DownloadOptions \<Rightarrow> 'c world \<Rightarrow> int \<Rightarrow> bool" where
  "segment_filled content opts w i \<equiv> filled content w (i * opt_SegmentSize opts) (segment_length opts i)"

text \<open>What a checkpoint says is true of the spool: a recorded segment holds the bytes of the source.\<close>

definition sound :: "('c \<Rightarrow> int set) \<Rightarrow> string \<Rightarrow> DownloadOptions \<Rightarrow> 'c world \<Rightarrow> bool" where
  "sound claims content opts w \<longleftrightarrow>
     (\<forall>i \<in> claims (w_store w). 0 \<le> i \<longrightarrow> i < total_segments opts \<longrightarrow>
        segment_filled content opts w i)"

lemma sound_fills:
  assumes "sound claims content opts w" "keeps_good content w w'" "w_store w' = w_store w"
  shows "sound claims content opts w'"
  using assms unfolding sound_def by (metis filled_keeps)

lemma keeps_good_store [simp]:
  "keeps_good content w (w'\<lparr>w_store := c\<rparr>) = keeps_good content w w'"
  by (simp add: keeps_good_def good_def spool_bytes_def)

lemma spool_bytes_store [simp]: "spool_bytes (w\<lparr>w_store := c\<rparr>) = spool_bytes w"
  by (simp add: spool_bytes_def)

lemma filled_store [simp]: "filled content (w\<lparr>w_store := c\<rparr>) a n = filled content w a n"
  by (simp add: filled_def good_def)

lemma sound_store:
  assumes "sound claims content opts w" "claims c \<subseteq> insert i (claims (w_store w))"
    and "segment_filled content opts w i"
  shows "sound claims content opts (w\<lparr>w_store := c\<rparr>)"
  using assms by (auto simp: sound_def)

lemma sound_store_less:
  "sound claims content opts w \<Longrightarrow> claims c \<subseteq> claims (w_store w) \<Longrightarrow>
   sound claims content opts (w\<lparr>w_store := c\<rparr>)"
  by (auto simp: sound_def)

lemma db_wp_on_store:
  "db_wp m (\<lambda>x c. Q x (w\<lparr>w_store := c\<rparr>)) (\<lambda>e c. E e (w\<lparr>w_store := c\<rparr>)) (w_store w) \<Longrightarrow>
   db_wp (on_store m) Q E w"
  by (fastforce simp: db_wp_def on_store_def split: prod.splits sum.splits)

lemma le_div_int: "0 < b \<Longrightarrow> q \<le> a div b \<longleftrightarrow> q * b \<le> (a :: int)"
proof
  assume b: "0 < b" and "q \<le> a div b"
  then have "q * b \<le> a div b * b" by (simp add: mult_right_mono)
  also have "\<dots> \<le> a" using b by (metis div_mult_mod_eq le_add_same_cancel1 Euclidean_Rings.pos_mod_sign)
  finally show "q * b \<le> a" .
next
  assume b: "0 < b" and "q * b \<le> a"
  then have "(q * b) div b \<le> a div b" by (intro zdiv_mono1)
  with b show "q \<le> a div b" by simp
qed

lemma segment_bounds:
  assumes "valid_options opts" "0 \<le> i" "i < total_segments opts"
  shows "0 \<le> i * opt_SegmentSize opts" "0 \<le> segment_length opts i"
    "i * opt_SegmentSize opts + segment_length opts i \<le> opt_Size opts"
proof -
  have pos: "0 < opt_SegmentSize opts" using assms(1) by (simp add: valid_options_def)
  have "(i + 1) * opt_SegmentSize opts \<le> opt_Size opts + opt_SegmentSize opts - 1"
    using assms(3) by (subst le_div_int [OF pos, symmetric]) (simp add: total_segments_def)
  then show "0 \<le> i * opt_SegmentSize opts" "0 \<le> segment_length opts i"
    "i * opt_SegmentSize opts + segment_length opts i \<le> opt_Size opts"
    using assms(2) pos by (auto simp: segment_length_def algebra_simps)
qed

lemma segments_cover:
  assumes "valid_options opts" "int p < opt_Size opts"
  shows "\<exists>i. 0 \<le> i \<and> i < total_segments opts \<and> i * opt_SegmentSize opts \<le> int p \<and>
             int p < i * opt_SegmentSize opts + segment_length opts i"
proof -
  have pos: "0 < opt_SegmentSize opts" using assms(1) by (simp add: valid_options_def)
  let ?i = "int p div opt_SegmentSize opts"
  have le: "?i * opt_SegmentSize opts \<le> int p" and lt: "int p < ?i * opt_SegmentSize opts + opt_SegmentSize opts"
    using pos by (metis div_mult_mod_eq le_add_same_cancel1 Euclidean_Rings.pos_mod_sign,
                  metis div_mult_mod_eq add_strict_left_mono Euclidean_Rings.pos_mod_bound)
  have "(?i + 1) * opt_SegmentSize opts \<le> opt_Size opts + opt_SegmentSize opts - 1"
    using le assms(2) by (simp add: algebra_simps)
  then have "?i + 1 \<le> total_segments opts"
    unfolding total_segments_def using pos by (simp add: le_div_int)
  moreover have "0 \<le> ?i" using pos by (simp add: pos_imp_zdiv_nonneg_iff)
  ultimately show ?thesis using le lt assms(2) by (intro exI [of _ ?i]) (auto simp: segment_length_def)
qed

lemma set_pool_order [simp]: "set (pool_order order pending) = set pending"
  by (auto simp: pool_order_def)

lemma plan_segments_spec:
  "plan_segments opts segs idx dl pending = Inr (dl', pending') \<Longrightarrow>
   pending' = pending @ filter (\<lambda>i. map_of segs i = None) idx \<and>
   dl' = dl + sum_list (map (segment_length opts) (filter (\<lambda>i. map_of segs i \<noteq> None) idx))"
proof (induction opts segs idx dl pending arbitrary: dl' pending' rule: plan_segments.induct)
  case (2 opts segs index rest downloaded pending)
  show ?case
  proof (cases "map_of segs index")
    case None
    have rest: "plan_segments opts segs rest downloaded (pending @ [index]) = Inr (dl', pending')"
      using 2(3) None by simp
    show ?thesis using 2(1) [OF None rest] None by simp
  next
    case (Some n)
    have "n = segment_length opts index" and rest: "plan_segments opts segs rest (downloaded + n) pending = Inr (dl', pending')"
      using 2(3) Some by (simp_all split: if_splits)
    then show ?thesis using 2(2) [OF Some _ rest] Some by simp
  qed
qed simp

text \<open>The state between segments: the checkpoint is true and the spool has its full length.\<close>

definition resumable :: "('c \<Rightarrow> int set) \<Rightarrow> string \<Rightarrow> DownloadOptions \<Rightarrow> 'c world \<Rightarrow> bool" where
  "resumable claims content opts w \<longleftrightarrow>
     sound claims content opts w \<and> length (spool_bytes w) = length content"

lemma resumable_fills:
  "resumable claims content opts w \<Longrightarrow> fills content w w' \<Longrightarrow> resumable claims content opts w'"
  by (auto simp: resumable_def fills_def intro: sound_fills fills_keeps [unfolded fills_def])

context checkpoint
begin

lemma run_segment_wp:
  assumes "honest net content" "valid_options opts" "0 \<le> i" "i < total_segments opts"
    and w: "resumable claims content opts w"
    and Q: "\<And>e w'. resumable claims content opts w' \<Longrightarrow> keeps_good content w w' \<Longrightarrow>
              (e = None \<Longrightarrow> segment_filled content opts w' i) \<Longrightarrow> Q e w'"
  shows "db_wp (run_segment save net reporting opts i) Q E w"
  unfolding run_segment_def
proof (rule db_wp_bind, rule downloadSegment_wp [OF assms(1) segment_bounds(1) [OF assms(2-4)]
      _ segment_bounds(2) [OF assms(2-4)]])
  show "0 < nat (opt_BufferSize opts)" "0 < nat (opt_Attempts opts)"
    using assms(2) by (auto simp: valid_options_def)
  show "quiet content (report_chunk reporting (opt_Size opts) n)" for n
    by (rule quiet_report_chunk)
  fix e :: "error option" and w1 :: "'c world"
  assume w1: "fills content w w1" and e: "e = None \<Longrightarrow> segment_filled content opts w1 i"
  have r1: "resumable claims content opts w1" using w w1 by (rule resumable_fills)
  have stored: "resumable claims content opts (w1\<lparr>w_store := c\<rparr>)"
    if "e = None" "claims c \<subseteq> insert i (claims (w_store w1))" for c
    using r1 e [OF that(1)] that(2) by (auto simp: resumable_def intro: sound_store)
  show "db_wp (if e \<noteq> None then db_ret e
      else db_bind (db_try (on_store (save i (segment_length opts i)))) (\<lambda>saved.
        db_ret (case saved of Inl e \<Rightarrow> Some e | Inr _ \<Rightarrow> None))) Q E w1"
  proof (rule db_wp_if)
    assume "e \<noteq> None"
    then show "db_wp (db_ret e) Q E w1"
      using r1 w1 by (auto intro!: db_wp_ret Q fills_keeps)
  next
    assume "\<not> e \<noteq> None"
    then have "e = None" by simp
    note stored = stored [OF this] and e = e [OF this]
    show "db_wp (db_bind (db_try (on_store (save i (segment_length opts i)))) (\<lambda>saved.
        db_ret (case saved of Inl e \<Rightarrow> Some e | Inr _ \<Rightarrow> None))) Q E w1"
      by (rule db_wp_bind, rule db_wp_try, rule db_wp_on_store, rule db_wp_conseq [OF save_law])
        (auto intro!: db_wp_ret Q stored simp: fills_keeps [OF w1] e)
  qed
qed

lemma run_pool_wp:
  assumes "honest net content" "valid_options opts"
    and "\<forall>i \<in> set idx. 0 \<le> i \<and> i < total_segments opts"
    and "resumable claims content opts w"
    and "\<And>f dr w'. resumable claims content opts w' \<Longrightarrow> keeps_good content w w' \<Longrightarrow>
           (f = None \<and> \<not> dr \<Longrightarrow> failure = None \<and> \<not> dropped \<and>
              (\<forall>i \<in> set idx. segment_filled content opts w' i)) \<Longrightarrow> Q (f, dr) w'"
  shows "db_wp (run_pool (run_segment save net reporting opts) opts flying idx failure dropped) Q E w"
  using assms(3-)
proof (induction idx arbitrary: flying failure dropped w)
  case Nil
  then show ?case by (auto intro!: db_wp_ret Nil)
next
  case (Cons i idx)
  note Q = Cons.prems(3)
  have i: "0 \<le> i" "i < total_segments opts" using Cons.prems(1) by auto
  show ?case
    unfolding run_pool.simps
    apply (rule db_wp_bind, rule db_wp_quiet [OF quiet_ctx_err [of content]])
    subgoal for c w1
      apply (rule db_wp_if)
      subgoal premises p
        using Cons.prems(1) resumable_fills [OF Cons.prems(2) p(1)] fills_keeps [OF p(1)]
        by (intro Cons.IH) (auto intro: Q keeps_good_trans)
      subgoal premises p
        apply (rule db_wp_bind, rule run_segment_wp [OF assms(1,2) i resumable_fills [OF Cons.prems(2) p(1)]])
        subgoal premises q for e w2
        proof (rule Cons.IH)
          show "\<forall>i \<in> set idx. 0 \<le> i \<and> i < total_segments opts" using Cons.prems(1) by simp
          show "resumable claims content opts w2" by (rule q(1))
          fix f :: "error option" and dr w3
          assume w3: "resumable claims content opts w3" "keeps_good content w2 w3"
            and fin: "f = None \<and> \<not> dr \<Longrightarrow>
              (if failure = None then map_option (segment_failure opts i) e else failure) = None \<and>
              \<not> dropped \<and> (\<forall>i \<in> set idx. segment_filled content opts w3 i)"
          have "keeps_good content w w3"
            using fills_keeps [OF p(1)] q(2) w3(2) by (blast intro: keeps_good_trans)
          moreover have "failure = None \<and> \<not> dropped \<and> (\<forall>i \<in> set (i # idx). segment_filled content opts w3 i)"
            if "f = None \<and> \<not> dr"
            using fin [OF that] q(3) filled_keeps [OF _ w3(2)] by (auto split: if_splits)
          ultimately show "Q (f, dr) w3" by (intro Q w3(1)) auto
        qed
        done
      done
    done
qed

end

lemma all_filled:
  assumes "valid_options opts" "int (length content) = opt_Size opts"
    and "length (spool_bytes w) = length content"
    and "\<forall>i. 0 \<le> i \<longrightarrow> i < total_segments opts \<longrightarrow> segment_filled content opts w i"
  shows "spool_bytes w = content"
proof (rule nth_equalityI)
  fix p assume "p < length (spool_bytes w)"
  then have "int p < opt_Size opts" using assms(2,3) by simp
  from segments_cover [OF assms(1) this] obtain i where i: "0 \<le> i" "i < total_segments opts"
    "i * opt_SegmentSize opts \<le> int p" "int p < i * opt_SegmentSize opts + segment_length opts i" by blast
  with assms(4) have "good content w p" by (simp add: filled_def)
  then show "spool_bytes w ! p = content ! p" by (simp add: good_def)
qed (rule assms(3))

lemma fills_downloaded [simp]: "fills content w (w\<lparr>w_downloaded := n\<rparr>)"
  by (rule fills_same) (simp_all add: spool_bytes_def)

lemma maybe_report_wp:
  assumes "\<And>w'. fills content w w' \<Longrightarrow> Q () w'" "E ErrDriver w"
  shows "db_wp (maybe_report reporting) Q E w"
  unfolding maybe_report_def emit_report_def
  by (intro wp_rules) (auto intro!: assms fills_same simp: spool_bytes_def)

context checkpoint
begin

lemma fill_spool_wp:
  assumes "honest net content" "valid_options opts"
    and pending: "\<forall>i \<in> set pending. 0 \<le> i \<and> i < total_segments opts"
    and w: "resumable claims content opts w"
    and Q: "\<And>w'. resumable claims content opts w' \<Longrightarrow> keeps_good content w w' \<Longrightarrow>
              (\<forall>i \<in> set pending. segment_filled content opts w' i) \<Longrightarrow> Q () w'"
    and E: "\<And>e w'. resumable claims content opts w' \<Longrightarrow> E e w'"
  shows "db_wp (fill_spool save net reporting order opts pending) Q E w"
  unfolding fill_spool_def
proof (rule db_wp_if)
  assume "pending = []"
  then show "db_wp (db_ret ()) Q E w" using w by (auto intro!: db_wp_ret Q)
next
  show "db_wp (db_bind (run_pool (run_segment save net reporting opts) opts
           (nat (opt_Connections opts) - 1) (pool_order order pending) None False)
         (\<lambda>(failure, dropped). case failure of
           Some e \<Rightarrow> db_fail e
         | None \<Rightarrow> db_bind ctx_err (\<lambda>cancelled.
             if dropped \<or> cancelled \<noteq> None then db_fail Canceled
             else maybe_report reporting))) Q E w"
  proof (rule db_wp_bind, rule run_pool_wp [OF assms(1,2) _ w])
    show "\<forall>i \<in> set (pool_order order pending). 0 \<le> i \<and> i < total_segments opts"
      using pending by simp
    fix f :: "error option" and dr w1
    assume w1: "resumable claims content opts w1" "keeps_good content w w1"
      and fin: "f = None \<and> \<not> dr \<Longrightarrow> None = None \<and> \<not> False \<and>
        (\<forall>i \<in> set (pool_order order pending). segment_filled content opts w1 i)"
    have done': "Q () w2" if "f = None" "\<not> dr" "fills content w1 w2" for w2
      using that fin resumable_fills [OF w1(1) that(3)] fills_keeps [OF that(3)] w1(2)
      by (intro Q) (auto intro: keeps_good_trans filled_keeps)
    show "db_wp (case (f, dr) of (failure, dropped) \<Rightarrow> (case failure of
           Some e \<Rightarrow> db_fail e
         | None \<Rightarrow> db_bind ctx_err (\<lambda>cancelled.
             if dropped \<or> cancelled \<noteq> None then db_fail Canceled
             else maybe_report reporting))) Q E w1"
    proof (cases f)
      case (Some e)
      then show ?thesis using w1 by (auto intro!: db_wp_fail E)
    next
      case None
      show ?thesis
        unfolding None prod.case option.case
        apply (rule db_wp_bind, rule db_wp_quiet [OF quiet_ctx_err [of content]])
        subgoal for c w2
          apply (rule db_wp_if)
          subgoal by (auto intro!: db_wp_fail E resumable_fills [OF w1(1)])
          subgoal
            by (rule maybe_report_wp [of content])
              (auto intro!: done' None E resumable_fills [OF w1(1)] intro: fills_trans)
          done
        done
    qed
  qed
qed

text \<open>Once the pending segments are filled the spool holds the source.\<close>

lemma fill_pending_wp:
  assumes "honest net content" "valid_options opts" "int (length content) = opt_Size opts"
    and w: "resumable claims content opts w"
    and segs: "\<forall>i \<in> fst ` set segs. 0 \<le> i \<longrightarrow> i < total_segments opts \<longrightarrow>
                segment_filled content opts w i"
    and pending: "pending = filter (\<lambda>i. map_of segs i = None) [0..total_segments opts - 1]"
    and Q: "\<And>w'. resumable claims content opts w' \<Longrightarrow> spool_bytes w' = content \<Longrightarrow> Q () w'"
    and E: "\<And>e w'. resumable claims content opts w' \<Longrightarrow> E e w'"
  shows "db_wp (fill_spool save net reporting order opts pending) Q E w"
proof (rule fill_spool_wp [OF assms(1,2) _ w])
  show "\<forall>i \<in> set pending. 0 \<le> i \<and> i < total_segments opts" by (auto simp: pending)
  fix w2 assume w2: "resumable claims content opts w2" "keeps_good content w w2"
    "\<forall>i \<in> set pending. segment_filled content opts w2 i"
  have "segment_filled content opts w2 i" if "0 \<le> i" "i < total_segments opts" for i
  proof (cases "map_of segs i")
    case None
    then have "i \<in> set pending" using that by (simp add: pending)
    then show ?thesis using w2(3) by blast
  next
    case (Some n)
    then have "i \<in> fst ` set segs" by (force dest: map_of_SomeD)
    then show ?thesis using segs that w2(2) by (blast intro: filled_keeps)
  qed
  then have "spool_bytes w2 = content"
    using w2(1) by (intro all_filled [OF assms(2,3)]) (auto simp: resumable_def)
  with w2(1) show "Q () w2" by (rule Q)
qed (rule E)

lemma resume_spool_wp:
  assumes "honest net content" "valid_options opts" "int (length content) = opt_Size opts"
    and w: "resumable claims content opts w"
    and segs: "\<forall>i \<in> fst ` set segs. 0 \<le> i \<longrightarrow> i < total_segments opts \<longrightarrow>
                segment_filled content opts w i"
    and Q: "\<And>pre w'. sound claims content opts w' \<Longrightarrow> spool_bytes w' = content \<Longrightarrow>
              Q \<lparr>dl_Path = opt_Path opts, dl_SHA1 = stringsUpperHex (sha1_hex content),
                 dl_PreSHA1 = stringsUpperHex (sha1_hex (take (nat (min (opt_Size opts) (128 * 1024))) content)),
                 dl_Downloaded = opt_Size opts\<rparr> w'"
    and E: "\<And>e w'. sound claims content opts w' \<Longrightarrow> E e w'"
  shows "db_wp (resume_spool save net reporting order opts segs) Q E w"
proof (cases "plan_segments opts segs [0..total_segments opts - 1] 0 []")
  case (Inl e)
  then show ?thesis using w by (auto simp: resume_spool_def resumable_def intro!: db_wp_fail E)
next
  case (Inr p)
  obtain dl pending where p: "p = (dl, pending)" by (cases p)
  with plan_segments_spec Inr have pending: "pending = filter (\<lambda>i. map_of segs i = None) [0..total_segments opts - 1]"
    by fastforce
  have verified: "db_wp (verify_spool opts) Q E w'"
    if "resumable claims content opts w'" "spool_bytes w' = content" for w'
  proof -
    have s: "sound claims content opts w'" using that(1) by (simp add: resumable_def)
    show ?thesis
      unfolding verify_spool_def fs_call_def Hashes_def
      by (intro wp_rules) (auto simp: E [OF s] Q [OF s that(2), simplified] that(2))
  qed
  have err: "E e w'" if "resumable claims content opts w'" for e w'
    using that by (intro E) (simp add: resumable_def)
  show ?thesis
    unfolding resume_spool_def Inr p sum.case prod.case
    apply (rule db_wp_case_option)
    subgoal
      apply (rule db_wp_bind, rule db_wp_upd)
      apply (rule db_wp_bind, rule maybe_report_wp [of content])
      subgoal for w1
        apply (rule db_wp_bind, rule fill_pending_wp [OF assms(1-3) _ _ pending])
        subgoal by (rule resumable_fills [OF resumable_fills [OF w]]) auto
        subgoal premises q
          using segs filled_mono [OF _ fills_trans [OF fills_downloaded q(2)]] by blast
        subgoal by (rule verified)
        subgoal by (rule err)
        done
      subgoal by (rule err, rule resumable_fills [OF w]) simp
      done
    subgoal using w by (auto intro!: db_wp_fail err)
    done
qed

lemma Download_wp:
  assumes "honest net content" "int (length content) = opt_Size opts"
    and w: "sound claims content opts w"
    and Q: "\<And>w'. sound claims content opts w' \<Longrightarrow> spool_bytes w' = content \<Longrightarrow>
              Q \<lparr>dl_Path = opt_Path opts, dl_SHA1 = stringsUpperHex (sha1_hex content),
                 dl_PreSHA1 = stringsUpperHex (sha1_hex (take (nat (min (opt_Size opts) (128 * 1024))) content)),
                 dl_Downloaded = opt_Size opts\<rparr> w'"
    and E: "\<And>e w'. sound claims content opts w' \<Longrightarrow> E e w'"
  shows "db_wp (Download load save net reporting order opts) Q E w"
  unfolding Download_def
proof (rule db_wp_if)
  show "db_wp (db_fail (Errorf ''invalid segmented download configuration'' [])) Q E w"
    by (rule db_wp_fail, rule E, rule w)
next
  assume "\<not> \<not> valid_options opts"
  then have valid: "valid_options opts" by simp
  let ?size = "nat (opt_Size opts)"
  have size: "?size = length content" using assms(2) by simp
  have trunc: "keeps_good content w1 (upd_spool (truncate_bytes ?size) (upd_spool (\<lambda>s. s) w1))" for w1 :: "'c world"
    by (auto simp: keeps_good_def good_def size nth_truncate_bytes)
  have open': "keeps_good content w1 (upd_spool (\<lambda>s. s) w1)" for w1 :: "'c world"
    by (simp add: keeps_good_def good_def)
  show "db_wp (db_bind (on_store load) (\<lambda>loaded. db_bind (db_query (\<lambda>w. Inr (w_spool w))) (\<lambda>info.
      if info = Some OtherNode
      then db_fail (Errorf ''transfer spool is not a regular file'' [])
      else db_bind (db_exec (\<lambda>w. ((), upd_spool (\<lambda>s. s) w))) (\<lambda>_.
        db_bind (db_exec (\<lambda>w. ((), upd_spool (truncate_bytes ?size) w))) (\<lambda>_.
        resume_spool save net reporting order opts (if info = None then [] else loaded)))))) Q E w"
    apply (rule db_wp_bind, rule db_wp_on_store, rule db_wp_conseq [OF load_law])
    subgoal premises p for loaded c
    proof -
      let ?w1 = "w\<lparr>w_store := c\<rparr>"
      have s1: "sound claims content opts ?w1" using w p by (blast intro: sound_store_less)
      have s2: "sound claims content opts (upd_spool (\<lambda>s. s) ?w1)"
        by (rule sound_fills [OF s1 open']) simp
      have s3: "sound claims content opts (upd_spool (truncate_bytes ?size) (upd_spool (\<lambda>s. s) ?w1))"
        by (rule sound_fills [OF s1 trunc]) simp
      have segs: "segment_filled content opts (upd_spool (truncate_bytes ?size) (upd_spool (\<lambda>s. s) ?w1)) i"
        if "i \<in> fst ` set loaded" "0 \<le> i" "i < total_segments opts" for i
        using s3 that p by (auto simp: sound_def)
      show ?thesis
        apply (rule db_wp_bind, rule db_wp_query, rule E, rule s1, simp)
        apply (rule db_wp_if, rule db_wp_fail, rule E, rule s1)
        apply (rule db_wp_bind, rule db_wp_exec, rule E, rule s1, simp only: snd_conv)
        apply (rule db_wp_bind, rule db_wp_exec, rule E, rule s2, simp only: snd_conv)
        apply (rule resume_spool_wp [OF assms(1) valid assms(2)])
        subgoal using s3 by (simp add: resumable_def size)
        subgoal for info by (cases "info = None") (auto intro: segs)
        subgoal by (rule Q)
        subgoal by (rule E)
        done
    qed
    subgoal using w by (auto intro!: E sound_store_less)
    done
qed

end

section \<open>The checkpoint file keeps the laws\<close>

definition recorded :: "checkpointState \<Rightarrow> int set" where
  "recorded st = fst ` set (state_segments st)"

definition disk_claims :: "FileCheckpoint \<Rightarrow> int set" where
  "disk_claims c =
     (case fc_file c of
        Some (CkJSON st) \<Rightarrow> if same_identity c st then recorded st else {}
      | _ \<Rightarrow> {})"

text \<open>What the file or the loaded state records; the file alone is what a restart finds.\<close>

definition file_claims :: "FileCheckpoint \<Rightarrow> int set" where
  "file_claims c = disk_claims c \<union> (if fc_loaded c then recorded (fc_state c) else {})"

lemma same_identity_upd [simp]:
  "same_identity (c\<lparr>fc_state := s\<rparr>) st = same_identity c st"
  "same_identity (c\<lparr>fc_loaded := l\<rparr>) st = same_identity c st"
  "same_identity (c\<lparr>fc_file := f\<rparr>) st = same_identity c st"
  by (simp_all add: same_identity_def)

lemma disk_claims_upd [simp]:
  "disk_claims (c\<lparr>fc_state := s\<rparr>) = disk_claims c"
  "disk_claims (c\<lparr>fc_loaded := l\<rparr>) = disk_claims c"
  by (simp_all add: disk_claims_def split: option.splits ckfile.splits)

lemma loadLocked_wp:
  assumes "\<And>c'. fc_loaded c' \<Longrightarrow> file_claims c' = file_claims c \<Longrightarrow> Q () c'"
    and "\<And>e c'. file_claims c' = file_claims c \<Longrightarrow> E e c'"
  shows "db_wp loadLocked Q E c"
proof (cases "fc_loaded c")
  case True
  then show ?thesis
    unfolding loadLocked_def by (intro wp_rules) (auto intro!: assms)
next
  case False
  have fresh: "file_claims (c\<lparr>fc_state := st\<rparr>) = file_claims c" for st
    using False by (simp add: file_claims_def)
  show ?thesis
  proof (cases "fc_file c")
    case None
    then have "file_claims (c\<lparr>fc_state := fresh_state c, fc_loaded := True\<rparr>) = file_claims c"
      using False by (simp add: file_claims_def disk_claims_def fresh_state_def recorded_def state_segments_def)
    then show ?thesis
      unfolding loadLocked_def using False None
      by (intro wp_rules) (auto intro!: assms fresh wp_rules)
  next
    case (Some f)
    show ?thesis
    proof (cases f)
      case CkGarbage
      then show ?thesis
        unfolding loadLocked_def using False Some
        by (intro wp_rules) (auto intro!: assms fresh wp_rules)
    next
      case (CkJSON stored)
      have "file_claims (c\<lparr>fc_state := stored, fc_loaded := True\<rparr>) = file_claims c" if "same_identity c stored"
        using False Some CkJSON that by (simp add: file_claims_def disk_claims_def)
      then show ?thesis
        unfolding loadLocked_def using False Some CkJSON
        by (intro wp_rules) (auto intro!: assms fresh wp_rules)
    qed
  qed
qed

lemma fs_calls_wp:
  "Q () d \<Longrightarrow> E ErrDriver d \<Longrightarrow> db_wp (db_foreach (\<lambda>_. fs_call) xs) Q E d"
  unfolding fs_call_def
  by (rule db_wp_foreach [where I = "\<lambda>d'. d' = d"]) (auto intro!: wp_rules)

lemma persist_wp:
  assumes "E ErrDriver c" "Q () (c\<lparr>fc_file := Some (CkJSON (fc_state c))\<rparr>)"
    "E ErrDriver (c\<lparr>fc_file := Some (CkJSON (fc_state c))\<rparr>)"
  shows "db_wp persistLocked Q E c"
  unfolding persistLocked_def
proof (rule db_wp_bind, rule fs_calls_wp)
  show "db_wp (db_bind (db_exec (\<lambda>c. ((), c\<lparr>fc_file := Some (CkJSON (fc_state c))\<rparr>)))
      (\<lambda>_. db_foreach (\<lambda>_. fs_call) [(), ()])) Q E c"
    by (rule db_wp_bind, rule db_wp_exec, rule assms(1), simp only: snd_conv, rule fs_calls_wp, rule assms(2), rule assms(3))
qed (rule assms(1))

lemma recorded_update [simp]:
  "recorded (st\<lparr>cs_Segments := Some (AList.update i n (state_segments st))\<rparr>) = insert i (recorded st)"
  by (cases "cs_Segments st") (simp_all add: recorded_def state_segments_def dom_update)

lemma disk_claims_saved:
  "disk_claims (c\<lparr>fc_file := Some (CkJSON st)\<rparr>) \<subseteq> recorded st"
  by (simp add: disk_claims_def)

interpretation file_ck: checkpoint FileLoad FileSave file_claims
proof
  fix c
  show "db_wp FileLoad (\<lambda>segs c'. file_claims c' \<subseteq> file_claims c \<and> fst ` set segs \<subseteq> file_claims c')
      (\<lambda>_ c'. file_claims c' \<subseteq> file_claims c) c"
    unfolding FileLoad_def
    by (rule db_wp_bind, rule loadLocked_wp) (auto intro!: db_wp_get simp: file_claims_def recorded_def)
next
  fix i n c
  show "db_wp (FileSave i n) (\<lambda>_ c'. file_claims c' \<subseteq> insert i (file_claims c) \<and> i \<in> file_claims c')
      (\<lambda>_ c'. file_claims c' \<subseteq> insert i (file_claims c)) c"
    unfolding FileSave_def
  proof (rule db_wp_bind, rule loadLocked_wp)
    fix c' assume c': "fc_loaded c'" "file_claims c' = file_claims c"
    let ?st = "(fc_state c')\<lparr>cs_Segments := Some (AList.update i n (state_segments (fc_state c')))\<rparr>"
    have "file_claims (c'\<lparr>fc_state := ?st\<rparr>) = insert i (file_claims c)"
      using c' by (auto simp: file_claims_def)
    moreover have "file_claims (c'\<lparr>fc_state := ?st, fc_file := Some (CkJSON ?st)\<rparr>) = insert i (recorded (fc_state c'))"
      using c'(1) disk_claims_saved [of ?st "c'\<lparr>fc_state := ?st\<rparr>"] by (auto simp: file_claims_def)
    moreover have "recorded (fc_state c') \<subseteq> file_claims c"
      using c' by (auto simp: file_claims_def)
    ultimately show "db_wp (db_bind (db_upd (\<lambda>c. c\<lparr>fc_state := (fc_state c)\<lparr>cs_Segments :=
        Some (AList.update i n (state_segments (fc_state c)))\<rparr>\<rparr>)) (\<lambda>_. persistLocked))
        (\<lambda>_ c'. file_claims c' \<subseteq> insert i (file_claims c) \<and> i \<in> file_claims c')
        (\<lambda>_ c'. file_claims c' \<subseteq> insert i (file_claims c)) c'"
      by (intro db_wp_bind db_wp_upd persist_wp) auto
  qed auto
qed

section \<open>Restarts\<close>

text \<open>A new process: the spool and the checkpoint file stay, everything in memory is gone.\<close>

definition restart :: "FileCheckpoint world \<Rightarrow> FileCheckpoint world" where
  "restart w = (let c = w_store w in
     w\<lparr>w_store := NewFileCheckpoint (fc_file c) (fc_sourceKey c) (fc_sourceRevision c) (fc_size c)
                     (fc_segmentSize c), w_downloaded := 0, w_reports := []\<rparr>)"

abbreviation download_run where
  "download_run net reporting order opts \<equiv> Download FileLoad FileSave net reporting order opts"

text \<open>Runs one after the other, each in a process of its own, each under faults of its own.\<close>

fun download_runs ::
  "bool \<Rightarrow> DownloadOptions \<Rightarrow> (net \<times> int list \<times> bool list) list \<Rightarrow> FileCheckpoint world \<Rightarrow> FileCheckpoint world" where
  "download_runs reporting opts [] w = w"
| "download_runs reporting opts ((net, order, fs) # runs) w =
     download_runs reporting opts runs (restart (db_state (download_run net reporting order opts fs w)))"

lemma sound_restart:
  assumes "sound file_claims content opts w"
  shows "sound file_claims content opts (restart w)"
proof -
  let ?c = "w_store w"
  let ?c' = "NewFileCheckpoint (fc_file ?c) (fc_sourceKey ?c) (fc_sourceRevision ?c) (fc_size ?c) (fc_segmentSize ?c)"
  have "disk_claims ?c' = disk_claims ?c"
    by (simp add: disk_claims_def NewFileCheckpoint_def same_identity_def split: option.splits ckfile.splits)
  then have "file_claims ?c' = disk_claims ?c" by (simp add: file_claims_def NewFileCheckpoint_def)
  then have "file_claims ?c' \<subseteq> file_claims ?c" by (auto simp: file_claims_def NewFileCheckpoint_def)
  moreover have "segment_filled content opts (restart w) i = segment_filled content opts w i" for i
    by (simp add: filled_def good_def restart_def Let_def spool_bytes_def)
  ultimately show ?thesis
    using assms by (fastforce simp: sound_def restart_def Let_def)
qed

lemma sound_download:
  assumes "honest net content" "int (length content) = opt_Size opts" "sound file_claims content opts w"
  shows "sound file_claims content opts (db_state (download_run net reporting order opts fs w))"
  by (rule db_wp_state [OF file_ck.Download_wp [OF assms]])

lemma sound_runs:
  assumes "int (length content) = opt_Size opts"
  shows "\<forall>r \<in> set runs. honest (fst r) content \<Longrightarrow> sound file_claims content opts w \<Longrightarrow>
    sound file_claims content opts (download_runs reporting opts runs w)"
proof (induction runs arbitrary: w)
  case (Cons r runs)
  obtain net order fs where r: "r = (net, order, fs)" by (cases r)
  have "sound file_claims content opts (restart (db_state (download_run net reporting order opts fs w)))"
    using Cons.prems r assms by (intro sound_restart sound_download) auto
  then show ?case using Cons r by simp
qed simp

text \<open>
  C28. Interrupted downloads resume safely: start from a checkpoint that is true of the spool (none
  at all, for example), run the download any number of times in processes of their own, each cut
  short anywhere by a failing call, a cancelled context or a provider that breaks off, with the
  segments completing in any order; the checkpoint file is still true of the spool, and a run that
  succeeds leaves exactly the source's bytes in the spool and reports their SHA-1.
\<close>

theorem interrupted_download_resumes:
  assumes "\<forall>r \<in> set runs. honest (fst r) content" "honest net content"
    and "int (length content) = opt_Size opts" "sound file_claims content opts w"
    and final_def: "final = download_run net reporting order opts fs (download_runs reporting opts runs w)"
  shows "sound file_claims content opts (restart (db_state final)) \<and>
    (\<forall>res. db_result final = Inr res \<longrightarrow>
       spool_bytes (db_state final) = content \<and> dl_SHA1 res = stringsUpperHex (sha1_hex content) \<and>
       dl_Downloaded res = opt_Size opts)"
proof -
  have w: "sound file_claims content opts (download_runs reporting opts runs w)"
    using assms(3,1,4) by (rule sound_runs)
  have "db_wp (download_run net reporting order opts)
    (\<lambda>res w'. spool_bytes w' = content \<and> dl_SHA1 res = stringsUpperHex (sha1_hex content) \<and>
              dl_Downloaded res = opt_Size opts) (\<lambda>_ _. True) (download_runs reporting opts runs w)"
    by (rule file_ck.Download_wp [OF assms(2,3) w]) auto
  from db_wpD(1) [OF this]
  have "spool_bytes (db_state final) = content \<and> dl_SHA1 res = stringsUpperHex (sha1_hex content) \<and>
      dl_Downloaded res = opt_Size opts" if "db_result final = Inr res" for res
    using that unfolding final_def by (metis prod.collapse)
  moreover have "sound file_claims content opts (restart (db_state final))"
    unfolding final_def by (intro sound_restart sound_download assms w)
  ultimately show ?thesis by blast
qed
section \<open>A commit cut short and the spool it poisons\<close>

text \<open>The commit request of the worker: drop the spool, then its checkpoint.\<close>

definition CommitSpool :: "(FileCheckpoint world, unit) dbm" where
  "CommitSpool =
     db_bind (db_exec (\<lambda>w. ((), w\<lparr>w_spool := None\<rparr>))) (\<lambda>_. on_store FileRemove)"

definition example_opts :: DownloadOptions where
  "example_opts = \<lparr>opt_Path = ''s.part'', opt_Name = ''s'', opt_Size = 4, opt_ExpectedSHA1 = '''',
     opt_SegmentSize = 2, opt_Connections = 1, opt_Attempts = 1, opt_BufferSize = 2\<rparr>"

definition example_checkpoint :: "segments \<Rightarrow> FileCheckpoint" where
  "example_checkpoint segs = NewFileCheckpoint
     (Some (CkJSON \<lparr>cs_Version = 1, cs_SourceKey = ''k'', cs_SourceRevision = ''r'', cs_Size = 4,
              cs_SegmentSize = 2, cs_Segments = Some segs\<rparr>)) ''k'' ''r'' 4 2"

definition example_world :: "node option \<Rightarrow> segments \<Rightarrow> FileCheckpoint world" where
  "example_world spool segs = \<lparr>w_spool = spool, w_store = example_checkpoint segs, w_calls = 0,
     w_downloaded = 0, w_reports = []\<rparr>"

text \<open>A provider that serves the ranges of a source below a given offset and fails above it.\<close>

definition partial_net :: "string \<Rightarrow> int \<Rightarrow> net" where
  "partial_net content limit k off len =
     (if off < limit
      then Inr \<lparr>b_data = take (nat len) (drop (nat off) content), b_end = ErrEOF, b_close = None\<rparr>
      else Inl (Errorf ''connection reset'' []))"

lemma honest_partial_net: "honest (partial_net content limit) content"
  by (auto simp: honest_def partial_net_def)

lemmas run_eval = Download_def resume_spool_def fill_spool_def verify_spool_def maybe_report_def
  run_segment_def downloadSegment_def consumeRange_def write_data_def report_chunk_def open_range_def
  ctx_err_def sync_err_def fs_call_def on_store_def emit_report_def
  FileLoad_def FileSave_def FileRemove_def loadLocked_def persistLocked_def
  db_bind_def db_exec_eval db_query_eval db_ret_def db_fail_def db_get_def db_upd_def db_try_def

lemmas example_defs = upto.simps example_opts_def example_world_def example_checkpoint_def NewFileCheckpoint_def

lemma commit_cut_short:
  "restart (db_state (CommitSpool [False, True] (example_world spool segs))) = example_world None segs"
  by (simp add: CommitSpool_def run_eval db_exec_def db_stmt_def example_defs restart_def Let_def)

lemma cut_short_run:
  "restart (db_state (download_run (partial_net content 0) False [] example_opts [] (example_world None [(0, 2), (1, 2)]))) =
   (example_world (Some (Regular (replicate 4 zero_byte))) [(0, 2), (1, 2)])\<lparr>w_calls := 1\<rparr>"
  by (simp add: run_eval example_defs restart_def Let_def valid_options_def total_segments_def
      same_identity_def ProtocolVersion_def upd_spool_def spool_bytes_def truncate_bytes_def
      outside_segment_def pool_order_def partial_net_def segment_length_def)

definition stale_world :: "string \<Rightarrow> FileCheckpoint world" where
  "stale_world content =
     download_runs False example_opts [(partial_net content 0, [], [])]
       (restart (db_state (CommitSpool [False, True] (example_world (Some (Regular content)) [(0, 2), (1, 2)]))))"

text \<open>
  A commit that fails between its two removals leaves a checkpoint without a spool, and then
  the download can report success over a spool it never filled: the next run ignores the recorded
  segments but leaves them on record, breaks off, and the run after it takes every segment for
  finished. Without an expected SHA-1 nothing notices: the reported digest is the one of the zeros
  in the spool.
\<close>

lemma stale_checkpoint_corrupts:
  "sound file_claims ''abcd'' example_opts (example_world (Some (Regular ''abcd'')) [(0, 2), (1, 2)]) \<and>
   honest (partial_net ''abcd'' 0) ''abcd'' \<and>
   (\<exists>res w'. download_run (partial_net ''abcd'' 0) False [] example_opts [] (stale_world ''abcd'') = (Inr res, [], w') \<and>
      spool_bytes w' = replicate 4 zero_byte \<and>
      dl_SHA1 res = stringsUpperHex (sha1_hex (replicate 4 zero_byte)))"
proof (intro conjI)
  show "sound file_claims ''abcd'' example_opts (example_world (Some (Regular ''abcd'')) [(0, 2), (1, 2)])"
    by (auto simp: sound_def filled_def good_def spool_bytes_def example_world_def example_opts_def segment_length_def
        total_segments_def file_claims_def)
  show "honest (partial_net ''abcd'' 0) ''abcd''" by (rule honest_partial_net)
  have "stale_world ''abcd'' = (example_world (Some (Regular (replicate 4 zero_byte))) [(0, 2), (1, 2)])\<lparr>w_calls := 1\<rparr>"
    unfolding stale_world_def download_runs.simps commit_cut_short by (rule cut_short_run)
  then show "\<exists>res w'. download_run (partial_net ''abcd'' 0) False [] example_opts [] (stale_world ''abcd'') = (Inr res, [], w') \<and>
      spool_bytes w' = replicate 4 zero_byte \<and>
      dl_SHA1 res = stringsUpperHex (sha1_hex (replicate 4 zero_byte))"
    by (simp add: run_eval example_defs valid_options_def total_segments_def Hashes_def
      same_identity_def ProtocolVersion_def upd_spool_def spool_bytes_def truncate_bytes_def
      outside_segment_def segment_length_def state_segments_def)
qed

theorem interrupted_download_resumes_witness:
  "sound file_claims ''abcd'' example_opts
     (restart (db_state (download_run (partial_net ''abcd'' 4) False [1, 0] example_opts []
        (download_runs False example_opts [(partial_net ''abcd'' 2, [], [])] (example_world None [])))))"
proof -
  have "sound file_claims ''abcd'' example_opts (example_world None [])"
    by (simp add: sound_def example_defs file_claims_def disk_claims_def recorded_def state_segments_def)
  from interrupted_download_resumes [OF _ honest_partial_net _ this refl,
      of "[(partial_net ''abcd'' 2, [], [])]" 4 False "[1, 0]" "[]"]
  show ?thesis by (simp add: honest_partial_net example_opts_def)
qed

end
