(* ===== verification/TransferPublish.thy ===== *)
theory TransferPublish
  imports Download
begin

text \<open>
  The publication of a spool on the CloudDrive2 mount, \<open>internal/transfer/publish.go\<close>.

  A \<open>site\<close> is what the transfer worker of the NAS sees: the spool files and checkpoint files by
  their paths, the sources another process holds the lock of, a file system tree keyed by the
  elements of absolute paths, the free bytes of its directories, and the events written so far. The
  kernel follows symbolic links, so a path is resolved element by element; the link at the end is
  followed or not as the call says.
\<close>

section \<open>The file system\<close>

datatype fsentry = FileE string | DirE bool | LinkE "string list" | OtherE

type_synonym fsys = "(string list \<times> fsentry) list"

record site =
  site_spools :: "(string \<times> node) list"
  site_checks :: "(string \<times> ckfile) list"
  site_locked :: "string list"
  site_fs :: fsys
  site_free :: "string list \<Rightarrow> int64"
  site_events :: "Event list"

definition ErrNotExist :: error where
  "ErrNotExist = Errorf ''file does not exist'' []"

text \<open>The root is a directory; every other entry is in the tree.\<close>

definition fs_entry :: "fsys \<Rightarrow> string list \<Rightarrow> fsentry option" where
  "fs_entry fs p = (if p = [] then Some (DirE True) else map_of fs p)"

text \<open>
  Path resolution: the elements still to walk and the directory reached. The number bounds the
  links followed; Linux gives up after forty.
\<close>

function resolve :: "nat \<Rightarrow> fsys \<Rightarrow> bool \<Rightarrow> string list \<Rightarrow> string list \<Rightarrow> string list option" where
  "resolve n fs follow dir [] = Some dir"
| "resolve n fs follow dir (s # rest) =
     (case fs_entry fs (dir @ [s]) of
        Some (LinkE targ) \<Rightarrow>
          if rest = [] \<and> \<not> follow then Some (dir @ [s])
          else if n = 0 then None else resolve (n - 1) fs follow [] (targ @ rest)
      | _ \<Rightarrow> resolve n fs follow (dir @ [s]) rest)"
  by pat_completeness auto
termination
  by (relation "measures [\<lambda>(n, fs, follow, dir, segs). n, \<lambda>(n, fs, follow, dir, segs). length segs]") auto

definition locate :: "bool \<Rightarrow> fsys \<Rightarrow> string \<Rightarrow> error + string list" where
  "locate follow fs p =
     (case resolve 40 fs follow [] (path_segs p) of
        None \<Rightarrow> Inl (Errorf ''too many levels of symbolic links'' []) | Some q \<Rightarrow> Inr q)"

definition os_stat :: "bool \<Rightarrow> string \<Rightarrow> (site, fsentry) dbm" where
  "os_stat follow p =
     db_query (\<lambda>s. case locate follow (site_fs s) p of
       Inl e \<Rightarrow> Inl e
     | Inr q \<Rightarrow> (case fs_entry (site_fs s) q of None \<Rightarrow> Inl ErrNotExist | Some ent \<Rightarrow> Inr ent))"

definition set_fs :: "(fsys \<Rightarrow> fsys) \<Rightarrow> site \<Rightarrow> site" where
  "set_fs f s = s\<lparr>site_fs := f (site_fs s)\<rparr>"

text \<open>\<open>os.Remove\<close> removes a file, a link or an empty directory.\<close>

definition os_Remove :: "string \<Rightarrow> (site, unit) dbm" where
  "os_Remove p =
     db_stmt (\<lambda>s. case locate False (site_fs s) p of
       Inl e \<Rightarrow> Inl e
     | Inr q \<Rightarrow> (case fs_entry (site_fs s) q of
           None \<Rightarrow> Inl ErrNotExist
         | Some ent \<Rightarrow>
             if q = [] \<or> list_ex (\<lambda>(r, _). r \<noteq> [] \<and> butlast r = q) (site_fs s)
             then Inl (Errorf ''directory not empty'' [])
             else Inr ((), set_fs (AList.delete q) s)))"

text \<open>\<open>os.OpenFile\<close> with \<open>O_CREATE|O_EXCL|O_WRONLY\<close>; the result is the file the handle denotes.\<close>

definition os_CreateExcl :: "string \<Rightarrow> (site, string list) dbm" where
  "os_CreateExcl p =
     db_stmt (\<lambda>s. case locate False (site_fs s) p of
       Inl e \<Rightarrow> Inl e
     | Inr q \<Rightarrow>
         if fs_entry (site_fs s) q \<noteq> None then Inl (Errorf ''file exists'' [])
         else if fs_entry (site_fs s) (butlast q) \<noteq> Some (DirE True)
         then Inl (Errorf ''permission denied'' [])
         else Inr (q, set_fs (AList.update q (FileE '''')) s))"

definition file_bytes :: "fsentry option \<Rightarrow> string" where
  "file_bytes ent = (case ent of Some (FileE s) \<Rightarrow> s | _ \<Rightarrow> [])"

text \<open>\<open>Write\<close> at the end of the open file; a write that fails writes nothing.\<close>

definition write_file :: "string list \<Rightarrow> string \<Rightarrow> (site, unit) dbm" where
  "write_file q data =
     db_exec (\<lambda>s. ((), set_fs (AList.update q (FileE (file_bytes (fs_entry (site_fs s) q) @ data))) s))"

section \<open>Publishing\<close>

text \<open>\<open>filepath.Abs\<close> of a mount root; the worker admits absolute ones only.\<close>

definition absPath :: "string \<Rightarrow> string" where
  "absPath p = Clean p"

definition regularFileOfSize :: "string \<Rightarrow> int64 \<Rightarrow> (site, bool) dbm" where
  "regularFileOfSize p sz =
     db_bind (db_try (os_stat False p)) (\<lambda>info.
     case info of
       Inl e \<Rightarrow> if e = ErrNotExist then db_ret False else db_fail e
     | Inr ent \<Rightarrow>
         (case ent of
            FileE s \<Rightarrow> if int (length s) = sz then db_ret True
                        else db_fail (Errorf ''%s has an unexpected type or size'' [p])
          | _ \<Rightarrow> db_fail (Errorf ''%s has an unexpected type or size'' [p])))"

text \<open>The directory \<open>_\<close> and the UTF-8 bytes of the Chinese word for pending.\<close>

definition pending_dir :: string where
  "pending_dir = [CHR ''_'', CHR 0xE5, CHR 0xBE, CHR 0x85, CHR 0xE6, CHR 0x95, CHR 0xB4,
     CHR 0xE7, CHR 0x90, CHR 0x86]"

definition check_canaries :: "string \<Rightarrow> (site, unit) dbm" where
  "check_canaries root =
     db_bind (db_try (os_stat True (JoinPath [root, ''.embymedia-health-canary'']))) (\<lambda>info.
     let unavailable = Wrapf ''CloudDrive2 mount canary is unavailable: %w'' [] in
     case info of
       Inl e \<Rightarrow> db_fail (unavailable e)
     | Inr ent \<Rightarrow>
         if \<not> (case ent of FileE _ \<Rightarrow> True | _ \<Rightarrow> False)
         then db_fail (unavailable (Errorf ''canary is not a regular file'' []))
         else db_bind (db_try (regularFileOfSize (JoinPath [root, pending_dir, WorkerCanaryName]) 0)) (\<lambda>r.
           case r of
             Inl e \<Rightarrow> db_fail (Wrapf ''NAS worker canary identity is invalid: %w'' [] e)
           | Inr exists \<Rightarrow> db_require exists (Errorf ''NAS worker canary is unavailable'' [])))"

definition check_directory :: "string \<Rightarrow> int64 \<Rightarrow> (site, unit) dbm" where
  "check_directory directory requiredFreeBytes =
     db_bind (os_stat False directory) (\<lambda>ent.
     case ent of
       DirE writable \<Rightarrow>
         if \<not> writable
         then db_fail (Wrapf ''CloudDrive2 destination is not writable: %w'' []
                         (Errorf ''permission denied'' []))
         else if requiredFreeBytes > 0
         then db_bind (db_query (\<lambda>s. case locate True (site_fs s) directory of
                Inl e \<Rightarrow> Inl e | Inr q \<Rightarrow> Inr (site_free s q))) (\<lambda>free.
              db_require (\<not> free < requiredFreeBytes)
                (Errorf ''CloudDrive2 destination has %d free bytes; %d required''
                   [show_int free, show_int requiredFreeBytes]))
         else db_ret ()
     | _ \<Rightarrow> db_fail (Errorf ''CloudDrive2 destination is not a plain directory'' []))"

definition CheckDestination :: "string \<Rightarrow> string \<Rightarrow> int64 \<Rightarrow> (site, unit) dbm" where
  "CheckDestination mountRoot destination requiredFreeBytes =
     (let root = absPath mountRoot in
      case CleanDestination destination of
        Inl e \<Rightarrow> db_fail e
      | Inr clean \<Rightarrow>
          db_bind (check_canaries root) (\<lambda>_.
          case confinedPath root clean of
            Inl e \<Rightarrow> db_fail e
          | Inr directory \<Rightarrow> check_directory directory requiredFreeBytes))"

text \<open>
  The bytes of the source still to read; the result is what was written and the error that ended
  the loop, if any. A buffer of no bytes would loop for ever; the caller passes one of 1 MiB.
\<close>

function copyContext :: "(string \<Rightarrow> ('d, unit) dbm) \<Rightarrow> nat \<Rightarrow> string \<Rightarrow> int64 \<Rightarrow>
    ('d, int64 \<times> error option) dbm" where
  "copyContext write buffer source written =
     db_bind ctx_err (\<lambda>cancelled.
     if cancelled \<noteq> None then db_ret (written, cancelled)
     else db_bind (db_try fs_call) (\<lambda>r.
       case r of
         Inl readErr \<Rightarrow> db_ret (written, Some readErr)
       | Inr _ \<Rightarrow>
           if source = [] \<or> buffer = 0 then db_ret (written, None)
           else db_bind (db_try (write (take buffer source))) (\<lambda>w.
             case w of
               Inl writeErr \<Rightarrow> db_ret (written, Some writeErr)
             | Inr _ \<Rightarrow> copyContext write buffer (drop buffer source)
                          (written + int (length (take buffer source))))))"
  by pat_completeness auto
termination
  by (relation "measure (\<lambda>(_, _, source, _). length source)") auto

declare copyContext.simps [simp del]

definition open_spool :: "string \<Rightarrow> (site, string) dbm" where
  "open_spool spoolPath =
     db_query (\<lambda>s. case map_of (site_spools s) spoolPath of
       None \<Rightarrow> Inl ErrNotExist
     | Some OtherNode \<Rightarrow> Inl (Errorf ''not a regular file'' [])
     | Some (Regular content) \<Rightarrow> Inr content)"

definition HashPath :: "string \<Rightarrow> (site, string) dbm" where
  "HashPath p = db_bind (open_spool p) (\<lambda>content.
     db_bind fs_call (\<lambda>_. db_ret (stringsUpperHex (sha1_hex content))))"

text \<open>What precedes the copy: a stale file is removed, or an existing one of the size ends the call.\<close>

definition prepare_target :: "bool \<Rightarrow> string \<Rightarrow> string \<Rightarrow> int64 \<Rightarrow> (site, bool) dbm" where
  "prepare_target replace finalPath cleanName sz =
     (if replace
      then db_bind (db_try (os_Remove finalPath)) (\<lambda>r.
        case r of
          Inl e \<Rightarrow> if e = ErrNotExist then db_ret False
                    else db_fail (Wrapf ''remove stale destination %s: %w'' [cleanName] e)
        | Inr _ \<Rightarrow> db_ret False)
      else db_bind (db_try (regularFileOfSize finalPath sz)) (\<lambda>r.
        case r of
          Inl e \<Rightarrow> db_fail (Wrapf ''same-name destination conflict: %w'' [] e)
        | Inr exists \<Rightarrow> db_ret exists))"

definition write_target :: "string \<Rightarrow> string \<Rightarrow> string \<Rightarrow> int64 \<Rightarrow> (site, unit) dbm" where
  "write_target content finalPath cleanName sz =
     db_bind (os_CreateExcl finalPath) (\<lambda>q.
     db_bind (copyContext (write_file q) (1024 * 1024) content 0) (\<lambda>(written, copyErr).
     db_bind (db_try fs_call) (\<lambda>synced.
     db_bind (db_try fs_call) (\<lambda>closed.
     if copyErr \<noteq> None \<or> written \<noteq> sz \<or> isl synced \<or> isl closed
     then db_bind (db_try (os_Remove finalPath)) (\<lambda>_.
       db_fail (case copyErr of
           Some e \<Rightarrow> e
         | None \<Rightarrow> if written \<noteq> sz
                   then Errorf ''CloudDrive2 wrote %d of %d bytes'' [show_int written, show_int sz]
                   else (case synced of Inl e \<Rightarrow> e
                         | Inr _ \<Rightarrow> (case closed of Inl e \<Rightarrow> e | Inr _ \<Rightarrow> ErrDriver))))
     else db_bind (os_stat True finalPath) (\<lambda>info.
       let reported = int (length (file_bytes (Some info))) in
       if \<not> (case info of FileE _ \<Rightarrow> True | _ \<Rightarrow> False) \<or> reported \<noteq> sz
       then db_bind (db_try (os_Remove finalPath)) (\<lambda>_.
         db_fail (Errorf ''CloudDrive2 reported %d of %d bytes for %s'' [show_int reported, show_int sz, cleanName]))
       else db_ret ())))))"

definition Publish ::
  "string \<Rightarrow> string \<Rightarrow> string \<Rightarrow> string \<Rightarrow> int64 \<Rightarrow> bool \<Rightarrow> (site, unit) dbm" where
  "Publish spoolPath mountRoot destination name sz replace =
     (case CleanDestination destination of
        Inl e \<Rightarrow> db_fail e
      | Inr cleanDestination \<Rightarrow>
        (case CleanFileName name of
           Inl e \<Rightarrow> db_fail e
         | Inr cleanName \<Rightarrow>
             db_bind (CheckDestination mountRoot cleanDestination sz) (\<lambda>_.
             case confinedPath (absPath mountRoot) cleanDestination of
               Inl e \<Rightarrow> db_fail e
             | Inr directory \<Rightarrow>
                 let finalPath = JoinPath [directory, cleanName] in
                 db_bind (prepare_target replace finalPath cleanName sz) (\<lambda>exists.
                 if exists then db_ret ()
                 else db_bind (open_spool spoolPath) (\<lambda>content.
                   write_target content finalPath cleanName sz)))))"
section \<open>What a publication can change\<close>

text \<open>No symbolic link on the way to \<open>q\<close>: the kernel walks the path as it is written.\<close>

definition direct :: "fsys \<Rightarrow> string list \<Rightarrow> bool" where
  "direct fs q \<longleftrightarrow>
     list_all (\<lambda>k. case fs_entry fs (take k q) of Some (LinkE _) \<Rightarrow> False | _ \<Rightarrow> True) [1..<length q]"

lemma resolve_direct:
  assumes "\<And>k t. 0 < k \<Longrightarrow> k \<le> length segs \<Longrightarrow> k < length segs \<or> follow \<Longrightarrow>
    fs_entry fs (dir @ take k segs) \<noteq> Some (LinkE t)"
  shows "resolve n fs follow dir segs = Some (dir @ segs)"
  using assms
proof (induction segs arbitrary: dir)
  case (Cons s rest)
  have "resolve n fs follow (dir @ [s]) rest = Some ((dir @ [s]) @ rest)"
  proof (rule Cons.IH)
    fix k t assume "0 < k" "k \<le> length rest" "k < length rest \<or> follow"
    then show "fs_entry fs ((dir @ [s]) @ take k rest) \<noteq> Some (LinkE t)"
      using Cons.prems [of "Suc k" t] by simp
  qed
  moreover have "fs_entry fs (dir @ [s]) \<noteq> Some (LinkE t)" if "rest \<noteq> [] \<or> follow" for t
    using Cons.prems [of 1 t] that by (cases rest) auto
  ultimately show ?case by (auto split: option.split fsentry.split)
qed simp

lemma direct_nth: "direct fs q \<Longrightarrow> 0 < k \<Longrightarrow> k < length q \<Longrightarrow> fs_entry fs (take k q) \<noteq> Some (LinkE t)"
  by (drule iffD1 [OF direct_def], unfold list_all_iff, drule bspec [of _ _ k]) auto

lemma locate_nofollow: "direct fs (path_segs p) \<Longrightarrow> locate False fs p = Inr (path_segs p)"
  using resolve_direct [of "path_segs p" False fs "[]"] direct_nth [of fs "path_segs p"]
  by (simp add: locate_def)

lemma locate_follow:
  "direct fs (path_segs p) \<Longrightarrow> (\<And>t. fs_entry fs (path_segs p) \<noteq> Some (LinkE t)) \<Longrightarrow>
   locate True fs p = Inr (path_segs p)"
  using resolve_direct [of "path_segs p" True fs "[]"] direct_nth [of fs "path_segs p"]
  by (fastforce simp: locate_def le_less)

text \<open>Nothing but the entry at \<open>q\<close> may differ from the site \<open>s\<close>, and that entry is \<open>ent\<close>.\<close>

definition changed :: "string list \<Rightarrow> site \<Rightarrow> fsentry option \<Rightarrow> site \<Rightarrow> bool" where
  "changed q s ent s' \<longleftrightarrow> s'\<lparr>site_fs := []\<rparr> = s\<lparr>site_fs := []\<rparr> \<and>
     (\<forall>r. r \<noteq> q \<longrightarrow> map_of (site_fs s') r = map_of (site_fs s) r) \<and> map_of (site_fs s') q = ent"

lemma changed_start: "changed q s (map_of (site_fs s) q) s"
  by (simp add: changed_def)

lemma changed_update: "changed q s ent s1 \<Longrightarrow> changed q s (Some e) (set_fs (AList.update q e) s1)"
  by (auto simp: changed_def set_fs_def update_conv')

lemma changed_delete: "changed q s ent s1 \<Longrightarrow> changed q s None (set_fs (AList.delete q) s1)"
  by (auto simp: changed_def set_fs_def delete_conv')

lemma changed_entry: "changed q s ent s1 \<Longrightarrow> q \<noteq> [] \<Longrightarrow> fs_entry (site_fs s1) q = ent"
  by (simp add: changed_def fs_entry_def)

lemma changed_direct: "changed q s ent s1 \<Longrightarrow> direct (site_fs s) q \<Longrightarrow> direct (site_fs s1) q"
proof -
  assume "changed q s ent s1"
  then have "fs_entry (site_fs s1) (take k q) = fs_entry (site_fs s) (take k q)" if "k \<in> set [1..<length q]" for k
  proof -
    have "length (take k q) < length q" using that by auto
    then have "take k q \<noteq> q" by (metis less_irrefl)
    with \<open>changed q s ent s1\<close> show ?thesis by (simp add: changed_def fs_entry_def)
  qed
  then show "direct (site_fs s) q \<Longrightarrow> direct (site_fs s1) q"
    unfolding direct_def list_all_iff by auto
qed

lemma not_exist_simps [simp]: "ErrDriver \<noteq> ErrNotExist" "ErrNotExist \<noteq> ErrDriver"
  by (simp_all add: ErrNotExist_def)

text \<open>The path \<open>p\<close> leads to the entry \<open>q\<close> without a link.\<close>

definition leads :: "site \<Rightarrow> string \<Rightarrow> string list \<Rightarrow> bool" where
  "leads s p q \<longleftrightarrow> path_segs p = q \<and> q \<noteq> [] \<and> direct (site_fs s) q"

lemma leads_locate: "leads s p q \<Longrightarrow> changed q s ent s1 \<Longrightarrow> locate False (site_fs s1) p = Inr q"
  using locate_nofollow [of "site_fs s1" p] changed_direct [of q s ent s1] by (auto simp: leads_def)

lemma leads_locate_file:
  "leads s p q \<Longrightarrow> changed q s (Some (FileE b)) s1 \<Longrightarrow> locate True (site_fs s1) p = Inr q"
  using locate_follow [of "site_fs s1" p] changed_direct [of q s "Some (FileE b)" s1]
    changed_entry [of q s "Some (FileE b)" s1] by (auto simp: leads_def)

lemma leads_entry: "leads s p q \<Longrightarrow> changed q s ent s1 \<Longrightarrow> fs_entry (site_fs s1) q = ent"
  by (simp add: leads_def changed_entry)

lemma os_Remove_wp:
  assumes "leads s p q" "changed q s ent s1"
    and "\<And>s2. changed q s None s2 \<Longrightarrow> Q () s2" "\<And>e. (e = ErrNotExist \<Longrightarrow> ent = None) \<Longrightarrow> E e s1"
  shows "db_wp (os_Remove p) Q E s1"
  unfolding os_Remove_def
  by (rule db_wp_stmt)
    (auto simp: leads_locate [OF assms(1,2)] leads_entry [OF assms(1,2)] ErrNotExist_def
      intro!: assms(3,4) changed_delete [OF assms(2)] split: option.splits if_splits)

lemma os_CreateExcl_wp:
  assumes "leads s p q" "changed q s ent s1"
    and "\<And>s2. ent = None \<Longrightarrow> changed q s (Some (FileE [])) s2 \<Longrightarrow> Q q s2" "\<And>e. E e s1"
  shows "db_wp (os_CreateExcl p) Q E s1"
  unfolding os_CreateExcl_def
  by (rule db_wp_stmt)
    (auto simp: leads_locate [OF assms(1,2)] leads_entry [OF assms(1,2)]
      intro!: assms(3,4) changed_update [OF assms(2)] split: if_splits)

lemma write_file_wp:
  assumes "leads s p q" "changed q s (Some (FileE b)) s1"
    and "\<And>s2. changed q s (Some (FileE (b @ data))) s2 \<Longrightarrow> Q () s2" "\<And>e. E e s1"
  shows "db_wp (write_file q data) Q E s1"
  unfolding write_file_def
  by (rule db_wp_exec)
    (auto simp: leads_entry [OF assms(1,2)] file_bytes_def intro!: assms(3,4) changed_update [OF assms(2)])

lemma ctx_err_wp: "(\<And>e. Q e s) \<Longrightarrow> db_wp ctx_err Q E s"
  unfolding ctx_err_def fs_call_def by (intro wp_rules) auto

lemma try_call_wp: "(\<And>e. Q e s) \<Longrightarrow> db_wp (db_try fs_call) Q E s"
  unfolding fs_call_def by (intro wp_rules) auto

text \<open>The copy appends a prefix of the source, all of it when it ends without an error.\<close>

lemma copyContext_wp:
  assumes "leads s p q" "changed q s (Some (FileE b)) s1" "0 < buffer"
    and "\<And>k e s2. changed q s (Some (FileE (b @ take k source))) s2 \<Longrightarrow>
           (e = None \<Longrightarrow> take k source = source) \<Longrightarrow> Q (written + int (length (take k source)), e) s2"
  shows "db_wp (copyContext (write_file q) buffer source written) Q E s1"
  using assms(2,4)
proof (induction "length source" arbitrary: source written b s1 rule: less_induct)
  case less
  have stop: "Q (written, e) s1" if "e \<noteq> None \<or> source = []" for e
    using less.prems(2) [of 0 s1 e] less.prems(1) that by (cases e) auto
  show ?case
  proof (cases "source = []")
    case True
    then show ?thesis
      by (subst copyContext.simps) (auto intro!: wp_rules ctx_err_wp try_call_wp stop)
  next
    case False
    have rest: "db_wp (copyContext (write_file q) buffer (drop buffer source)
        (written + int (length (take buffer source)))) Q E s2"
      if "changed q s (Some (FileE (b @ take buffer source))) s2" for s2
    proof (rule less.hyps)
      show "length (drop buffer source) < length source" using False assms(3) by simp
      show "changed q s (Some (FileE (b @ take buffer source))) s2" by (rule that)
      fix k :: nat and e :: "error option" and s3
      assume s3: "changed q s (Some (FileE ((b @ take buffer source) @ take k (drop buffer source)))) s3"
        "e = None \<Longrightarrow> take k (drop buffer source) = drop buffer source"
      have "take (buffer + k) source = take buffer source @ take k (drop buffer source)" by (simp add: take_add)
      with s3 less.prems(2) [of "buffer + k" s3 e]
      show "Q (written + int (length (take buffer source)) + int (length (take k (drop buffer source))), e) s3"
        by (simp add: add.assoc)
    qed
    show ?thesis
      apply (subst copyContext.simps)
      apply (rule db_wp_bind, rule ctx_err_wp, rule db_wp_if, rule db_wp_ret, rule stop, simp)
      apply (rule db_wp_bind, rule try_call_wp, rule db_wp_case_sum, rule db_wp_ret, rule stop, simp)
      apply (rule db_wp_if, use False assms(3) in simp)
      apply (rule db_wp_bind, rule db_wp_try, rule write_file_wp [OF assms(1) less.prems(1)])
      by (auto intro!: db_wp_ret stop rest simp del: length_take)
  qed
qed

lemma os_Lstat_wp:
  assumes "leads s p q" "changed q s ent s1"
    and "\<And>x. ent = Some x \<Longrightarrow> Q x s1" "\<And>e. (e = ErrNotExist \<Longrightarrow> ent = None) \<Longrightarrow> E e s1"
  shows "db_wp (os_stat False p) Q E s1"
  unfolding os_stat_def
  by (rule db_wp_query)
    (auto simp: leads_locate [OF assms(1,2)] leads_entry [OF assms(1,2)] intro!: assms(3,4) split: option.splits)

lemma regularFileOfSize_wp:
  assumes "leads s p q" "changed q s ent s1"
    and "\<And>c. ent = Some (FileE c) \<Longrightarrow> int (length c) = sz \<Longrightarrow> Q True s1" "ent = None \<Longrightarrow> Q False s1"
    and "\<And>e. E e s1"
  shows "db_wp (regularFileOfSize p sz) Q E s1"
  unfolding regularFileOfSize_def
  apply (rule db_wp_bind, rule db_wp_try, rule os_Lstat_wp [OF assms(1,2)])
  subgoal for x by (cases x) (auto intro!: db_wp_ret db_wp_fail assms(3-5))
  subgoal by (auto intro!: db_wp_ret db_wp_fail assms(4,5))
  done

lemma prepare_target_wp:
  assumes "leads s p q" "changed q s ent s1"
    and "\<And>c. \<not> replace \<Longrightarrow> ent = Some (FileE c) \<Longrightarrow> int (length c) = sz \<Longrightarrow> Q True s1"
    and "\<And>s2. changed q s None s2 \<Longrightarrow> replace \<or> ent = None \<Longrightarrow> Q False s2"
    and "\<And>e. E e s1"
  shows "db_wp (prepare_target replace p name sz) Q E s1"
  unfolding prepare_target_def
proof (rule db_wp_if)
  assume replace
  then show "db_wp (db_bind (db_try (os_Remove p)) (\<lambda>r.
        case r of
          Inl e \<Rightarrow> if e = ErrNotExist then db_ret False
                    else db_fail (Wrapf ''remove stale destination %s: %w'' [name] e)
        | Inr _ \<Rightarrow> db_ret False)) Q E s1"
    apply (intro db_wp_bind db_wp_try)
    apply (rule os_Remove_wp [OF assms(1,2)])
    using assms(2) by (auto intro!: db_wp_ret db_wp_fail assms(4,5))
next
  assume "\<not> replace"
  then show "db_wp (db_bind (db_try (regularFileOfSize p sz)) (\<lambda>r.
        case r of
          Inl e \<Rightarrow> db_fail (Wrapf ''same-name destination conflict: %w'' [] e)
        | Inr exists \<Rightarrow> db_ret exists)) Q E s1"
    apply (intro db_wp_bind db_wp_try)
    apply (rule regularFileOfSize_wp [OF assms(1,2)])
    using assms(2) by (auto intro!: db_wp_ret db_wp_fail assms(3-5))
qed

lemma write_target_wp:
  assumes "leads s p q" "changed q s ent s1"
    and Q: "\<And>s2. changed q s (Some (FileE content)) s2 \<Longrightarrow> int (length content) = sz \<Longrightarrow> Q () s2"
    and E: "\<And>e s2 x. changed q s x s2 \<Longrightarrow> x = ent \<or> x = None \<or> (\<exists>k. x = Some (FileE (take k content))) \<Longrightarrow> E e s2"
  shows "db_wp (write_target content p name sz) Q E s1"
  unfolding write_target_def
proof (rule db_wp_bind, rule os_CreateExcl_wp [OF assms(1,2)])
  show "E e s1" for e by (rule E [OF assms(2)]) simp
  fix s2 assume s2: "ent = None" "changed q s (Some (FileE [])) s2"
  have cleanup: "db_wp (db_bind (db_try (os_Remove p)) (\<lambda>_. db_fail e)) Q E s3"
    if "changed q s (Some (FileE (take k content))) s3" for k e s3
    by (intro db_wp_bind db_wp_try, rule os_Remove_wp [OF assms(1) that])
      (auto intro!: db_wp_fail E that)
  show "db_wp (db_bind (copyContext (write_file q) (1024 * 1024) content 0) (\<lambda>(written, copyErr).
     db_bind (db_try fs_call) (\<lambda>synced.
     db_bind (db_try fs_call) (\<lambda>closed.
     if copyErr \<noteq> None \<or> written \<noteq> sz \<or> isl synced \<or> isl closed
     then db_bind (db_try (os_Remove p)) (\<lambda>_.
       db_fail (case copyErr of
           Some e \<Rightarrow> e
         | None \<Rightarrow> if written \<noteq> sz
                   then Errorf ''CloudDrive2 wrote %d of %d bytes'' [show_int written, show_int sz]
                   else (case synced of Inl e \<Rightarrow> e
                         | Inr _ \<Rightarrow> (case closed of Inl e \<Rightarrow> e | Inr _ \<Rightarrow> ErrDriver))))
     else db_bind (os_stat True p) (\<lambda>info.
       let reported = int (length (file_bytes (Some info))) in
       if \<not> (case info of FileE _ \<Rightarrow> True | _ \<Rightarrow> False) \<or> reported \<noteq> sz
       then db_bind (db_try (os_Remove p)) (\<lambda>_.
         db_fail (Errorf ''CloudDrive2 reported %d of %d bytes for %s'' [show_int reported, show_int sz, name]))
       else db_ret ()))))) Q E s2"
  proof (rule db_wp_bind, rule copyContext_wp [OF assms(1) s2(2)], simp)
    fix k :: nat and e :: "error option" and s3
    assume s3: "changed q s (Some (FileE ([] @ take k content))) s3" and all: "e = None \<Longrightarrow> take k content = content"
    have partial: "changed q s (Some (FileE (take k content))) s3" using s3 by simp
    have stat: "db_wp (os_stat True p) (\<lambda>x s4. s4 = s3 \<and> x = FileE (take k content)) (\<lambda>_ s4. s4 = s3) s3"
      unfolding os_stat_def
      by (rule db_wp_query)
        (auto simp: leads_locate_file [OF assms(1) partial] leads_entry [OF assms(1) partial])
    show "db_wp (case (0 + int (length (take k content)), e) of (written, copyErr) \<Rightarrow>
      db_bind (db_try fs_call) (\<lambda>synced.
     db_bind (db_try fs_call) (\<lambda>closed.
     if copyErr \<noteq> None \<or> written \<noteq> sz \<or> isl synced \<or> isl closed
     then db_bind (db_try (os_Remove p)) (\<lambda>_.
       db_fail (case copyErr of
           Some e \<Rightarrow> e
         | None \<Rightarrow> if written \<noteq> sz
                   then Errorf ''CloudDrive2 wrote %d of %d bytes'' [show_int written, show_int sz]
                   else (case synced of Inl e \<Rightarrow> e
                         | Inr _ \<Rightarrow> (case closed of Inl e \<Rightarrow> e | Inr _ \<Rightarrow> ErrDriver))))
     else db_bind (os_stat True p) (\<lambda>info.
       let reported = int (length (file_bytes (Some info))) in
       if \<not> (case info of FileE _ \<Rightarrow> True | _ \<Rightarrow> False) \<or> reported \<noteq> sz
       then db_bind (db_try (os_Remove p)) (\<lambda>_.
         db_fail (Errorf ''CloudDrive2 reported %d of %d bytes for %s'' [show_int reported, show_int sz, name]))
       else db_ret ())))) Q E s3"
      unfolding prod.case
      apply (rule db_wp_bind, rule try_call_wp)
      apply (rule db_wp_bind, rule try_call_wp)
      apply (rule db_wp_if, rule cleanup [OF partial])
      apply (rule db_wp_bind, rule db_wp_conseq [OF stat])
      subgoal using all s3 by (auto simp: file_bytes_def Let_def intro!: db_wp_ret Q)
      subgoal using E [OF partial] by auto
      done
  qed
qed

lemma readonly_wp: "db_readonly m \<Longrightarrow> (\<And>x. Q x s) \<Longrightarrow> (\<And>e. E e s) \<Longrightarrow> db_wp m Q E s"
  unfolding db_readonly_def db_wp_def by (auto split: prod.splits sum.splits) (metis snd_conv)+

lemma readonly_stat: "db_readonly (os_stat follow p)"
  unfolding os_stat_def by (rule db_readonly_query)

lemma readonly_CheckDestination: "db_readonly (CheckDestination mountRoot destination free)"
  unfolding CheckDestination_def check_canaries_def check_directory_def regularFileOfSize_def Let_def
  by (auto intro!: db_readonly_bind db_readonly_try readonly_stat db_readonly_query db_readonly_ret
      db_readonly_fail db_readonly_require db_readonly_if split: sum.split fsentry.split)

text \<open>The path a publication writes to.\<close>

definition publish_path :: "string \<Rightarrow> string \<Rightarrow> string \<Rightarrow> string" where
  "publish_path mountRoot dest file = JoinPath [JoinPath [absPath mountRoot, dest], file]"

lemma publish_path_confined:
  assumes "IsAbs mountRoot" "CleanDestination destination = Inr dest" "CleanFileName name = Inr file"
  shows "confinedPath (absPath mountRoot) dest = Inr (JoinPath [absPath mountRoot, dest])"
    and "\<exists>segs. (\<forall>w \<in> set segs. plain_seg w) \<and>
      path_segs (publish_path mountRoot dest file) = path_segs mountRoot @ segs @ [file]"
proof -
  have abs: "IsAbs (absPath mountRoot)" "path_segs (absPath mountRoot) = path_segs mountRoot"
    using Clean_abs_segs [OF assms(1)] by (simp_all add: absPath_def)
  from final_path [OF abs(1) assms(2,3)] obtain dir segs where d: "confinedPath (absPath mountRoot) dest = Inr dir"
    "\<forall>w \<in> set segs. plain_seg w" "plain_seg file"
    "JoinPath [dir, file] = slash # join_slash (path_segs mountRoot @ segs @ [file])"
    unfolding abs(2) by blast
  have dir: "dir = JoinPath [absPath mountRoot, dest]"
    using d(1) by (auto simp: confinedPath_def Let_def split: sum.splits if_splits)
  with d(1) show "confinedPath (absPath mountRoot) dest = Inr (JoinPath [absPath mountRoot, dest])" by simp
  have "\<forall>w \<in> set (path_segs mountRoot @ segs @ [file]). plain_seg w"
    using d(2,3) path_segs_abs_plain [OF assms(1)] by auto
  from path_segs_abs_join(1) [OF this] d(2,4) dir
  show "\<exists>segs. (\<forall>w \<in> set segs. plain_seg w) \<and>
      path_segs (publish_path mountRoot dest file) = path_segs mountRoot @ segs @ [file]"
    unfolding publish_path_def by auto
qed

definition published :: "site \<Rightarrow> string \<Rightarrow> string list \<Rightarrow> int64 \<Rightarrow> bool \<Rightarrow> error + unit \<Rightarrow> site \<Rightarrow> bool" where
  "published s spoolPath q sz replace res s' \<longleftrightarrow>
     (case res of
        Inr _ \<Rightarrow> (\<exists>bytes. fs_entry (site_fs s') q = Some (FileE bytes) \<and> int (length bytes) = sz \<and>
           (\<not> replace \<and> fs_entry (site_fs s) q = Some (FileE bytes) \<or>
            map_of (site_spools s) spoolPath = Some (Regular bytes)))
      | Inl _ \<Rightarrow> fs_entry (site_fs s') q \<in> {fs_entry (site_fs s) q, None} \<or>
          (\<exists>content k. map_of (site_spools s) spoolPath = Some (Regular content) \<and>
             fs_entry (site_fs s') q = Some (FileE (take k content))))"

lemma Publish_wp:
  assumes "IsAbs mountRoot" and clean: "CleanDestination destination = Inr dest" "CleanFileName name = Inr file"
    and leads: "leads s (publish_path mountRoot dest file) q"
  shows "db_wp (Publish spoolPath mountRoot destination name sz replace)
    (\<lambda>x s'. changed q s (fs_entry (site_fs s') q) s' \<and> published s spoolPath q sz replace (Inr x) s')
    (\<lambda>e s'. changed q s (fs_entry (site_fs s') q) s' \<and> published s spoolPath q sz replace (Inl e) s') s"
    (is "db_wp _ ?Q ?E s")
proof -
  have start: "changed q s (fs_entry (site_fs s) q) s"
    using leads changed_start [of q s] by (simp add: leads_def fs_entry_def)
  have E: "?E e s'" if "changed q s ent s'" "ent = fs_entry (site_fs s) q \<or> ent = None \<or>
    (\<exists>content k. map_of (site_spools s) spoolPath = Some (Regular content) \<and> ent = Some (FileE (take k content)))"
    for e s' ent
    using that leads_entry [OF leads that(1)] by (auto simp: published_def)
  have Q: "?Q () s'" if "changed q s (Some (FileE bytes)) s'" "int (length bytes) = sz"
    "\<not> replace \<and> fs_entry (site_fs s) q = Some (FileE bytes) \<or> map_of (site_spools s) spoolPath = Some (Regular bytes)"
    for s' bytes
    using that leads_entry [OF leads that(1)] by (auto simp: published_def)
  have same: "?E e s" for e by (rule E [OF start]) simp
  have spools: "site_spools s1 = site_spools s" if "changed q s ent s1" for ent s1
  proof -
    have "site_spools (s1\<lparr>site_fs := []\<rparr>) = site_spools (s\<lparr>site_fs := []\<rparr>)"
      using that unfolding changed_def by (elim conjE) (rule arg_cong [of _ _ site_spools])
    then show ?thesis by simp
  qed
  have copy: "db_wp (db_bind (open_spool spoolPath) (\<lambda>content.
        write_target content (publish_path mountRoot dest file) file sz)) ?Q ?E s2"
    if s2: "changed q s None s2" for s2
  proof -
    have E2: "?E e s2" for e by (rule E [OF s2]) simp
    show ?thesis
      unfolding open_spool_def
      apply (rule db_wp_bind, rule db_wp_query, rule E2, rule E2)
      subgoal premises o for content
      proof -
        have content: "map_of (site_spools s) spoolPath = Some (Regular content)"
          using o spools [OF s2] by (auto split: option.splits node.splits)
        show ?thesis
          apply (rule write_target_wp [OF leads s2])
          subgoal by (rule Q, assumption, assumption) (simp add: content)
          subgoal by (rule E, assumption) (use content in auto)
          done
      qed
      done
  qed
  show ?thesis
    unfolding Publish_def clean sum.case Let_def publish_path_confined(1) [OF assms(1-3)]
      publish_path_def [symmetric]
    apply (rule db_wp_bind, rule readonly_wp [OF readonly_CheckDestination])
    subgoal
      apply (rule db_wp_bind, rule prepare_target_wp [OF leads start])
      subgoal premises c for c
        using start c by (auto simp: published_def intro!: db_wp_ret)
      subgoal for s2 by (simp only: if_False) (rule copy)
      subgoal by (rule same)
      done
    subgoal by (rule same)
    done
qed

text \<open>
  C34. A publication touches nothing but the file of the requested name in the requested directory
  below the mount root, whatever fails on the way, as long as no symbolic link lies on that path.
  When it succeeds, that file has the requested size, and it is the spool byte for byte unless it
  was there before and no replacement was asked for; when it fails, the file is as it was, or
  absent, or, if its removal failed too, holds the first bytes of the spool.
\<close>

theorem publish_writes_only_target:
  assumes "IsAbs mountRoot" "CleanDestination destination = Inr dest" "CleanFileName name = Inr file"
    and "leads s (publish_path mountRoot dest file) q"
    and run: "Publish spoolPath mountRoot destination name sz replace fs s = (res, fs', s')"
  shows "(\<exists>segs. (\<forall>w \<in> set segs. plain_seg w) \<and> q = path_segs mountRoot @ segs @ [file]) \<and>
    s'\<lparr>site_fs := []\<rparr> = s\<lparr>site_fs := []\<rparr> \<and>
    (\<forall>r. r \<noteq> q \<longrightarrow> fs_entry (site_fs s') r = fs_entry (site_fs s) r) \<and>
    published s spoolPath q sz replace res s'"
proof -
  have "\<exists>segs. (\<forall>w \<in> set segs. plain_seg w) \<and> q = path_segs mountRoot @ segs @ [file]"
    using publish_path_confined(2) [OF assms(1-3)] assms(4) by (auto simp: leads_def)
  moreover have "changed q s (fs_entry (site_fs s') q) s' \<and> published s spoolPath q sz replace res s'"
    using db_wpD [OF Publish_wp [OF assms(1-4), of spoolPath sz replace]] run by (cases res) auto
  ultimately show ?thesis by (simp add: changed_def fs_entry_def)
qed

definition example_fs :: "fsentry \<Rightarrow> fsys" where
  "example_fs a =
     [([''m''], DirE True), ([''m'', ''.embymedia-health-canary''], FileE ''''),
      ([''m'', pending_dir], DirE True), ([''m'', pending_dir, WorkerCanaryName], FileE ''''),
      ([''m'', ''a''], a), ([''m'', ''a'', ''d''], DirE True), ([''etc''], DirE True), ([''etc'', ''d''], DirE True)]"

definition example_site :: "fsentry \<Rightarrow> site" where
  "example_site a = \<lparr>site_spools = [(''s.part'', Regular ''abcd'')], site_checks = [], site_locked = [],
     site_fs = example_fs a, site_free = (\<lambda>_. 100), site_events = []\<rparr>"

lemmas publish_eval = Publish_def CheckDestination_def check_canaries_def check_directory_def regularFileOfSize_def
  prepare_target_def write_target_def os_stat_def os_Remove_def os_CreateExcl_def write_file_def open_spool_def
  copyContext.simps ctx_err_def fs_call_def locate_def fs_entry_def set_fs_def absPath_def file_bytes_def
  db_bind_def db_exec_eval db_query_eval db_stmt_eval db_ret_def db_fail_def db_try_def db_require_def

lemma example_cleaned:
  "CleanDestination ''a/d'' = Inr ''a/d''" "CleanFileName ''f'' = Inr ''f''"
  "confinedPath ''/m'' ''a/d'' = Inr ''/m/a/d''" "Clean ''/m'' = ''/m''" "JoinPath [''/m/a/d'', ''f''] = ''/m/a/d/f''"
  "JoinPath [''/m'', ''.embymedia-health-canary''] = ''/m/.embymedia-health-canary''"
  "path_segs ''/m/.embymedia-health-canary'' = [''m'', ''.embymedia-health-canary'']"
  "path_segs (JoinPath [''/m'', pending_dir, WorkerCanaryName]) = [''m'', pending_dir, WorkerCanaryName]"
  "path_segs ''/m/a/d'' = [''m'', ''a'', ''d'']" "path_segs ''/m/a/d/f'' = [''m'', ''a'', ''d'', ''f'']"
  "path_segs ''/m'' = [''m'']"
  by (simp_all add: path_eval pending_dir_def WorkerCanaryName_def)

lemma example_names:
  "pending_dir \<noteq> ''a''" "''a'' \<noteq> pending_dir" "WorkerCanaryName \<noteq> ''d''" "pending_dir \<noteq> ''.embymedia-health-canary''"
  "''.embymedia-health-canary'' \<noteq> pending_dir"
  by (simp_all add: pending_dir_def WorkerCanaryName_def)

lemma example_publish:
  "fs_entry (site_fs (db_state (Publish ''s.part'' ''/m'' ''a/d'' ''f'' 4 False [] (example_site (DirE True)))))
     [''m'', ''a'', ''d'', ''f''] = Some (FileE ''abcd'')"
  by (simp add: publish_eval example_cleaned example_names example_site_def example_fs_def Let_def del: JoinPath.simps)

theorem publish_writes_only_target_witness:
  "fs_entry (site_fs (db_state (Publish ''s.part'' ''/m'' ''a/d'' ''f'' 4 False [] (example_site (DirE True)))))
     [''m'', ''a''] = Some (DirE True)"
proof -
  let ?run = "Publish ''s.part'' ''/m'' ''a/d'' ''f'' 4 False [] (example_site (DirE True))"
  have p: "publish_path ''/m'' ''a/d'' ''f'' = ''/m/a/d/f''"
    by (simp add: publish_path_def absPath_def path_eval)
  have leads: "leads (example_site (DirE True)) (publish_path ''/m'' ''a/d'' ''f'') [''m'', ''a'', ''d'', ''f'']"
    unfolding leads_def direct_def p
    by (simp add: example_cleaned upt_conv_Cons example_names fs_entry_def example_site_def example_fs_def)
  have run: "?run = (db_result ?run, fst (snd ?run), db_state ?run)" by simp
  have abs: "IsAbs ''/m''" by (simp add: IsAbs_def slash_def)
  from publish_writes_only_target [OF abs example_cleaned(1,2) leads run]
  have "fs_entry (site_fs (db_state ?run)) [''m'', ''a''] = fs_entry (site_fs (example_site (DirE True))) [''m'', ''a'']"
    by blast
  then show ?thesis by (simp add: fs_entry_def example_site_def example_fs_def example_names)
qed

text \<open>
  The confinement below the mount root is lexical: when an inner element of the destination is
  a symbolic link, \<open>CheckDestination\<close>, which refuses only a link at the end, accepts it, and
  \<open>Publish\<close> writes the file outside the mount.
\<close>

theorem publish_follows_links:
  "fs_entry (site_fs (db_state (Publish ''s.part'' ''/m'' ''a/d'' ''f'' 4 False [] (example_site (LinkE [''etc''])))))
     [''etc'', ''d'', ''f''] = Some (FileE ''abcd'')"
  by (simp add: publish_eval example_cleaned example_names example_site_def example_fs_def Let_def del: JoinPath.simps)

end
