(* ===== verification/DownloadProgress.thy ===== *)
theory DownloadProgress
  imports Download
begin

text \<open>
  What the download of \<open>internal/transfer/download.go\<close> achieves and what it reports: it completes
  when nothing disturbs it (whatever earlier runs left behind), and the progress it reports grows
  within the size of the source.
\<close>

section \<open>A download that nothing disturbs completes\<close>

text \<open>A provider that answers every range in full.\<close>

definition serves :: "net \<Rightarrow> string \<Rightarrow> bool" where
  "serves net content \<longleftrightarrow> (\<forall>k off len. 0 \<le> off \<longrightarrow>
     net k off len = Inr \<lparr>b_data = take (nat len) (drop (nat off) content), b_end = ErrEOF, b_close = None\<rparr>)"

lemma serves_honest: "serves net content \<Longrightarrow> honest net content"
  unfolding serves_def honest_def by (metis Inr_inject body.select_convs(1))

text \<open>\<open>settles m x\<close>: the step \<open>m\<close> succeeds with \<open>x\<close> and leaves the checkpoint store alone.\<close>

definition settles :: "('c world, 'a) dbm \<Rightarrow> 'a \<Rightarrow> bool" where
  "settles m x \<longleftrightarrow> (\<forall>w. db_total m (\<lambda>y w'. y = x \<and> w_store w' = w_store w) w)"

lemma settlesD: "settles m x \<Longrightarrow> (\<And>w'. w_store w' = w_store w \<Longrightarrow> Q x w') \<Longrightarrow> db_total m Q w"
  unfolding settles_def by (erule allE [of _ w], erule db_total_conseq) auto

lemma settles_bind: "settles m x \<Longrightarrow> settles (k x) y \<Longrightarrow> settles (db_bind m k) y"
  unfolding settles_def [of "db_bind m k"]
  by (intro allI db_total_bind, erule settlesD, erule settlesD) simp

lemma settles_ret: "settles (db_ret x) x"
  unfolding settles_def by (intro allI total_rules) simp

lemma settles_ctx_err: "settles ctx_err None"
  unfolding settles_def ctx_err_def fs_call_def by (intro allI total_rules) simp

lemma settles_sync_err: "settles sync_err None"
  unfolding settles_def sync_err_def fs_call_def by (intro allI total_rules) simp

lemma settles_report_chunk: "settles (report_chunk reporting sz n) None"
  unfolding settles_def report_chunk_def fs_call_def emit_report_def
  by (intro allI total_rules) (auto intro!: total_rules)

lemma settles_write_data: "settles (write_data off data) None"
  unfolding settles_def write_data_def by (auto intro!: total_rules)

lemma settles_consume_loop:
  assumes "0 < bufferSize" "len - written \<le> int (length (b_data body))" "\<And>n. settles (report n) None"
  shows "settles (consume_loop report bufferSize start len written body) (None, max written len)"
  using assms(2)
proof (induction "nat (len - written)" arbitrary: written body rule: less_induct)
  case less
  show ?case
  proof (cases "written < len")
    case False
    then show ?thesis by (subst consume_loop.simps) (simp add: settles_ret max_def)
  next
    case True
    let ?n = "nat (min (int bufferSize) (len - written))"
    let ?body = "body\<lparr>b_data := drop ?n (b_data body)\<rparr>"
    have n: "?n \<le> length (b_data body)" "0 < ?n" using less.prems True assms(1) by auto
    then have rf: "ReadFull ?n body = (take ?n (b_data body), None, ?body)"
      by (simp add: ReadFull_def)
    have "settles (consume_loop report bufferSize start len (written + int (length (take ?n (b_data body)))) ?body)
        (None, max (written + int (length (take ?n (b_data body)))) len)"
      using n True less.prems by (intro less.hyps) (auto simp: min_absorb2)
    moreover have "max (written + int (length (take ?n (b_data body)))) len = max written len"
      using n True by (auto simp: min_absorb2)
    ultimately have rest: "settles (consume_loop report bufferSize start len
        (written + int (length (take ?n (b_data body)))) ?body) (None, max written len)" by simp
    have ne: "take ?n (b_data body) \<noteq> []" using n by (cases "b_data body") auto
    have unfold: "consume_loop report bufferSize start len written body =
       db_bind ctx_err (\<lambda>cancelled.
        if cancelled \<noteq> None then db_ret (cancelled, written)
        else db_bind (write_data (start + written) (take ?n (b_data body))) (\<lambda>writeErr.
            if writeErr \<noteq> None then db_ret (writeErr, written)
            else db_bind (report (int (length (take ?n (b_data body))))) (\<lambda>repErr.
            if repErr \<noteq> None then db_ret (repErr, written + int (length (take ?n (b_data body))))
            else consume_loop report bufferSize start len (written + int (length (take ?n (b_data body)))) ?body)))"
      by (subst consume_loop.simps) (use True assms(1) rf ne in \<open>simp cong: if_cong\<close>)
    show ?thesis
      unfolding unfold
      apply (rule settles_bind, rule settles_ctx_err, simp only: if_False not_True_eq_False simp_thms)
      apply (rule settles_bind, rule settles_write_data, simp only: if_False not_True_eq_False simp_thms)
      apply (rule settles_bind, rule assms(3), simp only: if_False not_True_eq_False simp_thms)
      by (rule rest)
  qed
qed

lemma settles_consumeRange:
  assumes "0 < bufferSize" "len - written \<le> int (length (b_data body))" "b_close body = None"
    and "\<And>n. settles (report n) None"
  shows "settles (consumeRange report bufferSize start len written body) (None, max written len)"
  unfolding consumeRange_def
  by (rule settles_bind, rule settles_consume_loop [OF assms(1,2,4)])
    (auto simp: assms(3) intro: settles_bind [OF settles_sync_err] settles_ret)

lemma settles_downloadSegment:
  assumes "serves net content" "0 < bufferSize" "0 \<le> start" "start + len \<le> int (length content)" "0 < attempts"
    and "\<And>n. settles (report n) None"
  shows "settles (downloadSegment report net bufferSize start len attempts) None"
proof -
  obtain m where m: "attempts = Suc m" using assms(5) by (cases attempts) auto
  let ?b = "\<lparr>b_data = take (nat len) (drop (nat start) content), b_end = ErrEOF, b_close = None\<rparr>"
  have net: "net k start len = Inr ?b" for k
    using assms(1,3) by (simp add: serves_def)
  have "settles (open_range net start len) (Inr ?b)"
    unfolding settles_def open_range_def by (intro allI total_rules) (simp add: net)
  moreover have "settles (consumeRange report bufferSize start len 0 ?b) (None, max 0 len)"
    using assms by (intro settles_consumeRange) auto
  ultimately show ?thesis
    unfolding downloadSegment_def m segment_attempts.simps
    apply (simp only: if_True)
    apply (rule settles_bind, rule settles_ret, simp only: if_False not_True_eq_False simp_thms)
    apply (simp only: add_0_right diff_zero)
    apply (erule settles_bind, simp only: sum.case)
    by (erule settles_bind, simp add: settles_ret)
qed
lemma total_run_segment:
  assumes "serves net content" "valid_options opts" "int (length content) = opt_Size opts"
    and "0 \<le> i" "i < total_segments opts"
    and save: "\<And>i n c. P c \<Longrightarrow> db_total (save i n) (\<lambda>_. P) c"
    and "P (w_store w)" "\<And>w'. P (w_store w') \<Longrightarrow> Q None w'"
  shows "db_total (run_segment save net reporting opts i) Q w"
  unfolding run_segment_def
proof (rule db_total_bind, rule settlesD, rule settles_downloadSegment [OF assms(1)])
  show "i * opt_SegmentSize opts + segment_length opts i \<le> int (length content)"
    "0 \<le> i * opt_SegmentSize opts"
    using segment_bounds [OF assms(2,4,5)] assms(3) by auto
  show "0 < nat (opt_BufferSize opts)" "0 < nat (opt_Attempts opts)"
    using assms(2) by (auto simp: valid_options_def)
  show "settles (report_chunk reporting (opt_Size opts) n) None" for n
    by (rule settles_report_chunk)
  fix w' :: "'a world"
  assume "w_store w' = w_store w"
  with assms(7) save have "db_total (save i (segment_length opts i)) (\<lambda>_. P) (w_store w')" by simp
  then have "db_total (on_store (save i (segment_length opts i))) (\<lambda>_ w'. P (w_store w')) w'"
    by (auto simp: db_total_def on_store_def)
  then have "db_total (on_store (save i (segment_length opts i))) (\<lambda>_. Q None) w'"
    by (rule db_total_conseq) (rule assms(8))
  then show "db_total (if (None :: error option) \<noteq> None then db_ret None
      else db_bind (db_try (on_store (save i (segment_length opts i)))) (\<lambda>saved.
        db_ret (case saved of Inl e \<Rightarrow> Some e | Inr _ \<Rightarrow> None))) Q w'"
    by (auto intro!: total_rules elim!: db_total_conseq)
qed

lemma total_run_pool:
  assumes "serves net content" "valid_options opts" "int (length content) = opt_Size opts"
    and save: "\<And>i n c. P c \<Longrightarrow> db_total (save i n) (\<lambda>_. P) c"
    and "\<forall>i \<in> set idx. 0 \<le> i \<and> i < total_segments opts"
    and "P (w_store w)" "\<And>w'. P (w_store w') \<Longrightarrow> Q (None, False) w'"
  shows "db_total (run_pool (run_segment save net reporting opts) opts flying idx None False) Q w"
  using assms(5,6)
proof (induction idx arbitrary: w flying)
  case Nil
  then show ?case by (simp add: db_total_ret assms(7))
next
  case (Cons i idx)
  then have i: "0 \<le> i" "i < total_segments opts" and rest: "\<forall>i \<in> set idx. 0 \<le> i \<and> i < total_segments opts"
    by auto
  show ?case
    unfolding run_pool.simps
    apply (rule db_total_bind, rule settlesD [OF settles_ctx_err])
    apply (simp only: simp_thms if_False not_True_eq_False)
    apply (rule db_total_bind, rule total_run_segment [where P = P, OF assms(1-3) i save], assumption)
    subgoal using Cons.prems by simp
    subgoal using Cons.IH [OF rest] by simp
    done
qed

definition fits :: "DownloadOptions \<Rightarrow> segments \<Rightarrow> bool" where
  "fits opts segs \<longleftrightarrow>
     (\<forall>(i, n) \<in> set segs. 0 \<le> i \<and> i < total_segments opts \<and> n = segment_length opts i)"

lemma plan_fits:
  assumes "fits opts segs"
  shows "\<exists>dl pending. plan_segments opts segs idx dl0 pending0 = Inr (dl, pending)"
proof (induction idx arbitrary: dl0 pending0)
  case (Cons i idx)
  have "n = segment_length opts i" if "map_of segs i = Some n" for n
    using map_of_SomeD [OF that] assms by (auto simp: fits_def)
  with Cons show ?case by (auto split: option.split)
qed simp

lemma outside_fits: "fits opts segs \<Longrightarrow> outside_segment opts segs = None"
proof -
  assume "fits opts segs"
  then have none: "filter (\<lambda>i. i < 0 \<or> i \<ge> total_segments opts) (map fst segs) = []"
    by (force simp: fits_def filter_empty_conv)
  show ?thesis unfolding outside_segment_def none by simp
qed

text \<open>A checkpoint file that is missing, or of this source.\<close>

definition readable :: "FileCheckpoint \<Rightarrow> bool" where
  "readable c \<longleftrightarrow> fc_loaded c \<or>
     (case fc_file c of None \<Rightarrow> True | Some CkGarbage \<Rightarrow> False | Some (CkJSON st) \<Rightarrow> same_identity c st)"

lemma total_persist: "db_total persistLocked (\<lambda>_ c'. fc_loaded c' = fc_loaded c) c"
  by (simp only: persistLocked_def fs_call_def db_foreach.simps, intro db_total_bind db_total_exec db_total_ret)
    simp

lemma total_loadLocked:
  "readable c \<Longrightarrow> (\<And>c'. fc_loaded c' \<Longrightarrow> Q () c') \<Longrightarrow> db_total loadLocked Q c"
  unfolding loadLocked_def readable_def
  by (cases "fc_file c") (auto intro!: total_rules split: ckfile.splits)

text \<open>The segments such a file records.\<close>

definition recorded_segments :: "FileCheckpoint \<Rightarrow> segments" where
  "recorded_segments c =
     (if fc_loaded c then state_segments (fc_state c)
      else case fc_file c of Some (CkJSON st) \<Rightarrow> state_segments st | _ \<Rightarrow> [])"

lemma total_FileLoad:
  "readable c \<Longrightarrow> db_total FileLoad (\<lambda>segs c'. segs = recorded_segments c \<and> fc_loaded c') c"
  unfolding FileLoad_def loadLocked_def readable_def recorded_segments_def
  by (cases "fc_file c")
    (auto intro!: total_rules simp: fresh_state_def state_segments_def split: ckfile.splits)

lemma total_FileSave:
  assumes "readable c"
  shows "db_total (FileSave i n) (\<lambda>_. readable) c"
  unfolding FileSave_def
proof (rule db_total_bind, rule total_loadLocked [OF assms], rule db_total_bind, rule db_total_upd)
  fix c' :: FileCheckpoint assume "fc_loaded c'"
  then show "db_total persistLocked (\<lambda>_. readable) (c'\<lparr>fc_state := (fc_state c')\<lparr>cs_Segments :=
                Some (AList.update i n (state_segments (fc_state c')))\<rparr>\<rparr>)"
    by (auto intro!: db_total_conseq [OF total_persist] simp: readable_def)
qed

lemma opened_resumable:
  assumes "sound claims content opts w" "claims c \<subseteq> claims (w_store w)" "int (length content) = opt_Size opts"
  shows "resumable claims content opts
    (upd_spool (truncate_bytes (nat (opt_Size opts))) (upd_spool (\<lambda>s. s) (w\<lparr>w_store := c\<rparr>)))"
proof -
  have size: "nat (opt_Size opts) = length content" using assms(3) by simp
  have "keeps_good content (w\<lparr>w_store := c\<rparr>)
      (upd_spool (truncate_bytes (length content)) (upd_spool (\<lambda>s. s) (w\<lparr>w_store := c\<rparr>)))"
    by (auto simp: keeps_good_def good_def nth_truncate_bytes)
  from sound_fills [OF sound_store_less [OF assms(1,2)] this] show ?thesis
    by (simp add: resumable_def size)
qed

lemma plan_segments_fits:
  assumes "fits opts segs"
  shows "\<exists>dl. plan_segments opts segs idx 0 [] = Inr (dl, filter (\<lambda>i. map_of segs i = None) idx)"
  using plan_fits [OF assms, of idx 0 "[]"] plan_segments_spec [of opts segs idx 0 "[]"] by fastforce

lemma total_fill_spool:
  assumes "serves net content" "valid_options opts" "int (length content) = opt_Size opts"
    and "readable (w_store w)" "\<forall>i \<in> set pending. 0 \<le> i \<and> i < total_segments opts"
  shows "db_total (fill_spool FileSave net reporting order opts pending) (\<lambda>_ _. True) w"
  unfolding fill_spool_def
proof (rule db_total_if)
  show "db_total (db_bind (run_pool (run_segment FileSave net reporting opts) opts
           (nat (opt_Connections opts) - 1) (pool_order order pending) None False)
         (\<lambda>(failure, dropped). case failure of
           Some e \<Rightarrow> db_fail e
         | None \<Rightarrow> db_bind ctx_err (\<lambda>cancelled.
             if dropped \<or> cancelled \<noteq> None then db_fail Canceled
             else maybe_report reporting))) (\<lambda>_ _. True) w"
    apply (rule db_total_bind, rule total_run_pool [where P = readable, OF assms(1-3)])
    subgoal by (rule total_FileSave)
    subgoal using assms(5) by (simp add: set_pool_order)
    subgoal by (rule assms(4))
    subgoal
      by (auto intro!: db_total_bind settlesD [OF settles_ctx_err] total_rules
          simp: maybe_report_def emit_report_def)
    done
qed (simp add: db_total_ret)

lemma total_resume_spool:
  assumes "serves net content" "valid_options opts" "int (length content) = opt_Size opts"
    and w: "resumable file_claims content opts w" "readable (w_store w)"
    and segs: "fits opts segs" "\<forall>i \<in> fst ` set segs. 0 \<le> i \<longrightarrow> i < total_segments opts \<longrightarrow>
                segment_filled content opts w i"
    and sha: "opt_ExpectedSHA1 opts = [] \<or>
      equalFoldASCII (opt_ExpectedSHA1 opts) (stringsUpperHex (sha1_hex content))"
  shows "db_total (resume_spool FileSave net reporting order opts segs) (\<lambda>_ _. True) w"
proof -
  let ?pending = "filter (\<lambda>i. map_of segs i = None) [0..total_segments opts - 1]"
  obtain dl where plan: "plan_segments opts segs [0..total_segments opts - 1] 0 [] = Inr (dl, ?pending)"
    using plan_segments_fits [OF segs(1)] by blast
  have store: "settles (maybe_report reporting) ()"
    unfolding maybe_report_def emit_report_def settles_def by (auto intro!: total_rules)
  have verified: "db_total (verify_spool opts) (\<lambda>_ _. True) w'" if "spool_bytes w' = content" for w'
    using sha that unfolding verify_spool_def fs_call_def Hashes_def
    by (auto intro!: total_rules)
  show ?thesis
    unfolding resume_spool_def plan sum.case prod.case outside_fits [OF segs(1)] option.case
  proof (rule db_total_bind, rule db_total_upd, rule db_total_bind)
    let ?w1 = "w\<lparr>w_downloaded := dl\<rparr>"
    have "db_wp (maybe_report reporting) (\<lambda>_ w'. fills content w w') (\<lambda>_ _. True) ?w1"
      by (rule maybe_report_wp [of content]) (auto intro: fills_trans [OF fills_downloaded])
    moreover have "db_total (maybe_report reporting) (\<lambda>_ w'. readable (w_store w')) ?w1"
      using w(2) by (auto intro!: settlesD [OF store])
    ultimately have "db_total (maybe_report reporting)
        (\<lambda>_ w'. readable (w_store w') \<and> fills content w w') ?w1"
      by (rule db_total_wp [rotated])
    then show "db_total (maybe_report reporting) (\<lambda>_. db_total
        (db_bind (fill_spool FileSave net reporting order opts ?pending) (\<lambda>_. verify_spool opts)) (\<lambda>_ _. True)) ?w1"
    proof (rule db_total_conseq, elim conjE)
      fix w2 :: "FileCheckpoint world" assume w2: "readable (w_store w2)" "fills content w w2"
      have "db_wp (fill_spool FileSave net reporting order opts ?pending)
          (\<lambda>_ w'. spool_bytes w' = content) (\<lambda>_ _. True) w2"
        by (rule file_ck.fill_pending_wp [OF serves_honest [OF assms(1)] assms(2,3) resumable_fills [OF w(1) w2(2)]])
          (use segs(2) filled_mono [OF _ w2(2)] in auto)
      moreover have "db_total (fill_spool FileSave net reporting order opts ?pending) (\<lambda>_ _. True) w2"
        by (rule total_fill_spool [OF assms(1-3) w2(1)]) auto
      ultimately have "db_total (fill_spool FileSave net reporting order opts ?pending)
          (\<lambda>_ w'. True \<and> spool_bytes w' = content) w2"
        by (rule db_total_wp [rotated])
      then show "db_total (db_bind (fill_spool FileSave net reporting order opts ?pending)
          (\<lambda>_. verify_spool opts)) (\<lambda>_ _. True) w2"
        by (intro db_total_bind, elim db_total_conseq) (simp add: verified)
    qed
  qed
qed

lemma total_Download:
  fixes w :: "FileCheckpoint world"
  assumes "serves net content" "valid_options opts" "int (length content) = opt_Size opts"
    and "sound file_claims content opts w" "w_spool w \<noteq> Some OtherNode"
    and "readable (w_store w)" "fits opts (recorded_segments (w_store w))"
    and "opt_ExpectedSHA1 opts = [] \<or>
      equalFoldASCII (opt_ExpectedSHA1 opts) (stringsUpperHex (sha1_hex content))"
  shows "db_total (download_run net reporting order opts) (\<lambda>_ _. True) w"
proof -
  have "db_wp FileLoad (\<lambda>segs c'. file_claims c' \<subseteq> file_claims (w_store w) \<and> fst ` set segs \<subseteq> file_claims c')
      (\<lambda>_ c'. file_claims c' \<subseteq> file_claims (w_store w)) (w_store w)"
    by (rule file_ck.load_law)
  from db_total_wp [OF total_FileLoad [OF assms(6)] this]
  have load: "db_total FileLoad (\<lambda>segs c'. segs = recorded_segments (w_store w) \<and> fc_loaded c' \<and>
      file_claims c' \<subseteq> file_claims (w_store w) \<and> fst ` set segs \<subseteq> file_claims c') (w_store w)"
    by (rule db_total_conseq) auto
  show "db_total (download_run net reporting order opts) (\<lambda>_ _. True) w"
    unfolding Download_def
  proof (rule db_total_if, use assms(2) in simp, rule db_total_bind)
    show "db_total (on_store FileLoad) (\<lambda>loaded. db_total
        (db_bind (db_query (\<lambda>w. Inr (w_spool w))) (\<lambda>info.
          if info = Some OtherNode
          then db_fail (Errorf ''transfer spool is not a regular file'' [])
          else db_bind (db_exec (\<lambda>w. ((), upd_spool (\<lambda>s. s) w))) (\<lambda>_.
            db_bind (db_exec (\<lambda>w. ((), upd_spool (truncate_bytes (nat (opt_Size opts))) w))) (\<lambda>_.
            resume_spool FileSave net reporting order opts (if info = None then [] else loaded)))))
        (\<lambda>_ _. True)) w"
    proof -
      have step: "db_total (resume_spool FileSave net reporting order opts (if info = None then [] else segs))
          (\<lambda>_ _. True) (upd_spool (truncate_bytes (nat (opt_Size opts))) (upd_spool (\<lambda>s. s) (w\<lparr>w_store := c\<rparr>)))"
        if "segs = recorded_segments (w_store w)" "fc_loaded c"
          "file_claims c \<subseteq> file_claims (w_store w)" "fst ` set segs \<subseteq> file_claims c" for segs c and info :: "node option"
      proof (rule total_resume_spool [OF assms(1-3) opened_resumable [OF assms(4) that(3) assms(3)] _ _ _ assms(8)])
        let ?w = "upd_spool (truncate_bytes (nat (opt_Size opts))) (upd_spool (\<lambda>s. s) (w\<lparr>w_store := c\<rparr>))"
        show "readable (w_store ?w)" using that(2) by (simp add: readable_def)
        show "fits opts (if info = None then [] else segs)" using assms(7) that(1) by (simp add: fits_def)
        have "sound file_claims content opts ?w"
          using opened_resumable [OF assms(4) that(3) assms(3)] unfolding resumable_def by blast
        then show "\<forall>i \<in> fst ` set (if info = None then [] else segs). 0 \<le> i \<longrightarrow> i < total_segments opts \<longrightarrow>
            segment_filled content opts ?w i"
          using that(4) by (auto simp: sound_def)
      qed
      obtain segs c where run: "FileLoad [] (w_store w) = (Inr segs, [], c)"
        "segs = recorded_segments (w_store w)" "fc_loaded c"
        "file_claims c \<subseteq> file_claims (w_store w)" "fst ` set segs \<subseteq> file_claims c"
        using load by (auto simp: db_total_def)
      have "on_store FileLoad [] w = (Inr segs, [], w\<lparr>w_store := c\<rparr>)" by (simp add: on_store_def run(1))
      moreover have "db_total (db_bind (db_query (\<lambda>w. Inr (w_spool w))) (\<lambda>info.
          if info = Some OtherNode
          then db_fail (Errorf ''transfer spool is not a regular file'' [])
          else db_bind (db_exec (\<lambda>w. ((), upd_spool (\<lambda>s. s) w))) (\<lambda>_.
            db_bind (db_exec (\<lambda>w. ((), upd_spool (truncate_bytes (nat (opt_Size opts))) w))) (\<lambda>_.
            resume_spool FileSave net reporting order opts (if info = None then [] else segs)))))
        (\<lambda>_ _. True) (w\<lparr>w_store := c\<rparr>)"
        apply (rule db_total_bind, rule db_total_query, rule refl)
        apply (rule db_total_if, use assms(5) in simp)
        apply (rule db_total_bind, rule db_total_exec, simp only: snd_conv fst_conv)
        apply (rule db_total_bind, rule db_total_exec, simp only: snd_conv fst_conv)
        by (rule step [OF run(2-5)])
      ultimately show ?thesis unfolding db_total_def [of "on_store FileLoad"] by blast
    qed
  qed
qed

text \<open>
  C29. A download that no file system fault, cancelled context or failing report disturbs, from a
  provider that answers every range in full, completes: whatever spool and checkpoint the runs
  before it left behind, as long as the checkpoint file is missing or of this very source and the
  expected SHA-1 is absent or the one of the content. It ends with the content in the spool and
  its SHA-1 as the result.
\<close>

theorem download_completes:
  fixes w :: "FileCheckpoint world"
  assumes "serves net content" "valid_options opts" "int (length content) = opt_Size opts"
    and "sound file_claims content opts w" "w_spool w \<noteq> Some OtherNode"
    and "readable (w_store w)" "fits opts (recorded_segments (w_store w))"
    and "opt_ExpectedSHA1 opts = [] \<or>
      equalFoldASCII (opt_ExpectedSHA1 opts) (stringsUpperHex (sha1_hex content))"
  shows "\<exists>res w'. download_run net reporting order opts [] w = (Inr res, [], w') \<and>
    spool_bytes w' = content \<and> dl_SHA1 res = stringsUpperHex (sha1_hex content)"
proof -
  have "db_total (download_run net reporting order opts) (\<lambda>_ _. True) w"
    by (rule total_Download [OF assms])
  moreover have "db_wp (download_run net reporting order opts)
      (\<lambda>res w'. spool_bytes w' = content \<and> dl_SHA1 res = stringsUpperHex (sha1_hex content)) (\<lambda>_ _. True) w"
    by (rule file_ck.Download_wp [OF serves_honest [OF assms(1)] assms(3,4)]) auto
  ultimately have "db_total (download_run net reporting order opts)
      (\<lambda>res w'. True \<and> spool_bytes w' = content \<and> dl_SHA1 res = stringsUpperHex (sha1_hex content)) w"
    by (rule db_total_wp)
  then show ?thesis by (auto simp: db_total_def)
qed

definition full_net :: "string \<Rightarrow> net" where
  "full_net content k off len =
     Inr \<lparr>b_data = take (nat len) (drop (nat off) content), b_end = ErrEOF, b_close = None\<rparr>"

theorem download_completes_witness:
  "\<exists>res w'. download_run (full_net ''abcd'') True [1] example_opts []
      (example_world (Some (Regular ''ab'')) [(0, 2)]) = (Inr res, [], w') \<and>
    spool_bytes w' = ''abcd'' \<and> dl_SHA1 res = stringsUpperHex (sha1_hex ''abcd'')"
proof (rule download_completes)
  show "serves (full_net ''abcd'') ''abcd''" by (simp add: serves_def full_net_def)
  show "valid_options example_opts" by (simp add: valid_options_def example_opts_def)
  show "sound file_claims ''abcd'' example_opts (example_world (Some (Regular ''ab'')) [(0, 2)])"
    by (auto simp: sound_def filled_def good_def spool_bytes_def example_defs segment_length_def less_2_cases_iff
        total_segments_def file_claims_def disk_claims_def recorded_def state_segments_def same_identity_def)
qed (simp_all add: example_defs readable_def recorded_segments_def state_segments_def fits_def same_identity_def
      ProtocolVersion_def total_segments_def segment_length_def)

section \<open>What a run keeps of its world\<close>

text \<open>
  A property of the world that no write to the spool, no request, no count and no report destroys
  is kept by the whole of \<open>fill_spool\<close>, whatever the provider answers and whatever fails.
\<close>

lemma keeps_fs_call: "db_keeps P fs_call"
  unfolding fs_call_def by (intro keeps_rules) simp

lemma keeps_ctx_err: "db_keeps P ctx_err"
  unfolding ctx_err_def by (intro keeps_rules keeps_fs_call)

lemma keeps_sync_err: "db_keeps P sync_err"
  unfolding sync_err_def by (intro keeps_rules keeps_fs_call)

lemma keeps_run_pool:
  assumes "\<And>i. db_keeps P (job i)"
  shows "db_keeps P (run_pool job opts flying idx failure dropped)"
  by (induction idx arbitrary: flying failure dropped) (auto intro!: keeps_rules keeps_ctx_err assms)

lemma keeps_verify_spool: "db_keeps P (verify_spool opts)"
  unfolding verify_spool_def Hashes_def by (intro keeps_rules keeps_fs_call)

locale download_keeps =
  fixes P :: "'c world \<Rightarrow> bool" and sz :: int64
  assumes kept_spool: "P w \<Longrightarrow> P (upd_spool f w)"
    and kept_calls: "P w \<Longrightarrow> P (w\<lparr>w_calls := k\<rparr>)"
    and kept_count: "P w \<Longrightarrow> 0 \<le> n \<Longrightarrow> P (w\<lparr>w_downloaded := min sz (w_downloaded w + n)\<rparr>)"
    and kept_report: "P w \<Longrightarrow> P (w\<lparr>w_reports := w_reports w @ [w_downloaded w]\<rparr>)"
begin

lemma keeps_emit: "db_keeps P emit_report"
  unfolding emit_report_def by (intro keeps_rules) (simp add: kept_report)

lemma keeps_report_chunk: "0 \<le> n \<Longrightarrow> db_keeps P (report_chunk reporting sz n)"
  unfolding report_chunk_def by (intro keeps_rules keeps_fs_call keeps_emit kept_count)

lemma keeps_write_data: "db_keeps P (write_data off data)"
  unfolding write_data_def by (intro keeps_rules) (simp add: kept_spool)

lemma keeps_consume_loop:
  assumes "\<And>n. 0 \<le> n \<Longrightarrow> db_keeps P (report n)"
  shows "db_keeps P (consume_loop report bufferSize start len written body)"
proof (induction "nat (len - written)" arbitrary: written body rule: less_induct)
  case less
  show ?case
  proof (cases "written < len \<and> bufferSize \<noteq> 0")
    case False
    then show ?thesis by (subst consume_loop.simps) (auto intro: keeps_rules)
  next
    case True
    let ?n = "nat (min (int bufferSize) (len - written))"
    obtain data e body' where rf: "ReadFull ?n body = (data, e, body')" by (cases "ReadFull ?n body")
    have rest: "db_keeps P
        (consume_loop report bufferSize start len (written + int (length data)) body')" if "e = None"
    proof (rule less.hyps)
      have "0 < length data" using rf that True by (auto simp: ReadFull_def split: if_splits)
      then show "nat (len - (written + int (length data))) < nat (len - written)" using True by simp
    qed
    show ?thesis
      by (subst consume_loop.simps, cases e)
        (use True rf rest in \<open>auto intro!: keeps_rules keeps_ctx_err keeps_write_data assms cong: if_cong\<close>)
  qed
qed

lemma keeps_segment_attempts:
  assumes "\<And>n. 0 \<le> n \<Longrightarrow> db_keeps P (report n)"
  shows "db_keeps P (segment_attempts report net bufferSize start len attempts first written lastErr)"
proof (induction attempts arbitrary: first written lastErr)
  case (Suc attempts)
  then show ?case
    unfolding segment_attempts.simps open_range_def consumeRange_def
    by (intro keeps_rules keeps_ctx_err keeps_sync_err keeps_consume_loop assms kept_calls) auto
qed (simp add: keeps_rules)

lemma keeps_fill_spool:
  assumes "\<And>i n. db_keeps P (on_store (save i n))" "opt_Size opts = sz"
  shows "db_keeps P (fill_spool save net reporting order opts pending)"
  unfolding fill_spool_def run_segment_def downloadSegment_def maybe_report_def assms(2)
  by (intro keeps_rules keeps_ctx_err keeps_emit keeps_run_pool keeps_segment_attempts keeps_report_chunk assms)

end

section \<open>Progress reports\<close>

text \<open>The counter stays within the source, and the reports so far are increasing up to it.\<close>

definition progressing :: "int64 \<Rightarrow> 'c world \<Rightarrow> bool" where
  "progressing sz w \<longleftrightarrow> 0 \<le> w_downloaded w \<and> w_downloaded w \<le> sz \<and>
     sorted (w_reports w) \<and> (\<forall>r \<in> set (w_reports w). 0 \<le> r \<and> r \<le> w_downloaded w)"

lemma progressing_count: "progressing sz w \<Longrightarrow> 0 \<le> n \<Longrightarrow>
    progressing sz (w\<lparr>w_downloaded := min sz (w_downloaded w + n)\<rparr>)"
  by (fastforce simp: progressing_def)

lemma progressing_report: "progressing sz w \<Longrightarrow>
    progressing sz (w\<lparr>w_reports := w_reports w @ [w_downloaded w]\<rparr>)"
  by (auto simp: progressing_def sorted_append)

interpretation progress: download_keeps "progressing sz" sz for sz
proof unfold_locales
  fix w :: "'a world" and f k
  assume "progressing sz w"
  then show "progressing sz (upd_spool f w)" "progressing sz (w\<lparr>w_calls := k\<rparr>)"
    by (simp_all add: progressing_def upd_spool_def)
qed (rule progressing_count progressing_report; assumption)+

lemma keeps_progress_store: "db_keeps (progressing sz) (on_store m)"
  by (auto simp: db_keeps_def on_store_def progressing_def split: prod.split)

section \<open>The identity of the checkpoint\<close>

text \<open>A property of the checkpoint store that loading and saving keep is kept by a whole run.\<close>

interpretation stored: download_keeps "\<lambda>w. P (w_store w)" sz for P and sz
  by unfold_locales (simp_all add: upd_spool_def)

lemma keeps_stored: "db_keeps P m \<Longrightarrow> db_keeps (\<lambda>w. P (w_store w)) (on_store m)"
  by (auto simp: db_keeps_def on_store_def split: prod.split) (metis snd_conv)

lemma Download_keeps_store:
  assumes "db_keeps P load" "\<And>i n. db_keeps P (save i n)"
  shows "db_keeps (\<lambda>w. P (w_store w)) (Download load save net reporting order opts)"
  unfolding Download_def resume_spool_def maybe_report_def
  by (intro keeps_rules keeps_stored assms stored.keeps_emit stored.keeps_fill_spool keeps_verify_spool refl)
    (simp_all add: upd_spool_def)

definition identity_of :: "FileCheckpoint \<Rightarrow> string \<times> string \<times> int64 \<times> int64" where
  "identity_of c = (fc_sourceKey c, fc_sourceRevision c, fc_size c, fc_segmentSize c)"

lemma db_keeps_case_ckfile:
  "(\<And>st. db_keeps P (f st)) \<Longrightarrow> db_keeps P g \<Longrightarrow>
   db_keeps P (case x of CkJSON st \<Rightarrow> f st | CkGarbage \<Rightarrow> g)"
  by (cases x) auto

lemma keeps_identity:
  "db_keeps (\<lambda>c. identity_of c = k) FileLoad" "db_keeps (\<lambda>c. identity_of c = k) (FileSave i n)"
  unfolding FileLoad_def FileSave_def loadLocked_def persistLocked_def
  by (intro keeps_rules keeps_fs_call db_keeps_case_ckfile; simp add: identity_of_def)+

lemma segment_sum:
  assumes "valid_options opts" "int k \<le> total_segments opts"
  shows "sum_list (map (segment_length opts) [0..int k - 1]) \<le> int k * opt_SegmentSize opts \<and>
    sum_list (map (segment_length opts) [0..int k - 1]) \<le> opt_Size opts"
  using assms(2)
proof (induction k)
  case 0
  then show ?case using assms(1) by (simp add: valid_options_def)
next
  case (Suc k)
  have "[0..int (Suc k) - 1] = [0..int k - 1] @ [int k]" using upto_rec2 [of 0 "int k"] by simp
  then show ?case
    using Suc by (auto simp: segment_length_def algebra_simps min_def)
qed

lemma plan_progress:
  assumes "valid_options opts" "plan_segments opts segs [0..total_segments opts - 1] 0 [] = Inr (dl, pending)"
  shows "0 \<le> dl" "dl \<le> opt_Size opts"
proof -
  have dl: "dl = sum_list (map (segment_length opts) (filter (\<lambda>i. map_of segs i \<noteq> None) [0..total_segments opts - 1]))"
    using plan_segments_spec [OF assms(2)] by simp
  have nn: "0 \<le> segment_length opts i" if "i \<in> set [0..total_segments opts - 1]" for i
    using segment_bounds(2) [OF assms(1)] that by auto
  show "0 \<le> dl" unfolding dl using nn by (auto intro!: sum_list_nonneg)
  have part: "sum_list (map f (filter p xs)) \<le> sum_list (map f xs)" if "\<forall>x \<in> set xs. 0 \<le> f x"
    for f :: "int \<Rightarrow> int" and p xs using that by (induction xs) auto
  have "sum_list (map (segment_length opts) [0..total_segments opts - 1]) \<le> opt_Size opts"
  proof (cases "0 \<le> total_segments opts")
    case True
    then show ?thesis using segment_sum [OF assms(1), of "nat (total_segments opts)"] by simp
  next
    case False
    then show ?thesis using assms(1) by (simp add: valid_options_def)
  qed
  with nn show "dl \<le> opt_Size opts" unfolding dl by (blast intro: order_trans [OF part])
qed

text \<open>
  C30. The progress a download reports never goes back and stays between nothing and the size of
  the source, whatever the provider answers, whatever fails and in whatever order the segments
  complete, retries and segments that an earlier run finished included.
\<close>

theorem progress_monotone_bounded:
  assumes "w_reports w = []"
  shows "sorted (w_reports (db_state (Download load save net reporting order opts fs w))) \<and>
    set (w_reports (db_state (Download load save net reporting order opts fs w))) \<subseteq> {0..opt_Size opts}"
proof -
  let ?J = "\<lambda>w. w_reports w = [] \<or> progressing (opt_Size opts) w"
  have resume: "db_wp (resume_spool save net reporting order opts segs) (\<lambda>_. ?J) (\<lambda>_. ?J) w"
    if "valid_options opts" "w_reports w = []" for segs w
  proof (cases "plan_segments opts segs [0..total_segments opts - 1] 0 []")
    case (Inl e)
    then show ?thesis using that by (simp add: resume_spool_def db_wp_fail)
  next
    case (Inr p)
    obtain dl pending where p: "p = (dl, pending)" by (cases p)
    have "progressing (opt_Size opts) (w\<lparr>w_downloaded := dl\<rparr>)"
      using plan_progress [OF that(1) Inr [unfolded p]] that(2) by (simp add: progressing_def)
    moreover have "db_keeps (progressing (opt_Size opts)) (db_bind (maybe_report reporting) (\<lambda>_.
               db_bind (fill_spool save net reporting order opts pending) (\<lambda>_. verify_spool opts)))"
      unfolding maybe_report_def by (intro keeps_rules progress.keeps_emit progress.keeps_fill_spool keeps_progress_store keeps_verify_spool refl)
    then have "db_wp (db_bind (maybe_report reporting) (\<lambda>_.
               db_bind (fill_spool save net reporting order opts pending) (\<lambda>_. verify_spool opts)))
               (\<lambda>_. progressing (opt_Size opts)) (\<lambda>_. progressing (opt_Size opts)) (w\<lparr>w_downloaded := dl\<rparr>)"
      using calculation by (rule db_keeps_wp)
    then have "db_wp (db_bind (maybe_report reporting) (\<lambda>_.
               db_bind (fill_spool save net reporting order opts pending) (\<lambda>_. verify_spool opts)))
               (\<lambda>_. ?J) (\<lambda>_. ?J) (w\<lparr>w_downloaded := dl\<rparr>)"
      by (rule db_wp_conseq) auto
    then show ?thesis
      unfolding resume_spool_def Inr p sum.case prod.case
      using that(2) by (auto intro!: wp_rules db_wp_bind [OF db_wp_upd])
  qed
  have load: "db_wp (on_store load) (\<lambda>_ w. w_reports w = []) (\<lambda>_ w. w_reports w = []) w"
    using assms by (auto simp: db_wp_def on_store_def split: sum.splits prod.splits)
  have "db_wp (Download load save net reporting order opts) (\<lambda>_. ?J) (\<lambda>_. ?J) w"
    unfolding Download_def
    apply (rule db_wp_if, rule db_wp_fail, use assms in simp)
    apply (rule db_wp_bind, rule db_wp_conseq [OF load])
    subgoal by (intro wp_rules resume) (auto simp: upd_spool_def)
    subgoal by simp
    done
  from db_wp_state [OF this, of fs] show ?thesis
    by (auto simp: progressing_def)
qed

theorem progress_monotone_bounded_witness:
  "sorted (w_reports (db_state (download_run (full_net ''abcd'') True [1] example_opts []
      (example_world (Some (Regular ''ab'')) [(0, 2)]))))"
  using progress_monotone_bounded [of "example_world (Some (Regular ''ab'')) [(0, 2)]" FileLoad FileSave
      "full_net ''abcd''" True "[1]" example_opts "[]"]
  by (simp add: example_world_def)

end
