(* ===== verification/TransferWorker.thy ===== *)
theory TransferWorker
  imports TransferPublish DownloadProgress
begin

text \<open>
  The NAS transfer worker, \<open>cmd/transfer-worker/main.go\<close>: one request per process, over the download
  and the publication. A request works on the spool and the checkpoint of one source, whose paths
  are derived from the SHA-1 of its account and file. The provider client is the parameter \<open>net\<close>
  (theory Download), the access helper the parameter \<open>grant\<close>; a fault bit is a failing call.
\<close>

definition defaultSegmentSize :: int64 where
  "defaultSegmentSize = 10 * 2 ^ 20"

definition defaultMinFree :: int64 where
  "defaultMinFree = 10 * 2 ^ 30"

text \<open>A sum of two \<open>int64\<close> values.\<close>

definition add64 :: "int64 \<Rightarrow> int64 \<Rightarrow> int64" where
  "add64 a b = sint (word_of_int (a + b) :: 64 word)"

definition free_of :: "string \<Rightarrow> site \<Rightarrow> int64" where
  "free_of directory s = site_free s (path_segs directory)"

definition checkSpool :: "string \<Rightarrow> int64 \<Rightarrow> (site, unit) dbm" where
  "checkSpool directory required =
     db_bind fs_call (\<lambda>_.
     db_bind (db_query (\<lambda>s. Inr (free_of directory s))) (\<lambda>free.
     db_require (\<not> free < required)
       (Errorf ''worker spool has %d free bytes; %d required'' [show_int free, show_int required])))"

definition limitedOutput_Write :: "string \<Rightarrow> string \<Rightarrow> string \<times> int" where
  "limitedOutput_Write data value =
     (data @ take (min (length value) (8192 - length data)) value, int (length value))"

text \<open>The helper answers with the error of its run and the pieces of output it wrote.\<close>

type_synonym grant = "string \<Rightarrow> string \<Rightarrow> error option \<times> string list"

definition ensureAccess :: "grant \<Rightarrow> string \<Rightarrow> string \<Rightarrow> error option" where
  "ensureAccess grant helper destination =
     (if helper = '''' then None
      else case grant helper (destination @ [CHR 0x0A]) of
        (None, _) \<Rightarrow> None
      | (Some e, pieces) \<Rightarrow>
          Some (Wrapf ''grant NAS transfer destination access: %w: %s''
                  [TrimSpace (foldl (\<lambda>data piece. fst (limitedOutput_Write data piece)) [] pieces)] e))"

definition emit :: "Event \<Rightarrow> (site, unit) dbm" where
  "emit event =
     db_exec (\<lambda>s. ((), s\<lparr>site_events := site_events s @ [event\<lparr>evt_Version := ProtocolVersion\<rparr>]\<rparr>))"

definition new_event :: "string \<Rightarrow> string \<Rightarrow> Event" where
  "new_event typ phase = \<lparr>evt_Version = 0, evt_Type = typ, evt_Phase = phase, evt_DownloadedBytes = 0,
     evt_Size = 0, evt_SHA1 = '''', evt_PreSHA1 = '''', evt_Error = ''''\<rparr>"

definition progress_event :: "int64 \<Rightarrow> int64 \<Rightarrow> Event" where
  "progress_event sz downloaded = (new_event ''progress'' ''downloading'')
     \<lparr>evt_Version := ProtocolVersion, evt_DownloadedBytes := downloaded, evt_Size := sz\<rparr>"

definition put_file :: "string \<Rightarrow> 'v option \<Rightarrow> (string \<times> 'v) list \<Rightarrow> (string \<times> 'v) list" where
  "put_file p v files = (case v of None \<Rightarrow> AList.delete p files | Some x \<Rightarrow> AList.update p x files)"

definition source_world :: "string \<Rightarrow> string \<Rightarrow> (ckfile option \<Rightarrow> FileCheckpoint) \<Rightarrow> site \<Rightarrow> FileCheckpoint world" where
  "source_world spoolPath ckPath newck s =
     \<lparr>w_spool = map_of (site_spools s) spoolPath, w_store = newck (map_of (site_checks s) ckPath),
      w_calls = 0, w_downloaded = 0, w_reports = []\<rparr>"

text \<open>An operation on the spool and the checkpoint of one source; its reports become events.\<close>

definition on_source ::
  "string \<Rightarrow> string \<Rightarrow> (ckfile option \<Rightarrow> FileCheckpoint) \<Rightarrow> int64 \<Rightarrow> (FileCheckpoint world, 'a) dbm \<Rightarrow> (site, 'a) dbm" where
  "on_source spoolPath ckPath newck sz m = (\<lambda>fs s.
     case m fs (source_world spoolPath ckPath newck s) of
       (r, fs', w) \<Rightarrow> (r, fs', s\<lparr>site_spools := put_file spoolPath (w_spool w) (site_spools s),
          site_checks := put_file ckPath (fc_file (w_store w)) (site_checks s),
          site_events := site_events s @ map (progress_event sz) (w_reports w)\<rparr>))"

definition worker_options :: "string \<Rightarrow> Request \<Rightarrow> DownloadOptions" where
  "worker_options spoolPath r = \<lparr>opt_Path = spoolPath, opt_Name = req_Name r, opt_Size = req_Size r,
     opt_ExpectedSHA1 = req_ExpectedSHA1 r, opt_SegmentSize = defaultSegmentSize,
     opt_Connections = req_Connections r, opt_Attempts = 4, opt_BufferSize = 2 ^ 20\<rparr>"

text \<open>What standard input holds.\<close>

datatype input = NoRequest | OneRequest Request | TrailingData Request

definition admitted_request :: "input \<Rightarrow> error + Request" where
  "admitted_request inp =
     (case inp of
        NoRequest \<Rightarrow> Inl (Errorf ''decode transfer request'' [])
      | TrailingData _ \<Rightarrow> Inl (Errorf ''transfer request must contain one JSON object'' [])
      | OneRequest r \<Rightarrow> (case Validate r of Some e \<Rightarrow> Inl e | None \<Rightarrow> Inr r))"

definition valid_settings :: "string \<Rightarrow> string \<Rightarrow> string \<Rightarrow> int64 \<Rightarrow> bool" where
  "valid_settings spoolDir mountRoot accessHelper minimumFree \<longleftrightarrow>
     \<not> (\<not> IsAbs spoolDir \<or> \<not> IsAbs mountRoot \<or> accessHelper \<noteq> '''' \<and> \<not> IsAbs accessHelper \<or> minimumFree < 0)"

definition run_check :: "grant \<Rightarrow> string \<Rightarrow> string \<Rightarrow> string \<Rightarrow> Request \<Rightarrow> (site, unit) dbm" where
  "run_check grant spoolDir mountRoot accessHelper r =
     db_bind (checkSpool spoolDir (req_RequiredFreeBytes r)) (\<lambda>_.
     case ensureAccess grant accessHelper (req_Destination r) of
       Some e \<Rightarrow> db_fail e
     | None \<Rightarrow>
         db_bind (CheckDestination mountRoot (req_Destination r) (req_RequiredFreeBytes r)) (\<lambda>_.
         emit (new_event ''completed'' ''checked'')))"

definition run_publish :: "grant \<Rightarrow> string \<Rightarrow> string \<Rightarrow> string \<Rightarrow> Request \<Rightarrow> (site, unit) dbm" where
  "run_publish grant spoolPath mountRoot accessHelper r =
     (case ensureAccess grant accessHelper (req_Destination r) of
        Some e \<Rightarrow> db_fail e
      | None \<Rightarrow>
          db_bind (CheckDestination mountRoot (req_Destination r) (req_Size r)) (\<lambda>_.
          db_bind (HashPath spoolPath) (\<lambda>actual.
          if \<not> EqualFold actual (req_ExpectedSHA1 r)
          then db_fail (Errorf ''worker spool identity changed before publish'' [])
          else
            let done' = (\<lambda>typ phase. (new_event typ phase)\<lparr>evt_DownloadedBytes := req_Size r,
                           evt_Size := req_Size r, evt_SHA1 := req_ExpectedSHA1 r\<rparr>) in
            db_bind (emit (done' ''progress'' ''uploading'')) (\<lambda>_.
            db_bind (Publish spoolPath mountRoot (req_Destination r) (req_Name r) (req_Size r) (req_Replace r)) (\<lambda>_.
            emit (done' ''completed'' ''published''))))))"

definition run_download ::
  "net \<Rightarrow> int list \<Rightarrow> string \<Rightarrow> string \<Rightarrow> string \<Rightarrow> (ckfile option \<Rightarrow> FileCheckpoint) \<Rightarrow> int64 \<Rightarrow> Request \<Rightarrow>
   (site, unit) dbm" where
  "run_download net order spoolDir spoolPath ckPath newck minimumFree r =
     db_bind (checkSpool spoolDir (add64 (req_Size r) minimumFree)) (\<lambda>_.
     db_bind (on_source spoolPath ckPath newck (req_Size r)
               (Download FileLoad FileSave net True order (worker_options spoolPath r))) (\<lambda>res.
     emit ((new_event ''completed'' ''downloaded'')\<lparr>evt_DownloadedBytes := req_Size r, evt_Size := req_Size r,
             evt_SHA1 := dl_SHA1 res, evt_PreSHA1 := dl_PreSHA1 res\<rparr>)))"

definition source_file :: "string \<Rightarrow> Request \<Rightarrow> string \<Rightarrow> string" where
  "source_file spoolDir r ext = JoinPath [spoolDir, SourceKey (req_AccountID r) (req_SourceFileID r) @ ext]"

definition request_checkpoint :: "Request \<Rightarrow> ckfile option \<Rightarrow> FileCheckpoint" where
  "request_checkpoint r file = NewFileCheckpoint file (SourceKey (req_AccountID r) (req_SourceFileID r))
     (req_SourceRevision r) (req_Size r) defaultSegmentSize"

text \<open>\<open>Flock\<close> without waiting; the lock goes with the process.\<close>

definition lock_source :: "string \<Rightarrow> (site, unit) dbm" where
  "lock_source lockPath =
     db_bind fs_call (\<lambda>_. db_bind fs_call (\<lambda>_.
     db_query (\<lambda>s. if lockPath \<in> set (site_locked s)
                   then Inl (Errorf ''source transfer is already running'' []) else Inr ())))"

definition run ::
  "net \<Rightarrow> grant \<Rightarrow> int list \<Rightarrow> string \<Rightarrow> string \<Rightarrow> string \<Rightarrow> int64 \<Rightarrow> input \<Rightarrow> (site, unit) dbm" where
  "run net grant order spoolDir mountRoot accessHelper minimumFree inp =
     (if \<not> valid_settings spoolDir mountRoot accessHelper minimumFree
      then db_fail (Errorf ''worker spool, mount root, access helper, and minimum free space are invalid'' [])
      else case admitted_request inp of
        Inl e \<Rightarrow> db_fail e
      | Inr r \<Rightarrow>
          if req_Operation r = OperationCheck then run_check grant spoolDir mountRoot accessHelper r
          else
            let spoolPath = source_file spoolDir r ''.part'';
                ckPath = source_file spoolDir r ''.json'' in
            db_bind (lock_source (source_file spoolDir r ''.lock'')) (\<lambda>_.
            if req_Operation r = OperationCommit
            then db_bind (on_source spoolPath ckPath (request_checkpoint r) (req_Size r) CommitSpool) (\<lambda>_.
                   emit (new_event ''completed'' ''committed''))
            else if req_Operation r = OperationPublish
            then run_publish grant spoolPath mountRoot accessHelper r
            else run_download net order spoolDir spoolPath ckPath (request_checkpoint r) minimumFree r))"

text \<open>\<open>main\<close>: a failed run is reported as an event too, and the exit status is 1.\<close>

definition main ::
  "net \<Rightarrow> grant \<Rightarrow> int list \<Rightarrow> string \<Rightarrow> string \<Rightarrow> string \<Rightarrow> int64 \<Rightarrow> input \<Rightarrow> (site, int) dbm" where
  "main net grant order spoolDir mountRoot accessHelper minimumFree inp =
     db_bind (db_try (run net grant order spoolDir mountRoot accessHelper minimumFree inp)) (\<lambda>r.
     case r of
       Inr _ \<Rightarrow> db_ret 0
     | Inl e \<Rightarrow> db_bind (db_try (emit ((new_event ''error'' '''')\<lparr>evt_Error := err_text e\<rparr>))) (\<lambda>_. db_ret 1))"
section \<open>The source files of a request\<close>

lemma map_of_put_file: "map_of (put_file p v files) q = (if q = p then v else map_of files q)"
  by (cases v) (simp_all add: put_file_def update_conv' delete_conv')

lemma identity_new: "identity_of (request_checkpoint r f) = identity_of (request_checkpoint r f')"
  by (simp add: identity_of_def request_checkpoint_def NewFileCheckpoint_def)

lemma request_checkpoint_identity:
  assumes "identity_of c = identity_of (request_checkpoint r f)"
  shows "request_checkpoint r (fc_file c) =
    NewFileCheckpoint (fc_file c) (fc_sourceKey c) (fc_sourceRevision c) (fc_size c) (fc_segmentSize c)"
  using assms by (simp add: identity_of_def request_checkpoint_def NewFileCheckpoint_def)

definition source_sound :: "string \<Rightarrow> string \<Rightarrow> Request \<Rightarrow> site \<Rightarrow> bool" where
  "source_sound content spoolDir r s \<longleftrightarrow>
     sound file_claims content (worker_options (source_file spoolDir r ''.part'') r)
       (source_world (source_file spoolDir r ''.part'') (source_file spoolDir r ''.json'') (request_checkpoint r) s)"

definition source_bytes :: "string \<Rightarrow> Request \<Rightarrow> site \<Rightarrow> string" where
  "source_bytes spoolDir r s =
     spool_bytes (source_world (source_file spoolDir r ''.part'') (source_file spoolDir r ''.json'') (request_checkpoint r) s)"

lemma source_emit [simp]:
  "source_sound content spoolDir r (s\<lparr>site_events := ev\<rparr>) = source_sound content spoolDir r s"
  "source_bytes spoolDir r (s\<lparr>site_events := ev\<rparr>) = source_bytes spoolDir r s"
  by (simp_all add: source_sound_def source_bytes_def source_world_def)

lemma sound_calls: "sound file_claims content opts (w\<lparr>w_calls := k\<rparr>) = sound file_claims content opts w"
  by (simp add: sound_def filled_def good_def spool_bytes_def)

lemma on_source_wp:
  assumes keeps: "db_keeps (\<lambda>w. identity_of (w_store w) = identity_of (request_checkpoint r None)) m"
    and wp: "db_wp m (\<lambda>x w. Q0 x w \<and> sound file_claims content (worker_options sp r) w)
        (\<lambda>_ w. sound file_claims content (worker_options sp r) w) (source_world sp ck (request_checkpoint r) s)"
    and sp: "sp = source_file spoolDir r ''.part''" and ck: "ck = source_file spoolDir r ''.json''"
    and Q: "\<And>x w s'. Q0 x w \<Longrightarrow> source_sound content spoolDir r s' \<Longrightarrow>
          source_bytes spoolDir r s' = spool_bytes w \<Longrightarrow> Q x s'"
    and E: "\<And>e s'. source_sound content spoolDir r s' \<Longrightarrow> E e s'"
  shows "db_wp (on_source sp ck (request_checkpoint r) sz m) Q E s"
proof -
  have new: "source_sound content spoolDir r s' \<and> source_bytes spoolDir r s' = spool_bytes w"
    if "identity_of (w_store w) = identity_of (request_checkpoint r None)"
      "sound file_claims content (worker_options sp r) w"
      "s' = s\<lparr>site_spools := put_file sp (w_spool w) (site_spools s),
          site_checks := put_file ck (fc_file (w_store w)) (site_checks s),
          site_events := site_events s @ map (progress_event sz) (w_reports w)\<rparr>" for w s'
  proof -
    have "source_world sp ck (request_checkpoint r) s' = (restart w)\<lparr>w_calls := 0\<rparr>"
      unfolding restart_def Let_def request_checkpoint_identity [OF that(1), symmetric] source_world_def that(3)
      by (rule world.equality) (simp_all add: map_of_put_file)
    then show ?thesis
      unfolding source_sound_def source_bytes_def sp [symmetric] ck [symmetric]
      by (simp add: sound_calls sound_restart [OF that(2)]) (simp add: spool_bytes_def restart_def Let_def)
  qed
  have start: "identity_of (w_store (source_world sp ck (request_checkpoint r) s)) = identity_of (request_checkpoint r None)"
    unfolding source_world_def by (simp only: world.select_convs) (rule identity_new)
  show ?thesis
    unfolding db_wp_def on_source_def
  proof
    fix fs
    obtain res fs' w where run: "m fs (source_world sp ck (request_checkpoint r) s) = (res, fs', w)"
      by (cases "m fs (source_world sp ck (request_checkpoint r) s)")
    have id: "identity_of (w_store w) = identity_of (request_checkpoint r None)"
      using db_keepsD [OF keeps start, of fs] run by simp
    show "case (case m fs (source_world sp ck (request_checkpoint r) s) of (r', fs', w) \<Rightarrow>
        (r', fs', s\<lparr>site_spools := put_file sp (w_spool w) (site_spools s),
          site_checks := put_file ck (fc_file (w_store w)) (site_checks s),
          site_events := site_events s @ map (progress_event sz) (w_reports w)\<rparr>)) of
        (Inr x, fs', s') \<Rightarrow> Q x s' | (Inl e, fs', s') \<Rightarrow> E e s'"
    proof (cases res)
      case (Inl e)
      then have "sound file_claims content (worker_options sp r) w" using db_wpD(2) [OF wp] run by blast
      from new [OF id this refl] show ?thesis unfolding run Inl prod.case sum.case by (intro E) (rule conjunct1)
    next
      case (Inr x)
      then have w: "Q0 x w" "sound file_claims content (worker_options sp r) w" using db_wpD(1) [OF wp] run by blast+
      from new [OF id w(2) refl] w(1) show ?thesis unfolding run Inr prod.case sum.case by (intro Q) blast+
    qed
  qed
qed

section \<open>Downloads by the worker\<close>

lemma readonly_fs_call: "db_readonly fs_call"
  unfolding fs_call_def db_exec_def db_stmt_def db_readonly_def by (auto split: prod.splits)

lemma readonly_checkSpool: "db_readonly (checkSpool directory required)"
  unfolding checkSpool_def
  by (intro db_readonly_bind readonly_fs_call db_readonly_query db_readonly_require)

lemma readonly_lock: "db_readonly (lock_source p)"
  unfolding lock_source_def by (intro db_readonly_bind readonly_fs_call db_readonly_query)

lemma run_download_wp:
  assumes "honest net content" "int (length content) = req_Size r"
    and s: "source_sound content spoolDir r s"
  shows "db_wp (run_download net order spoolDir (source_file spoolDir r ''.part'') (source_file spoolDir r ''.json'')
      (request_checkpoint r) minimumFree r)
    (\<lambda>_ s'. source_sound content spoolDir r s' \<and> source_bytes spoolDir r s' = content \<and>
       evt_Phase (last (site_events s')) = ''downloaded'' \<and>
       evt_SHA1 (last (site_events s')) = stringsUpperHex (sha1_hex content))
    (\<lambda>_ s'. source_sound content spoolDir r s') s"
proof -
  let ?sp = "source_file spoolDir r ''.part''" and ?ck = "source_file spoolDir r ''.json''"
  let ?opts = "worker_options ?sp r"
  have size: "int (length content) = opt_Size ?opts" using assms(2) by (simp add: worker_options_def)
  have w: "sound file_claims content ?opts (source_world ?sp ?ck (request_checkpoint r) s)"
    using s by (simp add: source_sound_def)
  have dl: "db_wp (Download FileLoad FileSave net True order ?opts)
      (\<lambda>res w. (spool_bytes w = content \<and> dl_SHA1 res = stringsUpperHex (sha1_hex content)) \<and>
               sound file_claims content ?opts w)
      (\<lambda>_ w. sound file_claims content ?opts w) (source_world ?sp ?ck (request_checkpoint r) s)"
    by (rule file_ck.Download_wp [OF assms(1) size w]) auto
  have keeps: "db_keeps (\<lambda>w. identity_of (w_store w) = identity_of (request_checkpoint r None))
      (Download FileLoad FileSave net True order ?opts)"
    by (rule Download_keeps_store) (rule keeps_identity)+
  show ?thesis
    unfolding run_download_def
    apply (rule db_wp_bind, rule readonly_wp [OF readonly_checkSpool])
    subgoal
      apply (rule db_wp_bind, rule on_source_wp [OF keeps dl refl refl])
      subgoal for res w s' by (auto simp: emit_def new_event_def intro!: wp_rules)
      subgoal by assumption
      done
    subgoal by (rule s)
    done
qed

text \<open>Runs of the worker one after the other, each with its own provider answers and faults.\<close>

definition worker_runs ::
  "string \<Rightarrow> string \<Rightarrow> string \<Rightarrow> int64 \<Rightarrow> Request \<Rightarrow> (net \<times> grant \<times> int list \<times> bool list) list \<Rightarrow> site \<Rightarrow> site" where
  "worker_runs spoolDir mountRoot helper minimumFree r runs s =
     foldl (\<lambda>s (net, grant, order, fs).
       db_state (run net grant order spoolDir mountRoot helper minimumFree (OneRequest r) fs s)) s runs"

lemma run_request_wp:
  assumes "honest net content" "int (length content) = req_Size r" "req_Operation r = OperationDownload"
    and s: "source_sound content spoolDir r s"
  shows "db_wp (run net grant order spoolDir mountRoot helper minimumFree (OneRequest r))
    (\<lambda>_ s'. source_sound content spoolDir r s' \<and> source_bytes spoolDir r s' = content \<and>
       evt_Phase (last (site_events s')) = ''downloaded'' \<and>
       evt_SHA1 (last (site_events s')) = stringsUpperHex (sha1_hex content))
    (\<lambda>_ s'. source_sound content spoolDir r s') s"
proof -
  have op: "req_Operation r \<noteq> OperationCheck" "req_Operation r \<noteq> OperationCommit" "req_Operation r \<noteq> OperationPublish"
    using assms(3) by (simp_all add: OperationCheck_def OperationCommit_def OperationPublish_def OperationDownload_def)
  show ?thesis
    unfolding run_def admitted_request_def Let_def
    by (auto simp: op intro!: wp_rules readonly_wp [OF readonly_lock] run_download_wp [OF assms(1,2)] s
        split: option.split)
qed

lemma worker_runs_sound:
  assumes "int (length content) = req_Size r" "req_Operation r = OperationDownload"
  shows "\<forall>q \<in> set runs. honest (fst q) content \<Longrightarrow> source_sound content spoolDir r s \<Longrightarrow>
    source_sound content spoolDir r (worker_runs spoolDir mountRoot helper minimumFree r runs s)"
proof (induction runs arbitrary: s)
  case (Cons q runs)
  obtain net grant order fs where q: "q = (net, grant, order, fs)" by (cases q)
  have "source_sound content spoolDir r
      (db_state (run net grant order spoolDir mountRoot helper minimumFree (OneRequest r) fs s))"
    by (rule db_wp_state, rule db_wp_conseq [OF run_request_wp [OF _ assms Cons.prems(2)]])
      (use Cons.prems(1) q in auto)
  with Cons.IH Cons.prems(1) show ?case by (simp add: worker_runs_def q)
qed (simp add: worker_runs_def)

text \<open>
  C32. A source no download of which was attempted yet, or only attempts that broke off anywhere:
  when a download request of the worker succeeds, the spool of that source holds the bytes of the
  source and the last event carries their SHA-1. The attempts may be any number of processes, each
  with its own provider answers, completion order and failing calls.
\<close>

theorem worker_download_resumes:
  assumes "req_Operation r = OperationDownload" "int (length content) = req_Size r"
    and "\<forall>q \<in> set runs. honest (fst q) content" "honest net content"
    and "map_of (site_checks s) (source_file spoolDir r ''.json'') = None"
    and "run net grant order spoolDir mountRoot helper minimumFree (OneRequest r) fs
      (worker_runs spoolDir mountRoot helper minimumFree r runs s) = (Inr (), fs', s')"
  shows "source_bytes spoolDir r s' = content \<and> evt_Phase (last (site_events s')) = ''downloaded'' \<and>
    evt_SHA1 (last (site_events s')) = stringsUpperHex (sha1_hex content)"
proof -
  have "source_sound content spoolDir r s"
    using assms(5) by (simp add: source_sound_def source_world_def sound_def file_claims_def disk_claims_def
        request_checkpoint_def NewFileCheckpoint_def)
  from worker_runs_sound [OF assms(2,1,3) this]
  have "source_sound content spoolDir r (worker_runs spoolDir mountRoot helper minimumFree r runs s)" .
  from db_wpD(1) [OF run_request_wp [OF assms(4,2,1) this] assms(6)] show ?thesis by blast
qed
definition example_request :: "string \<Rightarrow> Request" where
  "example_request op = \<lparr>req_Version = 1, req_Operation = op, req_JobID = ''j'', req_AccountID = ''q'',
     req_SourceFileID = ''f'', req_SourceRevision = '''', req_Name = ''n'', req_Size = 2, req_ExpectedSHA1 = '''',
     req_QuarkCookie = ''c'', req_Destination = ''a/d'', req_Replace = False, req_Connections = 1,
     req_RequiredFreeBytes = 0\<rparr>"

definition no_grant :: grant where
  "no_grant helper destination = (None, [])"

lemma example_valid: "Validate (example_request OperationDownload) = None"
  by code_simp

definition empty_site :: site where
  "empty_site = \<lparr>site_spools = [], site_checks = [], site_locked = [], site_fs = [],
     site_free = (\<lambda>_. 100), site_events = []\<rparr>"

lemma example_settings: "valid_settings ''/s'' ''/m'' '''' 0"
  by (simp add: valid_settings_def IsAbs_def slash_def)

lemma example_download:
  "source_file ''/s'' (example_request OperationDownload) ''.part'' \<noteq> []"
  unfolding source_file_def by (subst JoinPath_abs(1)) (simp_all add: IsAbs_def slash_def)

lemma example_run_completes:
  "\<exists>s'. run (full_net ''ab'') no_grant [] ''/s'' ''/m'' [] 0 (OneRequest (example_request OperationDownload)) [] empty_site =
    (Inr (), [], s')"
proof -
  let ?r = "example_request OperationDownload"
  let ?sp = "source_file ''/s'' ?r ''.part''" and ?ck = "source_file ''/s'' ?r ''.json''"
  let ?w = "source_world ?sp ?ck (request_checkpoint ?r) empty_site"
  have w: "?w = \<lparr>w_spool = None, w_store = request_checkpoint ?r None, w_calls = 0, w_downloaded = 0, w_reports = []\<rparr>"
    by (simp add: source_world_def empty_site_def)
  have "db_total (download_run (full_net ''ab'') True [] (worker_options ?sp ?r)) (\<lambda>_ _. True) ?w"
    using example_download unfolding w
    by (intro total_Download [of _ "''ab''"])
      (auto simp: serves_def full_net_def valid_options_def worker_options_def example_request_def
        defaultSegmentSize_def readable_def recorded_segments_def fits_def sound_def file_claims_def
        disk_claims_def request_checkpoint_def NewFileCheckpoint_def)
  then have dl: "db_total (on_source ?sp ?ck (request_checkpoint ?r) sz
      (download_run (full_net ''ab'') True [] (worker_options ?sp ?r))) (\<lambda>_ _. True) empty_site" for sz
    by (auto simp: db_total_def on_source_def)
  have ops: "req_Operation ?r = OperationDownload" "OperationDownload \<noteq> OperationCheck"
    "OperationDownload \<noteq> OperationCommit" "OperationDownload \<noteq> OperationPublish"
    by (simp_all add: example_request_def OperationCheck_def OperationCommit_def OperationPublish_def OperationDownload_def)
  have "add64 (req_Size ?r) 0 = 2" by (simp add: add64_def example_request_def)
  then have "db_total (checkSpool ''/s'' (add64 (req_Size ?r) 0)) (\<lambda>_ s. s = empty_site) empty_site"
    unfolding checkSpool_def fs_call_def
    by (auto intro!: total_rules simp: free_of_def empty_site_def)
  then have "db_total (run_download (full_net ''ab'') [] ''/s'' ?sp ?ck (request_checkpoint ?r) 0 ?r) (\<lambda>_ _. True) empty_site"
    unfolding run_download_def emit_def
    by (intro db_total_bind, elim db_total_conseq)
      (auto intro!: db_total_conseq [OF dl] total_rules)
  then have "db_total (run (full_net ''ab'') no_grant [] ''/s'' ''/m'' [] 0 (OneRequest ?r)) (\<lambda>_ _. True) empty_site"
    unfolding run_def admitted_request_def Let_def input.case example_valid option.case sum.case lock_source_def fs_call_def
    by (auto intro!: total_rules simp: example_settings ops) (auto simp: empty_site_def)
  then show ?thesis by (auto simp: db_total_def)
qed

theorem worker_download_resumes_witness:
  "\<exists>s'. run (full_net ''ab'') no_grant [] ''/s'' ''/m'' [] 0 (OneRequest (example_request OperationDownload)) [] empty_site =
      (Inr (), [], s') \<and> source_bytes ''/s'' (example_request OperationDownload) s' = ''ab''"
proof -
  obtain s' where run: "run (full_net ''ab'') no_grant [] ''/s'' ''/m'' [] 0 (OneRequest (example_request OperationDownload))
      [] (worker_runs ''/s'' ''/m'' [] 0 (example_request OperationDownload) [] empty_site) = (Inr (), [], s')"
    using example_run_completes by (auto simp: worker_runs_def)
  from worker_download_resumes [OF _ _ _ _ _ run, of "''ab''"]
  have "source_bytes ''/s'' (example_request OperationDownload) s' = ''ab''"
    by (auto simp: example_request_def empty_site_def honest_def full_net_def)
  with run show ?thesis by (auto simp: worker_runs_def)
qed

section \<open>Publications by the worker\<close>

lemma operations_differ [simp]:
  "OperationPublish \<noteq> OperationCheck" "OperationPublish \<noteq> OperationCommit" "OperationDownload \<noteq> OperationCheck"
  "OperationDownload \<noteq> OperationCommit" "OperationDownload \<noteq> OperationPublish" "OperationPublish \<noteq> OperationDownload"
  by (simp_all add: OperationCheck_def OperationCommit_def OperationPublish_def OperationDownload_def)

lemma leads_events: "leads (s\<lparr>site_events := ev\<rparr>) p q = leads s p q"
  by (simp add: leads_def)

definition verified_target :: "Request \<Rightarrow> string list \<Rightarrow> site \<Rightarrow> site \<Rightarrow> bool" where
  "verified_target r q s s' \<longleftrightarrow>
     (\<forall>p. p \<noteq> q \<longrightarrow> fs_entry (site_fs s') p = fs_entry (site_fs s) p) \<and> site_spools s' = site_spools s \<and>
     (\<exists>bytes. fs_entry (site_fs s') q = Some (FileE bytes) \<and> int (length bytes) = req_Size r \<and>
        (\<not> req_Replace r \<and> fs_entry (site_fs s) q = Some (FileE bytes) \<or>
         EqualFold (stringsUpperHex (sha1_hex bytes)) (req_ExpectedSHA1 r)))"

lemma verified_events: "verified_target r q s (s'\<lparr>site_events := ev\<rparr>) = verified_target r q s s'"
  by (simp add: verified_target_def)

lemma changed_spools: "changed q s ent s' \<Longrightarrow> site_spools s' = site_spools s"
proof -
  assume "changed q s ent s'"
  then have "site_spools (s'\<lparr>site_fs := []\<rparr>) = site_spools (s\<lparr>site_fs := []\<rparr>)"
    unfolding changed_def by (elim conjE) (rule arg_cong [of _ _ site_spools])
  then show ?thesis by simp
qed

lemma publish_verified:
  assumes "changed q s (fs_entry (site_fs s') q) s'" "published s sp q (req_Size r) (req_Replace r) (Inr ()) s'"
    and "map_of (site_spools s) sp = Some (Regular content)"
    and "EqualFold (stringsUpperHex (sha1_hex content)) (req_ExpectedSHA1 r)"
  shows "verified_target r q s s'"
  using assms changed_spools [OF assms(1)]
  by (auto simp: verified_target_def published_def changed_def fs_entry_def)

lemma run_publish_wp:
  assumes "IsAbs mountRoot" "CleanDestination (req_Destination r) = Inr dest" "CleanFileName (req_Name r) = Inr file"
    and leads: "leads s (publish_path mountRoot dest file) q"
  shows "db_wp (run_publish grant sp mountRoot helper r) (\<lambda>_ s'. verified_target r q s s') (\<lambda>_ _. True) s"
proof -
  have hashed: "db_wp (HashPath sp) (\<lambda>actual s'. s' = s \<and> (\<exists>content. map_of (site_spools s) sp = Some (Regular content) \<and>
      actual = stringsUpperHex (sha1_hex content))) (\<lambda>_ _. True) s"
    unfolding HashPath_def open_spool_def fs_call_def
    by (intro wp_rules) (auto split: option.splits node.splits)
  have pub: "db_wp (db_bind (Publish sp mountRoot (req_Destination r) (req_Name r) (req_Size r) (req_Replace r)) (\<lambda>_.
          emit ev)) (\<lambda>_ s'. verified_target r q s s') (\<lambda>_ _. True) (s\<lparr>site_events := evs\<rparr>)"
    if content: "map_of (site_spools s) sp = Some (Regular content)"
      "EqualFold (stringsUpperHex (sha1_hex content)) (req_ExpectedSHA1 r)" for content ev evs
  proof -
    let ?s = "s\<lparr>site_events := evs\<rparr>"
    have "leads ?s (publish_path mountRoot dest file) q" using leads by (simp add: leads_events)
    note wp = Publish_wp [OF assms(1-3) this, of sp "req_Size r" "req_Replace r"]
    show ?thesis
      apply (rule db_wp_bind, rule db_wp_conseq [OF wp])
      subgoal premises p for x s2
      proof -
        have "verified_target r q ?s s2"
          using publish_verified [of q ?s s2 sp r content] p content by simp
        then have "verified_target r q s s2" by (simp add: verified_target_def)
        then show ?thesis unfolding emit_def by (intro wp_rules) (simp_all add: verified_events)
      qed
      subgoal by simp
      done
  qed
  show ?thesis
    unfolding run_publish_def
    apply (rule db_wp_case_option)
    subgoal
      apply (rule db_wp_bind, rule readonly_wp [OF readonly_CheckDestination])
      subgoal
        apply (rule db_wp_bind, rule db_wp_conseq [OF hashed])
        subgoal premises h for actual s1
        proof -
          have s1: "s1 = s" using h by blast
          show ?thesis
            unfolding s1 Let_def
            apply (rule db_wp_if, simp add: db_wp_fail)
            apply (rule db_wp_bind, subst emit_def, rule db_wp_exec, simp)
            using h by (auto intro!: pub simp del: not_not)
        qed
        subgoal by simp
        done
      subgoal by simp
      done
    subgoal by (simp add: db_wp_fail)
    done
qed

text \<open>
  C33. A publish request of the worker that succeeds leaves, at the requested place below the mount
  root and nowhere else, a file of the requested size whose SHA-1 is the expected one (or, without a
  replacement, the file of that size that was already there), and it leaves every spool as it was.
  No symbolic link may lie on the way to that place.
\<close>

theorem worker_publish_verified:
  assumes "req_Operation r = OperationPublish"
    and "CleanDestination (req_Destination r) = Inr dest" "CleanFileName (req_Name r) = Inr file"
    and "leads s (publish_path mountRoot dest file) q"
    and "run net grant order spoolDir mountRoot helper minimumFree (OneRequest r) fs s = (Inr (), fs', s')"
  shows "verified_target r q s s'"
proof -
  have "db_wp (run net grant order spoolDir mountRoot helper minimumFree (OneRequest r))
      (\<lambda>_ s'. verified_target r q s s') (\<lambda>_ _. True) s"
    unfolding run_def admitted_request_def Let_def
    by (auto simp: assms(1) valid_settings_def intro!: wp_rules readonly_wp [OF readonly_lock]
        run_publish_wp [OF _ assms(2-4)] split: option.split)
  from db_wpD(1) [OF this assms(5)] show ?thesis .
qed

definition publish_request :: Request where
  "publish_request = (example_request OperationPublish)\<lparr>req_Name := ''f'', req_Size := 4,
     req_ExpectedSHA1 := stringsUpperHex (sha1_hex ''abcd'')\<rparr>"

lemma hex_sha1: "list_all is_hex (stringsUpperHex (sha1_hex s))"
proof -
  have "is_hex (ascii_upper c)" if "c \<in> hex_chars" for c
    using that by (auto simp: hex_chars_def is_hex_def ascii_upper_def Let_def)
  then show ?thesis using set_sha1_hex [of s] by (auto simp: list_all_iff stringsUpperHex_def)
qed

lemma publish_request_valid: "Validate publish_request = None"
proof -
  have "Blank ''j'' = False" "Blank ''q'' = False" "Blank ''f'' = False"
    by (simp_all add: Blank_def TrimSpace_plain plain_char_def)
  then show ?thesis
    using hex_sha1 [of "''abcd''"]
    by (simp add: Validate_def Let_def publish_request_def example_request_def ProtocolVersion_def ValidSHA1_def
        stringsUpperHex_def length_sha1_hex example_cleaned)
qed

definition publish_site :: site where
  "publish_site = (example_site (DirE True))\<lparr>site_spools :=
     [(source_file ''/s'' publish_request ''.part'', Regular ''abcd'')]\<rparr>"

lemma publish_request_simps [simp]:
  "req_Operation publish_request = OperationPublish" "req_Destination publish_request = ''a/d''"
  "req_Name publish_request = ''f''" "req_Size publish_request = 4" "req_Replace publish_request = False"
  "req_ExpectedSHA1 publish_request = stringsUpperHex (sha1_hex ''abcd'')"
  by (simp_all add: publish_request_def example_request_def)

lemma example_publish_run:
  "\<exists>s'. run (full_net []) no_grant [] ''/s'' ''/m'' [] 0 (OneRequest publish_request) [] publish_site = (Inr (), [], s')"
  by (simp add: run_def admitted_request_def publish_request_valid example_settings lock_source_def run_publish_def
      ensureAccess_def HashPath_def emit_def publish_eval example_cleaned example_names publish_site_def example_site_def
      example_fs_def Let_def del: JoinPath.simps)

theorem worker_publish_verified_witness:
  "\<exists>s'. run (full_net []) no_grant [] ''/s'' ''/m'' [] 0 (OneRequest publish_request) [] publish_site = (Inr (), [], s') \<and>
    verified_target publish_request [''m'', ''a'', ''d'', ''f''] publish_site s'"
proof -
  obtain s' where run: "run (full_net []) no_grant [] ''/s'' ''/m'' [] 0 (OneRequest publish_request) [] publish_site =
      (Inr (), [], s')"
    using example_publish_run by blast
  have p: "publish_path ''/m'' ''a/d'' ''f'' = ''/m/a/d/f''"
    by (simp add: publish_path_def absPath_def path_eval)
  have leads: "leads publish_site (publish_path ''/m'' ''a/d'' ''f'') [''m'', ''a'', ''d'', ''f'']"
    unfolding leads_def direct_def p
    by (simp add: example_cleaned upt_conv_Cons example_names fs_entry_def publish_site_def example_site_def example_fs_def)
  from worker_publish_verified [OF _ _ _ leads run] run show ?thesis by (auto simp: example_cleaned)
qed

end
