(* ===== verification/TaskPayload.thy ===== *)
theory TaskPayload
  imports GoPrelude "HOL-Library.AList" "HOL-Library.List_Lexorder" "HOL-Library.Char_ord"
begin

text \<open>
  The payloads of the task queue and their validation: the parsers of
  \<open>internal/service/taskqueue.go\<close>, \<open>autofill.go\<close>, \<open>metadata.go\<close>, \<open>drive.go\<close> and
  \<open>cross_drive_import.go\<close>.

  A payload is a list of distinct keys with dynamic values (\<open>goval\<close> of GoPrelude): \<open>VStrs\<close> is a
  \<open>[]string\<close> the program itself stored, \<open>VList\<close> what JSON decoding produces. What \<open>net/url\<close> makes of
  a string is the parameter \<open>net\<close>. Objects the program builds itself (\<open>map[string]string\<close>) have no value of
  their own in \<open>goval\<close>: payloads are what JSON decoding produces. Where the code ranges over a map, the model takes the keys in the
  order of the list.
\<close>

section \<open>Values\<close>

definition payload_get :: "payload \<Rightarrow> string \<Rightarrow> goval option" where
  "payload_get p k = map_of p k"

definition stringPayload :: "payload \<Rightarrow> string \<Rightarrow> bool \<Rightarrow> error + string" where
  "stringPayload p key required =
     (case payload_get p key of
        None \<Rightarrow> if required then Inl (Errorf ''%s is required'' [key]) else Inr ''''
      | Some (VStr s) \<Rightarrow>
          let text = TrimSpace s in
          if required \<and> text = '''' then Inl (Errorf ''%s is required'' [key]) else Inr text
      | Some _ \<Rightarrow> Inl (Errorf ''%s must be a string'' [key]))"

fun non_empty_strings :: "goval list \<Rightarrow> string list option" where
  "non_empty_strings [] = Some []"
| "non_empty_strings (VStr s # vs) =
     (if TrimSpace s = '''' then None else map_option ((#) (TrimSpace s)) (non_empty_strings vs))"
| "non_empty_strings _ = None"

definition stringSlicePayload :: "payload \<Rightarrow> string \<Rightarrow> error + string list" where
  "stringSlicePayload p key =
     (case payload_get p key of
        None \<Rightarrow> Inl (Errorf ''%s is required'' [key])
      | Some (VStrs ss) \<Rightarrow> if ss = [] then Inl (Errorf ''%s must not be empty'' [key]) else Inr ss
      | Some (VList vs) \<Rightarrow>
          (case non_empty_strings vs of
             None \<Rightarrow> Inl (Errorf ''%s must contain non-empty strings'' [key])
           | Some ss \<Rightarrow> if ss = [] then Inl (Errorf ''%s must not be empty'' [key]) else Inr ss)
      | Some _ \<Rightarrow> Inl (Errorf ''%s must be an array of strings'' [key]))"

text \<open>The loops of \<open>optionalStringSlicePayload\<close>; \<open>seen\<close> holds the values so far.\<close>

fun distinct_strings :: "string \<Rightarrow> string list \<Rightarrow> goval list \<Rightarrow> error + string list" where
  "distinct_strings key seen [] = Inr []"
| "distinct_strings key seen (v # vs) =
     (case v of
        VStr s \<Rightarrow>
          let text = TrimSpace s in
          if text = '''' then Inl (Errorf ''%s must contain non-empty strings'' [key])
          else if text \<in> set seen then Inl (Errorf ''%s must not contain duplicates'' [key])
          else map_sum id ((#) text) (distinct_strings key (text # seen) vs)
      | _ \<Rightarrow> Inl (Errorf ''%s must contain non-empty strings'' [key]))"

definition optionalStringSlicePayload :: "payload \<Rightarrow> string \<Rightarrow> error + string list" where
  "optionalStringSlicePayload p key =
     (case payload_get p key of
        None \<Rightarrow> Inr []
      | Some VNil \<Rightarrow> Inr []
      | Some (VStrs ss) \<Rightarrow> distinct_strings key [] (map VStr ss)
      | Some (VList vs) \<Rightarrow> distinct_strings key [] vs
      | Some _ \<Rightarrow> Inl (Errorf ''%s must be an array of strings'' [key]))"

definition booleanPayload :: "payload \<Rightarrow> string \<Rightarrow> bool \<Rightarrow> error + bool" where
  "booleanPayload p key fallback =
     (case payload_get p key of
        None \<Rightarrow> Inr fallback
      | Some (VBool b) \<Rightarrow> Inr b
      | Some _ \<Rightarrow> Inl (Errorf ''%s must be a boolean'' [key]))"

definition integerPayload :: "payload \<Rightarrow> string \<Rightarrow> int \<Rightarrow> int \<Rightarrow> int \<Rightarrow> error + int" where
  "integerPayload p key fallback minimum maximum =
     (let range = Errorf ''%s must be an integer from %d to %d'' [key, show_int minimum, show_int maximum] in
      case payload_get p key of
        None \<Rightarrow> Inr fallback
      | Some (VInt n) \<Rightarrow> if n < minimum \<or> n > maximum then Inl range else Inr n
      | Some VFrac \<Rightarrow> Inl range
      | Some _ \<Rightarrow> Inl (Errorf ''%s must be an integer'' [key]))"

section \<open>Selected sources\<close>

record ShareSelection =
  sel_ID :: string
  sel_Revision :: string
  sel_Name :: string
  sel_Size :: int64

definition zero_selection :: ShareSelection where
  "zero_selection = \<lparr>sel_ID = '''', sel_Revision = '''', sel_Name = '''', sel_Size = 0\<rparr>"

text \<open>
  \<open>json.Marshal\<close> writes the keys of an object in byte order, \<open>json.Unmarshal\<close> matches them to the
  fields without regard to case, and \<open>null\<close> leaves a field alone. One key and its value:
\<close>

definition decode_field :: "string \<times> goval \<Rightarrow> ShareSelection option \<Rightarrow> ShareSelection option" where
  "decode_field kv state =
     (case state of
        None \<Rightarrow> None
      | Some sel \<Rightarrow>
          (case kv of (k, v) \<Rightarrow>
            if v = VNil then Some sel
            else if EqualFold k ''id'' then (case v of VStr s \<Rightarrow> Some (sel\<lparr>sel_ID := s\<rparr>) | _ \<Rightarrow> None)
            else if EqualFold k ''revision'' then (case v of VStr s \<Rightarrow> Some (sel\<lparr>sel_Revision := s\<rparr>) | _ \<Rightarrow> None)
            else if EqualFold k ''name'' then (case v of VStr s \<Rightarrow> Some (sel\<lparr>sel_Name := s\<rparr>) | _ \<Rightarrow> None)
            else if EqualFold k ''size''
              then (case v of VInt n \<Rightarrow> if - (2 ^ 63) \<le> n \<and> n < 2 ^ 63 then Some (sel\<lparr>sel_Size := n\<rparr>) else None
                    | _ \<Rightarrow> None)
            else Some sel))"

definition decode_selection :: "goval \<Rightarrow> ShareSelection option" where
  "decode_selection v =
     (case v of
        VNil \<Rightarrow> Some zero_selection
      | VMap kvs \<Rightarrow> fold decode_field (sort_key fst kvs) (Some zero_selection)
      | _ \<Rightarrow> None)"

fun decode_selections :: "goval list \<Rightarrow> ShareSelection list option" where
  "decode_selections [] = Some []"
| "decode_selections (v # vs) =
     (case decode_selection v of
        None \<Rightarrow> None | Some s \<Rightarrow> map_option ((#) s) (decode_selections vs))"

definition trim_selection :: "ShareSelection \<Rightarrow> ShareSelection" where
  "trim_selection s = s\<lparr>sel_ID := TrimSpace (sel_ID s), sel_Name := TrimSpace (sel_Name s),
     sel_Revision := TrimSpace (sel_Revision s)\<rparr>"

definition invalid_selection :: "ShareSelection \<Rightarrow> bool" where
  "invalid_selection s \<longleftrightarrow> sel_ID s = '''' \<or> sel_Revision s = '''' \<or> sel_Name s = '''' \<or> sel_Size s < 0"

definition nameKey :: "ShareSelection \<Rightarrow> string" where
  "nameKey s = sel_Name s @ CHR 0x00 # show_int (sel_Size s)"

text \<open>The loop over the decoded selections, in its order of checks.\<close>

fun check_selections :: "string \<Rightarrow> string list \<Rightarrow> string list \<Rightarrow> ShareSelection list \<Rightarrow> error + ShareSelection list" where
  "check_selections key seen seenNames [] = Inr []"
| "check_selections key seen seenNames (raw # rest) =
     (let s = trim_selection raw in
      if invalid_selection s then Inl (Errorf ''%s contains an invalid or revisionless source identity'' [key])
      else if sel_ID s \<in> set seen then Inl (Errorf ''%s must not contain duplicate source IDs'' [key])
      else if nameKey s \<in> set seenNames then Inl (Errorf ''%s must not contain duplicate name/size leaves'' [key])
      else map_sum id ((#) s) (check_selections key (sel_ID s # seen) (nameKey s # seenNames) rest))"

definition shareSelectionsPayload :: "payload \<Rightarrow> string \<Rightarrow> error + ShareSelection list" where
  "shareSelectionsPayload p key =
     (let bad = Inl (Errorf ''%s must be an array of source identities'' [key]) in
      case payload_get p key of
        None \<Rightarrow> Inr []
      | Some VNil \<Rightarrow> Inr []
      | Some (VList vs) \<Rightarrow>
          (case decode_selections vs of None \<Rightarrow> bad | Some sels \<Rightarrow> check_selections key [] [] sels)
      | Some (VStrs ss) \<Rightarrow> if ss = [] then Inr [] else bad
      | Some _ \<Rightarrow> bad)"

section \<open>Quark imports\<close>

definition bindingKeys :: "string list" where
  "bindingKeys = [''autofill_library_name'', ''autofill_library_id'', ''autofill_library_cid'',
     ''autofill_series_id'', ''autofill_tmdb_id'', ''autofill_series_folder'']"

text \<open>The first error of a list of keys, or the values.\<close>

fun string_fields :: "payload \<Rightarrow> bool \<Rightarrow> string list \<Rightarrow> error + string list" where
  "string_fields p required [] = Inr []"
| "string_fields p required (k # ks) =
     (case stringPayload p k required of
        Inl e \<Rightarrow> Inl e | Inr v \<Rightarrow> map_sum id ((#) v) (string_fields p required ks))"

definition mismatched :: "ShareSelection list \<Rightarrow> string list \<Rightarrow> error option" where
  "mismatched selections selected =
     (if length selections \<noteq> length selected
      then Some (Errorf ''selected_source_manifest must describe every selected source'' [])
      else if map sel_ID selections \<noteq> selected
      then Some (Errorf ''selected_source_manifest order must match selected_source_ids'' [])
      else None)"

text \<open>The rules for an import that is not bound to an autofill destination, and for one that is.\<close>

definition validate_unbound ::
  "bool \<Rightarrow> string \<Rightarrow> string \<Rightarrow> bool \<Rightarrow> bool \<Rightarrow> bool \<Rightarrow> string list \<Rightarrow> ShareSelection list \<Rightarrow> string list \<Rightarrow> error option" where
  "validate_unbound allowBinding priorTaskID parentTaskID importAll idsSubmitted manifestSubmitted selected selections expected =
     (if (idsSubmitted \<and> \<not> (allowBinding \<and> priorTaskID \<noteq> '''')) \<or> expected \<noteq> [] \<or> parentTaskID \<noteq> ''''
      then Some (Errorf ''selected_source_ids, parent_task_id, and expected_episodes are reserved for internal autofill imports'' [])
      else if priorTaskID \<noteq> '''' \<and> \<not> allowBinding
      then Some (Errorf ''prior_import_task_id is reserved for internal retry'' [])
      else case (if allowBinding \<and> priorTaskID \<noteq> '''' \<and> idsSubmitted
                 then (if selected = [] then Some (Errorf ''selected_source_manifest must describe every selected source'' [])
                       else mismatched selections selected)
                 else None) of
        Some e \<Rightarrow> Some e
      | None \<Rightarrow> if \<not> importAll \<and> \<not> manifestSubmitted
                then Some (Errorf ''either selected_source_manifest or import_all:true is required'' [])
                else None)"

definition validate_bound ::
  "bool \<Rightarrow> string \<Rightarrow> bool \<Rightarrow> string list \<Rightarrow> ShareSelection list \<Rightarrow> string list \<Rightarrow> string list \<Rightarrow> error option" where
  "validate_bound allowBinding parentTaskID importAll selected selections expected bindings =
     (if \<not> allowBinding
      then Some (Errorf ''autofill destination bindings are internal and cannot be submitted directly'' [])
      else if importAll then Some (Errorf ''autofill transfer requires selected source identities'' [])
      else if selected = [] then Some (Errorf ''selected_source_ids is required for autofill transfer'' [])
      else if expected = [] then Some (Errorf ''expected_episodes is required for autofill transfer'' [])
      else if parentTaskID = '''' then Some (Errorf ''parent_task_id is required for autofill transfer'' [])
      else case mismatched selections selected of
        Some e \<Rightarrow> Some e
      | None \<Rightarrow>
          (case find (\<lambda>(k, v). v = '''') (zip bindingKeys bindings) of
             Some (k, v) \<Rightarrow> Some (Errorf ''%s is required for autofill transfer'' [k])
           | None \<Rightarrow> None))"

definition validateQuarkImportPayload :: "payload \<Rightarrow> bool \<Rightarrow> error option" where
  "validateQuarkImportPayload p allowBinding =
     (case string_fields p True [''quark_account_id'', ''quark_target_id'', ''share_url'', ''c115_account_id''] of
        Inl e \<Rightarrow> Some e
      | Inr _ \<Rightarrow> (case stringPayload p ''prior_import_task_id'' False of Inl e \<Rightarrow> Some e
      | Inr priorTaskID \<Rightarrow> (case stringPayload p ''parent_task_id'' False of Inl e \<Rightarrow> Some e
      | Inr parentTaskID \<Rightarrow> (case booleanPayload p ''import_all'' False of Inl e \<Rightarrow> Some e
      | Inr importAll \<Rightarrow> (case optionalStringSlicePayload p ''selected_source_ids'' of Inl e \<Rightarrow> Some e
      | Inr selected \<Rightarrow> (case shareSelectionsPayload p ''selected_source_manifest'' of Inl e \<Rightarrow> Some e
      | Inr selections \<Rightarrow>
          let idsSubmitted = payload_get p ''selected_source_ids'' \<noteq> None;
              manifestSubmitted = payload_get p ''selected_source_manifest'' \<noteq> None in
          if manifestSubmitted \<and> selections = []
          then Some (Errorf ''selected_source_manifest must contain at least one source'' [])
          else if importAll \<and> manifestSubmitted
          then Some (Errorf ''import_all cannot be combined with selected_source_manifest'' [])
          else (case string_fields p False bindingKeys of Inl e \<Rightarrow> Some e
          | Inr bindings \<Rightarrow> (case optionalStringSlicePayload p ''expected_episodes'' of Inl e \<Rightarrow> Some e
          | Inr expected \<Rightarrow>
              if list_all (\<lambda>v. v = '''') bindings
              then validate_unbound allowBinding priorTaskID parentTaskID importAll idsSubmitted manifestSubmitted
                     selected selections expected
              else validate_bound allowBinding parentTaskID importAll selected selections expected bindings))))))))"
section \<open>Share links\<close>

text \<open>Text outside ASCII is given by its code points; Go strings hold the UTF-8 bytes.\<close>

definition utf8_char :: "nat \<Rightarrow> string" where
  "utf8_char n =
     (if n < 0x80 then [char_of n]
      else if n < 0x800 then [char_of (0xC0 + n div 64), char_of (0x80 + n mod 64)]
      else [char_of (0xE0 + n div 4096), char_of (0x80 + n div 64 mod 64), char_of (0x80 + n mod 64)])"

definition utf8 :: "nat list \<Rightarrow> string" where
  "utf8 ns = concat (map utf8_char ns)"

text \<open>What the program reads of a URL that \<open>net/url\<close> has parsed.\<close>

record URL =
  url_Scheme :: string
  url_Host :: string
  url_HasUser :: bool
  url_Path :: string
  url_Query :: "(string \<times> string) list"

record net_url =
  url_Parse :: "string \<Rightarrow> URL option"
  url_ParseRequestURI :: "string \<Rightarrow> URL option"

definition query_get :: "URL \<Rightarrow> string \<Rightarrow> string" where
  "query_get u k = (case map_of (url_Query u) k of None \<Rightarrow> '''' | Some v \<Rightarrow> v)"

definition alnum :: "char \<Rightarrow> bool" where
  "alnum c \<longleftrightarrow> (let n = of_char c :: nat in
     48 \<le> n \<and> n \<le> 57 \<or> 65 \<le> n \<and> n \<le> 90 \<or> 97 \<le> n \<and> n \<le> 122)"

text \<open>The share pattern at the front of a string, and its leftmost match.\<close>

definition share_at :: "string \<Rightarrow> string" where
  "share_at s =
     (if take 10 s = ''115.com/s/'' then takeWhile alnum (drop 10 s)
      else if take 13 s = ''115cdn.com/s/'' then takeWhile alnum (drop 13 s)
      else '''')"

fun shareURLPattern :: "string \<Rightarrow> string" where
  "shareURLPattern [] = ''''"
| "shareURLPattern (c # s) = (if share_at (c # s) \<noteq> '''' then share_at (c # s) else shareURLPattern s)"

definition ParseShareCode :: "net_url \<Rightarrow> string \<Rightarrow> string \<Rightarrow> error + string \<times> string" where
  "ParseShareCode net rawURL password =
     (let receive0 = TrimSpace password;
          trimmed = TrimSpace rawURL;
          code = (if shareURLPattern rawURL \<noteq> '''' then shareURLPattern rawURL
                  else if list_all alnum trimmed \<and> 4 \<le> length trimmed \<and> length trimmed \<le> 128 then trimmed
                  else '''') in
      if code = ''''
      then Inl (Errorf (utf8 [0x65E0, 0x6CD5, 0x4ECE, 0x8F93, 0x5165, 0x4E2D, 0x89E3, 0x6790] @ '' 115 '' @
                        utf8 [0x5206, 0x4EAB, 0x7801] @ '': %s'') [rawURL])
      else let receive =
             (if receive0 \<noteq> '''' then receive0
              else case url_Parse net rawURL of
                None \<Rightarrow> ''''
              | Some u \<Rightarrow> if query_get u ''password'' \<noteq> '''' then query_get u ''password'' else query_get u ''pwd'') in
        if length receive > 128
        then Inl (Errorf (''115 '' @ utf8 [0x63D0, 0x53D6, 0x7801, 0x8FC7, 0x957F]) [])
        else Inr (code, receive))"

text \<open>The elements of a path between slashes, and the first one after \<open>s\<close> or \<open>share\<close>.\<close>

fun split_on :: "char \<Rightarrow> string \<Rightarrow> string list" where
  "split_on d [] = [[]]"
| "split_on d (c # s) =
     (if c = d then [] # split_on d s
      else case split_on d s of [] \<Rightarrow> [[c]] | w # ws \<Rightarrow> (c # w) # ws)"

fun share_part :: "string list \<Rightarrow> string" where
  "share_part (a # b # rest) = (if a = ''s'' \<or> a = ''share'' then b else share_part (b # rest))"
| "share_part _ = ''''"

definition trim_char :: "char \<Rightarrow> string \<Rightarrow> string" where
  "trim_char d s = rev (dropWhile (\<lambda>c. c = d) (rev (dropWhile (\<lambda>c. c = d) s)))"

definition parseQuarkShare :: "net_url \<Rightarrow> string \<Rightarrow> string \<Rightarrow> error + string \<times> string" where
  "parseQuarkShare net rawURL password =
     (case url_Parse net (TrimSpace rawURL) of
        None \<Rightarrow> Inl (Errorf ''invalid Quark share URL'' [])
      | Some parsed \<Rightarrow>
          let parts = split_on (CHR ''/'') (trim_char (CHR ''/'') (url_Path parsed));
              part = share_part parts;
              quark_id = (if part = '''' \<and> length parts = 1 then hd parts else part) in
          if quark_id = '''' \<or> list_ex (\<lambda>c. c = CHR ''?'' \<or> c = CHR 0x23 \<or> c = CHR ''/'') quark_id
          then Inl (Errorf ''cannot parse Quark share ID'' [])
          else let password1 = (if password = '''' then query_get parsed ''pwd'' else password);
                   password2 = (if password1 = '''' then query_get parsed ''password'' else password1) in
            Inr (quark_id, TrimSpace password2))"

definition ValidateOfflineURL :: "net_url \<Rightarrow> string \<Rightarrow> error option" where
  "ValidateOfflineURL net rawURL =
     (case url_Parse net (TrimSpace rawURL) of
        Some u \<Rightarrow>
          if url_Scheme u \<in> {''magnet'', ''ed2k'', ''http'', ''https'', ''sha1''} then None
          else Some (Errorf ''offline URL must use magnet, ed2k, http, https, or sha1'' [])
      | None \<Rightarrow> Some (Errorf ''offline URL must use magnet, ed2k, http, https, or sha1'' []))"

section \<open>Automatic completion of series\<close>

definition autoFillLibrarySet :: "string list" where
  "autoFillLibrarySet = [utf8 [0x7535, 0x89C6, 0x5267, 0x8FFD, 0x66F4], utf8 [0x7EFC, 0x827A, 0x8FFD, 0x66F4]]"

record autoFillSourceShare =
  afs_Provider :: string
  afs_URL :: string
  afs_Password :: string

record seriesAutoFillSpec =
  spec_Libraries :: "string list"
  spec_SeriesIDs :: "string list"
  spec_CandidateOverrides :: "(string \<times> string) list"
  spec_SourceShares :: "(string \<times> autoFillSourceShare) list"
  spec_ParentTaskID :: string
  spec_Transfer :: bool
  spec_ReplaceCompletedPack :: bool
  spec_CandidateLimit :: int
  spec_MaxSeries :: int

fun overrides_of :: "(string \<times> goval) list \<Rightarrow> (string \<times> string) list \<Rightarrow> error + (string \<times> string) list" where
  "overrides_of [] acc = Inr acc"
| "overrides_of ((k, v) # rest) acc =
     (case v of
        VStr s \<Rightarrow>
          if TrimSpace k = '''' \<or> TrimSpace s = ''''
          then Inl (Errorf ''candidate_overrides must map series IDs to non-empty resource IDs'' [])
          else overrides_of rest (AList.update (TrimSpace k) (TrimSpace s) acc)
      | _ \<Rightarrow> Inl (Errorf ''candidate_overrides must map series IDs to non-empty resource IDs'' []))"

definition candidateOverridesPayload :: "payload \<Rightarrow> error + (string \<times> string) list" where
  "candidateOverridesPayload p =
     (case payload_get p ''candidate_overrides'' of
        None \<Rightarrow> Inr []
      | Some (VMap kvs) \<Rightarrow> overrides_of kvs []
      | Some _ \<Rightarrow> Inl (Errorf ''candidate_overrides must be an object'' []))"

definition quoted :: "string \<Rightarrow> string" where
  "quoted s = CHR 0x22 # s @ [CHR 0x22]"

text \<open>One entry of \<open>source_shares\<close>.\<close>

definition source_share :: "net_url \<Rightarrow> string \<Rightarrow> goval \<Rightarrow> error + autoFillSourceShare" where
  "source_share net seriesID raw =
     (let err = (\<lambda>text. Inl (Errorf (''source_shares[%q]'' @ text) [quoted seriesID])) in
      case raw of
        VMap kvs \<Rightarrow>
          (case map_of kvs ''provider'' of
             Some (VStr rawProvider) \<Rightarrow>
               let provider = map ascii_lower (TrimSpace rawProvider) in
               if provider \<noteq> ''115'' \<and> provider \<noteq> ''quark'' then err ''.provider must be 115 or quark''
               else (case map_of kvs ''url'' of
                 Some (VStr rawURL0) \<Rightarrow>
                   if TrimSpace rawURL0 = '''' then err ''.url is required''
                   else let rawURL = TrimSpace rawURL0 in
                     if \<not> (case url_ParseRequestURI net rawURL of
                             None \<Rightarrow> False
                           | Some u \<Rightarrow> url_Scheme u = ''https'' \<and> url_Host u \<noteq> '''' \<and> \<not> url_HasUser u)
                     then err ''.url must be an HTTPS share URL''
                     else (case (case map_of kvs ''password'' of
                                   None \<Rightarrow> Some '''' | Some (VStr s) \<Rightarrow> Some (TrimSpace s) | Some _ \<Rightarrow> None) of
                         None \<Rightarrow> err ''.password must be a string''
                       | Some password \<Rightarrow>
                           (case (if provider = ''115'' then ParseShareCode net rawURL password
                                  else parseQuarkShare net rawURL password) of
                              Inl e \<Rightarrow> Inl (Wrapf ''source_shares[%q].url is invalid: %w'' [quoted seriesID] e)
                            | Inr _ \<Rightarrow> Inr \<lparr>afs_Provider = provider, afs_URL = rawURL, afs_Password = password\<rparr>))
               | _ \<Rightarrow> err ''.url is required'')
           | _ \<Rightarrow> err ''.provider must be 115 or quark'')
      | _ \<Rightarrow> err '' must be an object'')"

fun shares_of ::
  "net_url \<Rightarrow> (string \<times> goval) list \<Rightarrow> (string \<times> autoFillSourceShare) list \<Rightarrow>
   error + (string \<times> autoFillSourceShare) list" where
  "shares_of net [] acc = Inr acc"
| "shares_of net ((k, v) # rest) acc =
     (let seriesID = TrimSpace k in
      if seriesID = '''' then Inl (Errorf ''source_shares keys must be non-empty Emby Series IDs'' [])
      else case source_share net seriesID v of
        Inl e \<Rightarrow> Inl e
      | Inr share \<Rightarrow>
          if seriesID \<in> fst ` set acc
          then Inl (Errorf ''source_shares contains duplicate Series ID %q'' [quoted seriesID])
          else shares_of net rest (acc @ [(seriesID, share)]))"

definition sourceSharesPayload :: "net_url \<Rightarrow> payload \<Rightarrow> error + (string \<times> autoFillSourceShare) list" where
  "sourceSharesPayload net p =
     (case payload_get p ''source_shares'' of
        None \<Rightarrow> Inr []
      | Some (VMap kvs) \<Rightarrow> shares_of net kvs []
      | Some _ \<Rightarrow> Inl (Errorf ''source_shares must be an object keyed by Emby Series ID'' []))"

fun check_libraries :: "string list \<Rightarrow> string list \<Rightarrow> error option" where
  "check_libraries seen [] = None"
| "check_libraries seen (l # ls) =
     (if l \<notin> set autoFillLibrarySet
      then Some (Errorf ''library %q is not eligible for automatic episode completion'' [quoted l])
      else if l \<in> set seen then Some (Errorf ''libraries must not contain duplicates'' [])
      else check_libraries (l # seen) ls)"

definition resolveSeriesAutoFillSpec :: "net_url \<Rightarrow> payload \<Rightarrow> error + seriesAutoFillSpec" where
  "resolveSeriesAutoFillSpec net p =
     (case stringSlicePayload p ''libraries'' of Inl e \<Rightarrow> Inl e
    | Inr libraries \<Rightarrow> (case check_libraries [] libraries of Some e \<Rightarrow> Inl e
    | None \<Rightarrow> (case optionalStringSlicePayload p ''series_ids'' of Inl e \<Rightarrow> Inl e
    | Inr seriesIDs \<Rightarrow> (case candidateOverridesPayload p of Inl e \<Rightarrow> Inl e
    | Inr overrides \<Rightarrow> (case sourceSharesPayload net p of Inl e \<Rightarrow> Inl e
    | Inr shares \<Rightarrow>
        if list_ex (\<lambda>(k, _). k \<in> fst ` set overrides) shares
        then Inl (Errorf ''source_shares and candidate_overrides cannot target the same Series'' [])
        else let ids = (if shares \<noteq> [] \<and> seriesIDs = [] then sort (map fst shares) else seriesIDs) in
          (case booleanPayload p ''transfer'' True of Inl e \<Rightarrow> Inl e
        | Inr transfer \<Rightarrow> (case integerPayload p ''candidate_limit'' 10 1 30 of Inl e \<Rightarrow> Inl e
        | Inr candidateLimit \<Rightarrow> (case integerPayload p ''max_series'' 20 1 100 of Inl e \<Rightarrow> Inl e
        | Inr maxSeries \<Rightarrow> (case booleanPayload p ''replace_completed_pack'' False of Inl e \<Rightarrow> Inl e
        | Inr replacePack \<Rightarrow>
            Inr \<lparr>spec_Libraries = libraries, spec_SeriesIDs = ids, spec_CandidateOverrides = overrides,
                 spec_SourceShares = shares, spec_ParentTaskID = [], spec_Transfer = transfer, spec_ReplaceCompletedPack = replacePack,
                 spec_CandidateLimit = candidateLimit, spec_MaxSeries = maxSeries\<rparr>)))))))))"

definition resolveMetadataRepairSpec :: "payload \<Rightarrow> error + int \<times> bool" where
  "resolveMetadataRepairSpec p =
     (case integerPayload p ''limit'' 100 1 500 of Inl e \<Rightarrow> Inl e
    | Inr limit \<Rightarrow> (case booleanPayload p ''auto_apply'' True of Inl e \<Rightarrow> Inl e
    | Inr autoApply \<Rightarrow> Inr (limit, autoApply)))"

section \<open>Tasks\<close>

definition supportedTaskTypes :: "string list" where
  "supportedTaskTypes = [''c115_offline_download'', ''share_auto_sync'', ''c115_save_share'', ''quark_to_115_import'',
     ''emby_match'', ''emby_refresh'', ''emby_missing_posters'', ''emby_metadata_repair'', ''series_auto_fill'',
     ''media_ingest'', ''strm_sync'', ''strm_verify'']"

definition failed :: "error + 'a \<Rightarrow> error option" where
  "failed r = (case r of Inl e \<Rightarrow> Some e | Inr _ \<Rightarrow> None)"

fun first_error :: "error option list \<Rightarrow> error option" where
  "first_error [] = None"
| "first_error (None # es) = first_error es"
| "first_error (Some e # es) = Some e"

definition validate_save_share :: "net_url \<Rightarrow> payload \<Rightarrow> error option" where
  "validate_save_share net p =
     (case stringPayload p ''url'' True of Inl e \<Rightarrow> Some e
    | Inr rawURL \<Rightarrow> (case stringPayload p ''password'' False of Inl e \<Rightarrow> Some e
    | Inr password \<Rightarrow>
        first_error [failed (ParseShareCode net rawURL password),
                     failed (string_fields p False [''target_cid'', ''account_id''])]))"

definition validate_offline_download :: "net_url \<Rightarrow> payload \<Rightarrow> error option" where
  "validate_offline_download net p =
     (case stringSlicePayload p ''urls'' of Inl e \<Rightarrow> Some e
    | Inr urls \<Rightarrow>
        first_error (map (ValidateOfflineURL net) urls @ [failed (string_fields p False [''target_cid'', ''account_id''])]))"

definition validateTask :: "net_url \<Rightarrow> string \<Rightarrow> payload \<Rightarrow> error option" where
  "validateTask net typ p =
     (if typ = ''emby_refresh''
      then first_error [failed (stringPayload p ''library_id'' False), failed (booleanPayload p ''sync_strm'' True)]
      else if typ = ''emby_match'' then failed (string_fields p True [''item_id'', ''tmdb_id''])
      else if typ = ''share_auto_sync'' then failed (stringPayload p ''subscription_id'' True)
      else if typ = ''emby_missing_posters'' then None
      else if typ = ''emby_metadata_repair'' then failed (resolveMetadataRepairSpec p)
      else if typ = ''series_auto_fill'' then failed (resolveSeriesAutoFillSpec net p)
      else if typ = ''c115_save_share'' then validate_save_share net p
      else if typ = ''c115_offline_download'' then validate_offline_download net p
      else if typ = ''media_ingest'' then failed (stringPayload p ''source_task_id'' True)
      else if typ = ''quark_to_115_import'' then validateQuarkImportPayload p False
      else if typ = ''strm_sync'' \<or> typ = ''strm_verify'' then failed (stringPayload p ''library'' False)
      else Some (Errorf ''unsupported task type %q; supported types: %s''
                   [quoted typ, Join_strings supportedTaskTypes '', '']))"

definition ValidateTask :: "net_url \<Rightarrow> string \<Rightarrow> payload \<Rightarrow> error option" where
  "ValidateTask net typ p = validateTask net (TrimSpace typ) p"

end
