(* ===== verification/Service.thy ===== *)
theory Service
  imports Models
begin

text \<open>
  The state the services of \<open>internal/service\<close> work on: the database, what lies outside the program
  (drive providers, Emby, the mount; the type parameter \<open>'o\<close>), the successive readings of the clock
  and of \<open>uuid\<close>, and the fields \<open>TaskQueueService\<close> keeps in memory: the media mutex, the tasks whose
  cancel function is registered, the tasks whose context is cancelled, whether the worker is started
  (\<open>cancel\<close> is set) and whether its context is cancelled.

  \<open>sv_upload\<close> are the fields \<open>UploadID\<close>, \<open>Bucket\<close> and \<open>Object\<close> of the variable
  \<open>uploadSource\<close> that a run shares with its callback \<open>OnSession\<close>.

  \<open>sv_submitted\<close> is a record of the calls that submit a share to a provider, in order, and \<open>sv_calls\<close> one of
  the directory pages the 115 client returned (directory, offset, objects and total), the objects it was told
  to delete, and the calls to Emby on behalf of a user (method, path, status and body of the answer, as far as there are any); the
  program keeps neither. Programs over a part of the state are lifted with \<open>on_db\<close> and \<open>on_out\<close>; \<open>at_now\<close>
  passes the next reading of the clock to a store operation.
\<close>

datatype call =
    Page string int "DriveFile list" int64
  | Recycle "string list"
  | Native string string "(int \<times> string option) option"

record 'o service =
  sv_db :: db
  sv_out :: 'o
  sv_clock :: "nat \<Rightarrow> gotime"
  sv_uuids :: "nat \<Rightarrow> string"
  sv_mediaMu :: bool
  sv_running :: "string list"
  sv_cancelled :: "string list"
  sv_worker :: bool
  sv_stopped :: bool
  sv_submitted :: "string list"
  sv_calls :: "call list"
  sv_upload :: "string \<times> string \<times> string"

definition on_db :: "'a dbop \<Rightarrow> ('o service, 'a) dbm" where
  "on_db m = (\<lambda>fs s. case m fs (sv_db s) of (r, fs', d) \<Rightarrow> (r, fs', s\<lparr>sv_db := d\<rparr>))"

definition on_out :: "('o, 'a) dbm \<Rightarrow> ('o service, 'a) dbm" where
  "on_out m = (\<lambda>fs s. case m fs (sv_out s) of (r, fs', w) \<Rightarrow> (r, fs', s\<lparr>sv_out := w\<rparr>))"

definition time_Now :: "('o service, gotime) dbm" where
  "time_Now = (\<lambda>fs s. (Inr (sv_clock s 0), fs, s\<lparr>sv_clock := (\<lambda>n. sv_clock s (Suc n))\<rparr>))"

definition uuid_NewString :: "('o service, string) dbm" where
  "uuid_NewString = (\<lambda>fs s. (Inr (sv_uuids s 0), fs, s\<lparr>sv_uuids := (\<lambda>n. sv_uuids s (Suc n))\<rparr>))"

definition at_now :: "(gotime \<Rightarrow> 'a dbop) \<Rightarrow> ('o service, 'a) dbm" where
  "at_now f = db_bind time_Now (\<lambda>now. on_db (f now))"

text \<open>\<open>ctx.Err()\<close>: a context may be cancelled whenever it is asked.\<close>

definition ctx_Err :: "('o service, error option) dbm" where
  "ctx_Err = db_bind (db_try (db_query (\<lambda>s. Inr ())))
     (\<lambda>r. db_ret (case r of Inl _ \<Rightarrow> Some Canceled | Inr _ \<Rightarrow> None))"

text \<open>Recording a call.\<close>

definition note_call :: "call \<Rightarrow> ('o service, unit) dbm" where
  "note_call c = db_upd (\<lambda>s. s\<lparr>sv_calls := sv_calls s @ [c]\<rparr>)"

section \<open>Lifted programs\<close>

lemma db_wp_on_db [wp_rules]:
  "db_wp m (\<lambda>x d. Q x (s\<lparr>sv_db := d\<rparr>)) (\<lambda>e d. E e (s\<lparr>sv_db := d\<rparr>)) (sv_db s) \<Longrightarrow> db_wp (on_db m) Q E s"
  by (fastforce simp: db_wp_def on_db_def split: prod.splits sum.splits)

lemma db_wp_on_out [wp_rules]:
  "db_wp m (\<lambda>x w. Q x (s\<lparr>sv_out := w\<rparr>)) (\<lambda>e w. E e (s\<lparr>sv_out := w\<rparr>)) (sv_out s) \<Longrightarrow> db_wp (on_out m) Q E s"
  by (fastforce simp: db_wp_def on_out_def split: prod.splits sum.splits)

lemma db_wp_time_Now [wp_rules]:
  "Q (sv_clock s 0) (s\<lparr>sv_clock := (\<lambda>n. sv_clock s (Suc n))\<rparr>) \<Longrightarrow> db_wp time_Now Q E s"
  by (simp add: db_wp_def time_Now_def)

lemma db_wp_uuid [wp_rules]:
  "Q (sv_uuids s 0) (s\<lparr>sv_uuids := (\<lambda>n. sv_uuids s (Suc n))\<rparr>) \<Longrightarrow> db_wp uuid_NewString Q E s"
  by (simp add: db_wp_def uuid_NewString_def)

lemma db_wp_ctx_Err [wp_rules]:
  "Q None s \<Longrightarrow> Q (Some Canceled) s \<Longrightarrow> db_wp ctx_Err Q E s"
  unfolding ctx_Err_def by (rule db_wp_bind, rule db_wp_try, rule db_wp_query) (auto intro: db_wp_ret)

lemma db_total_on_db [total_rules]:
  "db_total m (\<lambda>x d. Q x (s\<lparr>sv_db := d\<rparr>)) (sv_db s) \<Longrightarrow> db_total (on_db m) Q s"
  by (auto simp: db_total_def on_db_def)

lemma db_total_on_out [total_rules]:
  "db_total m (\<lambda>x w. Q x (s\<lparr>sv_out := w\<rparr>)) (sv_out s) \<Longrightarrow> db_total (on_out m) Q s"
  by (auto simp: db_total_def on_out_def)

lemma db_total_time_Now [total_rules]:
  "Q (sv_clock s 0) (s\<lparr>sv_clock := (\<lambda>n. sv_clock s (Suc n))\<rparr>) \<Longrightarrow> db_total time_Now Q s"
  by (simp add: db_total_def time_Now_def)

lemma on_db_eval [db_eval]:
  "m fs (sv_db s) = (r, fs', d) \<Longrightarrow> on_db m fs s = (r, fs', s\<lparr>sv_db := d\<rparr>)"
  by (simp add: on_db_def)

lemma at_now_eval [db_eval]:
  "f (sv_clock s 0) fs (sv_db s) = (r, fs', d) \<Longrightarrow>
   at_now f fs s = (r, fs', s\<lparr>sv_clock := (\<lambda>n. sv_clock s (Suc n)), sv_db := d\<rparr>)"
  by (simp add: at_now_def on_db_def db_bind_def time_Now_def)

lemma ctx_Err_eval [db_eval]: "ctx_Err [] s = (Inr None, [], s)"
  by (simp add: ctx_Err_def db_eval)

end
