(* ===== verification/TaskQueue.thy ===== *)
theory TaskQueue
  imports TaskStore CrossDriveStore TaskPayload Service
begin

text \<open>
  The task queue of \<open>internal/service/taskqueue.go\<close> over the stores: what it persists (\<open>enqueue\<close>
  and its callers, \<open>Retry\<close>), how its worker executes a task, how a running task is cancelled,
  and the lock that keeps worker and media deletions apart.

  A time or an identifier the code takes from the clock or from \<open>uuid\<close> is an argument (\<open>now\<close>,
  \<open>tick\<close> for the successive readings of one operation, \<open>uuid\<close>); \<open>net\<close> is \<open>net/url\<close> as in
  TaskPayload.
\<close>

section \<open>What the queue persists\<close>

definition persistTask :: "string \<Rightarrow> string \<Rightarrow> payload \<Rightarrow> string \<Rightarrow> gotime \<Rightarrow> AsyncTask dbop" where
  "persistTask uuid taskType p scheduleID now =
     (let task = \<lparr>task_ID = uuid, task_Type = taskType, task_ScheduleID = scheduleID, task_Payload = p,
                  task_Status = ''pending'', task_Progress = 0, task_Result = '''', task_Error = '''',
                  task_Attempts = 0, task_MaxAttempts = 1, task_CreatedAt = now, task_UpdatedAt = now\<rparr> in
      if scheduleID = '''' then CreateAsyncTask task now else CreateScheduledAsyncTask task scheduleID now)"

text \<open>The payload of an import with the derived identifiers of its selected sources.\<close>

definition derived_payload :: "ShareSelection list \<Rightarrow> payload \<Rightarrow> payload" where
  "derived_payload selections p =
     (if selections = [] then p
      else AList.update ''selected_source_ids'' (VStrs (map sel_ID selections)) p)"

definition enqueue :: "net_url \<Rightarrow> string \<Rightarrow> string \<Rightarrow> payload \<Rightarrow> string \<Rightarrow> gotime \<Rightarrow> AsyncTask dbop" where
  "enqueue net uuid taskType0 p scheduleID now =
     (let taskType = TrimSpace taskType0 in
      case validateTask net taskType p of
        Some e \<Rightarrow> db_fail e
      | None \<Rightarrow>
          if taskType = ''quark_to_115_import''
          then (case shareSelectionsPayload p ''selected_source_manifest'' of
                  Inl e \<Rightarrow> db_fail e
                | Inr selections \<Rightarrow> persistTask uuid taskType (derived_payload selections p) scheduleID now)
          else persistTask uuid taskType p scheduleID now)"

definition Enqueue :: "net_url \<Rightarrow> string \<Rightarrow> string \<Rightarrow> payload \<Rightarrow> gotime \<Rightarrow> AsyncTask dbop" where
  "Enqueue net uuid taskType p now = enqueue net uuid taskType p '''' now"

definition EnqueueScheduled ::
  "net_url \<Rightarrow> string \<Rightarrow> string \<Rightarrow> string \<Rightarrow> payload \<Rightarrow> gotime \<Rightarrow> AsyncTask dbop" where
  "EnqueueScheduled net uuid scheduleID taskType p now = enqueue net uuid taskType p scheduleID now"

definition enqueueAutofillQuarkImport :: "string \<Rightarrow> payload \<Rightarrow> gotime \<Rightarrow> AsyncTask dbop" where
  "enqueueAutofillQuarkImport uuid p now =
     (case validateQuarkImportPayload p True of
        Some e \<Rightarrow> db_fail e
      | None \<Rightarrow> persistTask uuid ''quark_to_115_import'' p '''' now)"

text \<open>\<open>uuid.NewSHA1\<close> in the name space of object identifiers is the parameter \<open>sha1_id\<close>.\<close>

definition enqueueMediaIngest :: "(string \<Rightarrow> string) \<Rightarrow> string \<Rightarrow> gotime \<Rightarrow> AsyncTask dbop" where
  "enqueueMediaIngest sha1_id sourceTaskID0 now =
     (let sourceTaskID = TrimSpace sourceTaskID0 in
      if sourceTaskID = '''' then db_fail (Errorf ''source_task_id is required'' [])
      else let ingest = sha1_id (''media-ingest:'' @ sourceTaskID) in
        db_bind (db_try (GetAsyncTask ingest)) (\<lambda>existing.
        case existing of
          Inr task \<Rightarrow> db_ret task
        | Inl e \<Rightarrow>
            if \<not> errors_is e ErrNoRows then db_fail e
            else db_bind (db_try (CreateAsyncTask
                   \<lparr>task_ID = ingest, task_Type = ''media_ingest'', task_ScheduleID = '''',
                    task_Payload = [(''source_task_id'', VStr sourceTaskID)], task_Status = ''pending'',
                    task_Progress = 0, task_Result = '''', task_Error = '''', task_Attempts = 0,
                    task_MaxAttempts = 1, task_CreatedAt = now, task_UpdatedAt = now\<rparr> now)) (\<lambda>created.
              case created of
                Inr task \<Rightarrow> db_ret task
              | Inl e' \<Rightarrow> db_bind (db_try (GetAsyncTask ingest)) (\<lambda>existing.
                  case existing of Inr task \<Rightarrow> db_ret task | Inl _ \<Rightarrow> db_fail e'))))"

definition Retry :: "net_url \<Rightarrow> string \<Rightarrow> string \<Rightarrow> gotime \<Rightarrow> AsyncTask dbop" where
  "Retry net uuid taskID now =
     db_bind (GetAsyncTask taskID) (\<lambda>task.
     if task_Status task \<noteq> ''failed'' \<and> task_Status task \<noteq> ''cancelled''
     then db_fail (Errorf ''task %s is %s, not failed or cancelled'' [taskID, task_Status task])
     else if task_Type task = ''quark_to_115_import''
     then db_bind (db_try (GetCrossDriveImport (task_ID task))) (\<lambda>prior.
       let again = enqueueAutofillQuarkImport uuid
             (AList.update ''prior_import_task_id'' (VStr (task_ID task)) (task_Payload task)) now in
       case prior of
         Inl e \<Rightarrow> if \<not> errors_is e ErrNoRows then db_fail e else again
       | Inr imp \<Rightarrow> if imp_SavedRootIDs imp = []
                   then db_fail (Errorf ''prior import has no reconciled saved-root checkpoint; share save outcome requires review'' [])
                   else again)
     else enqueue net uuid (task_Type task) (task_Payload task) (task_ScheduleID task) now)"
section \<open>The worker\<close>

definition taskPollInterval :: int where
  "taskPollInterval = 500000000"

definition ErrMediaMutationBusy :: error where
  "ErrMediaMutationBusy = Errorf ''media mutation is busy; retry after the active operation completes'' []"

text \<open>A body between \<open>Lock\<close> and the deferred \<open>Unlock\<close>.\<close>

definition holding_media :: "('o service, 'a) dbm \<Rightarrow> ('o service, 'a) dbm" where
  "holding_media body =
     db_bind (db_upd (\<lambda>s. s\<lparr>sv_mediaMu := True\<rparr>)) (\<lambda>_.
     db_bind (db_try body) (\<lambda>r.
     db_bind (db_upd (\<lambda>s. s\<lparr>sv_mediaMu := False\<rparr>)) (\<lambda>_.
     case r of Inl e \<Rightarrow> db_fail e | Inr x \<Rightarrow> db_ret x)))"

definition TryMediaMutation :: "('o service, 'a) dbm \<Rightarrow> ('o service, 'a) dbm" where
  "TryMediaMutation fn =
     db_bind (db_get sv_mediaMu) (\<lambda>busy. if busy then db_fail ErrMediaMutationBusy else holding_media fn)"

definition Start :: "('o service, unit) dbm" where
  "Start =
     db_bind (db_get sv_worker) (\<lambda>started.
     if started then db_ret ()
     else db_bind (db_wrap (Wrapf ''recover interrupted tasks: %w'' []) (at_now RecoverInterruptedAsyncTasks)) (\<lambda>_.
       db_upd (\<lambda>s. s\<lparr>sv_worker := True, sv_stopped := False\<rparr>)))"

text \<open>\<open>Stop\<close> returns when the worker has returned.\<close>

definition Stop :: "('o service, unit) dbm" where
  "Stop =
     db_bind (db_get sv_worker) (\<lambda>started.
     if \<not> started then db_ret () else db_upd (\<lambda>s. s\<lparr>sv_worker := False, sv_stopped := True\<rparr>))"

text \<open>Failures that are only logged.\<close>

definition logged :: "('o service, 'a) dbm \<Rightarrow> ('o service, unit) dbm" where
  "logged m = db_bind (db_try m) (\<lambda>_. db_ret ())"

definition start_failed :: "string \<Rightarrow> string \<Rightarrow> error \<Rightarrow> ('o service, unit) dbm" where
  "start_failed taskID what e =
     (let message = what @ err_text e in
      logged (at_now (FinishAsyncTask taskID ''failed'' 0 '''' message (''failed: '' @ message))))"

text \<open>The context of a task is cancelled by \<open>Cancel\<close> or with the worker.\<close>

definition context_cancelled :: "string \<Rightarrow> 'o service \<Rightarrow> bool" where
  "context_cancelled taskID s \<longleftrightarrow> taskID \<in> set (sv_cancelled s) \<or> sv_stopped s"

text \<open>The result as text, and the error of the run joined with the one of the encoding.\<close>

definition encode_result ::
  "('r \<Rightarrow> error + string) \<Rightarrow> 'r option \<times> error option \<Rightarrow> string \<times> error option" where
  "encode_result marshal r =
     (case r of
        (None, err) \<Rightarrow> ('''', err)
      | (Some v, err) \<Rightarrow>
          (case marshal v of
             Inr text \<Rightarrow> (text, err)
           | Inl e \<Rightarrow> let encode = Wrapf ''encode task result: %w'' [] e in
               ('''', Some (case err of None \<Rightarrow> encode | Some e' \<Rightarrow> JoinErr e' encode))))"

definition final_status :: "string \<Rightarrow> 'o service \<Rightarrow> error option \<Rightarrow> string" where
  "final_status taskID s err =
     (case err of
        None \<Rightarrow> ''completed''
      | Some e \<Rightarrow> if errors_is e Canceled \<or> context_cancelled taskID s then ''cancelled'' else ''failed'')"

definition settle :: "AsyncTask \<Rightarrow> string \<times> error option \<Rightarrow> ('o service, unit) dbm" where
  "settle task r =
     (case r of
        (encoded, None) \<Rightarrow>
          logged (at_now (FinishAsyncTask (task_ID task) ''completed'' 100 encoded '''' (''completed '' @ task_Type task)))
      | (encoded, Some e) \<Rightarrow>
          db_bind (db_get (\<lambda>s. final_status (task_ID task) s (Some e))) (\<lambda>status.
          db_bind (db_try (on_db (GetAsyncTask (task_ID task)))) (\<lambda>current.
          logged (at_now (FinishAsyncTask (task_ID task) status
            (case current of Inr t \<Rightarrow> task_Progress t | Inl _ \<Rightarrow> 10) encoded (err_text e)
            (status @ '': '' @ err_text e))))))"

text \<open>
  A claimed task: the start log, the first progress, the run and its settlement. \<open>run\<close> performs the work of
  the task's type, \<open>marshal\<close> is \<open>json.Marshal\<close> on its result.
\<close>

definition execute_claimed ::
  "('r \<Rightarrow> error + string) \<Rightarrow> (AsyncTask \<Rightarrow> ('o service, 'r option \<times> error option) dbm) \<Rightarrow> AsyncTask \<Rightarrow>
   ('o service, unit) dbm" where
  "execute_claimed marshal run task =
     db_bind (db_try (on_db (AppendTaskLog (task_ID task) (''started '' @ task_Type task)))) (\<lambda>r.
     case r of
       Inl e \<Rightarrow> start_failed (task_ID task) ''persist task start log: '' e
     | Inr _ \<Rightarrow>
         db_bind (if task_Type task \<noteq> ''quark_to_115_import''
                  then db_try (at_now (UpdateAsyncTaskProgress (task_ID task) 10)) else db_ret (Inr ())) (\<lambda>r.
         case r of
           Inl e \<Rightarrow> start_failed (task_ID task) ''persist task progress: '' e
         | Inr _ \<Rightarrow> db_bind (run task) (\<lambda>result. settle task (encode_result marshal result))))"

definition register :: "string \<Rightarrow> ('o service, unit) dbm" where
  "register taskID = db_upd (\<lambda>s. s\<lparr>sv_running := List.insert taskID (sv_running s),
     sv_cancelled := removeAll taskID (sv_cancelled s)\<rparr>)"

definition unregister :: "string \<Rightarrow> ('o service, unit) dbm" where
  "unregister taskID = db_upd (\<lambda>s. s\<lparr>sv_running := removeAll taskID (sv_running s)\<rparr>)"

definition executeTask ::
  "('r \<Rightarrow> error + string) \<Rightarrow> (AsyncTask \<Rightarrow> ('o service, 'r option \<times> error option) dbm) \<Rightarrow> AsyncTask \<Rightarrow>
   ('o service, unit) dbm" where
  "executeTask marshal run task =
     db_bind (db_get sv_mediaMu) (\<lambda>busy.
     if busy then db_ret ()
     else holding_media (
       db_bind (db_get sv_stopped) (\<lambda>stopped.
       if stopped then db_ret ()
       else db_bind (db_try (at_now (BeginAsyncTask (task_ID task)))) (\<lambda>claim.
         case claim of
           Inl _ \<Rightarrow> db_ret ()
         | Inr None \<Rightarrow> db_ret ()
         | Inr (Some _) \<Rightarrow>
             db_bind (register (task_ID task)) (\<lambda>_.
             db_bind (db_try (execute_claimed marshal run task)) (\<lambda>_.
             unregister (task_ID task)))))))"

definition processPendingTasks ::
  "('r \<Rightarrow> error + string) \<Rightarrow> (AsyncTask \<Rightarrow> ('o service, 'r option \<times> error option) dbm) \<Rightarrow>
   ('o service, unit) dbm" where
  "processPendingTasks marshal run =
     db_bind (db_try (on_db (ListPendingAsyncTasks 5))) (\<lambda>r.
     case r of
       Inl _ \<Rightarrow> db_ret ()
     | Inr tasks \<Rightarrow> db_foreach (\<lambda>task.
         db_bind (db_get sv_stopped) (\<lambda>stopped. if stopped then db_ret () else executeTask marshal run task)) tasks)"

definition taskProgress :: "string \<Rightarrow> rat \<Rightarrow> rat \<Rightarrow> rat \<Rightarrow> string \<Rightarrow> ('o service, unit) dbm" where
  "taskProgress taskID start end progress0 message =
     (let progress = min 100 (max 0 progress0);
          mapped = min 99 (start + (end - start) * progress / 100) in
      db_bind (at_now (UpdateAsyncTaskProgress taskID mapped)) (\<lambda>_.
      if message \<noteq> '''' then on_db (AppendTaskLog taskID message) else db_ret ()))"

definition Cancel :: "string \<Rightarrow> ('o service, AsyncTask) dbm" where
  "Cancel taskID =
     db_bind (on_db (GetAsyncTask taskID)) (\<lambda>task.
     db_bind
       (if task_Status task = ''pending''
        then db_bind (at_now (CancelPendingAsyncTask taskID)) (\<lambda>changed.
          if \<not> changed then db_fail (Errorf ''task %s changed state before cancellation'' [taskID]) else db_ret ())
        else if task_Status task = ''running''
        then db_bind (if task_Type task = ''quark_to_115_import''
                      then at_now (RequestCrossDriveCancellation taskID) else db_ret ()) (\<lambda>_.
          db_bind (db_get sv_running) (\<lambda>running.
          if taskID \<notin> set running then db_fail (Errorf ''task %s is running outside this worker'' [taskID])
          else db_upd (\<lambda>s. s\<lparr>sv_cancelled := List.insert taskID (sv_cancelled s)\<rparr>)))
        else db_fail (Errorf ''task %s is already %s'' [taskID, task_Status task])) (\<lambda>_.
     on_db (GetAsyncTask taskID)))"
section \<open>A claimed task is settled\<close>

definition executing :: "string \<Rightarrow> 'o service \<Rightarrow> bool" where
  "executing taskID s \<longleftrightarrow> task_store_inv (sv_db s) \<and>
     (\<exists>t \<in> set (async_tasks (sv_db s)). task_ID t = taskID \<and> task_Status t = ''running'')"

definition settled :: "string \<Rightarrow> string \<Rightarrow> string \<times> error option \<Rightarrow> 'o service \<Rightarrow> bool" where
  "settled taskID status outcome s \<longleftrightarrow> task_store_inv (sv_db s) \<and>
     (\<exists>t \<in> set (async_tasks (sv_db s)). task_ID t = taskID \<and> task_Status t = status \<and> task_Result t = fst outcome \<and>
        task_Error t = (case snd outcome of None \<Rightarrow> '''' | Some e \<Rightarrow> err_text e) \<and>
        (snd outcome = None \<longrightarrow> task_Progress t = 100))"

lemma db_total_at_now:
  "f (sv_clock s 0) [] (sv_db s) = (Inr x, [], d) \<Longrightarrow>
   Q x (s\<lparr>sv_clock := (\<lambda>n. sv_clock s (Suc n)), sv_db := d\<rparr>) \<Longrightarrow> db_total (at_now f) Q s"
  by (simp add: db_total_def at_now_eval)

lemma finish_total:
  assumes ex: "executing taskID s"
    and Q: "\<And>x d. task_store_inv d \<Longrightarrow> \<exists>t \<in> set (async_tasks d). task_ID t = taskID \<and> task_Status t = status \<and>
        task_Progress t = progress \<and> task_Result t = text' \<and> task_Error t = err \<Longrightarrow>
      Q () (s\<lparr>sv_clock := (\<lambda>n. sv_clock s (Suc n)), sv_db := d\<rparr>)"
  shows "db_total (logged (at_now (FinishAsyncTask taskID status progress text' err msg))) Q s"
proof -
  from ex obtain t where inv: "task_store_inv (sv_db s)" and t: "t \<in> set (async_tasks (sv_db s))"
      "task_ID t = taskID" "task_Status t = ''running''" by (auto simp: executing_def)
  let ?now = "sv_clock s 0"
  obtain d where fin: "FinishAsyncTask taskID status progress text' err msg ?now [] (sv_db s) = (Inr (), [], d)"
    and rows: "async_tasks d = sql_update (\<lambda>u. task_ID u = task_ID t \<and> task_Status u = ''running'')
        (finish_task status progress text' err ?now) (async_tasks (sv_db s))"
    using FinishAsyncTask_running [OF inv t(1,3), of status progress text' err msg ?now] t(2) by simp
  have "task_store_inv d"
    using FinishAsyncTask_inv [OF inv, of taskID status progress text' err msg ?now] fin by simp
  moreover have "finish_task status progress text' err ?now t \<in> set (async_tasks d)"
    using t unfolding rows set_sql_update by auto
  then have "\<exists>u \<in> set (async_tasks d). task_ID u = taskID \<and> task_Status u = status \<and>
        task_Progress u = progress \<and> task_Result u = text' \<and> task_Error u = err"
    by (rule bexI [rotated]) (simp add: finish_task_def t)
  ultimately have "Q () (s\<lparr>sv_clock := (\<lambda>n. sv_clock s (Suc n)), sv_db := d\<rparr>)" by (rule Q)
  then show ?thesis
    unfolding logged_def
    by (intro db_total_bind db_total_try db_total_at_now [where f = "FinishAsyncTask taskID status progress text' err msg",
        OF fin] db_total_ret)
qed

lemma settle_total:
  assumes "executing (task_ID task) s"
  shows "db_total (settle task outcome)
     (\<lambda>_ s'. settled (task_ID task) (final_status (task_ID task) s (snd outcome)) outcome s') s"
proof (cases "snd outcome")
  case None
  then obtain text' where o': "outcome = (text', None)" by (cases outcome) auto
  show ?thesis
    unfolding settle_def o'
    by (simp, rule finish_total [OF assms]) (auto simp: settled_def final_status_def)
next
  case (Some e)
  then obtain text' where o': "outcome = (text', Some e)" by (cases outcome) auto
  from assms obtain t where t: "t \<in> set (async_tasks (sv_db s))" "task_ID t = task_ID task"
    and inv: "task_store_inv (sv_db s)" by (auto simp: executing_def)
  have "sql_find (\<lambda>u. task_ID u = task_ID task) (async_tasks (sv_db s)) = Some t"
    using sql_find_key [OF task_store_invD(1) [OF inv] t(1)] t(2) by simp
  then have get: "GetAsyncTask (task_ID task) [] (sv_db s) = (Inr t, [], sv_db s)"
    by (simp add: GetAsyncTask_def db_unfold)
  show ?thesis
    unfolding settle_def o' prod.case option.case
    apply (rule db_total_bind, rule db_total_get, rule db_total_bind, rule db_total_try, rule db_total_on_db)
    apply (simp add: db_total_def [of "GetAsyncTask (task_ID task)"] get)
    by (rule finish_total [OF assms]) (auto simp: settled_def)
qed

lemma log_total:
  assumes ex: "executing taskID s" and Q: "\<And>d. executing taskID (s\<lparr>sv_db := d\<rparr>) \<Longrightarrow> Q () (s\<lparr>sv_db := d\<rparr>)"
  shows "db_total (on_db (AppendTaskLog taskID message)) Q s"
proof -
  from ex obtain t where inv: "task_store_inv (sv_db s)" and t: "t \<in> set (async_tasks (sv_db s))"
      "task_ID t = taskID" "task_Status t = ''running''" by (auto simp: executing_def)
  have "runs_of (sv_db s) taskID \<noteq> []" using running_task_active(1) [OF inv t(1,3)] t(2) by simp
  then obtain d where log: "AppendTaskLog taskID message [] (sv_db s) = (Inr (), [], d)"
    and rows: "async_tasks d = async_tasks (sv_db s)"
    by (simp add: AppendTaskLog_eval Let_def)
  have "task_store_inv d" using AppendTaskLog_inv [OF inv, of taskID message] log by simp
  then have "executing taskID (s\<lparr>sv_db := d\<rparr>)" using t by (auto simp: executing_def rows)
  then show ?thesis
    by (intro db_total_on_db) (simp add: db_total_def log Q)
qed

lemma progress_total:
  assumes ex: "executing taskID s"
    and Q: "\<And>d. executing taskID (s\<lparr>sv_clock := (\<lambda>n. sv_clock s (Suc n)), sv_db := d\<rparr>) \<Longrightarrow>
      Q () (s\<lparr>sv_clock := (\<lambda>n. sv_clock s (Suc n)), sv_db := d\<rparr>)"
  shows "db_total (at_now (UpdateAsyncTaskProgress taskID progress)) Q s"
proof -
  let ?now = "sv_clock s 0"
  from ex obtain t where inv: "task_store_inv (sv_db s)" and t: "t \<in> set (async_tasks (sv_db s))"
      "task_ID t = taskID" "task_Status t = ''running''" by (auto simp: executing_def)
  obtain d where upd: "UpdateAsyncTaskProgress taskID progress ?now [] (sv_db s) = (Inr (), [], d)"
    and rows: "async_tasks d = sql_update (\<lambda>t. task_ID t = taskID \<and> task_Status t = ''running'')
        (\<lambda>t. t\<lparr>task_Progress := max (task_Progress t) progress, task_UpdatedAt := ?now\<rparr>) (async_tasks (sv_db s))"
    by (simp add: UpdateAsyncTaskProgress_eval)
  have "task_store_inv d" using UpdateAsyncTaskProgress_inv [OF inv, of taskID progress ?now] upd by simp
  moreover have "\<exists>u \<in> set (async_tasks d). task_ID u = taskID \<and> task_Status u = ''running''"
    using t unfolding rows set_sql_update by (intro bexI [of _ "t\<lparr>task_Progress := max (task_Progress t) progress, task_UpdatedAt := ?now\<rparr>"]) auto
  ultimately have "executing taskID (s\<lparr>sv_clock := (\<lambda>n. sv_clock s (Suc n)), sv_db := d\<rparr>)"
    by (simp add: executing_def)
  then show ?thesis by (intro db_total_at_now [where f = "UpdateAsyncTaskProgress taskID progress", OF upd] Q)
qed

lemma begin_total:
  assumes inv: "task_store_inv (sv_db s)" and t: "t \<in> set (async_tasks (sv_db s))" "claimable taskID t"
    and Q: "\<And>run d. executing taskID (s\<lparr>sv_clock := (\<lambda>n. sv_clock s (Suc n)), sv_db := d\<rparr>) \<Longrightarrow>
      Q (Some run) (s\<lparr>sv_clock := (\<lambda>n. sv_clock s (Suc n)), sv_db := d\<rparr>)"
  shows "db_total (at_now (BeginAsyncTask taskID)) Q s"
proof -
  let ?now = "sv_clock s 0"
  obtain run d where beg: "BeginAsyncTask taskID ?now [] (sv_db s) = (Inr (Some run), [], d)"
    and rows: "async_tasks d = sql_update (claimable taskID) (claim_task ?now) (async_tasks (sv_db s))"
    using BeginAsyncTask_claim [OF inv t] by simp
  have "task_store_inv d" using BeginAsyncTask_inv [OF inv, of taskID ?now] beg by simp
  moreover have "claim_task ?now t \<in> set (async_tasks d)" using t by (auto simp: rows set_sql_update)
  moreover have "task_ID t = taskID" using t(2) by (simp add: claimable_def)
  ultimately have "executing taskID (s\<lparr>sv_clock := (\<lambda>n. sv_clock s (Suc n)), sv_db := d\<rparr>)"
    by (force simp: executing_def intro!: bexI [of _ "claim_task ?now t"])
  then show ?thesis by (intro db_total_at_now [where f = "BeginAsyncTask taskID", OF beg] Q)
qed

lemma execute_claimed_total:
  assumes ex: "executing (task_ID task) s"
    and run: "\<And>s1. executing (task_ID task) s1 \<Longrightarrow>
      db_total (run task) (\<lambda>r s2. executing (task_ID task) s2 \<and> R r s2) s1"
  shows "db_total (execute_claimed marshal run task)
     (\<lambda>_ s'. \<exists>r s2. R r s2 \<and> settled (task_ID task)
        (final_status (task_ID task) s2 (snd (encode_result marshal r))) (encode_result marshal r) s') s"
proof -
  have work: "db_total (db_bind (run task) (\<lambda>result. settle task (encode_result marshal result)))
     (\<lambda>_ s'. \<exists>r s2. R r s2 \<and> settled (task_ID task)
        (final_status (task_ID task) s2 (snd (encode_result marshal r))) (encode_result marshal r) s') s1"
    if ex1: "executing (task_ID task) s1" for s1
  proof (rule db_total_bind, rule db_total_conseq [OF run [OF ex1]])
    fix r s2 assume "executing (task_ID task) s2 \<and> R r s2"
    then show "db_total (settle task (encode_result marshal r))
        (\<lambda>_ s'. \<exists>r s2. R r s2 \<and> settled (task_ID task)
          (final_status (task_ID task) s2 (snd (encode_result marshal r))) (encode_result marshal r) s') s2"
      by (intro db_total_conseq [OF settle_total]) blast+
  qed
  show ?thesis
    unfolding execute_claimed_def
    apply (rule db_total_bind, rule db_total_try, rule log_total [OF ex])
    apply (simp only: sum.case)
    apply (rule db_total_bind, rule db_total_if)
     apply (rule db_total_try, erule progress_total)
     apply (simp only: sum.case, erule work)
    apply (rule db_total_ret)
    by (simp only: sum.case, erule work)
qed

text \<open>The claimed task's mutex and registration are given back.\<close>

lemma holding_media_total:
  assumes "db_total body (\<lambda>x s'. Q x (s'\<lparr>sv_mediaMu := False\<rparr>)) (s\<lparr>sv_mediaMu := True\<rparr>)"
  shows "db_total (holding_media body) Q s"
  unfolding holding_media_def
  by (rule db_total_bind, rule db_total_upd, rule db_total_bind, rule db_total_try, rule db_total_conseq [OF assms],
      rule db_total_bind, rule db_total_upd) (simp add: db_total_ret)


definition idle_service :: "db \<Rightarrow> unit service" where
  "idle_service d = \<lparr>sv_db = d, sv_out = (), sv_clock = (\<lambda>n. 10), sv_uuids = (\<lambda>n. ''u''), sv_mediaMu = False,
     sv_running = [], sv_cancelled = [], sv_worker = True, sv_stopped = False, sv_submitted = [], sv_calls = [], sv_upload = ('''', '''', '''')\<rparr>"

lemma example_db_tasks:
  "async_tasks example_db = [example_task [CHR ''t'', CHR ''1''] ''quark_to_115_import'', example_task ''t2'' ''offline'']"
  by (simp add: example_db_def)


end
