(* ===== verification/DriveFacade.thy ===== *)
theory DriveFacade
  imports Service AccountStore TaskPayload
begin

text \<open>
  The provider boundary of \<open>internal/service/drive_provider.go\<close>: the interface \<open>DriveProvider\<close>, the
  choice of account and provider (with \<open>GetDefaultAccount\<close> and \<open>CheckAccounts\<close> of \<open>drive.go\<close>), the
  forwarding operations, the resolution of deletion targets, and the selection of share entries.

  An implementation of the interface is an arbitrary record of programs over the world outside,
  except for the part of \<open>Provider115\<close> that is in the same file. \<open>ToLower\<close> is \<open>strings.ToLower\<close>
  on names, which are Unicode; provider names are compared with ASCII words and folded as ASCII.
\<close>

section \<open>The interface\<close>

record ShareEntry =
  ent_ID :: string
  ent_ParentID :: string
  ent_Revision :: string
  ent_ShareToken :: string
  ent_Name :: string
  ent_Size :: int64
  ent_IsDir :: bool
  ent_Ancestors :: "string list"

record ShareSnapshot =
  snap_Title :: string
  snap_Entries :: "ShareEntry list"

record SavedShare =
  saved_Title :: string
  saved_RootIDs :: "string list"
  saved_Count :: int

record DriveCapabilities =
  cap_Browse :: bool
  cap_Search :: bool
  cap_Mkdir :: bool
  cap_Rename :: bool
  cap_Move :: bool
  cap_Delete :: bool
  cap_ShareSave :: bool
  cap_Download :: bool
  cap_Offline :: bool
  cap_GenerateLink :: bool

record 'o DriveProvider =
  pr_Capabilities :: DriveCapabilities
  pr_CheckAccount :: "DriveAccount \<Rightarrow> ('o, DriveAccount \<times> error option) dbm"
  pr_ListFiles :: "DriveAccount \<Rightarrow> string \<Rightarrow> int \<Rightarrow> int \<Rightarrow> ('o, DriveFile list \<times> int64) dbm"
  pr_SearchFiles :: "DriveAccount \<Rightarrow> string \<Rightarrow> int \<Rightarrow> int \<Rightarrow> ('o, DriveFile list \<times> int64) dbm"
  pr_Mkdir :: "DriveAccount \<Rightarrow> string \<Rightarrow> string \<Rightarrow> ('o, string) dbm"
  pr_Rename :: "DriveAccount \<Rightarrow> string \<Rightarrow> string \<Rightarrow> ('o, unit) dbm"
  pr_Move :: "DriveAccount \<Rightarrow> string list \<Rightarrow> string \<Rightarrow> ('o, unit) dbm"
  pr_Delete :: "DriveAccount \<Rightarrow> string list \<Rightarrow> ('o, unit) dbm"
  pr_SnapshotShare :: "DriveAccount \<Rightarrow> string \<Rightarrow> string \<Rightarrow> ('o, ShareSnapshot) dbm"
  pr_SnapshotShareTree :: "DriveAccount \<Rightarrow> string \<Rightarrow> string \<Rightarrow> ('o, ShareSnapshot) dbm"
  pr_SaveShare :: "DriveAccount \<Rightarrow> string \<Rightarrow> string \<Rightarrow> string \<Rightarrow> ('o, SavedShare) dbm"
  pr_SaveShareEntries :: "DriveAccount \<Rightarrow> string \<Rightarrow> string \<Rightarrow> string \<Rightarrow> string list \<Rightarrow> ('o, SavedShare) dbm"
  pr_SaveShareSelections ::
    "DriveAccount \<Rightarrow> string \<Rightarrow> string \<Rightarrow> string \<Rightarrow> ShareSelection list \<Rightarrow> ('o, SavedShare) dbm"

type_synonym 'o providers = "string \<Rightarrow> 'o DriveProvider option"

section \<open>Share selections\<close>

text \<open>The snapshot loop: identifiers are present and distinct.\<close>

fun check_entries :: "string list \<Rightarrow> ShareEntry list \<Rightarrow> error option" where
  "check_entries seen [] = None"
| "check_entries seen (e # es) =
     (if ent_ID e = '''' then Some (Errorf ''share snapshot contains an entry without an ID'' [])
      else if ent_ID e \<in> set seen
      then Some (Errorf ''share snapshot contains duplicate entry ID %q'' [quoted (ent_ID e)])
      else check_entries (ent_ID e # seen) es)"

text \<open>The loop over the selected identifiers; \<open>seenNames\<close> maps output names to identifiers.\<close>

fun pick_entries ::
  "(string \<Rightarrow> string) \<Rightarrow> ShareEntry list \<Rightarrow> string list \<Rightarrow> (string \<times> string) list \<Rightarrow> string list \<Rightarrow>
   error + ShareEntry list" where
  "pick_entries ToLower entries seenIDs seenNames [] = Inr []"
| "pick_entries ToLower entries seenIDs seenNames (i # ids) =
     (if TrimSpace i = '''' then Inl (Errorf ''share selection contains an empty ID'' [])
      else if i \<in> set seenIDs then Inl (Errorf ''share selection contains duplicate ID %q'' [quoted i])
      else case sql_find (\<lambda>e. ent_ID e = i) entries of
        None \<Rightarrow> Inl (Errorf ''share selection ID %q was not found in the fresh snapshot'' [quoted i])
      | Some e \<Rightarrow>
          if ent_IsDir e
          then Inl (Errorf ''share selection ID %q is a directory; select file leaves only'' [quoted i])
          else let nameKey = ToLower (TrimSpace (ent_Name e)) in
            if nameKey = '''' then Inl (Errorf ''share selection ID %q has no output name'' [quoted i])
            else case map_of seenNames nameKey of
              Some previous \<Rightarrow>
                Inl (Errorf ''share selection contains duplicate output name %q (IDs %s and %s)''
                       [quoted (ent_Name e), previous, i])
            | None \<Rightarrow> map_sum id ((#) e)
                (pick_entries ToLower entries (i # seenIDs) ((nameKey, i) # seenNames) ids))"

definition selectShareEntries ::
  "(string \<Rightarrow> string) \<Rightarrow> ShareEntry list \<Rightarrow> string list \<Rightarrow> error + ShareEntry list" where
  "selectShareEntries ToLower entries selectedIDs =
     (if selectedIDs = [] then Inl (Errorf ''share selection must contain at least one file'' [])
      else case check_entries [] entries of
        Some e \<Rightarrow> Inl e | None \<Rightarrow> pick_entries ToLower entries [] [] selectedIDs)"

definition identity_changed :: "ShareEntry \<Rightarrow> ShareSelection \<Rightarrow> bool" where
  "identity_changed entry expected \<longleftrightarrow>
     sel_Name expected = '''' \<or> sel_Revision expected = '''' \<or> ent_Name entry \<noteq> sel_Name expected \<or>
     ent_Size entry \<noteq> sel_Size expected \<or> ent_Revision entry \<noteq> sel_Revision expected"

definition selectShareSelections ::
  "(string \<Rightarrow> string) \<Rightarrow> ShareEntry list \<Rightarrow> ShareSelection list \<Rightarrow> error + ShareEntry list" where
  "selectShareSelections ToLower entries selections =
     (case selectShareEntries ToLower entries (map sel_ID selections) of
        Inl e \<Rightarrow> Inl e
      | Inr selected \<Rightarrow>
          (case find (\<lambda>(entry, expected). identity_changed entry expected) (zip selected selections) of
             Some (entry, expected) \<Rightarrow>
               Inl (Errorf ''share selection identity changed for %s'' [sel_ID expected])
           | None \<Rightarrow> Inr selected))"

text \<open>
  The saving operations of \<open>Provider115\<close> over its own share calls: \<open>entries\<close> (the top level of the
  share), \<open>tree\<close> (the whole share) and \<open>receive\<close>, which stay parameters.
\<close>

definition SaveShare115 ::
  "net_url \<Rightarrow> (string \<Rightarrow> string \<Rightarrow> ('o, string \<times> ShareEntry list) dbm) \<Rightarrow>
   (string \<Rightarrow> string \<Rightarrow> string list \<Rightarrow> string \<Rightarrow> string \<Rightarrow> ('o, int \<times> string) dbm) \<Rightarrow>
   string \<Rightarrow> string \<Rightarrow> string \<Rightarrow> ('o, SavedShare) dbm" where
  "SaveShare115 net entries receive rawURL password parent =
     (case ParseShareCode net rawURL password of
        Inl e \<Rightarrow> db_fail e
      | Inr (code, secret) \<Rightarrow>
          db_bind (entries code secret) (\<lambda>(title, es).
          if es = []
          then db_fail (Errorf (''115 '' @ utf8 [0x5206, 0x4EAB, 0x5185, 0x5BB9, 0x4E3A, 0x7A7A, 0x6216, 0x5DF2, 0x5931, 0x6548]) [])
          else let ids = map ent_ID es in
            db_bind (receive code secret ids parent title) (\<lambda>(count, title').
            db_ret \<lparr>saved_Title = title', saved_RootIDs = ids, saved_Count = count\<rparr>)))"

definition saveShareSelections115 ::
  "(string \<Rightarrow> string) \<Rightarrow> net_url \<Rightarrow> (string \<Rightarrow> string \<Rightarrow> ('o, string \<times> ShareEntry list) dbm) \<Rightarrow>
   (string \<Rightarrow> string \<Rightarrow> string list \<Rightarrow> string \<Rightarrow> string \<Rightarrow> ('o, int \<times> string) dbm) \<Rightarrow>
   string \<Rightarrow> string \<Rightarrow> string \<Rightarrow> ShareSelection list \<Rightarrow> bool \<Rightarrow> ('o, SavedShare) dbm" where
  "saveShareSelections115 ToLower net tree receive rawURL password parent selections exact =
     (case ParseShareCode net rawURL password of
        Inl e \<Rightarrow> db_fail e
      | Inr (code, secret) \<Rightarrow>
          db_bind (tree code secret) (\<lambda>(title, es).
          case (if exact then selectShareSelections ToLower es selections
                else selectShareEntries ToLower es (map sel_ID selections)) of
            Inl e \<Rightarrow> db_fail e
          | Inr selected \<Rightarrow> let ids = map ent_ID selected in
            db_bind (receive code secret ids parent title) (\<lambda>(count, title').
            db_ret \<lparr>saved_Title = title', saved_RootIDs = ids, saved_Count = count\<rparr>)))"

definition SaveShareEntries115 ::
  "(string \<Rightarrow> string) \<Rightarrow> net_url \<Rightarrow> (string \<Rightarrow> string \<Rightarrow> ('o, string \<times> ShareEntry list) dbm) \<Rightarrow>
   (string \<Rightarrow> string \<Rightarrow> string list \<Rightarrow> string \<Rightarrow> string \<Rightarrow> ('o, int \<times> string) dbm) \<Rightarrow>
   string \<Rightarrow> string \<Rightarrow> string \<Rightarrow> string list \<Rightarrow> ('o, SavedShare) dbm" where
  "SaveShareEntries115 ToLower net tree receive rawURL password parent ids =
     saveShareSelections115 ToLower net tree receive rawURL password parent
       (map (\<lambda>i. zero_selection\<lparr>sel_ID := i\<rparr>) ids) False"

definition SaveShareSelections115 ::
  "(string \<Rightarrow> string) \<Rightarrow> net_url \<Rightarrow> (string \<Rightarrow> string \<Rightarrow> ('o, string \<times> ShareEntry list) dbm) \<Rightarrow>
   (string \<Rightarrow> string \<Rightarrow> string list \<Rightarrow> string \<Rightarrow> string \<Rightarrow> ('o, int \<times> string) dbm) \<Rightarrow>
   string \<Rightarrow> string \<Rightarrow> string \<Rightarrow> ShareSelection list \<Rightarrow> ('o, SavedShare) dbm" where
  "SaveShareSelections115 ToLower net tree receive rawURL password parent selections =
     saveShareSelections115 ToLower net tree receive rawURL password parent selections True"

section \<open>Accounts and providers\<close>

definition normalizeProvider :: "string \<Rightarrow> error + string" where
  "normalizeProvider name =
     (let p = map ascii_lower (TrimSpace name) in
      if p = ''115'' \<or> p = ''quark'' then Inr p else Inl (Errorf ''provider must be 115 or quark'' []))"

definition provider :: "'o providers \<Rightarrow> string \<Rightarrow> error + 'o DriveProvider" where
  "provider providers name0 =
     (case normalizeProvider name0 of
        Inl e \<Rightarrow> Inl e
      | Inr name \<Rightarrow>
          (case providers name of
             None \<Rightarrow> Inl (Errorf ''drive provider %s is unavailable'' [name]) | Some p \<Rightarrow> Inr p))"

text \<open>The four passes over the accounts.\<close>

definition choose_account :: "string \<Rightarrow> DriveAccount list \<Rightarrow> DriveAccount option" where
  "choose_account name accounts =
     (let own = filter (\<lambda>a. acc_Type a = name) accounts;
          pick = (\<lambda>p. sql_find p own) in
      case pick (\<lambda>a. acc_IsDefault a \<and> acc_Status a = ''active'') of Some a \<Rightarrow> Some a
    | None \<Rightarrow> (case pick (\<lambda>a. acc_Status a = ''active'') of Some a \<Rightarrow> Some a
    | None \<Rightarrow> (case pick acc_IsDefault of Some a \<Rightarrow> Some a
    | None \<Rightarrow> pick (\<lambda>_. True))))"

definition fallback_account :: "string \<Rightarrow> gotime \<Rightarrow> DriveAccount" where
  "fallback_account cookie now =
     \<lparr>acc_ID = ''default'', acc_Type = ''115'', acc_Name = default_account_name, acc_Cookie = cookie,
      acc_Token = '''', acc_IsDefault = True, acc_Status = ''active'', acc_QuotaUsed = 0,
      acc_QuotaTotal = 0, acc_VIPLevel = 0, acc_VIPExpiresAt = None, acc_CreatedAt = now, acc_UpdatedAt = now\<rparr>"

definition GetDefaultAccount :: "string \<Rightarrow> gotime \<Rightarrow> gotime \<Rightarrow> DriveAccount dbop" where
  "GetDefaultAccount providerName now now' =
     (case normalizeProvider providerName of
        Inl e \<Rightarrow> db_fail e
      | Inr name \<Rightarrow>
          db_bind ListAccounts (\<lambda>accounts.
          case choose_account name accounts of
            Some a \<Rightarrow> db_ret a
          | None \<Rightarrow>
              let none = db_fail (Errorf ''no %s drive accounts configured'' [name]) in
              if name = ''115'' \<and> \<not> list_ex (\<lambda>a. acc_Type a = name) accounts
              then db_bind (db_try (GetSetting ''115_cookie'')) (\<lambda>r.
                let cookie = (case r of Inr c \<Rightarrow> c | Inl _ \<Rightarrow> '''') in
                if cookie \<noteq> '''' then SaveAccount (fallback_account cookie now) now' else none)
              else none))"

definition getAccountForProvider :: "string \<Rightarrow> string \<Rightarrow> gotime \<Rightarrow> gotime \<Rightarrow> DriveAccount dbop" where
  "getAccountForProvider providerName account_id now now' =
     (case normalizeProvider providerName of
        Inl e \<Rightarrow> db_fail e
      | Inr name \<Rightarrow>
          if account_id = '''' then GetDefaultAccount name now now'
          else db_bind ListAccounts (\<lambda>accounts.
            case sql_find (\<lambda>a. acc_ID a = account_id) accounts of
              None \<Rightarrow> db_fail (Errorf ''%s account %s was not found'' [name, account_id])
            | Some a \<Rightarrow>
                if acc_Type a \<noteq> name
                then db_fail (Errorf ''account %s belongs to provider %s, not %s''
                       [account_id, acc_Type a, name])
                else db_ret a))"

definition check_and_save :: "'o DriveProvider \<Rightarrow> DriveAccount \<Rightarrow> ('o service, DriveAccount) dbm" where
  "check_and_save adapter account =
     db_bind (db_try (on_out (pr_CheckAccount adapter account))) (\<lambda>r.
     let checked = (case r of
           Inl _ \<Rightarrow> if acc_Status account \<noteq> ''expired'' then account\<lparr>acc_Status := ''error''\<rparr> else account
         | Inr (a, Some _) \<Rightarrow> if acc_Status a \<noteq> ''expired'' then a\<lparr>acc_Status := ''error''\<rparr> else a
         | Inr (a, None) \<Rightarrow> a\<lparr>acc_Status := ''active''\<rparr>) in
     at_now (SaveAccount checked))"

fun check_each :: "'o DriveProvider \<Rightarrow> DriveAccount list \<Rightarrow> ('o service, DriveAccount list) dbm" where
  "check_each adapter [] = db_ret []"
| "check_each adapter (a # as) =
     db_bind (check_and_save adapter a) (\<lambda>b. db_bind (check_each adapter as) (\<lambda>bs. db_ret (b # bs)))"

definition CheckAccounts :: "'o providers \<Rightarrow> string \<Rightarrow> ('o service, DriveAccount list) dbm" where
  "CheckAccounts providers providerName =
     (case normalizeProvider providerName of
        Inl e \<Rightarrow> db_fail e
      | Inr name \<Rightarrow>
          db_bind (on_db ListAccounts) (\<lambda>accounts.
          let own = filter (\<lambda>a. acc_Type a = name) accounts in
          db_bind (if own = [] \<and> name = ''115''
                   then db_bind (db_try (on_db (GetSetting ''115_cookie''))) (\<lambda>r.
                     if (case r of Inr c \<Rightarrow> c \<noteq> '''' | Inl _ \<Rightarrow> False)
                     then db_bind time_Now (\<lambda>now. db_bind (at_now (GetDefaultAccount ''115'' now)) (\<lambda>a. db_ret [a]))
                     else db_ret [])
                   else db_ret own) (\<lambda>filtered.
          case provider providers name of
            Inl e \<Rightarrow> db_fail e
          | Inr adapter \<Rightarrow> check_each adapter filtered)))"

section \<open>Forwarding\<close>

definition account_for :: "string \<Rightarrow> string \<Rightarrow> ('o service, DriveAccount) dbm" where
  "account_for name account_id =
     db_bind time_Now (\<lambda>now. at_now (getAccountForProvider name account_id now))"

definition via ::
  "'o providers \<Rightarrow> string \<Rightarrow> string \<Rightarrow> ('o DriveProvider \<Rightarrow> DriveAccount \<Rightarrow> ('o, 'a) dbm) \<Rightarrow> ('o service, 'a) dbm" where
  "via providers name account_id call =
     db_bind (account_for name account_id) (\<lambda>account.
     case provider providers name of Inl e \<Rightarrow> db_fail e | Inr p \<Rightarrow> on_out (call p account))"

definition ProviderCapabilities :: "'o providers \<Rightarrow> string \<Rightarrow> error + DriveCapabilities" where
  "ProviderCapabilities providers name = map_sum id pr_Capabilities (provider providers name)"

definition ListProviderFiles ::
  "'o providers \<Rightarrow> string \<Rightarrow> string \<Rightarrow> string \<Rightarrow> int \<Rightarrow> int \<Rightarrow> ('o service, DriveFile list \<times> int64) dbm" where
  "ListProviderFiles providers name account_id parent offset limit =
     via providers name account_id (\<lambda>p account. pr_ListFiles p account parent offset limit)"

definition SearchProviderFiles ::
  "'o providers \<Rightarrow> string \<Rightarrow> string \<Rightarrow> string \<Rightarrow> int \<Rightarrow> int \<Rightarrow> ('o service, DriveFile list \<times> int64) dbm" where
  "SearchProviderFiles providers name account_id query offset limit =
     via providers name account_id (\<lambda>p account. pr_SearchFiles p account query offset limit)"

definition MkdirProvider ::
  "'o providers \<Rightarrow> string \<Rightarrow> string \<Rightarrow> string \<Rightarrow> string \<Rightarrow> ('o service, string) dbm" where
  "MkdirProvider providers name account_id parent dir =
     via providers name account_id (\<lambda>p account. pr_Mkdir p account parent dir)"

definition RenameProvider ::
  "'o providers \<Rightarrow> string \<Rightarrow> string \<Rightarrow> string \<Rightarrow> string \<Rightarrow> ('o service, unit) dbm" where
  "RenameProvider providers name account_id file newName =
     via providers name account_id (\<lambda>p account. pr_Rename p account file newName)"

definition MoveProvider ::
  "'o providers \<Rightarrow> string \<Rightarrow> string \<Rightarrow> string list \<Rightarrow> string \<Rightarrow> ('o service, unit) dbm" where
  "MoveProvider providers name account_id ids parent =
     via providers name account_id (\<lambda>p account. pr_Move p account ids parent)"

definition DeleteProvider ::
  "'o providers \<Rightarrow> string \<Rightarrow> string \<Rightarrow> string list \<Rightarrow> ('o service, unit) dbm" where
  "DeleteProvider providers name account_id ids =
     via providers name account_id (\<lambda>p account. pr_Delete p account ids)"

definition SnapshotProviderShare ::
  "'o providers \<Rightarrow> string \<Rightarrow> string \<Rightarrow> string \<Rightarrow> string \<Rightarrow> ('o service, ShareSnapshot) dbm" where
  "SnapshotProviderShare providers name account_id rawURL password =
     via providers name account_id (\<lambda>p account. pr_SnapshotShare p account rawURL password)"

definition SnapshotProviderShareTree ::
  "'o providers \<Rightarrow> string \<Rightarrow> string \<Rightarrow> string \<Rightarrow> string \<Rightarrow> ('o service, ShareSnapshot) dbm" where
  "SnapshotProviderShareTree providers name account_id rawURL password =
     via providers name account_id (\<lambda>p account. pr_SnapshotShareTree p account rawURL password)"

text \<open>The three calls that submit a share are recorded.\<close>

definition submitting :: "string \<Rightarrow> ('o service, 'a) dbm \<Rightarrow> ('o service, 'a) dbm" where
  "submitting rawURL m = db_bind (db_upd (\<lambda>s. s\<lparr>sv_submitted := sv_submitted s @ [rawURL]\<rparr>)) (\<lambda>_. m)"

definition SaveProviderShare ::
  "'o providers \<Rightarrow> string \<Rightarrow> string \<Rightarrow> string \<Rightarrow> string \<Rightarrow> string \<Rightarrow> ('o service, SavedShare) dbm" where
  "SaveProviderShare providers name account_id rawURL password parent =
     submitting rawURL (via providers name account_id (\<lambda>p account. pr_SaveShare p account rawURL password parent))"

definition SaveProviderShareEntries ::
  "'o providers \<Rightarrow> string \<Rightarrow> string \<Rightarrow> string \<Rightarrow> string \<Rightarrow> string \<Rightarrow> string list \<Rightarrow> ('o service, SavedShare) dbm" where
  "SaveProviderShareEntries providers name account_id rawURL password parent ids =
     submitting rawURL (via providers name account_id
       (\<lambda>p account. pr_SaveShareEntries p account rawURL password parent ids))"

definition SaveProviderShareSelections ::
  "'o providers \<Rightarrow> string \<Rightarrow> string \<Rightarrow> string \<Rightarrow> string \<Rightarrow> string \<Rightarrow> ShareSelection list \<Rightarrow>
   ('o service, SavedShare) dbm" where
  "SaveProviderShareSelections providers name account_id rawURL password parent selections =
     submitting rawURL (via providers name account_id
       (\<lambda>p account. pr_SaveShareSelections p account rawURL password parent selections))"

end
