(* ===== verification/ProviderListing.thy ===== *)
theory ProviderListing
  imports DriveFacade GoPath CrossDriveStore
begin

text \<open>
  What the program reads of a provider's directories: the paged listing (\<open>listAllProviderFiles\<close>), the
  resolution of a path with its missing folders (\<open>resolveRelativeDestination\<close>), the targets of a
  deletion (\<open>ResolveProviderDeleteTargets\<close>) and the discovery of a saved share
  (\<open>discoverQuarkImport\<close>). Sources: \<open>internal/service/cross_drive_import.go\<close>, \<open>drive_provider.go\<close>.
\<close>

section \<open>Paged listings\<close>

definition quarkMaxEntries :: int where
  "quarkMaxEntries = 10000"

definition quarkMaxDepth :: nat where
  "quarkMaxDepth = 20"

text \<open>Appending the files of a page whose identifiers are new.\<close>

fun add_new :: "DriveFile list \<Rightarrow> DriveFile list \<Rightarrow> DriveFile list" where
  "add_new found [] = found"
| "add_new found (f # fs) =
     add_new (if file_FileID f \<in> file_FileID ` set found then found else found @ [f]) fs"

text \<open>The loop over the offsets 0, 200, \dots below \<open>quarkMaxEntries\<close>.\<close>

function list_from ::
  "'o providers \<Rightarrow> string \<Rightarrow> string \<Rightarrow> string \<Rightarrow> int \<Rightarrow> DriveFile list \<Rightarrow> ('o service, DriveFile list) dbm" where
  "list_from providers name account_id parent offset found =
     (if offset < quarkMaxEntries
      then db_bind (ListProviderFiles providers name account_id parent offset 200) (\<lambda>(files, total).
        let found' = add_new found files in
        if length found' = length found \<and> files \<noteq> []
        then db_fail (Errorf ''%s listing made no progress'' [name])
        else if files = [] \<or> offset + int (length files) \<ge> total then db_ret found'
        else list_from providers name account_id parent (offset + 200) found')
      else db_fail (Errorf ''%s directory exceeds %d entries'' [name, show_int quarkMaxEntries]))"
  by pat_completeness auto
termination
  by (relation "measure (\<lambda>(providers, name, account_id, parent, offset, found). nat (quarkMaxEntries - offset))")
    auto

declare list_from.simps [simp del]

definition listAllProviderFiles ::
  "'o providers \<Rightarrow> string \<Rightarrow> string \<Rightarrow> string \<Rightarrow> ('o service, DriveFile list) dbm" where
  "listAllProviderFiles providers name account_id parent = list_from providers name account_id parent 0 []"

section \<open>Destinations\<close>

definition stagingName :: string where
  "stagingName = CHR ''_'' # utf8 [0x5F85, 0x6574, 0x7406]"

text \<open>The first file of a name, as the loop with its break finds it.\<close>

definition named :: "string \<Rightarrow> DriveFile list \<Rightarrow> DriveFile option" where
  "named segment files = sql_find (\<lambda>f. file_Name f = segment) files"

definition create_folder ::
  "'o providers \<Rightarrow> string \<Rightarrow> string \<Rightarrow> string \<Rightarrow> ('o service, string) dbm" where
  "create_folder providers account_id current segment =
     db_bind (MkdirProvider providers ''115'' account_id current segment) (\<lambda>created.
     db_bind (listAllProviderFiles providers ''115'' account_id current) (\<lambda>files.
     if list_ex (\<lambda>f. file_FileID f = created \<and> file_Name f = segment \<and> file_IsFolder f \<and>
          file_ParentID f = current) files \<and> created \<noteq> ''''
     then db_ret created
     else db_fail (Errorf ''115 mkdir result for %s could not be verified in parent %s'' [segment, current])))"

fun resolve_segments ::
  "'o providers \<Rightarrow> string \<Rightarrow> string \<Rightarrow> string list \<Rightarrow> ('o service, string) dbm" where
  "resolve_segments providers account_id current [] = db_ret current"
| "resolve_segments providers account_id current (segment # rest) =
     (if segment = '''' \<or> segment = ''.'' then resolve_segments providers account_id current rest
      else if segment = ''..'' \<or> CHR 0x00 \<in> set segment \<or> CHR ''/'' \<in> set segment
      then db_fail (Errorf ''invalid destination path segment'' [])
      else db_bind (listAllProviderFiles providers ''115'' account_id current) (\<lambda>files.
        db_bind
          (case named segment files of
             Some f \<Rightarrow>
               if \<not> file_IsFolder f
               then db_fail (Errorf ''115 destination path conflicts with file %s'' [segment])
               else if file_FileID f = '''' then create_folder providers account_id current segment
               else db_ret (file_FileID f)
           | None \<Rightarrow> create_folder providers account_id current segment) (\<lambda>next'.
        resolve_segments providers account_id next' rest)))"

definition resolveRelativeDestination ::
  "'o providers \<Rightarrow> string \<Rightarrow> string \<Rightarrow> string \<Rightarrow> ('o service, string) dbm" where
  "resolveRelativeDestination providers account_id base relative =
     (if relative = ''.'' \<or> relative = '''' then db_ret base
      else resolve_segments providers account_id base (split_slash relative))"

definition resolveImportDestination :: "'o providers \<Rightarrow> string \<Rightarrow> ('o service, string) dbm" where
  "resolveImportDestination providers account_id =
     resolveRelativeDestination providers account_id ''0'' (JoinPath [''emby'', stagingName])"

section \<open>Deletion targets\<close>

text \<open>The trimmed identifiers, distinct and not empty.\<close>

fun wanted_ids :: "string list \<Rightarrow> string list \<Rightarrow> error + string list" where
  "wanted_ids seen [] = Inr []"
| "wanted_ids seen (i # ids) =
     (let w = TrimSpace i in
      if w = '''' then Inl (Errorf ''file_ids must contain non-empty values'' [])
      else if w \<in> set seen then Inl (Errorf ''file_ids must not contain duplicates'' [])
      else map_sum id ((#) w) (wanted_ids (w # seen) ids))"

definition target_of :: "DriveFile \<Rightarrow> DestructiveTarget" where
  "target_of f = \<lparr>tgt_FileID = file_FileID f, tgt_Name = file_Name f, tgt_IsFolder = file_IsFolder f,
                 tgt_Size = file_Size f\<rparr>"

fun add_targets ::
  "string list \<Rightarrow> DriveFile list \<Rightarrow> (string \<times> DestructiveTarget) list \<Rightarrow> (string \<times> DestructiveTarget) list" where
  "add_targets wanted [] found = found"
| "add_targets wanted (f # fs) found =
     add_targets wanted fs
       (if file_FileID f \<in> set wanted then AList.update (file_FileID f) (target_of f) found else found)"

function targets_from ::
  "'o providers \<Rightarrow> string \<Rightarrow> string \<Rightarrow> string \<Rightarrow> string list \<Rightarrow> int \<Rightarrow> (string \<times> DestructiveTarget) list \<Rightarrow>
   ('o service, (string \<times> DestructiveTarget) list) dbm" where
  "targets_from providers name account_id parent wanted offset found =
     (if offset < quarkMaxEntries \<and> length found < length wanted
      then db_bind (ListProviderFiles providers name account_id parent offset 200) (\<lambda>(files, total).
        let found' = add_targets wanted files found in
        if files = [] \<or> offset + int (length files) \<ge> total then db_ret found'
        else targets_from providers name account_id parent wanted (offset + 200) found')
      else db_ret found)"
  by pat_completeness auto
termination
  by (relation "measure (\<lambda>(providers, name, account_id, parent, wanted, offset, found).
        nat (quarkMaxEntries - offset))") auto

declare targets_from.simps [simp del]

fun collect_targets ::
  "string \<Rightarrow> string \<Rightarrow> (string \<times> DestructiveTarget) list \<Rightarrow> string list \<Rightarrow> error + DestructiveTarget list" where
  "collect_targets name parent found [] = Inr []"
| "collect_targets name parent found (i # ids) =
     (case map_of found (TrimSpace i) of
        None \<Rightarrow> Inl (Errorf ''%s object %s was not found in parent %s'' [name, i, parent])
      | Some t \<Rightarrow> map_sum id ((#) t) (collect_targets name parent found ids))"

definition ResolveProviderDeleteTargets ::
  "'o providers \<Rightarrow> string \<Rightarrow> string \<Rightarrow> string \<Rightarrow> string list \<Rightarrow>
   ('o service, string \<times> DestructiveTarget list) dbm" where
  "ResolveProviderDeleteTargets providers name account_id parent0 fileIDs =
     (if fileIDs = [] \<or> length fileIDs > 100
      then db_fail (Errorf ''file_ids must contain 1 to 100 values'' [])
      else db_bind (account_for name account_id) (\<lambda>account.
        let parent = (if parent0 = '''' then ''0'' else parent0) in
        case wanted_ids [] fileIDs of
          Inl e \<Rightarrow> db_fail e
        | Inr wanted \<Rightarrow>
            db_bind (targets_from providers name (acc_ID account) parent wanted 0 []) (\<lambda>found.
            case collect_targets name parent found fileIDs of
              Inl e \<Rightarrow> db_fail e | Inr targets \<Rightarrow> db_ret (acc_ID account, targets))))"
section \<open>Discovery of a saved share\<close>

text \<open>
  The variables \<open>walk\<close> captures. The maps the code ranges over at the end are taken in the order of their
  insertion.
\<close>

record tree =
  tr_visited :: "string list"
  tr_entries :: int
  tr_discovered :: "(string \<times> CrossDriveItem) list"

definition file_key :: "DriveFile \<Rightarrow> string" where
  "file_key f = file_Name f @ CHR 0x00 # show_int (file_Size f)"

definition discovered_item :: "DriveFile \<Rightarrow> string \<Rightarrow> CrossDriveItem" where
  "discovered_item f relative =
     \<lparr>item_ID = 0, item_TaskID = '''', item_SourceFileID = file_FileID f, item_SourceRevision = file_Revision f,
      item_RelativePath = relative, item_Name = file_Name f, item_Size = file_Size f, item_SHA1 = file_Sha1 f,
      item_PreSHA1 = '''', item_State = '''', item_SpoolPath = '''', item_DownloadedBytes = 0,
      item_DestinationParent = '''', item_DestinationID = '''', item_UploadID = '''', item_UploadBucket = '''',
      item_UploadObject = '''', item_Error = '''', item_UpdatedAt = 0\<rparr>"

definition found_leaf :: "string list \<Rightarrow> bool \<Rightarrow> DriveFile \<Rightarrow> string \<Rightarrow> tree \<Rightarrow> error + tree" where
  "found_leaf wanted importAll f relative t =
     (if importAll
      then Inr (t\<lparr>tr_discovered := AList.update (file_FileID f) (discovered_item f relative) (tr_discovered t)\<rparr>)
      else if file_key f \<notin> set wanted
      then Inl (Errorf ''selected source manifest contains an unexpected saved file %s'' [file_Name f])
      else if map_of (tr_discovered t) (file_key f) \<noteq> None
      then Inl (Errorf ''selected source manifest contains duplicate saved file %s'' [file_Name f])
      else Inr (t\<lparr>tr_discovered := AList.update (file_key f) (discovered_item f relative) (tr_discovered t)\<rparr>))"

text \<open>The entry of one object: depth is checked by the caller's levels.\<close>

definition visit :: "DriveFile \<Rightarrow> tree \<Rightarrow> error + tree" where
  "visit f t =
     (if file_FileID f \<in> set (tr_visited t)
      then Inl (Errorf ''Quark saved tree repeats object %s'' [file_FileID f])
      else let t' = t\<lparr>tr_visited := file_FileID f # tr_visited t, tr_entries := tr_entries t + 1\<rparr> in
        if tr_entries t' > quarkMaxEntries
        then Inl (Errorf ''Quark saved share exceeds %d entries'' [show_int quarkMaxEntries])
        else Inr t')"

fun walk_all ::
  "(DriveFile \<Rightarrow> string \<Rightarrow> tree \<Rightarrow> ('o service, tree) dbm) \<Rightarrow> string \<Rightarrow> DriveFile list \<Rightarrow> tree \<Rightarrow>
   ('o service, tree) dbm" where
  "walk_all step relative [] t = db_ret t"
| "walk_all step relative (child # children) t =
     db_bind (step child (JoinPath [relative, file_Name child]) t) (\<lambda>t'. walk_all step relative children t')"

text \<open>\<open>levels\<close> is \<open>quarkMaxDepth + 1 - depth\<close>.\<close>

primrec walk ::
  "'o providers \<Rightarrow> string \<Rightarrow> string list \<Rightarrow> bool \<Rightarrow> nat \<Rightarrow> DriveFile \<Rightarrow> string \<Rightarrow> tree \<Rightarrow>
   ('o service, tree) dbm" where
  "walk providers account_id wanted importAll 0 = (\<lambda>f relative t.
     db_fail (Errorf ''Quark saved share exceeds %d directory levels'' [show_nat quarkMaxDepth]))"
| "walk providers account_id wanted importAll (Suc levels) = (\<lambda>f relative t.
     case visit f t of
       Inl e \<Rightarrow> db_fail e
     | Inr t' \<Rightarrow>
         if \<not> file_IsFolder f
         then (case found_leaf wanted importAll f relative t' of Inl e \<Rightarrow> db_fail e | Inr t'' \<Rightarrow> db_ret t'')
         else db_bind (listAllProviderFiles providers ''quark'' account_id (file_FileID f)) (\<lambda>children.
           walk_all (walk providers account_id wanted importAll levels) relative children t'))"

text \<open>The loop over the roots; \<open>found\<close> counts the wanted ones.\<close>

fun walk_roots ::
  "(DriveFile \<Rightarrow> string \<Rightarrow> tree \<Rightarrow> ('o service, tree) dbm) \<Rightarrow> string list \<Rightarrow> DriveFile list \<Rightarrow> nat \<Rightarrow> tree \<Rightarrow>
   ('o service, nat \<times> tree) dbm" where
  "walk_roots step rootIDs [] found t = db_ret (found, t)"
| "walk_roots step rootIDs (r # roots) found t =
     (if file_FileID r \<in> set rootIDs
      then db_bind (step r (file_Name r) t) (\<lambda>t'. walk_roots step rootIDs roots (Suc found) t')
      else walk_roots step rootIDs roots found t)"

definition missing_selection :: "ShareSelection list \<Rightarrow> tree \<Rightarrow> error option" where
  "missing_selection selections t =
     (if length (tr_discovered t) \<noteq> length (remdups (map nameKey selections))
      then Some (Errorf ''selected source manifest is missing saved files'' [])
      else case find (\<lambda>s. map_of (tr_discovered t) (nameKey s) = None) selections of
        Some s \<Rightarrow> Some (Errorf ''selected source manifest is missing saved file %s'' [sel_Name s])
      | None \<Rightarrow> None)"

text \<open>What is found below the saved roots, before anything is stored.\<close>

definition discover_tree ::
  "'o providers \<Rightarrow> string \<Rightarrow> string \<Rightarrow> string list \<Rightarrow> ShareSelection list \<Rightarrow> bool \<Rightarrow>
   ('o service, CrossDriveItem list) dbm" where
  "discover_tree providers account_id targetID rootIDs selections importAll =
     db_bind (listAllProviderFiles providers ''quark'' account_id targetID) (\<lambda>roots.
     db_bind (walk_roots (walk providers account_id (map nameKey selections) importAll (Suc quarkMaxDepth))
                rootIDs roots 0 \<lparr>tr_visited = [], tr_entries = 0, tr_discovered = []\<rparr>) (\<lambda>(found, t).
     if found \<noteq> length (remdups rootIDs)
     then db_fail (Errorf ''Quark saved roots are not all visible in target directory'' [])
     else case (if importAll then None else missing_selection selections t) of
       Some e \<Rightarrow> db_fail e
     | None \<Rightarrow> db_ret (map snd (tr_discovered t))))"

definition discoverQuarkImport ::
  "'o providers \<Rightarrow> string \<Rightarrow> string \<Rightarrow> string \<Rightarrow> string \<Rightarrow> string list \<Rightarrow> ShareSelection list \<Rightarrow> bool \<Rightarrow>
   ('o service, unit) dbm" where
  "discoverQuarkImport providers taskID owner account_id targetID rootIDs selections importAll =
     db_bind (discover_tree providers account_id targetID rootIDs selections importAll) (\<lambda>items.
     db_foreach (\<lambda>item. at_now (UpsertCrossDriveItem taskID owner item)) items)"

end
