(* ===== verification/ProviderInventory.thy ===== *)
theory ProviderInventory
  imports ProviderListing
begin

text \<open>
  What the listings and the discovery of ProviderListing guarantee: provider calls leave the tables alone
  (\<open>drive_only\<close>), a paged listing is the inventory of the directory, and a discovery stores exactly the
  selected files, each found below a saved root (\<open>found_below\<close>).
\<close>

section \<open>Provider calls leave the tables alone\<close>

text \<open>
  Of the database a provider call can change the accounts only: the account that is created from the stored
  cookie. It submits nothing.
\<close>

definition drive_only :: "'o service \<Rightarrow> 'o service \<Rightarrow> bool" where
  "drive_only s s' \<longleftrightarrow> (\<exists>rows. sv_db s' = (sv_db s)\<lparr>drive_accounts := rows\<rparr>) \<and>
     sv_submitted s' = sv_submitted s \<and> sv_mediaMu s' = sv_mediaMu s \<and> sv_running s' = sv_running s \<and>
     sv_cancelled s' = sv_cancelled s \<and> sv_stopped s' = sv_stopped s \<and> sv_uuids s' = sv_uuids s"

definition accounts_only :: "db \<Rightarrow> db \<Rightarrow> bool" where
  "accounts_only d d' \<longleftrightarrow> (\<exists>rows. d' = d\<lparr>drive_accounts := rows\<rparr>)"

lemma accounts_only_refl: "accounts_only d d"
  unfolding accounts_only_def by (rule exI [of _ "drive_accounts d"]) simp

interpretation accounts: evolution accounts_only
  by unfold_locales (auto simp: accounts_only_refl, auto simp: accounts_only_def)

lemma drive_only_refl: "drive_only s s"
  using accounts_only_refl by (simp add: drive_only_def accounts_only_def)

interpretation drive: evolution drive_only
  by unfold_locales (auto simp: drive_only_refl, auto simp: drive_only_def)

lemma write_accounts_only: "db_within accounts_only (write_accounts f)"
  unfolding write_accounts_def
  by (rule accounts.within_stmt) (auto simp: accounts_only_def Let_def split: if_splits)

lemma getAccountForProvider_only: "db_within accounts_only (getAccountForProvider name account_id now now')"
  unfolding getAccountForProvider_def GetDefaultAccount_def SaveAccount_def ListAccounts_def GetSetting_def Let_def
  by (intro within_rules write_accounts_only)

lemma on_db_only: "db_within accounts_only m \<Longrightarrow> db_within drive_only (on_db m)"
  unfolding db_within_def on_db_def
  by (auto simp: drive_only_def accounts_only_def split: prod.split) (metis snd_conv)

lemma on_out_only: "db_within drive_only (on_out m)"
  using drive_only_refl by (auto simp: db_within_def on_out_def drive_only_def accounts_only_def split: prod.split)

lemma time_Now_only: "db_within drive_only time_Now"
  using drive_only_refl by (auto simp: db_within_def time_Now_def drive_only_def accounts_only_def)

lemma via_only: "db_within drive_only (via providers name account_id call)"
  unfolding via_def account_for_def at_now_def
  by (intro within_rules on_db_only getAccountForProvider_only on_out_only time_Now_only)

lemma list_from_only: "db_within drive_only (list_from providers name account_id parent offset found)"
proof (induction providers name account_id parent offset found rule: list_from.induct)
  case (1 providers name account_id parent offset found)
  show ?case
    unfolding list_from.simps [of _ _ _ _ offset] ListProviderFiles_def Let_def
    by (intro within_rules via_only) (use 1 in auto)
qed

lemma listAllProviderFiles_only [within_rules]:
  "db_within drive_only (listAllProviderFiles providers name account_id parent)"
  unfolding listAllProviderFiles_def by (rule list_from_only)

lemma resolveRelativeDestination_only [within_rules]:
  "db_within drive_only (resolveRelativeDestination providers account_id base relative)"
proof -
  have "db_within drive_only (resolve_segments providers account_id current segments)" for current segments
    by (induction segments arbitrary: current)
      (auto simp: create_folder_def MkdirProvider_def intro!: within_rules via_only)
  then show ?thesis by (auto simp: resolveRelativeDestination_def intro: drive.within_ret)
qed

lemma walk_only: "db_within drive_only (walk providers account_id wanted importAll levels f relative t)"
proof (induction levels arbitrary: f relative t)
  case (Suc levels f relative t)
  have all: "db_within drive_only (walk_all (walk providers account_id wanted importAll levels) relative children t)"
    for relative children t
    by (induction children arbitrary: t) (auto intro!: within_rules Suc)
  show ?case
    unfolding walk.simps by (intro within_rules all)
qed (auto intro: drive.within_fail)

lemma discover_tree_only:
  "db_within drive_only (discover_tree providers account_id targetID rootIDs selections importAll)"
proof -
  have "db_within drive_only (walk_roots (walk providers account_id wanted importAll levels) rootIDs roots found t)"
    for wanted levels roots found t
    by (induction roots arbitrary: found t) (auto intro!: within_rules walk_only)
  then show ?thesis unfolding discover_tree_def by (intro within_rules)
qed


section \<open>A listing is complete\<close>

text \<open>
  The contract of a directory at rest, for the pages the listing asks for: 200 entries from a multiple of 200
  on. Whatever worlds \<open>W\<close> the calls pass through, page \<open>k\<close> is that slice of the inventory with the
  length of the inventory as the total. A provider that counts in pages or clamps larger pages (Quark to 200 entries,
  115 to 1000) meets it. The account is one the database holds.
\<close>

definition serves ::
  "'o DriveProvider \<Rightarrow> DriveAccount \<Rightarrow> string \<Rightarrow> DriveFile list \<Rightarrow> ('o \<Rightarrow> bool) \<Rightarrow> bool" where
  "serves p account parent inventory W \<longleftrightarrow>
     (\<forall>w k. W w \<longrightarrow> (\<exists>w'. W w' \<and> pr_ListFiles p account parent (200 * int k) 200 [] w =
          (Inr (take 200 (drop (200 * k) inventory), int (length inventory)), [], w')))"

definition has_account :: "string \<Rightarrow> string \<Rightarrow> DriveAccount \<Rightarrow> db \<Rightarrow> bool" where
  "has_account name account_id account d \<longleftrightarrow>
     account_id \<noteq> '''' \<and> sql_find (\<lambda>a. acc_ID a = account_id) (order_accounts (drive_accounts d)) = Some account \<and>
     normalizeProvider name = Inr (acc_Type account)"

definition later :: "nat \<Rightarrow> 'o service \<Rightarrow> 'o service" where
  "later n s = s\<lparr>sv_clock := (\<lambda>k. sv_clock s (k + n))\<rparr>"

lemma later_simps [simp]:
  "later 0 s = s" "later m (later n s) = later (n + m) s" "sv_db (later n s) = sv_db s"
  "sv_out (later n s) = sv_out s"
  by (simp_all add: later_def ac_simps)

lemma account_for_stored:
  assumes "has_account name account_id account (sv_db s)"
  shows "account_for name account_id [] s = (Inr account, [], later 2 s)"
  using assms unfolding has_account_def
  by (simp add: account_for_def at_now_def on_db_def time_Now_def getAccountForProvider_def ListAccounts_def
      db_unfold later_def)

lemma ListProviderFiles_serves:
  assumes "has_account name account_id account (sv_db s)" "provider providers name = Inr p"
    "serves p account parent inventory W" "W (sv_out s)"
  shows "\<exists>w'. W w' \<and> ListProviderFiles providers name account_id parent (200 * int k) 200 [] s =
     (Inr (take 200 (drop (200 * k) inventory), int (length inventory)), [], (later 2 s)\<lparr>sv_out := w'\<rparr>)"
proof -
  obtain w' where "W w'" "pr_ListFiles p account parent (200 * int k) 200 [] (sv_out s) =
      (Inr (take 200 (drop (200 * k) inventory), int (length inventory)), [], w')"
    using assms(3,4) unfolding serves_def by blast
  then show ?thesis
    using account_for_stored [OF assms(1)] assms(2)
    by (intro exI [of _ w']) (simp add: ListProviderFiles_def via_def db_unfold on_out_def)
qed

lemma add_new_distinct:
  "distinct (map file_FileID (found @ fs)) \<Longrightarrow> add_new found fs = found @ fs"
proof (induction fs arbitrary: found)
  case (Cons f fs)
  then have "file_FileID f \<notin> file_FileID ` set found" by auto
  with Cons show ?case by simp
qed simp

lemma list_from_serves:
  assumes p: "provider providers name = Inr p" and srv: "serves p account parent inventory W"
    and ids: "distinct (map file_FileID inventory)"
  shows "k \<le> 50 \<Longrightarrow> k = 0 \<or> 200 * k < length inventory \<Longrightarrow>
     has_account name account_id account (sv_db s) \<Longrightarrow> W (sv_out s) \<Longrightarrow>
     db_result (list_from providers name account_id parent (200 * int k) (take (200 * k) inventory) [] s) =
       (if int (length inventory) \<le> quarkMaxEntries then Inr inventory
        else Inl (Errorf ''%s directory exceeds %d entries'' [name, show_int quarkMaxEntries]))"
proof (induction "50 - k" arbitrary: k s)
  case 0
  then have "k = 50" by simp
  with 0 show ?case by (simp add: list_from.simps quarkMaxEntries_def db_unfold)
next
  case (Suc n)
  obtain w' where w: "W w'" and page: "ListProviderFiles providers name account_id parent (200 * int k) 200 [] s =
     (Inr (take 200 (drop (200 * k) inventory), int (length inventory)), [], (later 2 s)\<lparr>sv_out := w'\<rparr>)"
    using ListProviderFiles_serves [OF Suc.prems(3) p srv Suc.prems(4)] by blast
  let ?fs = "take 200 (drop (200 * k) inventory)"
  let ?s = "(later 2 s)\<lparr>sv_out := w'\<rparr>"
  have app: "take (200 * k) inventory @ ?fs = take (200 * Suc k) inventory"
    by (simp add: take_add [symmetric] add.commute)
  have "distinct (map file_FileID (take (200 * Suc k) inventory))"
    using ids by (simp add: take_map [symmetric])
  then have add: "add_new (take (200 * k) inventory) ?fs = take (200 * Suc k) inventory"
    using add_new_distinct [of "take (200 * k) inventory" ?fs] app by simp
  have k: "200 * int k < quarkMaxEntries" using Suc.hyps(2) by (simp add: quarkMaxEntries_def)
  show ?case
  proof (cases "200 * Suc k < length inventory")
    case True
    have next': "200 * int k + 200 = 200 * int (Suc k)" by simp
    have go: "db_result (list_from providers name account_id parent (200 * int (Suc k)) (take (200 * Suc k) inventory) [] ?s) =
       (if int (length inventory) \<le> quarkMaxEntries then Inr inventory
        else Inl (Errorf ''%s directory exceeds %d entries'' [name, show_int quarkMaxEntries]))"
      by (rule Suc.hyps(1)) (use Suc True w in simp_all)
    have "?fs \<noteq> []" "length (take (200 * Suc k) inventory) \<noteq> length (take (200 * k) inventory)"
      "\<not> 200 * int k + int (length ?fs) \<ge> int (length inventory)"
      using True by auto
    then show ?thesis
      using k go unfolding list_from.simps [of _ _ _ _ "200 * int k"]
      by (simp add: page db_bind_def add Let_def next' del: take_append length_take of_nat_Suc mult_Suc_right)
  next
    case False
    then have all: "take (200 * Suc k) inventory = inventory" "int (length inventory) \<le> quarkMaxEntries"
      using Suc.hyps(2) by (simp_all add: quarkMaxEntries_def)
    define fs where "fs = ?fs"
    define old where "old = take (200 * k) inventory"
    have "200 * int k + int (length fs) \<ge> int (length inventory)" using False by (auto simp: fs_def)
    moreover have "\<not> (length inventory = length old \<and> fs \<noteq> [])" by (auto simp: fs_def old_def)
    moreover have "add_new old fs = inventory" using add all(1) by (simp add: fs_def old_def)
    ultimately show ?thesis
      using k unfolding list_from.simps [of _ _ _ _ "200 * int k"] page [folded fs_def] old_def [symmetric]
      by (auto simp: page [folded fs_def] db_bind_def all Let_def db_ret_def)
  qed
qed

text \<open>
  C36. The paged listing of a directory that a provider serves page by page is its whole inventory, in order, up
  to 10000 entries; beyond that the listing fails.
\<close>

theorem listing_complete:
  assumes "has_account name account_id account (sv_db s)" "provider providers name = Inr p"
    "serves p account parent inventory W" "W (sv_out s)" "distinct (map file_FileID inventory)"
  shows "db_result (listAllProviderFiles providers name account_id parent [] s) =
     (if int (length inventory) \<le> quarkMaxEntries then Inr inventory
      else Inl (Errorf ''%s directory exceeds %d entries'' [name, show_int quarkMaxEntries]))"
  using list_from_serves [OF assms(2,3,5) _ _ assms(1,4), of 0] by (simp add: listAllProviderFiles_def)

section \<open>Discovery finds the selected files\<close>

text \<open>Names and sizes can be read back from the key.\<close>

definition digits_value :: "string \<Rightarrow> nat" where
  "digits_value s = foldl (\<lambda>n c. 10 * n + (of_char c - 48)) 0 s"

lemma digits_value_append: "digits_value (s @ [c]) = 10 * digits_value s + (of_char c - 48)"
  by (simp add: digits_value_def)

lemma digits_value_show_nat: "digits_value (show_nat n) = n"
proof (induction n rule: show_nat.induct)
  case (1 n)
  show ?case
  proof (cases "n < 10")
    case True
    then show ?thesis by (simp add: show_nat.simps [of n] digits_value_def)
  next
    case False
    with 1 show ?thesis by (simp add: show_nat.simps [of n] digits_value_append)
  qed
qed

lemma show_nat_digits: "c \<in> set (show_nat n) \<Longrightarrow> 48 \<le> (of_char c :: nat)"
proof (induction n rule: show_nat.induct)
  case (1 n)
  then show ?case by (cases "n < 10") (auto simp: show_nat.simps [of n])
qed

lemma show_int_chars: "c \<in> set (show_int i) \<Longrightarrow> 45 \<le> (of_char c :: nat)"
  using show_nat_digits [of c] by (fastforce simp: show_int_def split: if_splits)

lemma show_nat_nonempty: "show_nat n \<noteq> []"
  by (simp add: show_nat.simps [of n])

lemma show_nat_no_minus: "show_nat n \<noteq> CHR ''-'' # s"
  using show_nat_digits [of "CHR ''-''" n] by auto

lemma show_nat_inj: "show_nat m = show_nat n \<longleftrightarrow> m = n"
  using digits_value_show_nat by metis

lemma show_int_inj: "show_int i = show_int j \<Longrightarrow> i = j"
  using show_nat_no_minus [of "nat i"] show_nat_no_minus [of "nat j"]
  by (auto simp: show_int_def show_nat_inj nat_eq_iff split: if_splits) (metis show_nat_no_minus)+

lemma show_int_no_nul: "CHR 0x00 \<notin> set (show_int i)"
  using show_int_chars [of "CHR 0x00" i] by auto

lemma split_first_eq:
  "a @ x # b = a' @ x # b' \<Longrightarrow> x \<notin> set a \<Longrightarrow> x \<notin> set a' \<Longrightarrow> a = a' \<and> b = b'"
proof (induction a arbitrary: a')
  case Nil
  then show ?case by (cases a') auto
next
  case (Cons c a)
  then show ?case by (cases a') auto
qed

lemma split_last_eq:
  assumes "a @ x # b = a' @ x # b'" "x \<notin> set b" "x \<notin> set b'"
  shows "a = a' \<and> b = b'"
  using split_first_eq [of "rev b" x "rev a" "rev b'" "rev a'"] arg_cong [OF assms(1), of rev] assms(2,3)
  by simp

definition name_size_key :: "string \<Rightarrow> int64 \<Rightarrow> string" where
  "name_size_key name sz = name @ CHR 0x00 # show_int sz"

lemma name_size_key_inj: "name_size_key n s = name_size_key n' s' \<Longrightarrow> n = n' \<and> s = s'"
  using split_last_eq [OF _ show_int_no_nul show_int_no_nul] show_int_inj
  by (metis name_size_key_def)

lemma keys_of:
  "nameKey x = name_size_key (sel_Name x) (sel_Size x)"
  "file_key f = name_size_key (file_Name f) (file_Size f)"
  by (simp_all add: nameKey_def file_key_def name_size_key_def)

text \<open>What the walk keeps: the objects are distinct, and so are the files under their keys.\<close>

definition tree_ok :: "string list \<Rightarrow> bool \<Rightarrow> tree \<Rightarrow> bool" where
  "tree_ok wanted importAll t \<longleftrightarrow>
     distinct (map fst (tr_discovered t)) \<and>
     distinct (map (\<lambda>(k, i). item_SourceFileID i) (tr_discovered t)) \<and>
     (\<forall>(k, i) \<in> set (tr_discovered t). item_SourceFileID i \<in> set (tr_visited t) \<and>
        (if importAll then k = item_SourceFileID i
         else k = name_size_key (item_Name i) (item_Size i) \<and> k \<in> set wanted))"

lemma visit_ok:
  "visit f t = Inr t' \<Longrightarrow> tree_ok wanted importAll t \<Longrightarrow>
   tree_ok wanted importAll t' \<and> file_FileID f \<in> set (tr_visited t') \<and>
   file_FileID f \<notin> item_SourceFileID ` snd ` set (tr_discovered t')"
  by (fastforce simp: visit_def tree_ok_def Let_def split: if_splits)

lemma update_new: "k \<notin> fst ` set al \<Longrightarrow> AList.update k v al = al @ [(k, v)]"
  by (induction al) auto

lemma found_leaf_ok:
  assumes "found_leaf wanted importAll f relative t = Inr t'" "tree_ok wanted importAll t"
    "file_FileID f \<in> set (tr_visited t)" "file_FileID f \<notin> item_SourceFileID ` snd ` set (tr_discovered t)"
  shows "tree_ok wanted importAll t'"
proof -
  define k where "k = (if importAll then file_FileID f else file_key f)"
  have new: "k \<notin> fst ` set (tr_discovered t)"
    using assms unfolding k_def found_leaf_def tree_ok_def
    by (force simp: map_of_eq_None_iff split: if_splits)
  then have "AList.update k (discovered_item f relative) (tr_discovered t) =
      tr_discovered t @ [(k, discovered_item f relative)]"
    by (rule update_new)
  then have t': "t' = t\<lparr>tr_discovered := tr_discovered t @ [(k, discovered_item f relative)]\<rparr>"
    using assms(1) by (auto simp: found_leaf_def k_def split: if_splits)
  have i: "item_SourceFileID (discovered_item f relative) = file_FileID f"
    "name_size_key (item_Name (discovered_item f relative)) (item_Size (discovered_item f relative)) = file_key f"
    by (simp_all add: discovered_item_def keys_of)
  have k: "if importAll then k = file_FileID f else k = file_key f \<and> k \<in> set wanted"
    using assms(1) by (auto simp: k_def found_leaf_def split: if_splits)
  have ne: "item_SourceFileID i \<noteq> file_FileID f" if "(k, i) \<in> set (tr_discovered t)" for k i
  proof
    assume "item_SourceFileID i = file_FileID f"
    moreover have "i \<in> snd ` set (tr_discovered t)" using that by force
    ultimately show False using assms(4) by force
  qed
  have "distinct (map fst (tr_discovered t'))"
    using assms(2) new by (simp add: t' tree_ok_def)
  moreover have "distinct (map (\<lambda>(k, i). item_SourceFileID i) (tr_discovered t'))"
    using assms(2) by (auto simp: t' tree_ok_def i dest: ne)
  moreover have "\<forall>(k, i) \<in> set (tr_discovered t'). item_SourceFileID i \<in> set (tr_visited t') \<and>
      (if importAll then k = item_SourceFileID i
       else k = name_size_key (item_Name i) (item_Size i) \<and> k \<in> set wanted)"
    using assms(2,3) k by (auto simp: t' tree_ok_def i)
  ultimately show ?thesis by (simp add: tree_ok_def)
qed

lemma walk_all_ok:
  assumes "\<And>f r t s. tree_ok wanted importAll t \<Longrightarrow> db_wp (step f r t) (\<lambda>t' _. tree_ok wanted importAll t') (\<lambda>_ _. True) s"
  shows "tree_ok wanted importAll t \<Longrightarrow>
     db_wp (walk_all step relative children t) (\<lambda>t' _. tree_ok wanted importAll t') (\<lambda>_ _. True) s"
proof (induction children arbitrary: t s)
  case (Cons child children)
  show ?case
    unfolding walk_all.simps
    by (rule db_wp_bind, rule db_wp_conseq [OF assms [OF Cons.prems]]) (auto intro: Cons.IH)
qed (simp add: db_wp_ret)

lemma walk_ok:
  "tree_ok wanted importAll t \<Longrightarrow>
   db_wp (walk providers account_id wanted importAll levels f relative t)
     (\<lambda>t' _. tree_ok wanted importAll t') (\<lambda>_ _. True) s"
proof (induction levels arbitrary: f relative t s)
  case (Suc levels f relative t s)
  show ?case
    unfolding walk.simps
  proof (intro db_wp_case_sum db_wp_fail TrueI db_wp_if)
    fix t' t'' assume "visit f t = Inr t'" "found_leaf wanted importAll f relative t' = Inr t''"
    with visit_ok [OF _ Suc.prems] found_leaf_ok
    show "db_wp (db_ret t'') (\<lambda>t' _. tree_ok wanted importAll t') (\<lambda>_ _. True) s"
      by (blast intro: db_wp_ret)
  next
    fix t' assume "visit f t = Inr t'"
    then have ok: "tree_ok wanted importAll t'" using visit_ok Suc.prems by blast
    show "db_wp (db_bind (listAllProviderFiles providers ''quark'' account_id (file_FileID f)) (\<lambda>children.
        walk_all (walk providers account_id wanted importAll levels) relative children t'))
        (\<lambda>t' _. tree_ok wanted importAll t') (\<lambda>_ _. True) s"
      by (rule db_wp_bind, rule db_wp_conseq [OF db_wp_any])
        (auto intro: walk_all_ok [OF Suc.IH ok])
  qed
qed (simp add: db_wp_fail)

lemma walk_roots_ok:
  assumes "\<And>f r t s. tree_ok wanted importAll t \<Longrightarrow> db_wp (step f r t) (\<lambda>t' _. tree_ok wanted importAll t') (\<lambda>_ _. True) s"
  shows "tree_ok wanted importAll t \<Longrightarrow>
     db_wp (walk_roots step rootIDs roots found t) (\<lambda>r _. tree_ok wanted importAll (snd r)) (\<lambda>_ _. True) s"
proof (induction roots arbitrary: t found s)
  case (Cons r roots)
  show ?case
    unfolding walk_roots.simps
    by (rule db_wp_if, rule db_wp_bind, rule db_wp_conseq [OF assms [OF Cons.prems]])
      (auto intro: Cons)
qed (simp add: db_wp_ret)


lemma discover_tree_ok:
  "db_wp (discover_tree providers account_id targetID rootIDs selections importAll)
     (\<lambda>items _. distinct (map item_SourceFileID items) \<and>
        (\<not> importAll \<longrightarrow> distinct (map (\<lambda>i. (item_Name i, item_Size i)) items) \<and>
           set (map (\<lambda>i. (item_Name i, item_Size i)) items) =
             set (map (\<lambda>x. (sel_Name x, sel_Size x)) selections)))
     (\<lambda>_ _. True) s"
proof -
  let ?wanted = "map nameKey selections"
  have fin: "distinct (map item_SourceFileID (map snd (tr_discovered t))) \<and>
        (\<not> importAll \<longrightarrow> distinct (map (\<lambda>i. (item_Name i, item_Size i)) (map snd (tr_discovered t))) \<and>
           set (map (\<lambda>i. (item_Name i, item_Size i)) (map snd (tr_discovered t))) =
             set (map (\<lambda>x. (sel_Name x, sel_Size x)) selections))"
    if ok: "tree_ok ?wanted importAll t" and all: "\<not> importAll \<longrightarrow> missing_selection selections t = None" for t
  proof (intro conjI impI)
    show "distinct (map item_SourceFileID (map snd (tr_discovered t)))"
      using ok by (simp add: tree_ok_def split_def comp_def)
    assume na: "\<not> importAll"
    let ?ns = "\<lambda>i. (item_Name i, item_Size i)"
    have keys: "map fst (tr_discovered t) = map (\<lambda>i. name_size_key (item_Name i) (item_Size i)) (map snd (tr_discovered t))"
      using ok na by (auto simp: tree_ok_def)
    have "distinct (map (\<lambda>(n, z). name_size_key n z) (map ?ns (map snd (tr_discovered t))))"
      using ok keys by (simp add: tree_ok_def comp_def)
    then show dist: "distinct (map ?ns (map snd (tr_discovered t)))" by (rule distinct_map [THEN iffD1, THEN conjunct1])
    have "set (map fst (tr_discovered t)) = set ?wanted"
    proof
      show "set (map fst (tr_discovered t)) \<subseteq> set ?wanted"
        using ok na by (auto simp: tree_ok_def)
      show "set ?wanted \<subseteq> set (map fst (tr_discovered t))"
        using all na by (auto simp: missing_selection_def find_None_iff map_of_eq_None_iff split: if_splits option.splits)
    qed
    then have eq: "(\<lambda>(n, z). name_size_key n z) ` set (map ?ns (map snd (tr_discovered t))) =
        (\<lambda>(n, z). name_size_key n z) ` set (map (\<lambda>x. (sel_Name x, sel_Size x)) selections)"
      unfolding keys by (simp add: keys_of image_image)
    have "inj (\<lambda>(n, z). name_size_key n z)"
      using name_size_key_inj by (auto simp: inj_def)
    then show "set (map ?ns (map snd (tr_discovered t))) = set (map (\<lambda>x. (sel_Name x, sel_Size x)) selections)"
      using eq by (simp add: inj_image_eq_iff)
  qed
  show ?thesis
    unfolding discover_tree_def
    apply (rule db_wp_bind, rule db_wp_conseq [OF db_wp_any])
     apply (rule db_wp_bind, rule db_wp_conseq [OF walk_roots_ok [OF walk_ok]])
        apply assumption
       apply (simp add: tree_ok_def)
    subgoal for roots s1 r s2
      using fin [of "snd r"]
      by (intro db_wp_case_prod db_wp_if db_wp_fail db_wp_case_option db_wp_ret) (auto split: if_splits)
    by simp_all
qed

text \<open>The rows of an import, as far as discovery determines them.\<close>

definition manifest :: "db \<Rightarrow> string \<Rightarrow> (string \<times> string \<times> int64) list" where
  "manifest d taskID = map (\<lambda>i. (item_SourceFileID i, item_Name i, item_Size i))
     (filter (\<lambda>i. item_TaskID i = taskID) (cross_drive_items d))"

lemma manifest_update:
  assumes "\<And>i. item_TaskID (f i) = item_TaskID i \<and> item_SourceFileID (f i) = item_SourceFileID i \<and>
      item_Name (f i) = item_Name i \<and> item_Size (f i) = item_Size i"
  shows "manifest (d\<lparr>cross_drive_items := sql_update p f (cross_drive_items d)\<rparr>) taskID = manifest d taskID"
proof -
  have "filter (\<lambda>i. item_TaskID i = taskID) (sql_update p f (cross_drive_items d)) =
      sql_update p f (filter (\<lambda>i. item_TaskID i = taskID) (cross_drive_items d))"
    by (rule filter_sql_update) (simp add: assms)
  then show ?thesis
    unfolding manifest_def by (simp add: map_sql_update assms)
qed

lemma upsert_item_manifest:
  assumes old: "\<And>i. i \<in> set (cross_drive_items d) \<Longrightarrow> item_TaskID i = taskID \<Longrightarrow>
      item_SourceFileID i = item_SourceFileID item \<Longrightarrow> item_Name i = item_Name item \<and> item_Size i = item_Size item"
  shows "db_wp (upsert_item taskID owner item now)
     (\<lambda>n d'. n \<noteq> 0 \<longrightarrow> set (manifest d' taskID) =
        insert (item_SourceFileID item, item_Name item, item_Size item) (set (manifest d taskID)))
     (\<lambda>_ _. True) d"
proof -
  let ?same = "\<lambda>i. item_TaskID i = taskID \<and> item_SourceFileID i = item_SourceFileID item"
  let ?e = "(item_SourceFileID item, item_Name item, item_Size item)"
  have mem: "?e \<in> set (manifest d taskID)" if i: "i \<in> set (cross_drive_items d)" "?same i" for i
  proof -
    have "(item_SourceFileID i, item_Name i, item_Size i) \<in> set (manifest d taskID)"
      using i unfolding manifest_def set_map by (intro imageI) simp
    with old [OF i(1)] i(2) show ?thesis by simp
  qed
  have upd: "manifest (d\<lparr>cross_drive_items := sql_update ?same
              (\<lambda>i. i\<lparr>item_UpdatedAt := now,
                       item_SHA1 := (if item_SHA1 item \<noteq> '''' then item_SHA1 item
                                     else item_SHA1 i)\<rparr>) (cross_drive_items d)\<rparr>) taskID = manifest d taskID"
    by (rule manifest_update) simp
  have app: "set (manifest (d\<lparr>cross_drive_items := cross_drive_items d @ [discovered_row newID taskID now item],
      cross_drive_items_seq := newID\<rparr>) taskID) = insert ?e (set (manifest d taskID))" for newID
    by (simp add: manifest_def discovered_row_def)
  show ?thesis
    unfolding upsert_item_def
  proof (rule db_wp_stmt, goal_cases)
    case (3 x d')
    show ?case
    proof (cases "owns d taskID owner \<and> (\<exists>i \<in> set (cross_drive_items d). ?same i)")
      case True
      then have "?e \<in> set (manifest d taskID)" using mem by blast
      with 3 True upd show ?thesis by (auto simp: Let_def insert_absorb)
    next
      case False
      with 3 app show ?thesis by (auto simp: Let_def split: if_splits)
    qed
  qed simp_all
qed

lemma UpsertCrossDriveItem_manifest:
  assumes uniq: "items_unique (cross_drive_items d)"
  shows "db_wp (UpsertCrossDriveItem taskID owner item now)
     (\<lambda>_ d'. set (manifest d' taskID) =
        insert (item_SourceFileID item, item_Name item, item_Size item) (set (manifest d taskID)))
     (\<lambda>_ _. True) d"
proof -
  let ?same = "\<lambda>i. item_TaskID i = taskID \<and> item_SourceFileID i = item_SourceFileID item"
  have found: "sql_find ?same (cross_drive_items d) = Some i"
    if "i \<in> set (cross_drive_items d)" "?same i" for i
    using that uniq unfolding items_unique_def
    by (cases "sql_find ?same (cross_drive_items d)")
      (auto simp: sql_find_None dest!: sql_find_Some dest: distinct_key_eq [where k = "\<lambda>i. (item_TaskID i, item_SourceFileID i)"])
  show ?thesis
    unfolding UpsertCrossDriveItem_def
  proof (intro db_wp_if db_wp_fail TrueI db_wp_bind db_wp_query)
    fix old assume "Inr (sql_find ?same (cross_drive_items d)) = (Inr old :: error + CrossDriveItem option)"
    then have old: "old = sql_find ?same (cross_drive_items d)" by simp
    have go: "db_wp (db_bind (upsert_item taskID owner item now) (\<lambda>changed.
          if changed = 0 then db_fail (lost_ownership taskID) else db_ret ()))
        (\<lambda>_ d'. set (manifest d' taskID) =
          insert (item_SourceFileID item, item_Name item, item_Size item) (set (manifest d taskID)))
        (\<lambda>_ _. True) d"
      if "\<And>i. i \<in> set (cross_drive_items d) \<Longrightarrow> item_TaskID i = taskID \<Longrightarrow>
        item_SourceFileID i = item_SourceFileID item \<Longrightarrow> item_Name i = item_Name item \<and> item_Size i = item_Size item"
      by (rule db_wp_bind, rule db_wp_conseq [OF upsert_item_manifest])
        (use that in \<open>auto intro!: db_wp_if db_wp_fail db_wp_ret\<close>)
    show "db_wp (case old of None \<Rightarrow> db_ret ()
          | Some o' \<Rightarrow> if source_identity_changed o' item
              then db_fail (Errorf ''cross-drive source identity changed for %s'' [item_SourceFileID item])
              else db_ret ())
        (\<lambda>_. db_wp (db_bind (upsert_item taskID owner item now) (\<lambda>changed.
          if changed = 0 then db_fail (lost_ownership taskID) else db_ret ()))
          (\<lambda>_ d'. set (manifest d' taskID) =
            insert (item_SourceFileID item, item_Name item, item_Size item) (set (manifest d taskID)))
          (\<lambda>_ _. True)) (\<lambda>_ _. True) d"
      using found unfolding old
      by (intro db_wp_case_option db_wp_if db_wp_fail db_wp_ret go TrueI)
        (auto simp: source_identity_changed_def sql_find_None)
  qed
qed

lemma upsert_all_manifest:
  fixes s :: "'o service"
  assumes "xd_tables_inv (sv_db s)"
  shows "db_wp (db_foreach (\<lambda>item. at_now (UpsertCrossDriveItem taskID owner item)) items)
     (\<lambda>_ s'. set (manifest (sv_db s') taskID) =
        set (map (\<lambda>i. (item_SourceFileID i, item_Name i, item_Size i)) items) \<union> set (manifest (sv_db s) taskID))
     (\<lambda>_ _. True) s"
  using assms
proof (induction items arbitrary: s)
  case (Cons item items s)
  have "db_wp (at_now (UpsertCrossDriveItem taskID owner item))
     (\<lambda>_ s'. xd_tables_inv (sv_db s') \<and> set (manifest (sv_db s') taskID) =
        insert (item_SourceFileID item, item_Name item, item_Size item) (set (manifest (sv_db s) taskID)))
     (\<lambda>_ _. True) s"
    unfolding at_now_def
  proof (rule db_wp_bind, rule db_wp_time_Now, rule db_wp_on_db)
    let ?now = "sv_clock s 0" and ?d = "sv_db s"
    have "db_within xd_good (UpsertCrossDriveItem taskID owner item ?now)"
      using xd_prog_within [of "XUpsert taskID owner item ?now"] by simp
    then have inv: "db_wp (UpsertCrossDriveItem taskID owner item ?now)
        (\<lambda>_ d'. xd_tables_inv d') (\<lambda>_ _. True) ?d"
      using Cons.prems by (auto intro!: db_wp_conseq [OF db_within_wpD [where R = xd_good]] simp: xd_good_def)
    have uniq: "items_unique (cross_drive_items ?d)"
      using Cons.prems by (simp add: xd_tables_inv_def)
    from db_wp_conj [OF inv UpsertCrossDriveItem_manifest [OF uniq]]
    have "db_wp (UpsertCrossDriveItem taskID owner item ?now)
        (\<lambda>_ d'. xd_tables_inv d' \<and> set (manifest d' taskID) =
            insert (item_SourceFileID item, item_Name item, item_Size item) (set (manifest ?d taskID)))
        (\<lambda>_ _. True) ?d"
      by simp
    then show "db_wp (UpsertCrossDriveItem taskID owner item ?now)
        (\<lambda>x d. xd_tables_inv (sv_db (s\<lparr>sv_clock := \<lambda>n. sv_clock s (Suc n), sv_db := d\<rparr>)) \<and>
          set (manifest (sv_db (s\<lparr>sv_clock := \<lambda>n. sv_clock s (Suc n), sv_db := d\<rparr>)) taskID) =
            insert (item_SourceFileID item, item_Name item, item_Size item) (set (manifest ?d taskID)))
        (\<lambda>e d. True) (sv_db (s\<lparr>sv_clock := \<lambda>n. sv_clock s (Suc n)\<rparr>))"
      by simp
  qed
  then have "db_wp (at_now (UpsertCrossDriveItem taskID owner item))
     (\<lambda>_. db_wp (db_foreach (\<lambda>item. at_now (UpsertCrossDriveItem taskID owner item)) items)
       (\<lambda>_ s'. set (manifest (sv_db s') taskID) =
          set (map (\<lambda>i. (item_SourceFileID i, item_Name i, item_Size i)) (item # items)) \<union>
          set (manifest (sv_db s) taskID)) (\<lambda>_ _. True)) (\<lambda>_ _. True) s"
  proof (rule db_wp_conseq)
    fix u and s1 :: "'o service"
    assume "xd_tables_inv (sv_db s1) \<and> set (manifest (sv_db s1) taskID) =
        insert (item_SourceFileID item, item_Name item, item_Size item) (set (manifest (sv_db s) taskID))"
    then show "db_wp (db_foreach (\<lambda>item. at_now (UpsertCrossDriveItem taskID owner item)) items)
       (\<lambda>_ s'. set (manifest (sv_db s') taskID) =
          set (map (\<lambda>i. (item_SourceFileID i, item_Name i, item_Size i)) (item # items)) \<union>
          set (manifest (sv_db s) taskID)) (\<lambda>_ _. True) s1"
      by (intro db_wp_conseq [OF Cons.IH]) auto
  qed simp
  then show ?case unfolding db_foreach.simps by (rule db_wp_bind)
qed (simp add: db_wp_ret)

lemma drive_only_tables:
  assumes "drive_only s s'"
  shows "manifest (sv_db s') taskID = manifest (sv_db s) taskID"
    and "xd_tables_inv (sv_db s') = xd_tables_inv (sv_db s)"
    and "async_tasks (sv_db s') = async_tasks (sv_db s)"
    and "cross_drive_imports (sv_db s') = cross_drive_imports (sv_db s)"
  using assms by (auto simp: drive_only_def manifest_def xd_tables_inv_def)

section \<open>What is found lies below the saved roots\<close>

text \<open>
  What Quark lists while the discovery runs: as long as the world is one of \<open>W\<close>, a listing of a directory
  answers with files of \<open>L\<close> for it, whatever fails, and leaves a world of \<open>W\<close>.
\<close>

definition quark_lists ::
  "'o providers \<Rightarrow> ('o \<Rightarrow> bool) \<Rightarrow> (string \<Rightarrow> DriveFile set) \<Rightarrow> bool" where
  "quark_lists providers W L \<longleftrightarrow>
     (\<forall>p account parent offset limit w. provider providers ''quark'' = Inr p \<longrightarrow> W w \<longrightarrow>
        db_wp (pr_ListFiles p account parent offset limit)
          (\<lambda>r w'. set (fst r) \<subseteq> L parent \<and> W w') (\<lambda>_ _. True) w)"

text \<open>The objects below an object, by the listings of the directories on the way.\<close>

inductive below :: "(string \<Rightarrow> DriveFile set) \<Rightarrow> DriveFile \<Rightarrow> DriveFile \<Rightarrow> bool" for L r where
  below_self: "below L r r"
| below_child: "below L r dir \<Longrightarrow> file_IsFolder dir \<Longrightarrow> f \<in> L (file_FileID dir) \<Longrightarrow> below L r f"

definition saved_below ::
  "(string \<Rightarrow> DriveFile set) \<Rightarrow> string \<Rightarrow> string list \<Rightarrow> DriveFile \<Rightarrow> bool" where
  "saved_below L targetID rootIDs f \<longleftrightarrow>
     (\<exists>r \<in> L targetID. file_FileID r \<in> set rootIDs \<and> below L r f)"

definition found_below ::
  "(string \<Rightarrow> DriveFile set) \<Rightarrow> string \<Rightarrow> string list \<Rightarrow> string \<times> string \<times> int64 \<Rightarrow> bool" where
  "found_below L targetID rootIDs e \<longleftrightarrow>
     (\<exists>f. saved_below L targetID rootIDs f \<and> \<not> file_IsFolder f \<and>
          e = (file_FileID f, file_Name f, file_Size f))"

abbreviation item_entry :: "CrossDriveItem \<Rightarrow> string \<times> string \<times> int64" where
  "item_entry i \<equiv> (item_SourceFileID i, item_Name i, item_Size i)"

lemma set_add_new: "set (add_new found fs) \<subseteq> set found \<union> set fs"
proof (induction fs arbitrary: found)
  case (Cons f fs)
  show ?case using Cons [of found] Cons [of "found @ [f]"] by auto
qed simp

lemma account_for_out: "db_wp (account_for name account_id) (\<lambda>_ s'. sv_out s' = sv_out s) (\<lambda>_ _. True) s"
  unfolding account_for_def at_now_def
  by (intro db_wp_bind db_wp_time_Now db_wp_on_db db_wp_conseq [OF db_wp_any]) simp_all

lemma ListProviderFiles_lists:
  assumes "quark_lists providers W L" "W (sv_out s)"
  shows "db_wp (ListProviderFiles providers ''quark'' account_id parent offset limit)
     (\<lambda>r s'. set (fst r) \<subseteq> L parent \<and> W (sv_out s')) (\<lambda>_ _. True) s"
  unfolding ListProviderFiles_def via_def
proof (rule db_wp_bind, rule db_wp_conseq [OF account_for_out], goal_cases)
  case (1 account s1)
  show ?case
  proof (cases "provider providers ''quark''")
    case (Inr p)
    then show ?thesis
      using assms 1 by (simp add: quark_lists_def) (rule db_wp_on_out, simp)
  qed (simp add: db_wp_fail)
qed simp

lemma list_from_lists:
  assumes L: "quark_lists providers W L"
  shows "set found \<subseteq> L parent \<Longrightarrow> W (sv_out s) \<Longrightarrow>
     db_wp (list_from providers ''quark'' account_id parent offset found)
       (\<lambda>files s'. set files \<subseteq> L parent \<and> W (sv_out s')) (\<lambda>_ _. True) s"
proof (induction "nat (quarkMaxEntries - offset)" arbitrary: offset found s rule: less_induct)
  case less
  show ?case
  proof (cases "offset < quarkMaxEntries")
    case True
    have ih: "db_wp (list_from providers ''quark'' account_id parent (offset + 200) found')
        (\<lambda>files s'. set files \<subseteq> L parent \<and> W (sv_out s')) (\<lambda>_ _. True) s'"
      if "set found' \<subseteq> L parent" "W (sv_out s')" for found' s'
      by (rule less.hyps) (use True that in \<open>auto simp: quarkMaxEntries_def\<close>)
    have "db_wp (db_bind (ListProviderFiles providers ''quark'' account_id parent offset 200) (\<lambda>(files, total).
        let found' = add_new found files in
        if length found' = length found \<and> files \<noteq> []
        then db_fail (Errorf ''%s listing made no progress'' [''quark''])
        else if files = [] \<or> offset + int (length files) \<ge> total then db_ret found'
        else list_from providers ''quark'' account_id parent (offset + 200) found'))
        (\<lambda>files s'. set files \<subseteq> L parent \<and> W (sv_out s')) (\<lambda>_ _. True) s"
    proof (rule db_wp_bind, rule db_wp_conseq [OF ListProviderFiles_lists [OF L less.prems(2)]], goal_cases)
      case (1 r s1)
      obtain files total where r: "r = (files, total)" by (cases r)
      have "set (add_new found files) \<subseteq> L parent"
        using set_add_new [of found files] less.prems(1) 1 by (auto simp: r)
      with 1 show ?case
        by (auto simp: r Let_def intro!: db_wp_if db_wp_fail db_wp_ret ih)
    qed simp
    then show ?thesis using True by (simp add: list_from.simps [of _ _ _ _ offset])
  qed (simp add: list_from.simps [of _ _ _ _ offset] db_wp_fail)
qed

definition tree_below :: "(string \<Rightarrow> DriveFile set) \<Rightarrow> string \<Rightarrow> string list \<Rightarrow> tree \<Rightarrow> bool" where
  "tree_below L targetID rootIDs t \<longleftrightarrow>
     (\<forall>(k, i) \<in> set (tr_discovered t). found_below L targetID rootIDs (item_entry i))"

lemma visit_below: "visit f t = Inr t' \<Longrightarrow> tree_below L a b t' = tree_below L a b t"
  by (auto simp: visit_def tree_below_def Let_def split: if_splits)

lemma found_leaf_below:
  assumes "found_leaf wanted importAll f relative t = Inr t'" "tree_below L targetID rootIDs t"
    "saved_below L targetID rootIDs f" "\<not> file_IsFolder f"
  shows "tree_below L targetID rootIDs t'"
proof -
  have sub: "set (AList.update k v al) \<subseteq> insert (k, v) (set al)" for k v and al :: "(string \<times> CrossDriveItem) list"
    by (induction al) auto
  have "found_below L targetID rootIDs (item_entry (discovered_item f relative))"
    using assms(3,4) by (auto simp: found_below_def discovered_item_def)
  moreover obtain k where "t' = t\<lparr>tr_discovered := AList.update k (discovered_item f relative) (tr_discovered t)\<rparr>"
    using assms(1) by (auto simp: found_leaf_def split: if_splits)
  ultimately show ?thesis
    using assms(2) sub [of k "discovered_item f relative" "tr_discovered t"] by (fastforce simp: tree_below_def)
qed

lemma walk_all_below:
  assumes "\<And>f relative t s. f \<in> F \<Longrightarrow> P t \<Longrightarrow> W (sv_out s) \<Longrightarrow>
     db_wp (step f relative t) (\<lambda>t' s'. P t' \<and> W (sv_out s')) (\<lambda>_ _. True) s"
  shows "set children \<subseteq> F \<Longrightarrow> P t \<Longrightarrow> W (sv_out s) \<Longrightarrow>
     db_wp (walk_all step relative children t) (\<lambda>t' s'. P t' \<and> W (sv_out s')) (\<lambda>_ _. True) s"
proof (induction children arbitrary: t s)
  case (Cons child children)
  show ?case
    unfolding walk_all.simps
    by (rule db_wp_bind, rule db_wp_conseq [OF assms]) (use Cons in auto)
qed (simp add: db_wp_ret)

lemma walk_below:
  assumes L: "quark_lists providers W L"
  shows "saved_below L targetID rootIDs f \<Longrightarrow> tree_below L targetID rootIDs t \<Longrightarrow> W (sv_out s) \<Longrightarrow>
     db_wp (walk providers account_id wanted importAll levels f relative t)
       (\<lambda>t' s'. tree_below L targetID rootIDs t' \<and> W (sv_out s')) (\<lambda>_ _. True) s"
proof (induction levels arbitrary: f relative t s)
  case (Suc levels f relative t s)
  show ?case
    unfolding walk.simps
  proof (intro db_wp_case_sum db_wp_fail TrueI db_wp_if)
    fix t' t'' assume "visit f t = Inr t'" "\<not> file_IsFolder f" "found_leaf wanted importAll f relative t' = Inr t''"
    with visit_below [of f t t'] found_leaf_below [of wanted importAll f relative t' t''] Suc.prems
    show "db_wp (db_ret t'') (\<lambda>t' s'. tree_below L targetID rootIDs t' \<and> W (sv_out s')) (\<lambda>_ _. True) s"
      by (auto intro: db_wp_ret)
  next
    fix t' assume v: "visit f t = Inr t'" and folder: "\<not> \<not> file_IsFolder f"
    have ok: "tree_below L targetID rootIDs t'" using visit_below [OF v] Suc.prems(2) by simp
    have kids: "saved_below L targetID rootIDs g" if "g \<in> L (file_FileID f)" for g
      using Suc.prems(1) folder that unfolding saved_below_def by (blast intro: below_child)
    show "db_wp (db_bind (listAllProviderFiles providers ''quark'' account_id (file_FileID f)) (\<lambda>children.
        walk_all (walk providers account_id wanted importAll levels) relative children t'))
        (\<lambda>t' s'. tree_below L targetID rootIDs t' \<and> W (sv_out s')) (\<lambda>_ _. True) s"
      unfolding listAllProviderFiles_def
      by (rule db_wp_bind, rule db_wp_conseq [OF list_from_lists [OF L _ Suc.prems(3)]])
        (auto intro!: walk_all_below [where F = "L (file_FileID f)"] Suc.IH kids ok)
  qed
qed (simp add: db_wp_fail)

lemma walk_roots_below:
  assumes "\<And>f relative t s. f \<in> F \<Longrightarrow> file_FileID f \<in> set rootIDs \<Longrightarrow> P t \<Longrightarrow> W (sv_out s) \<Longrightarrow>
     db_wp (step f relative t) (\<lambda>t' s'. P t' \<and> W (sv_out s')) (\<lambda>_ _. True) s"
  shows "set roots \<subseteq> F \<Longrightarrow> P t \<Longrightarrow> W (sv_out s) \<Longrightarrow>
     db_wp (walk_roots step rootIDs roots found t) (\<lambda>r s'. P (snd r) \<and> W (sv_out s')) (\<lambda>_ _. True) s"
proof (induction roots arbitrary: t found s)
  case (Cons r roots)
  show ?case
    unfolding walk_roots.simps
    by (rule db_wp_if, rule db_wp_bind, rule db_wp_conseq [OF assms]) (use Cons in auto)
qed (simp add: db_wp_ret)

lemma discover_tree_below:
  fixes s :: "'o service"
  assumes L: "quark_lists providers W L" and W: "W (sv_out s)"
  shows "db_wp (discover_tree providers account_id targetID rootIDs selections importAll)
     (\<lambda>items _. \<forall>i \<in> set items. found_below L targetID rootIDs (item_entry i)) (\<lambda>_ _. True) s"
  unfolding discover_tree_def listAllProviderFiles_def
proof (rule db_wp_bind, rule db_wp_conseq [OF list_from_lists [OF L _ W]], goal_cases)
  case (2 roots s1)
  let ?t = "\<lparr>tr_visited = [], tr_entries = 0, tr_discovered = []\<rparr>"
  have "db_wp (walk_roots (walk providers account_id (map nameKey selections) importAll (Suc quarkMaxDepth))
      rootIDs roots 0 ?t) (\<lambda>r s'. tree_below L targetID rootIDs (snd r) \<and> W (sv_out s')) (\<lambda>_ _. True) s1"
  proof (rule walk_roots_below [where F = "L targetID"])
    fix f relative t and s :: "'o service"
    assume "f \<in> L targetID" "file_FileID f \<in> set rootIDs"
    then have "saved_below L targetID rootIDs f" unfolding saved_below_def by (blast intro: below_self)
    then show "tree_below L targetID rootIDs t \<Longrightarrow> W (sv_out s) \<Longrightarrow>
        db_wp (walk providers account_id (map nameKey selections) importAll (Suc quarkMaxDepth) f relative t)
          (\<lambda>t' s'. tree_below L targetID rootIDs t' \<and> W (sv_out s')) (\<lambda>_ _. True) s"
      by (rule walk_below [OF L])
  qed (use 2 in \<open>simp_all add: tree_below_def\<close>)
  then show ?case
  proof (rule db_wp_bind [OF db_wp_conseq], goal_cases)
    case (1 r s2)
    then show ?case
      by (intro db_wp_case_prod db_wp_if db_wp_fail db_wp_case_option db_wp_ret)
        (auto simp: tree_below_def)
  qed simp
qed simp_all

text \<open>
  C37. A discovery that succeeds for a selection found exactly one file for each selected name and size and nothing
  else, each in a directory reached by Quark's own listings from a saved root of the target directory; and the rows of
  the import are those there were plus these files: whatever the provider answers and whatever fails.
\<close>

theorem discovery_matches_manifest:
  assumes "xd_tables_inv (sv_db s)" "quark_lists providers W L" "W (sv_out s)"
    and "discoverQuarkImport providers taskID owner account_id targetID rootIDs selections False fs s = (Inr (), fs', s')"
  shows "\<exists>files. distinct (map (\<lambda>(i, n, z). i) files) \<and> distinct (map (\<lambda>(i, n, z). (n, z)) files) \<and>
     set (map (\<lambda>(i, n, z). (n, z)) files) = set (map (\<lambda>x. (sel_Name x, sel_Size x)) selections) \<and>
     (\<forall>e \<in> set files. found_below L targetID rootIDs e) \<and>
     set (manifest (sv_db s') taskID) = set (manifest (sv_db s) taskID) \<union> set files"
proof -
  let ?ok = "\<lambda>items. distinct (map item_SourceFileID items) \<and> distinct (map (\<lambda>i. (item_Name i, item_Size i)) items) \<and>
     set (map (\<lambda>i. (item_Name i, item_Size i)) items) = set (map (\<lambda>x. (sel_Name x, sel_Size x)) selections) \<and>
     (\<forall>i \<in> set items. found_below L targetID rootIDs (item_entry i))"
  have "db_wp (discoverQuarkImport providers taskID owner account_id targetID rootIDs selections False)
     (\<lambda>_ s'. \<exists>items :: CrossDriveItem list. ?ok items \<and>
        set (manifest (sv_db s') taskID) = set (manifest (sv_db s) taskID) \<union> set (map item_entry items)) (\<lambda>_ _. True) s"
    unfolding discoverQuarkImport_def
  proof (rule db_wp_bind, rule db_wp_conseq [OF db_wp_conj [OF db_wp_conj [OF
        discover_tree_ok [of providers account_id targetID rootIDs selections False s]
        discover_tree_below [OF assms(2,3), of account_id targetID rootIDs selections False]]
        db_within_wpD [OF discover_tree_only [of providers account_id targetID rootIDs selections False], of s]]], goal_cases)
    case (1 items s1)
    then have ok: "?ok items" and same: "drive_only s s1" by auto
    note [simp] = drive_only_tables [OF same]
    have "db_wp (db_foreach (\<lambda>item. at_now (UpsertCrossDriveItem taskID owner item)) items)
       (\<lambda>_ s'. set (manifest (sv_db s') taskID) = set (map item_entry items) \<union> set (manifest (sv_db s) taskID))
       (\<lambda>_ _. True) s1"
      using upsert_all_manifest [of s1 taskID owner items] assms(1) by simp
    then show ?case
    proof (rule db_wp_conseq, goal_cases)
      case (1 u s2)
      then have "?ok items \<and> set (manifest (sv_db s2) taskID) =
          set (manifest (sv_db s) taskID) \<union> set (map item_entry items)"
        using ok by (simp add: Un_commute)
      then show ?case by (rule exI)
    qed simp
  qed simp
  from db_wpD(1) [OF this assms(4)] obtain items :: "CrossDriveItem list" where items: "?ok items"
    "set (manifest (sv_db s') taskID) = set (manifest (sv_db s) taskID) \<union> set (map item_entry items)" by blast
  show ?thesis
    by (rule exI [of _ "map item_entry items"]) (use items in \<open>simp add: comp_def\<close>)
qed

section \<open>A concrete share\<close>

definition example_account :: "string \<Rightarrow> string \<Rightarrow> DriveAccount" where
  "example_account name typ = \<lparr>acc_ID = name, acc_Type = typ, acc_Name = name, acc_Cookie = '''', acc_Token = '''',
     acc_IsDefault = True, acc_Status = ''active'', acc_QuotaUsed = 0, acc_QuotaTotal = 0, acc_VIPLevel = 0,
     acc_VIPExpiresAt = None, acc_CreatedAt = 1, acc_UpdatedAt = 1\<rparr>"

definition example_file :: "string \<Rightarrow> string \<Rightarrow> string \<Rightarrow> int64 \<Rightarrow> bool \<Rightarrow> DriveFile" where
  "example_file fid parent name sz folder = \<lparr>file_FileID = fid, file_ParentID = parent, file_Name = name,
     file_Size = sz, file_PickCode = '''', file_Sha1 = '''', file_Revision = ''v1'', file_IsFolder = folder,
     file_UpdatedTime = 0\<rparr>"

text \<open>A provider at rest: its directories are the world.\<close>

definition example_provider :: "(string \<Rightarrow> DriveFile list) DriveProvider" where
  "example_provider =
     (\<lparr>pr_Capabilities = \<lparr>cap_Browse = True, cap_Search = False, cap_Mkdir = False, cap_Rename = False,
          cap_Move = False, cap_Delete = False, cap_ShareSave = False, cap_Download = False,
          cap_Offline = False, cap_GenerateLink = False\<rparr>,
       pr_CheckAccount = (\<lambda>a. db_ret (a, None)),
       pr_ListFiles = (\<lambda>a parent offset limit.
          db_get (\<lambda>w. (take (nat limit) (drop (nat offset) (w parent)), int (length (w parent))))),
       pr_SearchFiles = (\<lambda>a q offset limit. db_fail ErrDriver),
       pr_Mkdir = (\<lambda>a parent name. db_fail ErrDriver), pr_Rename = (\<lambda>a f n. db_fail ErrDriver),
       pr_Move = (\<lambda>a fs p. db_fail ErrDriver), pr_Delete = (\<lambda>a fs. db_fail ErrDriver),
       pr_SnapshotShare = (\<lambda>a u p. db_fail ErrDriver), pr_SnapshotShareTree = (\<lambda>a u p. db_fail ErrDriver),
       pr_SaveShare = (\<lambda>a u p t. db_fail ErrDriver), pr_SaveShareEntries = (\<lambda>a u p t ids. db_fail ErrDriver),
       pr_SaveShareSelections = (\<lambda>a u p t ss. db_fail ErrDriver)\<rparr>)"

definition example_providers :: "(string \<Rightarrow> DriveFile list) providers" where
  "example_providers name = Some example_provider"

definition example_share :: "string \<Rightarrow> DriveFile list" where
  "example_share parent =
     (if parent = ''qt'' then [example_file ''r1'' ''qt'' ''Show'' 0 True, example_file ''x'' ''qt'' ''other'' 5 False]
      else if parent = ''r1'' then [example_file ''f1'' ''r1'' ''e1.mkv'' 9 False] else [])"

definition example_service :: "(string \<Rightarrow> DriveFile list) service" where
  "example_service = \<lparr>sv_db = owned_db\<lparr>drive_accounts := [example_account ''q'' ''quark'']\<rparr>, sv_out = example_share,
     sv_clock = (\<lambda>n. 10), sv_uuids = (\<lambda>n. ''u''), sv_mediaMu = False, sv_running = [], sv_cancelled = [],
     sv_worker = True, sv_stopped = False, sv_submitted = [], sv_calls = [], sv_upload = ('''', '''', '''')\<rparr>"

definition example_selection :: ShareSelection where
  "example_selection = \<lparr>sel_ID = ''s1'', sel_Revision = ''v1'', sel_Name = ''e1.mkv'', sel_Size = 9\<rparr>"

lemma example_has_account: "has_account ''quark'' ''q'' (example_account ''q'' ''quark'') (sv_db example_service)"
  by code_simp

lemma example_provider_quark: "provider example_providers ''quark'' = Inr example_provider"
proof -
  have "normalizeProvider ''quark'' = Inr ''quark''" by code_simp
  then show ?thesis by (simp add: provider_def example_providers_def)
qed

text \<open>
  A provider that counts in pages and clamps them to 200 entries, as Quark does, over directories that do not
  change while it answers and a counter of its calls; one directory has 250 files.
\<close>

definition paging_provider :: "((string \<Rightarrow> DriveFile list) \<times> nat) DriveProvider" where
  "paging_provider =
     (\<lparr>pr_Capabilities = pr_Capabilities example_provider, pr_CheckAccount = (\<lambda>a. db_ret (a, None)),
       pr_ListFiles = (\<lambda>a parent offset limit fs (w, calls).
          let size = min 200 (nat limit); start = (nat offset div size) * size
          in (Inr (take size (drop start (w parent)), int (length (w parent))), fs, (w, Suc calls))),
       pr_SearchFiles = (\<lambda>a q offset limit. db_fail ErrDriver),
       pr_Mkdir = (\<lambda>a parent name. db_fail ErrDriver), pr_Rename = (\<lambda>a f n. db_fail ErrDriver),
       pr_Move = (\<lambda>a fs p. db_fail ErrDriver), pr_Delete = (\<lambda>a fs. db_fail ErrDriver),
       pr_SnapshotShare = (\<lambda>a u p. db_fail ErrDriver), pr_SnapshotShareTree = (\<lambda>a u p. db_fail ErrDriver),
       pr_SaveShare = (\<lambda>a u p t. db_fail ErrDriver), pr_SaveShareEntries = (\<lambda>a u p t ids. db_fail ErrDriver),
       pr_SaveShareSelections = (\<lambda>a u p t ss. db_fail ErrDriver)\<rparr>)"

definition many_files :: "DriveFile list" where
  "many_files = map (\<lambda>k. example_file (show_nat k) ''big'' (show_nat k) 1 False) [0..<250]"

definition paging_service :: "((string \<Rightarrow> DriveFile list) \<times> nat) service" where
  "paging_service = \<lparr>sv_db = sv_db example_service, sv_out = (\<lambda>parent. if parent = ''big'' then many_files else [], 0),
     sv_clock = (\<lambda>n. 10), sv_uuids = (\<lambda>n. ''u''), sv_mediaMu = False, sv_running = [], sv_cancelled = [],
     sv_worker = True, sv_stopped = False, sv_submitted = [], sv_calls = [], sv_upload = ('''', '''', '''')\<rparr>"

lemma many_files_props: "length many_files = 250" "distinct (map file_FileID many_files)"
  by (auto simp: many_files_def comp_def example_file_def distinct_map inj_on_def show_nat_inj)

theorem listing_complete_witness:
  "db_result (listAllProviderFiles (\<lambda>_. Some paging_provider) ''quark'' ''q'' ''big'' [] paging_service) = Inr many_files \<and>
   length many_files = 250"
proof -
  let ?W = "\<lambda>w. fst w ''big'' = many_files"
  have "normalizeProvider ''quark'' = Inr ''quark''" by code_simp
  then have p: "provider (\<lambda>_. Some paging_provider) ''quark'' = Inr paging_provider" by (simp add: provider_def)
  have srv: "serves paging_provider a ''big'' many_files ?W" for a
    by (auto simp: serves_def paging_provider_def Let_def nat_mult_distrib mult.commute)
  have acc: "has_account ''quark'' ''q'' (example_account ''q'' ''quark'') (sv_db paging_service)"
    using example_has_account by (simp add: paging_service_def)
  have "?W (sv_out paging_service)" by (simp add: paging_service_def)
  from listing_complete [OF acc p srv this many_files_props(2)] show ?thesis
    by (simp add: many_files_props(1) quarkMaxEntries_def)
qed

lemma example_service_inv: "xd_tables_inv (sv_db example_service)"
  using owned_db_inv by (simp add: example_service_def xd_tables_inv_def)

theorem discovery_matches_manifest_witness:
  "\<exists>fs' s'. discoverQuarkImport example_providers ''t1'' ''run1'' ''q'' ''qt'' [''r1''] [example_selection] False []
      example_service = (Inr (), fs', s') \<and>
    set (manifest (sv_db s') ''t1'') = {(''f1'', ''e1.mkv'', 9)} \<and>
    found_below (\<lambda>parent. set (example_share parent)) ''qt'' [''r1''] (''f1'', ''e1.mkv'', 9)"
proof -
  let ?L = "\<lambda>parent. set (example_share parent)"
  let ?run = "discoverQuarkImport example_providers ''t1'' ''run1'' ''q'' ''qt'' [''r1''] [example_selection] False []
      example_service"
  obtain r fs' s' where run: "?run = (r, fs', s')" by (cases ?run)
  have "fst ?run = Inr ()" by code_simp
  then have ok: "?run = (Inr (), fs', s')" using run by simp
  have m: "manifest (sv_db (snd (snd ?run))) ''t1'' = [(''f1'', ''e1.mkv'', 9)]" by code_simp
  have old: "manifest (sv_db example_service) ''t1'' = [(''f1'', ''e1.mkv'', 9)]" by code_simp
  have slice: "set (take a (drop b xs)) \<subseteq> set xs" for a b and xs :: "DriveFile list"
    by (meson set_take_subset set_drop_subset order_trans)
  have lists: "quark_lists example_providers (\<lambda>w. w = example_share) ?L"
    unfolding quark_lists_def example_provider_quark
    by (clarsimp simp: example_provider_def) (rule db_wp_get, simp add: slice)
  have w: "sv_out example_service = example_share" by (simp add: example_service_def)
  obtain files where "set (map (\<lambda>(i, n, z). (n, z)) files) = {(''e1.mkv'', 9)}"
    "\<forall>e \<in> set files. found_below ?L ''qt'' [''r1''] e" "{(''f1'', ''e1.mkv'', 9)} = {(''f1'', ''e1.mkv'', 9)} \<union> set files"
    using discovery_matches_manifest [OF example_service_inv lists w ok] m ok old
    by (auto simp: example_selection_def)
  then have "found_below ?L ''qt'' [''r1''] (''f1'', ''e1.mkv'', 9)" by (cases files) auto
  with m ok show ?thesis by auto
qed

end
