(* ===== verification/UploadVerify.thy ===== *)
theory UploadVerify
  imports ProviderInventory GoHash
begin

text \<open>
  How an upload to 115 is verified: \<open>internal/service/provider_115_upload.go\<close> looks the file up under its
  name, classifies what it finds and polls until the object is there with the expected identity.

  The loop of \<open>waitForVerifiedDestination\<close> ends by the clock only; the model gives it a number of polls
  (\<open>polls\<close>), and the last section shows that \<open>verify_polls\<close> of them are never used up, as a pause takes at
  least its second, and how much time can pass (\<open>clock_by\<close>). A duration is in nanoseconds.
\<close>

section \<open>Looking up a name\<close>

record UploadSource =
  ups_Path :: string
  ups_Name :: string
  ups_Size :: int64
  ups_SHA1 :: string
  ups_PreSHA1 :: string
  ups_UploadID :: string
  ups_Bucket :: string
  ups_Object :: string

record UploadResult =
  upr_FileID :: string
  upr_Rapid :: bool
  upr_Transferred :: int64

text \<open>The common shape of the two loops over the offsets 0, 1000, \dots: the first file \<open>p\<close> accepts.\<close>

function find_from ::
  "'o DriveProvider \<Rightarrow> DriveAccount \<Rightarrow> string \<Rightarrow> (DriveFile \<Rightarrow> bool) \<Rightarrow> int \<Rightarrow> ('o service, DriveFile option) dbm" where
  "find_from drive account parent p offset =
     (if offset < quarkMaxEntries
      then db_bind (on_out (pr_ListFiles drive account parent offset 1000)) (\<lambda>(files, total).
        case sql_find p files of
          Some f \<Rightarrow> db_ret (Some f)
        | None \<Rightarrow>
            if files = [] \<or> offset + int (length files) \<ge> total then db_ret None
            else find_from drive account parent p (offset + 1000))
      else db_fail (Errorf ''115 destination contains more than %d objects'' [show_int quarkMaxEntries]))"
  by pat_completeness auto
termination
  by (relation "measure (\<lambda>(drive, account, parent, p, offset). nat (quarkMaxEntries - offset))") auto

declare find_from.simps [simp del]

definition findDestinationFile ::
  "'o DriveProvider \<Rightarrow> DriveAccount \<Rightarrow> string \<Rightarrow> string \<Rightarrow> ('o service, DriveFile option) dbm" where
  "findDestinationFile drive account parent name = find_from drive account parent (\<lambda>f. file_Name f = name) 0"

definition cloudDriveUploadPlaceholder ::
  "'o DriveProvider \<Rightarrow> DriveAccount \<Rightarrow> string \<Rightarrow> string \<Rightarrow> ('o service, bool) dbm" where
  "cloudDriveUploadPlaceholder drive account parent name =
     db_bind (find_from drive account parent
       (\<lambda>f. prefix name (file_Name f) \<and> suffix ''..uploading'' (file_Name f)) 0) (\<lambda>found. db_ret (found \<noteq> None))"

section \<open>Classification\<close>

datatype destinationState = destinationVerified | destinationUnsettled | destinationForeign

definition classifyDestination :: "DriveFile option \<Rightarrow> UploadSource \<Rightarrow> string \<Rightarrow> destinationState" where
  "classifyDestination file source parent =
     (case file of
        None \<Rightarrow> destinationUnsettled
      | Some f \<Rightarrow>
          if file_IsFolder f \<or> file_ParentID f \<noteq> parent \<or> file_Name f \<noteq> ups_Name source then destinationForeign
          else if TrimSpace (file_Sha1 f) = '''' \<or> file_Size f \<noteq> ups_Size source \<or>
                  \<not> EqualFold (file_Sha1 f) (ups_SHA1 source) then destinationForeign
          else destinationVerified)"

section \<open>Waiting\<close>

definition second :: int where
  "second = 1000000000"

definition destinationVerifyBaseTimeout :: int where
  "destinationVerifyBaseTimeout = 120 * second"

definition destinationVerifyTimeoutCap :: int where
  "destinationVerifyTimeoutCap = 1800 * second"

definition destinationVerifyCeiling :: int where
  "destinationVerifyCeiling = 14400 * second"

definition destinationVerifyTimeout :: "int64 \<Rightarrow> int" where
  "destinationVerifyTimeout sz =
     (let timeout = destinationVerifyBaseTimeout + sz div 2 ^ 20 * second in
      if timeout > destinationVerifyTimeoutCap then destinationVerifyTimeoutCap else timeout)"

text \<open>\<open>Round(time.Second).String()\<close> of a duration that is not negative.\<close>

definition duration_text :: "int \<Rightarrow> string" where
  "duration_text d =
     (let t = nat ((d + second div 2) div second); h = t div 3600; m = t div 60 mod 60; s = t mod 60 in
      (if h > 0 then show_nat h @ ''h'' else '''') @ (if h > 0 \<or> m > 0 then show_nat m @ ''m'' else '''') @
      show_nat s @ ''s'')"

text \<open>A lookup fails with the error of the context when that is done.\<close>

definition unless_cancelled :: "('o service, 'a) dbm \<Rightarrow> ('o service, 'a) dbm" where
  "unless_cancelled m =
     db_bind (db_try m) (\<lambda>r. case r of
       Inr x \<Rightarrow> db_ret x
     | Inl e \<Rightarrow> db_bind ctx_Err (\<lambda>c. case c of Some c' \<Rightarrow> db_fail c' | None \<Rightarrow> db_fail e))"

text \<open>The pause ends early with the error of the context; otherwise all later readings of the clock are later by it.\<close>

definition sleepContext :: "int \<Rightarrow> ('o service, unit) dbm" where
  "sleepContext d = db_bind ctx_Err (\<lambda>c. case c of Some e \<Rightarrow> db_fail e
     | None \<Rightarrow> db_upd (\<lambda>s. s\<lparr>sv_clock := (\<lambda>n. sv_clock s n + d)\<rparr>))"

definition polls_used_up :: error where
  "polls_used_up = Errorf ''the polls of the model are used up'' []"

definition verify_error :: "UploadSource \<Rightarrow> error" where
  "verify_error source = Errorf ''115 destination identity verification failed for %s'' [ups_Name source]"

text \<open>
  The deadline test of one poll: \<open>time.Now().After(deadline) || time.Now().After(ceiling)\<close>, and the reading
  the error message or the choice of the interval takes.
\<close>

definition past_deadline :: "gotime \<Rightarrow> gotime \<Rightarrow> ('o service, bool \<times> gotime) dbm" where
  "past_deadline deadline final =
     db_bind time_Now (\<lambda>now.
     if now > deadline then db_bind time_Now (\<lambda>now'. db_ret (True, now'))
     else db_bind time_Now (\<lambda>now2. db_bind time_Now (\<lambda>now'. db_ret (now2 > final, now'))))"

text \<open>One poll; \<open>again\<close> is the next one, with its deadline.\<close>

definition poll_once ::
  "'o DriveProvider \<Rightarrow> DriveAccount \<Rightarrow> string \<Rightarrow> UploadSource \<Rightarrow> bool \<Rightarrow> int64 \<Rightarrow> gotime \<Rightarrow> gotime \<Rightarrow>
   (gotime \<Rightarrow> ('o service, UploadResult) dbm) \<Rightarrow> gotime \<Rightarrow> ('o service, UploadResult) dbm" where
  "poll_once drive account parent source rapid transferred started final again deadline =
     db_bind (unless_cancelled (findDestinationFile drive account parent (ups_Name source))) (\<lambda>found.
     case classifyDestination found source parent of
       destinationVerified \<Rightarrow>
         db_ret \<lparr>upr_FileID = (case found of Some f \<Rightarrow> file_FileID f | None \<Rightarrow> ''''), upr_Rapid = rapid,
                 upr_Transferred = transferred\<rparr>
     | destinationForeign \<Rightarrow> db_fail (verify_error source)
     | destinationUnsettled \<Rightarrow>
         db_bind (unless_cancelled (cloudDriveUploadPlaceholder drive account parent (ups_Name source))) (\<lambda>pending.
         db_bind (if pending
                  then db_bind time_Now (\<lambda>now. db_ret (now + destinationVerifyTimeout (ups_Size source)))
                  else db_ret deadline) (\<lambda>deadline'.
         db_bind (past_deadline deadline' final) (\<lambda>(late, now).
         if late then db_fail (Errorf ''115 did not finish verifying %s after %s''
                                 [ups_Name source, duration_text (now - started)])
         else db_bind (sleepContext (if now - started > 60 * second then 5 * second else second)) (\<lambda>_.
           again deadline')))))"

fun wait_poll ::
  "nat \<Rightarrow> 'o DriveProvider \<Rightarrow> DriveAccount \<Rightarrow> string \<Rightarrow> UploadSource \<Rightarrow> bool \<Rightarrow> int64 \<Rightarrow> gotime \<Rightarrow> gotime \<Rightarrow> gotime \<Rightarrow>
   ('o service, UploadResult) dbm" where
  "wait_poll 0 drive account parent source rapid transferred started final deadline = db_fail polls_used_up"
| "wait_poll (Suc polls) drive account parent source rapid transferred started final deadline =
     poll_once drive account parent source rapid transferred started final
       (wait_poll polls drive account parent source rapid transferred started final) deadline"

definition verify_polls :: nat where
  "verify_polls = 14402"

definition waitForVerifiedDestination ::
  "'o DriveProvider \<Rightarrow> DriveAccount \<Rightarrow> string \<Rightarrow> UploadSource \<Rightarrow> bool \<Rightarrow> int64 \<Rightarrow> ('o service, UploadResult) dbm" where
  "waitForVerifiedDestination drive account parent source rapid transferred =
     db_bind time_Now (\<lambda>started.
     wait_poll verify_polls drive account parent source rapid transferred started
       (started + destinationVerifyCeiling) (started + destinationVerifyTimeout (ups_Size source)))"

section \<open>What a verified destination is\<close>

text \<open>An object of the source's name is never waited for: it is the verified one or a foreign one.\<close>

lemma present_never_unsettled: "classifyDestination (Some f) source parent \<noteq> destinationUnsettled"
  by (simp add: classifyDestination_def)

definition exact :: "DriveFile \<Rightarrow> UploadSource \<Rightarrow> string \<Rightarrow> bool" where
  "exact f source parent \<longleftrightarrow> \<not> file_IsFolder f \<and> file_ParentID f = parent \<and> file_Name f = ups_Name source \<and>
     file_Size f = ups_Size source \<and> EqualFold (file_Sha1 f) (ups_SHA1 source)"

lemma classify_verified:
  "classifyDestination file source parent = destinationVerified \<Longrightarrow> \<exists>f. file = Some f \<and> exact f source parent"
  by (auto simp: classifyDestination_def exact_def split: option.splits if_splits)

text \<open>What the provider lists, at any time and whatever fails: the files of a set.\<close>

definition lists_only :: "'o DriveProvider \<Rightarrow> DriveAccount \<Rightarrow> string \<Rightarrow> (DriveFile \<Rightarrow> bool) \<Rightarrow> bool" where
  "lists_only drive account parent L \<longleftrightarrow>
     (\<forall>offset limit w. db_wp (pr_ListFiles drive account parent offset limit)
        (\<lambda>r _. \<forall>f \<in> set (fst r). L f) (\<lambda>_ _. True) w)"
lemma find_from_listed:
  "lists_only drive account parent L \<Longrightarrow>
   db_wp (find_from drive account parent p offset) (\<lambda>r _. \<forall>f. r = Some f \<longrightarrow> L f \<and> p f) (\<lambda>_ _. True) s"
proof (induction drive account parent p offset arbitrary: s rule: find_from.induct)
  case (1 drive account parent p offset s)
  let ?Q = "\<lambda>r _. \<forall>f. r = Some f \<longrightarrow> L f \<and> p f"
  have page: "db_wp (on_out (pr_ListFiles drive account parent offset 1000)) (\<lambda>r _. \<forall>f \<in> set (fst r). L f)
      (\<lambda>_ _. True) s"
    using 1(2) by (intro db_wp_on_out) (simp add: lists_only_def)
  show ?case
  proof (cases "offset < quarkMaxEntries")
    case True
    have "db_wp (db_bind (on_out (pr_ListFiles drive account parent offset 1000)) (\<lambda>(files, total).
        case sql_find p files of
          Some f \<Rightarrow> db_ret (Some f)
        | None \<Rightarrow>
            if files = [] \<or> offset + int (length files) \<ge> total then db_ret None
            else find_from drive account parent p (offset + 1000))) ?Q (\<lambda>_ _. True) s"
    proof (rule db_wp_bind, rule db_wp_conseq [OF page], goal_cases)
      case (1 r s1)
      then show ?case
        using sql_find_Some [of p "fst r"]
        by (intro db_wp_case_prod db_wp_case_option db_wp_if db_wp_ret "1.IH" [OF True])
          (auto simp: \<open>lists_only drive account parent L\<close>)
    qed simp
    then show ?thesis using True by (simp add: find_from.simps [of _ _ _ _ offset])
  qed (simp add: find_from.simps [of _ _ _ _ offset] db_wp_fail)
qed

lemma unless_cancelled_wp: "db_wp m Q (\<lambda>_ _. True) s \<Longrightarrow> db_wp (unless_cancelled m) Q (\<lambda>_ _. True) s"
  unfolding unless_cancelled_def
  by (rule db_wp_bind, rule db_wp_try, erule db_wp_conseq)
    (auto intro!: db_wp_ret db_wp_bind db_wp_ctx_Err db_wp_fail)

lemma wait_poll_exact:
  assumes L: "lists_only drive account parent L"
  shows "db_wp (wait_poll polls drive account parent source rapid transferred started final deadline)
     (\<lambda>r _. \<exists>f. L f \<and> exact f source parent \<and> file_FileID f = upr_FileID r) (\<lambda>_ _. True) s"
proof (induction polls arbitrary: deadline s)
  case (Suc polls deadline s)
  have look: "db_wp (unless_cancelled (findDestinationFile drive account parent (ups_Name source)))
      (\<lambda>r _. \<forall>f. r = Some f \<longrightarrow> L f \<and> file_Name f = ups_Name source) (\<lambda>_ _. True) s"
    unfolding findDestinationFile_def by (rule unless_cancelled_wp, rule find_from_listed [OF L])
  show ?case
    unfolding wait_poll.simps poll_once_def
  proof (rule db_wp_bind, rule db_wp_conseq [OF look], goal_cases)
    case (1 found s1)
    show ?case
    proof (cases "classifyDestination found source parent")
      case destinationVerified
      then obtain f where "found = Some f" "exact f source parent"
        using classify_verified by blast
      with 1 destinationVerified show ?thesis
        by (simp, intro db_wp_ret) auto
    next
      case destinationForeign
      then show ?thesis by (simp add: db_wp_fail)
    next
      case destinationUnsettled
      then show ?thesis
        by (simp, intro db_wp_bind db_wp_conseq [OF db_wp_any] db_wp_case_prod db_wp_if db_wp_fail TrueI Suc)
    qed
  qed simp
qed (simp add: db_wp_fail)

text \<open>
  C39. An upload is reported verified only for an object the provider listed under the destination that has
  exactly the parent, the name, the size and the SHA-1 of the source, and its identifier is the result;
  whatever the provider answers or fails in between, and however long the wait lasts.
\<close>

theorem verified_upload_exact:
  assumes "lists_only drive account parent L"
    and "waitForVerifiedDestination drive account parent source rapid transferred fs s = (Inr r, fs', s')"
  shows "\<exists>f. L f \<and> exact f source parent \<and> file_FileID f = upr_FileID r"
  using assms(2)
  unfolding waitForVerifiedDestination_def
  by (intro db_wpD(1) [OF db_wp_bind [OF db_wp_conseq [OF db_wp_any wait_poll_exact [OF assms(1)]]]]) auto

section \<open>The wait ends\<close>

lemma db_bind_cong_wp:
  assumes "db_wp m (\<lambda>x s'. \<forall>fs. k x fs s' = k' x fs s') (\<lambda>_ _. True) s"
  shows "db_bind m k fs s = db_bind m k' fs s"
  using db_wpD(1) [OF assms] by (auto simp: db_bind_def split: prod.split sum.split)

definition clock_runs :: "'o service \<Rightarrow> gotime \<Rightarrow> bool" where
  "clock_runs s now \<longleftrightarrow> mono (sv_clock s) \<and> now \<le> sv_clock s 0"

lemma clock_runs_later: "clock_runs s now \<Longrightarrow> clock_runs (s\<lparr>sv_clock := (\<lambda>n. sv_clock s (Suc n))\<rparr>) now"
  unfolding clock_runs_def mono_def by simp (meson order_trans le0)

lemma clock_runs_sleep:
  "clock_runs s now \<Longrightarrow> d' \<le> d \<Longrightarrow> clock_runs (s\<lparr>sv_clock := (\<lambda>n. sv_clock s n + d)\<rparr>) (now + d')"
  by (auto simp: clock_runs_def mono_def)

lemma find_from_clock:
  "clock_runs s now \<Longrightarrow> db_wp (find_from drive account parent p offset) (\<lambda>_ s'. clock_runs s' now) (\<lambda>_ s'. clock_runs s' now) s"
proof (induction drive account parent p offset arbitrary: s rule: find_from.induct)
  case (1 drive account parent p offset s)
  show ?case
    unfolding find_from.simps [of _ _ _ _ offset]
    by (intro db_wp_if db_wp_bind db_wp_on_out db_wp_conseq [OF db_wp_any] db_wp_case_prod db_wp_case_option
        db_wp_ret db_wp_fail "1.IH") (use 1(2) in \<open>auto simp: clock_runs_def\<close>)
qed

lemma unless_cancelled_clock:
  "db_wp m (\<lambda>_ s'. clock_runs s' now) (\<lambda>_ s'. clock_runs s' now) s \<Longrightarrow>
   db_wp (unless_cancelled m) (\<lambda>_ s'. clock_runs s' now) (\<lambda>_ s'. clock_runs s' now) s"
  unfolding unless_cancelled_def
  by (rule db_wp_bind, rule db_wp_try, erule db_wp_conseq)
    (auto intro!: db_wp_ret db_wp_bind db_wp_ctx_Err db_wp_fail)

lemma past_deadline_clock:
  assumes "clock_runs s now"
  shows "db_wp (past_deadline deadline final) (\<lambda>(late, _) s'. clock_runs s' now \<and> (final < now \<longrightarrow> late)) (\<lambda>_ _. True) s"
proof -
  have "now \<le> sv_clock s n" for n
    using assms unfolding clock_runs_def mono_def by (meson le0 order_trans)
  then show ?thesis
    unfolding past_deadline_def
    by (intro db_wp_bind db_wp_time_Now db_wp_if db_wp_ret) (use assms in \<open>auto simp: clock_runs_def mono_def intro: less_le_trans\<close>)
qed

lemma sleepContext_clock:
  "clock_runs s now \<Longrightarrow> d' \<le> d \<Longrightarrow>
   db_wp (sleepContext d) (\<lambda>_ s'. clock_runs s' (now + d')) (\<lambda>_ _. True) s"
  unfolding sleepContext_def
  by (intro db_wp_bind db_wp_ctx_Err) (auto intro!: db_wp_upd db_wp_fail clock_runs_sleep)

lemma poll_once_cong:
  assumes runs: "clock_runs s now"
    and again: "\<And>s1 deadline'. clock_runs s1 (now + second) \<Longrightarrow> now \<le> final \<Longrightarrow>
      \<forall>fs. again deadline' fs s1 = again' deadline' fs s1"
  shows "poll_once drive account parent source rapid transferred started final again deadline fs s =
     poll_once drive account parent source rapid transferred started final again' deadline fs s"
proof -
  have sleep: "db_wp (sleepContext d) (\<lambda>_ s'. \<forall>fs. again deadline' fs s' = again' deadline' fs s') (\<lambda>_ _. True) s1"
    if "clock_runs s1 now" "now \<le> final" "second \<le> d" for d deadline' s1
    using that(2) by (intro db_wp_conseq [OF sleepContext_clock [OF that(1,3)]] again) auto
  have long: "second \<le> (if b then 5 * second else second)" for b
    by (simp add: second_def)
  have late: "db_wp (past_deadline deadline' final) (\<lambda>r s'. \<forall>fs.
      (case r of (late, now) \<Rightarrow>
         if late then db_fail (e now)
         else db_bind (sleepContext (if now - started > 60 * second then 5 * second else second)) (\<lambda>_. again deadline')) fs s' =
      (case r of (late, now) \<Rightarrow>
         if late then db_fail (e now)
         else db_bind (sleepContext (if now - started > 60 * second then 5 * second else second)) (\<lambda>_. again' deadline')) fs s')
      (\<lambda>_ _. True) s1"
    if "clock_runs s1 now" for deadline' s1 and e :: "gotime \<Rightarrow> error"
    by (rule db_wp_conseq [OF past_deadline_clock [OF that]])
      (auto split: prod.split intro!: db_bind_cong_wp sleep simp: second_def)
  have pend: "db_wp (if pending then db_bind time_Now (\<lambda>now. db_ret (now + destinationVerifyTimeout (ups_Size source)))
                  else db_ret deadline) (\<lambda>_ s'. clock_runs s' now) (\<lambda>_ _. True) s1"
    if "clock_runs s1 now" for pending s1
    using that by (auto intro!: db_wp_bind db_wp_time_Now db_wp_ret clock_runs_later)
  have look: "db_wp (unless_cancelled (findDestinationFile drive account parent (ups_Name source)))
      (\<lambda>_ s'. clock_runs s' now) (\<lambda>_ _. True) s"
    unfolding findDestinationFile_def
    by (rule db_wp_conseq [OF unless_cancelled_clock [OF find_from_clock [OF runs]]]) auto
  have hold: "db_wp (unless_cancelled (cloudDriveUploadPlaceholder drive account parent (ups_Name source)))
      (\<lambda>_ s'. clock_runs s' now) (\<lambda>_ _. True) s1" if "clock_runs s1 now" for s1
    unfolding cloudDriveUploadPlaceholder_def
    by (rule db_wp_conseq [OF unless_cancelled_clock], rule db_wp_bind,
        rule db_wp_conseq [OF find_from_clock [OF that]]) (auto intro: db_wp_ret)
  show ?thesis
    unfolding poll_once_def
  proof (rule db_bind_cong_wp, rule db_wp_conseq [OF look], intro allI, goal_cases)
    case (1 found s1 fs)
    show ?case
    proof (cases "classifyDestination found source parent")
      case destinationUnsettled
      show ?thesis
        unfolding destinationUnsettled destinationState.case
        by (rule db_bind_cong_wp, rule db_wp_conseq [OF hold [OF 1]], intro allI, rule db_bind_cong_wp,
            rule db_wp_conseq [OF pend], assumption, intro allI, rule db_bind_cong_wp, erule late) simp_all
    qed simp_all
  qed simp
qed

lemma wait_poll_more:
  assumes "clock_runs s now" "final < now + int polls * second"
  shows "wait_poll (Suc polls + k) drive account parent source rapid transferred started final deadline fs s =
     wait_poll (Suc polls) drive account parent source rapid transferred started final deadline fs s"
  using assms
proof (induction polls arbitrary: s now deadline fs)
  case (0 s now deadline fs)
  then show ?case by (auto intro!: poll_once_cong)
next
  case (Suc polls s now deadline fs)
  show ?case
    unfolding add_Suc wait_poll.simps(2) [of "Suc polls"] wait_poll.simps(2) [of "Suc (polls + k)"]
    by (rule poll_once_cong [OF Suc.prems(1)], intro allI, unfold add_Suc [symmetric], rule Suc.IH)
      (use Suc.prems(2) in \<open>auto simp: algebra_simps\<close>)
qed

text \<open>More polls never change anything.\<close>

lemma more_polls:
  assumes "mono (sv_clock s)" "verify_polls \<le> polls"
  shows "waitForVerifiedDestination drive account parent source rapid transferred fs s =
     db_bind time_Now (\<lambda>started.
       wait_poll polls drive account parent source rapid transferred started
         (started + destinationVerifyCeiling) (started + destinationVerifyTimeout (ups_Size source))) fs s"
  unfolding waitForVerifiedDestination_def
proof (rule db_bind_cong_wp, rule db_wp_time_Now, intro allI)
  fix fs
  let ?s = "s\<lparr>sv_clock := \<lambda>n. sv_clock s (Suc n)\<rparr>" and ?final = "sv_clock s 0 + destinationVerifyCeiling"
  have runs: "clock_runs ?s (sv_clock s 0)" using assms(1) by (auto simp: clock_runs_def mono_def)
  obtain k where k: "polls = Suc 14401 + k"
    using assms(2) by (auto simp: verify_polls_def dest!: le_Suc_ex)
  have end': "?final < sv_clock s 0 + int 14401 * second"
    by (simp add: destinationVerifyCeiling_def second_def)
  have v: "verify_polls = Suc 14401" by (simp add: verify_polls_def)
  show "wait_poll verify_polls drive account parent source rapid transferred (sv_clock s 0) ?final
      (sv_clock s 0 + destinationVerifyTimeout (ups_Size source)) fs ?s =
    wait_poll polls drive account parent source rapid transferred (sv_clock s 0) ?final
      (sv_clock s 0 + destinationVerifyTimeout (ups_Size source)) fs ?s"
    unfolding k v by (rule wait_poll_more [OF runs end', symmetric])
qed

text \<open>The clock is not past \<open>T\<close>, and two readings that no pause separates are at most \<open>g\<close> apart.\<close>

definition clock_by :: "int \<Rightarrow> 'o service \<Rightarrow> gotime \<Rightarrow> bool" where
  "clock_by g s T \<longleftrightarrow> sv_clock s 0 \<le> T \<and> (\<forall>n. sv_clock s (Suc n) \<le> sv_clock s n + g)"

lemma clock_by_mono: "clock_by g s T \<Longrightarrow> T \<le> T' \<Longrightarrow> clock_by g s T'"
  by (auto simp: clock_by_def)

lemma time_Now_by:
  "clock_by g s T \<Longrightarrow> db_wp time_Now (\<lambda>now s'. now \<le> T \<and> clock_by g s' (now + g)) (\<lambda>_ _. False) s"
  by (intro db_wp_time_Now) (simp add: clock_by_def)

lemma find_from_by:
  "clock_by g s T \<Longrightarrow> db_wp (find_from drive account parent p offset) (\<lambda>_ s'. clock_by g s' T) (\<lambda>_ s'. clock_by g s' T) s"
proof (induction drive account parent p offset arbitrary: s rule: find_from.induct)
  case (1 drive account parent p offset s)
  show ?case
    unfolding find_from.simps [of _ _ _ _ offset]
    by (intro db_wp_if db_wp_bind db_wp_on_out db_wp_conseq [OF db_wp_any] db_wp_case_prod db_wp_case_option
        db_wp_ret db_wp_fail "1.IH") (use 1(2) in \<open>auto simp: clock_by_def\<close>)
qed

lemma unless_cancelled_by:
  "db_wp m (\<lambda>_ s'. clock_by g s' T) (\<lambda>_ s'. clock_by g s' T) s \<Longrightarrow>
   db_wp (unless_cancelled m) (\<lambda>_ s'. clock_by g s' T) (\<lambda>_ s'. clock_by g s' T) s"
  unfolding unless_cancelled_def
  by (rule db_wp_bind, rule db_wp_try, erule db_wp_conseq)
    (auto intro!: db_wp_ret db_wp_bind db_wp_ctx_Err db_wp_fail)

lemma lookups_by:
  assumes "clock_by g s T"
  shows "db_wp (unless_cancelled (findDestinationFile drive account parent name))
      (\<lambda>_ s'. clock_by g s' T) (\<lambda>_ s'. clock_by g s' T) s"
    and "db_wp (unless_cancelled (cloudDriveUploadPlaceholder drive account parent name))
      (\<lambda>_ s'. clock_by g s' T) (\<lambda>_ s'. clock_by g s' T) s"
  unfolding findDestinationFile_def cloudDriveUploadPlaceholder_def
  by (rule unless_cancelled_by, rule find_from_by [OF assms])
    (rule unless_cancelled_by, rule db_wp_bind, rule db_wp_conseq [OF find_from_by [OF assms]], auto intro: db_wp_ret)

lemma past_deadline_by:
  assumes "clock_by g s T" "0 \<le> g"
  shows "db_wp (past_deadline deadline final)
     (\<lambda>(late, _) s'. clock_by g s' (T + 3 * g) \<and> (\<not> late \<longrightarrow> clock_by g s' (final + 2 * g))) (\<lambda>_ _. False) s"
proof -
  have c: "sv_clock s 0 \<le> T" and step: "\<And>n. sv_clock s (Suc n) \<le> sv_clock s n + g"
    using assms(1) by (auto simp: clock_by_def)
  have "sv_clock s (Suc 0) \<le> T + g" "sv_clock s (Suc (Suc 0)) \<le> T + 2 * g"
    "sv_clock s (Suc (Suc (Suc 0))) \<le> T + 3 * g"
    "sv_clock s (Suc (Suc (Suc 0))) \<le> sv_clock s (Suc 0) + 2 * g"
    using c step [of 0] step [of "Suc 0"] step [of "Suc (Suc 0)"] by auto
  then show ?thesis
    unfolding past_deadline_def
    by (intro db_wp_bind db_wp_time_Now db_wp_if db_wp_ret) (use step assms(2) in \<open>auto simp: clock_by_def\<close>)
qed

lemma sleepContext_by:
  "clock_by g s T \<Longrightarrow> 0 \<le> d \<Longrightarrow> db_wp (sleepContext d) (\<lambda>_ s'. clock_by g s' (T + d)) (\<lambda>_ s'. clock_by g s' (T + d)) s"
  unfolding sleepContext_def
  by (intro db_wp_bind db_wp_ctx_Err) (auto intro!: db_wp_upd db_wp_fail simp: clock_by_def)

text \<open>A poll that begins by \<open>T\<close> ends by \<open>T + 4 * g\<close>, or goes on soon after the ceiling at the latest.\<close>

lemma poll_once_by:
  assumes upto: "clock_by g s T" and g: "0 \<le> g" and le: "final + 2 * g + 5 * second \<le> E" "T + 4 * g \<le> E"
    and again: "\<And>s1 deadline'. clock_by g s1 (final + 2 * g + 5 * second) \<Longrightarrow>
      db_wp (again deadline') (\<lambda>_ s'. clock_by g s' E) (\<lambda>_ s'. clock_by g s' E) s1"
  shows "db_wp (poll_once drive account parent source rapid transferred started final again deadline)
     (\<lambda>_ s'. clock_by g s' E) (\<lambda>_ s'. clock_by g s' E) s"
proof -
  have mono: "clock_by g s' E" if "clock_by g s' T" for s'
    using that le(2) g by (auto intro: clock_by_mono)
  have sleep: "db_wp (db_bind (sleepContext (if b then 5 * second else second)) (\<lambda>_. again deadline'))
      (\<lambda>_ s'. clock_by g s' E) (\<lambda>_ s'. clock_by g s' E) s1"
    if "clock_by g s1 (final + 2 * g)" for s1 b deadline'
  proof (rule db_wp_bind, rule db_wp_conseq [OF sleepContext_by [OF that]], goal_cases)
    case (2 u s2)
    then show ?case by (intro again) (auto simp: second_def intro: clock_by_mono split: if_splits)
  next
    case (3 e s2)
    then show ?case using le(1) by (auto simp: second_def intro: clock_by_mono split: if_splits)
  qed (simp add: second_def)
  have late: "db_wp (db_bind (past_deadline deadline' final) (\<lambda>(late, now).
         if late then db_fail (e now)
         else db_bind (sleepContext (if now - started > 60 * second then 5 * second else second)) (\<lambda>_.
           again deadline'))) (\<lambda>_ s'. clock_by g s' E) (\<lambda>_ s'. clock_by g s' E) s1"
    if "clock_by g s1 (T + g)" for s1 deadline' and e :: "gotime \<Rightarrow> error"
  proof (rule db_wp_bind, rule db_wp_conseq [OF past_deadline_by [OF that g]], goal_cases)
    case (1 r s2)
    obtain late now where r: "r = (late, now)" by (cases r)
    show ?case
    proof (cases late)
      case True
      with 1 le(2) show ?thesis by (auto simp: r intro!: db_wp_fail elim: clock_by_mono)
    next
      case False
      with 1 have "clock_by g s2 (final + 2 * g)" by (simp add: r)
      from sleep [OF this] False show ?thesis unfolding r prod.case by simp
    qed
  qed simp
  have pend: "db_wp (if pending then db_bind time_Now (\<lambda>now. db_ret (now + destinationVerifyTimeout (ups_Size source)))
                  else db_ret deadline) (\<lambda>_ s'. clock_by g s' (T + g)) (\<lambda>_ s'. clock_by g s' E) s1"
    if "clock_by g s1 T" for pending s1
    by (intro db_wp_if db_wp_bind db_wp_conseq [OF time_Now_by [OF that]] db_wp_ret)
      (use that g in \<open>auto elim: clock_by_mono\<close>)
  show ?thesis
    unfolding poll_once_def
  proof (rule db_wp_bind, rule db_wp_conseq [OF lookups_by(1) [OF upto]], goal_cases)
    case (1 found s1)
    show ?case
    proof (cases "classifyDestination found source parent")
      case destinationUnsettled
      show ?thesis
        unfolding destinationUnsettled destinationState.case
        by (rule db_wp_bind, rule db_wp_conseq [OF lookups_by(2) [OF 1]], rule db_wp_bind,
            rule db_wp_conseq [OF pend], assumption, rule late) (auto intro: mono)
    qed (auto intro!: db_wp_ret db_wp_fail mono 1)
  qed (rule mono)
qed

lemma wait_poll_by:
  "clock_by g s T \<Longrightarrow> T \<le> final + 2 * g + 5 * second \<Longrightarrow> 0 \<le> g \<Longrightarrow>
   db_wp (wait_poll polls drive account parent source rapid transferred started final deadline)
     (\<lambda>_ s'. clock_by g s' (final + 6 * g + 5 * second)) (\<lambda>_ s'. clock_by g s' (final + 6 * g + 5 * second)) s"
proof (induction polls arbitrary: deadline s T)
  case (Suc polls deadline s T)
  show ?case
    unfolding wait_poll.simps
    by (rule poll_once_by [OF Suc.prems(1,3)]) (use Suc in auto)
qed (auto intro!: db_wp_fail elim: clock_by_mono)

text \<open>
  C40. The wait for a verified destination ends in time: whatever deadline extensions the pending uploads ask for and
  whatever fails, four hours and five seconds after its start it is over, give or take the time of six readings of
  the clock, where a reading comes at most \<open>g\<close> after the one before (the lookups between them included, the
  pauses of the wait itself not). In the model, more polls than \<open>verify_polls\<close> never change anything.
\<close>

theorem wait_ends:
  assumes "mono (sv_clock s)" "\<forall>n. sv_clock s (Suc n) \<le> sv_clock s n + g" "verify_polls \<le> polls"
  shows "sv_clock (db_state (waitForVerifiedDestination drive account parent source rapid transferred fs s)) 0
       \<le> sv_clock s 0 + (4 * 3600 + 5) * second + 6 * g \<and>
    waitForVerifiedDestination drive account parent source rapid transferred fs s =
     db_bind time_Now (\<lambda>started.
       wait_poll polls drive account parent source rapid transferred started
         (started + destinationVerifyCeiling) (started + destinationVerifyTimeout (ups_Size source))) fs s"
proof
  have g: "0 \<le> g"
    using monoD [OF assms(1), of 0 "Suc 0"] spec [OF assms(2), of 0] by simp

  have "db_wp (waitForVerifiedDestination drive account parent source rapid transferred)
      (\<lambda>_ s'. clock_by g s' (sv_clock s 0 + destinationVerifyCeiling + 6 * g + 5 * second))
      (\<lambda>_ s'. clock_by g s' (sv_clock s 0 + destinationVerifyCeiling + 6 * g + 5 * second)) s"
    unfolding waitForVerifiedDestination_def
  proof (rule db_wp_bind, rule db_wp_time_Now)
    let ?s = "s\<lparr>sv_clock := \<lambda>n. sv_clock s (Suc n)\<rparr>"
    have "clock_by g ?s (sv_clock s 0 + g)" using assms(2) by (simp add: clock_by_def)
    then show "db_wp (wait_poll verify_polls drive account parent source rapid transferred (sv_clock s 0)
        (sv_clock s 0 + destinationVerifyCeiling) (sv_clock s 0 + destinationVerifyTimeout (ups_Size source)))
      (\<lambda>_ s'. clock_by g s' (sv_clock s 0 + destinationVerifyCeiling + 6 * g + 5 * second))
      (\<lambda>_ s'. clock_by g s' (sv_clock s 0 + destinationVerifyCeiling + 6 * g + 5 * second)) ?s"
      by (rule wait_poll_by) (use g in \<open>simp_all add: destinationVerifyCeiling_def second_def\<close>)
  qed
  from db_wp_state [where P = "\<lambda>s'. clock_by g s' (sv_clock s 0 + destinationVerifyCeiling + 6 * g + 5 * second)", OF this, of fs]
  show "sv_clock (db_state (waitForVerifiedDestination drive account parent source rapid transferred fs s)) 0
       \<le> sv_clock s 0 + (4 * 3600 + 5) * second + 6 * g"
    by (auto simp: clock_by_def destinationVerifyCeiling_def second_def algebra_simps)
next
  show "waitForVerifiedDestination drive account parent source rapid transferred fs s =
     db_bind time_Now (\<lambda>started.
       wait_poll polls drive account parent source rapid transferred started
         (started + destinationVerifyCeiling) (started + destinationVerifyTimeout (ups_Size source))) fs s"
    by (rule more_polls [OF assms(1,3)])
qed

section \<open>Concrete instances\<close>

definition uploaded_file :: DriveFile where
  "uploaded_file = (example_file ''f9'' ''p'' ''movie.mkv'' 9 False)\<lparr>file_Sha1 := ''AB''\<rparr>"

definition upload_drive :: "(string \<Rightarrow> DriveFile list) DriveProvider" where
  "upload_drive = example_provider\<lparr>pr_ListFiles := (\<lambda>a parent offset limit. db_ret ([uploaded_file], 1))\<rparr>"

definition uploaded_source :: UploadSource where
  "uploaded_source = \<lparr>ups_Path = ''/spool/1'', ups_Name = ''movie.mkv'', ups_Size = 9, ups_SHA1 = ''ab'',
     ups_PreSHA1 = '''', ups_UploadID = '''', ups_Bucket = '''', ups_Object = ''''\<rparr>"

theorem verified_upload_exact_witness:
  "\<exists>fs' s'. waitForVerifiedDestination upload_drive (example_account ''a'' ''115'') ''p'' uploaded_source False 9 []
      example_service = (Inr \<lparr>upr_FileID = ''f9'', upr_Rapid = False, upr_Transferred = 9\<rparr>, fs', s') \<and>
    exact uploaded_file uploaded_source ''p''"
proof -
  let ?run = "waitForVerifiedDestination upload_drive (example_account ''a'' ''115'') ''p'' uploaded_source False 9 []
      example_service"
  obtain r fs' s' where run: "?run = (r, fs', s')" by (cases ?run)
  have "fst ?run = Inr \<lparr>upr_FileID = ''f9'', upr_Rapid = False, upr_Transferred = 9\<rparr>" by code_simp
  with run have ok: "?run = (Inr \<lparr>upr_FileID = ''f9'', upr_Rapid = False, upr_Transferred = 9\<rparr>, fs', s')" by simp
  have "lists_only upload_drive (example_account ''a'' ''115'') ''p'' (\<lambda>f. f = uploaded_file)"
    by (auto simp: lists_only_def upload_drive_def intro: db_wp_ret)
  from verified_upload_exact [OF this ok] ok show ?thesis by auto
qed

theorem wait_ends_witness:
  "sv_clock (db_state (waitForVerifiedDestination example_provider (example_account ''a'' ''115'') ''p''
      uploaded_source False 9 [] example_service)) 0 \<le> 10 + (4 * 3600 + 5) * second"
proof -
  have clock: "mono (sv_clock example_service)" "verify_polls \<le> 20000"
    "\<forall>n. sv_clock example_service (Suc n) \<le> sv_clock example_service n + 0" "sv_clock example_service 0 = 10"
    by (simp_all add: example_service_def mono_def verify_polls_def)
  note in_time = wait_ends [OF clock(1,3,2), THEN conjunct1,
      of example_provider "example_account ''a'' ''115''" "''p''" uploaded_source False 9 "[]"]
  show ?thesis using in_time unfolding clock(4) by simp
qed

end
