(* ===== verification/NasClient.thy ===== *)
theory NasClient
  imports Service TransferWorker TaskPayload
begin

text \<open>
  The client of the transfer worker, \<open>internal/service/nas_worker.go\<close>: its configuration from the
  environment, and one request over SSH with the events the worker prints.

  The SSH process is a parameter: for a request it gives the lines of its output and how it ended. It is an
  arbitrary program over the world outside; that of the worker itself (theory TransferWorker) is one of them.
\<close>

section \<open>Configuration\<close>

definition target_char :: "char \<Rightarrow> bool" where
  "target_char c \<longleftrightarrow> c \<in> set ''ABCDEFGHIJKLMNOPQRSTUVWXYZabcdefghijklmnopqrstuvwxyz0123456789.-''"

text \<open>The pattern \<open>^[A-Za-z0-9._-]+@[A-Za-z0-9.-]+$\<close>.\<close>

definition sshTargetPattern :: "string \<Rightarrow> bool" where
  "sshTargetPattern s =
     (let user = takeWhile (\<lambda>c. target_char c \<or> c = CHR ''_'') s; rest = drop (length user) s in
      user \<noteq> [] \<and> (case rest of c # host \<Rightarrow> c = CHR ''@'' \<and> host \<noteq> [] \<and> list_all target_char host | [] \<Rightarrow> False))"

record NASWorkerClient =
  nas_target :: string
  nas_port :: int
  nas_identityFile :: string
  nas_knownHostsFile :: string

text \<open>What \<open>os.Stat\<close> tells of a path: an error, or whether the file is regular and its permission bits.\<close>

definition validateWorkerFile :: "(string \<Rightarrow> error + bool \<times> nat) \<Rightarrow> string \<Rightarrow> bool \<Rightarrow> error option" where
  "validateWorkerFile stat path private =
     (if path = '''' \<or> \<not> prefix ''/'' path then Some (Errorf ''path must be absolute'' [])
      else case stat path of
        Inl e \<Rightarrow> Some e
      | Inr (regular, perm) \<Rightarrow>
          if \<not> regular then Some (Errorf ''path is not a regular file'' [])
          else if private \<and> perm mod 64 \<noteq> 0
          then Some (Errorf ''private key permissions must not grant group or other access'' [])
          else None)"

definition worker_port :: "string \<Rightarrow> error + int" where
  "worker_port raw =
     (if raw = '''' then Inr 22
      else case Atoi raw of
        Some n \<Rightarrow> if n < 1 \<or> n > 65535
          then Inl (Errorf ''EMBYMEDIA_NAS_WORKER_SSH_PORT must be between 1 and 65535'' []) else Inr n
      | None \<Rightarrow> Inl (Errorf ''EMBYMEDIA_NAS_WORKER_SSH_PORT must be between 1 and 65535'' []))"

definition NASWorkerFromEnvironment ::
  "(string \<Rightarrow> string) \<Rightarrow> (string \<Rightarrow> error + bool \<times> nat) \<Rightarrow> error + NASWorkerClient option" where
  "NASWorkerFromEnvironment getenv stat =
     (let target = TrimSpace (getenv ''EMBYMEDIA_NAS_WORKER_SSH_TARGET'');
          identity = TrimSpace (getenv ''EMBYMEDIA_NAS_WORKER_SSH_IDENTITY_FILE'');
          hosts = TrimSpace (getenv ''EMBYMEDIA_NAS_WORKER_SSH_KNOWN_HOSTS_FILE'') in
      if target = '''' then Inr None
      else case worker_port (TrimSpace (getenv ''EMBYMEDIA_NAS_WORKER_SSH_PORT'')) of
        Inl e \<Rightarrow> Inl e
      | Inr port \<Rightarrow>
          if \<not> sshTargetPattern target
          then Inl (Errorf ''EMBYMEDIA_NAS_WORKER_SSH_TARGET must be user@host'' [])
          else case validateWorkerFile stat identity True of
            Some e \<Rightarrow> Inl (Wrapf ''NAS worker identity file: %w'' [] e)
          | None \<Rightarrow> (case validateWorkerFile stat hosts False of
              Some e \<Rightarrow> Inl (Wrapf ''NAS worker known-hosts file: %w'' [] e)
            | None \<Rightarrow> Inr (Some \<lparr>nas_target = target, nas_port = port, nas_identityFile = identity,
                nas_knownHostsFile = hosts\<rparr>)))"

section \<open>One request\<close>

text \<open>A line of output: no event, an event with something after it, or one event.\<close>

datatype worker_line = Undecodable error | TrailingJSON | EventLine Event

record ssh_output =
  ssh_lines :: "worker_line list"
  ssh_scanErr :: "error option"
  ssh_waitErr :: "error option"
  ssh_stderr :: "string list"

type_synonym 'o ssh = "Request \<Rightarrow> ('o, ssh_output) dbm"

definition zero_event :: Event where
  "zero_event = \<lparr>evt_Version = 0, evt_Type = '''', evt_Phase = '''', evt_DownloadedBytes = 0, evt_Size = 0,
     evt_SHA1 = '''', evt_PreSHA1 = '''', evt_Error = ''''\<rparr>"

text \<open>The loop over the lines, with the variables \<open>completed\<close> and \<open>workerError\<close>.\<close>

fun read_events ::
  "(Event \<Rightarrow> ('o service, unit) dbm) option \<Rightarrow> Event \<Rightarrow> string \<Rightarrow> worker_line list \<Rightarrow>
   ('o service, Event \<times> string) dbm" where
  "read_events progress completed workerError [] = db_ret (completed, workerError)"
| "read_events progress completed workerError (Undecodable e # rest) =
     db_fail (Wrapf ''decode NAS worker event: %w'' [] e)"
| "read_events progress completed workerError (TrailingJSON # rest) =
     db_fail (Errorf ''NAS worker event must contain one JSON object'' [])"
| "read_events progress completed workerError (EventLine event # rest) =
     (if evt_Version event \<noteq> ProtocolVersion
      then db_fail (Errorf ''NAS worker returned protocol version %d'' [show_int (evt_Version event)])
      else if evt_Type event = ''progress''
      then (case progress of
              None \<Rightarrow> read_events progress completed workerError rest
            | Some report \<Rightarrow> db_bind (report event) (\<lambda>_. read_events progress completed workerError rest))
      else if evt_Type event = ''completed''
      then (if evt_Type completed \<noteq> '''' then db_fail (Errorf ''NAS worker returned multiple completion events'' [])
            else read_events progress event workerError rest)
      else if evt_Type event = ''error''
      then read_events progress completed (TrimSpace (evt_Error event)) rest
      else db_fail (Errorf ''NAS worker returned unknown event type %q'' [quoted (evt_Type event)]))"

text \<open>\<open>limitedBuffer\<close> keeps the first 64 KiB.\<close>

definition limitedBuffer_Write :: "string \<Rightarrow> string \<Rightarrow> string" where
  "limitedBuffer_Write data v = data @ take (min (length v) (65536 - length data)) v"

definition stderr_text :: "string list \<Rightarrow> string" where
  "stderr_text pieces = TrimSpace (foldl limitedBuffer_Write [] pieces)"

definition run_ended :: "ssh_output \<Rightarrow> Event \<Rightarrow> string \<Rightarrow> error + Event" where
  "run_ended output completed workerError =
     (case ssh_scanErr output of
        Some e \<Rightarrow> Inl (Wrapf ''read NAS worker output: %w'' [] e)
      | None \<Rightarrow>
          if workerError \<noteq> '''' then Inl (Errorf ''NAS worker: %s'' [workerError])
          else case ssh_waitErr output of
            Some e \<Rightarrow>
              let message = stderr_text (ssh_stderr output) in
              if message = '''' then Inl (Wrapf ''NAS worker exited: %w'' [] e)
              else Inl (Wrapf ''NAS worker exited: %w: %s'' [message] e)
          | None \<Rightarrow>
              if evt_Type completed \<noteq> ''completed''
              then Inl (Errorf ''NAS worker exited without a completion event'' [])
              else Inr completed)"

definition worker_run ::
  "'o ssh \<Rightarrow> Request \<Rightarrow> (Event \<Rightarrow> ('o service, unit) dbm) option \<Rightarrow> ('o service, Event) dbm" where
  "worker_run ssh request progress =
     (case Validate request of
        Some e \<Rightarrow> db_fail e
      | None \<Rightarrow>
          db_bind (db_wrap (Wrapf ''start NAS transfer worker: %w'' []) (on_out (ssh request))) (\<lambda>output.
          db_bind (read_events progress zero_event '''' (ssh_lines output)) (\<lambda>(completed, workerError).
          db_bind ctx_Err (\<lambda>cancelled. case cancelled of Some e \<Rightarrow> db_fail e | None \<Rightarrow>
          (case run_ended output completed workerError of Inl e \<Rightarrow> db_fail e | Inr event \<Rightarrow> db_ret event)))))"

definition zero_request :: Request where
  "zero_request = \<lparr>req_Version = 0, req_Operation = '''', req_JobID = '''', req_AccountID = '''',
     req_SourceFileID = '''', req_SourceRevision = '''', req_Name = '''', req_Size = 0, req_ExpectedSHA1 = '''',
     req_QuarkCookie = '''', req_Destination = '''', req_Replace = False, req_Connections = 0,
     req_RequiredFreeBytes = 0\<rparr>"

definition worker_Check :: "'o ssh \<Rightarrow> string \<Rightarrow> string \<Rightarrow> int64 \<Rightarrow> ('o service, unit) dbm" where
  "worker_Check ssh jobID destination requiredFreeBytes =
     db_bind (worker_run ssh (zero_request\<lparr>req_Version := ProtocolVersion, req_Operation := OperationCheck,
       req_JobID := jobID, req_Destination := destination, req_RequiredFreeBytes := requiredFreeBytes\<rparr>) None)
       (\<lambda>_. db_ret ())"

definition worker_Download ::
  "'o ssh \<Rightarrow> Request \<Rightarrow> (Event \<Rightarrow> ('o service, unit) dbm) \<Rightarrow> ('o service, Event) dbm" where
  "worker_Download ssh request progress =
     worker_run ssh (request\<lparr>req_Version := ProtocolVersion, req_Operation := OperationDownload\<rparr>) (Some progress)"

definition worker_Publish ::
  "'o ssh \<Rightarrow> Request \<Rightarrow> (Event \<Rightarrow> ('o service, unit) dbm) \<Rightarrow> ('o service, Event) dbm" where
  "worker_Publish ssh request progress =
     worker_run ssh (request\<lparr>req_Version := ProtocolVersion, req_Operation := OperationPublish\<rparr>) (Some progress)"

definition worker_Commit :: "'o ssh \<Rightarrow> string \<Rightarrow> string \<Rightarrow> string \<Rightarrow> ('o service, unit) dbm" where
  "worker_Commit ssh jobID accountID sourceFileID =
     db_bind (worker_run ssh (zero_request\<lparr>req_Version := ProtocolVersion, req_Operation := OperationCommit,
       req_JobID := jobID, req_AccountID := accountID, req_SourceFileID := sourceFileID\<rparr>) None) (\<lambda>_. db_ret ())"

end
