(* ===== verification/Upload115.thy ===== *)
theory Upload115
  imports UploadVerify
begin

text \<open>
  Uploads to 115: the multipart upload of \<open>internal/service/provider_115_upload.go\<close> and the publication
  through the CloudDrive2 mount of \<open>internal/service/clouddrive_upload.go\<close>.

  The SDKs of 115 and of its object store, the file system and the CloudDrive2 service are third-party
  code: they are records of arbitrary programs over the world outside. The JSON form of a stored credential
  is decoded by the parameter \<open>sdk_Credential\<close>.
\<close>

section \<open>The SDKs\<close>

record upload_request =
  uq_FileName :: string
  uq_FileSize :: int64
  uq_Target :: string
  uq_FileID :: string
  uq_PreID :: string
  uq_SignKey :: string
  uq_SignVal :: string

text \<open>The field \<open>Callback\<close> of the answer is one pair or a list of them.\<close>

record upload_init =
  ui_Status :: int
  ui_SignCheck :: string
  ui_SignKey :: string
  ui_Bucket :: string
  ui_Object :: string
  ui_Callback :: "(string \<times> string) option"
  ui_Callbacks :: "(string \<times> string) list"

record oss_token =
  ot_Endpoint :: string
  ot_AccessKeyId :: string
  ot_AccessKeySecret :: string
  ot_SecurityToken :: string

record multipart =
  mp_Bucket :: string
  mp_Key :: string
  mp_UploadID :: string

type_synonym credential = "string \<times> string"

record 'o upload_sdk =
  sdk_Credential :: "string \<Rightarrow> credential option"
  sdk_UploadInit :: "credential \<Rightarrow> upload_request \<Rightarrow> ('o, upload_init) dbm"
  sdk_UploadGetToken :: "credential \<Rightarrow> ('o, oss_token) dbm"
  oss_New :: "string \<Rightarrow> oss_token \<Rightarrow> error option"
  oss_Bucket :: "string \<Rightarrow> error option"
  oss_Initiate :: "oss_token \<Rightarrow> string \<Rightarrow> string \<Rightarrow> ('o, multipart) dbm"
  oss_ListParts :: "oss_token \<Rightarrow> multipart \<Rightarrow> ('o, (int \<times> string \<times> int64) list) dbm"
  oss_UploadPart :: "oss_token \<Rightarrow> multipart \<Rightarrow> string \<Rightarrow> int64 \<Rightarrow> int64 \<Rightarrow> int \<Rightarrow> ('o, string) dbm"
  oss_Complete :: "oss_token \<Rightarrow> multipart \<Rightarrow> (int \<times> string) list \<Rightarrow> string \<Rightarrow> string \<Rightarrow> ('o, unit) dbm"
  oss_Abort :: "oss_token \<Rightarrow> multipart \<Rightarrow> ('o, unit) dbm"

text \<open>
  The file system calls. A status is \<open>None\<close> where \<open>os.IsNotExist\<close> holds of the error; \<open>os_Copy\<close> gives the
  bytes written and the error \<open>io.CopyBuffer\<close> stops with.
\<close>

record file_info =
  fi_Regular :: bool
  fi_Dir :: bool
  fi_Size :: int64

record 'o local_files =
  os_Stat :: "string \<Rightarrow> ('o, file_info option) dbm"
  os_Lstat :: "string \<Rightarrow> ('o, file_info option) dbm"
  os_ReadAll :: "string \<Rightarrow> ('o, string) dbm"
  os_Open :: "string \<Rightarrow> ('o, unit) dbm"
  os_CreateExcl :: "string \<Rightarrow> ('o, unit) dbm"
  os_Copy :: "string \<Rightarrow> string \<Rightarrow> ('o, int64 \<times> error option) dbm"
  os_Sync :: "string \<Rightarrow> ('o, unit) dbm"
  os_Close :: "string \<Rightarrow> ('o, unit) dbm"
  os_Rename :: "string \<Rightarrow> string \<Rightarrow> ('o, unit) dbm"
  os_Remove :: "string \<Rightarrow> ('o, unit) dbm"
  os_MkdirAll :: "string \<Rightarrow> ('o, unit) dbm"
  os_Writable :: "string \<Rightarrow> ('o, unit) dbm"
  os_Free :: "string \<Rightarrow> ('o, int64) dbm"

section \<open>Credentials, hashes and callbacks\<close>

definition validSHA1 :: "string \<Rightarrow> bool" where
  "validSHA1 v \<longleftrightarrow> length v = 40 \<and> list_all (\<lambda>c. digit_value c \<noteq> None) v"

definition token_required :: error where
  "token_required = Errorf ''115 Open Platform access token is required for verified upload'' []"

definition c115SDK :: "'o upload_sdk \<Rightarrow> DriveAccount \<Rightarrow> error + credential" where
  "c115SDK sdk account =
     (let raw = TrimSpace (acc_Token account) in
      if raw = '''' then Inl token_required
      else case (if prefix ''{'' raw then sdk_Credential sdk raw else Some (raw, '''')) of
        None \<Rightarrow> Inl (Errorf ''invalid 115 upload credential'' [])
      | Some c \<Rightarrow> if TrimSpace (fst c) = '''' then Inl token_required else Inr c)"

definition upper :: "string \<Rightarrow> string" where
  "upper s = map ascii_upper s"

definition sign_range :: error where
  "sign_range = Errorf ''115 upload requested an invalid sign range'' []"

text \<open>The range of a challenge; the length of \<open>CopyN\<close> is an \<open>int64\<close>.\<close>

definition parse_range :: "string \<Rightarrow> error + int \<times> int" where
  "parse_range specification =
     (case split_on CHR ''-'' specification of
        [a, b] \<Rightarrow>
          (case Atoi a of
             None \<Rightarrow> Inl sign_range
           | Some start \<Rightarrow> if start < 0 then Inl sign_range
             else (case Atoi b of
                None \<Rightarrow> Inl sign_range
              | Some end \<Rightarrow> if end < start then Inl sign_range else Inr (start, end)))
      | _ \<Rightarrow> Inl sign_range)"

definition hashFileRange :: "'o local_files \<Rightarrow> string \<Rightarrow> string \<Rightarrow> ('o service, string) dbm" where
  "hashFileRange os path specification =
     (case parse_range specification of
        Inl e \<Rightarrow> db_fail e
      | Inr (start, end) \<Rightarrow>
          db_bind (on_out (os_ReadAll os path)) (\<lambda>content.
          let n = sint (word_of_int (end - start + 1) :: 64 word);
              rest = drop (nat start) content in
          if int (length rest) < n then db_fail (Errorf ''EOF'' [])
          else db_ret (upper (sha1_hex (take (nat n) rest)))))"

definition callbackValues :: "upload_init \<Rightarrow> string \<times> string" where
  "callbackValues init =
     (case ui_Callback init of
        Some c \<Rightarrow> c
      | None \<Rightarrow> (case ui_Callbacks init of c # _ \<Rightarrow> c | [] \<Rightarrow> ('''', '''')))"

section \<open>The multipart upload\<close>

definition uploadPartSize :: int64 where
  "uploadPartSize = 16 * 2 ^ 20"

type_synonym 'o on_session = "string \<Rightarrow> string \<Rightarrow> string \<Rightarrow> ('o service, unit) dbm"
type_synonym 'o on_part = "int \<Rightarrow> string \<Rightarrow> int64 \<Rightarrow> ('o service, unit) dbm"

definition oss_endpoint :: "string \<Rightarrow> string" where
  "oss_endpoint raw =
     (let endpoint = TrimSpace raw in
      if list_ex (prefix ''://'') (suffixes endpoint) then endpoint else ''https://'' @ endpoint)"

definition lift_error :: "error + 'a \<Rightarrow> ('d, 'a) dbm" where
  "lift_error r = (case r of Inl e \<Rightarrow> db_fail e | Inr x \<Rightarrow> db_ret x)"

definition fail_if :: "error option \<Rightarrow> ('d, unit) dbm" where
  "fail_if r = (case r of Some e \<Rightarrow> db_fail e | None \<Rightarrow> db_ret ())"

text \<open>The parts the store has already; a failure to record one is ignored.\<close>

fun record_listed :: "'o on_part \<Rightarrow> (int \<times> string \<times> int64) list \<Rightarrow> (int \<times> string) list \<Rightarrow>
    ('o service, (int \<times> string) list) dbm" where
  "record_listed onPart [] parts = db_ret parts"
| "record_listed onPart ((number, etag, sz) # listed) parts =
     db_bind (db_try (onPart number etag sz)) (\<lambda>_.
     record_listed onPart listed (AList.update number etag parts))"

text \<open>The loop over the part numbers.\<close>

fun upload_parts ::
  "'o upload_sdk \<Rightarrow> oss_token \<Rightarrow> multipart \<Rightarrow> UploadSource \<Rightarrow> 'o on_part \<Rightarrow> int list \<Rightarrow> (int \<times> string) list \<Rightarrow>
   ('o service, (int \<times> string) list) dbm" where
  "upload_parts sdk token mp source onPart [] parts = db_ret parts"
| "upload_parts sdk token mp source onPart (number # numbers) parts =
     db_bind ctx_Err (\<lambda>cancelled. case cancelled of Some e \<Rightarrow> db_fail e | None \<Rightarrow>
     let start = (number - 1) * uploadPartSize; sz = min uploadPartSize (ups_Size source - start) in
     if map_of parts number \<noteq> None then upload_parts sdk token mp source onPart numbers parts
     else
       db_bind (db_wrap (Wrapf ''upload 115 multipart part %d: %w'' [show_int number])
                 (on_out (oss_UploadPart sdk token mp (ups_Path source) start sz number))) (\<lambda>etag.
       db_bind (onPart number etag sz) (\<lambda>_.
       upload_parts sdk token mp source onPart numbers (AList.update number etag parts))))"

definition part_count :: "int64 \<Rightarrow> int" where
  "part_count sz = (sz + uploadPartSize - 1) div uploadPartSize"

text \<open>The upload under way: the one the source names, or a new one that is recorded at once.\<close>

definition upload_session ::
  "'o upload_sdk \<Rightarrow> oss_token \<Rightarrow> upload_init \<Rightarrow> UploadSource \<Rightarrow> 'o on_session \<Rightarrow> ('o service, multipart) dbm" where
  "upload_session sdk token init source onSession =
     (if ups_UploadID source \<noteq> '''' \<and> (ups_Bucket source = '''' \<or> ups_Object source = '''')
      then db_fail (Errorf ''115 multipart checkpoint is incomplete'' [])
      else
        let (bucket, object) = (if ups_UploadID source \<noteq> '''' then (ups_Bucket source, ups_Object source)
                                else (ui_Bucket init, ui_Object init)) in
        db_bind (fail_if (oss_Bucket sdk bucket)) (\<lambda>_.
        if ups_UploadID source \<noteq> ''''
        then db_ret \<lparr>mp_Bucket = bucket, mp_Key = object, mp_UploadID = ups_UploadID source\<rparr>
        else
          db_bind (db_wrap (Wrapf ''initiate 115 multipart upload: %w'' []) (on_out (oss_Initiate sdk token bucket object))) (\<lambda>mp.
          db_bind (db_try (onSession (mp_UploadID mp) bucket object)) (\<lambda>r. case r of
            Inr _ \<Rightarrow> db_ret mp
          | Inl e \<Rightarrow> db_bind (db_try (on_out (oss_Abort sdk token mp))) (\<lambda>_. db_fail e)))))"

definition upload_multipart ::
  "'o upload_sdk \<Rightarrow> 'o local_files \<Rightarrow> credential \<Rightarrow> upload_init \<Rightarrow> UploadSource \<Rightarrow> 'o on_session \<Rightarrow> 'o on_part \<Rightarrow>
   ('o service, unit) dbm" where
  "upload_multipart sdk os client init source onSession onPart =
     (if ui_Bucket init = '''' \<or> ui_Object init = ''''
      then db_fail (Errorf ''115 upload initialization returned neither rapid success nor multipart coordinates'' [])
      else
        db_bind (db_wrap (Wrapf ''get 115 OSS credentials: %w'' []) (on_out (sdk_UploadGetToken sdk client))) (\<lambda>token.
        db_bind (db_wrap (Wrapf ''initialize 115 OSS client: %w'' [])
                   (fail_if (oss_New sdk (oss_endpoint (ot_Endpoint token)) token))) (\<lambda>_.
        db_bind (upload_session sdk token init source onSession) (\<lambda>mp.
        db_bind (db_wrap (Wrapf ''list 115 multipart parts: %w'' []) (on_out (oss_ListParts sdk token mp))) (\<lambda>listed.
        db_bind (record_listed onPart listed []) (\<lambda>parts.
        db_bind (on_out (os_Open os (ups_Path source))) (\<lambda>_.
        db_bind (upload_parts sdk token mp source onPart [1..part_count (ups_Size source)] parts) (\<lambda>parts'.
        db_wrap (Wrapf ''complete 115 multipart upload: %w'' [])
          (on_out (oss_Complete sdk token mp (sort_key fst parts')
            (fst (callbackValues init)) (snd (callbackValues init))))))))))))"
section \<open>UploadFile\<close>

definition trimmed_source :: "UploadSource \<Rightarrow> UploadSource" where
  "trimmed_source source = source\<lparr>ups_Name := TrimSpace (ups_Name source),
     ups_SHA1 := upper (TrimSpace (ups_SHA1 source)), ups_PreSHA1 := upper (TrimSpace (ups_PreSHA1 source))\<rparr>"

definition unusable_source :: "UploadSource \<Rightarrow> bool" where
  "unusable_source source \<longleftrightarrow> ups_Path source = '''' \<or> ups_Name source = '''' \<or>
     list_ex (\<lambda>c. c = slash \<or> c = CHR 0x00) (ups_Name source) \<or> ups_Size source < 0 \<or>
     \<not> validSHA1 (ups_SHA1 source) \<or> \<not> validSHA1 (ups_PreSHA1 source)"

text \<open>\<open>os.Stat\<close> where the file has to be there.\<close>

definition stat_existing :: "('o, file_info option) dbm \<Rightarrow> ('o service, file_info) dbm" where
  "stat_existing stat = db_bind (on_out stat) (\<lambda>r. case r of
     None \<Rightarrow> db_fail (Errorf ''no such file or directory'' []) | Some info \<Rightarrow> db_ret info)"

definition same_name_conflict :: "UploadSource \<Rightarrow> error" where
  "same_name_conflict source =
     Errorf ''same-name destination conflict: 115 destination identity verification failed for %s'' [ups_Name source]"

definition sign_challenge ::
  "'o upload_sdk \<Rightarrow> 'o local_files \<Rightarrow> credential \<Rightarrow> upload_request \<Rightarrow> UploadSource \<Rightarrow> upload_init \<Rightarrow>
   ('o service, upload_init) dbm" where
  "sign_challenge sdk os client request source init =
     (if ui_Status init = 7 \<and> ui_SignCheck init \<noteq> ''''
      then db_bind (hashFileRange os (ups_Path source) (ui_SignCheck init)) (\<lambda>signValue.
        db_wrap (Wrapf ''complete 115 rapid-upload challenge: %w'' [])
          (on_out (sdk_UploadInit sdk client (request\<lparr>uq_SignKey := ui_SignKey init, uq_SignVal := signValue\<rparr>))))
      else db_ret init)"

definition UploadFile ::
  "'o upload_sdk \<Rightarrow> 'o local_files \<Rightarrow> 'o DriveProvider \<Rightarrow> DriveAccount \<Rightarrow> string \<Rightarrow> UploadSource \<Rightarrow>
   'o on_session \<Rightarrow> 'o on_part \<Rightarrow> ('o service, UploadResult) dbm" where
  "UploadFile sdk os drive account parentCID given onSession onPart =
     (let parent = (if parentCID = '''' then ''0'' else parentCID); source = trimmed_source given in
      if unusable_source source
      then db_fail (Errorf ''validated spool path, name, size, SHA-1 and pre-SHA-1 are required'' [])
      else
        db_bind (stat_existing (os_Stat os (ups_Path source))) (\<lambda>info.
        if \<not> fi_Regular info \<or> fi_Size info \<noteq> ups_Size source
        then db_fail (Errorf ''spool file size changed before upload'' [])
        else db_bind (findDestinationFile drive account parent (ups_Name source)) (\<lambda>existing.
        case existing of
          Some f \<Rightarrow>
            (case classifyDestination existing source parent of
               destinationVerified \<Rightarrow> db_ret \<lparr>upr_FileID = file_FileID f, upr_Rapid = True, upr_Transferred = 0\<rparr>
             | destinationForeign \<Rightarrow> db_fail (same_name_conflict source)
             | destinationUnsettled \<Rightarrow> waitForVerifiedDestination drive account parent source True 0)
        | None \<Rightarrow>
            db_bind (lift_error (c115SDK sdk account)) (\<lambda>client.
            let request = \<lparr>uq_FileName = ups_Name source, uq_FileSize = ups_Size source, uq_Target = parent,
                  uq_FileID = ups_SHA1 source, uq_PreID = ups_PreSHA1 source, uq_SignKey = '''', uq_SignVal = ''''\<rparr> in
            db_bind (db_wrap (Wrapf ''initialize 115 upload: %w'' []) (on_out (sdk_UploadInit sdk client request))) (\<lambda>init0.
            db_bind (sign_challenge sdk os client request source init0) (\<lambda>init.
            if ui_Status init = 2 then waitForVerifiedDestination drive account parent source True 0
            else db_bind (upload_multipart sdk os client init source onSession onPart) (\<lambda>_.
              waitForVerifiedDestination drive account parent source False (ups_Size source))))))))"

definition AbortUpload ::
  "'o upload_sdk \<Rightarrow> DriveAccount \<Rightarrow> string \<times> string \<times> string \<Rightarrow> ('o service, unit) dbm" where
  "AbortUpload sdk account upload =
     (case upload of (uploadID, bucket, object) \<Rightarrow>
        if uploadID = '''' \<or> bucket = '''' \<or> object = ''''
        then db_fail (Errorf ''complete multipart coordinates are required'' [])
        else
          db_bind (lift_error (c115SDK sdk account)) (\<lambda>client.
          db_bind (on_out (sdk_UploadGetToken sdk client)) (\<lambda>token.
          db_bind (fail_if (oss_New sdk (oss_endpoint (ot_Endpoint token)) token)) (\<lambda>_.
          db_bind (fail_if (oss_Bucket sdk bucket)) (\<lambda>_.
          on_out (oss_Abort sdk token \<lparr>mp_Bucket = bucket, mp_Key = object, mp_UploadID = uploadID\<rparr>))))))"

section \<open>Publication through the CloudDrive2 mount\<close>

record CloudDriveMount =
  mnt_Name :: string
  mnt_MountPath :: string
  mnt_RemotePath :: string
  mnt_Status :: string
  mnt_ReadOnly :: "bool option"
  mnt_AutoMount :: "bool option"
  mnt_TotalSpace :: int64
  mnt_FreeSpace :: int64
  mnt_Error :: string
  mnt_UpdatedAt :: gotime

definition cloudDriveUploadWait :: int where
  "cloudDriveUploadWait = 120 * second"

definition hashPathSHA1 :: "'o local_files \<Rightarrow> string \<Rightarrow> ('o service, string) dbm" where
  "hashPathSHA1 os path = db_bind (on_out (os_ReadAll os path)) (\<lambda>content. db_ret (upper (sha1_hex content)))"

text \<open>The loop of \<open>waitForLocalDirectory\<close> ends by the clock; \<open>directory_polls\<close> polls are enough for it.\<close>

fun poll_directory :: "nat \<Rightarrow> 'o local_files \<Rightarrow> string \<Rightarrow> gotime \<Rightarrow> ('o service, unit) dbm" where
  "poll_directory 0 os directory deadline = db_fail polls_used_up"
| "poll_directory (Suc polls) os directory deadline =
     db_bind (on_out (os_Stat os directory)) (\<lambda>info.
     if (case info of Some i \<Rightarrow> fi_Dir i | None \<Rightarrow> False) then db_ret ()
     else db_bind time_Now (\<lambda>now.
       if now > deadline then db_fail (Errorf ''CloudDrive2 destination directory did not appear: %s'' [directory])
       else db_bind (sleepContext second) (\<lambda>_. poll_directory polls os directory deadline)))"

definition directory_polls :: nat where
  "directory_polls = 122"

definition waitForLocalDirectory :: "'o local_files \<Rightarrow> string \<Rightarrow> ('o service, unit) dbm" where
  "waitForLocalDirectory os directory =
     db_bind time_Now (\<lambda>now. poll_directory directory_polls os directory (now + cloudDriveUploadWait))"

definition usable_mount :: "CloudDriveMount \<Rightarrow> bool" where
  "usable_mount m \<longleftrightarrow> mnt_Status m = ''mounted'' \<and> mnt_ReadOnly m = Some False \<and>
     Clean (mnt_RemotePath m) = ''/115open/emby''"

definition cloudDrive115Mount ::
  "('o, CloudDriveMount list) dbm \<Rightarrow> string \<Rightarrow> ('o service, string) dbm" where
  "cloudDrive115Mount getMounts accountID =
     db_bind (on_db (GetSetting ''clouddrive_c115_account_id'')) (\<lambda>bound.
     if TrimSpace bound = '''' \<or> TrimSpace bound \<noteq> accountID
     then db_fail (Errorf ''clouddrive_c115_account_id must bind this mount to 115 account %s'' [accountID])
     else db_bind (on_out getMounts) (\<lambda>mounts.
     case sql_find usable_mount mounts of
       Some m \<Rightarrow> db_ret (Clean (mnt_MountPath m))
     | None \<Rightarrow> db_fail (Errorf ''no writable mounted CloudDrive2 path is bound to /115open/emby'' [])))"

definition cloudDriveStagingDirectory ::
  "'o local_files \<Rightarrow> ('o, CloudDriveMount list) dbm \<Rightarrow> DriveAccount \<Rightarrow> ('o service, string) dbm" where
  "cloudDriveStagingDirectory os getMounts account =
     db_bind (cloudDrive115Mount getMounts (acc_ID account)) (\<lambda>mountRoot.
     let directory = JoinPath [mountRoot, stagingName] in
     db_bind (waitForLocalDirectory os directory) (\<lambda>_.
     db_bind (db_wrap (Wrapf ''CloudDrive2 staging directory %s is not writable: %w'' [directory])
        (on_out (os_Writable os directory))) (\<lambda>_.
     db_ret directory)))"

text \<open>The staging file: an earlier one of the right content, or a new copy of the spool.\<close>

definition stage_copy :: "'o local_files \<Rightarrow> string \<Rightarrow> string \<Rightarrow> int64 \<Rightarrow> ('o service, unit) dbm" where
  "stage_copy os spoolPath stagingPath sz =
     db_bind (on_out (os_Open os spoolPath)) (\<lambda>_.
     db_bind (on_out (os_CreateExcl os stagingPath)) (\<lambda>_.
     db_bind (on_out (os_Copy os stagingPath spoolPath)) (\<lambda>(written, copyErr).
     db_bind (db_try (on_out (os_Sync os stagingPath))) (\<lambda>synced.
     db_bind (db_try (on_out (os_Close os stagingPath))) (\<lambda>closed.
     case copyErr of Some e \<Rightarrow> db_fail e | None \<Rightarrow>
     if written \<noteq> sz
     then db_fail (Errorf ''CloudDrive2 wrote %d of %d bytes'' [show_int written, show_int sz])
     else db_bind (lift_error synced) (\<lambda>_. lift_error closed))))))"

definition stage_upload :: "'o local_files \<Rightarrow> string \<Rightarrow> string \<Rightarrow> CrossDriveItem \<Rightarrow> ('o service, unit) dbm" where
  "stage_upload os spoolPath stagingPath item =
     db_bind (on_out (os_Stat os stagingPath)) (\<lambda>r. case r of
       Some info \<Rightarrow>
         if \<not> fi_Regular info \<or> fi_Size info \<noteq> item_Size item
         then db_fail (Errorf ''CloudDrive2 staging file has ambiguous size'' [])
         else db_bind (hashPathSHA1 os stagingPath) (\<lambda>sha.
           if \<not> EqualFold sha (item_SHA1 item)
           then db_fail (Errorf ''CloudDrive2 staging file has ambiguous content'' []) else db_ret ())
     | None \<Rightarrow> stage_copy os spoolPath stagingPath (item_Size item))"

definition item_source :: "CrossDriveItem \<Rightarrow> string \<Rightarrow> UploadSource" where
  "item_source item path = \<lparr>ups_Path = path, ups_Name = item_Name item, ups_Size = item_Size item,
     ups_SHA1 = item_SHA1 item, ups_PreSHA1 = item_PreSHA1 item, ups_UploadID = '''', ups_Bucket = '''', ups_Object = ''''\<rparr>"

definition uploadViaCloudDriveDirectory ::
  "'o local_files \<Rightarrow> 'o DriveProvider \<Rightarrow> CrossDriveItem \<Rightarrow> DriveAccount \<Rightarrow> string \<Rightarrow> string \<Rightarrow> string \<Rightarrow>
   ('o service, UploadResult) dbm" where
  "uploadViaCloudDriveDirectory os drive item account parentCID spoolPath directory =
     (let source = item_source item spoolPath;
          wait = waitForVerifiedDestination drive account parentCID source False (item_Size item);
          stagingPath = JoinPath [directory, ''.embymedia-quark-'' @ sha1_hex (item_SourceFileID item) @ ''.uploading''];
          finalPath = JoinPath [directory, item_Name item] in
      if \<not> validSHA1 (ups_SHA1 source)
      then db_fail (Errorf ''verified spool SHA-1 is required before upload'' [])
      else db_bind (findDestinationFile drive account parentCID (item_Name item)) (\<lambda>existing.
      case existing of
        Some f \<Rightarrow>
          (case classifyDestination existing source parentCID of
             destinationVerified \<Rightarrow> db_ret \<lparr>upr_FileID = file_FileID f, upr_Rapid = True, upr_Transferred = 0\<rparr>
           | destinationForeign \<Rightarrow> db_fail (same_name_conflict source)
           | destinationUnsettled \<Rightarrow> wait)
      | None \<Rightarrow>
          db_bind (waitForLocalDirectory os directory) (\<lambda>_.
          db_bind (on_out (os_Lstat os finalPath)) (\<lambda>r. case r of
            Some info \<Rightarrow>
              if \<not> fi_Regular info
              then db_fail (Errorf ''CloudDrive2 destination %s is not a regular file'' [finalPath])
              else wait
          | None \<Rightarrow>
              db_bind (stage_upload os spoolPath stagingPath item) (\<lambda>_.
              db_bind ctx_Err (\<lambda>cancelled. case cancelled of Some e \<Rightarrow> db_fail e | None \<Rightarrow>
              db_bind (db_wrap (Wrapf ''publish CloudDrive2 upload: %w'' []) (on_out (os_Rename os stagingPath finalPath))) (\<lambda>_.
              wait)))))))"

end
