(* ===== verification/EmbyBoundary.thy ===== *)
theory EmbyBoundary
  imports Service TaskPayload
begin

text \<open>
  What the import and autofill workflows see of Emby: its libraries, items and missing episodes
  (\<open>internal/domain/models.go\<close>, \<open>internal/service/emby.go\<close>), and the bookkeeping of episodes of
  \<open>internal/service/autofill.go\<close>.

  The HTTP client is a record of arbitrary programs over the world outside. The two places where text is
  taken apart by a regular expression or by \<open>encoding/json\<close> are parameters: \<open>em_EpisodeKeys\<close> for
  \<open>episodeKeysFromName\<close> and \<open>em_CIDMap\<close> for the stored map of library directories.
\<close>

record EmbyLibrary =
  lib_ID :: string
  lib_Name :: string
  lib_Collection :: string
  lib_Locations :: "string list"

record EmbyMediaItem =
  med_ID :: string
  med_Name :: string
  med_OriginalTitle :: string
  med_Type :: string
  med_Path :: string
  med_PremiereDate :: string
  med_HasPoster :: bool
  med_HasBackdrop :: bool
  med_ProviderIDs :: "(string \<times> string) list"

record EmbyMissingEpisode =
  mis_SeriesID :: string
  mis_SeriesName :: string
  mis_SeasonNumber :: int
  mis_EpisodeNumber :: int
  mis_PremiereDate :: gotime

record episodeKey =
  ep_Season :: int
  ep_Episode :: int

record 'o emby =
  em_ListLibraries :: "('o, EmbyLibrary list) dbm"
  em_GetItem :: "string \<Rightarrow> ('o, EmbyMediaItem) dbm"
  em_RunLibraryScan :: "('o, unit) dbm"
  em_ListAiredMissing :: "string \<Rightarrow> gotime \<Rightarrow> ('o, EmbyMissingEpisode list) dbm"
  em_SyncSTRM :: "string \<Rightarrow> ('o, unit) dbm"
  em_EpisodeKeys :: "string \<Rightarrow> episodeKey list"
  em_CIDMap :: "string \<Rightarrow> error + (string \<times> string) list"

text \<open>The value of a string map, which is empty for an absent key.\<close>

definition lookup_string :: "(string \<times> string) list \<Rightarrow> string \<Rightarrow> string" where
  "lookup_string m k = (case map_of m k of Some v \<Rightarrow> v | None \<Rightarrow> '''')"

section \<open>Episodes\<close>

text \<open>\<open>%02d\<close>: a sign counts for the width.\<close>

definition pad2 :: "int \<Rightarrow> string" where
  "pad2 n = (if 0 \<le> n \<and> n < 10 then CHR ''0'' # show_int n else show_int n)"

definition episodeKey_String :: "episodeKey \<Rightarrow> string" where
  "episodeKey_String key = CHR ''S'' # pad2 (ep_Season key) @ CHR ''E'' # pad2 (ep_Episode key)"

text \<open>A set of keys is a list without repetition.\<close>

definition setEpisodeKeys :: "episodeKey list \<Rightarrow> episodeKey list" where
  "setEpisodeKeys keys = remdups keys"

definition sortedEpisodeLabels :: "episodeKey list \<Rightarrow> string list" where
  "sortedEpisodeLabels keys = map episodeKey_String (sort_key ep_Season (sort_key ep_Episode keys))"

definition missing_key :: "EmbyMissingEpisode \<Rightarrow> episodeKey" where
  "missing_key e = \<lparr>ep_Season = mis_SeasonNumber e, ep_Episode = mis_EpisodeNumber e\<rparr>"

text \<open>The series in the order they first occur, each with its name there and the set of its gaps.\<close>

fun add_gap :: "EmbyMissingEpisode \<Rightarrow> (string \<times> string \<times> episodeKey list) list \<Rightarrow> (string \<times> string \<times> episodeKey list) list" where
  "add_gap e [] = [(mis_SeriesID e, mis_SeriesName e, [missing_key e])]"
| "add_gap e ((i, name, keys) # rest) =
     (if i = mis_SeriesID e then (i, name, List.insert (missing_key e) keys) # rest
      else (i, name, keys) # add_gap e rest)"

definition gapsBySeries :: "EmbyMissingEpisode list \<Rightarrow> (string \<times> string \<times> episodeKey list) list" where
  "gapsBySeries episodes = fold add_gap episodes []"

definition filterAutoFillMissingEpisodes :: "EmbyMissingEpisode list \<Rightarrow> string list \<Rightarrow> EmbyMissingEpisode list" where
  "filterAutoFillMissingEpisodes episodes seriesIDs =
     (if seriesIDs = [] then episodes else filter (\<lambda>e. mis_SeriesID e \<in> set seriesIDs) episodes)"

fun missing_library :: "(string \<times> string) list \<Rightarrow> string list \<Rightarrow> string option" where
  "missing_library cidMap [] = None"
| "missing_library cidMap (l # ls) =
     (if TrimSpace (lookup_string cidMap l) = '''' then Some l else missing_library cidMap ls)"

definition loadAutoFillCIDMap :: "'o emby \<Rightarrow> string \<Rightarrow> string list \<Rightarrow> error + (string \<times> string) list" where
  "loadAutoFillCIDMap emby dbSetting libraries =
     (case em_CIDMap emby dbSetting of
        Inl e \<Rightarrow> Inl (Wrapf ''c115_cid_map must be configured as a JSON object: %w'' [] e)
      | Inr cidMap \<Rightarrow>
          (case missing_library cidMap libraries of
             Some l \<Rightarrow> Inl (Errorf ''c115_cid_map is missing %q'' [quoted l])
           | None \<Rightarrow> Inr cidMap))"

end
