(* ===== verification/ImportService.thy ===== *)
theory ImportService
  imports NasClient Upload115 EmbyBoundary TaskQueue
begin

text \<open>
  The import of a Quark share to 115: \<open>runQuarkTo115Import\<close> and its helpers in
  \<open>internal/service/cross_drive_import.go\<close>, with the transfer by the NAS worker
  (\<open>internal/service/nas_cross_drive.go\<close>).

  The download engine is the parameter \<open>ie_fetch\<close>: for the options and the recorded segments it gives the
  calls of its checkpoint store and of its progress report, and its end (its own model is theory Download).
\<close>

datatype fetch_event = Segment int int64 | Reported int64

type_synonym 'o fetch =
  "string \<Rightarrow> string \<Rightarrow> DownloadOptions \<Rightarrow> segments \<Rightarrow> ('o, fetch_event list \<times> (error + DownloadResult)) dbm"

record 'o import_env =
  ie_drives :: "'o providers"
  ie_c115 :: "'o DriveProvider"
  ie_ssh :: "'o ssh option"
  ie_sdk :: "'o upload_sdk"
  ie_os :: "'o local_files"
  ie_mounts :: "('o, CloudDriveMount list) dbm"
  ie_fetch :: "'o fetch"
  ie_emby :: "'o emby"
  ie_sha1_id :: "string \<Rightarrow> string"

section \<open>Settings\<close>

definition quarkDownloadDefaultConnections :: int where
  "quarkDownloadDefaultConnections = 4"

definition quarkDownloadSegmentSize :: int64 where
  "quarkDownloadSegmentSize = 10 * 2 ^ 20"

definition quarkDownloadConnections :: "('o service, int) dbm" where
  "quarkDownloadConnections =
     db_bind (db_try (on_db (GetSetting ''quark_download_connections''))) (\<lambda>r. db_ret
       (case r of
          Inl _ \<Rightarrow> quarkDownloadDefaultConnections
        | Inr configured \<Rightarrow>
            (case Atoi (TrimSpace configured) of
               Some n \<Rightarrow> if n < 1 \<or> n > 8 then quarkDownloadDefaultConnections else n
             | None \<Rightarrow> quarkDownloadDefaultConnections)))"

definition defaultTransferTempDir :: string where
  "defaultTransferTempDir = ''/srv/embymedia/data/transfers''"

definition defaultTransferMinFreeBytes :: int64 where
  "defaultTransferMinFreeBytes = 10 * 2 ^ 30"

text \<open>
  \<open>fmt.Sscan\<close> into an \<open>int64\<close>: after white space and a sign, a base prefix and the longest run of digits
  and underscores; what follows is left unread.
\<close>

fun underscores_ok :: "bool \<Rightarrow> string \<Rightarrow> bool" where
  "underscores_ok digit [] = digit"
| "underscores_ok digit (c # s) = (if c = CHR ''_'' then digit \<and> underscores_ok False s else underscores_ok True s)"

definition scan_base :: "string \<Rightarrow> nat \<times> string \<times> bool" where
  "scan_base s =
     (let run = (\<lambda>cs t. takeWhile (\<lambda>c. c \<in> set cs) t) in
      case s of
        CHR ''0'' # c # t \<Rightarrow>
          if c = CHR ''b'' \<or> c = CHR ''B'' then (2, run ''01_'' t, True)
          else if c = CHR ''o'' \<or> c = CHR ''O'' then (8, run ''01234567_'' t, True)
          else if c = CHR ''x'' \<or> c = CHR ''X'' then (16, run ''0123456789aAbBcCdDeEfF_'' t, True)
          else (8, CHR ''0'' # run ''01234567_'' (c # t), False)
      | _ \<Rightarrow> (10, run ''0123456789_'' s, False))"

definition Sscan :: "string \<Rightarrow> int option" where
  "Sscan s =
     (case split_sign (TrimLeftSpace s) of (neg, t) \<Rightarrow>
      case scan_base t of (base, digits, prefixed) \<Rightarrow>
        if digits = [] \<or> \<not> underscores_ok prefixed digits then None
        else Option.bind (read_digits base 0 (filter (\<lambda>c. c \<noteq> CHR ''_'') digits)) (signed64 neg))"

definition transferSettings :: "('o service, string \<times> int64) dbm" where
  "transferSettings =
     db_bind (on_db (GetSetting ''transfer_temp_dir'')) (\<lambda>configured.
     let directory = (if TrimSpace configured = '''' then defaultTransferTempDir else configured) in
     if \<not> IsAbs directory then db_fail (Errorf ''transfer_temp_dir must be absolute'' [])
     else db_bind (on_db (GetSetting ''transfer_min_free_bytes'')) (\<lambda>minimumText.
       if TrimSpace minimumText = '''' then db_ret (directory, defaultTransferMinFreeBytes)
       else case Sscan minimumText of
         Some n \<Rightarrow> if n < 0 then db_fail (Errorf ''transfer_min_free_bytes is invalid'' [])
                   else db_ret (directory, n)
       | None \<Rightarrow> db_fail (Errorf ''transfer_min_free_bytes is invalid'' [])))"

definition requireTransferSpace :: "'o local_files \<Rightarrow> string \<Rightarrow> int64 \<Rightarrow> ('o service, unit) dbm" where
  "requireTransferSpace os directory required =
     db_bind (on_out (os_Free os directory)) (\<lambda>free.
     db_require (\<not> free < required)
       (Errorf ''transfer spool has %d free bytes; %d required'' [show_int free, show_int required]))"

section \<open>The request\<close>

record import_request =
  rq_quarkAccountID :: string
  rq_quarkTargetID :: string
  rq_rawURL :: string
  rq_password :: string
  rq_c115AccountID :: string
  rq_priorTaskID :: string
  rq_parentTaskID :: string
  rq_importAll :: bool
  rq_selectedIDs :: "string list"
  rq_selections :: "ShareSelection list"

text \<open>A value whose error is ignored is empty then.\<close>

definition string_or_empty :: "payload \<Rightarrow> string \<Rightarrow> bool \<Rightarrow> string" where
  "string_or_empty p key required = (case stringPayload p key required of Inr s \<Rightarrow> s | Inl _ \<Rightarrow> '''')"

definition selection_mismatch :: "bool \<Rightarrow> string list \<Rightarrow> ShareSelection list \<Rightarrow> error option" where
  "selection_mismatch importAll ids selections =
     (if importAll \<and> selections \<noteq> []
      then Some (Errorf ''import_all cannot be combined with selected_source_manifest'' [])
      else if importAll \<and> ids \<noteq> []
      then Some (Errorf ''import_all cannot be combined with selected_source_ids'' [])
      else if \<not> importAll \<and> selections = []
      then Some (Errorf ''selected_source_manifest is required unless import_all:true is explicit'' [])
      else if \<not> importAll \<and> length ids \<noteq> length selections
      then Some (Errorf ''selected_source_manifest does not match selected_source_ids'' [])
      else if \<not> importAll \<and> map sel_ID selections \<noteq> ids
      then Some (Errorf ''selected_source_manifest order does not match selected_source_ids'' [])
      else None)"

definition read_request :: "payload \<Rightarrow> error + import_request" where
  "read_request p =
     (case stringPayload p ''parent_task_id'' False of Inl e \<Rightarrow> Inl e | Inr parent \<Rightarrow>
     (case booleanPayload p ''import_all'' False of Inl e \<Rightarrow> Inl e | Inr importAll \<Rightarrow>
     (case optionalStringSlicePayload p ''selected_source_ids'' of Inl e \<Rightarrow> Inl e | Inr ids \<Rightarrow>
     (case shareSelectionsPayload p ''selected_source_manifest'' of Inl e \<Rightarrow> Inl e | Inr selections \<Rightarrow>
     (case selection_mismatch importAll ids selections of Some e \<Rightarrow> Inl e | None \<Rightarrow>
        Inr \<lparr>rq_quarkAccountID = string_or_empty p ''quark_account_id'' True,
             rq_quarkTargetID = string_or_empty p ''quark_target_id'' True,
             rq_rawURL = string_or_empty p ''share_url'' True,
             rq_password = string_or_empty p ''share_password'' False,
             rq_c115AccountID = string_or_empty p ''c115_account_id'' True,
             rq_priorTaskID = string_or_empty p ''prior_import_task_id'' False,
             rq_parentTaskID = parent, rq_importAll = importAll, rq_selectedIDs = ids, rq_selections = selections\<rparr>)))))"

text \<open>The import record of a new run, before it is stored.\<close>

definition initial_state :: "string \<Rightarrow> payload \<Rightarrow> import_request \<Rightarrow> error + CrossDriveImport" where
  "initial_state taskID p rq =
     (case optionalStringSlicePayload p ''expected_episodes'' of
        Inl e \<Rightarrow> Inl e
      | Inr episodes \<Rightarrow> Inr \<lparr>imp_TaskID = taskID, imp_PriorTaskID = rq_priorTaskID rq, imp_Phase = ''saving_share'',
          imp_QuarkAccountID = rq_quarkAccountID rq, imp_SavedRootIDs = [], imp_QuarkTargetID = rq_quarkTargetID rq,
          imp_C115AccountID = rq_c115AccountID rq, imp_SelectedSourceIDs = rq_selectedIDs rq,
          imp_AutofillLibraryName = string_or_empty p ''autofill_library_name'' False,
          imp_AutofillLibraryID = string_or_empty p ''autofill_library_id'' False,
          imp_AutofillLibraryCID = string_or_empty p ''autofill_library_cid'' False,
          imp_AutofillSeriesID = string_or_empty p ''autofill_series_id'' False,
          imp_AutofillTMDBID = string_or_empty p ''autofill_tmdb_id'' False,
          imp_AutofillSeriesFolder = string_or_empty p ''autofill_series_folder'' False,
          imp_ExpectedEpisodes = episodes, imp_DestinationCID = '''', imp_DestinationPath = '''',
          imp_TotalFiles = 0, imp_CompletedFiles = 0, imp_TotalBytes = 0, imp_CompletedBytes = 0,
          imp_CurrentFile = '''', imp_CancelRequested = False, imp_Error = '''', imp_CreatedAt = 0, imp_UpdatedAt = 0\<rparr>)"

section \<open>The canonical destination of an autofill import\<close>

definition bound_to_series :: "CrossDriveImport \<Rightarrow> bool" where
  "bound_to_series state \<longleftrightarrow> imp_AutofillSeriesID state \<noteq> ''''"

definition binding_incomplete :: "CrossDriveImport \<Rightarrow> bool" where
  "binding_incomplete state \<longleftrightarrow> imp_AutofillLibraryName state = '''' \<or> imp_AutofillLibraryID state = '''' \<or>
     imp_AutofillLibraryCID state = '''' \<or> imp_AutofillSeriesID state = '''' \<or> imp_AutofillTMDBID state = '''' \<or>
     imp_AutofillSeriesFolder state = ''''"

text \<open>The loop that looks for the folder; another folder of the name makes it ambiguous.\<close>

fun series_folder :: "CrossDriveImport \<Rightarrow> DriveFile list \<Rightarrow> string \<Rightarrow> error + string" where
  "series_folder state [] found =
     (if found = '''' then Inl (Errorf ''115 autofill Series folder %q was not found under library CID %s''
        [quoted (imp_AutofillSeriesFolder state), imp_AutofillLibraryCID state]) else Inr found)"
| "series_folder state (f # files) found =
     (if file_ParentID f = imp_AutofillLibraryCID state \<and> file_Name f = imp_AutofillSeriesFolder state \<and> file_IsFolder f
      then if found \<noteq> '''' \<and> found \<noteq> file_FileID f
           then Inl (Errorf ''115 autofill Series destination is ambiguous'' [])
           else series_folder state files (file_FileID f)
      else series_folder state files found)"

text \<open>\<open>filepath.Dir\<close> of a cleaned path.\<close>

definition Dir :: "string \<Rightarrow> string" where
  "Dir path = Clean (rev (dropWhile (\<lambda>c. c \<noteq> slash) (rev path)))"

definition resolveAutofillDestination :: "'o import_env \<Rightarrow> CrossDriveImport \<Rightarrow> ('o service, string) dbm" where
  "resolveAutofillDestination env state =
     (if binding_incomplete state then db_fail (Errorf ''autofill destination binding is incomplete'' [])
      else
        db_bind (on_db (GetSetting ''c115_cid_map'')) (\<lambda>raw.
        db_bind (lift_error (loadAutoFillCIDMap (ie_emby env) raw [imp_AutofillLibraryName state])) (\<lambda>cidMap.
        if lookup_string cidMap (imp_AutofillLibraryName state) \<noteq> imp_AutofillLibraryCID state
        then db_fail (Errorf ''configured 115 library CID changed'' [])
        else db_bind (on_out (em_ListLibraries (ie_emby env))) (\<lambda>libraries.
        case sql_find (\<lambda>l. lib_ID l = imp_AutofillLibraryID state \<and> lib_Name l = imp_AutofillLibraryName state) libraries of
          None \<Rightarrow> db_fail (Errorf ''autofill Emby library identity changed'' [])
        | Some library \<Rightarrow>
          if lib_Collection library \<noteq> ''tvshows'' then db_fail (Errorf ''autofill Emby library identity changed'' [])
          else db_bind (on_out (em_GetItem (ie_emby env) (imp_AutofillSeriesID state))) (\<lambda>series.
          if med_Type series \<noteq> ''Series'' \<or>
             TrimSpace (lookup_string (med_ProviderIDs series) ''Tmdb'') \<noteq> imp_AutofillTMDBID state
          then db_fail (Errorf ''autofill canonical Emby Series identity changed'' [])
          else let path = Clean (med_Path series) in
          if Base path \<noteq> imp_AutofillSeriesFolder state \<or> Base (Dir path) \<noteq> imp_AutofillLibraryName state
          then db_fail (Errorf ''autofill canonical Series path changed'' [])
          else db_bind (listAllProviderFiles (ie_drives env) ''115'' (imp_C115AccountID state) (imp_AutofillLibraryCID state)) (\<lambda>files.
            lift_error (series_folder state files '''')))))))"

text \<open>The labels still expected; a label without episode keys is compared as it is.\<close>

definition expected_labels :: "'o emby \<Rightarrow> string list \<Rightarrow> string list" where
  "expected_labels emby labels =
     concat (map (\<lambda>label. case em_EpisodeKeys emby label of
       [] \<Rightarrow> [TrimSpace label] | keys \<Rightarrow> map episodeKey_String keys) labels)"

definition still_missing :: "CrossDriveImport \<Rightarrow> string list \<Rightarrow> EmbyMissingEpisode list \<Rightarrow> string option" where
  "still_missing state expected missing =
     map_option (\<lambda>e. episodeKey_String (missing_key e))
       (sql_find (\<lambda>e. mis_SeriesID e = imp_AutofillSeriesID state \<and> episodeKey_String (missing_key e) \<in> set expected) missing)"

definition finalizeAutofillImport :: "'o import_env \<Rightarrow> string \<Rightarrow> CrossDriveImport \<Rightarrow> ('o service, unit) dbm" where
  "finalizeAutofillImport env accountID state =
     db_bind (on_db (GetSetting ''clouddrive_c115_account_id'')) (\<lambda>configured.
     db_bind (if TrimSpace configured \<noteq> ''''
              then db_bind (db_wrap (Wrapf ''verify CloudDrive mount visibility: %w'' []) (cloudDrive115Mount (ie_mounts env) accountID))
                     (\<lambda>_. db_ret ())
              else db_ret ()) (\<lambda>_.
     db_bind (db_wrap (Wrapf ''sync STRM after Quark autofill: %w'' [])
                (on_out (em_SyncSTRM (ie_emby env) (imp_AutofillLibraryName state)))) (\<lambda>_.
     db_bind (db_wrap (Wrapf ''scan Emby after Quark autofill: %w'' []) (on_out (em_RunLibraryScan (ie_emby env)))) (\<lambda>_.
     db_bind (db_wrap (Wrapf ''canonical Series changed after Emby scan: %w'' []) (resolveAutofillDestination env state)) (\<lambda>_.
     if imp_ExpectedEpisodes state = [] then db_ret ()
     else db_bind time_Now (\<lambda>now.
       db_bind (on_out (em_ListAiredMissing (ie_emby env) (imp_AutofillLibraryID state) now)) (\<lambda>missing.
       case still_missing state (expected_labels (ie_emby env) (imp_ExpectedEpisodes state)) missing of
         Some label \<Rightarrow> db_fail (Errorf ''Emby still reports expected episode %s as missing'' [label])
       | None \<Rightarrow> db_ret ())))))))"
section \<open>Before anything is written\<close>

definition check_autofill_parent :: "string \<Rightarrow> import_request \<Rightarrow> ('o service, unit) dbm" where
  "check_autofill_parent quarkTargetID rq =
     db_bind (on_db (GetSetting ''quark_autofill_target_id'')) (\<lambda>target.
     if TrimSpace target = ''''
     then db_fail (Errorf ''quark_autofill_target_id must be configured for autofill transfer'' [])
     else if TrimSpace target \<noteq> quarkTargetID
     then db_fail (Errorf ''quark_to_115_import target does not match quark_autofill_target_id'' [])
     else db_bind (db_wrap (Wrapf ''read autofill parent task: %w'' []) (on_db (GetAsyncTask (rq_parentTaskID rq)))) (\<lambda>parent.
       db_require (\<not> (task_Type parent \<noteq> ''series_auto_fill'' \<or> task_Status parent \<noteq> ''completed''))
         (Errorf ''autofill parent task is %s; refusing child provider writes'' [task_Status parent])))"

text \<open>The local directory of the series, for an account without a token and no NAS worker.\<close>

definition bound_directory :: "'o import_env \<Rightarrow> DriveAccount \<Rightarrow> CrossDriveImport \<Rightarrow> ('o service, string) dbm" where
  "bound_directory env account state =
     (if ie_ssh env = None \<and> TrimSpace (acc_Token account) = ''''
      then
        db_bind (db_wrap (Wrapf ''validate CloudDrive upload before Quark save: %w'' [])
                   (cloudDrive115Mount (ie_mounts env) (acc_ID account))) (\<lambda>mountRoot.
        let directory = JoinPath [mountRoot, imp_AutofillLibraryName state, imp_AutofillSeriesFolder state] in
        db_bind (db_wrap (Wrapf ''validate CloudDrive Series directory before Quark save: %w'' [])
                   (waitForLocalDirectory (ie_os env) directory)) (\<lambda>_.
        db_bind (db_wrap (Wrapf ''CloudDrive Series directory is not writable: %w'' [])
                   (on_out (os_Writable (ie_os env) directory))) (\<lambda>_.
        db_ret directory)))
      else db_ret '''')"

definition validate_destination ::
  "'o import_env \<Rightarrow> import_request \<Rightarrow> CrossDriveImport \<Rightarrow> ('o service, CrossDriveImport \<times> string) dbm" where
  "validate_destination env rq state =
     (if bound_to_series state
      then
        db_bind (check_autofill_parent (rq_quarkTargetID rq) rq) (\<lambda>_.
        db_bind (db_wrap (Wrapf ''validate autofill destination before Quark save: %w'' [])
                   (resolveAutofillDestination env state)) (\<lambda>destination.
        db_bind (account_for ''115'' (rq_c115AccountID rq)) (\<lambda>account.
        db_bind (bound_directory env account state) (\<lambda>directory.
        db_ret (state\<lparr>imp_DestinationCID := destination\<rparr>, directory)))))
      else db_ret (state, ''''))"

definition nasDestination :: "CrossDriveImport \<Rightarrow> string" where
  "nasDestination state =
     (if bound_to_series state
      then TrimSpace (imp_AutofillLibraryName state) @ ''/'' @ TrimSpace (imp_AutofillSeriesFolder state)
      else stagingName)"

definition is_canary :: "string \<Rightarrow> DriveFile \<Rightarrow> bool" where
  "is_canary parent f \<longleftrightarrow> file_ParentID f = parent \<and> file_Name f = WorkerCanaryName \<and> \<not> file_IsFolder f \<and>
     file_Size f = 0 \<and> EqualFold (file_Sha1 f) EmptySHA1"

definition checkNASDestination :: "'o import_env \<Rightarrow> string \<Rightarrow> CrossDriveImport \<Rightarrow> ('o service, unit) dbm" where
  "checkNASDestination env taskID state =
     (case ie_ssh env of
        None \<Rightarrow> db_ret ()
      | Some ssh \<Rightarrow>
          db_bind (account_for ''115'' (imp_C115AccountID state)) (\<lambda>account.
          db_bind (db_wrap (Wrapf ''resolve NAS worker canary parent: %w'' [])
                     (resolveImportDestination (ie_drives env) (acc_ID account))) (\<lambda>parent.
          db_bind (db_wrap (Wrapf ''read NAS worker canary: %w'' [])
                     (listAllProviderFiles (ie_drives env) ''115'' (acc_ID account) parent)) (\<lambda>files.
          if length (filter (is_canary parent) files) \<noteq> 1
          then db_fail (Errorf ''NAS worker canary does not identify the configured 115 account'' [])
          else db_wrap (Wrapf ''validate NAS transfer worker before Quark save: %w'' [])
                 (worker_Check ssh (taskID @ '':preflight'') (nasDestination state) 0)))))"

section \<open>The saved roots\<close>

definition sameCrossDriveBinding :: "CrossDriveImport \<Rightarrow> CrossDriveImport \<Rightarrow> bool" where
  "sameCrossDriveBinding a b \<longleftrightarrow>
     imp_QuarkAccountID a = imp_QuarkAccountID b \<and> imp_QuarkTargetID a = imp_QuarkTargetID b \<and>
     imp_C115AccountID a = imp_C115AccountID b \<and> imp_AutofillLibraryName a = imp_AutofillLibraryName b \<and>
     imp_AutofillLibraryID a = imp_AutofillLibraryID b \<and> imp_AutofillLibraryCID a = imp_AutofillLibraryCID b \<and>
     imp_AutofillSeriesID a = imp_AutofillSeriesID b \<and> imp_AutofillTMDBID a = imp_AutofillTMDBID b \<and>
     imp_AutofillSeriesFolder a = imp_AutofillSeriesFolder b \<and>
     nul_join (imp_SelectedSourceIDs a) = nul_join (imp_SelectedSourceIDs b) \<and>
     nul_join (imp_ExpectedEpisodes a) = nul_join (imp_ExpectedEpisodes b)"

definition sameShareSelectionManifest :: "ShareSelection list \<Rightarrow> ShareSelection list \<Rightarrow> bool" where
  "sameShareSelectionManifest a b \<longleftrightarrow> a = b"

text \<open>What the payload of the prior task must agree on.\<close>

definition retry_mismatch :: "import_request \<Rightarrow> payload \<Rightarrow> error option" where
  "retry_mismatch rq p =
     (if booleanPayload p ''import_all'' False \<noteq> Inr (rq_importAll rq)
      then Some (Errorf ''retry import mode changed'' [])
      else case shareSelectionsPayload p ''selected_source_manifest'' of
        Inl _ \<Rightarrow> Some (Errorf ''retry selected source manifest changed'' [])
      | Inr selections \<Rightarrow>
          if \<not> sameShareSelectionManifest selections (rq_selections rq)
          then Some (Errorf ''retry selected source manifest changed'' []) else None)"

definition inherit_roots ::
  "string \<Rightarrow> string \<Rightarrow> import_request \<Rightarrow> CrossDriveImport \<Rightarrow> ('o service, string list) dbm" where
  "inherit_roots taskID owner rq state =
     (if rq_priorTaskID rq \<noteq> '''' \<and> imp_SavedRootIDs state = []
      then
        db_bind (db_try (on_db (GetCrossDriveImport (rq_priorTaskID rq)))) (\<lambda>r. case r of
          Inl e \<Rightarrow>
            if errors_is e ErrNoRows then db_ret [] else db_fail (Wrapf ''read prior import checkpoints: %w'' [] e)
        | Inr prior \<Rightarrow>
            if \<not> sameCrossDriveBinding prior state
            then db_fail (Errorf ''retry checkpoint source or destination binding changed'' [])
            else if imp_SavedRootIDs prior = []
            then db_fail (Errorf ''prior import has no reconciled Quark saved-root checkpoint; refusing to resubmit the share'' [])
            else
              db_bind (db_wrap (Wrapf ''read prior import task: %w'' []) (on_db (GetAsyncTask (rq_priorTaskID rq)))) (\<lambda>priorTask.
              case retry_mismatch rq (task_Payload priorTask) of
                Some e \<Rightarrow> db_fail e
              | None \<Rightarrow>
                  db_bind (at_now (SaveCrossDriveRoots taskID owner (imp_SavedRootIDs prior))) (\<lambda>_.
                  db_ret (imp_SavedRootIDs prior))))
      else db_ret (imp_SavedRootIDs state))"

definition stored_selection_mismatch :: "CrossDriveImport \<Rightarrow> ShareSelection list \<Rightarrow> error option" where
  "stored_selection_mismatch state selections =
     (if length selections \<noteq> length (imp_SelectedSourceIDs state)
      then Some (Errorf ''selected_source_manifest does not match selected_source_ids'' [])
      else if map sel_ID selections \<noteq> imp_SelectedSourceIDs state
      then Some (Errorf ''selected_source_manifest order does not match selected_source_ids'' [])
      else None)"

definition submit_share ::
  "'o import_env \<Rightarrow> import_request \<Rightarrow> CrossDriveImport \<Rightarrow> ('o service, SavedShare) dbm" where
  "submit_share env rq state =
     (if imp_SelectedSourceIDs state \<noteq> []
      then db_bind (fail_if (stored_selection_mismatch state (rq_selections rq))) (\<lambda>_.
        SaveProviderShareSelections (ie_drives env) ''quark'' (rq_quarkAccountID rq) (rq_rawURL rq) (rq_password rq)
          (rq_quarkTargetID rq) (rq_selections rq))
      else SaveProviderShare (ie_drives env) ''quark'' (rq_quarkAccountID rq) (rq_rawURL rq) (rq_password rq)
          (rq_quarkTargetID rq))"

definition save_share ::
  "'o import_env \<Rightarrow> AsyncTask \<Rightarrow> string \<Rightarrow> import_request \<Rightarrow> CrossDriveImport \<Rightarrow> string list \<Rightarrow>
   ('o service, string list) dbm" where
  "save_share env task owner rq state roots =
     (if roots \<noteq> [] then db_ret roots
      else if task_Attempts task > 0
      then db_fail (Errorf ''Quark share save may have completed before restart; refusing to submit it again'' [])
      else
        db_bind (at_now (UpdateCrossDriveImport (task_ID task) owner ''saving_share'' '''' '''' '''')) (\<lambda>_.
        db_bind (submit_share env rq state) (\<lambda>saved.
        db_bind (db_wrap (Wrapf ''persist Quark saved roots: %w'' [])
                   (at_now (SaveCrossDriveRoots (task_ID task) owner (saved_RootIDs saved)))) (\<lambda>_.
        db_bind (at_now (UpdateAsyncTaskProgress (task_ID task) 12)) (\<lambda>_.
        db_ret (saved_RootIDs saved))))))"

section \<open>Downloads\<close>

text \<open>The progress from 20 to 59 percent, of the bytes verified and downloaded.\<close>

definition download_progress :: "int64 \<Rightarrow> int64 \<Rightarrow> int64 \<Rightarrow> rat" where
  "download_progress totalBytes verifiedBytes downloaded =
     min 59 (if totalBytes > 0 then 20 + 39 * of_int (verifiedBytes + downloaded) / of_int totalBytes else 20)"

definition reportQuarkDownload ::
  "string \<Rightarrow> string \<Rightarrow> CrossDriveItem \<Rightarrow> string \<Rightarrow> int64 \<Rightarrow> int64 \<Rightarrow> int64 \<Rightarrow> ('o service, unit) dbm" where
  "reportQuarkDownload taskID owner item spool downloaded totalBytes verifiedBytes =
     db_bind (at_now (UpdateCrossDriveItemDownload (item_ID item) taskID owner ''downloading'' spool downloaded)) (\<lambda>_.
     at_now (UpdateAsyncTaskProgress taskID (download_progress totalBytes verifiedBytes downloaded)))"

text \<open>
  The calls of the engine in order. The first failure is the error of the download; calls of segments that
  were under way may follow it.
\<close>

fun fetch_events :: "(fetch_event \<Rightarrow> ('o service, unit) dbm) \<Rightarrow> error option \<Rightarrow> fetch_event list \<Rightarrow> ('o service, error option) dbm" where
  "fetch_events call failure [] = db_ret failure"
| "fetch_events call failure (e # es) =
     db_bind (db_try (call e)) (\<lambda>r.
     fetch_events call (case failure of Some f \<Rightarrow> Some f | None \<Rightarrow> (case r of Inl f \<Rightarrow> Some f | Inr _ \<Rightarrow> None)) es)"

definition fetch_call ::
  "string \<Rightarrow> string \<Rightarrow> CrossDriveItem \<Rightarrow> string \<Rightarrow> int64 \<Rightarrow> int64 \<Rightarrow> fetch_event \<Rightarrow> ('o service, unit) dbm" where
  "fetch_call taskID owner item spool totalBytes verifiedBytes e =
     (case e of
        Segment i n \<Rightarrow> on_db (SaveCrossDriveDownloadSegment spool taskID owner i n)
      | Reported n \<Rightarrow> reportQuarkDownload taskID owner item spool n totalBytes verifiedBytes)"

definition import_options :: "string \<Rightarrow> CrossDriveItem \<Rightarrow> int \<Rightarrow> DownloadOptions" where
  "import_options spool item connections = \<lparr>opt_Path = spool, opt_Name = item_Name item, opt_Size = item_Size item,
     opt_ExpectedSHA1 = item_SHA1 item, opt_SegmentSize = quarkDownloadSegmentSize, opt_Connections = connections,
     opt_Attempts = 4, opt_BufferSize = 2 ^ 20\<rparr>"

definition fetch_spool ::
  "'o import_env \<Rightarrow> string \<Rightarrow> string \<Rightarrow> string \<Rightarrow> CrossDriveItem \<Rightarrow> string \<Rightarrow> int64 \<Rightarrow> int64 \<Rightarrow>
   ('o service, DownloadResult) dbm" where
  "fetch_spool env taskID owner accountID item spool totalBytes verifiedBytes =
     db_bind quarkDownloadConnections (\<lambda>connections.
     db_bind (on_db (ListCrossDriveDownloadSegments spool)) (\<lambda>recorded.
     db_bind (on_out (ie_fetch env accountID (item_SourceFileID item) (import_options spool item connections) recorded))
       (\<lambda>(events, ended).
     db_bind (fetch_events (fetch_call taskID owner item spool totalBytes verifiedBytes) None events) (\<lambda>failure.
     case failure of Some e \<Rightarrow> db_fail e | None \<Rightarrow> lift_error ended))))"

text \<open>The spool of an item: its own, one with the same source, or a new one.\<close>

definition spool_path :: "string \<Rightarrow> string \<Rightarrow> CrossDriveItem \<Rightarrow> ('o service, string) dbm" where
  "spool_path directory accountID item =
     (if item_SpoolPath item \<noteq> '''' then db_ret (item_SpoolPath item)
      else db_bind (on_db (FindReusableCrossDriveSpool (item_SourceFileID item) (item_Size item))) (\<lambda>reusable.
        db_ret (if reusable \<noteq> '''' then reusable
                else JoinPath [directory, SourceKey accountID (item_SourceFileID item) @ ''.part''])))"

definition downloadQuarkItem ::
  "'o import_env \<Rightarrow> string \<Rightarrow> string \<Rightarrow> string \<Rightarrow> CrossDriveItem \<Rightarrow> int64 \<Rightarrow> int64 \<Rightarrow>
   ('o service, string \<times> string \<times> string) dbm" where
  "downloadQuarkItem env taskID owner accountID item totalBytes verifiedBytes =
     db_bind transferSettings (\<lambda>(directory, minimum).
     db_bind (on_out (os_MkdirAll (ie_os env) directory)) (\<lambda>_.
     db_bind (requireTransferSpace (ie_os env) directory (add64 (item_Size item) minimum)) (\<lambda>_.
     db_bind (spool_path directory accountID item) (\<lambda>spool.
     db_bind (db_wrap (Wrapf ''Quark %w'' [])
                (fetch_spool env taskID owner accountID item spool totalBytes verifiedBytes)) (\<lambda>res.
     db_bind (at_now (UpdateCrossDriveItemHashes (item_ID item) taskID owner (dl_SHA1 res) (dl_PreSHA1 res))) (\<lambda>_.
     db_ret (dl_Path res, dl_SHA1 res, dl_PreSHA1 res)))))))"

definition reconcileVerifiedItem :: "'o import_env \<Rightarrow> string \<Rightarrow> CrossDriveItem \<Rightarrow> ('o service, unit) dbm" where
  "reconcileVerifiedItem env accountID item =
     db_bind (account_for ''115'' accountID) (\<lambda>account.
     db_bind (findDestinationFile (ie_c115 env) account (item_DestinationParent item) (item_Name item)) (\<lambda>file.
     db_require (case file of None \<Rightarrow> False
       | Some f \<Rightarrow> file_FileID f = item_DestinationID item \<and> file_Size f = item_Size item \<and>
           EqualFold (file_Sha1 f) (item_SHA1 item))
       (Errorf ''provider state is ambiguous; destination checkpoint no longer matches'' [])))"
section \<open>The transfer by the NAS worker\<close>

definition nas_progress ::
  "string \<Rightarrow> string \<Rightarrow> CrossDriveItem \<Rightarrow> int64 \<Rightarrow> int64 \<Rightarrow> Event \<Rightarrow> ('o service, unit) dbm" where
  "nas_progress taskID owner item totalBytes verifiedBytes event =
     (if evt_Phase event \<noteq> ''downloading'' \<or> evt_Size event \<noteq> item_Size item \<or> evt_DownloadedBytes event < 0 \<or>
         evt_DownloadedBytes event > item_Size item
      then db_fail (Errorf ''NAS worker returned invalid download progress'' [])
      else
        db_bind (at_now (UpdateCrossDriveItemDownload (item_ID item) taskID owner ''downloading'' '''' (evt_DownloadedBytes event))) (\<lambda>_.
        at_now (UpdateAsyncTaskProgress taskID (download_progress totalBytes verifiedBytes (evt_DownloadedBytes event)))))"

definition bad_completed_download :: "CrossDriveItem \<Rightarrow> Event \<Rightarrow> error option" where
  "bad_completed_download item e =
     (if evt_Phase e \<noteq> ''downloaded'' \<or> evt_Size e \<noteq> item_Size item \<or> evt_DownloadedBytes e \<noteq> item_Size item \<or>
         \<not> ValidSHA1 (evt_SHA1 e) \<or> \<not> ValidSHA1 (evt_PreSHA1 e)
      then Some (Errorf ''NAS worker returned an invalid completed download'' [])
      else if item_SHA1 item \<noteq> '''' \<and> \<not> EqualFold (item_SHA1 item) (evt_SHA1 e)
      then Some (Errorf ''NAS worker source SHA-1 changed for %s'' [item_RelativePath item])
      else None)"

definition download_request :: "string \<Rightarrow> CrossDriveItem \<Rightarrow> DriveAccount \<Rightarrow> int \<Rightarrow> Request" where
  "download_request jobID item account connections = zero_request\<lparr>req_JobID := jobID, req_AccountID := acc_ID account,
     req_SourceFileID := item_SourceFileID item, req_SourceRevision := item_SourceRevision item,
     req_Name := item_Name item, req_Size := item_Size item, req_ExpectedSHA1 := item_SHA1 item,
     req_QuarkCookie := acc_Cookie account, req_Connections := connections\<rparr>"

definition publish_request :: "string \<Rightarrow> CrossDriveItem \<Rightarrow> DriveAccount \<Rightarrow> string \<Rightarrow> bool \<Rightarrow> Request" where
  "publish_request jobID item account destination replace = zero_request\<lparr>req_JobID := jobID,
     req_AccountID := acc_ID account, req_SourceFileID := item_SourceFileID item,
     req_SourceRevision := item_SourceRevision item, req_Name := item_Name item, req_Size := item_Size item,
     req_ExpectedSHA1 := item_SHA1 item, req_Destination := destination, req_Replace := replace\<rparr>"

definition upload_progress :: "CrossDriveItem \<Rightarrow> Event \<Rightarrow> ('o service, unit) dbm" where
  "upload_progress item event =
     db_require (\<not> (evt_Phase event \<noteq> ''uploading'' \<or> evt_Size event \<noteq> item_Size item \<or>
         \<not> EqualFold (evt_SHA1 event) (item_SHA1 item)))
       (Errorf ''NAS worker returned invalid upload progress'' [])"

text \<open>The upload half: the item has the hashes of the completed download.\<close>

definition publish_via_nas ::
  "'o import_env \<Rightarrow> 'o ssh \<Rightarrow> string \<Rightarrow> string \<Rightarrow> string \<Rightarrow> CrossDriveItem \<Rightarrow> CrossDriveImport \<Rightarrow> DriveAccount \<Rightarrow>
   DriveAccount \<Rightarrow> string \<Rightarrow> ('o service, UploadResult) dbm" where
  "publish_via_nas env ssh taskID owner jobID item state quarkAccount account parentCID =
     (let source = item_source item '''';
          commit = worker_Commit ssh jobID (acc_ID quarkAccount) (item_SourceFileID item);
          wait = waitForVerifiedDestination (ie_c115 env) account parentCID source False (item_Size item);
          committed = (\<lambda>m. db_bind m (\<lambda>res. db_bind commit (\<lambda>_. db_ret res))) in
      db_bind (findDestinationFile (ie_c115 env) account parentCID (item_Name item)) (\<lambda>existing.
      case existing of
        Some f \<Rightarrow>
          (case classifyDestination existing source parentCID of
             destinationVerified \<Rightarrow>
               committed (db_ret \<lparr>upr_FileID = file_FileID f, upr_Rapid = True, upr_Transferred = 0\<rparr>)
           | destinationForeign \<Rightarrow> db_fail (same_name_conflict source)
           | destinationUnsettled \<Rightarrow> committed wait)
      | None \<Rightarrow>
          db_bind (at_now (UpdateCrossDriveImport taskID owner ''uploading'' (imp_DestinationCID state) (item_RelativePath item) '''')) (\<lambda>_.
          db_bind (cloudDriveUploadPlaceholder (ie_c115 env) account parentCID (item_Name item)) (\<lambda>replace.
          db_bind (worker_Publish ssh (publish_request jobID item quarkAccount (nasDestination state) replace) (upload_progress item)) (\<lambda>published.
          if evt_Phase published \<noteq> ''published'' \<or> evt_Size published \<noteq> item_Size item \<or>
             \<not> EqualFold (evt_SHA1 published) (item_SHA1 item)
          then db_fail (Errorf ''NAS worker returned an invalid publish result'' [])
          else
            db_bind (at_now (UpdateCrossDriveImport taskID owner ''verifying'' (imp_DestinationCID state) (item_RelativePath item) '''')) (\<lambda>_.
            committed wait))))))"

definition transferQuarkItemViaNAS ::
  "'o import_env \<Rightarrow> 'o ssh \<Rightarrow> string \<Rightarrow> string \<Rightarrow> CrossDriveItem \<Rightarrow> CrossDriveImport \<Rightarrow> DriveAccount \<Rightarrow>
   DriveAccount \<Rightarrow> string \<Rightarrow> int64 \<Rightarrow> int64 \<Rightarrow> ('o service, CrossDriveItem \<times> UploadResult) dbm" where
  "transferQuarkItemViaNAS env ssh taskID owner item state quarkAccount account parentCID totalBytes verifiedBytes =
     (let jobID = taskID @ '':'' @ item_SourceFileID item in
      db_bind quarkDownloadConnections (\<lambda>connections.
      db_bind (worker_Download ssh (download_request jobID item quarkAccount connections)
                 (nas_progress taskID owner item totalBytes verifiedBytes)) (\<lambda>downloaded.
      db_bind (fail_if (bad_completed_download item downloaded)) (\<lambda>_.
      let item' = item\<lparr>item_SHA1 := evt_SHA1 downloaded, item_PreSHA1 := evt_PreSHA1 downloaded\<rparr> in
      db_bind (at_now (UpdateCrossDriveItemHashes (item_ID item) taskID owner (item_SHA1 item') (item_PreSHA1 item'))) (\<lambda>_.
      db_bind (publish_via_nas env ssh taskID owner jobID item' state quarkAccount account parentCID) (\<lambda>res.
      db_ret (item', res)))))))"

section \<open>The transfer through this host\<close>

text \<open>\<open>OnSession\<close> and \<open>OnPart\<close>.\<close>

definition import_session :: "string \<Rightarrow> string \<Rightarrow> CrossDriveItem \<Rightarrow> 'o on_session" where
  "import_session taskID owner item uploadID bucket object =
     db_bind (db_upd (\<lambda>s. s\<lparr>sv_upload := (uploadID, bucket, object)\<rparr>)) (\<lambda>_.
     at_now (SaveCrossDriveUploadSession (item_ID item) taskID owner uploadID bucket object))"

definition import_part :: "CrossDriveItem \<Rightarrow> 'o on_part" where
  "import_part item number etag sz = on_db (SaveCrossDriveUploadPart (item_ID item) number etag sz)"

definition import_source :: "CrossDriveItem \<Rightarrow> UploadSource" where
  "import_source item = (item_source item (item_SpoolPath item))\<lparr>ups_UploadID := item_UploadID item,
     ups_Bucket := item_UploadBucket item, ups_Object := item_UploadObject item\<rparr>"

definition mark_failed :: "string \<Rightarrow> string \<Rightarrow> CrossDriveItem \<Rightarrow> ('o service, 'a) dbm \<Rightarrow> ('o service, 'a) dbm" where
  "mark_failed taskID owner item m =
     db_bind (db_try m) (\<lambda>r. case r of
       Inr x \<Rightarrow> db_ret x
     | Inl e \<Rightarrow> db_bind (db_try (at_now (MarkCrossDriveItemFailed (item_ID item) taskID owner (err_text e)))) (\<lambda>_. db_fail e))"

text \<open>A failed upload whose context is done is aborted at the provider, and its parts are forgotten.\<close>

definition upload_failed ::
  "'o import_env \<Rightarrow> string \<Rightarrow> string \<Rightarrow> CrossDriveItem \<Rightarrow> DriveAccount \<Rightarrow> error \<Rightarrow> ('o service, 'a) dbm" where
  "upload_failed env taskID owner item account e =
     db_bind ctx_Err (\<lambda>cancelled.
     db_bind (db_get sv_upload) (\<lambda>upload.
     if cancelled \<noteq> None \<and> fst upload \<noteq> ''''
     then db_bind (db_try (AbortUpload (ie_sdk env) account upload)) (\<lambda>r. case r of
         Inr _ \<Rightarrow> db_bind (db_try (at_now (ResetCrossDriveUpload (item_ID item) taskID owner))) (\<lambda>_. db_fail e)
       | Inl abortErr \<Rightarrow> db_fail (Wrapf ''%w; abort multipart safely: %v'' [err_text abortErr] e))
     else db_bind (db_try (at_now (MarkCrossDriveItemFailed (item_ID item) taskID owner (err_text e)))) (\<lambda>_. db_fail e)))"

definition upload_item ::
  "'o import_env \<Rightarrow> string \<Rightarrow> string \<Rightarrow> CrossDriveItem \<Rightarrow> DriveAccount \<Rightarrow> string \<Rightarrow> string \<Rightarrow> ('o service, UploadResult) dbm" where
  "upload_item env taskID owner item account parent directory =
     db_bind (db_upd (\<lambda>s. s\<lparr>sv_upload := (item_UploadID item, item_UploadBucket item, item_UploadObject item)\<rparr>)) (\<lambda>_.
     db_bind (db_try
        (if TrimSpace (acc_Token account) = ''''
         then uploadViaCloudDriveDirectory (ie_os env) (ie_c115 env) item account parent (item_SpoolPath item) directory
         else UploadFile (ie_sdk env) (ie_os env) (ie_c115 env) account parent (import_source item)
                (import_session taskID owner item) (import_part item))) (\<lambda>r. case r of
       Inr upload \<Rightarrow> db_ret upload
     | Inl e \<Rightarrow> upload_failed env taskID owner item account e))"

definition transfer_directly ::
  "'o import_env \<Rightarrow> string \<Rightarrow> string \<Rightarrow> import_request \<Rightarrow> CrossDriveItem \<Rightarrow> DriveAccount \<Rightarrow> string \<Rightarrow> string \<Rightarrow> string \<Rightarrow>
   int64 \<Rightarrow> int64 \<Rightarrow> ('o service, CrossDriveItem \<times> UploadResult) dbm" where
  "transfer_directly env taskID owner rq item account destinationCID parent directory totalBytes verifiedBytes =
     db_bind (mark_failed taskID owner item
        (downloadQuarkItem env taskID owner (rq_quarkAccountID rq) item totalBytes verifiedBytes)) (\<lambda>(spool, sha, pre).
     let item' = item\<lparr>item_SpoolPath := spool, item_SHA1 := sha, item_PreSHA1 := pre\<rparr> in
     db_bind (at_now (UpdateCrossDriveImport taskID owner ''uploading'' destinationCID (item_RelativePath item) '''')) (\<lambda>_.
     db_bind (upload_item env taskID owner item' account parent directory) (\<lambda>upload.
     db_ret (item', upload))))"

section \<open>The loop over the items\<close>

text \<open>Where an item goes: the parent directory at 115, and the local directory of an upload through the mount.\<close>

definition item_destination ::
  "'o import_env \<Rightarrow> import_request \<Rightarrow> bool \<Rightarrow> DriveAccount \<Rightarrow> string \<Rightarrow> string \<Rightarrow> ('o service, string \<times> string) dbm" where
  "item_destination env rq bound account destinationCID boundDirectory =
     (if bound then db_ret (destinationCID, boundDirectory)
      else if ie_ssh env = None
      then if TrimSpace (acc_Token account) = ''''
           then db_bind (cloudDriveStagingDirectory (ie_os env) (ie_mounts env) account) (\<lambda>d. db_ret (destinationCID, d))
           else db_bind (resolveImportDestination (ie_drives env) (rq_c115AccountID rq)) (\<lambda>p. db_ret (p, ''''))
      else db_ret (destinationCID, ''''))"

definition transfer_item ::
  "'o import_env \<Rightarrow> string \<Rightarrow> string \<Rightarrow> import_request \<Rightarrow> CrossDriveImport \<Rightarrow> CrossDriveItem \<Rightarrow> DriveAccount \<Rightarrow> string \<Rightarrow>
   string \<Rightarrow> string \<Rightarrow> int64 \<Rightarrow> int64 \<Rightarrow> ('o service, CrossDriveItem \<times> UploadResult) dbm" where
  "transfer_item env taskID owner rq state item account destinationCID parent directory totalBytes verifiedBytes =
     (case ie_ssh env of
        Some ssh \<Rightarrow>
          db_bind (account_for ''quark'' (rq_quarkAccountID rq)) (\<lambda>quarkAccount.
          mark_failed taskID owner item
            (transferQuarkItemViaNAS env ssh taskID owner item state quarkAccount account parent totalBytes verifiedBytes))
      | None \<Rightarrow>
          transfer_directly env taskID owner rq item account destinationCID parent directory totalBytes verifiedBytes)"

text \<open>A removal that finds no file is fine.\<close>

definition remove_spool :: "'o import_env \<Rightarrow> string \<Rightarrow> ('o service, unit) dbm" where
  "remove_spool env spool =
     (if spool = '''' then db_ret ()
      else db_wrap (Wrapf ''remove verified spool file: %w'' []) (on_out (os_Remove (ie_os env) spool)))"

text \<open>The progress from 20 to 99 percent.\<close>

definition item_progress :: "int64 \<Rightarrow> int64 \<Rightarrow> nat \<Rightarrow> nat \<Rightarrow> rat" where
  "item_progress totalBytes verifiedBytes index count =
     min 99 (if totalBytes > 0 then 20 + 79 * of_int verifiedBytes / of_int totalBytes
             else 20 + 79 * of_nat (index + 1) / of_nat (max 1 count))"

definition import_item ::
  "'o import_env \<Rightarrow> string \<Rightarrow> string \<Rightarrow> import_request \<Rightarrow> bool \<Rightarrow> string \<Rightarrow> string \<Rightarrow> int64 \<Rightarrow> nat \<Rightarrow> nat \<Rightarrow> int64 \<Rightarrow>
   CrossDriveItem \<Rightarrow> ('o service, int64) dbm" where
  "import_item env taskID owner rq bound destinationCID boundDirectory totalBytes count index verifiedBytes item =
     db_bind ctx_Err (\<lambda>cancelled. case cancelled of Some e \<Rightarrow> db_fail e | None \<Rightarrow>
     db_bind (on_db (GetCrossDriveImport taskID)) (\<lambda>state.
     if imp_CancelRequested state then db_fail Canceled
     else if item_State item = ''verified''
     then db_bind (db_wrap (Wrapf ''reconcile verified %s: %w'' [item_RelativePath item])
                     (reconcileVerifiedItem env (rq_c115AccountID rq) item)) (\<lambda>_. db_ret verifiedBytes)
     else
       db_bind (at_now (UpdateCrossDriveImport taskID owner ''downloading'' destinationCID (item_RelativePath item) '''')) (\<lambda>_.
       db_bind (account_for ''115'' (rq_c115AccountID rq)) (\<lambda>account.
       db_bind (item_destination env rq bound account destinationCID boundDirectory) (\<lambda>(parent, directory).
       db_bind (transfer_item env taskID owner rq state item account destinationCID parent directory totalBytes verifiedBytes) (\<lambda>(item', upload).
       db_bind (at_now (UpdateCrossDriveImport taskID owner ''verifying'' destinationCID (item_RelativePath item) '''')) (\<lambda>_.
       db_bind (at_now (MarkCrossDriveItemVerified (item_ID item) taskID owner parent (upr_FileID upload))) (\<lambda>_.
       db_bind (remove_spool env (if ie_ssh env = None then item_SpoolPath item' else '''')) (\<lambda>_.
       db_bind (at_now (UpdateAsyncTaskProgress taskID
                  (item_progress totalBytes (verifiedBytes + item_Size item) index count))) (\<lambda>_.
       db_ret (verifiedBytes + item_Size item)))))))))))"

fun import_items ::
  "(nat \<Rightarrow> int64 \<Rightarrow> CrossDriveItem \<Rightarrow> ('o service, int64) dbm) \<Rightarrow> nat \<Rightarrow> int64 \<Rightarrow> CrossDriveItem list \<Rightarrow> ('o service, unit) dbm" where
  "import_items step index verifiedBytes [] = db_ret ()"
| "import_items step index verifiedBytes (item # items) =
     db_bind (step index verifiedBytes item) (\<lambda>verifiedBytes'. import_items step (Suc index) verifiedBytes' items)"
section \<open>The run\<close>

text \<open>The deferred release of the run; its failure is ignored.\<close>

definition releasing :: "string \<Rightarrow> string \<Rightarrow> ('o service, 'a) dbm \<Rightarrow> ('o service, 'a) dbm" where
  "releasing taskID owner m =
     db_bind (db_try m) (\<lambda>r.
     db_bind (db_try (at_now (ReleaseCrossDriveImport taskID owner))) (\<lambda>_. lift_error r))"

text \<open>The destination directory at 115, checked against the one of an earlier run.\<close>

definition resolve_destination ::
  "'o import_env \<Rightarrow> import_request \<Rightarrow> CrossDriveImport \<Rightarrow> ('o service, string) dbm" where
  "resolve_destination env rq state =
     db_bind (if bound_to_series state
              then db_bind (resolveAutofillDestination env state) (\<lambda>revalidated.
                if imp_DestinationCID state = '''' \<or> imp_DestinationCID state \<noteq> revalidated
                then db_fail (Errorf ''persisted autofill destination CID changed'' [])
                else db_ret revalidated)
              else resolveImportDestination (ie_drives env) (rq_c115AccountID rq)) (\<lambda>destinationCID.
     if imp_DestinationCID state \<noteq> '''' \<and> imp_DestinationCID state \<noteq> destinationCID
     then db_fail (Errorf ''persisted destination CID changed from %s to %s'' [imp_DestinationCID state, destinationCID])
     else db_ret destinationCID)"

text \<open>From the saved roots to the known items.\<close>

definition discover_items ::
  "'o import_env \<Rightarrow> string \<Rightarrow> string \<Rightarrow> import_request \<Rightarrow> string list \<Rightarrow> ('o service, unit) dbm" where
  "discover_items env taskID owner rq roots =
     db_bind (at_now (UpdateCrossDriveImport taskID owner ''discovering'' '''' '''' '''')) (\<lambda>_.
     db_bind (discoverQuarkImport (ie_drives env) taskID owner (rq_quarkAccountID rq) (rq_quarkTargetID rq) roots
                (rq_selections rq) (rq_importAll rq)) (\<lambda>_.
     db_bind (at_now (FinalizeCrossDriveDiscovery taskID owner)) (\<lambda>_.
     at_now (UpdateAsyncTaskProgress taskID 20))))"

text \<open>The items one after the other; the state after it is the row read before the loop.\<close>

definition transfer_items ::
  "'o import_env \<Rightarrow> string \<Rightarrow> string \<Rightarrow> import_request \<Rightarrow> bool \<Rightarrow> string \<Rightarrow> string \<Rightarrow>
   ('o service, CrossDriveImport \<times> CrossDriveItem list) dbm" where
  "transfer_items env taskID owner rq bound destinationCID boundDirectory =
     db_bind (at_now (UpdateCrossDriveImport taskID owner ''downloading'' destinationCID '''' '''')) (\<lambda>_.
     db_bind (on_db (ListCrossDriveItems taskID)) (\<lambda>items.
     db_bind (on_db (GetCrossDriveImport taskID)) (\<lambda>state.
     db_bind (import_items
        (import_item env taskID owner rq bound destinationCID boundDirectory (imp_TotalBytes state) (length items))
        0 (imp_CompletedBytes state) items) (\<lambda>_.
     db_bind (at_now (UpdateCrossDriveImport taskID owner ''verified'' destinationCID '''' '''')) (\<lambda>_.
     db_ret (state, items))))))"

definition import_result :: "string \<Rightarrow> string \<Rightarrow> CrossDriveItem list \<Rightarrow> CrossDriveImport \<Rightarrow> string \<Rightarrow> payload" where
  "import_result destinationCID path items state stage =
     [(''destination_cid'', VStr destinationCID), (''destination_path'', VStr path),
      (''files_completed'', VInt (int (length items))), (''bytes_completed'', VInt (imp_TotalBytes state)),
      (''pipeline_stage'', VStr stage)]"

text \<open>What follows the transfer: the checks of an autofill import, or the ingest task.\<close>

definition finish_import ::
  "'o import_env \<Rightarrow> string \<Rightarrow> import_request \<Rightarrow> string \<Rightarrow> CrossDriveImport \<Rightarrow> CrossDriveItem list \<Rightarrow> ('o service, payload) dbm" where
  "finish_import env taskID rq destinationCID state items =
     (if bound_to_series state
      then
        db_bind (finalizeAutofillImport env (rq_c115AccountID rq) state) (\<lambda>_.
        db_ret (import_result destinationCID (''/'' @ JoinPath [imp_AutofillLibraryName state, imp_AutofillSeriesFolder state])
          items state ''emby_verified''))
      else
        db_bind (db_wrap (Wrapf ''enqueue automatic media ingest: %w'' []) (at_now (enqueueMediaIngest (ie_sha1_id env) taskID))) (\<lambda>ingest.
        db_ret (import_result destinationCID staging_path items state ''transfer_verified'' @
          [(''next_task_id'', VStr (task_ID ingest))])))"

definition run_claimed ::
  "'o import_env \<Rightarrow> AsyncTask \<Rightarrow> string \<Rightarrow> import_request \<Rightarrow> string \<Rightarrow> ('o service, payload) dbm" where
  "run_claimed env task owner rq boundDirectory =
     db_bind (on_db (GetCrossDriveImport (task_ID task))) (\<lambda>state.
     if imp_CancelRequested state then db_fail Canceled
     else
       db_bind (inherit_roots (task_ID task) owner rq state) (\<lambda>inherited.
       db_bind (save_share env task owner rq state inherited) (\<lambda>roots.
       db_bind (discover_items env (task_ID task) owner rq roots) (\<lambda>_.
       db_bind (resolve_destination env rq state) (\<lambda>destinationCID.
       db_bind (transfer_items env (task_ID task) owner rq (bound_to_series state) destinationCID boundDirectory) (\<lambda>(state', items).
       finish_import env (task_ID task) rq destinationCID state' items))))))"

definition runQuarkTo115Import :: "'o import_env \<Rightarrow> AsyncTask \<Rightarrow> ('o service, payload) dbm" where
  "runQuarkTo115Import env task =
     db_bind (lift_error (read_request (task_Payload task))) (\<lambda>rq.
     db_bind (lift_error (initial_state (task_ID task) (task_Payload task) rq)) (\<lambda>state0.
     db_bind (validate_destination env rq state0) (\<lambda>(state, boundDirectory).
     db_bind (checkNASDestination env (task_ID task) state) (\<lambda>_.
     db_bind (at_now (CreateCrossDriveImport state)) (\<lambda>_.
     db_bind uuid_NewString (\<lambda>owner.
     db_bind (at_now (ClaimCrossDriveImport (task_ID task) owner)) (\<lambda>_.
     releasing (task_ID task) owner (run_claimed env task owner rq boundDirectory))))))))"

end
