(* ===== verification/ImportFrames.thy ===== *)
theory ImportFrames
  imports ImportService
begin

text \<open>
  What the operations under an import may change: the task and cross-drive tables evolve through the
  store's own operations, an item of the tree is changed only by the step that works on it, and the
  provider session changes only through its calls.  The frames of the parts compose by the
  \<open>within_rules\<close> of the database monad to the frame of the whole import.
\<close>

section \<open>What the operations of a run leave alone\<close>

text \<open>
  Tasks are told apart by their identifiers, and a task that has been started (its attempts are counted)
  stays started.
\<close>

definition unique_tasks :: "db \<Rightarrow> bool" where
  "unique_tasks d \<longleftrightarrow> distinct (map task_ID (async_tasks d))"

definition started :: "string \<Rightarrow> db \<Rightarrow> bool" where
  "started t d \<longleftrightarrow> (\<exists>row \<in> set (async_tasks d). task_ID row = t \<and> task_Attempts row > 0)"

definition task_frame :: "db \<Rightarrow> db \<Rightarrow> bool" where
  "task_frame d d' \<longleftrightarrow> (unique_tasks d \<longrightarrow> unique_tasks d') \<and> (\<forall>u. started u d \<longrightarrow> started u d')"

interpretation tfr: evolution task_frame
  by unfold_locales (auto simp: task_frame_def)

lemma task_frame_same: "async_tasks d' = async_tasks d \<Longrightarrow> task_frame d d'"
  by (simp add: task_frame_def unique_tasks_def started_def)

lemma task_frame_update:
  assumes "async_tasks d' = sql_update p f (async_tasks d)"
    and f: "\<And>row. task_ID (f row) = task_ID row \<and> task_Attempts (f row) \<ge> task_Attempts row"
  shows "task_frame d d'"
proof -
  have ids: "map task_ID (async_tasks d') = map task_ID (async_tasks d)"
    unfolding assms(1) by (rule map_sql_update) (use f in auto)
  have "\<exists>row' \<in> set (async_tasks d'). task_ID row' = task_ID row \<and> task_Attempts row' \<ge> task_Attempts row"
    if "row \<in> set (async_tasks d)" for row
    unfolding assms(1) using that f
    by (intro bexI [of _ "if p row then f row else row"]) (auto simp: sql_update_def)
  with ids show ?thesis unfolding task_frame_def unique_tasks_def started_def by (metis less_le_trans)
qed

lemma task_prims_frame:
  "(\<And>row. task_ID (f row) = task_ID row \<and> task_Attempts (f row) \<ge> task_Attempts row) \<Longrightarrow>
   db_within task_frame (update_tasks p f)"
  "db_within task_frame (update_runs q g)" "db_within task_frame (insertAsyncTask task)"
  "db_within task_frame (insert_run a n pr now)"
  subgoal
    unfolding update_tasks_def by (rule tfr.within_exec, rule task_frame_update [where p = p and f = f]) auto
  subgoal
    unfolding update_runs_def by (rule tfr.within_exec, rule task_frame_same) simp
  subgoal
    unfolding insertAsyncTask_def
    by (rule tfr.within_stmt) (auto simp: task_frame_def unique_tasks_def started_def split: if_splits)
  subgoal
    unfolding insert_run_def
    by (rule tfr.within_stmt, rule task_frame_same) (auto simp: Let_def split: if_splits)
  done

lemma task_ops_within:
  "db_within task_frame (CreateAsyncTask task now)" "db_within task_frame (CreateScheduledAsyncTask task a now)"
  "db_within task_frame (BeginAsyncTask a now)" "db_within task_frame (UpdateAsyncTaskProgress a p now)"
  "db_within task_frame (AppendTaskLog a b)" "db_within task_frame (FinishAsyncTask a b p c e g now)"
  "db_within task_frame (CancelPendingAsyncTask a now)" "db_within task_frame (RecoverInterruptedAsyncTasks now)"
  unfolding CreateAsyncTask_def CreateScheduledAsyncTask_def BeginAsyncTask_def UpdateAsyncTaskProgress_def
    AppendTaskLog_def FinishAsyncTask_def CancelPendingAsyncTask_def RecoverInterruptedAsyncTasks_def
    GetAsyncTask_def Let_def
  by (intro within_rules task_prims_frame;
      (rule task_frame_same)?; (auto simp: claim_task_def split: option.split; fail)?)+

lemma migrations_within:
  "db_within task_frame migrate_task_errors" "db_within task_frame migrate_item_errors"
  "db_within task_frame migrate_run_errors"
  unfolding migrate_defs
  by (intro within_rules task_prims_frame; (rule task_frame_same)?; (auto simp: redact_task_def; fail)?)+

lemma task_ops_frame: "task_frame d (task_op_state op fs d)"
  by (cases op) (auto intro: db_withinD [OF task_ops_within(1)] db_withinD [OF task_ops_within(2)]
      db_withinD [OF task_ops_within(3)] db_withinD [OF task_ops_within(4)] db_withinD [OF task_ops_within(5)]
      db_withinD [OF task_ops_within(6)] db_withinD [OF task_ops_within(7)] db_withinD [OF task_ops_within(8)]
      db_withinD [OF migrations_within(1)] db_withinD [OF migrations_within(2)] db_withinD [OF migrations_within(3)])

text \<open>
  The items, all but one, stay as they are; that one keeps its identity and, unless the step may set it, its
  SHA-1.
\<close>

definition item_only :: "nat \<times> bool \<Rightarrow> db \<Rightarrow> db \<Rightarrow> bool" where
  "item_only k d d' \<longleftrightarrow> list_all2 (\<lambda>i j. item_kept i j \<and> (item_ID i \<noteq> fst k \<longrightarrow> j = i) \<and>
     (snd k \<longrightarrow> item_SHA1 j = item_SHA1 i)) (cross_drive_items d) (cross_drive_items d')"

text \<open>
  A step of the run \<open>ow\<close> of task \<open>t\<close>: the tasks as above, the tables stay consistent and evolve,
  the run keeps the import; a step for one item leaves the others alone.
\<close>

definition db_frame :: "string \<Rightarrow> string \<Rightarrow> (nat \<times> bool) option \<Rightarrow> db \<Rightarrow> db \<Rightarrow> bool" where
  "db_frame t ow k d d' \<longleftrightarrow> task_frame d d' \<and>
     (xd_tables_inv d \<longrightarrow> xd_tables_inv d' \<and> xd_evolves d d') \<and> (ow \<noteq> '''' \<longrightarrow> keeps_owner t ow d d') \<and>
     (\<forall>k'. k = Some k' \<longrightarrow> item_only k' d d')"

lemma item_only_refl: "item_only k d d"
  by (simp add: item_only_def list_all2_refl item_kept_refl)

lemma item_only_trans: "item_only k d e \<Longrightarrow> item_only k e g \<Longrightarrow> item_only k d g"
  unfolding item_only_def
  by (erule (1) list_all2_trans [rotated]) (auto simp: item_kept_def)

interpretation fr: evolution "db_frame t ow k" for t ow k
  by unfold_locales
    (auto simp: db_frame_def xd_evolves_refl item_only_refl own.evo_refl tfr.evo_refl
      intro: xd_evolves_trans item_only_trans own.evo_trans tfr.evo_trans)

definition frame :: "string \<Rightarrow> string \<Rightarrow> (nat \<times> bool) option \<Rightarrow> 'o service \<Rightarrow> 'o service \<Rightarrow> bool" where
  "frame t ow k s s' \<longleftrightarrow> sv_submitted s' = sv_submitted s \<and> sv_uuids s' = sv_uuids s \<and> db_frame t ow k (sv_db s) (sv_db s')"

interpretation sfr: evolution "frame t ow k" for t ow k
  by unfold_locales (auto simp: frame_def fr.evo_refl intro: fr.evo_trans)

named_theorems frame_rules \<open>steps that stay within the frame of a run\<close>

lemma on_db_frame [frame_rules]: "db_within (db_frame t ow k) m \<Longrightarrow> db_within (frame t ow k) (on_db m)"
  unfolding db_within_def on_db_def by (auto simp: frame_def split: prod.split) (metis snd_conv)

lemma on_out_frame [frame_rules]: "db_within (frame t ow k) (on_out m)"
  using fr.evo_refl by (auto simp: db_within_def on_out_def frame_def split: prod.split)

lemma time_Now_frame [frame_rules]: "db_within (frame t ow k) time_Now"
  using fr.evo_refl by (auto simp: db_within_def time_Now_def frame_def)

lemma at_now_frame [frame_rules]:
  "(\<And>now. db_within (db_frame t ow k) (m now)) \<Longrightarrow> db_within (frame t ow k) (at_now m)"
  unfolding at_now_def by (intro within_rules frame_rules)

lemma ctx_Err_frame [frame_rules]: "db_within (frame t ow k) ctx_Err"
  unfolding ctx_Err_def by (intro within_rules)

lemma lift_error_frame [frame_rules]: "db_within (frame t ow k) (lift_error r)"
  unfolding lift_error_def by (intro within_rules)

lemma fail_if_frame [frame_rules]: "db_within (frame t ow k) (fail_if r)"
  unfolding fail_if_def by (intro within_rules)

lemma require_frame [frame_rules]: "db_within (frame t ow k) (db_require b e)"
  unfolding db_require_def by (intro within_rules)

lemma db_within_mono: "db_within R m \<Longrightarrow> (\<And>d d'. R d d' \<Longrightarrow> S d d') \<Longrightarrow> db_within S m"
  by (auto simp: db_within_def)

lemma db_within_conj: "db_within R m \<Longrightarrow> db_within S m \<Longrightarrow> db_within (\<lambda>d d'. R d d' \<and> S d d') m"
  by (auto simp: db_within_def)

text \<open>A change of the accounts touches nothing the frame speaks of.\<close>

lemma frame_accounts: "db_frame t ow k d (d\<lparr>drive_accounts := rows\<rparr>)"
  by (auto simp: db_frame_def task_frame_same xd_tables_inv_def xd_evolves_def rows_evolve_refl import_kept_refl
      item_kept_refl keeps_owner_def owns_def item_only_def list_all2_refl)

lemma drive_frame: "db_within drive_only m \<Longrightarrow> db_within (frame t ow k) m"
  by (erule db_within_mono) (auto simp: drive_only_def frame_def frame_accounts)

section \<open>The operations of the checkpoint store\<close>

text \<open>They do not touch the tasks.\<close>

definition same_tasks :: "db \<Rightarrow> db \<Rightarrow> bool" where
  "same_tasks d d' \<longleftrightarrow> async_tasks d' = async_tasks d"

interpretation tsk: evolution same_tasks
  by unfold_locales (simp_all add: same_tasks_def)

lemma xd_same_tasks:
  assumes "\<not> (\<exists>now. op = XRecover now)"
  shows "db_within same_tasks (xd_prog op)"
proof -
  have stmts: "db_within same_tasks (insert_import s)" "db_within same_tasks (copy_items a b c)"
    "db_within same_tasks (copy_parts a b)" "db_within same_tasks (upsert_item a b item c)"
    "db_within same_tasks (delete_parts j)" "db_within same_tasks (SaveCrossDriveUploadPart j n a k)"
    "db_within same_tasks (update_imports p f)" "db_within same_tasks (update_owned_item j a b g)"
    for s a b c j n k item p f g
    unfolding insert_import_def copy_items_def copy_parts_def upsert_item_def delete_parts_def
      SaveCrossDriveUploadPart_def update_imports_def update_owned_item_def
    by (intro tsk.within_stmt tsk.within_exec; auto simp: same_tasks_def Let_def split: if_splits)+
  show ?thesis
    using assms
    by (cases op; simp only: xd_prog.simps)
      (auto simp: import_ops_defs item_ops_defs UpdateCrossDriveImport_def check_destination_def
        UpsertCrossDriveItem_def ResetCrossDriveUpload_def SaveCrossDriveDownloadSegment_def
        CreateCrossDriveImport_def FinalizeCrossDriveDiscovery_def MarkCrossDriveItemVerified_def Let_def
        migrate_item_errors_def same_tasks_def intro!: within_rules stmts)
qed

lemma xd_frame:
  assumes "\<not> (\<exists>now. op = XRecover now)" "\<not> (\<exists>now. op = XRelease t ow now)"
  shows "db_within (db_frame t ow None) (xd_prog op)"
proof -
  have "db_within (\<lambda>d d'. xd_tables_inv d \<longrightarrow> xd_tables_inv d' \<and> xd_evolves d d') (xd_prog op)"
    using xd_state_good [of _ op] by (auto simp: db_within_def xd_good_def xd_state_def)
  moreover have "db_within (\<lambda>d d'. ow \<noteq> '''' \<longrightarrow> keeps_owner t ow d d') (xd_prog op)"
    using xd_prog_owner [OF assms(2,1)] by (cases "ow = ''''") (auto simp: db_within_def)
  ultimately show ?thesis
    using xd_same_tasks [OF assms(1)]
    by (auto simp: db_within_def db_frame_def same_tasks_def task_frame_same)
qed

lemmas xd_frames [frame_rules] =
  xd_frame [of "XCreate s now" for s now, simplified]
  xd_frame [of "XUpdate a b c d e f now" for a b c d e f now, simplified]
  xd_frame [of "XRoots a b c now" for a b c now, simplified]
  xd_frame [of "XUpsert a b c now" for a b c now, simplified]
  xd_frame [of "XFinalize a b now" for a b now, simplified]

text \<open>A frame for one item is a frame; an operation that changes that item only has the frame for it.\<close>

lemma db_frame_item:
  assumes "db_within (db_frame t ow None) m" "db_within (item_only k) m"
  shows "db_within (db_frame t ow (Some k)) m"
  using assms by (auto simp: db_within_def db_frame_def)

lemma db_frame_weaken: "db_frame t ow (Some k) d d' \<Longrightarrow> db_frame t ow None d d'"
  by (auto simp: db_frame_def)

lemma frame_weaken: "db_within (frame t ow (Some k)) m \<Longrightarrow> db_within (frame t ow None) m"
  by (erule db_within_mono) (auto simp: frame_def dest: db_frame_weaken)

interpretation itm: evolution "item_only k" for k
  by unfold_locales (auto intro: item_only_refl item_only_trans)

lemma item_only_same: "cross_drive_items d' = cross_drive_items d \<Longrightarrow> item_only k d d'"
  using item_only_refl by (simp add: item_only_def)

lemma item_only_update:
  "(\<And>i. item_kept i (f i) \<and> (h \<longrightarrow> item_SHA1 (f i) = item_SHA1 i)) \<Longrightarrow>
   db_within (item_only (k, h)) (update_owned_item k a b f)"
  unfolding update_owned_item_def Let_def
  by (rule itm.within_exec) (auto simp: item_only_def sql_update_def list_all2_conv_all_nth item_kept_refl)

lemma imports_item_only: "db_within (item_only k) (update_imports p f)"
  unfolding update_imports_def by (rule itm.within_exec, rule item_only_same) simp

lemma item_step_ops:
  "db_within (item_only (k, h)) (UpdateCrossDriveImport a b c d e f now)"
  "db_within (item_only (k, h)) (UpdateCrossDriveItemDownload k a b c d n now)"
  "db_within (item_only (k, False)) (UpdateCrossDriveItemHashes k a b c d now)"
  "db_within (item_only (k, h)) (ResetCrossDriveUpload k a b now)"
  "db_within (item_only (k, h)) (SaveCrossDriveUploadSession k a b c d e now)"
  "db_within (item_only (k, h)) (SaveCrossDriveUploadPart k j e n)"
  "db_within (item_only (k, h)) (SaveCrossDriveDownloadSegment a b c j n)"
  "db_within (item_only (k, h)) (MarkCrossDriveItemVerified k a b c d now)"
  "db_within (item_only (k, h)) (MarkCrossDriveItemFailed k a b c now)"
  unfolding item_ops_defs UpdateCrossDriveImport_def check_destination_def ResetCrossDriveUpload_def delete_parts_def
    SaveCrossDriveUploadPart_def SaveCrossDriveDownloadSegment_def MarkCrossDriveItemVerified_def
  by (auto simp: item_kept_def Let_def intro!: within_rules item_only_update imports_item_only item_only_same
      split: if_splits)

lemmas item_frames [frame_rules] =
  db_frame_item [OF xd_frame [of "XUpdate a b c d e f now" for a b c d e f now, simplified] item_step_ops(1)]
  db_frame_item [OF xd_frame [of "XDownload k a b c d e now" for k a b c d e now, simplified] item_step_ops(2)]
  db_frame_item [OF xd_frame [of "XHashes k a b c d now" for k a b c d now, simplified] item_step_ops(3)]
  db_frame_item [OF xd_frame [of "XReset k a b now" for k a b now, simplified] item_step_ops(4)]
  db_frame_item [OF xd_frame [of "XSession k a b c d e now" for k a b c d e now, simplified] item_step_ops(5)]
  db_frame_item [OF xd_frame [of "XPart k a b c" for k a b c, simplified] item_step_ops(6)]
  db_frame_item [OF xd_frame [of "XSegment a b c d e" for a b c d e, simplified] item_step_ops(7)]
  db_frame_item [OF xd_frame [of "XVerified k a b c d now" for k a b c d now, simplified] item_step_ops(8)]
  db_frame_item [OF xd_frame [of "XFailed k a b c now" for k a b c now, simplified] item_step_ops(9)]

text \<open>Operations on tasks leave the checkpoint tables alone.\<close>

definition same_checkpoints :: "db \<Rightarrow> db \<Rightarrow> bool" where
  "same_checkpoints d d' \<longleftrightarrow> cross_drive_imports d' = cross_drive_imports d \<and>
     cross_drive_items d' = cross_drive_items d \<and> cross_drive_items_seq d' = cross_drive_items_seq d \<and>
     cross_drive_upload_parts d' = cross_drive_upload_parts d \<and>
     cross_drive_download_segments_v2 d' = cross_drive_download_segments_v2 d"

interpretation chk: evolution same_checkpoints
  by unfold_locales (auto simp: same_checkpoints_def)

lemma db_frame_tasks:
  "db_within task_frame m \<Longrightarrow> db_within same_checkpoints m \<Longrightarrow> db_within (db_frame t ow k) m"
  by (auto simp: db_within_def same_checkpoints_def db_frame_def xd_tables_inv_def xd_evolves_def rows_evolve_refl
      import_kept_refl item_kept_refl keeps_owner_def owns_def item_only_def list_all2_refl)

lemma same_checkpoints_ops:
  "db_within same_checkpoints (UpdateAsyncTaskProgress a p now)" "db_within same_checkpoints (CreateAsyncTask task now)"
  "db_within same_checkpoints (BeginAsyncTask a now)" "db_within same_checkpoints (AppendTaskLog a b)"
  "db_within same_checkpoints (FinishAsyncTask a b p c e g now)"
  unfolding task_ops_defs Let_def
  by (intro within_rules; auto simp: same_checkpoints_def split: option.split if_splits)+

lemmas task_frames [frame_rules] =
  db_frame_tasks [OF task_ops_within(4) same_checkpoints_ops(1)]
  db_frame_tasks [OF task_ops_within(1) same_checkpoints_ops(2)]
  db_frame_tasks [OF task_ops_within(3) same_checkpoints_ops(3)]
  db_frame_tasks [OF task_ops_within(5) same_checkpoints_ops(4)]
  db_frame_tasks [OF task_ops_within(6) same_checkpoints_ops(5)]

lemma GetAsyncTask_frame [frame_rules]: "db_within (db_frame t ow k) (GetAsyncTask a)"
  unfolding GetAsyncTask_def by (intro within_rules)

lemma enqueueMediaIngest_frame [frame_rules]: "db_within (db_frame t ow k) (enqueueMediaIngest sha a now)"
  unfolding enqueueMediaIngest_def Let_def
  by (intro within_rules frame_rules)

lemma read_frames [frame_rules]:
  "db_within (db_frame t ow k) (GetSetting key)"
  "db_within (db_frame t ow k) (GetCrossDriveImport a)"
  "db_within (db_frame t ow k) (ListCrossDriveItems a)"
  "db_within (db_frame t ow k) (FindReusableCrossDriveSpool a n)"
  "db_within (db_frame t ow k) (ListCrossDriveDownloadSegments a)"
  unfolding GetSetting_def GetCrossDriveImport_def ListCrossDriveItems_def FindReusableCrossDriveSpool_def
    ListCrossDriveDownloadSegments_def
  by (intro within_rules)+

lemma account_for_frame [frame_rules]: "db_within (frame t ow k) (account_for name a)"
  unfolding account_for_def at_now_def
  by (intro drive_frame within_rules on_db_only getAccountForProvider_only time_Now_only)

section \<open>Uploads and downloads of one item\<close>

lemma find_from_frame [frame_rules]: "db_within (frame t ow k) (find_from drive account parent p offset)"
proof (induction drive account parent p offset rule: find_from.induct)
  case (1 drive account parent p offset)
  show ?case
    unfolding find_from.simps [of _ _ _ _ offset] by (intro within_rules frame_rules) (use 1 in auto)
qed

lemma unless_cancelled_frame [frame_rules]:
  "db_within (frame t ow k) m \<Longrightarrow> db_within (frame t ow k) (unless_cancelled m)"
  unfolding unless_cancelled_def by (intro within_rules frame_rules)

lemma sleepContext_frame [frame_rules]: "db_within (frame t ow k) (sleepContext d)"
  unfolding sleepContext_def by (intro within_rules frame_rules) (simp add: frame_def fr.evo_refl)

lemma wait_frame [frame_rules]:
  "db_within (frame t ow k) (waitForVerifiedDestination drive account parent source rapid n)"
proof -
  have "db_within (frame t ow k) (wait_poll polls drive account parent source rapid n started final deadline)"
    for polls started final deadline
    by (induction polls arbitrary: deadline)
      (auto simp: poll_once_def findDestinationFile_def cloudDriveUploadPlaceholder_def past_deadline_def
        intro!: within_rules frame_rules split: destinationState.split)
  then show ?thesis unfolding waitForVerifiedDestination_def by (intro within_rules frame_rules)
qed

lemma lookup_frames [frame_rules]:
  "db_within (frame t ow k) (findDestinationFile drive account parent name)"
  "db_within (frame t ow k) (cloudDriveUploadPlaceholder drive account parent name)"
  unfolding findDestinationFile_def cloudDriveUploadPlaceholder_def by (intro within_rules frame_rules)+

lemma poll_directory_frame: "db_within (frame t ow k) (poll_directory polls os directory deadline)"
  by (induction polls) (auto intro!: within_rules frame_rules split: option.split)

lemma mount_frames [frame_rules]:
  "db_within (frame t ow k) (waitForLocalDirectory os directory)"
  "db_within (frame t ow k) (cloudDrive115Mount mounts a)"
  unfolding waitForLocalDirectory_def cloudDrive115Mount_def
  by (intro within_rules frame_rules poll_directory_frame)+

lemma cloudDriveStagingDirectory_frame [frame_rules]:
  "db_within (frame t ow k) (cloudDriveStagingDirectory os mounts account)"
  unfolding cloudDriveStagingDirectory_def Let_def by (intro within_rules frame_rules)

lemma uploadViaCloudDriveDirectory_frame [frame_rules]:
  "db_within (frame t ow k) (uploadViaCloudDriveDirectory os drive item account parent spool directory)"
  unfolding uploadViaCloudDriveDirectory_def stage_upload_def stage_copy_def hashPathSHA1_def Let_def
  by (intro within_rules frame_rules) (auto intro!: within_rules frame_rules split: destinationState.split)

lemma record_listed_frame:
  "(\<And>j e n. db_within (frame t ow k) (onPart j e n)) \<Longrightarrow> db_within (frame t ow k) (record_listed onPart listed parts)"
  by (induction onPart listed parts rule: record_listed.induct) (auto intro!: within_rules)

lemma upload_parts_frame:
  "(\<And>j e n. db_within (frame t ow k) (onPart j e n)) \<Longrightarrow>
   db_within (frame t ow k) (upload_parts sdk token mp source onPart numbers parts)"
  by (induction numbers arbitrary: parts) (auto simp: Let_def intro!: within_rules frame_rules)

lemma stat_existing_frame: "db_within (frame t ow k) (stat_existing m)"
  unfolding stat_existing_def by (intro within_rules frame_rules)

lemma UploadFile_frame [frame_rules]:
  assumes "\<And>a b c. db_within (frame t ow k) (onSession a b c)" "\<And>j e n. db_within (frame t ow k) (onPart j e n)"
  shows "db_within (frame t ow k) (UploadFile sdk os drive account parent source onSession onPart)"
proof -
  have session: "db_within (frame t ow k) (upload_session sdk token init source' onSession)" for token init source'
    unfolding upload_session_def Let_def by (intro within_rules frame_rules assms)
  have multi: "db_within (frame t ow k) (upload_multipart sdk os client init source' onSession onPart)"
    for client init source'
    unfolding upload_multipart_def
    by (intro within_rules frame_rules session record_listed_frame upload_parts_frame assms)
  have sign: "db_within (frame t ow k) (sign_challenge sdk os client request source' init)" for client request source' init
    unfolding sign_challenge_def hashFileRange_def Let_def by (intro within_rules frame_rules)
  show ?thesis
    unfolding UploadFile_def Let_def
    by (auto intro!: within_rules frame_rules multi sign stat_existing_frame split: destinationState.split)
qed

lemma AbortUpload_frame [frame_rules]: "db_within (frame t ow k) (AbortUpload sdk account upload)"
  unfolding AbortUpload_def by (intro within_rules frame_rules)

lemma import_callbacks_frame [frame_rules]:
  "db_within (frame t ow (Some (item_ID item, h))) (import_session t ow item a b c)"
  "db_within (frame t ow (Some (item_ID item, h))) (import_part item j e n)"
  unfolding import_session_def import_part_def
  by (intro within_rules frame_rules; simp add: frame_def fr.evo_refl)+

lemma read_events_frame:
  "(\<And>f e. progress = Some f \<Longrightarrow> db_within (frame t ow k) (f e)) \<Longrightarrow>
   db_within (frame t ow k) (read_events progress completed err ls)"
proof (induction progress completed err ls rule: read_events.induct)
  case (4 progress completed err event rest)
  then show ?case by (cases progress) (auto intro!: within_rules)
qed (auto intro: within_rules)

lemma worker_run_frame:
  "(\<And>f e. progress = Some f \<Longrightarrow> db_within (frame t ow k) (f e)) \<Longrightarrow>
   db_within (frame t ow k) (worker_run ssh request progress)"
  unfolding worker_run_def by (intro within_rules frame_rules read_events_frame)

lemma worker_frames [frame_rules]:
  "(\<And>e. db_within (frame t ow k) (f e)) \<Longrightarrow> db_within (frame t ow k) (worker_Download ssh request f)"
  "(\<And>e. db_within (frame t ow k) (f e)) \<Longrightarrow> db_within (frame t ow k) (worker_Publish ssh request f)"
  "db_within (frame t ow k) (worker_Commit ssh a b c)"
  "db_within (frame t ow k) (worker_Check ssh a b n)"
  unfolding worker_Download_def worker_Publish_def worker_Commit_def worker_Check_def
  by (intro within_rules worker_run_frame; simp; fail)+

lemma settings_frames [frame_rules]:
  "db_within (frame t ow k) quarkDownloadConnections" "db_within (frame t ow k) transferSettings"
  "db_within (frame t ow k) (requireTransferSpace os directory n)"
  unfolding quarkDownloadConnections_def transferSettings_def requireTransferSpace_def Let_def
  by (intro within_rules frame_rules)+

lemma fetch_events_frame:
  "(\<And>e. db_within (frame t ow k) (call e)) \<Longrightarrow> db_within (frame t ow k) (fetch_events call failure es)"
  by (induction call failure es rule: fetch_events.induct) (auto intro!: within_rules)

lemma fetch_call_frame: "db_within (frame t ow (Some (item_ID item, False))) (fetch_call t ow item spool n m e)"
  unfolding fetch_call_def reportQuarkDownload_def
  by (cases e) (auto intro!: within_rules frame_rules)

lemma downloadQuarkItem_frame [frame_rules]:
  "db_within (frame t ow (Some (item_ID item, False))) (downloadQuarkItem env t ow a item n m)"
  unfolding downloadQuarkItem_def fetch_spool_def spool_path_def
  by (intro within_rules frame_rules fetch_events_frame fetch_call_frame)

lemma mark_failed_frame [frame_rules]:
  "db_within (frame t ow (Some (item_ID item, h))) m \<Longrightarrow> db_within (frame t ow (Some (item_ID item, h))) (mark_failed t ow item m)"
  unfolding mark_failed_def by (intro within_rules frame_rules)

lemma publish_via_nas_frame [frame_rules]:
  "db_within (frame t ow (Some (item_ID item, h))) (publish_via_nas env ssh t ow job item state qa account parent)"
  unfolding publish_via_nas_def upload_progress_def Let_def
  by (auto intro!: within_rules frame_rules split: destinationState.split)

lemma transferQuarkItemViaNAS_frame [frame_rules]:
  "db_within (frame t ow (Some (item_ID item, False))) (transferQuarkItemViaNAS env ssh t ow item state qa account parent n m)"
proof -
  have "db_within (frame t ow (Some (item_ID item, h)))
      (publish_via_nas env ssh t ow job (item\<lparr>item_SHA1 := a, item_PreSHA1 := b\<rparr>) state qa account parent)" for job a b h
    using publish_via_nas_frame [of t ow "item\<lparr>item_SHA1 := a, item_PreSHA1 := b\<rparr>"] by simp
  then show ?thesis
    unfolding transferQuarkItemViaNAS_def nas_progress_def Let_def
    by (intro within_rules frame_rules) auto
qed

lemma upload_item_frame:
  assumes "item_ID item = k"
  shows "db_within (frame t ow (Some (k, h))) (upload_item env t ow item account parent directory)"
  using assms unfolding upload_item_def upload_failed_def
  by (auto intro!: within_rules frame_rules simp: frame_def fr.evo_refl)

lemma transfer_item_frame [frame_rules]:
  "db_within (frame t ow (Some (item_ID item, False))) (transfer_item env t ow rq state item account dest parent directory n m)"
  unfolding transfer_item_def transfer_directly_def Let_def
  by (intro within_rules frame_rules upload_item_frame) simp_all

section \<open>A run submits its share at most once\<close>

lemma frame_forget: "db_within (frame t ow k) m \<Longrightarrow> db_within (frame t '''' None) m"
  by (erule db_within_mono) (auto simp: frame_def db_frame_def)

lemma xd_frame_any:
  assumes "\<not> (\<exists>now. op = XRecover now)"
  shows "db_within (db_frame t '''' None) (xd_prog op)"
  using xd_same_tasks [OF assms] xd_state_good [of _ op]
  by (auto simp: db_within_def db_frame_def same_tasks_def task_frame_same xd_good_def xd_state_def)

text \<open>The steps of a run before and after the submission, and the submission itself.\<close>

definition once :: "bool \<Rightarrow> 'o service \<Rightarrow> 'o service \<Rightarrow> bool" where
  "once b s s' \<longleftrightarrow> db_frame '''' '''' None (sv_db s) (sv_db s') \<and>
     (sv_submitted s' = sv_submitted s \<or> b \<and> (\<exists>url. sv_submitted s' = sv_submitted s @ [url]))"

lemma frame_once: "db_within (frame t ow k) m \<Longrightarrow> db_within (once b) m"
  by (drule frame_forget, erule db_within_mono) (auto simp: frame_def once_def db_frame_def)

lemma frame_forget_t: "frame t ow k s s' \<Longrightarrow> db_frame '''' '''' None (sv_db s) (sv_db s') \<and> sv_submitted s' = sv_submitted s"
  by (auto simp: frame_def db_frame_def)

lemma once_bind_before:
  fixes m :: "('o service, 'x) dbm"
  assumes "db_within (frame t ow k) m" "\<And>x. db_within (once b) (m' x)"
  shows "db_within (once b) (db_bind m m')"
proof (rule db_within_wp, rule db_wp_bind, rule db_wp_conseq [OF db_within_wpD [OF assms(1)]])
  fix d d' :: "'o service" and x assume f: "frame t ow k d d'"
  show "db_wp (m' x) (\<lambda>_. once b d) (\<lambda>_. once b d) d'"
    by (rule db_wp_conseq [OF db_within_wpD [OF assms(2)]])
      (use frame_forget_t [OF f] in \<open>auto simp: once_def intro: fr.evo_trans\<close>)
qed (use frame_forget_t in \<open>force simp: once_def\<close>)

lemma once_bind_after:
  fixes m :: "('o service, 'x) dbm"
  assumes "db_within (once b) m" "\<And>x. db_within (frame t ow k) (m' x)"
  shows "db_within (once b) (db_bind m m')"
proof (rule db_within_wp, rule db_wp_bind, rule db_wp_conseq [OF db_within_wpD [OF assms(1)]])
  fix d d' :: "'o service" and x assume f: "once b d d'"
  show "db_wp (m' x) (\<lambda>_. once b d) (\<lambda>_. once b d) d'"
    by (rule db_wp_conseq [OF db_within_wpD [OF assms(2)]])
      (use f frame_forget_t in \<open>fastforce simp: once_def intro: fr.evo_trans\<close>)+
qed simp

lemma once_bind_quiet:
  fixes m :: "('o service, 'x) dbm"
  assumes "db_within (once False) m" "\<And>x. db_within (once b) (m' x)"
  shows "db_within (once b) (db_bind m m')"
proof (rule db_within_wp, rule db_wp_bind, rule db_wp_conseq [OF db_within_wpD [OF assms(1)]])
  fix d d' :: "'o service" and x assume f: "once False d d'"
  show "db_wp (m' x) (\<lambda>_. once b d) (\<lambda>_. once b d) d'"
    by (rule db_wp_conseq [OF db_within_wpD [OF assms(2)]])
      (use f in \<open>auto simp: once_def intro: fr.evo_trans\<close>)
qed (auto simp: once_def)

lemma once_try: "db_within (once b) m \<Longrightarrow> db_within (once b) (db_try m)"
  by (auto simp: db_within_def db_try_def split: prod.splits) (metis snd_conv)

lemma via_frame [frame_rules]: "db_within (frame t ow k) (via providers name a call)"
  by (rule drive_frame, rule via_only)

lemma submitting_once:
  assumes "db_within (frame t ow k) m"
  shows "db_within (once True) (submitting url m)"
  unfolding submitting_def
  by (rule once_bind_after [OF _ assms]) (simp add: db_within_def db_upd_def once_def fr.evo_refl)

lemma save_share_once: "db_within (once (task_Attempts task = 0)) (save_share env task ow rq state roots)"
proof (cases "task_Attempts task = 0")
  case True
  have submit: "db_within (once True) (submit_share env rq state)"
    unfolding submit_share_def SaveProviderShareSelections_def SaveProviderShare_def
    by (intro db_within_if submitting_once [OF via_frame [of "''''" "''''" None]] once_bind_before [OF fail_if_frame [of "''''" "''''" None]])
  have rest: "db_within (frame (task_ID task) ow None) (db_bind (db_wrap w (at_now (SaveCrossDriveRoots (task_ID task) ow r))) (\<lambda>_.
      db_bind (at_now (UpdateAsyncTaskProgress (task_ID task) p)) (\<lambda>_. db_ret r)))" for w r p
    by (intro within_rules frame_rules)
  have ret: "db_within (once True) (db_ret x)" for x
    by (rule frame_once [of "''''" "''''" None]) (intro within_rules)
  show ?thesis
    using True unfolding save_share_def
    by (simp add: ret) (intro conjI impI once_bind_before [of "task_ID task" ow None] once_bind_after [OF submit rest]
        frame_rules)
next
  case False
  then show ?thesis
    unfolding save_share_def
    by (intro frame_once [of "task_ID task" ow None]) (auto intro: within_rules)
qed

lemma resolve_frames [frame_rules]:
  "db_within (frame t ow k) (listAllProviderFiles providers name a parent)"
  "db_within (frame t ow k) (resolveImportDestination providers a)"
  unfolding resolveImportDestination_def by (intro drive_frame within_rules)+

lemma resolveAutofillDestination_frame [frame_rules]:
  "db_within (frame t ow k) (resolveAutofillDestination env state)"
  unfolding resolveAutofillDestination_def Let_def by (intro within_rules frame_rules)

lemma finalizeAutofillImport_frame [frame_rules]:
  "db_within (frame t ow k) (finalizeAutofillImport env a state)"
  unfolding finalizeAutofillImport_def by (intro within_rules frame_rules)

lemma item_destination_frame [frame_rules]:
  "db_within (frame t ow k) (item_destination env rq bound account dest directory)"
  unfolding item_destination_def by (intro within_rules frame_rules)

lemma reconcileVerifiedItem_frame [frame_rules]: "db_within (frame t ow k) (reconcileVerifiedItem env a item)"
  unfolding reconcileVerifiedItem_def by (intro within_rules frame_rules)

lemma import_item_frame:
  "db_within (frame t ow (Some (item_ID item, False))) (import_item env t ow rq bound dest directory tot count index n item)"
  unfolding import_item_def remove_spool_def by (intro within_rules frame_rules)

lemma import_items_frame:
  "(\<And>j n item. db_within (frame t ow None) (step j n item)) \<Longrightarrow> db_within (frame t ow None) (import_items step j n items)"
  by (induction step j n items rule: import_items.induct) (auto intro!: within_rules)

lemma stage_frames [frame_rules]:
  "db_within (frame t ow None) (inherit_roots t ow rq state)"
  "db_within (frame t ow None) (discover_items env t ow rq roots)"
  "db_within (frame t ow None) (resolve_destination env rq state)"
  "db_within (frame t ow None) (transfer_items env t ow rq bound dest directory)"
  "db_within (frame t ow None) (finish_import env t rq dest state items)"
  unfolding inherit_roots_def discover_items_def discoverQuarkImport_def resolve_destination_def transfer_items_def finish_import_def
  by (intro within_rules frame_rules import_items_frame frame_weaken [OF import_item_frame] drive_frame [OF discover_tree_only])+

lemma run_claimed_once: "db_within (once (task_Attempts task = 0)) (run_claimed env task ow rq directory)"
proof -
  let ?f = "frame (task_ID task) ow None"
  have rest: "db_within ?f (db_bind (discover_items env (task_ID task) ow rq roots) (\<lambda>_.
       db_bind (resolve_destination env rq state) (\<lambda>destinationCID.
       db_bind (transfer_items env (task_ID task) ow rq (bound_to_series state) destinationCID directory) (\<lambda>(state', items).
       finish_import env (task_ID task) rq destinationCID state' items))))" for roots state
    by (intro within_rules frame_rules)
  have fail: "db_within ?f (db_fail e)" for e by (rule within_rules)
  show ?thesis
    unfolding run_claimed_def
    by (rule once_bind_before [of "task_ID task" ow None], (intro frame_rules; fail), rule db_within_if, rule frame_once [OF fail],
        rule once_bind_before [of "task_ID task" ow None], (intro frame_rules; fail), rule once_bind_after [OF save_share_once rest])
qed

lemma run_import_once: "db_within (once (task_Attempts task = 0)) (runQuarkTo115Import env task)"
proof -
  let ?f = "frame (task_ID task) '''' None"
  have ops: "db_within ?f (at_now (ClaimCrossDriveImport (task_ID task) ow))"
    "db_within ?f (at_now (ReleaseCrossDriveImport (task_ID task) ow))" for ow
    using xd_frame_any [of "XClaim a ow now" for a now] xd_frame_any [of "XRelease a ow now" for a now]
    by (auto intro!: at_now_frame)
  have uuid: "db_within (once False) uuid_NewString"
    by (auto simp: db_within_def uuid_NewString_def once_def fr.evo_refl)
  have release: "db_within (once b) (releasing (task_ID task) ow m)" if "db_within (once b) m" for b ow m
    unfolding releasing_def
    by (rule once_bind_after [where t = "task_ID task" and ow = "''''" and k = None, OF once_try [OF that]])
      (intro within_rules frame_rules ops)
  have check: "db_within ?f (validate_destination env rq state)" "db_within ?f (checkNASDestination env a state)" for rq state a
    unfolding validate_destination_def check_autofill_parent_def bound_directory_def checkNASDestination_def Let_def
    by (intro within_rules frame_rules; fail)+
  show ?thesis
    unfolding runQuarkTo115Import_def
    apply (rule once_bind_before [OF lift_error_frame [of "task_ID task" "''''" None]])+
    apply (rule once_bind_before [OF check(1)])
    apply (rule db_within_case_prod)
    apply (rule once_bind_before [OF check(2)])
    apply (rule once_bind_before [of "task_ID task" "''''" None], (intro frame_rules; fail))
    apply (rule once_bind_quiet [OF uuid])
    apply (rule once_bind_before [OF ops(1)])
    by (rule release [OF run_claimed_once])
qed

end
