(* ===== verification/ImportOnce.thy ===== *)
theory ImportOnce
  imports ImportFrames
begin

text \<open>
  A Quark import task asks Quark to save its share at most once, whatever happens to it: a retried run, a
  restart of the server, a queue operation of anything else, and any behaviour of the providers. The history
  of a task counts the calls of \<open>SaveProviderShare\<close> and \<open>SaveProviderShareSelections\<close> its runs make.
\<close>

section \<open>Over the life of a task\<close>

text \<open>\<open>run\<close> for an import task, as the worker calls it.\<close>

definition import_work :: "'o import_env \<Rightarrow> AsyncTask \<Rightarrow> ('o service, payload option \<times> error option) dbm" where
  "import_work env task =
     db_bind (db_try (runQuarkTo115Import env task)) (\<lambda>r. db_ret
       (case r of Inl e \<Rightarrow> (None, Some e) | Inr p \<Rightarrow> (Some p, None)))"

lemma begin_started:
  "db_wp (BeginAsyncTask tid now) (\<lambda>r d'. r \<noteq> None \<longrightarrow> started tid d') (\<lambda>_ _. True) d"
proof -
  let ?started = "\<lambda>n d'. n \<noteq> 0 \<longrightarrow> started tid d'"
  have "?started (sql_count (claimable tid) ts) (d\<lparr>async_tasks := sql_update (claimable tid) (claim_task now) ts\<rparr>)"
    if "ts = async_tasks d" for ts
  proof
    assume "sql_count (claimable tid) ts \<noteq> 0"
    then obtain row where row: "row \<in> set ts" "claimable tid row" by (auto simp: sql_count_0)
    then have "claim_task now row \<in> set (sql_update (claimable tid) (claim_task now) ts)"
      by (auto simp: sql_update_def)
    with row(2) show "started tid (d\<lparr>async_tasks := sql_update (claimable tid) (claim_task now) ts\<rparr>)"
      unfolding started_def by (auto simp: claimable_def claim_task_def intro!: bexI [of _ "claim_task now row"])
  qed
  then have claimed: "db_wp (update_tasks (claimable tid) (claim_task now)) ?started (\<lambda>_ _. True) d"
    unfolding update_tasks_def by (intro wp_rules) simp_all
  have run: "db_wp (insert_run tid n p now) (\<lambda>_. started tid) (\<lambda>_ _. True) d'" if "started tid d'" for n p d'
    using that unfolding insert_run_def started_def by (intro wp_rules) (auto simp: Let_def split: if_splits)
  have row: "db_wp (GetAsyncTask tid) (\<lambda>_. started tid) (\<lambda>_ _. True) d'" if "started tid d'" for d'
    using that unfolding GetAsyncTask_def by (intro wp_rules) simp_all
  show ?thesis
    unfolding BeginAsyncTask_def
    apply (intro db_wp_tx db_wp_bind db_wp_conseq [OF claimed])
    by (auto intro!: wp_rules db_wp_conseq [OF run] db_wp_conseq [OF row])
qed

lemma settle_frame: "db_within (frame t ow None) (settle task r)"
proof (cases r)
  case (Pair encoded err)
  then show ?thesis
    unfolding settle_def logged_def by (cases err) (auto intro!: within_rules frame_rules)
qed

lemma start_failed_frame: "db_within (frame t ow None) (start_failed a b e)"
  unfolding start_failed_def logged_def Let_def by (intro within_rules frame_rules)

lemma execute_claimed_once:
  "db_within (once (task_Attempts task = 0)) (execute_claimed marshal (import_work env) task)"
proof -
  let ?f = "frame (task_ID task) '''' None" and ?b = "task_Attempts task = 0"
  have work: "db_within (once ?b) (import_work env task)"
    unfolding import_work_def
    by (rule once_bind_after [of _ _ "task_ID task" "''''" None, OF once_try [OF run_import_once]]) (rule within_rules)
  have end': "db_within (once ?b) (db_bind (import_work env task) (\<lambda>result. settle task (encode_result marshal result)))"
    by (rule once_bind_after [OF work settle_frame [of "task_ID task" "''''"]])
  show ?thesis
    unfolding execute_claimed_def
    apply (rule once_bind_before [of "task_ID task" "''''" None], (intro within_rules frame_rules; fail))
    apply (rule db_within_case_sum, rule frame_once [OF start_failed_frame])
    apply (rule once_bind_before [of "task_ID task" "''''" None], (intro within_rules frame_rules; fail))
    by (rule db_within_case_sum, rule frame_once [OF start_failed_frame], rule end')
qed

text \<open>A submission leaves the task started, so that it is the only one.\<close>

definition submitted_once :: "AsyncTask \<Rightarrow> 'o service \<Rightarrow> 'o service \<Rightarrow> bool" where
  "submitted_once task s s' \<longleftrightarrow> task_frame (sv_db s) (sv_db s') \<and>
     (sv_submitted s' = sv_submitted s \<or>
      task_Attempts task = 0 \<and> started (task_ID task) (sv_db s') \<and> (\<exists>url. sv_submitted s' = sv_submitted s @ [url]))"

lemma holding_media_wp:
  assumes "db_wp body (\<lambda>_ s'. Q (s'\<lparr>sv_mediaMu := False\<rparr>)) (\<lambda>_ s'. Q (s'\<lparr>sv_mediaMu := False\<rparr>)) (s\<lparr>sv_mediaMu := True\<rparr>)"
  shows "db_wp (holding_media body) (\<lambda>_. Q) (\<lambda>_. Q) s"
  unfolding holding_media_def
  by (rule db_wp_bind, rule db_wp_upd, rule db_wp_bind, rule db_wp_try, rule db_wp_conseq [OF assms];
      rule db_wp_bind, rule db_wp_upd) (simp_all add: db_wp_ret db_wp_fail)

lemma execute_import_once:
  "db_wp (executeTask marshal (import_work env) task) (\<lambda>_. submitted_once task s) (\<lambda>_. submitted_once task s) s"
proof -
  let ?Q = "submitted_once task s"
  have same: "?Q s'" if "task_frame (sv_db s) (sv_db s')" "sv_submitted s' = sv_submitted s" for s'
    using that by (simp add: submitted_once_def)
  have upd: "?Q (s'\<lparr>sv_mediaMu := b\<rparr>)" "?Q (s'\<lparr>sv_running := rs\<rparr>)" if "?Q s'" for s' b rs
    using that by (simp_all add: submitted_once_def)
  have claim: "db_wp (at_now (BeginAsyncTask (task_ID task)))
      (\<lambda>r s'. (task_frame (sv_db s) (sv_db s') \<and> sv_submitted s' = sv_submitted s) \<and> (r \<noteq> None \<longrightarrow> started (task_ID task) (sv_db s')))
      (\<lambda>_ s'. task_frame (sv_db s) (sv_db s') \<and> sv_submitted s' = sv_submitted s) s1"
    if "sv_db s1 = sv_db s" "sv_submitted s1 = sv_submitted s" for s1
    unfolding at_now_def
    apply (intro db_wp_bind db_wp_time_Now db_wp_on_db)
    apply (rule db_wp_conseq [OF db_wp_conj [OF db_within_wpD [OF task_ops_within(3)] begin_started]])
    using that by auto
  have claimed: "db_wp (db_bind (register (task_ID task)) (\<lambda>_.
             db_bind (db_try (execute_claimed marshal (import_work env) task)) (\<lambda>_. unregister (task_ID task))))
      (\<lambda>_. ?Q) (\<lambda>_. ?Q) s1"
    if s1: "task_frame (sv_db s) (sv_db s1)" "sv_submitted s1 = sv_submitted s" "started (task_ID task) (sv_db s1)" for s1
  proof -
    have "?Q s'" if "once (task_Attempts task = 0) s2 s'" "sv_db s2 = sv_db s1" "sv_submitted s2 = sv_submitted s1" for s2 s'
      using that s1 unfolding once_def submitted_once_def db_frame_def
      by (auto intro: tfr.evo_trans simp: task_frame_def)
    then show ?thesis
      unfolding register_def unregister_def
      by (intro db_wp_bind db_wp_upd db_wp_try db_wp_conseq [OF db_within_wpD [OF execute_claimed_once]]) (auto intro!: upd db_wp_upd)
  qed
  have body: "db_wp (case r of Inl x \<Rightarrow> db_ret () | Inr None \<Rightarrow> db_ret () | Inr (Some _) \<Rightarrow>
        db_bind (register (task_ID task)) (\<lambda>_.
        db_bind (db_try (execute_claimed marshal (import_work env) task)) (\<lambda>_. unregister (task_ID task))))
      (\<lambda>_. ?Q) (\<lambda>_. ?Q) s1"
    if "task_frame (sv_db s) (sv_db s1)" "sv_submitted s1 = sv_submitted s"
      "case r of Inr (Some _) \<Rightarrow> started (task_ID task) (sv_db s1) | _ \<Rightarrow> True" for r s1
    using that by (auto intro!: claimed same db_wp_ret split: sum.splits option.splits)
  have claiming: "db_wp (db_bind (db_try (at_now (BeginAsyncTask (task_ID task)))) (\<lambda>r.
        case r of Inl x \<Rightarrow> db_ret () | Inr None \<Rightarrow> db_ret () | Inr (Some _) \<Rightarrow>
          db_bind (register (task_ID task)) (\<lambda>_.
          db_bind (db_try (execute_claimed marshal (import_work env) task)) (\<lambda>_. unregister (task_ID task)))))
      (\<lambda>_. ?Q) (\<lambda>_. ?Q) (s\<lparr>sv_mediaMu := True\<rparr>)"
    by (rule db_wp_bind, rule db_wp_try, rule db_wp_conseq [OF claim]) (auto intro!: same claimed db_wp_ret split: option.splits)
  show ?thesis
    unfolding executeTask_def
    apply (rule db_wp_bind, rule db_wp_get, rule db_wp_if)
     apply (rule db_wp_ret, rule same; simp add: tfr.evo_refl)
    apply (rule holding_media_wp, rule db_wp_conseq [where Q = "\<lambda>_. ?Q" and E = "\<lambda>_. ?Q"])
      apply (rule db_wp_bind, rule db_wp_get, rule db_wp_if)
       apply (rule db_wp_ret, rule same; simp add: tfr.evo_refl)
    by (rule claiming, auto intro: upd(1))
qed

text \<open>
  A history of task \<open>t\<close> with the number of shares it submitted. The worker executes \<open>t\<close> on a copy of its row
  that has the attempts of the row, with whatever collaborators it has then; in between, the task table
  changes only by the operations of the task store, and the rest of the state as it likes.
\<close>

inductive import_history :: "string \<Rightarrow> nat \<Rightarrow> 'o service \<Rightarrow> bool" for t where
  history_start: "unique_tasks (sv_db s) \<Longrightarrow> import_history t 0 s"
| history_change: "import_history t n s \<Longrightarrow> async_tasks (sv_db s') = async_tasks (sv_db s) \<Longrightarrow> import_history t n s'"
| history_task_op: "import_history t n s \<Longrightarrow>
    async_tasks (sv_db s') = async_tasks (task_op_state op fs (sv_db s)) \<Longrightarrow> import_history t n s'"
| history_run: "import_history t n s \<Longrightarrow> row \<in> set (async_tasks (sv_db s)) \<Longrightarrow> task_ID row = t \<Longrightarrow>
    task_ID task = t \<Longrightarrow> task_Attempts task = task_Attempts row \<Longrightarrow>
    s' = db_state (executeTask marshal (import_work env) task fs s) \<Longrightarrow>
    import_history t (n + (length (sv_submitted s') - length (sv_submitted s))) s'"

lemma frame_by_tasks: "task_frame d d' \<Longrightarrow> async_tasks d'' = async_tasks d' \<Longrightarrow> task_frame d d''"
  by (simp add: task_frame_def unique_tasks_def started_def)

lemma started_unique:
  "unique_tasks d \<Longrightarrow> started (task_ID row) d \<Longrightarrow> row \<in> set (async_tasks d) \<Longrightarrow> task_Attempts row > 0"
  unfolding unique_tasks_def started_def by (auto simp: distinct_map dest: inj_onD)

lemma history_inv:
  "import_history t n s \<Longrightarrow> n \<le> 1 \<and> unique_tasks (sv_db s) \<and> (n > 0 \<longrightarrow> started t (sv_db s))"
proof (induction rule: import_history.induct)
  case (history_change n s s')
  then show ?case using frame_by_tasks [OF tfr.evo_refl] by (fastforce simp: task_frame_def)
next
  case (history_task_op n s s' op fs)
  then show ?case using frame_by_tasks [OF task_ops_frame] by (fastforce simp: task_frame_def)
next
  case (history_run n s row task s' marshal env fs)
  have "submitted_once task s s'"
    unfolding history_run.hyps by (rule db_wp_state [OF execute_import_once])
  moreover have "n = 0 \<or> task_Attempts task > 0"
    using history_run started_unique [of "sv_db s" row] by (cases "n = 0") simp_all
  ultimately show ?case using history_run by (auto simp: submitted_once_def task_frame_def)
qed simp

text \<open>
  C2. Over any history of an import task (runs, restarts, other queue operations, any driver faults and any
  provider behaviour) its share is submitted to Quark at most once.
\<close>

theorem share_submitted_once: "import_history t n s \<Longrightarrow> n \<le> 1"
  using history_inv by blast

text \<open>A history that submits it: the provider refuses, and the run after the restart does not try again.\<close>

definition refusing_sdk :: "'o upload_sdk" where
  "refusing_sdk = \<lparr>sdk_Credential = (\<lambda>_. None), sdk_UploadInit = (\<lambda>_ _. db_fail ErrDriver),
     sdk_UploadGetToken = (\<lambda>_. db_fail ErrDriver), oss_New = (\<lambda>_ _. Some ErrDriver), oss_Bucket = (\<lambda>_. Some ErrDriver),
     oss_Initiate = (\<lambda>_ _ _. db_fail ErrDriver), oss_ListParts = (\<lambda>_ _. db_fail ErrDriver),
     oss_UploadPart = (\<lambda>_ _ _ _ _ _. db_fail ErrDriver), oss_Complete = (\<lambda>_ _ _ _ _. db_fail ErrDriver),
     oss_Abort = (\<lambda>_ _. db_fail ErrDriver)\<rparr>"

definition refusing_os :: "'o local_files" where
  "refusing_os = \<lparr>os_Stat = (\<lambda>_. db_fail ErrDriver), os_Lstat = (\<lambda>_. db_fail ErrDriver),
     os_ReadAll = (\<lambda>_. db_fail ErrDriver), os_Open = (\<lambda>_. db_fail ErrDriver), os_CreateExcl = (\<lambda>_. db_fail ErrDriver),
     os_Copy = (\<lambda>_ _. db_fail ErrDriver), os_Sync = (\<lambda>_. db_fail ErrDriver), os_Close = (\<lambda>_. db_fail ErrDriver),
     os_Rename = (\<lambda>_ _. db_fail ErrDriver), os_Remove = (\<lambda>_. db_fail ErrDriver), os_MkdirAll = (\<lambda>_. db_fail ErrDriver),
     os_Writable = (\<lambda>_. db_fail ErrDriver), os_Free = (\<lambda>_. db_fail ErrDriver)\<rparr>"

definition refusing_emby :: "'o emby" where
  "refusing_emby = \<lparr>em_ListLibraries = db_fail ErrDriver, em_GetItem = (\<lambda>_. db_fail ErrDriver),
     em_RunLibraryScan = db_fail ErrDriver, em_ListAiredMissing = (\<lambda>_ _. db_fail ErrDriver),
     em_SyncSTRM = (\<lambda>_. db_fail ErrDriver), em_EpisodeKeys = (\<lambda>_. []), em_CIDMap = (\<lambda>_. Inl ErrDriver)\<rparr>"

definition refusing_env :: "(string \<Rightarrow> DriveFile list) import_env" where
  "refusing_env = \<lparr>ie_drives = example_providers, ie_c115 = example_provider, ie_ssh = None, ie_sdk = refusing_sdk,
     ie_os = refusing_os, ie_mounts = db_fail ErrDriver, ie_fetch = (\<lambda>_ _ _ _. db_fail ErrDriver),
     ie_emby = refusing_emby, ie_sha1_id = (\<lambda>x. x)\<rparr>"

definition import_task :: AsyncTask where
  "import_task = (example_task ''t1'' ''quark_to_115_import'')\<lparr>task_Payload :=
     [(''quark_account_id'', VStr ''q''), (''quark_target_id'', VStr ''qt''), (''share_url'', VStr ''u''),
      (''share_password'', VStr ''''), (''c115_account_id'', VStr ''c''), (''import_all'', VBool True)]\<rparr>"

definition import_service :: "(string \<Rightarrow> DriveFile list) service" where
  "import_service = example_service\<lparr>sv_db := (sv_db example_service)\<lparr>async_tasks := [import_task],
     cross_drive_imports := [], cross_drive_items := []\<rparr>\<rparr>"

abbreviation import_run :: "(string \<Rightarrow> DriveFile list) service" where
  "import_run \<equiv> db_state (executeTask (\<lambda>_. Inr ''{}'') (import_work refusing_env) import_task [] import_service)"


text \<open>That first run, step by step up to the refused submission.\<close>

lemma runs_to: "fst (m [] s) = r \<Longrightarrow> fst (snd (m [] s)) = [] \<Longrightarrow> m [] s = (r, [], snd (snd (m [] s)))"
  by (cases "m [] s") simp

definition import_rq :: import_request where
  "import_rq = \<lparr>rq_quarkAccountID = ''q'', rq_quarkTargetID = ''qt'', rq_rawURL = ''u'', rq_password = '''',
     rq_c115AccountID = ''c'', rq_priorTaskID = '''', rq_parentTaskID = '''', rq_importAll = True,
     rq_selectedIDs = [], rq_selections = []\<rparr>"

definition import_state :: CrossDriveImport where
  "import_state = (case initial_state ''t1'' (task_Payload import_task) import_rq of Inr s \<Rightarrow> s | Inl _ \<Rightarrow> example_import ''t1'' '''')"

lemma import_reads:
  "read_request (task_Payload import_task) = Inr import_rq"
  "initial_state ''t1'' (task_Payload import_task) import_rq = Inr import_state"
  "bound_to_series import_state = False" "task_ID import_task = ''t1''"
  by code_simp+

definition import_picked :: "(string \<Rightarrow> DriveFile list) service" where
  "import_picked = db_state (at_now (BeginAsyncTask ''t1'') [] (import_service\<lparr>sv_mediaMu := True\<rparr>))"

definition import_begun :: "(string \<Rightarrow> DriveFile list) service" where
  "import_begun = db_state (on_db (AppendTaskLog ''t1'' ''started quark_to_115_import'') [] (db_state (register ''t1'' [] import_picked)))"

definition import_created :: "(string \<Rightarrow> DriveFile list) service" where
  "import_created = db_state (at_now (CreateCrossDriveImport import_state) [] import_begun)"

definition import_named :: "(string \<Rightarrow> DriveFile list) service" where
  "import_named = db_state (uuid_NewString [] import_created)"

definition import_claimed :: "(string \<Rightarrow> DriveFile list) service" where
  "import_claimed = db_state (at_now (ClaimCrossDriveImport ''t1'' ''u'') [] import_named)"

definition import_row :: CrossDriveImport where
  "import_row = (case db_result (on_db (GetCrossDriveImport ''t1'') [] import_claimed) of Inr i \<Rightarrow> i | Inl _ \<Rightarrow> import_state)"

definition import_read :: "(string \<Rightarrow> DriveFile list) service" where
  "import_read = db_state (on_db (GetCrossDriveImport ''t1'') [] import_claimed)"

definition import_refused :: "(string \<Rightarrow> DriveFile list) service" where
  "import_refused = db_state (save_share refusing_env import_task ''u'' import_rq import_row [] []
     import_read)"

lemma import_steps:
  "at_now (CreateCrossDriveImport import_state) [] import_begun = (Inr (), [], import_created)"
  "uuid_NewString [] import_created = (Inr ''u'', [], import_named)"
  "at_now (ClaimCrossDriveImport ''t1'' ''u'') [] import_named = (Inr (), [], import_claimed)"
  "on_db (GetCrossDriveImport ''t1'') [] import_claimed = (Inr import_row, [], import_read)"
  "save_share refusing_env import_task ''u'' import_rq import_row [] []
     import_read = (Inl ErrDriver, [], import_refused)"
  unfolding import_created_def import_named_def import_claimed_def import_read_def import_refused_def by ((rule runs_to; code_simp)+)

lemma import_row_new: "imp_CancelRequested import_row = False" "imp_SavedRootIDs import_row = []"
  "rq_priorTaskID import_rq = ''''" "ie_ssh refusing_env = None"
  by code_simp+

lemma refused_submitted: "sv_submitted import_refused = [''u'']"
  by code_simp

lemma db_ret_run: "db_ret x fs s = (Inr x, fs, s)"
  by (simp add: db_ret_def)

lemma import_submits: "sv_submitted (db_state (runQuarkTo115Import refusing_env import_task [] import_begun)) = [''u'']"
proof -
  have "run_claimed refusing_env import_task ''u'' import_rq '''' [] import_claimed = (Inl ErrDriver, [], import_refused)"
    unfolding run_claimed_def inherit_roots_def
    by (simp only: db_bind_Inr db_bind_Inl import_steps db_ret_run import_row_new import_reads if_False simp_thms)
  then have run: "db_try (run_claimed refusing_env import_task ''u'' import_rq '''') [] import_claimed = (Inr (Inl ErrDriver), [], import_refused)"
    by (simp add: db_try_def)
  have "sv_submitted (db_state (db_bind (db_try (at_now (ReleaseCrossDriveImport ''t1'' ''u'')))
      (\<lambda>_. lift_error (Inl ErrDriver) :: (_, payload) dbm) [] import_refused)) = [''u'']"
    by code_simp
  then show ?thesis
    unfolding runQuarkTo115Import_def validate_destination_def checkNASDestination_def
    by (simp only: db_bind_Inr import_steps import_row_new import_reads lift_error_def [of "Inr _"] sum.case if_False prod.case
      option.case db_ret_run releasing_def run)
qed


definition import_registered :: "(string \<Rightarrow> DriveFile list) service" where
  "import_registered = db_state (register ''t1'' [] import_picked)"

lemma picked_runs:
  "db_try (on_db (AppendTaskLog ''t1'' ''started quark_to_115_import'')) [] import_registered =
     (Inr (Inr ()), [], import_begun)"
  "register ''t1'' [] import_picked = (Inr (), [], import_registered)"
  "''started '' @ task_Type import_task = ''started quark_to_115_import''"
  "(task_Type import_task \<noteq> ''quark_to_115_import'') = False"
proof -
  have "on_db (AppendTaskLog ''t1'' ''started quark_to_115_import'') [] import_registered = (Inr (), [], import_begun)"
    unfolding import_begun_def import_registered_def [symmetric] by (rule runs_to; code_simp)
  then show "db_try (on_db (AppendTaskLog ''t1'' ''started quark_to_115_import'')) [] import_registered =
     (Inr (Inr ()), [], import_begun)" by (simp only: db_try_def prod.case)
qed (simp_all add: import_registered_def register_def db_upd_def import_task_def)

lemma picked_claim: obtains r where
  "db_try (at_now (BeginAsyncTask ''t1'')) [] (import_service\<lparr>sv_mediaMu := True\<rparr>) = (Inr (Inr (Some r)), [], import_picked)"
proof -
  let ?m = "at_now (BeginAsyncTask ''t1'')" and ?s = "import_service\<lparr>sv_mediaMu := True\<rparr>"
  have "case db_result (?m [] ?s) of Inr (Some _) \<Rightarrow> True | _ \<Rightarrow> False" "fst (snd (?m [] ?s)) = []"
    by code_simp+
  then obtain r where "?m [] ?s = (Inr (Some r), [], import_picked)"
    unfolding import_picked_def by (cases "?m [] ?s") (auto split: sum.splits option.splits)
  then show ?thesis using that by (simp only: db_try_def prod.case)
qed

lemma submitted_bind:
  "(\<And>x. db_within (frame t ow k) (f x)) \<Longrightarrow>
   sv_submitted (db_state (db_bind m f fs s)) = sv_submitted (db_state (m fs s))"
  by (auto simp: db_bind_def db_within_def frame_def split: prod.splits sum.splits)

lemma submitted_try: "sv_submitted (db_state (db_try m fs s)) = sv_submitted (db_state (m fs s))"
  by (auto simp: db_try_def split: prod.splits)

lemma upd_frame: "(\<And>s. sv_submitted (f s) = sv_submitted s \<and> sv_uuids (f s) = sv_uuids s \<and> sv_db (f s) = sv_db s) \<Longrightarrow> db_within (frame t ow k) (db_upd f)"
  by (simp add: db_within_def db_upd_def frame_def fr.evo_refl)

lemma import_claimed_submits:
  "sv_submitted (db_state (execute_claimed (\<lambda>_. Inr ''{}'') (import_work refusing_env) import_task []
     import_registered)) = [''u'']"
proof -
  have "sv_submitted (db_state (db_bind (import_work refusing_env import_task)
      (\<lambda>result. settle import_task (encode_result (\<lambda>_. Inr ''{}'') result)) [] import_begun)) = [''u'']"
    unfolding import_work_def
    by (subst submitted_bind [OF settle_frame], subst submitted_bind [of "''''" "''''" None], (intro within_rules),
        simp add: submitted_try import_submits)
  then show ?thesis
    unfolding execute_claimed_def
    by (simp only: db_bind_Inr picked_runs import_reads db_ret_run sum.case if_False)
qed

lemma get_run: "db_get f fs s = (Inr (f s), fs, s)" and upd_run: "db_upd g fs s = (Inr (), fs, g s)"
  by (simp_all add: db_get_def db_upd_def)

lemma import_run_submitted: "sv_submitted import_run = [''u'']"
proof -
  let ?claimed = "\<lambda>r. db_bind (register ''t1'') (\<lambda>_. db_bind (db_try (execute_claimed (\<lambda>_. Inr ''{}'') (import_work refusing_env) import_task))
      (\<lambda>_. unregister ''t1''))"
  have tail: "db_within (frame '''' '''' None) (unregister ''t1'')"
    "db_within (frame '''' '''' None) (db_bind (db_upd (\<lambda>s. s\<lparr>sv_mediaMu := False\<rparr>))
      (\<lambda>_. case r of Inl e \<Rightarrow> db_fail e | Inr x \<Rightarrow> db_ret x))" for r
    unfolding unregister_def by (intro within_rules upd_frame; simp)+
  have "sv_submitted (db_state (db_bind (register ''t1'')
      (\<lambda>_. db_bind (db_try (execute_claimed (\<lambda>_. Inr ''{}'') (import_work refusing_env) import_task)) (\<lambda>_. unregister ''t1'')) [] import_picked)) = [''u'']"
    using import_claimed_submits by (simp only: db_bind_Inr picked_runs submitted_bind [OF tail(1)] submitted_try)
  moreover have "sv_mediaMu import_service = False" "sv_stopped (import_service\<lparr>sv_mediaMu := True\<rparr>) = False"
    by code_simp+
  moreover obtain r where "db_try (at_now (BeginAsyncTask ''t1'')) [] (import_service\<lparr>sv_mediaMu := True\<rparr>) = (Inr (Inr (Some r)), [], import_picked)"
    by (rule picked_claim)
  ultimately show ?thesis
    unfolding executeTask_def holding_media_def import_reads
    by (simp only: db_bind_Inr get_run upd_run if_False submitted_bind [OF tail(2)] submitted_try sum.case option.case)
qed

theorem share_submitted_once_witness: "import_history ''t1'' 1 import_run \<and> (1 :: nat) \<le> 1"
proof -
  have "sv_submitted import_service = []" by code_simp
  then have len: "0 + (length (sv_submitted import_run) - length (sv_submitted import_service)) = 1"
    by (simp add: import_run_submitted)
  have start: "import_history ''t1'' 0 import_service"
    by (rule history_start) code_simp
  have "import_history ''t1'' (0 + (length (sv_submitted import_run) - length (sv_submitted import_service))) import_run"
    by (rule history_run [OF start, of import_task]) (simp_all add: import_reads import_service_def)
  then have "import_history ''t1'' 1 import_run" by (simp only: len)
  with share_submitted_once show ?thesis by blast
qed

end
