(* ===== verification/ImportVerified.thy ===== *)
theory ImportVerified
  imports ImportOnce
begin

text \<open>
  What a successful import has done: every file of the task is at its destination, found there by the
  provider's own listing with the recorded identity. The transfers of one item are followed through the
  three ways they take, the recorded hash through the operations of the store, and the items through the
  loop and the end of the run by the frames of theory ImportFrames.
\<close>

section \<open>What a transfer has uploaded\<close>

text \<open>
  The provider only ever lists files of \<open>L\<close> in a directory, at any time. A transfer of a source has uploaded
  it when such a file is the source (up to the white space and the case \<open>UploadFile\<close> normalises), is in the
  directory asked for (an empty identifier is the root, \<open>0\<close>), and has the identifier of the result.
\<close>

definition listing :: "'o DriveProvider \<Rightarrow> (string \<Rightarrow> DriveFile \<Rightarrow> bool) \<Rightarrow> bool" where
  "listing drive L \<longleftrightarrow> (\<forall>account parent. lists_only drive account parent (L parent))"

definition same_content :: "DriveFile \<Rightarrow> string \<Rightarrow> int64 \<Rightarrow> string \<Rightarrow> bool" where
  "same_content f name sz sha \<longleftrightarrow> (file_Name f = name \<or> file_Name f = TrimSpace name) \<and> file_Size f = sz \<and>
     (EqualFold (file_Sha1 f) sha \<or> EqualFold (file_Sha1 f) (TrimSpace sha))"

definition stored_at :: "(string \<Rightarrow> DriveFile \<Rightarrow> bool) \<Rightarrow> string \<Rightarrow> string \<Rightarrow> string \<Rightarrow> int64 \<Rightarrow> string \<Rightarrow> bool" where
  "stored_at L parent fileID name sz sha \<longleftrightarrow>
     (\<exists>f. (L parent f \<or> parent = '''' \<and> L ''0'' f) \<and> file_FileID f = fileID \<and> same_content f name sz sha)"

lemma EqualFold_upper [simp]: "EqualFold s (upper t) \<longleftrightarrow> EqualFold s t"
proof -
  have "ascii_lower (ascii_upper c) = ascii_lower c" for c
    unfolding ascii_lower_def ascii_upper_def by auto
  then show ?thesis by (simp add: EqualFold_def upper_def comp_def)
qed

lemma exact_stored:
  assumes "L parent f" "exact f (item_source item path) parent"
  shows "stored_at L parent (file_FileID f) (item_Name item) (item_Size item) (item_SHA1 item)"
  using assms unfolding stored_at_def same_content_def by (auto simp: exact_def item_source_def)

lemma exact_trimmed_stored:
  assumes "L (if parent = '''' then ''0'' else parent) f"
    and "exact f (trimmed_source source) (if parent = '''' then ''0'' else parent)"
  shows "stored_at L parent (file_FileID f) (ups_Name source) (ups_Size source) (ups_SHA1 source)"
  using assms unfolding stored_at_def same_content_def by (auto simp: exact_def trimmed_source_def split: if_splits)

lemma db_wp_after:
  "(\<And>x s'. db_wp (k x) Q (\<lambda>_ _. True) s') \<Longrightarrow> db_wp (db_bind m k) Q (\<lambda>_ _. True) s"
  by (rule db_wp_bind, rule db_wp_conseq [OF db_wp_any]) auto

lemma found_exact:
  assumes "listing drive L"
  shows "db_wp (findDestinationFile drive account parent name) (\<lambda>r _. \<forall>f. r = Some f \<longrightarrow> L parent f \<and> file_Name f = name)
    (\<lambda>_ _. True) s"
  using assms unfolding findDestinationFile_def listing_def by (intro find_from_listed) simp

lemma wait_exact:
  assumes "listing drive L"
  shows "db_wp (waitForVerifiedDestination drive account parent source rapid n)
    (\<lambda>r _. \<exists>f. L parent f \<and> exact f source parent \<and> upr_FileID r = file_FileID f) (\<lambda>_ _. True) s"
  unfolding waitForVerifiedDestination_def
  by (rule db_wp_after, rule db_wp_conseq [OF wait_poll_exact [of drive account parent "L parent"]])
    (use assms in \<open>auto simp: listing_def\<close>)

text \<open>What follows a look-up: the object there is the source, or a conflict, or is waited for.\<close>

lemma existing_exact:
  assumes "listing drive L" "\<And>f. existing = Some f \<Longrightarrow> L parent f"
    and none: "\<And>s'. db_wp rest (\<lambda>r _. \<exists>f. L parent f \<and> exact f source parent \<and> upr_FileID r = file_FileID f) (\<lambda>_ _. True) s'"
  shows "db_wp (case existing of
        Some f \<Rightarrow>
          (case classifyDestination existing source parent of
             destinationVerified \<Rightarrow> db_ret \<lparr>upr_FileID = file_FileID f, upr_Rapid = b, upr_Transferred = n\<rparr>
           | destinationForeign \<Rightarrow> db_fail e
           | destinationUnsettled \<Rightarrow> waitForVerifiedDestination drive account parent source c m)
      | None \<Rightarrow> rest) (\<lambda>r _. \<exists>f. L parent f \<and> exact f source parent \<and> upr_FileID r = file_FileID f) (\<lambda>_ _. True) s"
proof (cases existing)
  case (Some f)
  show ?thesis
  proof (cases "classifyDestination existing source parent")
    case destinationVerified
    with classify_verified [OF destinationVerified] Some assms(2) show ?thesis
      by (auto intro!: db_wp_ret)
  next
    case destinationUnsettled
    with Some present_never_unsettled show ?thesis by auto
  qed (use Some in \<open>simp_all add: db_wp_fail\<close>)
qed (simp add: none)

lemma UploadFile_exact:
  assumes "listing drive L"
  shows "db_wp (UploadFile sdk os drive account parent source onSession onPart)
    (\<lambda>r _. stored_at L parent (upr_FileID r) (ups_Name source) (ups_Size source) (ups_SHA1 source)) (\<lambda>_ _. True) s"
proof -
  let ?p = "if parent = '''' then ''0'' else parent"
  let ?Q = "\<lambda>r _. \<exists>f. L ?p f \<and> exact f (trimmed_source source) ?p \<and> upr_FileID r = file_FileID f"
  have "db_wp (UploadFile sdk os drive account parent source onSession onPart) ?Q (\<lambda>_ _. True) s"
    unfolding UploadFile_def Let_def
    by (rule db_wp_if, rule db_wp_fail, rule TrueI, rule db_wp_after, rule db_wp_if, rule db_wp_fail, rule TrueI,
        rule db_wp_bind, rule db_wp_conseq [OF found_exact [OF assms]], rule existing_exact [OF assms])
      (auto intro!: db_wp_after db_wp_if wait_exact [OF assms])
  then show ?thesis
    by (rule db_wp_conseq) (auto dest: exact_trimmed_stored)
qed

lemma uploadViaCloudDriveDirectory_exact:
  assumes "listing drive L"
  shows "db_wp (uploadViaCloudDriveDirectory os drive item account parent path directory)
    (\<lambda>r _. stored_at L parent (upr_FileID r) (item_Name item) (item_Size item) (item_SHA1 item)) (\<lambda>_ _. True) s"
proof -
  let ?Q = "\<lambda>r _. \<exists>f. L parent f \<and> exact f (item_source item path) parent \<and> upr_FileID r = file_FileID f"
  have "db_wp (uploadViaCloudDriveDirectory os drive item account parent path directory) ?Q (\<lambda>_ _. True) s"
    unfolding uploadViaCloudDriveDirectory_def Let_def
    by (rule db_wp_if, rule db_wp_fail, rule TrueI,
        rule db_wp_bind, rule db_wp_conseq [OF found_exact [OF assms]], rule existing_exact [OF assms])
      (auto intro!: db_wp_after db_wp_if db_wp_fail wait_exact [OF assms] split: option.splits)
  then show ?thesis
    by (rule db_wp_conseq) (auto dest: exact_stored)
qed

lemma publish_via_nas_exact:
  assumes "listing (ie_c115 env) L"
  shows "db_wp (publish_via_nas env ssh t ow job item state qa account parent)
    (\<lambda>r _. stored_at L parent (upr_FileID r) (item_Name item) (item_Size item) (item_SHA1 item)) (\<lambda>_ _. True) s"
proof -
  let ?Q = "\<lambda>r _. \<exists>f. L parent f \<and> exact f (item_source item '''') parent \<and> upr_FileID r = file_FileID f"
  have committed: "db_wp (db_bind m (\<lambda>res. db_bind commit (\<lambda>_. db_ret res))) ?Q (\<lambda>_ _. True) s'"
    if "\<And>s'. db_wp m ?Q (\<lambda>_ _. True) s'" for m commit s'
    by (rule db_wp_bind, rule db_wp_conseq [OF that], rule db_wp_bind, rule db_wp_conseq [OF db_wp_any]) (auto intro: db_wp_ret)
  have "db_wp (publish_via_nas env ssh t ow job item state qa account parent) ?Q (\<lambda>_ _. True) s"
    unfolding publish_via_nas_def Let_def
  proof (rule db_wp_bind, rule db_wp_conseq [OF found_exact [OF assms]], goal_cases)
    case (1 existing s')
    show ?case
    proof (cases existing)
      case None
      then show ?thesis
        by (auto intro!: db_wp_after db_wp_if db_wp_fail committed wait_exact [OF assms])
    next
      case (Some f)
      with 1 show ?thesis
        by (cases "classifyDestination existing (item_source item '''') parent")
          (auto simp: present_never_unsettled dest!: classify_verified intro!: committed db_wp_ret db_wp_fail)
    qed
  qed simp
  then show ?thesis
    by (rule db_wp_conseq) (auto dest: exact_stored)
qed

section \<open>The recorded hash\<close>

text \<open>The run holds the import, and the row \<open>k\<close> is one of its items.\<close>

definition works_on :: "string \<Rightarrow> string \<Rightarrow> nat \<Rightarrow> db \<Rightarrow> bool" where
  "works_on t ow k d \<longleftrightarrow> ow \<noteq> '''' \<and> owns d t ow \<and> (\<forall>j \<in> set (cross_drive_items d). item_ID j = k \<longrightarrow> item_TaskID j = t)"

definition row_sha :: "nat \<Rightarrow> string \<Rightarrow> db \<Rightarrow> bool" where
  "row_sha k sha d \<longleftrightarrow> (\<forall>j \<in> set (cross_drive_items d). item_ID j = k \<longrightarrow> item_SHA1 j = sha)"

lemma item_only_row:
  assumes "item_only k d d'" "j \<in> set (cross_drive_items d')"
  obtains i where "i \<in> set (cross_drive_items d)" "item_kept i j" "item_ID i \<noteq> fst k \<longrightarrow> j = i"
    "snd k \<longrightarrow> item_SHA1 j = item_SHA1 i"
proof -
  from assms(2) obtain n where n: "n < length (cross_drive_items d')" "j = cross_drive_items d' ! n"
    by (auto simp: in_set_conv_nth)
  moreover have "length (cross_drive_items d) = length (cross_drive_items d')"
    using assms(1) by (auto simp: item_only_def dest: list_all2_lengthD)
  ultimately show ?thesis
    using assms(1) that [of "cross_drive_items d ! n"] by (simp add: item_only_def list_all2_conv_all_nth)
qed

lemma works_on_frame:
  assumes "frame t ow (Some q) s s'" "works_on t ow k (sv_db s)"
  shows "works_on t ow k (sv_db s')"
  using assms unfolding frame_def db_frame_def works_on_def keeps_owner_def
  by (auto elim!: item_only_row simp: item_kept_def)

lemma row_sha_frame:
  assumes "frame t ow (Some (q, True)) s s'" "row_sha k sha (sv_db s)"
  shows "row_sha k sha (sv_db s')"
  using assms unfolding frame_def db_frame_def row_sha_def
  by (auto elim!: item_only_row simp: item_kept_def)

lemma hashes_recorded:
  assumes "works_on t ow k d"
  shows "db_wp (UpdateCrossDriveItemHashes k t ow sha pre now) (\<lambda>_. row_sha k sha) (\<lambda>_ _. True) d"
proof -
  have own: "owns d t ow" using assms by (simp add: works_on_def)
  have "item_SHA1 j = sha" if "j \<in> set (sql_update (\<lambda>i. item_ID i = k \<and> item_TaskID i = t) f (cross_drive_items d))" "item_ID j = k"
      and f: "\<And>i. item_ID (f i) = item_ID i \<and> item_SHA1 (f i) = sha" for j f
  proof -
    from that(1) obtain i where i: "i \<in> set (cross_drive_items d)"
        "j = (if item_ID i = k \<and> item_TaskID i = t then f i else i)"
      by (auto simp: sql_update_def)
    moreover have "item_TaskID i = t" if "item_ID i = k"
      using assms i(1) that by (simp add: works_on_def)
    ultimately show ?thesis using that(2) f by (auto split: if_splits)
  qed
  note sha = this
  show ?thesis
    unfolding UpdateCrossDriveItemHashes_def update_owned_item_def row_sha_def
    by (rule db_wp_bind, rule db_wp_exec, rule TrueI, rule db_wp_ret, rule ballI, rule impI,
        rule sha [where f = "\<lambda>i. i\<lparr>item_SHA1 := sha, item_PreSHA1 := pre, item_State := ''downloaded'',
          item_DownloadedBytes := item_Size i, item_UpdatedAt := now\<rparr>"])
      (simp_all add: Let_def own)
qed

lemma db_wp_within:
  "db_within R m \<Longrightarrow> db_wp m Q (\<lambda>_ _. True) s \<Longrightarrow> db_wp m (\<lambda>r s'. R s s' \<and> Q r s') (\<lambda>_ _. True) s"
  by (drule db_within_wpD [of R m s], drule (1) db_wp_conj, erule db_wp_conseq) auto

text \<open>A failed upload never turns into a result.\<close>

lemma upload_failed_fails: "db_wp (upload_failed env t ow item account e) Q (\<lambda>_ _. True) s"
  unfolding upload_failed_def
  by (intro db_wp_after db_wp_if) (auto intro!: db_wp_after db_wp_fail split: sum.splits)

lemma upload_item_exact:
  assumes "listing (ie_c115 env) L"
  shows "db_wp (upload_item env t ow item account parent directory)
    (\<lambda>r _. stored_at L parent (upr_FileID r) (item_Name item) (item_Size item) (item_SHA1 item)) (\<lambda>_ _. True) s"
proof -
  let ?Q = "\<lambda>r _. stored_at L parent (upr_FileID r) (item_Name item) (item_Size item) (item_SHA1 item)"
  have "db_wp (if TrimSpace (acc_Token account) = ''''
         then uploadViaCloudDriveDirectory (ie_os env) (ie_c115 env) item account parent (item_SpoolPath item) directory
         else UploadFile (ie_sdk env) (ie_os env) (ie_c115 env) account parent (import_source item)
                (import_session t ow item) (import_part item)) ?Q (\<lambda>_ _. True) s'" for s'
    using UploadFile_exact [OF assms, of _ _ _ parent "import_source item"]
    by (intro db_wp_if uploadViaCloudDriveDirectory_exact [OF assms]) (simp add: import_source_def item_source_def)
  note upload = this
  show ?thesis
    unfolding upload_item_def
    by (rule db_wp_after, rule db_wp_bind, rule db_wp_try, rule db_wp_conseq [OF upload])
      (auto intro: db_wp_ret upload_failed_fails)
qed

section \<open>One item\<close>

lemma works_bind:
  assumes "db_within (frame t ow (Some q)) m" "works_on t ow k (sv_db s)"
    and "\<And>x s'. works_on t ow k (sv_db s') \<Longrightarrow> db_wp (f x) Q (\<lambda>_ _. True) s'"
  shows "db_wp (db_bind m f) Q (\<lambda>_ _. True) s"
  by (rule db_wp_bind, rule db_wp_conseq [OF db_within_wpD [OF assms(1)]])
    (use assms(2,3) works_on_frame in blast)+

text \<open>A step that keeps the hashes comes between the recorded hash and the end.\<close>

lemma recorded_bind:
  assumes "db_within (frame t ow (Some (q, True))) m" "row_sha k sha (sv_db s)"
    and "\<And>x s'. row_sha k sha (sv_db s') \<Longrightarrow> db_wp (f x) Q (\<lambda>_ _. True) s'"
  shows "db_wp (db_bind m f) Q (\<lambda>_ _. True) s"
  by (rule db_wp_bind, rule db_wp_conseq [OF db_within_wpD [OF assms(1)]])
    (use assms(2,3) row_sha_frame in blast)+

lemma hashes_at_now:
  assumes "works_on t ow k (sv_db s)"
  shows "db_wp (at_now (UpdateCrossDriveItemHashes k t ow sha pre)) (\<lambda>_ s'. row_sha k sha (sv_db s')) (\<lambda>_ _. True) s"
  unfolding at_now_def
  by (rule db_wp_bind, rule db_wp_time_Now, rule db_wp_on_db, rule db_wp_conseq [OF hashes_recorded]) (use assms in simp_all)

lemma fetch_spool_frame:
  "db_within (frame t ow (Some (item_ID item, False))) (fetch_spool env t ow a item spool n m)"
  unfolding fetch_spool_def by (intro within_rules frame_rules fetch_events_frame fetch_call_frame)

lemma spool_path_frame: "db_within (frame t ow k) (spool_path directory a item)"
  unfolding spool_path_def by (intro within_rules frame_rules)

lemma download_recorded:
  assumes "works_on t ow (item_ID item) (sv_db s)"
  shows "db_wp (downloadQuarkItem env t ow a item n m) (\<lambda>r s'. row_sha (item_ID item) (fst (snd r)) (sv_db s')) (\<lambda>_ _. True) s"
  unfolding downloadQuarkItem_def
  apply (rule works_bind [of t ow "(item_ID item, False)"], (intro within_rules frame_rules; fail), rule assms, rule db_wp_case_prod)
  apply (rule works_bind [of t ow "(item_ID item, False)"], (intro within_rules frame_rules; fail), assumption)+
  apply (rule works_bind [OF spool_path_frame], assumption)
  apply (rule works_bind [of t ow "(item_ID item, False)"], rule within_rules, rule fetch_spool_frame, assumption)
  apply (rule db_wp_bind, rule db_wp_conseq [OF hashes_at_now], assumption)
  by (auto intro: db_wp_ret)

definition transferred :: "(string \<Rightarrow> DriveFile \<Rightarrow> bool) \<Rightarrow> CrossDriveItem \<Rightarrow> string \<Rightarrow> CrossDriveItem \<times> UploadResult \<Rightarrow> 'o service \<Rightarrow> bool" where
  "transferred L item parent r s \<longleftrightarrow> (\<exists>sha. row_sha (item_ID item) sha (sv_db s) \<and>
     stored_at L parent (upr_FileID (snd r)) (item_Name item) (item_Size item) sha)"

lemma mark_failed_wp: "db_wp m Q (\<lambda>_ _. True) s \<Longrightarrow> db_wp (mark_failed t ow item m) Q (\<lambda>_ _. True) s"
  unfolding mark_failed_def
  by (rule db_wp_bind, rule db_wp_try, erule db_wp_conseq) (auto intro!: db_wp_ret db_wp_after db_wp_fail)

lemma transfer_directly_exact:
  assumes L: "listing (ie_c115 env) L" and w: "works_on t ow (item_ID item) (sv_db s)"
  shows "db_wp (transfer_directly env t ow rq item account dest parent directory n m) (transferred L item parent) (\<lambda>_ _. True) s"
proof -
  let ?up = "upload_item env t ow"
  have upload: "db_wp (db_bind (at_now (UpdateCrossDriveImport t ow ph dest path msg)) (\<lambda>_.
     db_bind (?up item' account parent directory) (\<lambda>upload. db_ret (item', upload)))) (transferred L item parent) (\<lambda>_ _. True) s'"
    if "row_sha (item_ID item) (item_SHA1 item') (sv_db s')" "item_ID item' = item_ID item" "item_Name item' = item_Name item"
      "item_Size item' = item_Size item" for s' item' ph path msg
  proof (rule recorded_bind [of t ow "item_ID item"], (intro within_rules frame_rules; fail), rule that(1))
    fix s1 :: "'a service" assume row: "row_sha (item_ID item) (item_SHA1 item') (sv_db s1)"
    show "db_wp (db_bind (?up item' account parent directory) (\<lambda>upload. db_ret (item', upload))) (transferred L item parent) (\<lambda>_ _. True) s1"
      by (rule db_wp_bind, rule db_wp_conseq [OF db_wp_within [OF upload_item_frame [of item' "item_ID item" t ow True] upload_item_exact [OF L]]])
        (use that row in \<open>auto simp: transferred_def intro!: db_wp_ret exI [of _ "item_SHA1 item'"] intro: row_sha_frame\<close>)
  qed
  show ?thesis
    unfolding transfer_directly_def Let_def
    by (rule db_wp_bind, rule mark_failed_wp, rule db_wp_conseq [OF download_recorded [OF w]])
      (auto intro!: upload db_wp_case_prod)
qed

lemma nas_transfer_exact:
  assumes L: "listing (ie_c115 env) L" and w: "works_on t ow (item_ID item) (sv_db s)"
  shows "db_wp (transferQuarkItemViaNAS env ssh t ow item state qa account parent n m) (transferred L item parent) (\<lambda>_ _. True) s"
proof -
  have publish: "db_wp (db_bind (publish_via_nas env ssh t ow job item' state qa account parent) (\<lambda>res. db_ret (item', res)))
      (transferred L item parent) (\<lambda>_ _. True) s1"
    if "row_sha (item_ID item) (item_SHA1 item') (sv_db s1)" "item_ID item' = item_ID item" "item_Name item' = item_Name item"
      "item_Size item' = item_Size item" for s1 item' job
    by (rule db_wp_bind, rule db_wp_conseq [OF db_wp_within [OF publish_via_nas_frame [of t ow item' True] publish_via_nas_exact [OF L]]])
      (use that in \<open>auto simp: transferred_def intro!: db_wp_ret exI [of _ "item_SHA1 item'"] intro: row_sha_frame\<close>)
  show ?thesis
    unfolding transferQuarkItemViaNAS_def Let_def nas_progress_def
    apply (rule works_bind [of t ow "(item_ID item, False)"], (intro within_rules frame_rules; fail), rule w)
    apply (rule works_bind [of t ow "(item_ID item, False)"], (intro within_rules frame_rules; fail), assumption)
    apply (rule works_bind [of t ow "(item_ID item, False)"], (intro within_rules frame_rules; fail), assumption)
    by (rule db_wp_bind, simp, rule db_wp_conseq [OF hashes_at_now], assumption, rule publish) simp_all
qed

lemma transfer_item_exact:
  assumes L: "listing (ie_c115 env) L" and w: "works_on t ow (item_ID item) (sv_db s)"
  shows "db_wp (transfer_item env t ow rq state item account dest parent directory n m) (transferred L item parent) (\<lambda>_ _. True) s"
  unfolding transfer_item_def
  by (intro db_wp_case_option transfer_directly_exact [OF L w] works_bind [OF account_for_frame w] mark_failed_wp nas_transfer_exact [OF L])

text \<open>What the store says of an item that is done, and of the files of the provider.\<close>

definition imported :: "(string \<Rightarrow> DriveFile \<Rightarrow> bool) \<Rightarrow> CrossDriveItem \<Rightarrow> bool" where
  "imported L i \<longleftrightarrow> item_State i = ''verified'' \<and>
     stored_at L (item_DestinationParent i) (item_DestinationID i) (item_Name i) (item_Size i) (item_SHA1 i)"

lemma reconcile_exact:
  assumes "listing (ie_c115 env) L" "item_State item = ''verified''"
  shows "db_wp (reconcileVerifiedItem env a item) (\<lambda>_ _. imported L item) (\<lambda>_ _. True) s"
  unfolding reconcileVerifiedItem_def
  by (rule db_wp_after, rule db_wp_bind, rule db_wp_conseq [OF found_exact [OF assms(1)]], rule db_wp_require)
    (use assms(2) in \<open>auto simp: imported_def stored_at_def same_content_def split: option.splits\<close>)

text \<open>The item is marked with the hash the row has.\<close>

definition row_imported :: "(string \<Rightarrow> DriveFile \<Rightarrow> bool) \<Rightarrow> nat \<Rightarrow> db \<Rightarrow> bool" where
  "row_imported L k d \<longleftrightarrow> (\<forall>j \<in> set (cross_drive_items d). item_ID j = k \<longrightarrow> imported L j)"

definition row_is :: "CrossDriveItem \<Rightarrow> db \<Rightarrow> bool" where
  "row_is item d \<longleftrightarrow> (\<forall>j \<in> set (cross_drive_items d). item_ID j = item_ID item \<longrightarrow>
     item_Name j = item_Name item \<and> item_Size j = item_Size item)"

lemma row_is_frame: "frame t ow (Some q) s s' \<Longrightarrow> row_is item (sv_db s) \<Longrightarrow> row_is item (sv_db s')"
  unfolding frame_def db_frame_def row_is_def by (auto elim!: item_only_row simp: item_kept_def)

lemma marked_imported:
  assumes w: "works_on t ow (item_ID item) d" and "row_is item d" "row_sha (item_ID item) sha d"
    and "stored_at L parent fileID (item_Name item) (item_Size item) sha"
  shows "db_wp (MarkCrossDriveItemVerified (item_ID item) t ow parent fileID now) (\<lambda>_. row_imported L (item_ID item)) (\<lambda>_ _. True) d"
proof -
  have own: "owns d t ow" using w by (simp add: works_on_def)
  let ?f = "\<lambda>i. i\<lparr>item_State := ''verified'', item_DestinationParent := parent, item_DestinationID := fileID,
      item_Error := '''', item_UpdatedAt := now\<rparr>"
  have "imported L j" if j: "j \<in> set (sql_update (\<lambda>i. item_ID i = item_ID item \<and> item_TaskID i = t) ?f (cross_drive_items d))"
      "item_ID j = item_ID item" for j
  proof -
    from j(1) obtain i where i: "i \<in> set (cross_drive_items d)"
        "j = (if item_ID i = item_ID item \<and> item_TaskID i = t then ?f i else i)"
      by (auto simp: sql_update_def)
    moreover have "item_ID i = item_ID item" using i(2) j(2) by (auto split: if_splits)
    moreover from this have "item_TaskID i = t" using w i(1) by (simp add: works_on_def)
    ultimately show ?thesis
      using assms(2-) by (simp add: imported_def row_is_def row_sha_def)
  qed
  note marked = this
  show ?thesis
    unfolding MarkCrossDriveItemVerified_def update_owned_item_def Let_def row_imported_def
    apply (rule db_wp_tx, rule TrueI, rule db_wp_bind, rule db_wp_exec, rule TrueI, rule db_wp_if, rule db_wp_fail, rule TrueI)
    apply (rule db_wp_bind, rule db_wp_exec, rule TrueI, rule db_wp_ret)
    using marked by (simp add: own)
qed

section \<open>The loop\<close>

text \<open>The row of a listed item is still as listed, and the run may work on it.\<close>

definition row_listed :: "string \<Rightarrow> string \<Rightarrow> CrossDriveItem \<Rightarrow> db \<Rightarrow> bool" where
  "row_listed t ow item d \<longleftrightarrow> works_on t ow (item_ID item) d \<and>
     (\<forall>j \<in> set (cross_drive_items d). item_ID j = item_ID item \<longrightarrow> j = item)"

lemma row_listed_frame:
  "frame t ow (Some (q, h)) s s' \<Longrightarrow> q \<noteq> item_ID item \<Longrightarrow> row_listed t ow item (sv_db s) \<Longrightarrow> row_listed t ow item (sv_db s')"
  using works_on_frame [of t ow "(q, h)" s s' "item_ID item"]
  unfolding row_listed_def frame_def db_frame_def by (auto elim!: item_only_row simp: item_kept_def)

lemma row_listed_imported: "row_listed t ow item d \<Longrightarrow> imported L item \<Longrightarrow> row_imported L (item_ID item) d"
  by (auto simp: row_listed_def row_imported_def)

lemma row_listedD: "row_listed t ow item d \<Longrightarrow> works_on t ow (item_ID item) d" "row_listed t ow item d \<Longrightarrow> row_is item d"
  by (auto simp: row_listed_def row_is_def)

lemma row_listed_frame_imported:
  "frame t ow (Some (Suc (item_ID item), h)) s s' \<Longrightarrow> row_listed t ow item (sv_db s) \<Longrightarrow> imported L item \<Longrightarrow>
   row_imported L (item_ID item) (sv_db s')"
  by (rule row_listed_imported, erule row_listed_frame) simp_all

lemma listed_step:
  assumes "db_within (frame t ow (Some (Suc (item_ID item), True))) m" "row_listed t ow item (sv_db s)"
    and "\<And>x s'. row_listed t ow item (sv_db s') \<Longrightarrow> db_wp (f x) Q (\<lambda>_ _. True) s'"
  shows "db_wp (db_bind m f) Q (\<lambda>_ _. True) s"
  by (rule db_wp_bind, rule db_wp_conseq [OF db_within_wpD [OF assms(1)]])
    (use assms(2-) row_listed_frame in force)+

lemma row_imported_frame:
  "frame t ow (Some (q, h)) s s' \<Longrightarrow> q \<noteq> k \<Longrightarrow> row_imported L k (sv_db s) \<Longrightarrow> row_imported L k (sv_db s')"
  unfolding row_imported_def frame_def db_frame_def by (auto elim!: item_only_row simp: item_kept_def)

lemma works_step:
  assumes "db_within (frame t ow (Some q)) m" "works_on t ow (item_ID item) (sv_db s)" "row_is item (sv_db s)"
    and "\<And>x s'. works_on t ow (item_ID item) (sv_db s') \<Longrightarrow> row_is item (sv_db s') \<Longrightarrow> db_wp (f x) Q (\<lambda>_ _. True) s'"
  shows "db_wp (db_bind m f) Q (\<lambda>_ _. True) s"
  by (rule db_wp_bind, rule db_wp_conseq [OF db_within_wpD [OF assms(1)]])
    (use assms(2-) works_on_frame row_is_frame in blast)+

lemma imported_step:
  assumes "db_within (frame t ow (Some (Suc k, True))) m" "row_imported L k (sv_db s)"
    and "\<And>x s'. row_imported L k (sv_db s') \<Longrightarrow> db_wp (f x) Q (\<lambda>_ _. True) s'"
  shows "db_wp (db_bind m f) Q (\<lambda>_ _. True) s"
  by (rule db_wp_bind, rule db_wp_conseq [OF db_within_wpD [OF assms(1)]])
    (use assms(2-) row_imported_frame in force)+

lemma transferred_step:
  assumes "db_within (frame t ow (Some (item_ID item, True))) m" "works_on t ow (item_ID item) (sv_db s)" "row_is item (sv_db s)"
    "transferred L item parent r s"
    and "\<And>x s'. works_on t ow (item_ID item) (sv_db s') \<Longrightarrow> row_is item (sv_db s') \<Longrightarrow> transferred L item parent r s' \<Longrightarrow>
      db_wp (f x) Q (\<lambda>_ _. True) s'"
  shows "db_wp (db_bind m f) Q (\<lambda>_ _. True) s"
proof (rule db_wp_bind, rule db_wp_conseq [OF db_within_wpD [OF assms(1)]])
  fix x and d' :: "'a service" assume f: "frame t ow (Some (item_ID item, True)) s d'"
  then have "transferred L item parent r d'"
    using assms(4) row_sha_frame [OF f] unfolding transferred_def by blast
  then show "db_wp (f x) Q (\<lambda>_ _. True) d'"
    using assms(2,3,5) works_on_frame [OF f] row_is_frame [OF f] by blast
qed simp

lemma transfer_step:
  assumes L: "listing (ie_c115 env) L" and w: "works_on t ow (item_ID item) (sv_db s)" "row_is item (sv_db s)"
    and f: "\<And>r s'. works_on t ow (item_ID item) (sv_db s') \<Longrightarrow> row_is item (sv_db s') \<Longrightarrow> transferred L item parent r s' \<Longrightarrow>
      db_wp (f r) Q (\<lambda>_ _. True) s'"
  shows "db_wp (db_bind (transfer_item env t ow rq state item account dest parent directory n m) f) Q (\<lambda>_ _. True) s"
proof (rule db_wp_bind, rule db_wp_conseq [OF db_wp_within [OF transfer_item_frame transfer_item_exact [OF L w(1)]]])
  fix r and s' :: "'a service" assume "frame t ow (Some (item_ID item, False)) s s' \<and> transferred L item parent r s'"
  then show "db_wp (f r) Q (\<lambda>_ _. True) s'"
    using w works_on_frame row_is_frame by (intro f) blast+
qed

lemma marked_at_now:
  assumes "works_on t ow (item_ID item) (sv_db s)" "row_is item (sv_db s)" "transferred L item parent r s"
  shows "db_wp (at_now (MarkCrossDriveItemVerified (item_ID item) t ow parent (upr_FileID (snd r))))
    (\<lambda>_ s'. row_imported L (item_ID item) (sv_db s')) (\<lambda>_ _. True) s"
proof -
  from assms(3) obtain sha where sha: "row_sha (item_ID item) sha (sv_db s)"
      "stored_at L parent (upr_FileID (snd r)) (item_Name item) (item_Size item) sha"
    by (auto simp: transferred_def)
  show ?thesis
    unfolding at_now_def
    by (rule db_wp_bind, rule db_wp_time_Now, rule db_wp_on_db, rule db_wp_conseq [OF marked_imported [where sha = sha and L = L]])
      (use assms sha in simp_all)
qed

lemma remove_spool_frame: "db_within (frame t ow k) (remove_spool env spool)"
  unfolding remove_spool_def by (intro within_rules frame_rules)

lemma import_item_exact:
  assumes L: "listing (ie_c115 env) L" and row: "row_listed t ow item (sv_db s)"
  shows "db_wp (import_item env t ow rq bound dest directory n c i m item)
    (\<lambda>_ s'. row_imported L (item_ID item) (sv_db s')) (\<lambda>_ _. True) s"
proof -
  have w: "works_on t ow (item_ID item) (sv_db s)" "row_is item (sv_db s)"
    using row by (auto dest: row_listedD)
  have done': "db_wp (db_wrap f (reconcileVerifiedItem env a item)) (\<lambda>_ s'. row_imported L (item_ID item) (sv_db s')) (\<lambda>_ _. True) s'"
    if "row_listed t ow item (sv_db s')" "item_State item = ''verified''" for f a s'
    by (rule db_wp_wrap, rule db_wp_conseq [OF db_wp_within [OF reconcileVerifiedItem_frame [of t ow "Some (Suc (item_ID item), True)"] reconcile_exact [OF L that(2)]]])
      (use that in \<open>auto intro: row_listed_frame_imported\<close>)
  let ?mark = "\<lambda>item' upload parent. db_bind (at_now (MarkCrossDriveItemVerified (item_ID item) t ow parent (upr_FileID upload))) (\<lambda>_.
       db_bind (remove_spool env (if ie_ssh env = None then item_SpoolPath item' else [])) (\<lambda>_.
       db_bind (at_now (UpdateAsyncTaskProgress t (item_progress n (m + item_Size item) i c))) (\<lambda>_.
       db_ret (m + item_Size item))))"
  have mark: "db_wp (?mark item' upload parent) (\<lambda>_ s'. row_imported L (item_ID item) (sv_db s')) (\<lambda>_ _. True) s'"
    if "works_on t ow (item_ID item) (sv_db s')" "row_is item (sv_db s')" "transferred L item parent (item', upload) s'"
    for item' upload parent s'
    apply (rule db_wp_bind, rule db_wp_conseq [OF marked_at_now [OF that, simplified snd_conv]])
     apply (rule imported_step [OF remove_spool_frame], assumption)
     apply (rule imported_step [of t ow "item_ID item"], (intro frame_rules; fail), assumption)
     by (auto intro: db_wp_ret)
  show ?thesis
    unfolding import_item_def
    apply (rule listed_step [OF ctx_Err_frame row], rule db_wp_case_option)
     apply (rule listed_step [of t ow item], (intro frame_rules; fail), assumption, rule db_wp_if, rule db_wp_fail, rule TrueI)
     apply (rule db_wp_if, rule db_wp_bind, rule db_wp_conseq [OF done'], assumption, assumption, rule db_wp_ret, assumption, rule TrueI)
     apply (rule works_step [of t ow "(item_ID item, True)" _ item], (intro frame_rules; fail),
         erule row_listedD, erule row_listedD)
     apply (rule works_step [OF account_for_frame [of t ow "Some (item_ID item, True)"], where item = item], assumption, assumption)
     apply (rule works_step [OF item_destination_frame [of t ow "Some (item_ID item, True)"], where item = item], assumption, assumption, rule db_wp_case_prod)
     apply (rule transfer_step [OF L], assumption, assumption, rule db_wp_case_prod)
     apply (rule transferred_step [of t ow item], (intro frame_rules; fail), assumption, assumption, simp)
     by (rule mark, assumption, assumption, simp, rule db_wp_fail, rule TrueI)
qed

lemma import_item_rows:
  "item_only k d d' \<Longrightarrow> map (\<lambda>j. (item_ID j, item_TaskID j)) (cross_drive_items d') = map (\<lambda>j. (item_ID j, item_TaskID j)) (cross_drive_items d)"
  unfolding item_only_def by (induction rule: list_all2_induct) (auto simp: item_kept_def)

text \<open>
  After the loop every listed item is imported; the rows of other items stay imported if they were, and no
  row is added.
\<close>

definition all_imported :: "(string \<Rightarrow> DriveFile \<Rightarrow> bool) \<Rightarrow> CrossDriveItem list \<Rightarrow> db \<Rightarrow> db \<Rightarrow> bool" where
  "all_imported L items d d' \<longleftrightarrow> (\<forall>item \<in> set items. row_imported L (item_ID item) d') \<and>
     (\<forall>k. k \<notin> item_ID ` set items \<longrightarrow> row_imported L k d \<longrightarrow> row_imported L k d') \<and>
     map (\<lambda>j. (item_ID j, item_TaskID j)) (cross_drive_items d') = map (\<lambda>j. (item_ID j, item_TaskID j)) (cross_drive_items d)"

lemma import_items_exact:
  assumes L: "listing (ie_c115 env) L"
  shows "distinct (map item_ID items) \<Longrightarrow> \<forall>item \<in> set items. row_listed t ow item (sv_db s) \<Longrightarrow>
    db_wp (import_items (import_item env t ow rq bound dest directory n c) i m items)
      (\<lambda>_ s'. all_imported L items (sv_db s) (sv_db s')) (\<lambda>_ _. True) s"
proof (induction items arbitrary: i m s)
  case Nil
  then show ?case by (auto simp: all_imported_def intro!: db_wp_ret)
next
  case (Cons item items)
  have item: "db_wp (import_item env t ow rq bound dest directory n c i m item)
      (\<lambda>_ s'. frame t ow (Some (item_ID item, False)) s s' \<and> row_imported L (item_ID item) (sv_db s')) (\<lambda>_ _. True) s"
    using Cons.prems by (intro db_wp_within [OF import_item_frame] import_item_exact [OF L]) simp
  show ?case
    unfolding import_items.simps
  proof (rule db_wp_bind, rule db_wp_conseq [OF item])
    fix m' and s1 :: "'a service"
    assume s1: "frame t ow (Some (item_ID item, False)) s s1 \<and> row_imported L (item_ID item) (sv_db s1)"
    have rest: "\<forall>i \<in> set items. row_listed t ow i (sv_db s1)"
    proof
      fix j assume j: "j \<in> set items"
      then have "item_ID item \<noteq> item_ID j" "row_listed t ow j (sv_db s)" using Cons.prems by auto
      with s1 show "row_listed t ow j (sv_db s1)" using row_listed_frame by blast
    qed
    show "db_wp (import_items (import_item env t ow rq bound dest directory n c) (Suc i) m' items)
        (\<lambda>_ s'. all_imported L (item # items) (sv_db s) (sv_db s')) (\<lambda>_ _. True) s1"
    proof (rule db_wp_conseq [OF Cons.IH [OF _ rest]])
      fix s' :: "'a service" assume s': "all_imported L items (sv_db s1) (sv_db s')"
      have kept: "row_imported L k (sv_db s1)" if "k \<noteq> item_ID item" "row_imported L k (sv_db s)" for k
        using s1 that row_imported_frame [of t ow "item_ID item" False s s1 k] by simp
      have "item_only (item_ID item, False) (sv_db s) (sv_db s1)"
        using s1 by (simp add: frame_def db_frame_def)
      from import_item_rows [OF this] s'
      have rows: "map (\<lambda>j. (item_ID j, item_TaskID j)) (cross_drive_items (sv_db s')) = map (\<lambda>j. (item_ID j, item_TaskID j)) (cross_drive_items (sv_db s))"
        by (simp add: all_imported_def)
      have others: "row_imported L k (sv_db s')" if "k \<notin> item_ID ` set items" "row_imported L k (sv_db s1)" for k
        using s' that by (simp add: all_imported_def)
      have these: "\<forall>item \<in> set items. row_imported L (item_ID item) (sv_db s')"
        using s' by (simp add: all_imported_def)
      have "item_ID item \<notin> item_ID ` set items" using Cons.prems(1) by simp
      with others s1 have "row_imported L (item_ID item) (sv_db s')" by blast
      with these rows others kept show "all_imported L (item # items) (sv_db s) (sv_db s')"
        by (simp add: all_imported_def)
    qed (use Cons.prems in simp_all)
  qed simp
qed

section \<open>The run\<close>

definition task_imported :: "(string \<Rightarrow> DriveFile \<Rightarrow> bool) \<Rightarrow> string \<Rightarrow> db \<Rightarrow> bool" where
  "task_imported L t d \<longleftrightarrow> (\<forall>j \<in> set (cross_drive_items d). item_TaskID j = t \<longrightarrow> imported L j)"

definition holds_run :: "string \<Rightarrow> string \<Rightarrow> db \<Rightarrow> bool" where
  "holds_run t ow d \<longleftrightarrow> ow \<noteq> '''' \<and> owns d t ow \<and> xd_tables_inv d"

text \<open>A step that touches no item: its frame holds for any item it might touch.\<close>

lemma untouched:
  assumes "\<And>q. frame t ow (Some (q, True)) s s'"
  shows "cross_drive_items (sv_db s') = cross_drive_items (sv_db s)"
proof -
  have "finite (item_ID ` set (cross_drive_items (sv_db s)))" by simp
  from ex_new_if_finite [OF infinite_UNIV_nat this] obtain q where "q \<notin> item_ID ` set (cross_drive_items (sv_db s))" by blast
  with assms [of q] have "list_all2 (=) (cross_drive_items (sv_db s)) (cross_drive_items (sv_db s'))"
    unfolding frame_def db_frame_def item_only_def by (auto elim!: list.rel_mono_strong)
  then show ?thesis by (simp add: list_all2_eq [symmetric])
qed

lemma db_within_all: "(\<And>q. db_within (R q) m) \<Longrightarrow> db_within (\<lambda>s s'. \<forall>q. R q s s') m"
  by (simp add: db_within_def)

lemma untouched_step:
  assumes m: "\<And>q. db_within (frame t ow (Some (q, True))) m" and "task_imported L u (sv_db s)"
    and "\<And>x s'. task_imported L u (sv_db s') \<Longrightarrow> db_wp (f x) Q (\<lambda>_ _. True) s'"
  shows "db_wp (db_bind m f) Q (\<lambda>_ _. True) s"
proof (rule db_wp_bind, rule db_wp_conseq [OF db_within_wpD [OF db_within_all [where R = "\<lambda>q. frame t ow (Some (q, True))", OF m]]])
  fix x and s' :: "'a service" assume "\<forall>q. frame t ow (Some (q, True)) s s'"
  then have "cross_drive_items (sv_db s') = cross_drive_items (sv_db s)" using untouched by blast
  then show "db_wp (f x) Q (\<lambda>_ _. True) s'" using assms(2,3) by (simp add: task_imported_def)
qed simp

lemma listed_rows:
  assumes "holds_run t ow d" and "items = sort_key item_RelativePath (filter (\<lambda>i. item_TaskID i = t) (cross_drive_items d))"
  shows "distinct (map item_ID items)" "\<forall>item \<in> set items. row_listed t ow item d"
proof -
  have ids: "distinct (map item_ID (cross_drive_items d))"
    using assms(1) by (simp add: holds_run_def xd_tables_inv_def)
  then show "distinct (map item_ID items)"
    unfolding assms(2) by (simp add: distinct_map inj_on_def)
  from ids assms show "\<forall>item \<in> set items. row_listed t ow item d"
    by (auto simp: row_listed_def works_on_def holds_run_def distinct_map dest: inj_onD)
qed

lemma loop_imports:
  assumes "holds_run t ow d" "items = sort_key item_RelativePath (filter (\<lambda>i. item_TaskID i = t) (cross_drive_items d))"
    and all: "all_imported L items d d'"
  shows "task_imported L t d'"
  unfolding task_imported_def
proof (intro ballI impI)
  fix j assume j: "j \<in> set (cross_drive_items d')" "item_TaskID j = t"
  then have "(item_ID j, t) \<in> (\<lambda>j. (item_ID j, item_TaskID j)) ` set (cross_drive_items d')" by force
  also have "\<dots> = (\<lambda>j. (item_ID j, item_TaskID j)) ` set (cross_drive_items d)"
    using all by (simp only: all_imported_def flip: list.set_map)
  finally obtain i where "i \<in> set items" "item_ID i = item_ID j" unfolding assms(2) by auto
  with all j(1) show "imported L j" by (auto simp: all_imported_def row_imported_def)
qed

lemma list_items_wp:
  "db_wp (ListCrossDriveItems t) (\<lambda>r d'. d' = d \<and> r = sort_key item_RelativePath (filter (\<lambda>i. item_TaskID i = t) (cross_drive_items d)))
     (\<lambda>_ _. True) d"
  unfolding ListCrossDriveItems_def by (rule db_wp_query) auto

lemma get_import_wp: "db_wp (GetCrossDriveImport t) (\<lambda>_ d'. d' = d) (\<lambda>_ _. True) d"
  unfolding GetCrossDriveImport_def by (rule db_wp_query) auto

lemma holds_run_frame: "db_frame t ow None d d' \<Longrightarrow> holds_run t ow d \<Longrightarrow> holds_run t ow d'"
  by (auto simp: holds_run_def db_frame_def keeps_owner_def)

lemma run_step:
  assumes "db_within (frame t ow None) m" "holds_run t ow (sv_db s)"
    and "\<And>x s'. holds_run t ow (sv_db s') \<Longrightarrow> db_wp (f x) Q (\<lambda>_ _. True) s'"
  shows "db_wp (db_bind m f) Q (\<lambda>_ _. True) s"
  by (rule db_wp_bind, rule db_wp_conseq [OF db_within_wpD [OF assms(1)]])
    (use assms(2,3) holds_run_frame in \<open>auto simp: frame_def\<close>)

lemma transfer_items_exact:
  assumes L: "listing (ie_c115 env) L" and run: "holds_run t ow (sv_db s)"
  shows "db_wp (transfer_items env t ow rq bound dest directory) (\<lambda>_ s'. task_imported L t (sv_db s')) (\<lambda>_ _. True) s"
  unfolding transfer_items_def
proof (rule run_step [OF _ run])
  show "db_within (frame t ow None) (at_now (UpdateCrossDriveImport t ow ''downloading'' dest '''' ''''))"
    by (intro frame_rules)
  fix s1 :: "'a service" assume run: "holds_run t ow (sv_db s1)"
  have loop: "db_wp (db_bind (import_items (import_item env t ow rq bound dest directory n c) 0 m items) (\<lambda>_.
       db_bind (at_now (UpdateCrossDriveImport t ow ''verified'' dest '''' '''')) (\<lambda>_. db_ret (state, items))))
      (\<lambda>_ s'. task_imported L t (sv_db s')) (\<lambda>_ _. True) s2"
    if "sv_db s2 = sv_db s1" "items = sort_key item_RelativePath (filter (\<lambda>i. item_TaskID i = t) (cross_drive_items (sv_db s1)))"
    for s2 items state n c m
    using listed_rows [OF run that(2)] loop_imports [OF run that(2), of L] that(1)
    by (intro db_wp_bind db_wp_conseq [OF import_items_exact [OF L, of items t ow s2]] untouched_step [of t ow] frame_rules db_wp_ret) auto
  show "db_wp (db_bind (on_db (ListCrossDriveItems t)) (\<lambda>items.
     db_bind (on_db (GetCrossDriveImport t)) (\<lambda>state.
     db_bind (import_items (import_item env t ow rq bound dest directory (imp_TotalBytes state) (length items)) 0 (imp_CompletedBytes state) items) (\<lambda>_.
     db_bind (at_now (UpdateCrossDriveImport t ow ''verified'' dest '''' '''')) (\<lambda>_. db_ret (state, items))))))
      (\<lambda>_ s'. task_imported L t (sv_db s')) (\<lambda>_ _. True) s1"
    by (rule db_wp_bind, rule db_wp_on_db, rule db_wp_conseq [OF list_items_wp],
        rule db_wp_bind, rule db_wp_on_db, rule db_wp_conseq [OF get_import_wp], rule loop) simp_all
qed

lemma finish_import_frame: "db_within (frame t ow k) (finish_import env t rq dest state items)"
  unfolding finish_import_def by (intro within_rules frame_rules)

lemma untouched_end:
  assumes "\<And>q. db_within (frame t ow (Some (q, True))) m" "task_imported L u (sv_db s)"
  shows "db_wp m (\<lambda>_ s'. task_imported L u (sv_db s')) (\<lambda>_ _. True) s"
proof -
  have "db_wp (db_bind m db_ret) (\<lambda>_ s'. task_imported L u (sv_db s')) (\<lambda>_ _. True) s"
    by (rule untouched_step [OF assms]) (rule db_wp_ret)
  moreover have "db_bind m db_ret = m"
    by (rule ext)+ (simp add: db_bind_def db_ret_def split: prod.split sum.split)
  ultimately show ?thesis by simp
qed

text \<open>The submission of the share is in no frame, but the store does not notice it.\<close>

definition store_frame :: "string \<Rightarrow> string \<Rightarrow> 'o service \<Rightarrow> 'o service \<Rightarrow> bool" where
  "store_frame t ow s s' \<longleftrightarrow> db_frame t ow None (sv_db s) (sv_db s')"

interpretation sto: evolution "store_frame t ow" for t ow
  by unfold_locales (auto simp: store_frame_def fr.evo_refl intro: fr.evo_trans)

lemma frame_store: "db_within (frame t ow None) m \<Longrightarrow> db_within (store_frame t ow) m"
  by (erule db_within_mono) (simp add: frame_def store_frame_def)

lemma save_share_store: "db_within (store_frame (task_ID task) ow) (save_share env task ow rq state roots)"
proof -
  have submit: "db_within (store_frame t ow) (submit_share env rq state)" for t
    unfolding submit_share_def SaveProviderShareSelections_def SaveProviderShare_def submitting_def
    by (intro within_rules frame_store [OF via_frame] frame_store [OF fail_if_frame]) (simp_all add: store_frame_def fr.evo_refl)
  show ?thesis
    unfolding save_share_def
    by (intro within_rules submit; rule frame_store, intro within_rules frame_rules)
qed

lemma run_claimed_exact:
  assumes L: "listing (ie_c115 env) L" and run: "holds_run (task_ID task) ow (sv_db s)"
  shows "db_wp (run_claimed env task ow rq directory) (\<lambda>_ s'. task_imported L (task_ID task) (sv_db s')) (\<lambda>_ _. True) s"
proof -
  let ?t = "task_ID task" and ?Q = "\<lambda>_ s'. task_imported L (task_ID task) (sv_db s')"
  have tail: "db_wp (db_bind (discover_items env ?t ow rq roots) (\<lambda>_.
       db_bind (resolve_destination env rq state) (\<lambda>destinationCID.
       db_bind (transfer_items env ?t ow rq (bound_to_series state) destinationCID directory) (\<lambda>(state', items).
       finish_import env ?t rq destinationCID state' items)))) ?Q (\<lambda>_ _. True) s1"
    if "holds_run ?t ow (sv_db s1)" for roots state s1
    apply (rule run_step [of ?t ow], (intro frame_rules; fail), rule that)
    apply (rule run_step [of ?t ow], (intro frame_rules; fail), assumption)
    apply (rule db_wp_bind, rule db_wp_conseq [OF transfer_items_exact [OF L]], assumption)
    by (rule db_wp_case_prod, rule untouched_end [OF finish_import_frame]) simp_all
  show ?thesis
    unfolding run_claimed_def
    apply (rule run_step [of ?t ow], (intro frame_rules; fail), rule run, rule db_wp_if, rule db_wp_fail, rule TrueI)
    apply (rule run_step [of ?t ow], (intro frame_rules; fail), assumption)
    apply (rule db_wp_bind, rule db_wp_conseq [OF db_within_wpD [OF save_share_store]])
    by (auto intro: tail holds_run_frame simp: store_frame_def)
qed

lemma release_untouched: "db_within (frame t '''' (Some (q, True))) (db_try (at_now (ReleaseCrossDriveImport a ow)))"
proof -
  have "db_within (item_only (q, True)) (ReleaseCrossDriveImport a ow now)" for now
    unfolding ReleaseCrossDriveImport_def by (intro within_rules imports_item_only)
  then show ?thesis
    using xd_frame_any [of "XRelease a ow now" for now]
    by (intro within_rules at_now_frame db_frame_item) simp_all
qed

lemma releasing_exact:
  assumes "db_wp m (\<lambda>_ s'. task_imported L u (sv_db s')) (\<lambda>_ _. True) s"
  shows "db_wp (releasing t ow m) (\<lambda>_ s'. task_imported L u (sv_db s')) (\<lambda>_ _. True) s"
  unfolding releasing_def
proof (rule db_wp_bind, rule db_wp_try, rule db_wp_conseq [OF assms])
  show "db_wp (db_bind (db_try (at_now (ReleaseCrossDriveImport t ow))) (\<lambda>_. lift_error (Inr x)))
      (\<lambda>_ s'. task_imported L u (sv_db s')) (\<lambda>_ _. True) s'" if "task_imported L u (sv_db s')" for x s'
    by (rule untouched_step [OF release_untouched that]) (simp add: lift_error_def db_wp_ret)
qed (simp add: lift_error_def db_wp_after db_wp_fail)

lemma claim_holds:
  assumes "xd_tables_inv d" "ow \<noteq> ''''"
  shows "db_wp (ClaimCrossDriveImport t ow now) (\<lambda>_. holds_run t ow) (\<lambda>_ _. True) d"
proof -
  have "db_within (db_frame t '''' None) (ClaimCrossDriveImport t ow now)"
    using xd_frame_any [of "XClaim t ow now"] by simp
  moreover have "db_wp (ClaimCrossDriveImport t ow now) (\<lambda>_ d'. owns d' t ow) (\<lambda>_ _. True) d"
    unfolding ClaimCrossDriveImport_def update_imports_def
  proof (rule db_wp_bind, rule db_wp_exec, rule TrueI, rule db_wp_if, rule db_wp_fail, rule TrueI, rule db_wp_ret, goal_cases)
    case 1
    then have "sql_count (\<lambda>i. imp_TaskID i = t \<and> (imp_RunOwner i = None \<or> imp_RunOwner i = Some '''')) (cross_drive_imports d) \<noteq> 0"
      by simp
    then obtain i where i: "i \<in> set (cross_drive_imports d)" "imp_TaskID i = t" "imp_RunOwner i = None \<or> imp_RunOwner i = Some ''''"
      by (auto simp: sql_count_0)
    let ?p = "\<lambda>i. imp_TaskID i = t \<and> (imp_RunOwner i = None \<or> imp_RunOwner i = Some '''')"
      and ?f = "\<lambda>i. i\<lparr>imp_RunOwner := Some ow, imp_UpdatedAt := now\<rparr>"
    have "?f i \<in> set (sql_update ?p ?f (cross_drive_imports d))"
      unfolding sql_update_def set_map by (rule image_eqI [of _ _ i]) (use i in simp_all)
    then show ?case
      unfolding owns_def by (intro bexI [of _ "?f i"]) (use i in simp_all)
  qed
  ultimately have "db_wp (ClaimCrossDriveImport t ow now) (\<lambda>_ d'. db_frame t '''' None d d' \<and> owns d' t ow) (\<lambda>_ _. True) d"
    by (rule db_wp_within)
  then show ?thesis
    by (rule db_wp_conseq) (use assms in \<open>auto simp: holds_run_def db_frame_def\<close>)
qed

lemma start_step:
  assumes "db_within (frame t '''' None) m" "xd_tables_inv (sv_db s)" "sv_uuids s = uuids"
    and "\<And>x s'. xd_tables_inv (sv_db s') \<Longrightarrow> sv_uuids s' = uuids \<Longrightarrow> db_wp (f x) Q (\<lambda>_ _. True) s'"
  shows "db_wp (db_bind m f) Q (\<lambda>_ _. True) s"
  by (rule db_wp_bind, rule db_wp_conseq [OF db_within_wpD [OF assms(1)]])
    (use assms(2-) in \<open>auto simp: frame_def db_frame_def\<close>)

text \<open>
  C3. An import that succeeds has every file of the task at its destination: each item is marked verified,
  and the provider listed a file in the recorded directory that has the recorded identifier, the name, the
  size and the SHA-1 of the item (up to the white space the upload trims). That holds for the upload by the
  NAS worker, through the mount and by the SDK alike, for items an earlier run had verified too, with any
  driver faults and whatever the providers answer and fail in between.
\<close>

theorem imported_files_verified:
  assumes "listing (ie_c115 env) L" and "xd_tables_inv (sv_db s)" and "sv_uuids s 0 \<noteq> ''''"
    and "runQuarkTo115Import env task fs s = (Inr res, fs', s')"
  shows "\<forall>i \<in> set (cross_drive_items (sv_db s')). item_TaskID i = task_ID task \<longrightarrow> imported L i"
proof -
  let ?t = "task_ID task"
  have check: "db_within (frame ?t '''' None) (validate_destination env rq state)"
    "db_within (frame ?t '''' None) (checkNASDestination env a state)" for rq state a
    unfolding validate_destination_def check_autofill_parent_def bound_directory_def checkNASDestination_def Let_def
    by (intro within_rules frame_rules; fail)+
  have claim: "db_wp (db_bind (at_now (ClaimCrossDriveImport ?t ow)) (\<lambda>_. releasing ?t ow (run_claimed env task ow rq directory)))
      (\<lambda>_ s'. task_imported L ?t (sv_db s')) (\<lambda>_ _. True) s1"
    if "xd_tables_inv (sv_db s1)" "ow \<noteq> ''''" for rq directory ow s1
    unfolding at_now_def
    by (rule db_wp_bind, rule db_wp_bind, rule db_wp_time_Now, rule db_wp_on_db, rule db_wp_conseq [OF claim_holds [OF _ that(2)]])
      (use that in \<open>auto intro!: releasing_exact run_claimed_exact [OF assms(1)]\<close>)
  have "db_wp (runQuarkTo115Import env task) (\<lambda>_ s'. task_imported L ?t (sv_db s')) (\<lambda>_ _. True) s"
    unfolding runQuarkTo115Import_def
    apply (rule start_step [OF lift_error_frame assms(2)], rule refl)
    apply (rule start_step [OF lift_error_frame], assumption, assumption)
    apply (rule start_step [OF check(1)], assumption, assumption, rule db_wp_case_prod)
    apply (rule start_step [OF check(2)], assumption, assumption)
    apply (rule start_step [of ?t], (intro frame_rules; fail), assumption, assumption)
    apply (rule db_wp_bind, rule db_wp_uuid, rule claim)
    using assms(3) by simp_all
  from db_wpD(1) [OF this assms(4)] show ?thesis by (simp add: task_imported_def)
qed


lemma stagingName_bytes [code]:
  "stagingName = [CHR ''_'', CHR 0xE5, CHR 0xBE, CHR 0x85, CHR 0xE6, CHR 0x95, CHR 0xB4, CHR 0xE7, CHR 0x90, CHR 0x86]"
  by (simp add: stagingName_def utf8_def utf8_char_def char_of_def bit_0)


section \<open>An import that succeeds\<close>

text \<open>A resumed import whose only file an earlier run has verified, in directories that stay as they are.\<close>

definition resumed_files :: "string \<Rightarrow> DriveFile list" where
  "resumed_files parent =
     (if parent = ''0'' then [example_file ''e'' ''0'' ''emby'' 0 True]
      else if parent = ''e'' then [example_file ''d'' ''e'' stagingName 0 True]
      else if parent = ''d'' then [(example_file ''d1'' ''d'' ''e1.mkv'' 9 False)\<lparr>file_Sha1 := ''AB''\<rparr>]
      else if parent = ''qt'' then [example_file ''r1'' ''qt'' ''Show'' 0 True]
      else if parent = ''r1'' then [example_file ''f1'' ''r1'' ''e1.mkv'' 9 False] else [])"

definition resumed_provider :: "(string \<Rightarrow> DriveFile list) DriveProvider" where
  "resumed_provider = example_provider\<lparr>pr_ListFiles := (\<lambda>a parent offset limit.
     db_ret (take (nat limit) (drop (nat offset) (resumed_files parent)), int (length (resumed_files parent))))\<rparr>"

definition resumed_env :: "(string \<Rightarrow> DriveFile list) import_env" where
  "resumed_env = refusing_env\<lparr>ie_drives := (\<lambda>_. Some resumed_provider), ie_c115 := resumed_provider\<rparr>"

definition resumed :: "(string \<Rightarrow> DriveFile list) service" where
  "resumed = import_service\<lparr>sv_db := (sv_db import_service)\<lparr>
     async_tasks := [import_task\<lparr>task_Status := ''running'', task_Attempts := 1\<rparr>],
     drive_accounts := [example_account ''q'' ''quark'', example_account ''c'' ''115''],
     cross_drive_imports := [(new_import (created_state import_state 5))\<lparr>imp_SavedRootIDs := [''r1'']\<rparr>],
     cross_drive_items := [example_item\<lparr>item_State := ''verified'', item_DestinationParent := ''d'',
        item_DestinationID := ''d1'', item_SHA1 := ''AB''\<rparr>],
     cross_drive_items_seq := 1\<rparr>\<rparr>"

text \<open>The run, step by step: each state is where the step before leaves it.\<close>

abbreviation resumed_create where "resumed_create \<equiv> at_now (CreateCrossDriveImport import_state)"
abbreviation resumed_phase where "resumed_phase ph dest \<equiv> at_now (UpdateCrossDriveImport ''t1'' ''u'' ph dest '''' '''')"
abbreviation resumed_read where "resumed_read \<equiv> on_db (GetCrossDriveImport ''t1'')"
abbreviation resumed_list where "resumed_list \<equiv> listAllProviderFiles (ie_drives resumed_env) ''115'' ''c''"
abbreviation resumed_discover where "resumed_discover \<equiv> discoverQuarkImport (ie_drives resumed_env) ''t1'' ''u'' ''q'' ''qt'' [''r1''] [] True"

definition resumed_created where "resumed_created = db_state (resumed_create [] resumed)"
definition resumed_named where "resumed_named = db_state (uuid_NewString [] resumed_created)"
definition resumed_claimed where "resumed_claimed = db_state ((at_now (ClaimCrossDriveImport ''t1'' ''u'')) [] resumed_named)"
definition resumed_opened where "resumed_opened = db_state (resumed_read [] resumed_claimed)"
definition resumed_discovering where "resumed_discovering = db_state ((resumed_phase ''discovering'' '''') [] resumed_opened)"
definition resumed_discovered where "resumed_discovered = db_state (resumed_discover [] resumed_discovering)"
definition resumed_counted where "resumed_counted = db_state ((at_now (FinalizeCrossDriveDiscovery ''t1'' ''u'')) [] resumed_discovered)"
definition resumed_ready where "resumed_ready = db_state ((at_now (UpdateAsyncTaskProgress ''t1'' 20)) [] resumed_counted)"
definition resumed_rooted where "resumed_rooted = db_state ((resumed_list ''0'') [] resumed_ready)"
definition resumed_staged where "resumed_staged = db_state ((resumed_list ''e'') [] resumed_rooted)"
definition resumed_downloading where "resumed_downloading = db_state ((resumed_phase ''downloading'' ''d'') [] resumed_staged)"

definition resumed_item :: CrossDriveItem where
  "resumed_item = (case db_result (on_db (ListCrossDriveItems ''t1'') [] resumed_downloading) of Inr (i # _) \<Rightarrow> i | _ \<Rightarrow> example_item)"

definition resumed_reconciled where "resumed_reconciled = db_state (reconcileVerifiedItem resumed_env ''c'' resumed_item [] resumed_downloading)"
definition resumed_verified where "resumed_verified = db_state ((resumed_phase ''verified'' ''d'') [] resumed_reconciled)"
definition resumed_ended where "resumed_ended = db_state ((at_now (enqueueMediaIngest (ie_sha1_id resumed_env) ''t1'')) [] resumed_verified)"

definition resumed_state :: CrossDriveImport where
  "resumed_state = (case db_result (resumed_read [] resumed_claimed) of Inr i \<Rightarrow> i | Inl _ \<Rightarrow> import_state)"

definition resumed_totals :: CrossDriveImport where
  "resumed_totals = (case db_result (resumed_read [] resumed_downloading) of Inr i \<Rightarrow> i | Inl _ \<Rightarrow> import_state)"

definition resumed_ingest :: AsyncTask where
  "resumed_ingest = (case db_result (at_now (enqueueMediaIngest (ie_sha1_id resumed_env) ''t1'') [] resumed_verified) of Inr t \<Rightarrow> t | Inl _ \<Rightarrow> import_task)"

lemma resumed_steps1:
  "resumed_create [] resumed = (Inr (), [], resumed_created)"
  "uuid_NewString [] resumed_created = (Inr ''u'', [], resumed_named)"
  "(at_now (ClaimCrossDriveImport ''t1'' ''u'')) [] resumed_named = (Inr (), [], resumed_claimed)"
  "resumed_read [] resumed_claimed = (Inr resumed_state, [], resumed_opened)"
  "(resumed_phase ''discovering'' '''') [] resumed_opened = (Inr (), [], resumed_discovering)"
  "resumed_discover [] resumed_discovering = (Inr (), [], resumed_discovered)"
  unfolding resumed_created_def resumed_named_def resumed_claimed_def resumed_opened_def resumed_discovering_def resumed_discovered_def
  by ((rule runs_to; code_simp)+)

lemma resumed_steps2:
  "(at_now (FinalizeCrossDriveDiscovery ''t1'' ''u'')) [] resumed_discovered = (Inr (), [], resumed_counted)"
  "(at_now (UpdateAsyncTaskProgress ''t1'' 20)) [] resumed_counted = (Inr (), [], resumed_ready)"
  "(resumed_list ''0'') [] resumed_ready = (Inr (resumed_files ''0''), [], resumed_rooted)"
  unfolding resumed_counted_def resumed_ready_def resumed_rooted_def
  by ((rule runs_to; code_simp)+)

lemma resumed_steps3:
  "(resumed_list ''e'') [] resumed_rooted = (Inr (resumed_files ''e''), [], resumed_staged)"
  "(resumed_phase ''downloading'' ''d'') [] resumed_staged = (Inr (), [], resumed_downloading)"
  unfolding resumed_staged_def resumed_downloading_def
  by ((rule runs_to; code_simp)+)

lemma resumed_steps4:
  "reconcileVerifiedItem resumed_env ''c'' resumed_item [] resumed_downloading = (Inr (), [], resumed_reconciled)"
  unfolding resumed_reconciled_def
  by ((rule runs_to; code_simp)+)

lemma resumed_steps5:
  "(resumed_phase ''verified'' ''d'') [] resumed_reconciled = (Inr (), [], resumed_verified)"
  "(at_now (enqueueMediaIngest (ie_sha1_id resumed_env) ''t1'')) [] resumed_verified = (Inr resumed_ingest, [], resumed_ended)"
  unfolding resumed_verified_def resumed_ended_def
  by ((rule runs_to; code_simp)+)

lemmas resumed_steps = resumed_steps1 resumed_steps2 resumed_steps3 resumed_steps4 resumed_steps5

lemma on_db_query_state: "db_state (on_db (db_query f) fs s) = s"
  by (cases fs) (auto simp: on_db_def db_query_def db_stmt_def split: sum.split prod.split)

lemma resumed_reads:
  "on_db (ListCrossDriveItems ''t1'') [] resumed_downloading = (Inr [resumed_item], [], resumed_downloading)"
  "resumed_read [] resumed_downloading = (Inr resumed_totals, [], resumed_downloading)"
  "ctx_Err [] resumed_downloading = (Inr None, [], resumed_downloading)"
proof -
  have "on_db (ListCrossDriveItems ''t1'') [] resumed_downloading =
      (Inr [resumed_item], [], db_state (on_db (ListCrossDriveItems ''t1'') [] resumed_downloading))"
    by (rule runs_to; code_simp)
  then show "on_db (ListCrossDriveItems ''t1'') [] resumed_downloading = (Inr [resumed_item], [], resumed_downloading)"
    unfolding ListCrossDriveItems_def on_db_query_state .
  have "resumed_read [] resumed_downloading = (Inr resumed_totals, [], db_state (resumed_read [] resumed_downloading))"
    by (rule runs_to; code_simp)
  then show "resumed_read [] resumed_downloading = (Inr resumed_totals, [], resumed_downloading)"
    unfolding GetCrossDriveImport_def on_db_query_state .
qed (simp add: ctx_Err_def db_bind_def db_try_def db_query_def db_stmt_def db_ret_def)

lemma resumed_values:
  "imp_CancelRequested resumed_state = False" "imp_SavedRootIDs resumed_state = [''r1'']" "bound_to_series resumed_state = False"
  "imp_DestinationCID resumed_state = ''''" "bound_to_series resumed_totals = False" "imp_CancelRequested resumed_totals = False"
  "item_State resumed_item = ''verified''" "rq_c115AccountID import_rq = ''c''" "rq_importAll import_rq = True"
  "rq_quarkAccountID import_rq = ''q''" "rq_quarkTargetID import_rq = ''qt''" "rq_selections import_rq = []" "ie_ssh resumed_env = None"
  by code_simp+

lemma resumed_segments: "split_slash (JoinPath [''emby'', stagingName]) = [''emby'', stagingName]"
  "JoinPath [''emby'', stagingName] \<noteq> ''.''" "JoinPath [''emby'', stagingName] \<noteq> ''''"
  by code_simp+

lemma resumed_folders:
  "named ''emby'' (resumed_files ''0'') = Some (example_file ''e'' ''0'' ''emby'' 0 True)"
  "named stagingName (resumed_files ''e'') = Some (example_file ''d'' ''e'' stagingName 0 True)"
  "CHR 0x00 \<notin> set stagingName" "CHR ''/'' \<notin> set stagingName" "stagingName \<noteq> ''''" "stagingName \<noteq> ''.''" "stagingName \<noteq> ''..''"
  by (simp_all add: named_def resumed_files_def sql_find_def example_file_def stagingName_bytes)

lemma resumed_destination: "resolveImportDestination (ie_drives resumed_env) ''c'' [] resumed_ready = (Inr ''d'', [], resumed_staged)"
proof -
  have "resolveImportDestination (ie_drives resumed_env) ''c'' = resolve_segments (ie_drives resumed_env) ''c'' ''0'' [''emby'', stagingName]"
    unfolding resolveImportDestination_def resolveRelativeDestination_def by (simp only: resumed_segments if_False simp_thms)
  then show ?thesis
    by (simp add: resumed_folders db_bind_Inr resumed_steps db_ret_run example_file_def)
qed

lemma resumed_item_step:
  "import_item resumed_env ''t1'' ''u'' import_rq b dest directory n c i m resumed_item [] resumed_downloading = (Inr m, [], resumed_reconciled)"
proof -
  have "db_wrap f (reconcileVerifiedItem resumed_env ''c'' resumed_item) [] resumed_downloading = (Inr (), [], resumed_reconciled)" for f
    using resumed_steps by (simp add: db_wrap_def)
  then show ?thesis
    unfolding import_item_def resumed_values
    by (simp only: db_bind_Inr resumed_reads resumed_values option.case if_False if_True simp_thms db_ret_run)
qed

lemma resumed_transfer:
  "transfer_items resumed_env ''t1'' ''u'' import_rq False ''d'' '''' [] resumed_staged = (Inr (resumed_totals, [resumed_item]), [], resumed_verified)"
  unfolding transfer_items_def
  by (simp only: db_bind_Inr resumed_steps resumed_reads import_items.simps resumed_item_step db_ret_run)

lemma resumed_run: "\<exists>r fs' s'. runQuarkTo115Import resumed_env import_task [] resumed = (Inr r, fs', s')"
proof -
  have finish: "\<exists>r. finish_import resumed_env ''t1'' import_rq ''d'' resumed_totals [resumed_item] [] resumed_verified = (Inr r, [], resumed_ended)"
    using resumed_steps unfolding finish_import_def resumed_values by (simp add: db_bind_Inr db_wrap_def db_ret_run)
  have resolve: "resolve_destination resumed_env import_rq resumed_state [] resumed_ready = (Inr ''d'', [], resumed_staged)"
    unfolding resolve_destination_def resumed_values
    by (simp only: db_bind_Inr resumed_destination if_False simp_thms db_ret_run)
  have discover: "discover_items resumed_env ''t1'' ''u'' import_rq [''r1''] [] resumed_opened = (Inr (), [], resumed_ready)"
    unfolding discover_items_def resumed_values by (simp only: db_bind_Inr resumed_steps)
  have claimed: "\<exists>r. run_claimed resumed_env import_task ''u'' import_rq '''' [] resumed_claimed = (Inr r, [], resumed_ended)"
    unfolding run_claimed_def inherit_roots_def save_share_def import_reads resumed_values
    using finish by (simp add: db_bind_Inr resumed_steps resumed_values db_ret_run discover resolve resumed_transfer)
  then obtain r where "run_claimed resumed_env import_task ''u'' import_rq '''' [] resumed_claimed = (Inr r, [], resumed_ended)" by blast
  then have run: "db_try (run_claimed resumed_env import_task ''u'' import_rq '''') [] resumed_claimed = (Inr (Inr r), [], resumed_ended)"
    by (simp only: db_try_def prod.case)
  obtain x fs' s' where release: "db_try (at_now (ReleaseCrossDriveImport ''t1'' ''u'')) [] resumed_ended = (Inr x, fs', s')"
    by (cases "at_now (ReleaseCrossDriveImport ''t1'' ''u'') [] resumed_ended") (simp add: db_try_def)
  have "releasing ''t1'' ''u'' (run_claimed resumed_env import_task ''u'' import_rq '''') [] resumed_claimed = (Inr r, fs', s')"
    by (simp only: releasing_def db_bind_Inr run release lift_error_def sum.case db_ret_run)
  then show ?thesis
    unfolding runQuarkTo115Import_def validate_destination_def checkNASDestination_def
    by (simp only: import_reads resumed_values lift_error_def sum.case option.case prod.case if_False db_bind_Inr db_ret_run resumed_steps) blast
qed

theorem imported_files_verified_witness:
  "\<exists>r fs' s'. runQuarkTo115Import resumed_env import_task [] resumed = (Inr r, fs', s') \<and>
     (\<forall>i \<in> set (cross_drive_items (sv_db s')). item_TaskID i = ''t1'' \<longrightarrow>
        imported (\<lambda>parent f. f \<in> set (resumed_files parent)) i)"
proof -
  let ?L = "\<lambda>parent f. f \<in> set (resumed_files parent)"
  have L: "listing (ie_c115 resumed_env) ?L"
    unfolding listing_def lists_only_def resumed_env_def resumed_provider_def
    by (auto intro!: db_wp_ret dest!: in_set_takeD in_set_dropD)
  have inv: "xd_tables_inv (sv_db resumed)" and uuid: "sv_uuids resumed 0 \<noteq> ''''"
    by code_simp+
  from resumed_run obtain r fs' s' where run: "runQuarkTo115Import resumed_env import_task [] resumed = (Inr r, fs', s')" by blast
  from imported_files_verified [OF L inv uuid run] run show ?thesis by (auto simp: import_reads)
qed

end
