(* ===== verification/Drive115.thy ===== *)
theory Drive115
  imports DriveFacade ProviderListing
begin

text \<open>
  The 115 client of \<open>internal/service/drive.go\<close>: the account of a call, directory pages with the checks on
  every object (\<open>listFiles\<close>), deletion targets, and the operations that change the drive
  (\<open>makeDir\<close>, \<open>rename\<close>, \<open>move\<close>, \<open>DeleteCtx\<close>).

  The HTTP exchanges are arbitrary programs over the world outside that answer a status and the body (at
  most its first 8 MiB); what \<open>encoding/json\<close> makes of a body is a parameter of the client.
\<close>

section \<open>Answers\<close>

text \<open>
  A value of type \<open>any\<close>: \<open>null\<close> or absent, a string, the literal of a number, or something else with the text
  \<open>fmt.Sprint\<close> prints for it.
\<close>

datatype jscalar = JNull | JStr string | JNum string | JOther string

record filesItem =
  it_Fid :: jscalar
  it_Cid :: jscalar
  it_Pid :: jscalar
  it_Name :: string
  it_Size :: jscalar
  it_Pc :: string
  it_Sha1 :: string
  it_T :: string
  it_Te :: string

record filesAnswer =
  an_State :: bool
  an_Error :: string
  an_Count :: "int64 option"
  an_Data :: "filesItem list option"

record actionAnswer =
  ac_State :: bool
  ac_Cid :: jscalar
  ac_Error :: string

record reply =
  rep_Status :: int
  rep_Body :: string

text \<open>
  \<open>d_Files\<close> asks the endpoint of the given index for a page, \<open>d_Post\<close> posts a form to a path. The boolean of
  \<open>d_FilesJSON\<close> says that more than white space follows the decoded value.
\<close>

record 'o drive115 =
  d_Files :: "nat \<Rightarrow> DriveAccount \<Rightarrow> string \<Rightarrow> int \<Rightarrow> int \<Rightarrow> ('o, reply) dbm"
  d_Post :: "DriveAccount \<Rightarrow> string \<Rightarrow> (string \<times> string) list \<Rightarrow> ('o, reply) dbm"
  d_FilesJSON :: "string \<Rightarrow> error + filesAnswer \<times> bool"
  d_ActionJSON :: "string \<Rightarrow> error + actionAnswer"

definition successful_status :: "int \<Rightarrow> bool" where
  "successful_status status \<longleftrightarrow> 200 \<le> status \<and> status < 300"

fun scalar :: "jscalar \<Rightarrow> string" where
  "scalar (JStr s) = s"
| "scalar (JNum s) = s"
| "scalar _ = ''''"

fun Sprint :: "jscalar \<Rightarrow> string" where
  "Sprint JNull = ''<nil>''"
| "Sprint (JStr s) = s"
| "Sprint (JNum s) = s"
| "Sprint (JOther s) = s"

definition time_Unix :: "int64 \<Rightarrow> gotime" where
  "time_Unix t = (t + 62135596800) * 1000000000"

text \<open>\<open>strings.ContainsAny\<close>.\<close>

definition ContainsAny :: "string \<Rightarrow> string \<Rightarrow> bool" where
  "ContainsAny s chars \<longleftrightarrow> (\<exists>c \<in> set s. c \<in> set chars)"

definition decodeProviderJSON :: "'o drive115 \<Rightarrow> reply \<Rightarrow> string \<Rightarrow> error + actionAnswer" where
  "decodeProviderJSON net response operation =
     (if \<not> successful_status (rep_Status response)
      then Inl (Errorf ''%s returned HTTP %d'' [operation, show_int (rep_Status response)])
      else case d_ActionJSON net (rep_Body response) of
        Inl e \<Rightarrow> Inl (Wrapf ''decode %s response: %w'' [operation] e)
      | Inr a \<Rightarrow> Inr a)"

section \<open>Directory pages\<close>

definition getAccount :: "string \<Rightarrow> ('o service, DriveAccount) dbm" where
  "getAccount account_id =
     (if account_id = '''' then db_bind time_Now (\<lambda>now. at_now (GetDefaultAccount ''115'' now))
      else db_bind (on_db ListAccounts) (\<lambda>accs.
        case sql_find (\<lambda>a. acc_ID a = account_id) accs of
          None \<Rightarrow> db_fail (Errorf ''115 account %s was not found'' [account_id])
        | Some a \<Rightarrow> db_ret a))"

text \<open>The size of an object: absent is 0 for a folder.\<close>

definition item_size :: "bool \<Rightarrow> jscalar \<Rightarrow> int64 option" where
  "item_size isFolder size' =
     (if size' = JNull \<and> isFolder then Some 0
      else case Atoi (scalar size') of Some n \<Rightarrow> if n < 0 then None else Some n | None \<Rightarrow> None)"

definition item_time :: "filesItem \<Rightarrow> gotime" where
  "item_time item =
     (case Atoi (if it_Te item = '''' then it_T item else it_Te item) of
        Some t \<Rightarrow> time_Unix t | None \<Rightarrow> 0)"

definition invalid_name :: "string \<Rightarrow> bool" where
  "invalid_name name \<longleftrightarrow>
     name = '''' \<or> name = ''.'' \<or> name = ''..'' \<or> ContainsAny name [CHR ''/'', CHR 0x00]"

text \<open>One object of a page: a folder has no \<open>fid\<close>, its identifier is its \<open>cid\<close> and its parent its \<open>pid\<close>.\<close>

definition file_of :: "string \<Rightarrow> filesItem \<Rightarrow> error + DriveFile" where
  "file_of cid item =
     (let fid = scalar (it_Fid item);
          isFolder = (it_Fid item = JNull \<or> fid = ''0'' \<or> fid = '''');
          fileID = (if isFolder then scalar (it_Cid item) else fid);
          parentID = (if isFolder then scalar (it_Pid item) else scalar (it_Cid item)) in
      if isFolder \<and> it_Fid item \<noteq> JNull \<and> fid \<noteq> ''0'' \<and> it_Fid item \<noteq> JStr ''''
      then Inl (Errorf ''115 files response contains an invalid file ID'' [])
      else if fileID = '''' \<or> fileID = ''0'' \<or> parentID \<noteq> cid \<or> invalid_name (it_Name item)
      then Inl (Errorf ''115 files response contains an invalid or foreign-parent object'' [])
      else case item_size isFolder (it_Size item) of
        None \<Rightarrow> Inl (Errorf ''115 object %s has an invalid file size'' [fileID])
      | Some sz \<Rightarrow>
          Inr \<lparr>file_FileID = fileID, file_ParentID = parentID, file_Name = it_Name item, file_Size = sz,
               file_PickCode = it_Pc item, file_Sha1 = it_Sha1 item, file_Revision = '''',
               file_IsFolder = isFolder, file_UpdatedTime = item_time item\<rparr>)"

fun files_of :: "string \<Rightarrow> filesItem list \<Rightarrow> error + DriveFile list" where
  "files_of cid [] = Inr []"
| "files_of cid (i # is) =
     (case file_of cid i of Inl e \<Rightarrow> Inl e | Inr f \<Rightarrow> map_sum id ((#) f) (files_of cid is))"

definition decode_files :: "'o drive115 \<Rightarrow> string \<Rightarrow> reply \<Rightarrow> error + DriveFile list \<times> int64" where
  "decode_files net cid resp =
     (if \<not> successful_status (rep_Status resp)
      then Inl (Errorf ''115 files returned HTTP %d'' [show_int (rep_Status resp)])
      else case d_FilesJSON net (rep_Body resp) of
        Inl e \<Rightarrow> Inl (Wrapf ''parse 115 files: %w'' [] e)
      | Inr (raw, trailing) \<Rightarrow>
          if trailing then Inl (Errorf ''115 files response contains trailing JSON data'' [])
          else if \<not> an_State raw then Inl (Errorf ''115 files rejected: %s'' [an_Error raw])
          else (case (an_Count raw, an_Data raw) of
              (Some count, Some items) \<Rightarrow>
                if count < int (length items)
                then Inl (Errorf ''115 files response has an incomplete directory inventory'' [])
                else map_sum id (\<lambda>files. (files, count)) (files_of cid items)
            | _ \<Rightarrow> Inl (Errorf ''115 files response has an incomplete directory inventory'' [])))"

definition listFiles ::
  "'o drive115 \<Rightarrow> string \<Rightarrow> string \<Rightarrow> int \<Rightarrow> int \<Rightarrow> ('o service, DriveFile list \<times> int64) dbm" where
  "listFiles net account_id cid0 offset0 limit0 =
     db_bind (getAccount account_id) (\<lambda>account.
     let cid = (if cid0 = '''' then ''0'' else cid0);
         limit1 = (if limit0 \<le> 0 then 50 else limit0);
         offset = (if offset0 < 0 then 0 else offset0);
         limit = (if limit1 > 1000 then 1000 else limit1);
         ask = (\<lambda>index. db_wrap (Wrapf ''115 files request: %w'' [])
                  (on_out (d_Files net index account cid offset limit))) in
     db_bind (ask 0) (\<lambda>first.
     db_bind (if rep_Status first = 405 then ask 1 else db_ret first) (\<lambda>resp.
     case decode_files net cid resp of
       Inl e \<Rightarrow> db_fail e
     | Inr (files, count) \<Rightarrow>
         db_bind (note_call (Page cid offset files count)) (\<lambda>_. db_ret (files, count)))))"

definition ListFilesPageCtx ::
  "'o drive115 \<Rightarrow> string \<Rightarrow> string \<Rightarrow> int \<Rightarrow> int \<Rightarrow> ('o service, DriveFile list \<times> int64) dbm" where
  "ListFilesPageCtx net account_id cid offset limit = listFiles net account_id cid offset limit"

definition ListFilesCtx :: "'o drive115 \<Rightarrow> string \<Rightarrow> string \<Rightarrow> ('o service, DriveFile list) dbm" where
  "ListFilesCtx net account_id cid =
     db_bind (listFiles net account_id cid 0 200) (\<lambda>(files, _). db_ret files)"

section \<open>Changes\<close>

definition post_action ::
  "'o drive115 \<Rightarrow> string \<Rightarrow> string \<Rightarrow> (string \<times> string) list \<Rightarrow> string \<Rightarrow> string \<Rightarrow> ('o service, actionAnswer) dbm" where
  "post_action net account_id path form operation refused =
     db_bind (getAccount account_id) (\<lambda>account.
     db_bind (on_out (d_Post net account path form)) (\<lambda>resp.
     case decodeProviderJSON net resp operation of
       Inl e \<Rightarrow> db_fail e
     | Inr raw \<Rightarrow> if \<not> ac_State raw then db_fail (Errorf refused [ac_Error raw]) else db_ret raw))"

definition makeDir :: "'o drive115 \<Rightarrow> string \<Rightarrow> string \<Rightarrow> string \<Rightarrow> ('o service, string) dbm" where
  "makeDir net account_id pid0 name0 =
     (let name = TrimSpace name0; pid1 = TrimSpace pid0; pid = (if pid1 = '''' then ''0'' else pid1) in
      if name = '''' then db_fail (Errorf ''directory name is required'' [])
      else db_bind (post_action net account_id ''files/add'' [(''pid'', pid), (''cname'', name)]
                      ''115 mkdir'' ''mkdir error: %s'') (\<lambda>raw.
        let cid = TrimSpace (Sprint (ac_Cid raw)) in
        if cid = '''' \<or> cid = ''<nil>'' then db_fail (Errorf ''115 mkdir response did not contain a CID'' [])
        else db_ret cid))"

definition renameFile :: "'o drive115 \<Rightarrow> string \<Rightarrow> string \<Rightarrow> string \<Rightarrow> ('o service, unit) dbm" where
  "renameFile net account_id fileID0 newName0 =
     (let fileID = TrimSpace fileID0; newName = TrimSpace newName0 in
      if fileID = '''' \<or> newName = '''' then db_fail (Errorf ''file ID and new name are required'' [])
      else db_bind (post_action net account_id ''files/edit'' [(''fid'', fileID), (''file_name'', newName)]
                      ''115 rename'' ''rename error: %s'') (\<lambda>_. db_ret ()))"

fun form_ids :: "nat \<Rightarrow> string list \<Rightarrow> error + (string \<times> string) list" where
  "form_ids index [] = Inr []"
| "form_ids index (i # ids) =
     (let fileID = TrimSpace i in
      if fileID = '''' then Inl (Errorf ''file IDs must not be empty'' [])
      else map_sum id ((#) (''fid['' @ show_nat index @ '']'', fileID)) (form_ids (Suc index) ids))"

text \<open>
  The account is read before the identifiers are looked at, so the error of a missing account comes first;
  a request is only posted when all identifiers are present.
\<close>

definition moveFiles :: "'o drive115 \<Rightarrow> string \<Rightarrow> string list \<Rightarrow> string \<Rightarrow> ('o service, unit) dbm" where
  "moveFiles net account_id fileIDs targetPID0 =
     (let targetPID = TrimSpace targetPID0 in
      if targetPID = '''' \<or> fileIDs = [] then db_fail (Errorf ''file IDs and target CID are required'' [])
      else db_bind (getAccount account_id) (\<lambda>account.
        case form_ids 0 fileIDs of
          Inl e \<Rightarrow> db_fail e
        | Inr form \<Rightarrow>
            db_bind (on_out (d_Post net account ''files/move'' ((''pid'', targetPID) # form))) (\<lambda>resp.
            case decodeProviderJSON net resp ''115 move'' of
              Inl e \<Rightarrow> db_fail e
            | Inr raw \<Rightarrow> if \<not> ac_State raw then db_fail (Errorf ''move error: %s'' [ac_Error raw]) else db_ret ())))"

definition DeleteCtx :: "'o drive115 \<Rightarrow> string \<Rightarrow> string list \<Rightarrow> ('o service, unit) dbm" where
  "DeleteCtx net account_id fileIDs =
     (if fileIDs = [] then db_fail (Errorf ''file IDs are required'' [])
      else db_bind (getAccount account_id) (\<lambda>account.
        case form_ids 0 fileIDs of
          Inl e \<Rightarrow> db_fail e
        | Inr form \<Rightarrow>
            db_bind (note_call (Recycle (map snd form))) (\<lambda>_.
            db_bind (on_out (d_Post net account ''rb/delete'' form)) (\<lambda>resp.
            case decodeProviderJSON net resp ''115 delete'' of
              Inl e \<Rightarrow> db_fail e
            | Inr raw \<Rightarrow> if \<not> ac_State raw then db_fail (Errorf ''delete error: %s'' [ac_Error raw]) else db_ret ()))))"

section \<open>Deletion targets\<close>

function targets115_from ::
  "'o drive115 \<Rightarrow> string \<Rightarrow> string \<Rightarrow> string list \<Rightarrow> int \<Rightarrow> (string \<times> DestructiveTarget) list \<Rightarrow>
   ('o service, (string \<times> DestructiveTarget) list) dbm" where
  "targets115_from net account_id parent wanted offset found =
     (if offset < 50000 \<and> length found < length wanted
      then db_bind (listFiles net account_id parent offset 1000) (\<lambda>(files, total).
        let found' = add_targets wanted files found in
        if offset + int (length files) \<ge> total \<or> files = [] then db_ret found'
        else targets115_from net account_id parent wanted (offset + 1000) found')
      else db_ret found)"
  by pat_completeness auto
termination
  by (relation "measure (\<lambda>(net, account_id, parent, wanted, offset, found). nat (50000 - offset))") auto

declare targets115_from.simps [simp del]

fun collect115 ::
  "string \<Rightarrow> (string \<times> DestructiveTarget) list \<Rightarrow> string list \<Rightarrow> error + DestructiveTarget list" where
  "collect115 parent found [] = Inr []"
| "collect115 parent found (i # ids) =
     (case map_of found (TrimSpace i) of
        None \<Rightarrow> Inl (Errorf ''115 object %s was not found in parent CID %s'' [i, parent])
      | Some t \<Rightarrow> map_sum id ((#) t) (collect115 parent found ids))"

definition ResolveDeleteTargetsCtx ::
  "'o drive115 \<Rightarrow> string \<Rightarrow> string \<Rightarrow> string list \<Rightarrow> ('o service, string \<times> DestructiveTarget list) dbm" where
  "ResolveDeleteTargetsCtx net account_id parent0 fileIDs =
     (if fileIDs = [] \<or> length fileIDs > 100
      then db_fail (Errorf ''file_ids must contain 1 to 100 values'' [])
      else db_bind (getAccount account_id) (\<lambda>account.
        let parent = (if parent0 = '''' then ''0'' else parent0) in
        case wanted_ids [] fileIDs of
          Inl e \<Rightarrow> db_fail e
        | Inr wanted \<Rightarrow>
            db_bind (targets115_from net (acc_ID account) parent wanted 0 []) (\<lambda>found.
            case collect115 parent found fileIDs of
              Inl e \<Rightarrow> db_fail e | Inr targets \<Rightarrow> db_ret (acc_ID account, targets))))"

section \<open>What a page holds\<close>

text \<open>An object of a directory, as the client admits it.\<close>

definition admitted :: "string \<Rightarrow> DriveFile \<Rightarrow> bool" where
  "admitted cid f \<longleftrightarrow>
     file_FileID f \<noteq> '''' \<and> file_FileID f \<noteq> ''0'' \<and> file_ParentID f = cid \<and>
     \<not> invalid_name (file_Name f) \<and> 0 \<le> file_Size f"

lemma file_of_admitted: "file_of cid i = Inr f \<Longrightarrow> admitted cid f"
  by (auto simp: file_of_def admitted_def item_size_def Let_def split: if_splits option.splits)

lemma files_of_admitted: "files_of cid is = Inr fs \<Longrightarrow> length fs = length is \<and> (\<forall>f \<in> set fs. admitted cid f)"
proof (induction "is" arbitrary: fs)
  case (Cons i "is" fs)
  then obtain f fs' where "file_of cid i = Inr f" "files_of cid is = Inr fs'" "fs = f # fs'"
    by (auto split: sum.splits simp: map_sum_def)
  with Cons.IH show ?case by (auto dest: file_of_admitted)
qed simp

lemma decode_files_admitted:
  "decode_files net cid resp = Inr (files, count) \<Longrightarrow>
   int (length files) \<le> count \<and> (\<forall>f \<in> set files. admitted cid f)"
  by (auto simp: decode_files_def map_sum_def split: if_splits sum.splits option.splits prod.splits
      dest: files_of_admitted)

section \<open>What is recorded\<close>

text \<open>Only a returned page and a deletion are recorded; everything else leaves the record as it was.\<close>

definition quiet :: "'o service \<Rightarrow> 'o service \<Rightarrow> bool" where
  "quiet s s' \<longleftrightarrow> sv_calls s' = sv_calls s"

interpretation quiet: evolution quiet
  by unfold_locales (auto simp: quiet_def)

named_theorems quiet_rules \<open>programs that record nothing\<close>

lemma on_db_quiet [quiet_rules]: "db_within quiet (on_db m)"
  by (simp add: db_within_def on_db_def quiet_def split: prod.split)

lemma on_out_quiet [quiet_rules]: "db_within quiet (on_out m)"
  by (simp add: db_within_def on_out_def quiet_def split: prod.split)

lemma time_Now_quiet [quiet_rules]: "db_within quiet time_Now"
  by (simp add: db_within_def time_Now_def quiet_def)

lemma ctx_Err_quiet [quiet_rules]: "db_within quiet ctx_Err"
  unfolding ctx_Err_def by (intro within_rules)

lemma getAccount_quiet [quiet_rules]: "db_within quiet (getAccount account_id)"
  unfolding getAccount_def at_now_def by (intro within_rules quiet_rules)

lemma quiet_step:
  assumes "db_within quiet m" "\<And>x s'. sv_calls s' = sv_calls s \<Longrightarrow> db_wp (k x) Q E s'"
    "\<And>e s'. sv_calls s' = sv_calls s \<Longrightarrow> E e s'"
  shows "db_wp (db_bind m k) Q E s"
  by (rule db_wp_bind, rule db_wp_conseq [OF db_within_wpD [OF assms(1)]])
    (use assms(2,3) in \<open>auto simp: quiet_def\<close>)

text \<open>Every page the client returns lies in the directory it was asked for, and is recorded.\<close>

lemma wrapped_quiet [quiet_rules]: "db_within quiet (db_wrap w (on_out m))"
  by (intro within_rules quiet_rules)

lemma retried_quiet [quiet_rules]: "db_within quiet (if c then db_wrap w (on_out m) else db_ret x)"
  by (intro within_rules quiet_rules)

definition returned_page :: "string \<Rightarrow> int \<Rightarrow> 'o service \<Rightarrow> DriveFile list \<times> int64 \<Rightarrow> 'o service \<Rightarrow> bool" where
  "returned_page cid offset s page s' \<longleftrightarrow>
     sv_calls s' = sv_calls s @ [Page cid offset (fst page) (snd page)] \<and>
     int (length (fst page)) \<le> snd page \<and> (\<forall>f \<in> set (fst page). admitted cid f)"

lemma page_recorded:
  assumes "sv_calls s' = sv_calls s"
  shows "db_wp (case decode_files net cid resp of
       Inl e \<Rightarrow> db_fail e
     | Inr (files, count) \<Rightarrow>
         db_bind (note_call (Page cid offset files count)) (\<lambda>_. db_ret (files, count)))
     (returned_page cid offset s) (\<lambda>_ s'. sv_calls s' = sv_calls s) s'"
  using assms decode_files_admitted [of net cid resp]
  by (auto simp: note_call_def returned_page_def intro!: wp_rules split: sum.splits prod.splits)

lemma listFiles_calls:
  assumes "cid \<noteq> ''''" "0 \<le> offset"
  shows "db_wp (listFiles net account_id cid offset limit) (returned_page cid offset s)
     (\<lambda>_ s'. sv_calls s' = sv_calls s) s"
proof -
  have args: "(if cid = '''' then ''0'' else cid) = cid" "(if offset < 0 then 0 else offset) = offset"
    using assms by auto
  show ?thesis
    unfolding listFiles_def Let_def args
    by (rule quiet_step [OF getAccount_quiet], rule quiet_step [OF wrapped_quiet],
        rule quiet_step [OF retried_quiet], rule page_recorded) simp_all
qed

lemma DeleteCtx_calls:
  "db_wp (DeleteCtx net account_id [i])
     (\<lambda>_ s'. sv_calls s' = sv_calls s @ [Recycle [TrimSpace i]])
     (\<lambda>_ s'. sv_calls s' = sv_calls s \<or> sv_calls s' = sv_calls s @ [Recycle [TrimSpace i]]) s"
proof -
  have post: "db_wp (db_bind (on_out m) (\<lambda>resp. case decodeProviderJSON net resp op of
        Inl e \<Rightarrow> db_fail e | Inr raw \<Rightarrow> if \<not> ac_State raw then db_fail (g raw) else db_ret ()))
      (\<lambda>_ s'. sv_calls s' = c) (\<lambda>_ s'. sv_calls s' = sv_calls s \<or> sv_calls s' = c) s'"
    if "sv_calls s' = c" for m g c op and s' :: "'o service"
    by (rule quiet_step [OF on_out_quiet]) (use that in \<open>auto intro!: wp_rules\<close>)
  have form: "form_ids 0 [i] =
      (if TrimSpace i = '''' then Inl (Errorf ''file IDs must not be empty'' [])
       else Inr [(''fid['' @ show_nat 0 @ '']'', TrimSpace i)])"
    by simp
  have ids: "([i] = []) = False" "map snd [(x, TrimSpace i)] = [TrimSpace i]" for x :: string
    by simp_all
  show ?thesis
  proof (cases "TrimSpace i = ''''")
    case True
    show ?thesis
      unfolding DeleteCtx_def ids(1) if_False
      by (rule quiet_step [OF getAccount_quiet]) (simp_all add: form True db_wp_fail)
  next
    case False
    show ?thesis
      unfolding DeleteCtx_def ids(1) if_False
      by (rule quiet_step [OF getAccount_quiet])
        (simp_all only: form False if_False sum.case ids(2) note_call_def,
          rule db_wp_bind, rule db_wp_upd, rule post, simp_all)
  qed
qed

end
