(* ===== verification/MediaPaths.thy ===== *)
theory MediaPaths
  imports Service AccountStore GoPath EmbyBoundary
begin

unbundle bit_operations_syntax

text \<open>
  The roots of the media library (\<open>internal/service/media.go\<close>): relative names, containment, the canonical
  directories of a library (\<open>paths\<close>) and the directory of its STRM pointers (\<open>media_series.go\<close>).

  The file system is a record of the calls of package \<open>os\<close> the code makes, arbitrary programs over the world
  outside: what they answer may change between any two calls. \<open>ToLower\<close> is \<open>strings.ToLower\<close>.
\<close>

section \<open>The file system\<close>

datatype filekind = RegularKind | DirKind | LinkKind | OtherKind

text \<open>What \<open>FileInfo\<close> tells: the kind, the size, the permission bits, and device and inode for \<open>SameFile\<close>.\<close>

record FileInfo =
  fi_Kind :: filekind
  fi_Size :: int64
  fi_Perm :: int
  fi_Inode :: "int \<times> int"

text \<open>
  \<open>fs_ReadDir\<close> lists names with their kinds, sorted by name; \<open>fs_Open\<close> gives the information of the opened
  file and its content.
\<close>

record 'o hostfs =
  fs_Getwd :: "('o, string) dbm"
  fs_Lstat :: "string \<Rightarrow> ('o, FileInfo) dbm"
  fs_Stat :: "string \<Rightarrow> ('o, FileInfo) dbm"
  fs_ReadDir :: "string \<Rightarrow> ('o, (string \<times> filekind) list) dbm"
  fs_Open :: "string \<Rightarrow> ('o, FileInfo \<times> string) dbm"
  fs_EvalSymlinks :: "string \<Rightarrow> ('o, string) dbm"
  fs_MkdirAll :: "string \<Rightarrow> ('o, unit) dbm"
  fs_Chmod :: "string \<Rightarrow> int \<Rightarrow> ('o, unit) dbm"
  fs_IsNotExist :: "error \<Rightarrow> bool"

section \<open>Names\<close>

text \<open>\<open>filepath.Split\<close> and \<open>filepath.Ext\<close>.\<close>

definition last_element :: "string \<Rightarrow> string" where
  "last_element s = rev (takeWhile (\<lambda>c. c \<noteq> slash) (rev s))"

definition SplitPath :: "string \<Rightarrow> string \<times> string" where
  "SplitPath s = (take (length s - length (last_element s)) s, last_element s)"

definition Ext :: "string \<Rightarrow> string" where
  "Ext s =
     (let b = last_element s in
      if CHR ''.'' \<in> set b then CHR ''.'' # rev (takeWhile (\<lambda>c. c \<noteq> CHR ''.'') (rev b)) else '''')"

definition videoExtensions :: "string list" where
  "videoExtensions =
     [''.avi'', ''.flv'', ''.iso'', ''.m2ts'', ''.m4v'', ''.mkv'', ''.mov'', ''.mp4'',
      ''.mpeg'', ''.mpg'', ''.rm'', ''.rmvb'', ''.ts'', ''.vob'', ''.webm'', ''.wmv'']"

definition above_root :: "string \<Rightarrow> bool" where
  "above_root p \<longleftrightarrow> p = ''..'' \<or> prefix ''../'' p"

definition cleanRelative :: "string \<Rightarrow> string \<Rightarrow> error + string" where
  "cleanRelative value label =
     (let clean = Clean (TrimSpace value) in
      if clean = ''.'' then Inr ''''
      else if IsAbs clean \<or> above_root clean
      then Inl (Errorf ''%s must stay below its configured root'' [label])
      else Inr clean)"

definition inside :: "string \<Rightarrow> string \<Rightarrow> bool" where
  "inside base path = (case Rel base path of Inl _ \<Rightarrow> False | Inr relative \<Rightarrow> \<not> above_root relative)"

text \<open>
  \<open>(?i)^SE(\d{1,2})$\<close>: folding also relates the letter S to the long s, whose encoding is two bytes.
\<close>

fun fold_S :: "string \<Rightarrow> string option" where
  "fold_S (c # s) =
     (if c = CHR ''S'' \<or> c = CHR ''s'' then Some s
      else case s of d # s' \<Rightarrow> if c = CHR 0xC5 \<and> d = CHR 0xBF then Some s' else None | [] \<Rightarrow> None)"
| "fold_S [] = None"

definition is_digit :: "char \<Rightarrow> bool" where
  "is_digit c \<longleftrightarrow> CHR ''0'' \<le> c \<and> c \<le> CHR ''9''"

definition legacySTRMSeason :: "string \<Rightarrow> int option" where
  "legacySTRMSeason directory =
     (case fold_S directory of
        Some (e # ds) \<Rightarrow>
          if (e = CHR ''E'' \<or> e = CHR ''e'') \<and> (length ds = 1 \<or> length ds = 2) \<and> list_all is_digit ds
          then Atoi ds else None
      | _ \<Rightarrow> None)"

definition canonicalSTRMDirectory :: "string \<Rightarrow> string" where
  "canonicalSTRMDirectory relative =
     (case SplitPath relative of (parent, directory) \<Rightarrow>
        case legacySTRMSeason directory of
          None \<Rightarrow> relative
        | Some season \<Rightarrow> parent @ ''Season '' @ pad2 season)"

section \<open>Roots\<close>

text \<open>A setting whose error is ignored; 0x2D is octal 055.\<close>

definition setting :: "string \<Rightarrow> ('o service, string) dbm" where
  "setting key = db_bind (db_try (on_db (GetSetting key)))
     (\<lambda>r. db_ret (case r of Inr v \<Rightarrow> v | Inl _ \<Rightarrow> ''''))"

definition AbsPath :: "'o hostfs \<Rightarrow> string \<Rightarrow> ('o service, string) dbm" where
  "AbsPath fs path =
     (if IsAbs path then db_ret (Clean path)
      else db_bind (on_out (fs_Getwd fs)) (\<lambda>wd. db_ret (JoinPath [wd, path])))"

definition ensureReadableDirectory :: "'o hostfs \<Rightarrow> string \<Rightarrow> FileInfo \<Rightarrow> ('o service, unit) dbm" where
  "ensureReadableDirectory fs path info =
     (if fi_Perm info AND 0x2D = 0x2D then db_ret ()
      else on_out (fs_Chmod fs path (fi_Perm info OR 0x2D)))"

definition canonicalRoot :: "'o hostfs \<Rightarrow> string \<Rightarrow> bool \<Rightarrow> ('o service, string) dbm" where
  "canonicalRoot fs path create =
     db_bind (AbsPath fs path) (\<lambda>absolute.
     db_bind (if create then on_out (fs_MkdirAll fs absolute) else db_ret ()) (\<lambda>_.
     db_bind (on_out (fs_EvalSymlinks fs absolute)) (\<lambda>resolved.
     db_bind (if create
              then db_bind (on_out (fs_Stat fs resolved)) (\<lambda>info. ensureReadableDirectory fs resolved info)
              else db_ret ()) (\<lambda>_.
     db_ret resolved))))"

definition strm_base :: "'o hostfs \<Rightarrow> string \<Rightarrow> string \<Rightarrow> ('o service, string) dbm" where
  "strm_base fs strmRoot library =
     (let strmBase = JoinPath [strmRoot, canonicalSTRMDirectory library] in
      db_bind (db_try (on_out (fs_EvalSymlinks fs strmBase))) (\<lambda>r.
      case r of
        Inr resolved \<Rightarrow>
          if \<not> inside strmRoot resolved then db_fail (Errorf ''STRM library resolves outside strm_root'' [])
          else db_ret resolved
      | Inl e \<Rightarrow>
          if fs_IsNotExist fs e then db_ret strmBase
          else db_fail (Wrapf ''resolve STRM library: %w'' [] e)))"

definition media_paths ::
  "'o hostfs \<Rightarrow> string \<Rightarrow> ('o service, string \<times> string \<times> string \<times> string) dbm" where
  "media_paths fs subpath =
     db_bind (setting ''media_root'') (\<lambda>mediaSetting.
     db_bind (setting ''strm_root'') (\<lambda>strmSetting.
     db_bind (setting ''emby_media_prefix'') (\<lambda>prefixSetting.
     if mediaSetting = '''' \<or> strmSetting = ''''
     then db_fail (Errorf ''media_root and strm_root must be configured'' [])
     else let embyPrefix = (if prefixSetting = '''' then ''/media'' else prefixSetting) in
       case cleanRelative subpath ''library'' of
         Inl e \<Rightarrow> db_fail e
       | Inr library \<Rightarrow>
           db_bind (db_wrap (Wrapf ''resolve media_root: %w'' []) (canonicalRoot fs mediaSetting False)) (\<lambda>mediaRoot.
           db_bind (db_wrap (Wrapf ''resolve media library: %w'' [])
                      (on_out (fs_EvalSymlinks fs (JoinPath [mediaRoot, library])))) (\<lambda>mediaBase.
           if \<not> inside mediaRoot mediaBase
           then db_fail (Errorf ''media library resolves outside media_root'' [])
           else db_bind (db_wrap (Wrapf ''resolve strm_root: %w'' []) (canonicalRoot fs strmSetting True)) (\<lambda>strmRoot.
             db_bind (strm_base fs strmRoot library) (\<lambda>strmBase.
             db_ret (mediaRoot, mediaBase, strmBase, strip_slashes embyPrefix))))))))"

section \<open>Containment\<close>

text \<open>A clean absolute path inside a clean absolute root extends its elements.\<close>

lemma inside_segs:
  assumes "IsAbs base" "IsAbs path" "inside base path"
  shows "\<exists>ts. path_segs path = path_segs base @ ts"
proof -
  have rel: "\<exists>ts. as = bs @ ts" if "rel_segs bs as = Some rs" "rs = [] \<or> hd rs \<noteq> ''..''" for bs as rs
    using that by (induction bs as rule: rel_segs.induct) (auto split: if_splits)
  show ?thesis
  proof (cases "Clean path = Clean base")
    case True
    then have "path_segs path = path_segs base" using Clean_abs_segs assms(1,2) by metis
    then show ?thesis by simp
  next
    case False
    with assms obtain rs where rs: "rel_segs (path_segs base) (path_segs path) = Some rs" "\<not> above_root (join_slash rs)"
      by (auto simp: inside_def Rel_def split: sum.splits option.splits if_splits)
    moreover have "above_root (join_slash (''..'' # ws))" for ws
      by (cases ws) (auto simp: above_root_def join_slash_def slash_def)
    ultimately have "rs = [] \<or> hd rs \<noteq> ''..''" by (cases rs) auto
    with rel rs(1) show ?thesis by blast
  qed
qed

end
