(* ===== verification/EmbyDeletion.thy ===== *)
theory EmbyDeletion
  imports Drive115 MediaPaths TaskQueue
begin

text \<open>
  The deletion of 115 originals behind Emby items (\<open>internal/service/emby_deletion_sources.go\<close>): the managed
  libraries, the walk over the paths Emby is about to delete, the resolution of every original video to one
  object of the drive, and the recycling of a prepared plan.

  The parameters are the file system \<open>fs\<close>, the 115 client \<open>net\<close>, the Emby client \<open>emby\<close> and \<open>ToLower\<close>
  (\<open>strings.ToLower\<close>). \<open>self\<close> is the address of the service, which a plan remembers as its owner.
\<close>

section \<open>Data\<close>

record EmbyDeletionSource =
  src_Path :: string
  src_FileID :: string
  src_ParentID :: string
  src_Name :: string
  src_Size :: int64
  src_SHA1 :: string
  src_Recycled :: bool
  src_AlreadyAbsent :: bool

record embyDeletionTarget =
  dtg_file :: DriveFile
  dtg_path :: string
  dtg_native :: bool

record EmbyDeletionPlan =
  plan_SourcePaths :: "string list"
  plan_AccountID :: string
  plan_Sources :: "EmbyDeletionSource list"
  plan_owner :: nat
  plan_accountID :: string
  plan_targets :: "embyDeletionTarget list"
  plan_attempted :: bool

record embyDeletionLibrary =
  edl_visible :: string
  edl_host :: string
  edl_mediaRoot :: string
  edl_mediaBase :: string
  edl_prefix :: string
  edl_cid :: string
  edl_native :: bool

section \<open>Paths\<close>

definition embyDeletionAbsolute :: "string \<Rightarrow> error + string" where
  "embyDeletionAbsolute value =
     (if \<not> IsAbs value \<or> Clean value \<noteq> value \<or> ContainsAny value [CHR 0x00, CHR 0x0D, CHR 0x0A]
      then Inl (Errorf ''Emby deletion requires a canonical absolute path'' [])
      else Inr value)"

fun lstat_below :: "'o hostfs \<Rightarrow> string \<Rightarrow> string list \<Rightarrow> FileInfo \<Rightarrow> ('o service, FileInfo) dbm" where
  "lstat_below fs current [] info = db_ret info"
| "lstat_below fs current (part # parts) info =
     (let current' = JoinPath [current, part] in
      db_bind (on_out (fs_Lstat fs current')) (\<lambda>info'.
      if fi_Kind info' = LinkKind then db_fail (Errorf ''deletion refuses symbolic link %s'' [current'])
      else lstat_below fs current' parts info'))"

definition embyDeletionLstat :: "'o hostfs \<Rightarrow> string \<Rightarrow> string \<Rightarrow> ('o service, FileInfo) dbm" where
  "embyDeletionLstat fs base path =
     (if \<not> inside base path
      then db_fail (Errorf ''deletion path is outside managed root: %s'' [path])
      else case Rel base path of
        Inl e \<Rightarrow> db_fail e
      | Inr relative \<Rightarrow>
          db_bind (on_out (fs_Lstat fs base)) (\<lambda>info.
          if fi_Kind info = LinkKind then db_fail (Errorf ''deletion refuses symbolic link %s'' [base])
          else if relative = ''.'' then db_ret info
          else lstat_below fs base (split_slash relative) info))"

text \<open>\<open>strings.ReplaceAll(body, "\r\n", "\n")\<close>.\<close>

fun replace_crlf :: "string \<Rightarrow> string" where
  "replace_crlf (c # d # s) =
     (if c = CHR 0x0D \<and> d = CHR 0x0A then CHR 0x0A # replace_crlf s else c # replace_crlf (d # s))"
| "replace_crlf s = s"

text \<open>The one target among the lines; None when two lines differ.\<close>

fun strm_target :: "string \<Rightarrow> string list \<Rightarrow> string option" where
  "strm_target targ [] = Some targ"
| "strm_target targ (l # ls) =
     (let line = TrimSpace l in
      if line = '''' then strm_target targ ls
      else if targ \<noteq> '''' \<and> targ \<noteq> line then None
      else strm_target line ls)"

definition embyDeletionSTRM :: "'o hostfs \<Rightarrow> string \<Rightarrow> ('o service, string) dbm" where
  "embyDeletionSTRM fs path =
     db_bind (on_out (fs_Lstat fs path)) (\<lambda>before.
     if fi_Kind before \<noteq> RegularKind
     then db_fail (Errorf ''STRM pointer is not a regular file: %s'' [path])
     else db_bind (on_out (fs_Open fs path)) (\<lambda>(opened, body).
       if fi_Inode before \<noteq> fi_Inode opened
       then db_fail (Errorf ''STRM pointer changed during preflight: %s'' [path])
       else if length body > 64 * 1024
       then db_fail (Errorf ''STRM pointer is too large: %s'' [path])
       else case strm_target '''' (split_on (CHR 0x0A) (replace_crlf body)) of
         None \<Rightarrow> db_fail (Errorf ''STRM contains ambiguous multiple targets: %s'' [path])
       | Some targ \<Rightarrow>
           (case embyDeletionAbsolute targ of
              Inl _ \<Rightarrow> db_fail (Errorf ''STRM must contain one absolute managed video path: %s'' [path])
            | Inr canonical \<Rightarrow> db_ret canonical)))"

section \<open>Libraries\<close>

fun check_roots :: "'o hostfs \<Rightarrow> string list \<Rightarrow> ('o service, unit) dbm" where
  "check_roots fs [] = db_ret ()"
| "check_roots fs (key # keys) =
     db_bind (on_db (GetSetting key)) (\<lambda>base.
     case embyDeletionAbsolute base of
       Inl e \<Rightarrow> db_fail (Wrapf ''invalid %s: %w'' [key] e)
     | Inr _ \<Rightarrow>
         db_bind (on_out (fs_Lstat fs base)) (\<lambda>info.
         if fi_Kind info \<noteq> DirKind
         then db_fail (Errorf ''%s must be a real directory, not a symbolic link'' [key])
         else check_roots fs keys))"

definition overlapping :: "embyDeletionLibrary \<Rightarrow> embyDeletionLibrary \<Rightarrow> bool" where
  "overlapping l m \<longleftrightarrow> inside (edl_visible l) (edl_visible m) \<or> inside (edl_visible m) (edl_visible l)"

text \<open>The host directory of a location: the media directory, or the STRM directory of the library.\<close>

definition host_of ::
  "'o hostfs \<Rightarrow> string \<Rightarrow> string \<Rightarrow> string \<Rightarrow> string \<Rightarrow> string \<Rightarrow> string \<Rightarrow> ('o service, string \<times> bool) dbm" where
  "host_of fs pre name mediaBase strmBase strmRoot visible =
     (if visible = JoinPath [pre, name] \<or> visible = mediaBase then db_ret (mediaBase, True)
      else if visible = JoinPath [''/strm-v2'', canonicalSTRMDirectory name] \<or> visible = strmBase
      then db_bind (embyDeletionLstat fs strmRoot (JoinPath [strmRoot, canonicalSTRMDirectory name])) (\<lambda>_.
        db_ret (strmBase, False))
      else db_fail (Errorf ''managed Emby library location has no exact media/STRM mapping: %s'' [visible]))"

fun add_locations ::
  "(string \<Rightarrow> ('o service, string \<times> bool) dbm) \<Rightarrow> embyDeletionLibrary \<Rightarrow> string list \<Rightarrow>
   embyDeletionLibrary list \<Rightarrow> ('o service, embyDeletionLibrary list) dbm" where
  "add_locations host base [] result = db_ret result"
| "add_locations host base (location # locations) result =
     (case embyDeletionAbsolute location of
        Inl e \<Rightarrow> db_fail e
      | Inr visible \<Rightarrow>
          db_bind (host visible) (\<lambda>(directory, native).
          let mapping = base\<lparr>edl_visible := visible, edl_host := directory, edl_native := native\<rparr> in
          case sql_find (\<lambda>existing. overlapping existing mapping) result of
            Some existing \<Rightarrow>
              db_fail (Errorf ''managed Emby library locations overlap: %s and %s''
                [edl_visible existing, visible])
          | None \<Rightarrow> add_locations host base locations (result @ [mapping])))"

definition add_library ::
  "'o hostfs \<Rightarrow> (string \<times> string) list \<Rightarrow> EmbyLibrary \<Rightarrow> embyDeletionLibrary list \<Rightarrow>
   ('o service, embyDeletionLibrary list) dbm" where
  "add_library fs cidMap library result =
     (let cid = TrimSpace (lookup_string cidMap (lib_Name library)) in
      if cid = '''' then db_ret result
      else case cleanRelative (lib_Name library) ''managed library'' of
        Inl _ \<Rightarrow> db_fail (Errorf ''invalid managed library name %q'' [quoted (lib_Name library)])
      | Inr name \<Rightarrow>
          if name = '''' \<or> name \<noteq> lib_Name library
          then db_fail (Errorf ''invalid managed library name %q'' [quoted (lib_Name library)])
          else db_bind (media_paths fs name) (\<lambda>(mediaRoot, mediaBase, strmBase, pre).
            db_bind (embyDeletionLstat fs mediaRoot (JoinPath [mediaRoot, name])) (\<lambda>_.
            db_bind (on_db (GetSetting ''strm_root'')) (\<lambda>strmSetting.
            db_bind (canonicalRoot fs strmSetting False) (\<lambda>strmRoot.
            case embyDeletionAbsolute pre of
              Inl e \<Rightarrow> db_fail (Wrapf ''invalid emby_media_prefix: %w'' [] e)
            | Inr _ \<Rightarrow>
                add_locations (host_of fs pre name mediaBase strmBase strmRoot)
                  \<lparr>edl_visible = '''', edl_host = '''', edl_mediaRoot = mediaRoot, edl_mediaBase = mediaBase,
                   edl_prefix = pre, edl_cid = cid, edl_native = False\<rparr>
                  (lib_Locations library) result)))))"

fun add_libraries ::
  "'o hostfs \<Rightarrow> (string \<times> string) list \<Rightarrow> EmbyLibrary list \<Rightarrow> embyDeletionLibrary list \<Rightarrow>
   ('o service, embyDeletionLibrary list) dbm" where
  "add_libraries fs cidMap [] result = db_ret result"
| "add_libraries fs cidMap (l # ls) result =
     db_bind (add_library fs cidMap l result) (add_libraries fs cidMap ls)"

definition embyDeletionLibraries ::
  "'o hostfs \<Rightarrow> 'o emby \<Rightarrow> ('o service, embyDeletionLibrary list) dbm" where
  "embyDeletionLibraries fs emby =
     db_bind (check_roots fs [''media_root'', ''strm_root'']) (\<lambda>_.
     db_bind (on_db (GetSetting ''c115_cid_map'')) (\<lambda>raw.
     case em_CIDMap emby raw of
       Inl e \<Rightarrow> db_fail (Wrapf ''invalid c115_cid_map: %w'' [] e)
     | Inr cidMap \<Rightarrow>
         db_bind (on_out (em_ListLibraries emby)) (\<lambda>libraries.
         db_bind (add_libraries fs cidMap libraries []) (\<lambda>result.
         if result = []
         then db_fail (Errorf ''no Emby libraries have configured 115 source mappings'' [])
         else db_ret result))))"

section \<open>The inventory of a directory\<close>

text \<open>The identifiers and names seen so far are those of the files collected so far.\<close>

definition ambiguous :: "string \<Rightarrow> DriveFile list \<Rightarrow> DriveFile \<Rightarrow> bool" where
  "ambiguous cid files f \<longleftrightarrow>
     file_FileID f = '''' \<or> file_FileID f = ''0'' \<or> file_FileID f = ''<nil>'' \<or> file_ParentID f \<noteq> cid \<or>
     file_Name f = '''' \<or> file_Name f = ''.'' \<or> file_Name f = ''..'' \<or>
     ContainsAny (file_Name f) [CHR ''/'', CHR 0x5C, CHR 0x00] \<or> file_Size f < 0 \<or>
     file_FileID f \<in> file_FileID ` set files \<or> file_Name f \<in> file_Name ` set files"

fun add_page :: "string \<Rightarrow> DriveFile list \<Rightarrow> DriveFile list \<Rightarrow> error + DriveFile list" where
  "add_page cid files [] = Inr files"
| "add_page cid files (f # fs) =
     (if ambiguous cid files f
      then Inl (Errorf ''ambiguous or invalid 115 identity in parent CID %s'' [cid])
      else add_page cid (files @ [f]) fs)"

function inventory_from ::
  "'o drive115 \<Rightarrow> string \<Rightarrow> string \<Rightarrow> int \<Rightarrow> int64 \<Rightarrow> DriveFile list \<Rightarrow> ('o service, DriveFile list) dbm" where
  "inventory_from net account_id cid offset expected files =
     db_bind (ListFilesPageCtx net account_id cid offset 1000) (\<lambda>(page, count).
     if count < 0 \<or> (expected \<ge> 0 \<and> count \<noteq> expected) \<or> count < offset + int (length page) \<or>
        (page = [] \<and> offset < count)
     then db_fail (Errorf ''incomplete or changing 115 directory inventory for CID %s'' [cid])
     else case add_page cid files page of
       Inl e \<Rightarrow> db_fail e
     | Inr files' \<Rightarrow>
         if offset + int (length page) = count then db_ret files'
         else inventory_from net account_id cid (offset + int (length page)) count files')"
  by pat_completeness auto
termination
  by (relation "measures [\<lambda>(net, account_id, cid, offset, expected, files). if expected < 0 then 1 else 0,
        \<lambda>(net, account_id, cid, offset, expected, files). nat (expected - offset)]") auto

declare inventory_from.simps [simp del]

definition embyDeletionInventory :: "'o drive115 \<Rightarrow> string \<Rightarrow> string \<Rightarrow> ('o service, DriveFile list) dbm" where
  "embyDeletionInventory net account_id cid = inventory_from net account_id cid 0 (- 1) []"

type_synonym inventories = "(string \<times> DriveFile list) list"

definition cached_inventory ::
  "'o drive115 \<Rightarrow> string \<Rightarrow> string \<Rightarrow> inventories \<Rightarrow> ('o service, DriveFile list \<times> inventories) dbm" where
  "cached_inventory net account_id cid cache =
     (case map_of cache cid of
        Some files \<Rightarrow> db_ret (files, cache)
      | None \<Rightarrow> db_bind (embyDeletionInventory net account_id cid) (\<lambda>files. db_ret (files, (cid, files) # cache)))"

text \<open>The descent along the elements of a path, from the directory of the library.\<close>

fun resolve_parts ::
  "'o drive115 \<Rightarrow> string \<Rightarrow> string \<Rightarrow> string list \<Rightarrow> inventories \<Rightarrow>
   ('o service, DriveFile \<times> inventories) dbm" where
  "resolve_parts net account_id cid [] cache =
     db_fail (Errorf ''original source path has no video component'' [])"
| "resolve_parts net account_id cid (part # parts) cache =
     db_bind (cached_inventory net account_id cid cache) (\<lambda>(files, cache').
     case sql_find (\<lambda>f. file_Name f = part) files of
       None \<Rightarrow> db_fail (Errorf ''115 source component %q is absent from parent CID %s'' [quoted part, cid])
     | Some match \<Rightarrow>
         if file_IsFolder match = (parts = [])
         then db_fail (Errorf ''115 source component has the wrong file type: %q'' [quoted part])
         else if parts = [] then db_ret (match, cache')
         else resolve_parts net account_id (file_FileID match) parts cache')"

definition resolveEmbyDeletionSource ::
  "'o drive115 \<Rightarrow> string \<Rightarrow> embyDeletionLibrary \<Rightarrow> string \<Rightarrow> inventories \<Rightarrow>
   ('o service, DriveFile \<times> inventories) dbm" where
  "resolveEmbyDeletionSource net account_id library mounted cache =
     (case Rel (edl_mediaBase library) mounted of
        Inl e \<Rightarrow> db_fail e
      | Inr relative \<Rightarrow> resolve_parts net account_id (edl_cid library) (split_slash relative) cache)"

section \<open>The plan\<close>

text \<open>The variables the callback of the walk captures.\<close>

record preflight =
  pf_targets :: "embyDeletionTarget list"
  pf_byPath :: "(string \<times> nat) list"
  pf_byID :: "(string \<times> string) list"
  pf_inventories :: inventories

text \<open>The mounted file and the path Emby knows it by.\<close>

definition source_of ::
  "'o hostfs \<Rightarrow> (string \<Rightarrow> string) \<Rightarrow> embyDeletionLibrary \<Rightarrow> string \<Rightarrow> string \<Rightarrow> ('o service, string \<times> string) dbm" where
  "source_of fs ToLower library path extension =
     (if extension = ''.strm''
      then if edl_native library
        then db_fail (Errorf ''STRM pointer in native media library is unsupported: %s'' [path])
        else db_bind (embyDeletionSTRM fs path) (\<lambda>sourcePath.
          if \<not> inside (edl_prefix library) sourcePath \<or> sourcePath = edl_prefix library
          then db_fail (Errorf ''STRM target is outside emby_media_prefix: %s'' [path])
          else case Rel (edl_prefix library) sourcePath of
            Inl e \<Rightarrow> db_fail e
          | Inr relative \<Rightarrow>
              let mounted = JoinPath [edl_mediaRoot library, relative] in
              if \<not> inside (edl_mediaBase library) mounted \<or> mounted = edl_mediaBase library
              then db_fail (Errorf ''STRM target is outside its managed source library: %s'' [path])
              else if ToLower (Ext mounted) \<notin> set videoExtensions
              then db_fail (Errorf ''STRM target is not a managed video: %s'' [path])
              else db_ret (mounted, sourcePath))
      else if \<not> edl_native library
      then db_fail (Errorf ''native video in STRM library is unsupported: %s'' [path])
      else case Rel (edl_mediaRoot library) path of
        Inl e \<Rightarrow> db_fail e
      | Inr relative \<Rightarrow> db_ret (path, JoinPath [edl_prefix library, relative]))"

definition add_target ::
  "'o hostfs \<Rightarrow> 'o drive115 \<Rightarrow> string \<Rightarrow> embyDeletionLibrary \<Rightarrow> bool \<Rightarrow> string \<Rightarrow> string \<Rightarrow> preflight \<Rightarrow>
   ('o service, preflight) dbm" where
  "add_target fs net account_id library native mounted sourcePath pf =
     (case map_of (pf_byPath pf) sourcePath of
        Some index \<Rightarrow>
          db_ret (pf\<lparr>pf_targets := (pf_targets pf)
            [index := (pf_targets pf ! index)\<lparr>dtg_native := dtg_native (pf_targets pf ! index) \<or> native\<rparr>]\<rparr>)
      | None \<Rightarrow>
          db_bind (embyDeletionLstat fs (edl_mediaRoot library) mounted) (\<lambda>mountedInfo.
          if fi_Kind mountedInfo \<noteq> RegularKind
          then db_fail (Errorf ''original source is not a regular file: %s'' [sourcePath])
          else db_bind (resolveEmbyDeletionSource net account_id library mounted (pf_inventories pf)) (\<lambda>(file, cache).
            if file_Size file \<noteq> fi_Size mountedInfo
            then db_fail (Errorf ''mounted and 115 sizes differ for %s (file ID %s)'' [sourcePath, file_FileID file])
            else if (case map_of (pf_byID pf) (file_FileID file) of None \<Rightarrow> False | Some previous \<Rightarrow> previous \<noteq> sourcePath)
            then db_fail (Errorf ''115 file ID %s resolves to multiple source paths'' [file_FileID file])
            else db_ret \<lparr>
              pf_targets = pf_targets pf @ [\<lparr>dtg_file = file, dtg_path = sourcePath, dtg_native = native\<rparr>],
              pf_byPath = (sourcePath, length (pf_targets pf)) # pf_byPath pf,
              pf_byID = (file_FileID file, sourcePath) # pf_byID pf,
              pf_inventories = cache\<rparr>)))"

text \<open>The callback of \<open>WalkDir\<close> on one entry; only the first entry comes with its information.\<close>

definition visit_entry ::
  "'o hostfs \<Rightarrow> 'o drive115 \<Rightarrow> (string \<Rightarrow> string) \<Rightarrow> string \<Rightarrow> embyDeletionLibrary \<Rightarrow>
   string \<Rightarrow> filekind \<Rightarrow> FileInfo option \<Rightarrow> preflight \<Rightarrow> ('o service, preflight) dbm" where
  "visit_entry fs net ToLower account_id library path kind known pf =
     db_bind ctx_Err (\<lambda>cancelled.
     case cancelled of Some e \<Rightarrow> db_fail e
     | None \<Rightarrow>
         if kind = LinkKind then db_fail (Errorf ''Emby deletion refuses symbolic link %s'' [path])
         else if kind = DirKind then db_ret pf
         else db_bind (case known of Some i \<Rightarrow> db_ret i | None \<Rightarrow> on_out (fs_Lstat fs path)) (\<lambda>info.
           if fi_Kind info \<noteq> RegularKind
           then db_fail (Errorf ''Emby deletion refuses non-regular file %s'' [path])
           else let extension = ToLower (Ext path); video = (extension \<in> set videoExtensions) in
             if extension \<noteq> ''.strm'' \<and> \<not> video then db_ret pf
             else db_bind (source_of fs ToLower library path extension) (\<lambda>(mounted, sourcePath).
               add_target fs net account_id library (edl_native library \<and> video) mounted sourcePath pf)))"

text \<open>
  \<open>filepath.WalkDir\<close>: an entry, then the entries of a directory in the order of \<open>ReadDir\<close>. A path has at
  most 4096 bytes, so a descent of more than 2048 levels meets a name that is too long.
\<close>

definition path_levels :: nat where
  "path_levels = 2048"

fun walk_entries ::
  "(string \<Rightarrow> filekind \<Rightarrow> FileInfo option \<Rightarrow> 'a \<Rightarrow> ('o service, 'a) dbm) \<Rightarrow> string \<Rightarrow>
   (string \<times> filekind) list \<Rightarrow> 'a \<Rightarrow> ('o service, 'a) dbm" where
  "walk_entries step path [] a = db_ret a"
| "walk_entries step path ((name, kind) # es) a =
     db_bind (step (JoinPath [path, name]) kind None a) (walk_entries step path es)"

primrec walk_tree ::
  "'o hostfs \<Rightarrow> (string \<Rightarrow> filekind \<Rightarrow> FileInfo option \<Rightarrow> 'a \<Rightarrow> ('o service, 'a) dbm) \<Rightarrow> nat \<Rightarrow>
   string \<Rightarrow> filekind \<Rightarrow> FileInfo option \<Rightarrow> 'a \<Rightarrow> ('o service, 'a) dbm" where
  "walk_tree fs fn 0 = (\<lambda>path kind known a. db_fail (Errorf ''lstat %s: file name too long'' [path]))"
| "walk_tree fs fn (Suc levels) = (\<lambda>path kind known a.
     db_bind (fn path kind known a) (\<lambda>a'.
     if kind \<noteq> DirKind then db_ret a'
     else db_bind (on_out (fs_ReadDir fs path)) (\<lambda>es. walk_entries (walk_tree fs fn levels) path es a')))"

definition WalkDir ::
  "'o hostfs \<Rightarrow> (string \<Rightarrow> filekind \<Rightarrow> FileInfo option \<Rightarrow> 'a \<Rightarrow> ('o service, 'a) dbm) \<Rightarrow> string \<Rightarrow> 'a \<Rightarrow>
   ('o service, 'a) dbm" where
  "WalkDir fs fn base a =
     db_bind (on_out (fs_Lstat fs base)) (\<lambda>info. walk_tree fs fn path_levels base (fi_Kind info) (Some info) a)"

fun select_library ::
  "string \<Rightarrow> embyDeletionLibrary option \<Rightarrow> embyDeletionLibrary list \<Rightarrow> error + embyDeletionLibrary" where
  "select_library visible selected [] =
     (case selected of
        None \<Rightarrow> Inl (Errorf ''Emby deletion path is outside managed libraries: %s'' [visible])
      | Some l \<Rightarrow> Inr l)"
| "select_library visible selected (l # ls) =
     (if visible = edl_visible l then Inl (Errorf ''refusing Emby library-root deletion: %s'' [visible])
      else if inside (edl_visible l) visible
      then if selected \<noteq> None then Inl (Errorf ''ambiguous managed library for %s'' [visible])
        else select_library visible (Some l) ls
      else select_library visible selected ls)"

fun prepare_paths ::
  "'o hostfs \<Rightarrow> 'o drive115 \<Rightarrow> (string \<Rightarrow> string) \<Rightarrow> string \<Rightarrow> embyDeletionLibrary list \<Rightarrow> string list \<Rightarrow>
   preflight \<Rightarrow> ('o service, preflight) dbm" where
  "prepare_paths fs net ToLower account_id libraries [] pf = db_ret pf"
| "prepare_paths fs net ToLower account_id libraries (path # paths) pf =
     db_bind ctx_Err (\<lambda>cancelled.
     case cancelled of Some e \<Rightarrow> db_fail e
     | None \<Rightarrow>
         case embyDeletionAbsolute path of
           Inl e \<Rightarrow> db_fail e
         | Inr visible \<Rightarrow>
             case select_library visible None libraries of
               Inl e \<Rightarrow> db_fail e
             | Inr selected \<Rightarrow>
                 case Rel (edl_visible selected) visible of
                   Inl e \<Rightarrow> db_fail e
                 | Inr relative \<Rightarrow>
                     let host = JoinPath [edl_host selected, relative] in
                     db_bind (embyDeletionLstat fs (edl_host selected) host) (\<lambda>_.
                     db_bind (WalkDir fs (visit_entry fs net ToLower account_id selected) host pf)
                       (prepare_paths fs net ToLower account_id libraries paths)))"

definition source_record :: "embyDeletionTarget \<Rightarrow> EmbyDeletionSource" where
  "source_record t =
     \<lparr>src_Path = dtg_path t, src_FileID = file_FileID (dtg_file t), src_ParentID = file_ParentID (dtg_file t),
      src_Name = file_Name (dtg_file t), src_Size = file_Size (dtg_file t), src_SHA1 = file_Sha1 (dtg_file t),
      src_Recycled = False, src_AlreadyAbsent = False\<rparr>"

definition finished_plan :: "nat \<Rightarrow> string \<Rightarrow> embyDeletionTarget list \<Rightarrow> EmbyDeletionPlan" where
  "finished_plan self account_id found =
     (let targets = sort_key dtg_path found in
      \<lparr>plan_SourcePaths = map dtg_path targets, plan_AccountID = account_id,
       plan_Sources = map source_record targets, plan_owner = self, plan_accountID = account_id,
       plan_targets = targets, plan_attempted = False\<rparr>)"

text \<open>What follows once the managed libraries are known.\<close>

definition prepare_in ::
  "nat \<Rightarrow> 'o hostfs \<Rightarrow> 'o drive115 \<Rightarrow> (string \<Rightarrow> string) \<Rightarrow> string list \<Rightarrow> embyDeletionLibrary list \<Rightarrow>
   ('o service, EmbyDeletionPlan) dbm" where
  "prepare_in self fs net ToLower paths libraries =
     db_bind (getAccount '''') (\<lambda>account.
     if acc_ID account = '''' \<or> acc_Type account \<noteq> ''115'' \<or> TrimSpace (acc_Cookie account) = ''''
     then db_fail (Errorf ''Emby source deletion requires a configured default 115 account'' [])
     else db_bind (prepare_paths fs net ToLower (acc_ID account) libraries paths
            \<lparr>pf_targets = [], pf_byPath = [], pf_byID = [], pf_inventories = []\<rparr>) (\<lambda>pf.
       if pf_targets pf = []
       then db_fail (Errorf ''Emby deletion contains no managed original videos'' [])
       else db_ret (finished_plan self (acc_ID account) (pf_targets pf))))"

definition PrepareEmbyDeletionCtx ::
  "nat \<Rightarrow> 'o hostfs \<Rightarrow> 'o drive115 \<Rightarrow> 'o emby \<Rightarrow> (string \<Rightarrow> string) \<Rightarrow> string list \<Rightarrow>
   ('o service, EmbyDeletionPlan) dbm" where
  "PrepareEmbyDeletionCtx self fs net emby ToLower paths =
     (if paths = [] then db_fail (Errorf ''Emby deletion has no filesystem paths'' [])
      else db_bind (embyDeletionLibraries fs emby) (prepare_in self fs net ToLower paths))"

section \<open>Recycling\<close>

datatype outcome = RecycledNow | AbsentBefore

definition same_object :: "DriveFile \<Rightarrow> DriveFile \<Rightarrow> bool" where
  "same_object current planned \<longleftrightarrow>
     \<not> file_IsFolder current \<and> file_Name current = file_Name planned \<and>
     file_ParentID current = file_ParentID planned \<and> file_Size current = file_Size planned \<and>
     EqualFold (file_Sha1 current) (file_Sha1 planned)"

text \<open>The body of the loop over the targets: the object is found again, then deleted, then seen absent.\<close>

definition delete_verified ::
  "'o drive115 \<Rightarrow> string \<Rightarrow> embyDeletionTarget \<Rightarrow> ('o service, outcome) dbm" where
  "delete_verified net account_id target =
     (let fileID = file_FileID (dtg_file target); parent = file_ParentID (dtg_file target) in
      db_bind (db_wrap (Wrapf ''recycle source %s (parent CID %s, file ID %s): %w'' [dtg_path target, parent, fileID])
                 (DeleteCtx net account_id [fileID])) (\<lambda>_.
      db_bind (db_wrap (Wrapf ''verify recycled source ID %s: %w'' [fileID])
                 (embyDeletionInventory net account_id parent)) (\<lambda>remaining.
      if list_ex (\<lambda>f. file_FileID f = fileID) remaining
      then db_fail (Errorf ''115 still lists source ID %s after recycling'' [fileID])
      else db_ret RecycledNow)))"

definition recycle_target ::
  "'o drive115 \<Rightarrow> string \<Rightarrow> embyDeletionTarget \<Rightarrow> ('o service, outcome) dbm" where
  "recycle_target net account_id target =
     (let file = dtg_file target; fileID = file_FileID file; parent = file_ParentID file in
      db_bind ctx_Err (\<lambda>cancelled.
      case cancelled of Some e \<Rightarrow> db_fail e
      | None \<Rightarrow>
          db_bind (db_wrap (Wrapf ''revalidate source %s (file ID %s): %w'' [dtg_path target, fileID])
                     (embyDeletionInventory net account_id parent)) (\<lambda>files.
          case sql_find (\<lambda>f. file_FileID f = fileID) files of
            None \<Rightarrow>
              if \<not> dtg_native target
              then db_fail (Errorf ''preflighted source ID %s disappeared before recycling %s'' [fileID, dtg_path target])
              else db_ret AbsentBefore
          | Some current \<Rightarrow>
              if \<not> same_object current file
              then db_fail (Errorf ''source identity changed for %s (file ID %s)'' [dtg_path target, fileID])
              else delete_verified net account_id target)))"

definition mark_source :: "outcome \<Rightarrow> EmbyDeletionSource \<Rightarrow> EmbyDeletionSource" where
  "mark_source r src =
     (case r of RecycledNow \<Rightarrow> src\<lparr>src_Recycled := True\<rparr> | AbsentBefore \<Rightarrow> src\<lparr>src_AlreadyAbsent := True\<rparr>)"

text \<open>The loop: the sources with what was observed, and the error that ended it.\<close>

fun recycle_targets ::
  "'o drive115 \<Rightarrow> string \<Rightarrow> nat \<Rightarrow> embyDeletionTarget list \<Rightarrow> EmbyDeletionSource list \<Rightarrow>
   ('o service, EmbyDeletionSource list \<times> error option) dbm" where
  "recycle_targets net account_id index [] sources = db_ret (sources, None)"
| "recycle_targets net account_id index (t # ts) sources =
     db_bind (db_try (recycle_target net account_id t)) (\<lambda>r.
     case r of
       Inl e \<Rightarrow> db_ret (sources, Some e)
     | Inr o' \<Rightarrow>
         recycle_targets net account_id (Suc index) ts (sources[index := mark_source o' (sources ! index)]))"

text \<open>The plan is passed by reference: the result is the plan as the call leaves it, and the error.\<close>

definition RecycleEmbyDeletionCtx ::
  "nat \<Rightarrow> 'o drive115 \<Rightarrow> EmbyDeletionPlan option \<Rightarrow>
   ('o service, EmbyDeletionPlan option \<times> error option) dbm" where
  "RecycleEmbyDeletionCtx self net plan =
     (case plan of
        None \<Rightarrow> db_ret (None, Some (Errorf ''invalid or already attempted Emby deletion plan'' []))
      | Some p \<Rightarrow>
          if plan_owner p \<noteq> self \<or> plan_attempted p \<or> plan_targets p = []
          then db_ret (Some p, Some (Errorf ''invalid or already attempted Emby deletion plan'' []))
          else db_bind (recycle_targets net (plan_accountID p) 0 (plan_targets p) (plan_Sources p)) (\<lambda>(sources, err).
            db_ret (Some (p\<lparr>plan_attempted := True, plan_Sources := sources\<rparr>), err)))"

end
