(* ===== verification/EmbyDeletionApi.thy ===== *)
theory EmbyDeletionApi
  imports EmbyDeletion AccessStore
begin

text \<open>
  The endpoint of \<open>internal/api/emby_deletion.go\<close> that a browser of Emby reaches instead of Emby's own
  deletion: parsing the request, authorizing the user with Emby, collecting the paths Emby would delete,
  preparing the plan, deleting in Emby and recycling the originals, under the media mutex and with an audit
  record of the outcome.

  Emby is a record: \<open>ne_Call\<close> is one HTTP exchange, the other fields are what \<open>encoding/json\<close>, \<open>mime\<close>,
  \<open>net/url\<close> and \<open>regexp\<close> make of a text.
\<close>

section \<open>Errors and answers\<close>

datatype apiError = HTTPError int string | OtherError error

record response =
  rs_Status :: int
  rs_ContentType :: string
  rs_Body :: string

text \<open>No answer, or a status with a content type and the body, if at most 4 MiB of it could be read.\<close>

datatype answer = NoAnswer | Received int string "string option"

datatype idsValue = IdsInvalid | IdsText string | IdsList "string list" | IdsOther

text \<open>A JSON body: not an object, or its first field, whether another follows, and whether text follows the object.\<close>

datatype jsonBody = NotObject | JObject "(string \<times> idsValue) option" bool bool

record httpRequest =
  rq_Method :: string
  rq_Path :: string
  rq_Query :: "error + (string \<times> string list) list"
  rq_Header :: "string \<Rightarrow> string list"
  rq_Body :: "error + string"
  rq_ContentType :: string
  rq_RealIP :: string

record deletionRequest =
  dr_path :: string
  dr_ids :: "string list"
  dr_confirmation :: bool
  dr_query :: "(string \<times> string list) list"
  dr_authQuery :: "(string \<times> string list) list"
  dr_headers :: "(string \<times> string) list"
  dr_body :: string
  dr_credential :: string
  dr_deviceID :: string

record 'o nativeEmby =
  ne_Call :: "deletionRequest \<Rightarrow> string \<Rightarrow> string \<Rightarrow> (string \<times> string list) list \<Rightarrow> string \<Rightarrow> string \<Rightarrow> ('o, answer) dbm"
  ne_URL :: "string \<Rightarrow> bool"
  ne_Keys :: "string \<Rightarrow> string list option"
  ne_Sessions :: "string \<Rightarrow> (string \<times> string \<times> string) list option"
  ne_User :: "string \<Rightarrow> (string \<times> bool \<times> bool option) option"
  ne_Item :: "string \<Rightarrow> (string \<times> bool) option"
  ne_Paths :: "string \<Rightarrow> string list option"
  ne_WithPaths :: "string \<Rightarrow> string list \<Rightarrow> error + string"
  ne_MediaType :: "string \<Rightarrow> string option"
  ne_Form :: "string \<Rightarrow> (string \<times> string list) list option"
  ne_JSON :: "string \<Rightarrow> jsonBody"
  ne_Tokens :: "string \<Rightarrow> string list"
  ne_Devices :: "string \<Rightarrow> string list"

section \<open>Identifiers\<close>

definition validEmbyDeletionID :: "string \<Rightarrow> bool" where
  "validEmbyDeletionID i \<longleftrightarrow> i \<noteq> '''' \<and> length i \<le> 128 \<and> list_all (\<lambda>c. alnum c \<or> c = CHR ''-'') i"

fun check_ids :: "string list \<Rightarrow> string list \<Rightarrow> apiError option" where
  "check_ids seen [] = None"
| "check_ids seen (i # ids) =
     (if \<not> validEmbyDeletionID i then Some (HTTPError 400 ''invalid Emby deletion item ID'')
      else if i \<in> set seen then Some (HTTPError 400 ''duplicate Emby deletion item ID'')
      else check_ids (i # seen) ids)"

definition embyDeletionIDs :: "string list \<Rightarrow> apiError + string list" where
  "embyDeletionIDs ids =
     (if ids = [] \<or> length ids > 100
      then Inl (HTTPError 400 ''deletion requires 1 to 100 unique Emby item IDs'')
      else case check_ids [] ids of Some e \<Rightarrow> Inl e | None \<Rightarrow> Inr ids)"

text \<open>The identifiers in a body; none for an empty body or an empty object.\<close>

definition json_ids :: "jsonBody \<Rightarrow> apiError + string list option" where
  "json_ids body =
     (case body of
        NotObject \<Rightarrow> Inl (HTTPError 400 ''deletion JSON must be an object containing Ids'')
      | JObject first another extra \<Rightarrow>
          (case (case first of
               None \<Rightarrow> Inr None
             | Some (key, v) \<Rightarrow>
                 if \<not> EqualFold key ''Ids'' then Inl (HTTPError 400 ''deletion JSON supports only Ids'')
                 else (case v of
                     IdsInvalid \<Rightarrow> Inl (HTTPError 400 ''invalid deletion JSON'')
                   | IdsOther \<Rightarrow> Inl (HTTPError 400 ''Ids must be a comma-separated string or string array'')
                   | IdsText s \<Rightarrow> map_sum id Some (embyDeletionIDs (split_on (CHR '','') s))
                   | IdsList ids \<Rightarrow> map_sum id Some (embyDeletionIDs ids))) of
             Inl e \<Rightarrow> Inl e
           | Inr ids \<Rightarrow>
               if another then Inl (HTTPError 400 ''duplicate or unsupported deletion JSON field'')
               else if extra then Inl (HTTPError 400 ''unexpected data after deletion JSON'')
               else Inr ids))"

definition embyDeletionBodyIDs :: "'o nativeEmby \<Rightarrow> string \<Rightarrow> string \<Rightarrow> apiError + string list option" where
  "embyDeletionBodyIDs native body contentType =
     (if TrimSpace body = '''' then Inr None
      else case ne_MediaType native contentType of
        None \<Rightarrow> Inl (HTTPError 400 ''deletion body requires a supported Content-Type'')
      | Some kind \<Rightarrow>
          if kind = ''application/x-www-form-urlencoded''
          then (case ne_Form native body of
              Some [(key, [v])] \<Rightarrow>
                if EqualFold key ''Ids'' then map_sum id Some (embyDeletionIDs (split_on (CHR '','') v))
                else Inl (HTTPError 400 ''deletion form must contain only one Ids field'')
            | _ \<Rightarrow> Inl (HTTPError 400 ''deletion form must contain only one Ids field''))
          else if kind \<noteq> ''application/json''
          then Inl (HTTPError 415 ''deletion body must be JSON or form data'')
          else json_ids (ne_JSON native body))"

definition sameEmbyDeletionIDs :: "string list \<Rightarrow> string list \<Rightarrow> bool" where
  "sameEmbyDeletionIDs left right \<longleftrightarrow> length left = length right \<and> list_all (\<lambda>i. i \<in> set right) left"

section \<open>The request\<close>

record parseState =
  ps_seen :: "string list"
  ps_queryIDs :: "string list option"
  ps_credential :: string
  ps_deviceID :: string
  ps_authQuery :: "(string \<times> string list) list"
  ps_headers :: "(string \<times> string) list"

definition acceptCredential :: "string \<Rightarrow> parseState \<Rightarrow> apiError + parseState" where
  "acceptCredential value st =
     (if TrimSpace value = '''' \<or> (ps_credential st \<noteq> '''' \<and> ps_credential st \<noteq> value)
      then Inl (HTTPError 401 ''missing or conflicting Emby user credentials'')
      else Inr (st\<lparr>ps_credential := value\<rparr>))"

definition acceptDevice :: "string \<Rightarrow> parseState \<Rightarrow> apiError + parseState" where
  "acceptDevice value st =
     (if TrimSpace value = '''' \<or> length value > 1024 \<or> (ps_deviceID st \<noteq> '''' \<and> ps_deviceID st \<noteq> value)
      then Inl (HTTPError 401 ''missing or conflicting Emby session device ID'')
      else Inr (st\<lparr>ps_deviceID := value\<rparr>))"

definition keep_query :: "string \<Rightarrow> string list \<Rightarrow> parseState \<Rightarrow> parseState" where
  "keep_query key values st = st\<lparr>ps_authQuery := AList.update key values (ps_authQuery st)\<rparr>"

definition query_parameter :: "string \<Rightarrow> string \<Rightarrow> string \<Rightarrow> parseState \<Rightarrow> apiError + parseState" where
  "query_parameter key lower value st =
     (if lower = ''ids''
      then map_sum id (\<lambda>ids. st\<lparr>ps_queryIDs := Some ids\<rparr>) (embyDeletionIDs (split_on (CHR '','') value))
      else if lower = ''api_key'' \<or> lower = ''x-emby-token''
      then map_sum id (keep_query key [value]) (acceptCredential value st)
      else if lower = ''deviceid'' then map_sum id (keep_query ''DeviceId'' [value]) (acceptDevice value st)
      else if lower = ''x-emby-device-id''
      then map_sum id (keep_query ''X-Emby-Device-Id'' [value]) (acceptDevice value st)
      else if lower \<in> {''x-emby-client'', ''x-emby-device-name'', ''x-emby-client-version'', ''x-emby-language''}
      then if length value > 1024 then Inl (HTTPError 400 ''Emby client metadata exceeds 1024 bytes'')
        else Inr (keep_query key [value] st)
      else Inl (HTTPError 400 ''unsupported Emby deletion query parameter''))"

text \<open>The parameters in the order the map is ranged over.\<close>

fun parse_query ::
  "(string \<Rightarrow> string) \<Rightarrow> (string \<times> string list) list \<Rightarrow> parseState \<Rightarrow> apiError + parseState" where
  "parse_query ToLower [] st = Inr st"
| "parse_query ToLower ((key, values) # rest) st =
     (let lower = ToLower key in
      if lower \<in> set (ps_seen st) then Inl (HTTPError 400 ''duplicate Emby deletion query parameter'')
      else case values of
        [value] \<Rightarrow>
          (case query_parameter key lower value (st\<lparr>ps_seen := lower # ps_seen st\<rparr>) of
             Inl e \<Rightarrow> Inl e | Inr st' \<Rightarrow> parse_query ToLower rest st')
      | _ \<Rightarrow> Inl (HTTPError 400 ''duplicate Emby deletion query parameter''))"

text \<open>\<open>strings.Cut(value, " ")\<close>.\<close>

definition cut_space :: "string \<Rightarrow> string \<times> string" where
  "cut_space value = (takeWhile (\<lambda>c. c \<noteq> CHR '' '') value, drop 1 (dropWhile (\<lambda>c. c \<noteq> CHR '' '') value))"

text \<open>An Emby authorization header: its device is looked at even when its token was refused.\<close>

definition emby_authorization :: "'o nativeEmby \<Rightarrow> string \<Rightarrow> parseState \<Rightarrow> apiError + parseState" where
  "emby_authorization native value st =
     (let tokens = ne_Tokens native value; devices = ne_Devices native value in
      if length tokens > 1 then Inl (HTTPError 401 ''duplicate Emby authorization token'')
      else let accepted = (case tokens of [token] \<Rightarrow> acceptCredential token st | _ \<Rightarrow> Inr st) in
        if length devices > 1 then Inl (HTTPError 401 ''duplicate Emby session device ID'')
        else case devices of
          [device] \<Rightarrow>
            (case acceptDevice device (case accepted of Inl _ \<Rightarrow> st | Inr st' \<Rightarrow> st') of
               Inl e \<Rightarrow> Inl e
             | Inr st'' \<Rightarrow> (case accepted of Inl e \<Rightarrow> Inl e | Inr _ \<Rightarrow> Inr st''))
        | _ \<Rightarrow> accepted)"

definition header_value :: "'o nativeEmby \<Rightarrow> string \<Rightarrow> string \<Rightarrow> parseState \<Rightarrow> apiError + parseState" where
  "header_value native key value st =
     (if key = ''Authorization'' \<or> key = ''X-Emby-Authorization''
      then case cut_space value of (scheme, remainder) \<Rightarrow>
        if EqualFold scheme ''Bearer'' then acceptCredential remainder st
        else if EqualFold scheme ''Emby'' \<or> EqualFold scheme ''MediaBrowser''
        then emby_authorization native value st
        else Inl (HTTPError 401 ''unsupported Emby authorization scheme'')
      else if key = ''X-Emby-Device-Id'' then acceptDevice value st
      else acceptCredential value st)"

fun parse_headers ::
  "'o nativeEmby \<Rightarrow> (string \<Rightarrow> string list) \<Rightarrow> string list \<Rightarrow> parseState \<Rightarrow> apiError + parseState" where
  "parse_headers native header [] st = Inr st"
| "parse_headers native header (key # keys) st =
     (case header key of
        [] \<Rightarrow> parse_headers native header keys st
      | [value] \<Rightarrow>
          (case header_value native key value st of
             Inl e \<Rightarrow> Inl e
           | Inr st' \<Rightarrow> parse_headers native header keys (st'\<lparr>ps_headers := ps_headers st' @ [(key, value)]\<rparr>))
      | _ \<Rightarrow> Inl (HTTPError 401 ''duplicate Emby credential header''))"

definition credential_headers :: "string list" where
  "credential_headers =
     [''X-Emby-Token'', ''X-MediaBrowser-Token'', ''Authorization'', ''X-Emby-Authorization'', ''X-Emby-Device-Id'']"

definition embyDeletionPrefix :: string where
  "embyDeletionPrefix = ''/internal/emby-delete''"

text \<open>The path below the prefix, without \<open>/emby\<close> and a trailing slash.\<close>

definition deletion_path :: "string \<Rightarrow> string option" where
  "deletion_path p =
     (if \<not> prefix embyDeletionPrefix p then None
      else let path = drop (length embyDeletionPrefix) p;
             path' = (if prefix ''/emby/'' path then drop (length ''/emby'') path else path) in
        Some (if path' \<noteq> '''' \<and> last path' = slash then butlast path' else path'))"

text \<open>The items an endpoint names in its path, and whether it only asks for confirmation.\<close>

definition endpoint :: "string \<Rightarrow> string \<Rightarrow> (string list option \<times> bool) option" where
  "endpoint verb path =
     (let parts = split_slash (if prefix ''/'' path then drop 1 path else path) in
      case parts of
        [a, b, c] \<Rightarrow>
          if verb = ''GET'' \<and> a = ''Items'' \<and> c = ''DeleteInfo'' then Some (Some [b], True)
          else if verb = ''POST'' \<and> a = ''Items'' \<and> c = ''Delete'' then Some (Some [b], False)
          else None
      | [a, b] \<Rightarrow>
          if verb = ''DELETE'' \<and> a = ''Items'' \<and> b \<noteq> ''Delete'' then Some (Some [b], False)
          else if verb = ''POST'' \<and> path = ''/Items/Delete'' then Some (None, False)
          else None
      | _ \<Rightarrow> if verb = ''DELETE'' \<and> path = ''/Items'' then Some (None, False) else None)"

fun merge_ids :: "string list option \<Rightarrow> string list option list \<Rightarrow> apiError + string list option" where
  "merge_ids ids [] = Inr ids"
| "merge_ids ids (None # rest) = merge_ids ids rest"
| "merge_ids None (Some new # rest) = merge_ids (Some new) rest"
| "merge_ids (Some ids) (Some new # rest) =
     (if \<not> sameEmbyDeletionIDs ids new
      then Inl (HTTPError 400 ''Emby deletion path, query and body must identify the same items'')
      else merge_ids (Some ids) rest)"

text \<open>The body and the identifiers, once the credentials are known.\<close>

definition parse_body ::
  "'o nativeEmby \<Rightarrow> httpRequest \<Rightarrow> string \<Rightarrow> string list option \<Rightarrow> bool \<Rightarrow> parseState \<Rightarrow>
   apiError + deletionRequest" where
  "parse_body native request path ids confirmation st =
     (case rq_Body request of
        Inl _ \<Rightarrow> Inl (HTTPError 400 ''cannot read Emby deletion body'')
      | Inr body \<Rightarrow>
          if length body > 65536 then Inl (HTTPError 413 ''Emby deletion body exceeds 64 KiB'')
          else if confirmation \<and> body \<noteq> '''' then Inl (HTTPError 400 ''DeleteInfo does not accept a request body'')
          else case embyDeletionBodyIDs native body (rq_ContentType request) of
            Inl e \<Rightarrow> Inl e
          | Inr bodyIDs \<Rightarrow>
              (case merge_ids ids [ps_queryIDs st, bodyIDs] of
                 Inl e \<Rightarrow> Inl e
               | Inr merged \<Rightarrow>
                   (case embyDeletionIDs (case merged of None \<Rightarrow> [] | Some is \<Rightarrow> is) of
                      Inl e \<Rightarrow> Inl e
                    | Inr final \<Rightarrow> Inr \<lparr>dr_path = path, dr_ids = final, dr_confirmation = confirmation,
                        dr_query = (case rq_Query request of Inr q \<Rightarrow> q | Inl _ \<Rightarrow> []),
                        dr_authQuery = ps_authQuery st, dr_headers = ps_headers st, dr_body = body,
                        dr_credential = ps_credential st, dr_deviceID = ps_deviceID st\<rparr>)))"

definition parseEmbyDeletion ::
  "'o nativeEmby \<Rightarrow> (string \<Rightarrow> string) \<Rightarrow> httpRequest \<Rightarrow> apiError + deletionRequest" where
  "parseEmbyDeletion native ToLower request =
     (case deletion_path (rq_Path request) of
        None \<Rightarrow> Inl (HTTPError 404 ''unsupported Emby deletion endpoint'')
      | Some path \<Rightarrow>
          (case endpoint (rq_Method request) path of
             None \<Rightarrow> Inl (HTTPError 404 ''unsupported Emby deletion endpoint'')
           | Some (ids, confirmation) \<Rightarrow>
               (case rq_Query request of
                  Inl _ \<Rightarrow> Inl (HTTPError 400 ''invalid Emby deletion query'')
                | Inr query \<Rightarrow>
                    (case parse_query ToLower query \<lparr>ps_seen = [], ps_queryIDs = None, ps_credential = '''',
                            ps_deviceID = '''', ps_authQuery = [], ps_headers = []\<rparr> of
                       Inl e \<Rightarrow> Inl e
                     | Inr st1 \<Rightarrow>
                         (case parse_headers native (rq_Header request) credential_headers st1 of
                            Inl e \<Rightarrow> Inl e
                          | Inr st \<Rightarrow>
                              if ps_credential st = ''''
                              then Inl (HTTPError 401 ''an authenticated Emby user token is required'')
                              else if ps_deviceID st = ''''
                              then Inl (HTTPError 401 ''an authenticated Emby session device ID is required'')
                              else parse_body native request path ids confirmation st)))))"

section \<open>Calls to Emby\<close>

definition native_call ::
  "'o nativeEmby \<Rightarrow> deletionRequest \<Rightarrow> string \<Rightarrow> string \<Rightarrow> (string \<times> string list) list \<Rightarrow> string \<Rightarrow> string \<Rightarrow>
   ('o service, response option \<times> apiError option) dbm" where
  "native_call native targ verb path query body contentType =
     db_bind (db_try (on_out (ne_Call native targ verb path query body contentType))) (\<lambda>r.
     case r of
       Inr (Received status kind content) \<Rightarrow>
         db_bind (note_call (Native verb path (Some (status, content)))) (\<lambda>_.
         case content of
           Some data \<Rightarrow> db_ret (Some \<lparr>rs_Status = status, rs_ContentType = kind, rs_Body = data\<rparr>, None)
         | None \<Rightarrow>
             if \<not> successful_status status
             then db_ret (Some \<lparr>rs_Status = status, rs_ContentType = ''application/json'',
                 rs_Body = ''{'' @ quoted ''error'' @ '':'' @
                   quoted ''native Emby rejected the request; its response body could not be read'' @ ''}''\<rparr>, None)
             else db_ret (Some \<lparr>rs_Status = status, rs_ContentType = kind, rs_Body = ''''\<rparr>,
               Some (HTTPError 502 ''cannot read the native Emby response; inspect Emby before retrying a deletion'')))
     | _ \<Rightarrow>
         db_bind (note_call (Native verb path None)) (\<lambda>_.
         db_ret (None, Some (HTTPError 502 ''native Emby request failed; inspect Emby before retrying a deletion''))))"

definition answered :: "response option \<Rightarrow> bool" where
  "answered r = (case r of Some resp \<Rightarrow> successful_status (rs_Status resp) | None \<Rightarrow> False)"

definition body_of :: "response option \<Rightarrow> string" where
  "body_of r = (case r of Some resp \<Rightarrow> rs_Body resp | None \<Rightarrow> '''')"

text \<open>A setting with the configuration as fallback.\<close>

definition setting_or_config :: "string \<Rightarrow> ('o service, string) dbm" where
  "setting_or_config key =
     db_bind (setting key) (\<lambda>stored.
     if stored \<noteq> '''' then db_ret stored
     else db_bind (db_try (on_db (GetConfig key))) (\<lambda>r. db_ret (case r of Inr v \<Rightarrow> v | Inl _ \<Rightarrow> '''')))"

definition embyDeletionURL :: "'o nativeEmby \<Rightarrow> ('o service, apiError option) dbm" where
  "embyDeletionURL native =
     db_bind (setting_or_config ''emby_url'') (\<lambda>raw.
     db_ret (if ne_URL native (TrimSpace raw) then None
       else Some (HTTPError 503 ''configure a valid Emby server URL without credentials, query or fragment'')))"

text \<open>The application keys of one page; None when the credential is none of them.\<close>

fun check_keys :: "string \<Rightarrow> string list \<Rightarrow> apiError option" where
  "check_keys credential [] = None"
| "check_keys credential (key # keys) =
     (if key = '''' then Some (HTTPError 502 ''native Emby application key identity is missing'')
      else if key = credential
      then Some (HTTPError 403 ''application API keys cannot authorize user-confirmed Emby deletion'')
      else check_keys credential keys)"

text \<open>All pages of the application keys; None when the credential is none of them.\<close>

function check_key_pages ::
  "'o nativeEmby \<Rightarrow> deletionRequest \<Rightarrow> nat \<Rightarrow> ('o service, (response option \<times> apiError option) option) dbm" where
  "check_key_pages native targ offset =
     (if offset \<ge> 10000
      then db_ret (Some (None, Some (HTTPError 502 ''cannot completely inspect native Emby application keys'')))
      else db_bind (native_call native targ ''GET'' ''/Auth/Keys''
               [(''StartIndex'', [show_nat offset]), (''Limit'', [''100''])] '''' '''') (\<lambda>(resp, err).
        if err \<noteq> None \<or> \<not> answered resp then db_ret (Some (resp, err))
        else case ne_Keys native (body_of resp) of
          None \<Rightarrow> db_ret (Some (None, Some (HTTPError 502 ''cannot inspect native Emby application keys'')))
        | Some keys \<Rightarrow>
            case check_keys (dr_credential targ) keys of
              Some e \<Rightarrow> db_ret (Some (None, Some e))
            | None \<Rightarrow> if length keys < 100 then db_ret None else check_key_pages native targ (offset + 100)))"
  by pat_completeness auto
termination
  by (relation "measure (\<lambda>(native, targ, offset). 10000 - offset)") auto

declare check_key_pages.simps [simp del]

definition session_user :: "'o nativeEmby \<Rightarrow> deletionRequest \<Rightarrow> string \<Rightarrow> string option" where
  "session_user native targ body =
     (case ne_Sessions native body of
        Some [(sid, user, device)] \<Rightarrow>
          if validEmbyDeletionID sid \<and> validEmbyDeletionID user \<and> user \<noteq> ''0'' \<and> device = dr_deviceID targ
          then Some user else None
      | _ \<Rightarrow> None)"

definition enabled_administrator :: "'o nativeEmby \<Rightarrow> string \<Rightarrow> string \<Rightarrow> bool" where
  "enabled_administrator native userID body =
     (case ne_User native body of
        Some (uid, administrator, disabled) \<Rightarrow> uid = userID \<and> administrator \<and> disabled = Some False
      | None \<Rightarrow> False)"

text \<open>The user of the session must be an enabled administrator.\<close>

definition authorize_user ::
  "'o nativeEmby \<Rightarrow> deletionRequest \<Rightarrow> string \<Rightarrow> ('o service, string \<times> response option \<times> apiError option) dbm" where
  "authorize_user native targ userID =
     db_bind (native_call native targ ''GET'' (''/Users/'' @ userID) [] '''' '''') (\<lambda>(resp, err).
     if err \<noteq> None \<or> \<not> answered resp then db_ret ('''', resp, err)
     else if \<not> enabled_administrator native userID (body_of resp)
     then db_ret ('''', None, Some (HTTPError 403 ''Emby deletion requires an enabled Emby administrator''))
     else db_ret (userID, resp, None))"

definition authorize_session ::
  "'o nativeEmby \<Rightarrow> deletionRequest \<Rightarrow> ('o service, string \<times> response option \<times> apiError option) dbm" where
  "authorize_session native targ =
     db_bind (native_call native targ ''GET'' ''/Sessions'' [(''DeviceId'', [dr_deviceID targ])] '''' '''') (\<lambda>(resp, err).
     if err \<noteq> None \<or> \<not> answered resp then db_ret ('''', resp, err)
     else case session_user native targ (body_of resp) of
       None \<Rightarrow> db_ret ('''', None, Some (HTTPError 403
         ''Emby deletion requires one authenticated native user session for this device''))
     | Some userID \<Rightarrow> authorize_user native targ userID)"

definition authorizeEmbyDeletion ::
  "'o nativeEmby \<Rightarrow> deletionRequest \<Rightarrow> ('o service, string \<times> response option \<times> apiError option) dbm" where
  "authorizeEmbyDeletion native targ =
     db_bind (setting_or_config ''emby_api_key'') (\<lambda>storedKey.
     if storedKey \<noteq> '''' \<and> dr_credential targ = storedKey
     then db_ret ('''', None, Some (HTTPError 403 ''application API keys cannot authorize user-confirmed Emby deletion''))
     else db_bind (check_key_pages native targ 0) (\<lambda>refused.
       case refused of
         Some (resp, err) \<Rightarrow> db_ret ('''', resp, err)
       | None \<Rightarrow> authorize_session native targ))"

section \<open>The handler\<close>

text \<open>The variables the closures share; \<open>hv_failure\<close> is the text before it is redacted for the audit.\<close>

record handlerVars =
  hv_stage :: string
  hv_userID :: string
  hv_failure :: string
  hv_target :: "deletionRequest option"
  hv_plan :: "EmbyDeletionPlan option"
  hv_native :: "response option"
  hv_paths :: "string list"
  hv_nativeDeleted :: bool

text \<open>A step either returns from the closure (with its error, if any) or goes on with a value.\<close>

type_synonym ('o, 'a) step = "handlerVars \<Rightarrow> ('o service, handlerVars \<times> (apiError option + 'a)) dbm"

definition st_go :: "'a \<Rightarrow> ('o, 'a) step" where
  "st_go x = (\<lambda>v. db_ret (v, Inr x))"

definition st_return :: "apiError option \<Rightarrow> ('o, 'a) step" where
  "st_return e = (\<lambda>v. db_ret (v, Inl e))"

definition st_bind :: "('o, 'a) step \<Rightarrow> ('a \<Rightarrow> ('o, 'b) step) \<Rightarrow> ('o, 'b) step" where
  "st_bind m k = (\<lambda>v. db_bind (m v) (\<lambda>(v', r). case r of Inl e \<Rightarrow> db_ret (v', Inl e) | Inr x \<Rightarrow> k x v'))"

definition st_set :: "(handlerVars \<Rightarrow> handlerVars) \<Rightarrow> ('o, unit) step" where
  "st_set f = (\<lambda>v. db_ret (f v, Inr ()))"

definition st_get :: "(handlerVars \<Rightarrow> 'a) \<Rightarrow> ('o, 'a) step" where
  "st_get f = (\<lambda>v. db_ret (v, Inr (f v)))"

definition st_run :: "('o service, 'a) dbm \<Rightarrow> ('o, error + 'a) step" where
  "st_run m = (\<lambda>v. db_bind (db_try m) (\<lambda>r. db_ret (v, Inr r)))"

text \<open>\<open>native, err = target.call(...)\<close>, returning unless the call succeeded.\<close>

definition st_call ::
  "'o nativeEmby \<Rightarrow> deletionRequest \<Rightarrow> string \<Rightarrow> string \<Rightarrow> (string \<times> string list) list \<Rightarrow> ('o, string) step" where
  "st_call native targ verb path query = (\<lambda>v.
     db_bind (native_call native targ verb path query '''' '''') (\<lambda>(resp, err).
     let v' = v\<lparr>hv_native := resp\<rparr> in
     if err \<noteq> None \<or> \<not> answered resp then st_return err v' else st_go (body_of resp) v'))"

definition st_stage :: "string \<Rightarrow> ('o, unit) step" where
  "st_stage name = st_set (\<lambda>v. v\<lparr>hv_stage := name\<rparr>)"

definition item_info :: "'o nativeEmby \<Rightarrow> deletionRequest \<Rightarrow> string \<Rightarrow> ('o, unit) step" where
  "item_info native targ i =
     st_bind (st_stage ''native-preflight'') (\<lambda>_.
     st_bind (st_call native targ ''GET'' (''/Items/'' @ i @ ''/DeleteInfo'') []) (\<lambda>body.
     case ne_Paths native body of
       None \<Rightarrow> st_return (Some (HTTPError 409 ''Emby returned no usable deletion paths; no media was deleted''))
     | Some found \<Rightarrow>
         if found = []
         then st_return (Some (HTTPError 409 ''Emby returned no usable deletion paths; no media was deleted''))
         else st_set (\<lambda>v. v\<lparr>hv_paths := hv_paths v @ found\<rparr>)))"

definition item_paths :: "'o nativeEmby \<Rightarrow> deletionRequest \<Rightarrow> string \<Rightarrow> ('o, unit) step" where
  "item_paths native targ i =
     st_bind (st_stage ''item-authorization'') (\<lambda>_.
     st_bind (st_get hv_userID) (\<lambda>userID.
     st_bind (st_call native targ ''GET'' (''/Users/'' @ userID @ ''/Items/'' @ i) [(''Fields'', [''CanDelete''])]) (\<lambda>body.
     if ne_Item native body \<noteq> Some (i, True)
     then st_return (Some (HTTPError 403 ''Emby does not allow this user to delete every requested item''))
     else item_info native targ i)))"

fun all_item_paths :: "'o nativeEmby \<Rightarrow> deletionRequest \<Rightarrow> string list \<Rightarrow> ('o, unit) step" where
  "all_item_paths native targ [] = st_go ()"
| "all_item_paths native targ (i # ids) =
     st_bind (item_paths native targ i) (\<lambda>_. all_item_paths native targ ids)"

text \<open>The answer to a request for confirmation: the paths of Emby and the original sources.\<close>

definition confirm_deletion :: "'o nativeEmby \<Rightarrow> EmbyDeletionPlan \<Rightarrow> ('o, unit) step" where
  "confirm_deletion native plan = (\<lambda>v.
     let paths = fold (\<lambda>p ps. if p \<in> set ps then ps else ps @ [p]) (plan_SourcePaths plan) (hv_paths v);
         v' = v\<lparr>hv_paths := paths, hv_stage := ''confirmation''\<rparr> in
     case (hv_native v, ne_WithPaths native (body_of (hv_native v)) paths) of
       (Some resp, Inr body) \<Rightarrow>
         st_return None (v'\<lparr>hv_native := Some (resp\<lparr>rs_ContentType := ''application/json'', rs_Body := body\<rparr>)\<rparr>)
     | (_, Inl e) \<Rightarrow> st_return (Some (OtherError e)) v'
     | (None, _) \<Rightarrow> st_return None v')"

definition native_deletion ::
  "'o nativeEmby \<Rightarrow> deletionRequest \<Rightarrow> httpRequest \<Rightarrow> ('o, apiError option) step" where
  "native_deletion native targ request = (\<lambda>v.
     db_bind (native_call native targ (rq_Method request) (dr_path targ) (dr_query targ) (dr_body targ)
                (rq_ContentType request)) (\<lambda>(resp, err).
     let v' = v\<lparr>hv_stage := ''native-deletion'', hv_native := resp\<rparr> in
     if \<not> answered resp then st_return err v'
     else st_go err (v'\<lparr>hv_nativeDeleted := True, hv_stage := ''source-recycling''\<rparr>)))"

definition recycle_sources :: "nat \<Rightarrow> 'o drive115 \<Rightarrow> apiError option \<Rightarrow> ('o, unit) step" where
  "recycle_sources self net err =
     st_bind (st_get hv_plan) (\<lambda>plan.
     st_bind (st_run (RecycleEmbyDeletionCtx self net plan)) (\<lambda>r.
     case r of
       Inr (plan', None) \<Rightarrow>
         st_bind (st_set (\<lambda>v. v\<lparr>hv_plan := plan', hv_stage := ''completed''\<rparr>)) (\<lambda>_.
         if err \<noteq> None
         then st_return (Some (HTTPError 502
           ''Emby deleted the requested items and original 115 recycling completed, but the native response body could not be read. Do not repeat the deletion.''))
         else st_return None)
     | Inr (plan', Some e) \<Rightarrow>
         st_bind (st_set (\<lambda>v. v\<lparr>hv_plan := plan', hv_failure := err_text e\<rparr>)) (\<lambda>_.
         st_return (Some (HTTPError 502 (''Emby deleted the requested items, but recycling original 115 videos failed or is incomplete. '' @
           ''No rollback was performed; inspect the deletion audit and 115 before taking further action.''))))
     | Inl e \<Rightarrow> st_return (Some (OtherError e))))"

definition prepare_deletion ::
  "nat \<Rightarrow> 'o hostfs \<Rightarrow> 'o drive115 \<Rightarrow> 'o emby \<Rightarrow> (string \<Rightarrow> string) \<Rightarrow> ('o, EmbyDeletionPlan) step" where
  "prepare_deletion self fs net emby ToLower =
     st_bind (st_stage ''source-preflight'') (\<lambda>_.
     st_bind (st_get hv_paths) (\<lambda>paths.
     st_bind (st_run (PrepareEmbyDeletionCtx self fs net emby ToLower paths)) (\<lambda>r.
     case r of
       Inl e \<Rightarrow>
         st_bind (st_set (\<lambda>v. v\<lparr>hv_failure := err_text e\<rparr>)) (\<lambda>_.
         st_return (Some (HTTPError 409
           ''cannot safely resolve all original 115 videos for these paths; no media was deleted'')))
     | Inr plan \<Rightarrow> st_bind (st_set (\<lambda>v. v\<lparr>hv_plan := Some plan\<rparr>)) (\<lambda>_. st_go plan))))"

text \<open>The steps of the closure that runs under the media mutex, and the closure.\<close>

definition authorize_step :: "'o nativeEmby \<Rightarrow> deletionRequest \<Rightarrow> ('o, unit) step" where
  "authorize_step native targ =
     st_bind (st_stage ''authorization'') (\<lambda>_ v.
     db_bind (authorizeEmbyDeletion native targ) (\<lambda>(userID, resp, err).
     let v' = v\<lparr>hv_userID := userID, hv_native := resp\<rparr> in
     if err \<noteq> None \<or> \<not> answered resp then st_return err v' else st_go () v'))"

definition confirm_or_delete ::
  "nat \<Rightarrow> 'o drive115 \<Rightarrow> 'o nativeEmby \<Rightarrow> httpRequest \<Rightarrow> deletionRequest \<Rightarrow> EmbyDeletionPlan \<Rightarrow> ('o, unit) step" where
  "confirm_or_delete self net native request targ plan =
     (if dr_confirmation targ then confirm_deletion native plan
      else st_bind (native_deletion native targ request) (recycle_sources self net))"

definition deletion_steps ::
  "nat \<Rightarrow> 'o hostfs \<Rightarrow> 'o drive115 \<Rightarrow> 'o emby \<Rightarrow> 'o nativeEmby \<Rightarrow> (string \<Rightarrow> string) \<Rightarrow> httpRequest \<Rightarrow>
   deletionRequest \<Rightarrow> ('o, unit) step" where
  "deletion_steps self fs net emby native ToLower request targ =
     st_bind (authorize_step native targ) (\<lambda>_.
     st_bind (all_item_paths native targ (dr_ids targ)) (\<lambda>_.
     st_bind (prepare_deletion self fs net emby ToLower)
       (confirm_or_delete self net native request targ)))"

datatype httpReply = ErrorReply int string | NativeReply response

definition reply_status :: "httpReply \<Rightarrow> int" where
  "reply_status r = (case r of ErrorReply code _ \<Rightarrow> code | NativeReply resp \<Rightarrow> rs_Status resp)"

definition api_text :: "apiError \<Rightarrow> string" where
  "api_text e = (case e of HTTPError code message \<Rightarrow> ''code='' @ show_int code @ '', message='' @ message
                 | OtherError e' \<Rightarrow> err_text e')"

definition fail_reply :: "apiError \<Rightarrow> handlerVars \<Rightarrow> handlerVars \<times> httpReply" where
  "fail_reply e v =
     (v\<lparr>hv_failure := (if hv_failure v = '''' then api_text e else hv_failure v)\<rparr>,
      case e of HTTPError code message \<Rightarrow> ErrorReply code message
      | OtherError _ \<Rightarrow> ErrorReply 500 ''Emby deletion failed'')"

definition closure_reply :: "handlerVars \<times> (apiError option + unit) \<Rightarrow> handlerVars \<times> httpReply" where
  "closure_reply r =
     (case r of
        (v, Inl (Some e)) \<Rightarrow> fail_reply e v
      | (v, _) \<Rightarrow> (v, NativeReply (case hv_native v of Some resp \<Rightarrow> resp
                     | None \<Rightarrow> \<lparr>rs_Status = 0, rs_ContentType = '''', rs_Body = ''''\<rparr>)))"

definition handle_request ::
  "nat \<Rightarrow> 'o hostfs \<Rightarrow> 'o drive115 \<Rightarrow> 'o emby \<Rightarrow> 'o nativeEmby \<Rightarrow> (string \<Rightarrow> string) \<Rightarrow> bool \<Rightarrow> httpRequest \<Rightarrow>
   ('o service, handlerVars \<times> httpReply) dbm" where
  "handle_request self fs net emby native ToLower hasQueue request =
     (let v = \<lparr>hv_stage = ''request'', hv_userID = '''', hv_failure = '''', hv_target = None, hv_plan = None,
               hv_native = None, hv_paths = [], hv_nativeDeleted = False\<rparr> in
      case parseEmbyDeletion native ToLower request of
        Inl e \<Rightarrow> db_ret (fail_reply e v)
      | Inr targ \<Rightarrow>
          let v' = v\<lparr>hv_target := Some targ\<rparr> in
          db_bind (embyDeletionURL native) (\<lambda>invalid.
          case invalid of
            Some e \<Rightarrow> db_ret (fail_reply e v')
          | None \<Rightarrow>
              if \<not> hasQueue
              then db_ret (fail_reply (HTTPError 503 ''Emby source deletion is unavailable'') v')
              else db_bind (db_try (TryMediaMutation
                     (deletion_steps self fs net emby native ToLower request targ v'))) (\<lambda>r.
                case r of
                  Inl e \<Rightarrow> db_ret (fail_reply (if errors_is e ErrMediaMutationBusy
                      then HTTPError 409 (err_text ErrMediaMutationBusy) else OtherError e) v')
                | Inr res \<Rightarrow> db_ret (closure_reply res))))"

definition audit_outcome :: "int \<Rightarrow> string" where
  "audit_outcome status =
     (if successful_status status then ''success''
      else if status = 401 \<or> status = 403 then ''denied'' else ''error'')"

text \<open>The handler with its deferred audit record; \<open>texts\<close> are the redacted summaries of what happened.\<close>

definition handleEmbyDeletion ::
  "nat \<Rightarrow> 'o hostfs \<Rightarrow> 'o drive115 \<Rightarrow> 'o emby \<Rightarrow> 'o nativeEmby \<Rightarrow> (string \<Rightarrow> string) \<Rightarrow> bool \<Rightarrow>
   (handlerVars \<Rightarrow> int \<Rightarrow> string \<times> string) \<Rightarrow> httpRequest \<Rightarrow> ('o service, httpReply) dbm" where
  "handleEmbyDeletion self fs net emby native ToLower hasQueue texts request =
     db_bind time_Now (\<lambda>started.
     db_bind (handle_request self fs net emby native ToLower hasQueue request) (\<lambda>(v, reply).
     db_bind time_Now (\<lambda>ended.
     db_bind time_Now (\<lambda>created.
     db_bind (logged (at_now (AddAuditLog
         \<lparr>log_ID = 0, log_Caller = ''emby-user'', log_TokenID = '''', log_AgentName = '''',
          log_Action = rq_Method request @ '' emby-delete'', log_Target = ''Emby media deletion'',
          log_Input = fst (texts v (reply_status reply)), log_Output = snd (texts v (reply_status reply)),
          log_Status = audit_outcome (reply_status reply), log_LatencyMS = (ended - started) div 1000000,
          log_IP = rq_RealIP request, log_CreatedAt = created\<rparr>))) (\<lambda>_.
     db_ret reply)))))"

end
