(* ===== verification/EmbyRecycle.thy ===== *)
theory EmbyRecycle
  imports EmbyDeletion
begin

text \<open>
  What \<open>embyDeletionInventory\<close> and \<open>RecycleEmbyDeletionCtx\<close> do to the drive, as the record of their calls:
  an inventory is a series of pages that together hold the whole directory, and the run over a plan goes
  through its targets in order, deletes a target only after it was found again with its planned identity,
  and calls it recycled only when the directory no longer lists it.
\<close>

section \<open>Traces of calls\<close>

text \<open>\<open>listed cid files tr\<close>: the calls \<open>tr\<close> are pages of one directory that together hold exactly \<open>files\<close>.\<close>

fun listed_from :: "string \<Rightarrow> int \<Rightarrow> DriveFile list \<Rightarrow> call list \<Rightarrow> bool" where
  "listed_from cid offset files (Page c o' page count # tr) \<longleftrightarrow>
     c = cid \<and> o' = offset \<and> take (length page) files = page \<and>
     (if offset + int (length page) = count then tr = [] \<and> length files = length page
      else listed_from cid (offset + int (length page)) (drop (length page) files) tr)"
| "listed_from cid offset files _ \<longleftrightarrow> False"

definition listed :: "string \<Rightarrow> DriveFile list \<Rightarrow> call list \<Rightarrow> bool" where
  "listed cid files tr \<longleftrightarrow> listed_from cid 0 files tr"

fun is_page :: "call \<Rightarrow> bool" where
  "is_page (Page _ _ _ _) = True"
| "is_page _ = False"

text \<open>The objects of a complete inventory: valid, in the directory, no two with one identifier or one name.\<close>

definition sound_inventory :: "string \<Rightarrow> DriveFile list \<Rightarrow> bool" where
  "sound_inventory cid files \<longleftrightarrow>
     distinct (map file_FileID files) \<and> distinct (map file_Name files) \<and>
     (\<forall>f \<in> set files. admitted cid f \<and> file_FileID f \<noteq> ''<nil>'' \<and> CHR 0x5C \<notin> set (file_Name f))"

lemma sound_inventory_snoc:
  "\<not> ambiguous cid files f \<Longrightarrow> sound_inventory cid files \<Longrightarrow> sound_inventory cid (files @ [f])"
  unfolding sound_inventory_def ambiguous_def admitted_def invalid_name_def ContainsAny_def
  by (simp add: image_iff) blast

lemma add_page_sound:
  "add_page cid files page = Inr files' \<Longrightarrow> sound_inventory cid files \<Longrightarrow>
   files' = files @ page \<and> sound_inventory cid files'"
proof (induction page arbitrary: files)
  case (Cons f page)
  then have f: "\<not> ambiguous cid files f" "add_page cid (files @ [f]) page = Inr files'"
    by (auto split: if_splits)
  from Cons.IH [OF f(2) sound_inventory_snoc [OF f(1) Cons.prems(2)]] show ?case by auto
qed simp

text \<open>The postconditions of an inventory: the calls from state \<open>s\<close> on, and their result.\<close>

definition inventory_read :: "string \<Rightarrow> int \<Rightarrow> DriveFile list \<Rightarrow> 'o service \<Rightarrow> DriveFile list \<Rightarrow> 'o service \<Rightarrow> bool" where
  "inventory_read cid offset files s files' s' \<longleftrightarrow>
     (\<exists>new tr. files' = files @ new \<and> sv_calls s' = sv_calls s @ tr \<and> listed_from cid offset new tr \<and>
        list_all is_page tr \<and> sound_inventory cid files')"

definition pages_read :: "'o service \<Rightarrow> 'o service \<Rightarrow> bool" where
  "pages_read s s' \<longleftrightarrow> (\<exists>tr. sv_calls s' = sv_calls s @ tr \<and> list_all is_page tr)"

lemma inventory_read_more:
  assumes "sv_calls s1 = sv_calls s @ [Page cid offset page count]" "offset + int (length page) \<noteq> count"
    "inventory_read cid (offset + int (length page)) (files @ page) s1 files' s'"
  shows "inventory_read cid offset files s files' s'"
proof -
  from assms(3) obtain new tr where "files' = files @ page @ new" "sv_calls s' = sv_calls s1 @ tr"
    "listed_from cid (offset + int (length page)) new tr" "list_all is_page tr" "sound_inventory cid files'"
    by (auto simp: inventory_read_def)
  with assms(1,2) show ?thesis unfolding inventory_read_def
    by (intro exI [of _ "page @ new"] exI [of _ "Page cid offset page count # tr"]) auto
qed

lemma inventory_read_last:
  assumes "sv_calls s' = sv_calls s @ [Page cid offset page count]" "offset + int (length page) = count"
    "sound_inventory cid (files @ page)"
  shows "inventory_read cid offset files s (files @ page) s'"
  using assms unfolding inventory_read_def
  by (intro exI [of _ page] exI [of _ "[Page cid offset page count]"]) simp

lemma pages_read_more:
  "sv_calls s1 = sv_calls s @ [Page cid offset page count] \<Longrightarrow> pages_read s1 s' \<Longrightarrow> pages_read s s'"
  by (auto simp: pages_read_def)

lemma inventory_from_calls:
  "cid \<noteq> '''' \<Longrightarrow> 0 \<le> offset \<Longrightarrow> sound_inventory cid files \<Longrightarrow>
   db_wp (inventory_from net account_id cid offset expected files) (inventory_read cid offset files s)
     (\<lambda>_. pages_read s) s"
proof (induction net account_id cid offset expected files arbitrary: s rule: inventory_from.induct)
  case (1 net account_id cid offset expected files s)
  show ?case
    unfolding inventory_from.simps [of net account_id cid offset] ListFilesPageCtx_def
  proof (rule db_wp_bind, rule db_wp_conseq [OF listFiles_calls [OF 1(2,3)]])
    fix e and s' :: "'a service" assume "sv_calls s' = sv_calls s"
    then show "pages_read s s'" by (simp add: pages_read_def)
  next
    fix r and s1 :: "'a service" assume "returned_page cid offset s r s1"
    moreover obtain page count where r: "r = (page, count)" by (cases r)
    ultimately have s1: "sv_calls s1 = sv_calls s @ [Page cid offset page count]"
      by (simp add: returned_page_def)
    have failed: "pages_read s s1" using s1 by (auto simp: pages_read_def)
    show "db_wp (case r of (page, count) \<Rightarrow>
      if count < 0 \<or> (expected \<ge> 0 \<and> count \<noteq> expected) \<or> count < offset + int (length page) \<or>
         (page = [] \<and> offset < count)
      then db_fail (Errorf ''incomplete or changing 115 directory inventory for CID %s'' [cid])
      else case add_page cid files page of
        Inl e \<Rightarrow> db_fail e
      | Inr files' \<Rightarrow>
          if offset + int (length page) = count then db_ret files'
          else inventory_from net account_id cid (offset + int (length page)) count files')
      (inventory_read cid offset files s) (\<lambda>_. pages_read s) s1"
      unfolding r prod.case
    proof (intro db_wp_if db_wp_case_sum db_wp_fail db_wp_ret failed)
      fix files' assume "add_page cid files page = Inr files'" "offset + int (length page) = count"
      with add_page_sound [OF this(1) 1(4)] s1 show "inventory_read cid offset files s files' s1"
        using inventory_read_last by metis
    next
      fix files' assume ok: "\<not> (count < 0 \<or> (expected \<ge> 0 \<and> count \<noteq> expected) \<or> count < offset + int (length page) \<or>
          (page = [] \<and> offset < count))"
        and add: "add_page cid files page = Inr files'" and more: "offset + int (length page) \<noteq> count"
      note files' = add_page_sound [OF add 1(4)]
      show "db_wp (inventory_from net account_id cid (offset + int (length page)) count files')
          (inventory_read cid offset files s) (\<lambda>_. pages_read s) s1"
        by (rule db_wp_conseq [OF 1(1) [OF ok add more 1(2)]])
          (use files' 1(3) more inventory_read_more [OF s1 more] pages_read_more [OF s1] in auto)
    qed
  qed
qed

lemma embyDeletionInventory_calls:
  assumes "cid \<noteq> ''''"
  shows "db_wp (embyDeletionInventory net account_id cid)
     (\<lambda>files s'. \<exists>tr. sv_calls s' = sv_calls s @ tr \<and> listed cid files tr \<and> list_all is_page tr \<and> sound_inventory cid files)
     (\<lambda>_. pages_read s) s"
  unfolding embyDeletionInventory_def
  by (rule db_wp_conseq [OF inventory_from_calls])
    (use assms in \<open>auto simp: inventory_read_def listed_def sound_inventory_def\<close>)

text \<open>
  What recycling one target does to the drive. It reads the whole directory; when the planned identifier is
  there with the planned identity, it deletes this one object, and reads the directory again.
\<close>

definition revalidated :: "embyDeletionTarget \<Rightarrow> call list \<Rightarrow> bool" where
  "revalidated t tr \<longleftrightarrow>
     (\<exists>files f. listed (file_ParentID (dtg_file t)) files tr \<and> f \<in> set files \<and>
        file_FileID f = file_FileID (dtg_file t) \<and> same_object f (dtg_file t))"

definition seen_absent :: "embyDeletionTarget \<Rightarrow> call list \<Rightarrow> bool" where
  "seen_absent t tr \<longleftrightarrow>
     (\<exists>files. listed (file_ParentID (dtg_file t)) files tr \<and>
        file_FileID (dtg_file t) \<notin> file_FileID ` set files)"

lemma seen_absentI:
  "listed (file_ParentID (dtg_file t)) files tr \<Longrightarrow>
   (\<And>f. f \<in> set files \<Longrightarrow> file_FileID f \<noteq> file_FileID (dtg_file t)) \<Longrightarrow> seen_absent t tr"
  unfolding seen_absent_def by (intro exI [of _ files]) force

definition recycle_call :: "embyDeletionTarget \<Rightarrow> call" where
  "recycle_call t = Recycle [TrimSpace (file_FileID (dtg_file t))]"

fun target_trace :: "embyDeletionTarget \<Rightarrow> outcome \<Rightarrow> call list \<Rightarrow> bool" where
  "target_trace t RecycledNow tr \<longleftrightarrow>
     (\<exists>before after. tr = before @ recycle_call t # after \<and> revalidated t before \<and> seen_absent t after)"
| "target_trace t AbsentBefore tr \<longleftrightarrow> dtg_native t \<and> seen_absent t tr"

definition failed_trace :: "embyDeletionTarget \<Rightarrow> call list \<Rightarrow> bool" where
  "failed_trace t tr \<longleftrightarrow>
     list_all is_page tr \<or>
     (\<exists>before after. tr = before @ recycle_call t # after \<and> revalidated t before \<and> list_all is_page after)"

lemma wrapped_inventory_calls:
  assumes "cid \<noteq> ''''" "sv_calls s' = sv_calls s @ c"
    and "\<And>files s'' tr. sv_calls s'' = sv_calls s @ c @ tr \<Longrightarrow> listed cid files tr \<Longrightarrow> list_all is_page tr \<Longrightarrow>
        db_wp (k files) Q E s''"
    and "\<And>e s'' tr. sv_calls s'' = sv_calls s @ c @ tr \<Longrightarrow> list_all is_page tr \<Longrightarrow> E e s''"
  shows "db_wp (db_bind (db_wrap w (embyDeletionInventory net account_id cid)) k) Q E s'"
  by (rule db_wp_bind, rule db_wp_wrap, rule db_wp_conseq [OF embyDeletionInventory_calls [OF assms(1)]])
    (use assms(2-) in \<open>auto simp: pages_read_def\<close>)

definition recycled_so_far :: "embyDeletionTarget \<Rightarrow> 'o service \<Rightarrow> outcome \<Rightarrow> 'o service \<Rightarrow> bool" where
  "recycled_so_far t s r s' \<longleftrightarrow> (\<exists>tr. sv_calls s' = sv_calls s @ tr \<and> target_trace t r tr)"

definition failed_so_far :: "embyDeletionTarget \<Rightarrow> 'o service \<Rightarrow> 'o service \<Rightarrow> bool" where
  "failed_so_far t s s' \<longleftrightarrow> (\<exists>tr. sv_calls s' = sv_calls s @ tr \<and> failed_trace t tr)"

lemma failed_reading: "sv_calls s' = sv_calls s @ tr \<Longrightarrow> list_all is_page tr \<Longrightarrow> failed_so_far t s s'"
  by (auto simp: failed_so_far_def failed_trace_def)

lemma failed_deleted:
  "sv_calls s' = sv_calls s @ (before @ [recycle_call t]) @ after \<Longrightarrow> revalidated t before \<Longrightarrow>
   list_all is_page after \<Longrightarrow> failed_so_far t s s'"
  by (auto simp: failed_so_far_def failed_trace_def)

lemma recycled_deleted:
  "sv_calls s' = sv_calls s @ (before @ [recycle_call t]) @ after \<Longrightarrow> revalidated t before \<Longrightarrow>
   seen_absent t after \<Longrightarrow> recycled_so_far t s RecycledNow s'"
  unfolding recycled_so_far_def by (intro exI [of _ "before @ recycle_call t # after"]) auto

lemma delete_verified_calls:
  assumes ids: "file_ParentID (dtg_file t) \<noteq> ''''"
    and s': "sv_calls s' = sv_calls s @ before" "revalidated t before" "list_all is_page before"
  shows "db_wp (delete_verified net account_id t) (recycled_so_far t s) (\<lambda>_. failed_so_far t s) s'"
  unfolding delete_verified_def Let_def
proof (rule db_wp_bind, rule db_wp_wrap, rule db_wp_conseq [OF DeleteCtx_calls])
  fix s1 :: "'a service"
  assume "sv_calls s1 = sv_calls s' \<or> sv_calls s1 = sv_calls s' @ [Recycle [TrimSpace (file_FileID (dtg_file t))]]"
  with s' show "failed_so_far t s s1"
    using failed_reading [of s1 s before t] failed_deleted [of s1 s before t "[]"]
    by (auto simp: recycle_call_def)
next
  fix s1 :: "'a service"
  assume "sv_calls s1 = sv_calls s' @ [Recycle [TrimSpace (file_FileID (dtg_file t))]]"
  then have s1: "sv_calls s1 = sv_calls s @ (before @ [recycle_call t])"
    using s'(1) by (simp add: recycle_call_def)
  have gone: "recycled_so_far t s RecycledNow s2"
    if "sv_calls s2 = sv_calls s @ (before @ [recycle_call t]) @ tr" "listed (file_ParentID (dtg_file t)) files tr"
      "\<not> list_ex (\<lambda>f. file_FileID f = file_FileID (dtg_file t)) files" for s2 tr files
    using recycled_deleted [OF that(1) s'(2) seen_absentI [OF that(2)]] that(3) by (auto simp: list_ex_iff)
  show "db_wp (db_bind (db_wrap (Wrapf ''verify recycled source ID %s: %w'' [file_FileID (dtg_file t)])
                 (embyDeletionInventory net account_id (file_ParentID (dtg_file t)))) (\<lambda>remaining.
      if list_ex (\<lambda>f. file_FileID f = file_FileID (dtg_file t)) remaining
      then db_fail (Errorf ''115 still lists source ID %s after recycling'' [file_FileID (dtg_file t)])
      else db_ret RecycledNow)) (recycled_so_far t s) (\<lambda>_. failed_so_far t s) s1"
    by (intro wrapped_inventory_calls [OF ids s1] db_wp_if db_wp_fail db_wp_ret)
      (use s'(2) in \<open>auto intro: failed_deleted gone\<close>)
qed

lemma recycle_target_calls:
  assumes ids: "file_ParentID (dtg_file t) \<noteq> ''''"
  shows "db_wp (recycle_target net account_id t) (recycled_so_far t s) (\<lambda>_. failed_so_far t s) s"
  unfolding recycle_target_def Let_def
proof (rule quiet_step [OF ctx_Err_quiet])
  fix e and s' :: "'a service" assume "sv_calls s' = sv_calls s"
  then show "failed_so_far t s s'" using failed_reading [of s' s "[]"] by simp
next
  fix c and s0 :: "'a service" assume "sv_calls s0 = sv_calls s"
  then have s0: "sv_calls s0 = sv_calls s @ []" by simp
  have absent: "recycled_so_far t s AbsentBefore s1"
    if "sv_calls s1 = sv_calls s @ [] @ tr" "listed (file_ParentID (dtg_file t)) files tr"
      "sql_find (\<lambda>f. file_FileID f = file_FileID (dtg_file t)) files = None" "\<not> \<not> dtg_native t" for s1 tr files
    using that by (auto simp: recycled_so_far_def sql_find_None intro: seen_absentI)
  have found: "revalidated t tr"
    if "listed (file_ParentID (dtg_file t)) files tr" "\<not> \<not> same_object current (dtg_file t)"
      "sql_find (\<lambda>f. file_FileID f = file_FileID (dtg_file t)) files = Some current" for tr files current
    using that by (auto simp: revalidated_def dest!: sql_find_Some)
  show "db_wp (case c of Some e \<Rightarrow> db_fail e
      | None \<Rightarrow>
          db_bind (db_wrap (Wrapf ''revalidate source %s (file ID %s): %w'' [dtg_path t, file_FileID (dtg_file t)])
                     (embyDeletionInventory net account_id (file_ParentID (dtg_file t)))) (\<lambda>files.
          case sql_find (\<lambda>f. file_FileID f = file_FileID (dtg_file t)) files of
            None \<Rightarrow>
              if \<not> dtg_native t
              then db_fail (Errorf ''preflighted source ID %s disappeared before recycling %s'' [file_FileID (dtg_file t), dtg_path t])
              else db_ret AbsentBefore
          | Some current \<Rightarrow>
              if \<not> same_object current (dtg_file t)
              then db_fail (Errorf ''source identity changed for %s (file ID %s)'' [dtg_path t, file_FileID (dtg_file t)])
              else delete_verified net account_id t)) (recycled_so_far t s) (\<lambda>_. failed_so_far t s) s0"
    by (intro db_wp_case_option db_wp_fail wrapped_inventory_calls [OF ids s0] db_wp_if db_wp_ret
        delete_verified_calls [OF ids])
      (use s0 absent found in \<open>auto intro: failed_reading\<close>)
qed

text \<open>The run over a plan: a trace for each target recycled, in the order of the plan, and that of the failure.\<close>

fun plan_trace :: "embyDeletionTarget list \<Rightarrow> outcome list \<Rightarrow> bool \<Rightarrow> call list \<Rightarrow> bool" where
  "plan_trace [] [] finished tr \<longleftrightarrow> finished \<and> tr = []"
| "plan_trace [] (r # rs) finished tr \<longleftrightarrow> False"
| "plan_trace (t # ts) [] finished tr \<longleftrightarrow> \<not> finished \<and> failed_trace t tr"
| "plan_trace (t # ts) (r # rs) finished tr \<longleftrightarrow>
     (\<exists>tr1 tr2. tr = tr1 @ tr2 \<and> target_trace t r tr1 \<and> plan_trace ts rs finished tr2)"

fun mark_sources :: "nat \<Rightarrow> outcome list \<Rightarrow> EmbyDeletionSource list \<Rightarrow> EmbyDeletionSource list" where
  "mark_sources index [] sources = sources"
| "mark_sources index (r # rs) sources =
     mark_sources (Suc index) rs (sources[index := mark_source r (sources ! index)])"

lemma recycle_targets_calls:
  assumes "\<forall>t \<in> set targets. file_ParentID (dtg_file t) \<noteq> ''''"
  shows "db_wp (recycle_targets net account_id index targets sources)
     (\<lambda>(sources', err) s'. \<exists>outcomes tr. sv_calls s' = sv_calls s @ tr \<and>
        plan_trace targets outcomes (err = None) tr \<and> sources' = mark_sources index outcomes sources)
     (\<lambda>_ _. False) s"
  using assms
proof (induction targets arbitrary: index sources s)
  case Nil
  show ?case by (auto intro!: db_wp_ret exI [of _ "[]"] )
next
  case (Cons t ts index sources s)
  then have ids: "file_ParentID (dtg_file t) \<noteq> ''''" by auto
  show ?case
    unfolding recycle_targets.simps
  proof (rule db_wp_bind, rule db_wp_try, rule db_wp_conseq [OF recycle_target_calls [OF ids]], goal_cases)
    case (1 r s1)
    then obtain tr where s1: "sv_calls s1 = sv_calls s @ tr" "target_trace t r tr"
      by (auto simp: recycled_so_far_def)
    have ts: "\<forall>t \<in> set ts. file_ParentID (dtg_file t) \<noteq> ''''"
      using Cons.prems by simp
    show ?case
      unfolding sum.case
    proof (rule db_wp_conseq [OF Cons.IH [OF ts]], goal_cases)
      case (1 res s2)
      then obtain sources' err outcomes tr' where "res = (sources', err)" "sv_calls s2 = sv_calls s1 @ tr'"
        "plan_trace ts outcomes (err = None) tr'"
        "sources' = mark_sources (Suc index) outcomes (sources[index := mark_source r (sources ! index)])"
        by auto
      moreover from this(3) s1(2) have "plan_trace (t # ts) (r # outcomes) (err = None) (tr @ tr')" by auto
      ultimately show ?case using s1(1)
        by (simp del: plan_trace.simps) (metis mark_sources.simps(2))
    qed simp
  next
    case (2 e s1)
    then obtain tr where "sv_calls s1 = sv_calls s @ tr" "failed_trace t tr" by (auto simp: failed_so_far_def)
    then show ?case
      by (simp, intro db_wp_ret) (auto intro!: exI [of _ "[]"] exI [of _ tr])
  qed
qed

section \<open>A run over a plan\<close>

lemma listed_pages: "listed cid files tr \<Longrightarrow> list_all is_page tr"
proof -
  have "listed_from cid offset files tr \<Longrightarrow> list_all is_page tr" for offset
    by (induction cid offset files tr rule: listed_from.induct) (auto split: if_splits)
  then show "listed cid files tr \<Longrightarrow> list_all is_page tr" by (simp add: listed_def)
qed

abbreviation deletions :: "call list \<Rightarrow> call list" where
  "deletions tr \<equiv> filter (\<lambda>c. \<not> is_page c) tr"

lemma pages_delete_nothing: "list_all is_page tr \<Longrightarrow> deletions tr = []"
  by (simp add: filter_empty_conv list_all_iff)

lemma revalidated_pages: "revalidated t tr \<Longrightarrow> deletions tr = []"
  unfolding revalidated_def by (auto intro: pages_delete_nothing dest: listed_pages)

lemma seen_absent_pages: "seen_absent t tr \<Longrightarrow> deletions tr = []"
  unfolding seen_absent_def by (auto intro: pages_delete_nothing dest: listed_pages)

lemmas read_pages = revalidated_pages seen_absent_pages

lemma recycle_call_page [simp]: "\<not> is_page (recycle_call t)"
  by (simp add: recycle_call_def)

lemma target_deletions: "target_trace t r tr \<Longrightarrow> deletions tr = (if r = RecycledNow then [recycle_call t] else [])"
  by (cases r) (auto simp: read_pages)

lemma failed_deletions: "failed_trace t tr \<Longrightarrow> subseq (deletions tr) [recycle_call t]"
  by (auto simp: failed_trace_def read_pages pages_delete_nothing)

lemma plan_deletions: "plan_trace targets outcomes finished tr \<Longrightarrow> subseq (deletions tr) (map recycle_call targets)"
proof (induction targets outcomes finished tr rule: plan_trace.induct)
  case (3 t ts finished tr)
  then have "subseq (deletions tr @ []) ([recycle_call t] @ map recycle_call ts)"
    by (intro list_emb_append_mono) (simp_all add: failed_deletions)
  then show ?case by simp
next
  case (4 t ts r rs finished tr)
  then obtain tr1 tr2 where "tr = tr1 @ tr2" "target_trace t r tr1" "plan_trace ts rs finished tr2" by auto
  with 4 show ?case by (auto simp: target_deletions)
qed auto

lemma recycled_plan:
  assumes run: "RecycleEmbyDeletionCtx self net (Some plan) flt s = (r, flt', s')"
    and parents: "\<forall>t \<in> set (plan_targets plan). file_ParentID (dtg_file t) \<noteq> ''''"
  shows "if plan_owner plan \<noteq> self \<or> plan_attempted plan \<or> plan_targets plan = []
    then s' = s \<and> (\<exists>e. r = Inr (Some plan, Some e))
    else \<exists>outcomes err tr. r = Inr (Some (plan\<lparr>plan_attempted := True,
             plan_Sources := mark_sources 0 outcomes (plan_Sources plan)\<rparr>), err) \<and>
           sv_calls s' = sv_calls s @ tr \<and> plan_trace (plan_targets plan) outcomes (err = None) tr \<and>
           subseq (deletions tr) (map recycle_call (plan_targets plan))"
proof (cases "plan_owner plan \<noteq> self \<or> plan_attempted plan \<or> plan_targets plan = []")
  case True
  with run show ?thesis by (auto simp: RecycleEmbyDeletionCtx_def db_ret_def)
next
  case False
  let ?run = "recycle_targets net (plan_accountID plan) 0 (plan_targets plan) (plan_Sources plan)"
  obtain x flt1 s1 where x: "?run flt s = (x, flt1, s1)" by (cases "?run flt s")
  note wp = db_wpD [OF recycle_targets_calls [OF parents]]
  from wp(2) x obtain sources err where "x = Inr (sources, err)" by (cases x) fastforce+
  moreover from wp(1) [OF x [unfolded this]] obtain outcomes tr where "sv_calls s1 = sv_calls s @ tr"
    "plan_trace (plan_targets plan) outcomes (err = None) tr" "sources = mark_sources 0 outcomes (plan_Sources plan)"
    by auto
  moreover from run x False have "r = Inr (Some (plan\<lparr>plan_attempted := True, plan_Sources := sources\<rparr>), err)" "s' = s1"
    using calculation(1) by (auto simp: RecycleEmbyDeletionCtx_def db_bind_def db_ret_def)
  ultimately show ?thesis using False plan_deletions by auto
qed

text \<open>C5. A run over a plan that another service made, that was attempted before or that has no target is refused
and does nothing. Otherwise the plan is marked as attempted, and the run takes the targets in order: it reads the
target's whole directory, stops unless the planned identifier is still there with its planned name, directory, size
and SHA-1 (a native target may be gone already), deletes exactly this object, and counts it as recycled only when a
second complete listing lacks it. Success means that all targets went through this; the objects deleted are planned
ones, each at most once.\<close>

theorem recycling_follows_plan:
  assumes run: "RecycleEmbyDeletionCtx self net (Some plan) flt s = (r, flt', s')"
    and parents: "\<forall>t \<in> set (plan_targets plan). file_ParentID (dtg_file t) \<noteq> ''''"
  shows "if plan_owner plan \<noteq> self \<or> plan_attempted plan \<or> plan_targets plan = []
    then s' = s \<and> (\<exists>e. r = Inr (Some plan, Some e))
    else \<exists>outcomes err tr. r = Inr (Some (plan\<lparr>plan_attempted := True,
             plan_Sources := mark_sources 0 outcomes (plan_Sources plan)\<rparr>), err) \<and>
           sv_calls s' = sv_calls s @ tr \<and> plan_trace (plan_targets plan) outcomes (err = None) tr \<and>
           subseq (deletions tr) (map recycle_call (plan_targets plan))"
  using recycled_plan [OF run parents] .

definition example_video :: DriveFile where
  "example_video = \<lparr>file_FileID = ''7'', file_ParentID = ''5'', file_Name = ''e1.mkv'', file_Size = 9, file_PickCode = ''p'',
     file_Sha1 = ''ab'', file_Revision = '''', file_IsFolder = False, file_UpdatedTime = 0\<rparr>"

text \<open>A drive whose directory 5 holds the video until it is deleted.\<close>

definition example_page :: "bool \<Rightarrow> filesAnswer" where
  "example_page present = \<lparr>an_State = True, an_Error = '''', an_Count = Some (if present then 1 else 0),
     an_Data = Some (if present then [\<lparr>it_Fid = JStr ''7'', it_Cid = JStr ''5'', it_Pid = JNull, it_Name = ''e1.mkv'',
       it_Size = JNum ''9'', it_Pc = ''p'', it_Sha1 = ''AB'', it_T = '''', it_Te = ''''\<rparr>] else [])\<rparr>"

definition example_drive :: "bool drive115" where
  "example_drive = \<lparr>
     d_Files = (\<lambda>_ _ _ _ _. db_get (\<lambda>present. \<lparr>rep_Status = 200, rep_Body = (if present then ''1'' else ''0'')\<rparr>)),
     d_Post = (\<lambda>_ _ _. db_bind (db_upd (\<lambda>_. False)) (\<lambda>_. db_ret \<lparr>rep_Status = 200, rep_Body = ''ok''\<rparr>)),
     d_FilesJSON = (\<lambda>body. Inr (example_page (body = ''1''), False)),
     d_ActionJSON = (\<lambda>_. Inr \<lparr>ac_State = True, ac_Cid = JNull, ac_Error = ''''\<rparr>)\<rparr>"

definition example_plan :: EmbyDeletionPlan where
  "example_plan = finished_plan 1 ''a'' [\<lparr>dtg_file = example_video, dtg_path = ''/m/e1.mkv'', dtg_native = False\<rparr>]"

definition example_drive_service :: "bool service" where
  "example_drive_service = \<lparr>sv_db = empty_db\<lparr>drive_accounts := [example_account ''a'' True]\<rparr>, sv_out = True,
     sv_clock = int, sv_uuids = (\<lambda>_. ''u''), sv_mediaMu = True, sv_running = [], sv_cancelled = [], sv_worker = True,
     sv_stopped = False, sv_submitted = [], sv_calls = [], sv_upload = ('''', '''', '''')\<rparr>"

theorem recycling_follows_plan_witness:
  "\<exists>s'. RecycleEmbyDeletionCtx 1 example_drive (Some example_plan) [] example_drive_service =
      (Inr (Some (example_plan\<lparr>plan_attempted := True,
         plan_Sources := map (src_Recycled_update (\<lambda>_. True)) (plan_Sources example_plan)\<rparr>), None), [], s') \<and>
     (\<exists>outcomes. plan_trace (plan_targets example_plan) outcomes True (sv_calls s')) \<and>
     deletions (sv_calls s') = [Recycle [''7'']]"
proof -
  let ?run = "RecycleEmbyDeletionCtx 1 example_drive (Some example_plan) [] example_drive_service"
  obtain r fs' s' where run: "?run = (r, fs', s')" by (cases ?run)
  have "fst ?run = Inr (Some (example_plan\<lparr>plan_attempted := True,
         plan_Sources := map (src_Recycled_update (\<lambda>_. True)) (plan_Sources example_plan)\<rparr>), None)" by code_simp
  moreover have "fst (snd ?run) = []" by code_simp
  moreover have "deletions (sv_calls (snd (snd ?run))) = [Recycle [''7'']]" by code_simp
  moreover have "sv_calls example_drive_service = []" "plan_owner example_plan = 1 \<and> \<not> plan_attempted example_plan \<and>
      plan_targets example_plan \<noteq> [] \<and> (\<forall>t \<in> set (plan_targets example_plan). file_ParentID (dtg_file t) \<noteq> '''')"
    by code_simp+
  ultimately show ?thesis
    using recycling_follows_plan [OF run] run by auto
qed

end
