(* ===== verification/EmbyPlan.thy ===== *)
theory EmbyPlan
  imports EmbyRecycle
begin

text \<open>
  What \<open>PrepareEmbyDeletionCtx\<close> guarantees of the plan it returns: a preparation makes no call but directory
  pages, and every target is the object its path leads to through complete listings. The invariant of the
  preflight (\<open>pf_ok\<close>) is kept by every step of the walk.
\<close>

section \<open>What a preparation reads\<close>

text \<open>\<open>since c s tr\<close>: from the record \<open>c\<close> on, the calls \<open>tr\<close> were made, all of them pages.\<close>

definition since :: "call list \<Rightarrow> 'o service \<Rightarrow> call list \<Rightarrow> bool" where
  "since c s tr \<longleftrightarrow> sv_calls s = c @ tr \<and> list_all is_page tr"

definition only_read :: "call list \<Rightarrow> 'o service \<Rightarrow> bool" where
  "only_read c s \<longleftrightarrow> (\<exists>tr. since c s tr)"

text \<open>Among the calls is a complete listing of the directory.\<close>

definition read_in :: "call list \<Rightarrow> string \<Rightarrow> DriveFile list \<Rightarrow> bool" where
  "read_in tr cid files \<longleftrightarrow> (\<exists>a ps b. tr = a @ ps @ b \<and> listed cid files ps) \<and> sound_inventory cid files"

text \<open>The object that names lead to from a directory, through listings that were read.\<close>

fun leads_to :: "call list \<Rightarrow> string \<Rightarrow> string list \<Rightarrow> DriveFile \<Rightarrow> bool" where
  "leads_to tr cid [] f \<longleftrightarrow> False"
| "leads_to tr cid (p # ps) f \<longleftrightarrow>
     (\<exists>files g. read_in tr cid files \<and> g \<in> set files \<and> file_Name g = p \<and>
        (if ps = [] then g = f \<and> \<not> file_IsFolder f
         else file_IsFolder g \<and> leads_to tr (file_FileID g) ps f))"

lemma read_in_append: "read_in tr cid files \<Longrightarrow> read_in (tr @ tr') cid files"
  unfolding read_in_def by (metis append.assoc)

lemma leads_to_append: "leads_to tr cid ps f \<Longrightarrow> leads_to (tr @ tr') cid ps f"
  by (induction ps arbitrary: cid) (auto split: if_splits intro: read_in_append)

definition cache_read :: "call list \<Rightarrow> inventories \<Rightarrow> bool" where
  "cache_read tr cache \<longleftrightarrow> (\<forall>(cid, files) \<in> set cache. read_in tr cid files)"

lemma cache_read_append: "cache_read tr cache \<Longrightarrow> cache_read (tr @ tr') cache"
  by (auto simp: cache_read_def intro: read_in_append)

lemma since_step: "since c s tr \<Longrightarrow> sv_calls s' = sv_calls s @ tr' \<Longrightarrow> list_all is_page tr' \<Longrightarrow> since c s' (tr @ tr')"
  by (simp add: since_def)

lemma since_quiet: "since c s tr \<Longrightarrow> sv_calls s' = sv_calls s \<Longrightarrow> since c s' tr"
  by (simp add: since_def)

lemma since_only_read: "since c s tr \<Longrightarrow> only_read c s"
  by (auto simp: only_read_def)

lemma only_read_more: "since c s tr \<Longrightarrow> pages_read s s' \<Longrightarrow> only_read c s'"
  by (auto simp: pages_read_def only_read_def dest: since_step)

lemma cached_inventory_reads:
  assumes c: "since c s tr" "cache_read tr cache" "cid \<noteq> ''''"
  shows "db_wp (cached_inventory net account_id cid cache)
     (\<lambda>(files, cache') s'. \<exists>tr'. since c s' (tr @ tr') \<and> cache_read (tr @ tr') cache' \<and> read_in (tr @ tr') cid files)
     (\<lambda>_. only_read c) s"
proof (cases "map_of cache cid")
  case (Some files)
  then have "read_in tr cid files" using c(2) by (auto simp: cache_read_def dest: map_of_SomeD)
  then show ?thesis
    using c Some by (auto simp: cached_inventory_def intro!: db_wp_ret exI [of _ "[]"])
next
  case None
  have "db_wp (db_bind (embyDeletionInventory net account_id cid) (\<lambda>files. db_ret (files, (cid, files) # cache)))
     (\<lambda>(files, cache') s'. \<exists>tr'. since c s' (tr @ tr') \<and> cache_read (tr @ tr') cache' \<and> read_in (tr @ tr') cid files)
     (\<lambda>_. only_read c) s"
  proof (rule db_wp_bind, rule db_wp_conseq [OF embyDeletionInventory_calls [OF c(3)]], goal_cases)
    case (1 files s')
    then obtain tr' where tr': "sv_calls s' = sv_calls s @ tr'" "listed cid files tr'" "list_all is_page tr'"
      "sound_inventory cid files" by blast
    then have "read_in (tr @ tr') cid files" unfolding read_in_def by (metis append_Nil2)
    with c tr' since_step [OF c(1) tr'(1,3)] show ?case
      by (intro db_wp_ret) (auto simp: cache_read_def intro!: exI [of _ tr'] dest: read_in_append)
  qed (rule only_read_more [OF c(1)])
  with None show ?thesis by (simp add: cached_inventory_def)
qed

lemma read_in_id: "read_in tr cid files \<Longrightarrow> f \<in> set files \<Longrightarrow> admitted cid f"
  by (auto simp: read_in_def sound_inventory_def)

definition resolved_since ::
  "call list \<Rightarrow> call list \<Rightarrow> string \<Rightarrow> string list \<Rightarrow> DriveFile \<times> inventories \<Rightarrow> 'o service \<Rightarrow> bool" where
  "resolved_since c tr cid parts r s' \<longleftrightarrow>
     (\<exists>tr'. since c s' (tr @ tr') \<and> cache_read (tr @ tr') (snd r) \<and> leads_to (tr @ tr') cid parts (fst r))"

lemma resolve_parts_reads:
  "since c s tr \<Longrightarrow> cache_read tr cache \<Longrightarrow> cid \<noteq> '''' \<Longrightarrow>
   db_wp (resolve_parts net account_id cid parts cache) (resolved_since c tr cid parts) (\<lambda>_. only_read c) s"
proof (induction parts arbitrary: cid cache s tr)
  case Nil
  then show ?case by (auto intro: db_wp_fail since_only_read)
next
  case (Cons part parts cid cache s tr)
  show ?case
    unfolding resolve_parts.simps
  proof (rule db_wp_bind, rule db_wp_conseq [OF cached_inventory_reads [OF Cons.prems]], goal_cases)
    case (1 r s1)
    then obtain files cache1 tr1 where r: "r = (files, cache1)" and s1: "since c s1 (tr @ tr1)"
      "cache_read (tr @ tr1) cache1" "read_in (tr @ tr1) cid files" by auto
    have found: "match \<in> set files" "file_Name match = part" "file_FileID match \<noteq> ''''"
      if "sql_find (\<lambda>f. file_Name f = part) files = Some match" for match
      using sql_find_Some [OF that] read_in_id [OF s1(3)] by (auto simp: admitted_def)
    have last: "resolved_since c tr cid (part # parts) (match, cache1) s1"
      if "sql_find (\<lambda>f. file_Name f = part) files = Some match" "file_IsFolder match \<noteq> (parts = [])" "parts = []" for match
      using that s1 found [OF that(1)] by (auto simp: resolved_since_def)
    have inner: "resolved_since c tr cid (part # parts) res s2"
      if m: "sql_find (\<lambda>f. file_Name f = part) files = Some match" "file_IsFolder match \<noteq> (parts = [])" "parts \<noteq> []"
        and res: "resolved_since c (tr @ tr1) (file_FileID match) parts res s2" for match res and s2 :: "'a service"
    proof -
      from res obtain tr2 where "since c s2 ((tr @ tr1) @ tr2)" "cache_read ((tr @ tr1) @ tr2) (snd res)"
        "leads_to ((tr @ tr1) @ tr2) (file_FileID match) parts (fst res)" by (auto simp: resolved_since_def)
      with m found [OF m(1)] read_in_append [OF s1(3), of tr2] show ?thesis unfolding resolved_since_def
        by (intro exI [of _ "tr1 @ tr2"]) auto
    qed
    show ?case
      unfolding r prod.case
    proof (intro db_wp_case_option db_wp_if db_wp_fail db_wp_ret, goal_cases)
      case (4 match)
      then show ?case
        by (intro db_wp_conseq [OF Cons.IH [OF s1(1,2) found(3)]]) (auto intro: inner)
    qed (use s1 last in \<open>auto intro: since_only_read\<close>)
  qed
qed

lemma leads_to_admitted:
  "leads_to tr cid ps f \<Longrightarrow> cid \<noteq> '''' \<Longrightarrow> \<not> file_IsFolder f \<and> (\<exists>parent. parent \<noteq> '''' \<and> admitted parent f)"
proof (induction ps arbitrary: cid)
  case (Cons p ps)
  then obtain files g where g: "read_in tr cid files" "g \<in> set files"
    "if ps = [] then g = f \<and> \<not> file_IsFolder f else file_IsFolder g \<and> leads_to tr (file_FileID g) ps f" by auto
  have adm: "admitted cid g" using read_in_id [OF g(1,2)] .
  show ?case
  proof (cases "ps = []")
    case True
    with g adm Cons.prems(2) show ?thesis by auto
  next
    case False
    moreover have "file_FileID g \<noteq> ''''" using adm by (simp add: admitted_def)
    ultimately show ?thesis using g(3) Cons.IH by auto
  qed
qed simp

section \<open>Programs that only look\<close>

lemma lstat_below_quiet: "db_within quiet (lstat_below fs current parts info)"
  by (induction parts arbitrary: current info) (auto simp: Let_def intro!: within_rules quiet_rules)

lemma embyDeletionLstat_quiet [quiet_rules]: "db_within quiet (embyDeletionLstat fs base path)"
  unfolding embyDeletionLstat_def by (intro within_rules quiet_rules lstat_below_quiet)

lemma embyDeletionSTRM_quiet [quiet_rules]: "db_within quiet (embyDeletionSTRM fs path)"
  unfolding embyDeletionSTRM_def by (intro within_rules quiet_rules)

lemma setting_quiet [quiet_rules]: "db_within quiet (setting key)"
  unfolding setting_def by (intro within_rules quiet_rules)

lemma canonicalRoot_quiet [quiet_rules]: "db_within quiet (canonicalRoot fs path create)"
  unfolding canonicalRoot_def AbsPath_def ensureReadableDirectory_def by (intro within_rules quiet_rules)

lemma media_paths_quiet [quiet_rules]: "db_within quiet (media_paths fs subpath)"
  unfolding media_paths_def strm_base_def Let_def by (intro within_rules quiet_rules)

lemma check_roots_quiet: "db_within quiet (check_roots fs keys)"
  by (induction keys) (auto intro!: within_rules quiet_rules)

lemma add_locations_quiet:
  assumes "\<And>visible. db_within quiet (host visible)"
  shows "db_within quiet (add_locations host base locations result)"
  by (induction locations arbitrary: result) (auto simp: Let_def intro!: within_rules assms)

lemma add_libraries_quiet: "db_within quiet (add_libraries fs cidMap libraries result)"
proof (induction libraries arbitrary: result)
  case (Cons l ls)
  have "db_within quiet (add_library fs cidMap l result)"
    unfolding add_library_def Let_def host_of_def
    by (intro within_rules quiet_rules add_locations_quiet)
  with Cons show ?case by (auto intro: within_rules)
qed (auto intro: within_rules)

lemma embyDeletionLibraries_quiet: "db_within quiet (embyDeletionLibraries fs emby)"
  unfolding embyDeletionLibraries_def
  by (intro within_rules quiet_rules check_roots_quiet add_libraries_quiet)

text \<open>Every managed library has a directory on the drive.\<close>

lemma add_locations_cid:
  assumes "edl_cid base \<noteq> ''''"
  shows "\<forall>l \<in> set result. edl_cid l \<noteq> '''' \<Longrightarrow>
    db_wp (add_locations host base locations result) (\<lambda>libs _. \<forall>l \<in> set libs. edl_cid l \<noteq> '''') (\<lambda>_ _. True) s"
proof (induction locations arbitrary: result s)
  case (Cons location locations)
  show ?case
    unfolding add_locations.simps Let_def
    by (intro db_wp_case_sum db_wp_fail TrueI db_wp_bind, rule db_wp_conseq [OF db_wp_any])
      (auto intro!: db_wp_case_option db_wp_fail Cons.IH split: prod.split simp: assms Cons.prems)
qed (auto intro: db_wp_ret)

lemma add_libraries_cid:
  "\<forall>l \<in> set result. edl_cid l \<noteq> '''' \<Longrightarrow>
    db_wp (add_libraries fs cidMap libraries result) (\<lambda>libs _. \<forall>l \<in> set libs. edl_cid l \<noteq> '''') (\<lambda>_ _. True) s"
proof (induction libraries arbitrary: result s)
  case (Cons l ls)
  have "db_wp (add_library fs cidMap l result) (\<lambda>libs _. \<forall>l \<in> set libs. edl_cid l \<noteq> '''') (\<lambda>_ _. True) s" for s :: "'a service"
    unfolding add_library_def Let_def
    by (intro db_wp_if db_wp_ret db_wp_case_sum db_wp_fail TrueI Cons.prems)
      ((rule db_wp_bind, rule db_wp_conseq [OF db_wp_any], (intro db_wp_case_prod)?)+,
        auto intro!: db_wp_case_sum db_wp_fail add_locations_cid simp: Cons.prems)
  then show ?case
    unfolding add_libraries.simps by (intro db_wp_bind, rule db_wp_conseq) (auto intro: Cons.IH)
qed (auto intro: db_wp_ret)

lemma embyDeletionLibraries_cid:
  "db_wp (embyDeletionLibraries fs emby) (\<lambda>libs _. \<forall>l \<in> set libs. edl_cid l \<noteq> '''') (\<lambda>_ _. True) s"
  unfolding embyDeletionLibraries_def
  by (rule db_wp_bind, rule db_wp_conseq [OF db_wp_any], rule db_wp_bind, rule db_wp_conseq [OF db_wp_any],
      intro db_wp_case_sum db_wp_fail TrueI, rule db_wp_bind, rule db_wp_conseq [OF db_wp_any],
      rule db_wp_bind, rule db_wp_conseq [OF add_libraries_cid])
    (auto intro!: db_wp_if db_wp_fail db_wp_ret)

section \<open>The targets of a plan\<close>

text \<open>
  The mounted file and the path Emby knows: the STRM pointer names the path below the media prefix, a native
  file is itself the mounted one.
\<close>

definition names_source :: "embyDeletionLibrary \<Rightarrow> string \<Rightarrow> string \<Rightarrow> bool" where
  "names_source l mounted path \<longleftrightarrow>
     (\<exists>rel. Rel (edl_prefix l) path = Inr rel \<and> mounted = JoinPath [edl_mediaRoot l, rel]) \<or>
     (\<exists>rel. Rel (edl_mediaRoot l) mounted = Inr rel \<and> path = JoinPath [edl_prefix l, rel])"

text \<open>The object of a target is the one its path leads to, name by name, from the directory of its library.\<close>

definition source_resolved :: "call list \<Rightarrow> embyDeletionLibrary list \<Rightarrow> string \<Rightarrow> DriveFile \<Rightarrow> bool" where
  "source_resolved tr libs path file \<longleftrightarrow>
     (\<exists>l \<in> set libs. \<exists>mounted rel. names_source l mounted path \<and> Rel (edl_mediaBase l) mounted = Inr rel \<and>
        leads_to tr (edl_cid l) (split_slash rel) file)"

lemma source_resolved_append: "source_resolved tr libs path f \<Longrightarrow> source_resolved (tr @ tr') libs path f"
  unfolding source_resolved_def using leads_to_append by blast

definition target_id :: "embyDeletionTarget \<Rightarrow> string" where
  "target_id t = file_FileID (dtg_file t)"

definition pf_ok :: "embyDeletionLibrary list \<Rightarrow> call list \<Rightarrow> preflight \<Rightarrow> bool" where
  "pf_ok libs tr pf \<longleftrightarrow>
     cache_read tr (pf_inventories pf) \<and>
     distinct (map dtg_path (pf_targets pf)) \<and> distinct (map target_id (pf_targets pf)) \<and>
     (\<forall>p k. map_of (pf_byPath pf) p = Some k \<longrightarrow> k < length (pf_targets pf)) \<and>
     (\<forall>t \<in> set (pf_targets pf). map_of (pf_byPath pf) (dtg_path t) \<noteq> None \<and>
        map_of (pf_byID pf) (target_id t) = Some (dtg_path t) \<and>
        source_resolved tr libs (dtg_path t) (dtg_file t))"

lemma pf_ok_append: "pf_ok libs tr pf \<Longrightarrow> pf_ok libs (tr @ tr') pf"
  by (auto simp: pf_ok_def intro: cache_read_append source_resolved_append)

definition pf_good :: "call list \<Rightarrow> embyDeletionLibrary list \<Rightarrow> preflight \<Rightarrow> 'o service \<Rightarrow> bool" where
  "pf_good c libs pf s \<longleftrightarrow> (\<exists>tr. since c s tr \<and> pf_ok libs tr pf)"

lemma pf_good_quiet: "pf_good c libs pf s \<Longrightarrow> sv_calls s' = sv_calls s \<Longrightarrow> pf_good c libs pf s'"
  by (auto simp: pf_good_def dest: since_quiet)

lemma pf_good_read: "pf_good c libs pf s \<Longrightarrow> sv_calls s' = sv_calls s \<Longrightarrow> only_read c s'"
  by (auto simp: pf_good_def only_read_def dest: since_quiet)

text \<open>A step of the preflight that makes no call.\<close>

lemma preflight_step:
  assumes "db_within quiet m" "pf_good c libs pf s"
    "\<And>x s'. pf_good c libs pf s' \<Longrightarrow> db_wp (k x) Q (\<lambda>_. only_read c) s'"
  shows "db_wp (db_bind m k) Q (\<lambda>_. only_read c) s"
  by (rule quiet_step [OF assms(1)]) (use assms(2,3) pf_good_quiet pf_good_read in blast)+

lemma pf_ok_native:
  assumes "pf_ok libs tr pf" "map_of (pf_byPath pf) path = Some k"
  shows "pf_ok libs tr (pf\<lparr>pf_targets := (pf_targets pf)[k := (pf_targets pf ! k)\<lparr>dtg_native := n\<rparr>]\<rparr>)"
proof -
  let ?t = "pf_targets pf ! k"
  have k: "k < length (pf_targets pf)" using assms by (auto simp: pf_ok_def)
  have maps: "map g ((pf_targets pf)[k := ?t\<lparr>dtg_native := n\<rparr>]) = map g (pf_targets pf)"
    if "\<And>t. g (t\<lparr>dtg_native := n\<rparr>) = g t" for g :: "embyDeletionTarget \<Rightarrow> string"
    using that k by (simp add: map_update) (metis list_update_id map_update nth_map)
  let ?P = "\<lambda>t. map_of (pf_byPath pf) (dtg_path t) \<noteq> None \<and>
    map_of (pf_byID pf) (target_id t) = Some (dtg_path t) \<and> source_resolved tr libs (dtg_path t) (dtg_file t)"
  have P: "?P t" if "t \<in> set (pf_targets pf)" for t using assms(1) that by (simp add: pf_ok_def)
  have "?P t" if "t \<in> set ((pf_targets pf)[k := ?t\<lparr>dtg_native := n\<rparr>])" for t
  proof -
    from that set_update_subset_insert have "t \<in> set (pf_targets pf) \<or> t = ?t\<lparr>dtg_native := n\<rparr>" by fastforce
    then show ?thesis
    proof
      assume "t = ?t\<lparr>dtg_native := n\<rparr>"
      with P [of ?t] k show ?thesis by (simp add: target_id_def)
    qed (rule P)
  qed
  moreover have "\<forall>p j. map_of (pf_byPath pf) p = Some j \<longrightarrow> j < length (pf_targets pf)"
    using assms(1) by (simp add: pf_ok_def)
  ultimately show ?thesis
    using assms(1) unfolding pf_ok_def by (simp add: maps target_id_def)
qed

lemma pf_ok_new:
  assumes ok: "pf_ok libs tr pf" and path: "map_of (pf_byPath pf) path = None"
    and id: "case map_of (pf_byID pf) (file_FileID f) of None \<Rightarrow> True | Some previous \<Rightarrow> previous = path"
    and res: "cache_read tr cache" "source_resolved tr libs path f"
  shows "pf_ok libs tr \<lparr>pf_targets = pf_targets pf @ [\<lparr>dtg_file = f, dtg_path = path, dtg_native = n\<rparr>],
    pf_byPath = (path, length (pf_targets pf)) # pf_byPath pf,
    pf_byID = (file_FileID f, path) # pf_byID pf, pf_inventories = cache\<rparr>"
proof -
  have new: "dtg_path t \<noteq> path" "target_id t \<noteq> file_FileID f" if "t \<in> set (pf_targets pf)" for t
  proof -
    show "dtg_path t \<noteq> path" using ok path that by (auto simp: pf_ok_def)
    show "target_id t \<noteq> file_FileID f"
    proof
      assume "target_id t = file_FileID f"
      with ok that have "map_of (pf_byID pf) (file_FileID f) = Some (dtg_path t)" by (force simp: pf_ok_def)
      with id \<open>dtg_path t \<noteq> path\<close> show False by simp
    qed
  qed
  have "k < Suc (length (pf_targets pf))" if "map_of (pf_byPath pf) p = Some k" for p k
    using ok that by (auto simp: pf_ok_def less_SucI)
  moreover have "target_id \<lparr>dtg_file = f, dtg_path = path, dtg_native = n\<rparr> = file_FileID f"
    by (simp add: target_id_def)
  moreover from new(2) have "file_FileID f \<notin> target_id ` set (pf_targets pf)" by force
  moreover from new(1) have "path \<notin> dtg_path ` set (pf_targets pf)" by force
  ultimately show ?thesis
    using ok res new unfolding pf_ok_def by simp
qed

lemma names_source_strm:
  "Rel (edl_prefix l) path = Inr rel \<Longrightarrow> names_source l (JoinPath [edl_mediaRoot l, rel]) path"
  unfolding names_source_def by blast

lemma names_source_native:
  "Rel (edl_mediaRoot l) mounted = Inr rel \<Longrightarrow> names_source l mounted (JoinPath [edl_prefix l, rel])"
  unfolding names_source_def by blast

lemma source_of_names:
  "db_wp (source_of fs ToLower l path extension) (\<lambda>r _. names_source l (fst r) (snd r)) (\<lambda>_ _. True) s"
proof -
  have strm: "db_wp (if \<not> inside (edl_prefix l) sourcePath \<or> sourcePath = edl_prefix l then db_fail x
      else case Rel (edl_prefix l) sourcePath of
        Inl e \<Rightarrow> db_fail e
      | Inr relative \<Rightarrow>
          let mounted = JoinPath [edl_mediaRoot l, relative] in
          if \<not> inside (edl_mediaBase l) mounted \<or> mounted = edl_mediaBase l then db_fail y
          else if ToLower (Ext mounted) \<notin> set videoExtensions then db_fail z
          else db_ret (mounted, sourcePath))
     (\<lambda>r _. names_source l (fst r) (snd r)) (\<lambda>_ _. True) s'" for sourcePath x y z s'
    unfolding Let_def
    by (intro db_wp_if db_wp_fail TrueI db_wp_case_sum db_wp_ret, simp only: fst_conv snd_conv, rule names_source_strm)
  show ?thesis
    unfolding source_of_def
    by (intro db_wp_if db_wp_fail TrueI db_wp_case_sum db_wp_ret,
        rule db_wp_bind, rule db_wp_conseq [OF db_wp_any], rule strm, rule TrueI,
        simp only: fst_conv snd_conv, rule names_source_native)
qed

lemma source_of_quiet [quiet_rules]: "db_within quiet (source_of fs ToLower l path extension)"
  unfolding source_of_def Let_def by (intro within_rules quiet_rules)

lemma resolve_source_good:
  assumes good: "since c s tr" "pf_ok libs tr pf" and l: "l \<in> set libs" "edl_cid l \<noteq> ''''"
    and names: "names_source l mounted path"
  shows "db_wp (resolveEmbyDeletionSource net account_id l mounted (pf_inventories pf))
     (\<lambda>r s'. \<exists>tr'. since c s' tr' \<and> pf_ok libs tr' pf \<and> cache_read tr' (snd r) \<and>
        source_resolved tr' libs path (fst r)) (\<lambda>_. only_read c) s"
  unfolding resolveEmbyDeletionSource_def
proof (rule db_wp_case_sum)
  fix rel assume rel: "Rel (edl_mediaBase l) mounted = Inr rel"
  have cache: "cache_read tr (pf_inventories pf)" using good(2) by (simp add: pf_ok_def)
  show "db_wp (resolve_parts net account_id (edl_cid l) (split_slash rel) (pf_inventories pf))
     (\<lambda>r s'. \<exists>tr'. since c s' tr' \<and> pf_ok libs tr' pf \<and> cache_read tr' (snd r) \<and>
        source_resolved tr' libs path (fst r)) (\<lambda>_. only_read c) s"
  proof (rule db_wp_conseq [OF resolve_parts_reads [OF good(1) cache l(2)]])
    fix r s' assume "resolved_since c tr (edl_cid l) (split_slash rel) r s'"
    then obtain tr' where "since c s' (tr @ tr')" "cache_read (tr @ tr') (snd r)"
      "leads_to (tr @ tr') (edl_cid l) (split_slash rel) (fst r)" by (auto simp: resolved_since_def)
    with l(1) names rel pf_ok_append [OF good(2)] show "\<exists>tr'. since c s' tr' \<and> pf_ok libs tr' pf \<and>
        cache_read tr' (snd r) \<and> source_resolved tr' libs path (fst r)"
      unfolding source_resolved_def by blast
  qed
qed (use good in \<open>auto intro: db_wp_fail since_only_read\<close>)

lemma add_target_good:
  assumes good: "pf_good c libs pf s" and l: "l \<in> set libs" "edl_cid l \<noteq> ''''"
    and names: "names_source l mounted path"
  shows "db_wp (add_target fs net account_id l native mounted path pf) (pf_good c libs) (\<lambda>_. only_read c) s"
proof (cases "map_of (pf_byPath pf) path")
  case (Some k)
  then show ?thesis
    using good pf_ok_native [OF _ Some] unfolding add_target_def pf_good_def by (auto intro!: db_wp_ret)
next
  case None
  have "db_wp (if fi_Kind info \<noteq> RegularKind then db_fail x
      else db_bind (resolveEmbyDeletionSource net account_id l mounted (pf_inventories pf)) (\<lambda>(file, cache).
        if file_Size file \<noteq> fi_Size info then db_fail (y file)
        else if (case map_of (pf_byID pf) (file_FileID file) of None \<Rightarrow> False | Some previous \<Rightarrow> previous \<noteq> path)
        then db_fail (z file)
        else db_ret \<lparr>
          pf_targets = pf_targets pf @ [\<lparr>dtg_file = file, dtg_path = path, dtg_native = native\<rparr>],
          pf_byPath = (path, length (pf_targets pf)) # pf_byPath pf,
          pf_byID = (file_FileID file, path) # pf_byID pf, pf_inventories = cache\<rparr>))
     (pf_good c libs) (\<lambda>_. only_read c) s'" if good': "pf_good c libs pf s'" for info x y z s'
  proof (rule db_wp_if, rule db_wp_fail)
    from good' obtain tr where tr: "since c s' tr" "pf_ok libs tr pf" by (auto simp: pf_good_def)
    then show "only_read c s'" by (auto intro: since_only_read)
    show "db_wp (db_bind (resolveEmbyDeletionSource net account_id l mounted (pf_inventories pf)) (\<lambda>(file, cache).
        if file_Size file \<noteq> fi_Size info then db_fail (y file)
        else if (case map_of (pf_byID pf) (file_FileID file) of None \<Rightarrow> False | Some previous \<Rightarrow> previous \<noteq> path)
        then db_fail (z file)
        else db_ret \<lparr>
          pf_targets = pf_targets pf @ [\<lparr>dtg_file = file, dtg_path = path, dtg_native = native\<rparr>],
          pf_byPath = (path, length (pf_targets pf)) # pf_byPath pf,
          pf_byID = (file_FileID file, path) # pf_byID pf, pf_inventories = cache\<rparr>))
       (pf_good c libs) (\<lambda>_. only_read c) s'"
    proof (rule db_wp_bind, rule db_wp_conseq [OF resolve_source_good [OF tr l names]], goal_cases)
      case (1 r s1)
      then obtain tr' where tr': "since c s1 tr'" "pf_ok libs tr' pf" "cache_read tr' (snd r)"
        "source_resolved tr' libs path (fst r)" by blast
      have new: "pf_good c libs \<lparr>
          pf_targets = pf_targets pf @ [\<lparr>dtg_file = fst r, dtg_path = path, dtg_native = native\<rparr>],
          pf_byPath = (path, length (pf_targets pf)) # pf_byPath pf,
          pf_byID = (file_FileID (fst r), path) # pf_byID pf, pf_inventories = snd r\<rparr> s1"
        if "\<not> (case map_of (pf_byID pf) (file_FileID (fst r)) of None \<Rightarrow> False | Some previous \<Rightarrow> previous \<noteq> path)"
      proof -
        have "case map_of (pf_byID pf) (file_FileID (fst r)) of None \<Rightarrow> True | Some previous \<Rightarrow> previous = path"
          using that by (simp split: option.splits)
        from tr'(1) pf_ok_new [OF tr'(2) None this tr'(3,4)] show ?thesis unfolding pf_good_def by blast
      qed
      obtain f cache where "r = (f, cache)" by (cases r)
      with new since_only_read [OF tr'(1)] show ?case
        by (auto intro!: db_wp_if db_wp_fail db_wp_ret)
    qed
  qed
  then show ?thesis
    unfolding add_target_def None option.case by (rule preflight_step [OF embyDeletionLstat_quiet good])
qed

lemma visit_entry_good:
  assumes "pf_good c libs pf s" and l: "l \<in> set libs" "edl_cid l \<noteq> ''''"
  shows "db_wp (visit_entry fs net ToLower account_id l path kind known pf) (pf_good c libs) (\<lambda>_. only_read c) s"
proof -
  have info: "db_within quiet (case known of Some i \<Rightarrow> db_ret i | None \<Rightarrow> on_out m)" for m
    by (intro within_rules quiet_rules)
  have add: "db_wp (db_bind (source_of fs ToLower l path extension) (\<lambda>(mounted, sourcePath).
      add_target fs net account_id l native mounted sourcePath pf)) (pf_good c libs) (\<lambda>_. only_read c) s'"
    if good: "pf_good c libs pf s'" for extension native s'
  proof (rule db_wp_bind, rule db_wp_conseq [OF db_wp_conj [OF source_of_names db_within_wpD [OF source_of_quiet]]], goal_cases)
    case (1 r s1)
    then show ?case using good pf_good_quiet l
      by (auto simp: quiet_def intro!: add_target_good split: prod.split)
  next
    case (2 e s1)
    then show ?case using pf_good_read [OF good] by (simp add: quiet_def)
  qed
  show ?thesis
    unfolding visit_entry_def Let_def
  proof (rule preflight_step [OF ctx_Err_quiet assms(1)], intro db_wp_case_option db_wp_if db_wp_fail db_wp_ret)
    fix s' :: "'a service" assume "pf_good c libs pf s'"
    then show "db_wp (db_bind (case known of Some i \<Rightarrow> db_ret i | None \<Rightarrow> on_out (fs_Lstat fs path)) (\<lambda>info.
           if fi_Kind info \<noteq> RegularKind
           then db_fail (Errorf ''Emby deletion refuses non-regular file %s'' [path])
           else if ToLower (Ext path) \<noteq> ''.strm'' \<and> ToLower (Ext path) \<notin> set videoExtensions then db_ret pf
             else db_bind (source_of fs ToLower l path (ToLower (Ext path))) (\<lambda>(mounted, sourcePath).
               add_target fs net account_id l (edl_native l \<and> ToLower (Ext path) \<in> set videoExtensions)
                 mounted sourcePath pf))) (pf_good c libs) (\<lambda>_. only_read c) s'"
      by (intro preflight_step [OF info] db_wp_if db_wp_fail db_wp_ret add) (auto dest: pf_good_read)
  qed (auto dest: pf_good_read)
qed

lemma walk_tree_good:
  assumes step: "\<And>path kind known a s. G a s \<Longrightarrow> db_wp (fn path kind known a) G (\<lambda>_. R) s"
    and quiet: "\<And>a s s'. G a s \<Longrightarrow> sv_calls s' = sv_calls s \<Longrightarrow> G a s' \<and> R s'"
  shows "G a s \<Longrightarrow> db_wp (walk_tree fs fn levels path kind known a) G (\<lambda>_. R) s"
proof (induction levels arbitrary: path kind known a s)
  case 0
  then show ?case using quiet [of a s s] by (auto intro: db_wp_fail)
next
  case (Suc levels path kind known a s)
  have entries: "db_wp (walk_entries (walk_tree fs fn levels) path es a') G (\<lambda>_. R) s'" if "G a' s'" for es a' s'
    using that
  proof (induction es arbitrary: a' s')
    case (Cons e es)
    obtain name k where e: "e = (name, k)" by (cases e)
    show ?case
      unfolding e walk_entries.simps
      by (intro db_wp_bind, rule db_wp_conseq [OF Suc.IH [OF Cons.prems]]) (auto intro: Cons.IH)
  qed (auto intro: db_wp_ret)
  show ?case
    unfolding walk_tree.simps
  proof (rule db_wp_bind, rule db_wp_conseq [OF step [OF Suc.prems]])
    fix a' and s' :: "'b service" assume G: "G a' s'"
    then show "db_wp (if kind \<noteq> DirKind then db_ret a' else db_bind (on_out (fs_ReadDir fs path))
        (\<lambda>es. walk_entries (walk_tree fs fn levels) path es a')) G (\<lambda>_. R) s'"
      by (intro db_wp_if db_wp_ret quiet_step [OF on_out_quiet] entries) (use quiet in blast)+
  qed
qed

lemma WalkDir_good:
  assumes good: "pf_good c libs pf s" and l: "l \<in> set libs" "edl_cid l \<noteq> ''''"
  shows "db_wp (WalkDir fs (visit_entry fs net ToLower account_id l) base pf) (pf_good c libs) (\<lambda>_. only_read c) s"
  unfolding WalkDir_def
  by (rule preflight_step [OF on_out_quiet good],
      rule walk_tree_good [where G = "pf_good c libs", OF visit_entry_good [OF _ l]])
    (auto intro: pf_good_quiet pf_good_read)

lemma select_library_in:
  "select_library visible selected libs = Inr l \<Longrightarrow> l \<in> set libs \<or> selected = Some l"
  by (induction libs arbitrary: selected) (auto split: if_splits option.splits)

lemma prepare_paths_good:
  assumes "\<forall>l \<in> set libs. edl_cid l \<noteq> ''''"
  shows "pf_good c libs pf s \<Longrightarrow>
    db_wp (prepare_paths fs net ToLower account_id libs paths pf) (pf_good c libs) (\<lambda>_. only_read c) s"
proof (induction paths arbitrary: pf s)
  case Nil
  then show ?case by (simp add: db_wp_ret)
next
  case (Cons path paths pf s)
  show ?case
    unfolding prepare_paths.simps Let_def
  proof (rule preflight_step [OF ctx_Err_quiet Cons.prems],
      intro db_wp_case_option db_wp_case_sum db_wp_fail preflight_step [OF embyDeletionLstat_quiet] db_wp_bind)
    fix s' :: "'a service" and l visible base
    assume good: "pf_good c libs pf s'" and "select_library visible None libs = Inr l"
    then have l: "l \<in> set libs" "edl_cid l \<noteq> ''''" using select_library_in assms by (blast, blast)
    show "db_wp (WalkDir fs (visit_entry fs net ToLower account_id l) base pf)
        (\<lambda>x. db_wp (prepare_paths fs net ToLower account_id libs paths x) (pf_good c libs) (\<lambda>_. only_read c))
        (\<lambda>_. only_read c) s'"
      by (rule db_wp_conseq [OF WalkDir_good [OF good l]]) (auto intro: Cons.IH)
  qed (auto dest: pf_good_read)
qed

section \<open>A prepared plan\<close>

definition plan_sound :: "nat \<Rightarrow> call list \<Rightarrow> embyDeletionLibrary list \<Rightarrow> EmbyDeletionPlan \<Rightarrow> bool" where
  "plan_sound self tr libs plan \<longleftrightarrow>
     plan_owner plan = self \<and> \<not> plan_attempted plan \<and> plan_targets plan \<noteq> [] \<and>
     sorted_wrt (<) (map dtg_path (plan_targets plan)) \<and> distinct (map target_id (plan_targets plan)) \<and>
     plan_SourcePaths plan = map dtg_path (plan_targets plan) \<and>
     plan_Sources plan = map source_record (plan_targets plan) \<and>
     (\<forall>t \<in> set (plan_targets plan). \<not> file_IsFolder (dtg_file t) \<and> file_ParentID (dtg_file t) \<noteq> '''' \<and>
        source_resolved tr libs (dtg_path t) (dtg_file t))"

lemma sort_key_strict:
  "distinct (map f xs) \<Longrightarrow> sorted_wrt (<) (map f (sort_key f xs))" for f :: "'a \<Rightarrow> 'b::linorder"
proof -
  assume "distinct (map f xs)"
  then have "distinct (map f (sort_key f xs))"
    by (simp add: distinct_map)
  then show ?thesis using sorted_sort_key [of f xs] by (simp add: strict_sorted_iff)
qed

lemma distinct_map_sort_key: "distinct (map g (sort_key f xs)) \<longleftrightarrow> distinct (map g xs)"
  by (simp add: distinct_map)

lemma finished_plan_sound:
  assumes ok: "pf_ok libs tr pf" and "pf_targets pf \<noteq> []" and cid: "\<forall>l \<in> set libs. edl_cid l \<noteq> ''''"
  shows "plan_sound self tr libs (finished_plan self account_id (pf_targets pf))"
proof -
  have "\<not> file_IsFolder (dtg_file t) \<and> file_ParentID (dtg_file t) \<noteq> ''''"
    if "source_resolved tr libs (dtg_path t) (dtg_file t)" for t
    using that cid leads_to_admitted unfolding source_resolved_def admitted_def by metis
  moreover have "sort_key dtg_path (pf_targets pf) \<noteq> []"
    using assms(2) by (metis set_empty set_sort)
  ultimately show ?thesis
    using ok unfolding plan_sound_def finished_plan_def Let_def pf_ok_def
    by (auto simp: sort_key_strict distinct_map_sort_key)
qed

lemma prepare_in_sound:
  assumes "\<forall>l \<in> set libs. edl_cid l \<noteq> ''''"
  shows "db_wp (prepare_in self fs net ToLower paths libs)
     (\<lambda>plan s'. \<exists>tr. since (sv_calls s) s' tr \<and> plan_sound self tr libs plan) (\<lambda>_. only_read (sv_calls s)) s"
  unfolding prepare_in_def
proof (rule preflight_step [OF getAccount_quiet])
  let ?pf = "\<lparr>pf_targets = [], pf_byPath = [], pf_byID = [], pf_inventories = []\<rparr>"
  show "pf_good (sv_calls s) libs ?pf s"
    unfolding pf_good_def by (intro exI [of _ "[]"]) (simp add: since_def pf_ok_def cache_read_def)
  fix account and s1 :: "'a service" assume good: "pf_good (sv_calls s) libs ?pf s1"
  show "db_wp (if acc_ID account = '''' \<or> acc_Type account \<noteq> ''115'' \<or> TrimSpace (acc_Cookie account) = ''''
     then db_fail (Errorf ''Emby source deletion requires a configured default 115 account'' [])
     else db_bind (prepare_paths fs net ToLower (acc_ID account) libs paths ?pf) (\<lambda>pf.
       if pf_targets pf = []
       then db_fail (Errorf ''Emby deletion contains no managed original videos'' [])
       else db_ret (finished_plan self (acc_ID account) (pf_targets pf))))
     (\<lambda>plan s'. \<exists>tr. since (sv_calls s) s' tr \<and> plan_sound self tr libs plan) (\<lambda>_. only_read (sv_calls s)) s1"
  proof (intro db_wp_if db_wp_fail, rule pf_good_read [OF good refl], rule db_wp_bind,
      rule db_wp_conseq [OF prepare_paths_good [OF assms good]])
    fix pf and s2 :: "'a service" assume "pf_good (sv_calls s) libs pf s2"
    then obtain tr where "since (sv_calls s) s2 tr" "pf_ok libs tr pf" by (auto simp: pf_good_def)
    with finished_plan_sound [OF this(2) _ assms] show "db_wp (if pf_targets pf = []
       then db_fail (Errorf ''Emby deletion contains no managed original videos'' [])
       else db_ret (finished_plan self (acc_ID account) (pf_targets pf)))
     (\<lambda>plan s'. \<exists>tr. since (sv_calls s) s' tr \<and> plan_sound self tr libs plan) (\<lambda>_. only_read (sv_calls s)) s2"
      by (intro db_wp_if db_wp_fail db_wp_ret) (auto intro: since_only_read)
  qed
qed

lemma prepared_plan:
  assumes "PrepareEmbyDeletionCtx self fs net emby ToLower paths flt s = (r, flt', s')"
  shows "\<exists>tr. sv_calls s' = sv_calls s @ tr \<and> list_all is_page tr \<and>
    (case r of Inl _ \<Rightarrow> True
     | Inr plan \<Rightarrow> \<exists>libs flt1 s1. embyDeletionLibraries fs emby flt s = (Inr libs, flt1, s1) \<and>
         plan_sound self tr libs plan)"
proof (cases "paths = []")
  case True
  with assms show ?thesis
    by (auto simp: PrepareEmbyDeletionCtx_def db_fail_def intro!: exI [of _ "[]"])
next
  case False
  obtain l flt1 s1 where libs: "embyDeletionLibraries fs emby flt s = (l, flt1, s1)"
    by (cases "embyDeletionLibraries fs emby flt s")
  have s1: "sv_calls s1 = sv_calls s"
    using db_withinD [OF embyDeletionLibraries_quiet, of s fs emby flt] libs by (simp add: quiet_def)
  show ?thesis
  proof (cases l)
    case (Inl e)
    with assms libs False s1 show ?thesis
      by (auto simp: PrepareEmbyDeletionCtx_def db_bind_def intro!: exI [of _ "[]"])
  next
    case (Inr ls)
    then have run: "prepare_in self fs net ToLower paths ls flt1 s1 = (r, flt', s')"
      using assms libs False by (simp add: PrepareEmbyDeletionCtx_def db_bind_def)
    have cid: "\<forall>l \<in> set ls. edl_cid l \<noteq> ''''"
      using db_wpD(1) [OF embyDeletionLibraries_cid libs [unfolded Inr]] .
    note wp = db_wpD [OF prepare_in_sound [OF cid]]
    show ?thesis
    proof (cases r)
      case (Inl e)
      from wp(2) [OF run [unfolded Inl]] s1 Inl show ?thesis by (auto simp: only_read_def since_def)
    next
      case (Inr plan)
      from wp(1) [OF run [unfolded Inr]] s1 Inr libs \<open>l = Inr ls\<close> show ?thesis by (auto simp: since_def)
    qed
  qed
qed

text \<open>C6. Whatever the file system, Emby and the provider do, a preparation only reads directories of the drive.
A plan it returns belongs to this service, was not attempted and has at least one target; its paths are strictly
ascending and its identifiers distinct; and every target is a file that its path leads to: from the directory of a
managed library, along the names of the path, through complete listings read in this preparation.\<close>

theorem prepared_plan_exact:
  "\<exists>tr. sv_calls (db_state (PrepareEmbyDeletionCtx self fs net emby ToLower paths flt s)) = sv_calls s @ tr \<and>
    list_all is_page tr \<and>
    (case db_result (PrepareEmbyDeletionCtx self fs net emby ToLower paths flt s) of
       Inl _ \<Rightarrow> True
     | Inr plan \<Rightarrow> \<exists>libs. db_result (embyDeletionLibraries fs emby flt s) = Inr libs \<and> plan_sound self tr libs plan)"
proof -
  obtain r flt' s' where run: "PrepareEmbyDeletionCtx self fs net emby ToLower paths flt s = (r, flt', s')"
    by (cases "PrepareEmbyDeletionCtx self fs net emby ToLower paths flt s")
  from prepared_plan [OF run] show ?thesis by (fastforce simp: run split: sum.splits)
qed

end
