(* ===== verification/EmbyHandler.thy ===== *)
theory EmbyHandler
  imports EmbyDeletionApi EmbyPlan
begin

text \<open>
  What a run of \<open>handleEmbyDeletion\<close> (internal/api/emby_deletion.go) may do. The ghost list \<open>sv_calls\<close> holds every page
  read from 115, every object recycled there and every exchange with Emby; the lemmas follow the handler step by step:
  the answers of Emby it has seen, the plan made from them, the deletion, and the recycling behind it.
\<close>

section \<open>What a run of the handler calls\<close>

text \<open>Reading the drive and asking Emby change nothing.\<close>

fun harmless :: "call \<Rightarrow> bool" where
  "harmless (Page _ _ _ _) = True"
| "harmless (Recycle _) = False"
| "harmless (Native verb _ _) \<longleftrightarrow> verb = ''GET''"

definition told :: "string \<Rightarrow> string \<Rightarrow> call list \<Rightarrow> bool" where
  "told path body tr \<longleftrightarrow> (\<exists>status. successful_status status \<and> Native ''GET'' path (Some (status, Some body)) \<in> set tr)"

text \<open>Emby says: this device has a session of the user, who is an enabled administrator.\<close>

definition user_authorised :: "'o nativeEmby \<Rightarrow> deletionRequest \<Rightarrow> string \<Rightarrow> call list \<Rightarrow> bool" where
  "user_authorised native targ userID tr \<longleftrightarrow>
     (\<exists>body. told ''/Sessions'' body tr \<and> session_user native targ body = Some userID) \<and>
     (\<exists>body. told (''/Users/'' @ userID) body tr \<and> enabled_administrator native userID body)"

text \<open>The user may delete the item, and these are the paths Emby would delete.\<close>

definition item_authorised :: "'o nativeEmby \<Rightarrow> string \<Rightarrow> call list \<Rightarrow> string \<Rightarrow> string list \<Rightarrow> bool" where
  "item_authorised native userID tr i paths \<longleftrightarrow>
     (\<exists>body. told (''/Users/'' @ userID @ ''/Items/'' @ i) body tr \<and> ne_Item native body = Some (i, True)) \<and>
     (\<exists>body. told (''/Items/'' @ i @ ''/DeleteInfo'') body tr \<and> ne_Paths native body = Some paths)"

lemma told_append: "told path body tr \<Longrightarrow> told path body (tr @ tr')"
  by (auto simp: told_def)

lemma user_authorised_append: "user_authorised native targ u tr \<Longrightarrow> user_authorised native targ u (tr @ tr')"
  unfolding user_authorised_def using told_append by blast

lemma item_authorised_append: "item_authorised native u tr i ps \<Longrightarrow> item_authorised native u (tr @ tr') i ps"
  unfolding item_authorised_def using told_append by blast

definition calls :: "call list \<Rightarrow> 'o service \<Rightarrow> call list \<Rightarrow> bool" where
  "calls c s tr \<longleftrightarrow> sv_calls s = c @ tr \<and> list_all harmless tr"

lemma calls_quiet: "calls c s tr \<Longrightarrow> sv_calls s' = sv_calls s \<Longrightarrow> calls c s' tr"
  by (simp add: calls_def)

lemma calls_more: "calls c s tr \<Longrightarrow> sv_calls s' = sv_calls s @ tr' \<Longrightarrow> list_all harmless tr' \<Longrightarrow> calls c s' (tr @ tr')"
  by (simp add: calls_def)

lemma pages_harmless: "list_all is_page tr \<Longrightarrow> list_all harmless tr"
  unfolding list_all_iff by (metis harmless.simps(1) is_page.elims(2))

text \<open>One exchange with Emby.\<close>

definition exchanged :: "string \<Rightarrow> string \<Rightarrow> 'o service \<Rightarrow> response option \<times> apiError option \<Rightarrow> 'o service \<Rightarrow> bool" where
  "exchanged verb path s r s' \<longleftrightarrow>
     (\<exists>ans. sv_calls s' = sv_calls s @ [Native verb path ans] \<and>
        (if answered (fst r)
         then \<exists>status content. ans = Some (status, content) \<and> successful_status status \<and>
           (snd r = None \<longrightarrow> content = Some (body_of (fst r)))
         else \<forall>status content. ans = Some (status, content) \<longrightarrow> \<not> successful_status status))"

lemma native_call_exchanged:
  "db_wp (native_call native targ verb path query body kind) (exchanged verb path s) (\<lambda>_ _. False) s"
proof -
  have out: "db_wp (db_try (on_out m)) (\<lambda>_ s'. sv_calls s' = sv_calls s) (\<lambda>_ _. False) s" for m :: "('a, answer) dbm"
    by (rule db_wp_try, rule db_wp_conseq [OF db_within_wpD [OF on_out_quiet]]) (simp_all add: quiet_def)
  show ?thesis
    unfolding native_call_def
    by (rule db_wp_bind, rule db_wp_conseq [OF out])
      (auto simp: note_call_def exchanged_def answered_def body_of_def
        intro!: db_wp_bind db_wp_upd db_wp_ret split: sum.splits answer.splits option.splits)
qed

lemma get_call:
  assumes "calls c s tr"
    and "\<And>resp err s' tr'. calls c s' tr' \<Longrightarrow> (\<exists>e. tr' = tr @ e) \<Longrightarrow>
        (err = None \<Longrightarrow> answered resp \<Longrightarrow> told path (body_of resp) tr') \<Longrightarrow> db_wp (k (resp, err)) Q E s'"
  shows "db_wp (db_bind (native_call native targ ''GET'' path query body kind) k) Q E s"
proof (rule db_wp_bind, rule db_wp_conseq [OF native_call_exchanged])
  fix r and s' :: "'a service" assume x: "exchanged ''GET'' path s r s'"
  obtain resp err where r: "r = (resp, err)" by (cases r)
  from x obtain ans where ans: "sv_calls s' = sv_calls s @ [Native ''GET'' path ans]"
    "answered resp \<Longrightarrow> \<exists>status content. ans = Some (status, content) \<and> successful_status status \<and>
       (err = None \<longrightarrow> content = Some (body_of resp))"
    by (auto simp: exchanged_def r split: if_splits)
  show "db_wp (k r) Q E s'"
    unfolding r
  proof (rule assms(2))
    show "calls c s' (tr @ [Native ''GET'' path ans])" using calls_more [OF assms(1) ans(1)] by simp
    show "told path (body_of resp) (tr @ [Native ''GET'' path ans])" if "err = None" "answered resp"
      using ans(2) [OF that(2)] that(1) by (auto simp: told_def)
  qed simp
qed simp

lemma check_key_pages_calls:
  "calls c s tr \<Longrightarrow> db_wp (check_key_pages native targ offset)
     (\<lambda>_ s'. \<exists>tr'. calls c s' (tr @ tr')) (\<lambda>_ _. False) s"
proof (induction native targ offset arbitrary: s tr rule: check_key_pages.induct)
  case (1 native targ offset s tr)
  show ?case
    unfolding check_key_pages.simps [of native targ offset]
  proof (intro db_wp_if db_wp_ret)
    show "\<exists>tr'. calls c s (tr @ tr')" using 1(2) by (intro exI [of _ "[]"]) simp
    assume more: "\<not> 10000 \<le> offset"
    show "db_wp (db_bind (native_call native targ ''GET'' ''/Auth/Keys''
               [(''StartIndex'', [show_nat offset]), (''Limit'', [''100''])] '''' '''') (\<lambda>(resp, err).
        if err \<noteq> None \<or> \<not> answered resp then db_ret (Some (resp, err))
        else case ne_Keys native (body_of resp) of
          None \<Rightarrow> db_ret (Some (None, Some (HTTPError 502 ''cannot inspect native Emby application keys'')))
        | Some keys \<Rightarrow>
            case check_keys (dr_credential targ) keys of
              Some e \<Rightarrow> db_ret (Some (None, Some e))
            | None \<Rightarrow> if length keys < 100 then db_ret None else check_key_pages native targ (offset + 100)))
        (\<lambda>_ s'. \<exists>tr'. calls c s' (tr @ tr')) (\<lambda>_ _. False) s"
    proof (rule get_call [OF 1(2)], unfold prod.case)
      fix resp tr' and err :: "apiError option" and s' :: "'a service" assume tr': "calls c s' tr'" "\<exists>e. tr' = tr @ e"
      then obtain e where e: "tr' = tr @ e" "calls c s' (tr @ e)" by auto
      have stop: "\<exists>tr'. calls c s' (tr @ tr')" using e(2) by blast
      have again: "db_wp (check_key_pages native targ (offset + 100)) (\<lambda>_ s'. \<exists>tr'. calls c s' (tr @ tr'))
          (\<lambda>_ _. False) s'"
        if "\<not> (err \<noteq> None \<or> \<not> answered resp)" "ne_Keys native (body_of resp) = Some keys"
          "check_keys (dr_credential targ) keys = None" "\<not> length keys < 100" for keys
      proof -
        have "db_wp (check_key_pages native targ (offset + 100)) (\<lambda>_ s'. \<exists>tr''. calls c s' ((tr @ e) @ tr''))
            (\<lambda>_ _. False) s'"
          using 1(1) [OF more that e(2)] .
        then show ?thesis by (rule db_wp_conseq) auto
      qed
      show "db_wp (if err \<noteq> None \<or> \<not> answered resp then db_ret (Some (resp, err))
        else case ne_Keys native (body_of resp) of
          None \<Rightarrow> db_ret (Some (None, Some (HTTPError 502 ''cannot inspect native Emby application keys'')))
        | Some keys \<Rightarrow>
            case check_keys (dr_credential targ) keys of
              Some e \<Rightarrow> db_ret (Some (None, Some e))
            | None \<Rightarrow> if length keys < 100 then db_ret None else check_key_pages native targ (offset + 100))
          (\<lambda>_ s'. \<exists>tr'. calls c s' (tr @ tr')) (\<lambda>_ _. False) s'"
        by (intro db_wp_if db_wp_ret db_wp_case_option stop again)
    qed
  qed
qed

lemma setting_or_config_wp: "db_wp (setting_or_config key) (\<lambda>_. quiet s) (\<lambda>_ _. False) s"
proof -
  have attempt: "db_wp (db_try (on_db m)) (\<lambda>_. quiet s0) (\<lambda>_ _. False) s0" for m :: "'x dbop" and s0 :: "'a service"
    by (rule db_wp_try, rule db_wp_conseq [OF db_within_wpD [OF on_db_quiet]])
  have stored: "db_wp (setting k) (\<lambda>_. quiet s0) (\<lambda>_ _. False) s0" for k and s0 :: "'a service"
    unfolding setting_def by (rule db_wp_bind, rule db_wp_conseq [OF attempt]) (auto intro: db_wp_ret)
  have config: "db_wp (db_bind (db_try (on_db (GetConfig key))) (\<lambda>r. db_ret (f r))) (\<lambda>_. quiet s) (\<lambda>_ _. False) s0"
    if "quiet s s0" for s0 :: "'a service" and f :: "error + string \<Rightarrow> string"
    by (rule db_wp_bind, rule db_wp_conseq [OF attempt]) (use that in \<open>auto simp: quiet_def intro: db_wp_ret\<close>)
  show ?thesis
    unfolding setting_or_config_def
    by (rule db_wp_bind, rule db_wp_conseq [OF stored]) (auto intro!: db_wp_if db_wp_ret config)
qed

definition authorised_so_far ::
  "'o nativeEmby \<Rightarrow> deletionRequest \<Rightarrow> call list \<Rightarrow> string \<times> response option \<times> apiError option \<Rightarrow> 'o service \<Rightarrow> bool" where
  "authorised_so_far native targ c r s' \<longleftrightarrow>
     (\<exists>tr. calls c s' tr \<and> (snd (snd r) = None \<longrightarrow> answered (fst (snd r)) \<longrightarrow> user_authorised native targ (fst r) tr))"

lemma not_authorised: "calls c s tr \<Longrightarrow> err \<noteq> None \<or> \<not> answered resp \<Longrightarrow> authorised_so_far native targ c (u, resp, err) s"
  by (auto simp: authorised_so_far_def)

lemma not_answered [simp]: "\<not> answered None"
  by (simp add: answered_def)

lemma check_key_pages_refuses:
  "db_wp (check_key_pages native targ offset)
     (\<lambda>r _. case r of None \<Rightarrow> True | Some (resp, err) \<Rightarrow> err \<noteq> None \<or> \<not> answered resp) (\<lambda>_ _. True) s"
proof (induction native targ offset arbitrary: s rule: check_key_pages.induct)
  case (1 native targ offset s)
  show ?case
    unfolding check_key_pages.simps [of native targ offset]
    by (intro db_wp_if db_wp_ret, simp, rule db_wp_bind, rule db_wp_conseq [OF db_wp_any])
      (auto intro!: db_wp_if db_wp_ret db_wp_case_option 1 split: prod.split)
qed

lemma authorize_user_calls:
  assumes s: "calls c s tr" and sess: "told ''/Sessions'' body tr" "session_user native targ body = Some u"
  shows "db_wp (authorize_user native targ u) (authorised_so_far native targ c) (\<lambda>_ _. False) s"
  unfolding authorize_user_def
proof (rule get_call [OF s], unfold prod.case)
  fix resp tr' and err :: "apiError option" and s' :: "'a service"
  assume s': "calls c s' tr'" "\<exists>e. tr' = tr @ e"
    and t: "err = None \<Longrightarrow> answered resp \<Longrightarrow> told (''/Users/'' @ u) (body_of resp) tr'"
  have "user_authorised native targ u tr'"
    if "\<not> (err \<noteq> None \<or> \<not> answered resp)" "enabled_administrator native u (body_of resp)"
    unfolding user_authorised_def using that t s'(2) sess told_append by blast
  with s'(1) show "db_wp (if err \<noteq> None \<or> \<not> answered resp then db_ret ('''', resp, err)
     else if \<not> enabled_administrator native u (body_of resp)
     then db_ret ('''', None, Some (HTTPError 403 ''Emby deletion requires an enabled Emby administrator''))
     else db_ret (u, resp, None)) (authorised_so_far native targ c) (\<lambda>_ _. False) s'"
    by (intro db_wp_if db_wp_ret) (auto intro: not_authorised simp: authorised_so_far_def)
qed

lemma authorize_session_calls:
  assumes s: "calls c s tr"
  shows "db_wp (authorize_session native targ) (authorised_so_far native targ c) (\<lambda>_ _. False) s"
  unfolding authorize_session_def
  by (rule get_call [OF s], unfold prod.case, intro db_wp_if db_wp_ret db_wp_case_option)
    (auto intro: not_authorised authorize_user_calls)

lemma authorize_calls:
  assumes "calls c s tr"
  shows "db_wp (authorizeEmbyDeletion native targ) (authorised_so_far native targ c) (\<lambda>_ _. False) s"
  unfolding authorizeEmbyDeletion_def
proof (rule db_wp_bind, rule db_wp_conseq [OF setting_or_config_wp])
  fix storedKey and s1 :: "'a service" assume "quiet s s1"
  then have s1: "calls c s1 tr" using assms by (simp add: quiet_def calls_quiet)
  show "db_wp (if storedKey \<noteq> '''' \<and> dr_credential targ = storedKey
     then db_ret ('''', None, Some (HTTPError 403 ''application API keys cannot authorize user-confirmed Emby deletion''))
     else db_bind (check_key_pages native targ 0) (\<lambda>refused.
       case refused of
         Some (resp, err) \<Rightarrow> db_ret ('''', resp, err)
       | None \<Rightarrow> authorize_session native targ)) (authorised_so_far native targ c) (\<lambda>_ _. False) s1"
  proof (rule db_wp_if, rule db_wp_ret, rule not_authorised [OF s1], simp, rule db_wp_bind,
      rule db_wp_conseq [OF db_wp_conj [OF check_key_pages_calls [OF s1] check_key_pages_refuses]], goal_cases)
    case (1 r s2)
    then obtain tr' where "calls c s2 (tr @ tr')" by auto
    with 1 show ?case
      by (cases r) (auto intro!: db_wp_ret authorize_session_calls [OF \<open>calls c s2 (tr @ tr')\<close>] not_authorised)
  qed simp
qed simp

section \<open>The closure\<close>

definition step_post ::
  "(handlerVars \<Rightarrow> 'o service \<Rightarrow> bool) \<Rightarrow> ('a \<Rightarrow> handlerVars \<Rightarrow> 'o service \<Rightarrow> bool) \<Rightarrow>
   handlerVars \<times> (apiError option + 'a) \<Rightarrow> 'o service \<Rightarrow> bool" where
  "step_post R Q r s = (case r of (v, Inl _) \<Rightarrow> R v s | (v, Inr x) \<Rightarrow> Q x v s)"

abbreviation step_wp ::
  "('o, 'a) step \<Rightarrow> ('a \<Rightarrow> handlerVars \<Rightarrow> 'o service \<Rightarrow> bool) \<Rightarrow> (handlerVars \<Rightarrow> 'o service \<Rightarrow> bool) \<Rightarrow>
   handlerVars \<Rightarrow> 'o service \<Rightarrow> bool" where
  "step_wp m Q R v s \<equiv> db_wp (m v) (step_post R Q) (\<lambda>_ _. False) s"

named_theorems step_rules \<open>steps of the closure\<close>

lemma step_wp_bind:
  "step_wp m (\<lambda>x v' s'. step_wp (k x) Q R v' s') R v s \<Longrightarrow> step_wp (st_bind m k) Q R v s"
  unfolding st_bind_def
  by (rule db_wp_bind, erule db_wp_conseq) (auto simp: step_post_def intro!: db_wp_ret split: sum.splits)

lemma step_wp_go: "Q x v s \<Longrightarrow> step_wp (st_go x) Q R v s"
  by (simp add: st_go_def step_post_def db_wp_ret)

lemma step_wp_return: "R v s \<Longrightarrow> step_wp (st_return e) Q R v s"
  by (simp add: st_return_def step_post_def db_wp_ret)

lemma step_wp_set: "Q () (f v) s \<Longrightarrow> step_wp (st_set f) Q R v s"
  by (simp add: st_set_def step_post_def db_wp_ret)

lemma step_wp_get: "Q (f v) v s \<Longrightarrow> step_wp (st_get f) Q R v s"
  by (simp add: st_get_def step_post_def db_wp_ret)

lemma step_wp_run:
  assumes "\<And>r flt flt' s'. m flt s = (r, flt', s') \<Longrightarrow> Q r v s'"
  shows "step_wp (st_run m) Q R v s"
  unfolding st_run_def
proof (rule db_wp_bind, rule db_wp_try)
  show "db_wp m (\<lambda>x. db_wp (db_ret (v, Inr (Inr x))) (step_post R Q) (\<lambda>_ _. False))
      (\<lambda>e. db_wp (db_ret (v, Inr (Inl e))) (step_post R Q) (\<lambda>_ _. False)) s"
    using assms by (auto simp: db_wp_def [of m] step_post_def intro!: db_wp_ret split: prod.splits sum.splits)
qed

lemma step_wp_conseq:
  "step_wp m Q R v s \<Longrightarrow> (\<And>x v' s'. Q x v' s' \<Longrightarrow> Q' x v' s') \<Longrightarrow> (\<And>v' s'. R v' s' \<Longrightarrow> R' v' s') \<Longrightarrow>
   step_wp m Q' R' v s"
  by (erule db_wp_conseq) (auto simp: step_post_def split: prod.splits sum.splits)

text \<open>A deletion that followed the rules, after the harmless calls \<open>pre\<close>.\<close>

definition items_authorised :: "'o nativeEmby \<Rightarrow> string \<Rightarrow> call list \<Rightarrow> string list \<Rightarrow> string list list \<Rightarrow> bool" where
  "items_authorised native userID tr ids pss \<longleftrightarrow> list_all2 (item_authorised native userID tr) ids pss"

lemma items_authorised_append:
  "items_authorised native u tr ids pss \<Longrightarrow> items_authorised native u (tr @ tr') ids pss"
  unfolding items_authorised_def by (erule list_all2_mono) (rule item_authorised_append)

definition harmless_run :: "call list \<Rightarrow> handlerVars \<Rightarrow> 'o service \<Rightarrow> bool" where
  "harmless_run c v s \<longleftrightarrow> (\<exists>tr. calls c s tr)"

text \<open>After the items of \<open>ids\<close>: the user is authorised, and \<open>hv_paths\<close> are what Emby told of them.\<close>

definition items_done :: "'o nativeEmby \<Rightarrow> deletionRequest \<Rightarrow> call list \<Rightarrow> string list \<Rightarrow> handlerVars \<Rightarrow> 'o service \<Rightarrow> bool" where
  "items_done native targ c ids v s \<longleftrightarrow>
     (\<exists>tr pss. calls c s tr \<and> user_authorised native targ (hv_userID v) tr \<and>
        items_authorised native (hv_userID v) tr ids pss \<and> hv_paths v = concat pss)"

lemma st_call_told:
  assumes "calls c s tr"
    and "\<And>body v' s' e. calls c s' (tr @ e) \<Longrightarrow> told path body (tr @ e) \<Longrightarrow> hv_userID v' = hv_userID v \<Longrightarrow> hv_paths v' = hv_paths v \<Longrightarrow> Q body v' s'"
    and "\<And>v' s' e. calls c s' (tr @ e) \<Longrightarrow> R v' s'"
  shows "step_wp (st_call native targ ''GET'' path query) Q R v s"
  unfolding st_call_def Let_def
proof (rule get_call [OF assms(1)], unfold prod.case)
  fix resp tr' and err :: "apiError option" and s' :: "'a service"
  assume s': "calls c s' tr'" "\<exists>e. tr' = tr @ e" and t: "err = None \<Longrightarrow> answered resp \<Longrightarrow> told path (body_of resp) tr'"
  then obtain e where e: "tr' = tr @ e" by auto
  show "db_wp (if err \<noteq> None \<or> \<not> answered resp then st_return err (v\<lparr>hv_native := resp\<rparr>)
      else st_go (body_of resp) (v\<lparr>hv_native := resp\<rparr>)) (step_post R Q) (\<lambda>_ _. False) s'"
    using s' t assms(2,3) unfolding e by (intro db_wp_if step_wp_return step_wp_go) auto
qed

lemma item_info_done:
  assumes s: "calls c s tr" and u: "user_authorised native targ (hv_userID v) tr"
    and ids: "items_authorised native (hv_userID v) tr ids pss" "hv_paths v = concat pss"
    and item: "told (''/Users/'' @ hv_userID v @ ''/Items/'' @ i) b tr" "ne_Item native b = Some (i, True)"
  shows "step_wp (item_info native targ i) (\<lambda>_. items_done native targ c (ids @ [i])) (harmless_run c) v s"
proof -
  have final: "items_done native targ c (ids @ [i]) (v2\<lparr>hv_paths := hv_paths v @ found\<rparr>) s2"
    if "calls c s2 (tr @ e)" "told (''/Items/'' @ i @ ''/DeleteInfo'') b2 (tr @ e)" "ne_Paths native b2 = Some found"
      "hv_userID v2 = hv_userID v" "hv_paths v2 = hv_paths v" for e b2 found v2 and s2 :: "'a service"
  proof -
    have "item_authorised native (hv_userID v) (tr @ e) i found"
      unfolding item_authorised_def using that(2,3) item told_append by blast
    then have "items_authorised native (hv_userID v) (tr @ e) (ids @ [i]) (pss @ [found])"
      using items_authorised_append [OF ids(1)] by (simp add: items_authorised_def list_all2_appendI)
    then show ?thesis unfolding items_done_def using that ids(2) user_authorised_append [OF u]
      by (intro exI [of _ "tr @ e"] exI [of _ "pss @ [found]"]) simp
  qed
  have stop: "harmless_run c v1 s1" if "calls c s1 (tr @ e)" for v1 e and s1 :: "'a service"
    using that by (auto simp: harmless_run_def)
  show ?thesis
    unfolding item_info_def st_stage_def
    by (rule step_wp_bind, rule step_wp_set, rule step_wp_bind, rule st_call_told [OF s])
      (auto intro!: step_wp_return step_wp_set intro: final stop simp del: append_Cons split: option.split)
qed

lemma item_paths_done:
  assumes "items_done native targ c ids v s"
  shows "step_wp (item_paths native targ i) (\<lambda>_. items_done native targ c (ids @ [i])) (harmless_run c) v s"
proof -
  from assms obtain tr pss where s: "calls c s tr" "user_authorised native targ (hv_userID v) tr"
    "items_authorised native (hv_userID v) tr ids pss" "hv_paths v = concat pss" by (auto simp: items_done_def)
  have stop: "harmless_run c v1 s1" if "calls c s1 (tr @ e)" for v1 e and s1 :: "'a service"
    using that by (auto simp: harmless_run_def)
  have info: "step_wp (item_info native targ i) (\<lambda>_. items_done native targ c (ids @ [i])) (harmless_run c) v1 s1"
    if "calls c s1 (tr @ e)" "told (''/Users/'' @ hv_userID v @ ''/Items/'' @ i) b (tr @ e)"
      "ne_Item native b = Some (i, True)" "hv_userID v1 = hv_userID v" "hv_paths v1 = hv_paths v"
    for b e v1 and s1 :: "'a service"
    by (rule item_info_done [OF that(1)])
      (use that s user_authorised_append items_authorised_append in \<open>auto simp del: append.simps\<close>)
  show ?thesis
    unfolding item_paths_def st_stage_def
    by (rule step_wp_bind, rule step_wp_set, rule step_wp_bind, rule step_wp_get, rule step_wp_bind,
        rule st_call_told [OF s(1)])
      (auto intro: step_wp_return info stop)
qed

lemma all_item_paths_done:
  "items_done native targ c done' v s \<Longrightarrow>
   step_wp (all_item_paths native targ ids) (\<lambda>_. items_done native targ c (done' @ ids)) (harmless_run c) v s"
proof (induction ids arbitrary: done' v s)
  case (Cons i ids)
  show ?case
    unfolding all_item_paths.simps
    by (rule step_wp_bind, rule step_wp_conseq, rule item_paths_done [OF Cons.prems])
      (use Cons.IH [of "done' @ [i]"] in auto)
qed (simp add: step_wp_go)

section \<open>A deletion follows the rules\<close>

text \<open>The plan was prepared for the paths, with the harmless calls that end \<open>pre\<close>.\<close>

definition planned_for ::
  "(string list \<Rightarrow> ('o service, EmbyDeletionPlan) dbm) \<Rightarrow> call list \<Rightarrow> call list \<Rightarrow> string list \<Rightarrow> EmbyDeletionPlan \<Rightarrow> bool" where
  "planned_for prepare c pre paths plan \<longleftrightarrow>
     (\<exists>a b s0 flt flt' s1. pre = a @ b \<and> sv_calls s0 = c @ a \<and> prepare paths flt s0 = (Inr plan, flt', s1) \<and>
        sv_calls s1 = c @ pre)"

text \<open>
  The calls of a deletion: the harmless ones \<open>pre\<close>, after which user and items are authorised and the plan is made;
  the deletion in Emby; and, only when Emby answered that it succeeded, the run over the plan.
\<close>

definition lawful_deletion ::
  "(string list \<Rightarrow> ('o service, EmbyDeletionPlan) dbm) \<Rightarrow> 'o nativeEmby \<Rightarrow> httpRequest \<Rightarrow> deletionRequest \<Rightarrow>
   call list \<Rightarrow> call list \<Rightarrow> bool" where
  "lawful_deletion prepare native request targ c tr \<longleftrightarrow>
     (\<exists>pre ans rest userID pss plan.
        tr = pre @ Native (rq_Method request) (dr_path targ) ans # rest \<and> list_all harmless pre \<and>
        user_authorised native targ userID pre \<and> items_authorised native userID pre (dr_ids targ) pss \<and>
        planned_for prepare c pre (concat pss) plan \<and>
        (case ans of
           Some (status, _) \<Rightarrow>
             if successful_status status then \<exists>outcomes finished. plan_trace (plan_targets plan) outcomes finished rest
             else rest = []
         | None \<Rightarrow> rest = []))"

definition closure_post ::
  "(string list \<Rightarrow> ('o service, EmbyDeletionPlan) dbm) \<Rightarrow> 'o nativeEmby \<Rightarrow> httpRequest \<Rightarrow> deletionRequest \<Rightarrow>
   call list \<Rightarrow> handlerVars \<Rightarrow> 'o service \<Rightarrow> bool" where
  "closure_post prepare native request targ c v s \<longleftrightarrow>
     (\<exists>tr. sv_calls s = c @ tr \<and>
        (list_all harmless tr \<or> \<not> dr_confirmation targ \<and> lawful_deletion prepare native request targ c tr))"

lemma harmless_closure: "harmless_run c v s \<Longrightarrow> closure_post prepare native request targ c v s"
  by (auto simp: harmless_run_def calls_def closure_post_def)

text \<open>What is known once the plan is there.\<close>

definition plan_ready ::
  "(string list \<Rightarrow> ('o service, EmbyDeletionPlan) dbm) \<Rightarrow> 'o nativeEmby \<Rightarrow> deletionRequest \<Rightarrow> nat \<Rightarrow> call list \<Rightarrow>
   EmbyDeletionPlan \<Rightarrow> handlerVars \<Rightarrow> 'o service \<Rightarrow> bool" where
  "plan_ready prepare native targ self c plan v s \<longleftrightarrow>
     (\<exists>pre userID pss. calls c s pre \<and> user_authorised native targ userID pre \<and>
        items_authorised native userID pre (dr_ids targ) pss \<and> planned_for prepare c pre (concat pss) plan \<and>
        hv_plan v = Some plan \<and> plan_owner plan = self \<and> \<not> plan_attempted plan \<and> plan_targets plan \<noteq> [] \<and>
        (\<forall>t \<in> set (plan_targets plan). file_ParentID (dtg_file t) \<noteq> ''''))"

lemma prepare_ready:
  assumes "items_done native targ c (dr_ids targ) v s"
  shows "step_wp (prepare_deletion self fs net emby ToLower)
    (plan_ready (PrepareEmbyDeletionCtx self fs net emby ToLower) native targ self c) (harmless_run c) v s"
proof -
  from assms obtain tr pss where s: "calls c s tr" "user_authorised native targ (hv_userID v) tr"
    "items_authorised native (hv_userID v) tr (dr_ids targ) pss" "hv_paths v = concat pss" by (auto simp: items_done_def)
  show ?thesis
    unfolding prepare_deletion_def st_stage_def
  proof (rule step_wp_bind, rule step_wp_set, rule step_wp_bind, rule step_wp_get, rule step_wp_bind, rule step_wp_run)
    let ?v = "v\<lparr>hv_stage := ''source-preflight''\<rparr>"
    fix r flt flt' s' assume run: "PrepareEmbyDeletionCtx self fs net emby ToLower (hv_paths ?v) flt s = (r, flt', s')"
    from prepared_plan [OF run] obtain e where e: "sv_calls s' = sv_calls s @ e" "list_all is_page e"
      and sound: "case r of Inl _ \<Rightarrow> True
        | Inr plan \<Rightarrow> \<exists>libs flt1 s1. embyDeletionLibraries fs emby flt s = (Inr libs, flt1, s1) \<and> plan_sound self e libs plan"
      by blast
    have s': "calls c s' (tr @ e)" using calls_more [OF s(1) e(1) pages_harmless [OF e(2)]] .
    have stop: "harmless_run c w s'" for w using s' by (auto simp: harmless_run_def)
    have ready: "plan_ready (PrepareEmbyDeletionCtx self fs net emby ToLower) native targ self c plan
        (?v\<lparr>hv_plan := Some plan\<rparr>) s'" if "r = Inr plan" for plan
    proof -
      have "planned_for (PrepareEmbyDeletionCtx self fs net emby ToLower) c (tr @ e) (concat pss) plan"
        unfolding planned_for_def
        by (rule exI [of _ tr], rule exI [of _ e], rule exI [of _ s], rule exI [of _ flt], rule exI [of _ flt'],
            rule exI [of _ s']) (use run s(1,4) s' that in \<open>auto simp: calls_def\<close>)
      moreover from sound that obtain libs where "plan_sound self e libs plan" by auto
      ultimately show ?thesis
        using s' user_authorised_append [OF s(2)] items_authorised_append [OF s(3)]
        unfolding plan_ready_def plan_sound_def
        by (intro exI [of _ "tr @ e"] exI [of _ "hv_userID v"] exI [of _ pss]) auto
    qed
    show "step_wp (case r of
       Inl e \<Rightarrow>
         st_bind (st_set (\<lambda>v. v\<lparr>hv_failure := err_text e\<rparr>)) (\<lambda>_.
         st_return (Some (HTTPError 409
           ''cannot safely resolve all original 115 videos for these paths; no media was deleted'')))
     | Inr plan \<Rightarrow> st_bind (st_set (\<lambda>v. v\<lparr>hv_plan := Some plan\<rparr>)) (\<lambda>_. st_go plan))
      (plan_ready (PrepareEmbyDeletionCtx self fs net emby ToLower) native targ self c) (harmless_run c) ?v s'"
      using stop ready by (cases r) (auto intro!: step_wp_bind step_wp_set step_wp_return step_wp_go)
  qed
qed

text \<open>The deletion itself, and the recycling behind it.\<close>

lemma recycled:
  assumes "sv_calls s = c @ pre @ [Native (rq_Method request) (dr_path targ) (Some (status, content))]"
    "successful_status status" "list_all harmless pre" "\<not> dr_confirmation targ"
    "user_authorised native targ u pre" "items_authorised native u pre (dr_ids targ) pss"
    "planned_for prepare c pre (concat pss) plan" "hv_plan v = Some plan" "plan_owner plan = self"
    "\<not> plan_attempted plan" "plan_targets plan \<noteq> []"
    "\<forall>t \<in> set (plan_targets plan). file_ParentID (dtg_file t) \<noteq> ''''"
  shows "step_wp (recycle_sources self net err) (\<lambda>_. closure_post prepare native request targ c)
    (closure_post prepare native request targ c) v s"
  unfolding recycle_sources_def
proof (rule step_wp_bind, rule step_wp_get, rule step_wp_bind, rule step_wp_run)
  fix r flt flt' s' assume "RecycleEmbyDeletionCtx self net (hv_plan v) flt s = (r, flt', s')"
  then have run: "RecycleEmbyDeletionCtx self net (Some plan) flt s = (r, flt', s')" using assms(8) by simp
  from recycled_plan [OF run assms(12)] assms(9-11) obtain outcomes fin rest where
    rest: "sv_calls s' = sv_calls s @ rest" "plan_trace (plan_targets plan) outcomes fin rest" by auto
  let ?tr = "pre @ Native (rq_Method request) (dr_path targ) (Some (status, content)) # rest"
  have "lawful_deletion prepare native request targ c ?tr"
    unfolding lawful_deletion_def
    by (rule exI [of _ pre], rule exI [of _ "Some (status, content)"], rule exI [of _ rest], rule exI [of _ u],
        rule exI [of _ pss], rule exI [of _ plan]) (use assms rest(2) in auto)
  with rest(1) assms(1,4) have post: "closure_post prepare native request targ c w s'" for w
    unfolding closure_post_def by (intro exI [of _ ?tr]) simp
  show "step_wp (case r of
       Inr (plan', None) \<Rightarrow>
         st_bind (st_set (\<lambda>v. v\<lparr>hv_plan := plan', hv_stage := ''completed''\<rparr>)) (\<lambda>_.
         if err \<noteq> None
         then st_return (Some (HTTPError 502
           ''Emby deleted the requested items and original 115 recycling completed, but the native response body could not be read. Do not repeat the deletion.''))
         else st_return None)
     | Inr (plan', Some e) \<Rightarrow>
         st_bind (st_set (\<lambda>v. v\<lparr>hv_plan := plan', hv_failure := err_text e\<rparr>)) (\<lambda>_.
         st_return (Some (HTTPError 502 (''Emby deleted the requested items, but recycling original 115 videos failed or is incomplete. '' @
           ''No rollback was performed; inspect the deletion audit and 115 before taking further action.''))))
     | Inl e \<Rightarrow> st_return (Some (OtherError e))) (\<lambda>_. closure_post prepare native request targ c)
      (closure_post prepare native request targ c) v s'"
    by (auto intro!: step_wp_bind step_wp_set step_wp_return post split: sum.split prod.split option.split)
qed

lemma deleted:
  assumes ready: "plan_ready prepare native targ self c plan v s" and "\<not> dr_confirmation targ"
  shows "step_wp (st_bind (native_deletion native targ request) (recycle_sources self net))
    (\<lambda>_. closure_post prepare native request targ c) (closure_post prepare native request targ c) v s"
proof -
  from ready obtain pre u pss where pre: "sv_calls s = c @ pre" "list_all harmless pre" "user_authorised native targ u pre"
    "items_authorised native u pre (dr_ids targ) pss" "planned_for prepare c pre (concat pss) plan"
    "hv_plan v = Some plan" "plan_owner plan = self" "\<not> plan_attempted plan" "plan_targets plan \<noteq> []"
    "\<forall>t \<in> set (plan_targets plan). file_ParentID (dtg_file t) \<noteq> ''''"
    by (auto simp: plan_ready_def calls_def)
  have failed: "closure_post prepare native request targ c w s'"
    if "sv_calls s' = sv_calls s @ [Native (rq_Method request) (dr_path targ) ans]"
      "\<forall>status content. ans = Some (status, content) \<longrightarrow> \<not> successful_status status" for w ans s'
  proof -
    have "lawful_deletion prepare native request targ c (pre @ [Native (rq_Method request) (dr_path targ) ans])"
      unfolding lawful_deletion_def
      by (rule exI [of _ pre], rule exI [of _ ans], rule exI [of _ "[]"], rule exI [of _ u],
          rule exI [of _ pss], rule exI [of _ plan]) (use pre that(2) in \<open>auto split: option.split\<close>)
    with that(1) pre(1) assms(2) show ?thesis unfolding closure_post_def by auto
  qed
  have go: "step_wp (recycle_sources self net err) (\<lambda>_. closure_post prepare native request targ c)
        (closure_post prepare native request targ c) w s'"
    if "sv_calls s' = sv_calls s @ [Native (rq_Method request) (dr_path targ) (Some (status, content))]"
      "successful_status status" "hv_plan w = hv_plan v" for err w status content and s' :: "'a service"
    by (rule recycled) (use that pre assms(2) in auto)
  show ?thesis
  proof (rule step_wp_bind, unfold native_deletion_def Let_def, rule db_wp_bind,
      rule db_wp_conseq [OF native_call_exchanged])
    fix r and s' :: "'a service" assume x: "exchanged (rq_Method request) (dr_path targ) s r s'"
    obtain resp err where r: "r = (resp, err)" by (cases r)
    from x [unfolded exchanged_def r fst_conv snd_conv] obtain ans where ans: "sv_calls s' = sv_calls s @ [Native (rq_Method request) (dr_path targ) ans]"
      "if answered resp then \<exists>status content. ans = Some (status, content) \<and> successful_status status \<and>
           (err = None \<longrightarrow> content = Some (body_of resp))
       else \<forall>status content. ans = Some (status, content) \<longrightarrow> \<not> successful_status status"
      by blast
    show "db_wp (case r of (resp, err) \<Rightarrow>
        if \<not> answered resp then st_return err (v\<lparr>hv_stage := ''native-deletion'', hv_native := resp\<rparr>)
        else st_go err (v\<lparr>hv_stage := ''native-deletion'', hv_native := resp,
               hv_nativeDeleted := True, hv_stage := ''source-recycling''\<rparr>))
      (step_post (closure_post prepare native request targ c)
        (\<lambda>err v' s'. step_wp (recycle_sources self net err) (\<lambda>_. closure_post prepare native request targ c)
          (closure_post prepare native request targ c) v' s')) (\<lambda>_ _. False) s'"
      unfolding r prod.case
      by (intro db_wp_if step_wp_return step_wp_go) (use ans go failed in auto)
  qed simp
qed

lemma confirmed_or_deleted:
  assumes "plan_ready prepare native targ self c plan v s"
  shows "step_wp (confirm_or_delete self net native request targ plan)
    (\<lambda>_. closure_post prepare native request targ c) (closure_post prepare native request targ c) v s"
proof -
  have "closure_post prepare native request targ c u s" for u
    using assms by (intro harmless_closure) (auto simp: plan_ready_def harmless_run_def)
  then have "step_wp (confirm_deletion native plan) (\<lambda>_. closure_post prepare native request targ c)
      (closure_post prepare native request targ c) v s"
    unfolding confirm_deletion_def Let_def by (auto intro!: step_wp_return split: option.split sum.split)
  then show ?thesis
    unfolding confirm_or_delete_def using deleted [OF assms] by simp
qed

lemma authorize_step_done:
  assumes "calls c s []" "hv_paths v = []"
  shows "step_wp (authorize_step native targ) (\<lambda>_. items_done native targ c []) (harmless_run c) v s"
  unfolding authorize_step_def st_stage_def
proof (rule step_wp_bind, rule step_wp_set, rule db_wp_bind, rule db_wp_conseq [OF authorize_calls [OF assms(1)]])
  fix r and s' :: "'a service" assume x: "authorised_so_far native targ c r s'"
  obtain u resp err where r: "r = (u, resp, err)" by (cases r)
  from x obtain tr where tr: "calls c s' tr"
    "err = None \<Longrightarrow> answered resp \<Longrightarrow> user_authorised native targ u tr" by (auto simp: authorised_so_far_def r)
  have stop: "harmless_run c w s'" for w using tr(1) by (auto simp: harmless_run_def)
  have go: "items_done native targ c [] w s'"
    if "\<not> (err \<noteq> None \<or> \<not> answered resp)" "hv_userID w = u" "hv_paths w = []" for w
    using tr that unfolding items_done_def items_authorised_def
    by (intro exI [of _ tr] exI [of _ "[]"]) simp
  show "db_wp (case r of (userID, resp, err) \<Rightarrow>
       let v' = v\<lparr>hv_stage := ''authorization''\<rparr>\<lparr>hv_userID := userID, hv_native := resp\<rparr> in
       if err \<noteq> None \<or> \<not> answered resp then st_return err v' else st_go () v')
      (step_post (harmless_run c) (\<lambda>_. items_done native targ c [])) (\<lambda>_ _. False) s'"
    unfolding r prod.case Let_def using stop go assms(2)
    by (intro db_wp_if step_wp_return step_wp_go) auto
qed simp

lemma closure_lawful:
  assumes "calls c s []" "hv_paths v = []"
  shows "step_wp (deletion_steps self fs net emby native ToLower request targ)
    (\<lambda>_. closure_post (PrepareEmbyDeletionCtx self fs net emby ToLower) native request targ c)
    (closure_post (PrepareEmbyDeletionCtx self fs net emby ToLower) native request targ c) v s"
  unfolding deletion_steps_def
  by (rule step_wp_bind, rule step_wp_conseq, rule authorize_step_done [OF assms], rule step_wp_bind, rule step_wp_conseq,
      rule all_item_paths_done, assumption, rule step_wp_bind, rule step_wp_conseq, rule prepare_ready)
    (auto intro: confirmed_or_deleted harmless_closure)

section \<open>The handler\<close>

definition handler_safe ::
  "(string list \<Rightarrow> ('o service, EmbyDeletionPlan) dbm) \<Rightarrow> 'o nativeEmby \<Rightarrow> (string \<Rightarrow> string) \<Rightarrow> httpRequest \<Rightarrow>
   call list \<Rightarrow> 'o service \<Rightarrow> bool" where
  "handler_safe prepare native ToLower request c s \<longleftrightarrow>
     (\<exists>tr. sv_calls s = c @ tr \<and>
        (list_all harmless tr \<or>
         (\<exists>targ. parseEmbyDeletion native ToLower request = Inr targ \<and> \<not> dr_confirmation targ \<and>
            lawful_deletion prepare native request targ c tr)))"

lemma nothing_called: "sv_calls s = c \<Longrightarrow> handler_safe prepare native ToLower request c s"
  unfolding handler_safe_def by (intro exI [of _ "[]"]) simp

lemma closure_safe:
  "closure_post prepare native request targ c v s \<Longrightarrow> parseEmbyDeletion native ToLower request = Inr targ \<Longrightarrow>
   handler_safe prepare native ToLower request c s"
  unfolding closure_post_def handler_safe_def by blast

lemma handler_safe_quiet:
  "handler_safe prepare native ToLower request c s \<Longrightarrow> sv_calls s' = sv_calls s \<Longrightarrow>
   handler_safe prepare native ToLower request c s'"
  by (simp add: handler_safe_def)

lemma mutation_safe:
  assumes "parseEmbyDeletion native ToLower request = Inr targ" "sv_calls s = c" "hv_paths v = []"
  shows "db_wp (TryMediaMutation (deletion_steps self fs net emby native ToLower request targ v))
    (\<lambda>_. handler_safe (PrepareEmbyDeletionCtx self fs net emby ToLower) native ToLower request c)
    (\<lambda>_. handler_safe (PrepareEmbyDeletionCtx self fs net emby ToLower) native ToLower request c) s"
proof -
  let ?safe = "handler_safe (PrepareEmbyDeletionCtx self fs net emby ToLower) native ToLower request c"
  have "calls c (s\<lparr>sv_mediaMu := True\<rparr>) []" using assms(2) by (simp add: calls_def)
  from closure_lawful [OF this assms(3)]
  have body: "db_wp (deletion_steps self fs net emby native ToLower request targ v) (\<lambda>_. ?safe) (\<lambda>_. ?safe)
      (s\<lparr>sv_mediaMu := True\<rparr>)"
    by (rule db_wp_conseq) (auto simp: step_post_def intro: closure_safe [OF _ assms(1)] split: prod.splits sum.splits)
  have unlock: "db_wp (db_bind (db_upd (\<lambda>s. s\<lparr>sv_mediaMu := False\<rparr>)) (\<lambda>_.
      case r of Inl e \<Rightarrow> db_fail e | Inr x \<Rightarrow> db_ret x)) (\<lambda>_. ?safe) (\<lambda>_. ?safe) s'" if "?safe s'" for s' r
    using handler_safe_quiet [OF that]
    by (auto intro!: db_wp_bind db_wp_upd db_wp_fail db_wp_ret split: sum.split)
  show ?thesis
    unfolding TryMediaMutation_def holding_media_def
    by (rule db_wp_bind, rule db_wp_get, rule db_wp_if, rule db_wp_fail, rule nothing_called, rule assms(2),
        rule db_wp_bind, rule db_wp_upd, rule db_wp_bind, rule db_wp_try, rule db_wp_conseq [OF body]; rule unlock)
qed

lemma handle_request_safe:
  "sv_calls s = c \<Longrightarrow> db_wp (handle_request self fs net emby native ToLower hasQueue request)
     (\<lambda>_. handler_safe (PrepareEmbyDeletionCtx self fs net emby ToLower) native ToLower request c)
     (\<lambda>_ _. False) s"
  unfolding handle_request_def Let_def
proof (rule db_wp_case_sum, goal_cases)
  case (2 targ)
  show ?case
    unfolding embyDeletionURL_def
  proof (rule db_wp_bind, rule db_wp_bind, rule db_wp_conseq [OF setting_or_config_wp], rule db_wp_ret, goal_cases)
    case (1 raw s')
    then have "sv_calls s' = c" using 2(1) by (simp add: quiet_def)
    then show ?case
      by (intro db_wp_case_option db_wp_if db_wp_ret nothing_called)
        (auto intro!: db_wp_bind db_wp_try db_wp_ret
          intro: db_wp_conseq [OF mutation_safe [OF 2(2)]] split: sum.split)
  qed simp
qed (auto intro: db_wp_ret nothing_called)

lemma logged_quiet:
  "db_within quiet m \<Longrightarrow> db_wp (logged m) (\<lambda>_. quiet s) (\<lambda>_ _. False) s"
  unfolding logged_def
  by (rule db_wp_bind, rule db_wp_try, rule db_wp_conseq, erule db_within_wpD) (rule db_wp_ret, assumption)+

lemma now_wp: "db_wp time_Now (\<lambda>_. quiet s) (\<lambda>_ _. False) s"
  by (simp add: db_wp_def time_Now_def quiet_def)

lemma handler_lawful:
  assumes "sv_calls s = c"
  shows "db_wp (handleEmbyDeletion self fs net emby native ToLower hasQueue texts request)
    (\<lambda>_. handler_safe (PrepareEmbyDeletionCtx self fs net emby ToLower) native ToLower request c) (\<lambda>_ _. False) s"
  unfolding handleEmbyDeletion_def
proof (rule db_wp_bind, rule db_wp_conseq [OF now_wp], goal_cases)
  case (1 started s1)
  have audit: "db_within quiet (at_now (AddAuditLog r) :: ('a service, nat) dbm)" for r
    unfolding at_now_def by (intro within_rules quiet_rules)
  have s1: "sv_calls s1 = c" using 1 assms by (simp add: quiet_def)
  show ?case
  proof (rule db_wp_bind, rule db_wp_conseq [OF handle_request_safe [OF s1]], goal_cases)
    case (1 vr s2)
    obtain v reply where vr: "vr = (v, reply)" by (cases vr)
    show ?case
      unfolding vr prod.case
      by (rule db_wp_bind, rule db_wp_conseq [OF now_wp], rule db_wp_bind, rule db_wp_conseq [OF now_wp],
          rule db_wp_bind, rule db_wp_conseq [OF logged_quiet [OF audit]], rule db_wp_ret,
          rule handler_safe_quiet [OF 1]) (simp_all add: quiet_def)
  qed simp
qed simp

text \<open>
  C4. Whatever request comes in, and whatever Emby, 115, the database and the file system answer, a run of the
  deletion endpoint appends only harmless calls (pages read from 115, GET exchanges with Emby) to the calls made so
  far, unless the request parsed as a deletion that asks for no confirmation. Then everything before the deletion is
  harmless; among the answers seen by then Emby said that the caller's device has a session of a user, that the user
  is an enabled administrator, for every requested item that the user may delete it and which paths Emby would
  delete, and the plan was prepared for exactly those paths; the deletion is sent once, to the endpoint of the
  request; and only if Emby answered that it succeeded are sources recycled on 115, along that plan.
\<close>

theorem deletion_only_authorised:
  "\<exists>tr. sv_calls (db_state (handleEmbyDeletion self fs net emby native ToLower hasQueue texts request flt s)) =
      sv_calls s @ tr \<and>
     (list_all harmless tr \<or>
      (\<exists>targ. parseEmbyDeletion native ToLower request = Inr targ \<and> \<not> dr_confirmation targ \<and>
         lawful_deletion (PrepareEmbyDeletionCtx self fs net emby ToLower) native request targ (sv_calls s) tr))"
proof -
  have "handler_safe (PrepareEmbyDeletionCtx self fs net emby ToLower) native ToLower request (sv_calls s)
      (db_state (handleEmbyDeletion self fs net emby native ToLower hasQueue texts request flt s))"
    by (rule db_wp_state, rule db_wp_conseq, rule handler_lawful [OF refl]) auto
  then show ?thesis unfolding handler_safe_def .
qed

end
