(* ===== verification/Settings.thy ===== *)
theory Settings
  imports ImportService MediaPaths Drive115
begin

text \<open>
  The deployment settings, \<open>internal/service/settings.go\<close>: which keys there are, what a value must look like,
  the update that writes checked values together, the state shown to a user, in which secrets are blank, and the
  check whether the outside services answer. A map of settings is an association list in the order it is ranged
  over. The later
  sections relate what an update accepts to what the import reads.
\<close>

section \<open>Keys\<close>

definition secretSettingKeys :: "string list" where
  "secretSettingKeys =
     [''115_cookie'', ''emby_api_key'', ''resource_api_token'', ''clouddrive_api_token'', ''clouddrive_webhook_secret'']"

definition allowedSettingKeys :: "string list" where
  "allowedSettingKeys =
     [''115_cookie'', ''c115_cid_map'', ''emby_url'', ''emby_api_key'',
      ''media_root'', ''strm_root'', ''emby_media_prefix'', ''media_excluded_roots'',
      ''clouddrive_url'', ''clouddrive_api_token'', ''clouddrive_mount_path'', ''clouddrive_source_path'',
      ''clouddrive_c115_account_id'', ''clouddrive_webhook_secret'', ''clouddrive_webhook_debounce_seconds'',
      ''resource_api_url'', ''resource_api_token'', ''share_snapshot_interval_ms'',
      ''transfer_temp_dir'', ''transfer_min_free_bytes'', ''quark_download_proxy'', ''quark_autofill_target_id'',
      ''quark_download_connections'', ''dangerous_actions_enabled'']"

text \<open>The components of which the settings alone say whether they are configured.\<close>

definition set_up :: "(string \<times> string) list \<Rightarrow> string \<Rightarrow> bool" where
  "set_up settings key \<longleftrightarrow> TrimSpace (lookup_string settings key) \<noteq> ''''"

definition monitoredComponents :: "(string \<times> ((string \<times> string) list \<Rightarrow> bool)) list" where
  "monitoredComponents =
     [(''c115'', \<lambda>s. set_up s ''115_cookie''),
      (''emby'', \<lambda>s. set_up s ''emby_url'' \<and> set_up s ''emby_api_key''),
      (''clouddrive'', \<lambda>s. set_up s ''clouddrive_url'' \<and> set_up s ''clouddrive_mount_path''),
      (''resource'', \<lambda>s. set_up s ''resource_api_url'')]"

definition RedactSecrets :: "(string \<times> string) list \<Rightarrow> (string \<times> string) list" where
  "RedactSecrets values = map (\<lambda>(k, v). (k, if k \<in> set secretSettingKeys then '''' else v)) values"

section \<open>Values\<close>

text \<open>What the JSON decoder makes of a string map and of a string list, and \<open>net/url\<close> of an address.\<close>

record setting_decoders =
  sd_URL :: net_url
  sd_StringMap :: "string \<Rightarrow> error option"
  sd_Strings :: "string \<Rightarrow> error + string list"

definition max_milliseconds :: int where
  "max_milliseconds = (2 ^ 63 - 1) div 1000000"

definition parseShareSnapshotInterval :: "string \<Rightarrow> error + int64" where
  "parseShareSnapshotInterval text =
     (let value = TrimSpace text in
      if value = '''' then Inr 1000000000
      else let invalid = Inl (Errorf ''share_snapshot_interval_ms must be a nonnegative integer no greater than %d''
                 [show_int max_milliseconds]) in
        case Atoi value of
          None \<Rightarrow> invalid
        | Some milliseconds \<Rightarrow>
            if milliseconds < 0 \<or> milliseconds > max_milliseconds then invalid else Inr (milliseconds * 1000000))"

fun excluded_names :: "string list \<Rightarrow> string list \<Rightarrow> error + string list" where
  "excluded_names seen [] = Inr seen"
| "excluded_names seen (name # names) =
     (let immediate = Inl (Errorf ''media_excluded_roots must contain immediate directory names'' []) in
      case cleanRelative name ''excluded media root'' of
        Inl e \<Rightarrow> immediate
      | Inr clean \<Rightarrow>
          if clean = '''' \<or> Dir clean \<noteq> ''.'' then immediate
          else if clean \<in> set seen then Inl (Errorf ''media_excluded_roots must not contain duplicates'' [])
          else excluded_names (seen @ [clean]) names)"

definition parseMediaExcludedRoots :: "setting_decoders \<Rightarrow> string \<Rightarrow> error + string list" where
  "parseMediaExcludedRoots sd raw =
     (if TrimSpace raw = '''' then Inr []
      else case sd_Strings sd raw of
        Inl e \<Rightarrow> Inl (Wrapf ''decode media_excluded_roots: %w'' [] e)
      | Inr names \<Rightarrow> excluded_names [] names)"

definition invalid_url :: "setting_decoders \<Rightarrow> string \<Rightarrow> bool" where
  "invalid_url sd value =
     (case url_Parse (sd_URL sd) value of
        None \<Rightarrow> True
      | Some u \<Rightarrow> url_Host u = '''' \<or> (url_Scheme u \<noteq> ''http'' \<and> url_Scheme u \<noteq> ''https''))"

definition outside_range :: "string \<Rightarrow> int \<Rightarrow> int \<Rightarrow> bool" where
  "outside_range value low high = (case Atoi value of None \<Rightarrow> True | Some n \<Rightarrow> n < low \<or> n > high)"

definition path_settings :: "string list" where
  "path_settings = [''clouddrive_mount_path'', ''media_root'', ''strm_root'', ''emby_media_prefix'', ''transfer_temp_dir'']"

definition failure :: "error + 'a \<Rightarrow> error option" where
  "failure r = (case r of Inl e \<Rightarrow> Some e | Inr _ \<Rightarrow> None)"

text \<open>The checks of a trimmed value; the result is the error of the first that fails.\<close>

definition check_setting :: "setting_decoders \<Rightarrow> string \<Rightarrow> string \<Rightarrow> error option" where
  "check_setting sd key value =
     (if suffix ''_url'' key \<and> value \<noteq> '''' \<and> invalid_url sd value
      then Some (Errorf ''%s must be an HTTP or HTTPS URL'' [key])
      else if key \<in> set path_settings \<and> value \<noteq> '''' \<and> \<not> IsAbs value
      then Some (Errorf ''%s must be an absolute path'' [key])
      else if key = ''dangerous_actions_enabled'' \<and> value \<noteq> ''true'' \<and> value \<noteq> ''false''
      then Some (Errorf ''dangerous_actions_enabled must be true or false'' [])
      else if key = ''share_snapshot_interval_ms'' \<and> failure (parseShareSnapshotInterval value) \<noteq> None
      then failure (parseShareSnapshotInterval value)
      else if key = ''quark_autofill_target_id'' \<and> (length value > 200 \<or> ContainsAny value [slash, CHR 0x00])
      then Some (Errorf ''quark_autofill_target_id must be an opaque directory ID'' [])
      else if key = ''quark_download_connections'' \<and> value \<noteq> '''' \<and> outside_range value 1 8
      then Some (Errorf ''quark_download_connections must be between 1 and 8'' [])
      else if key = ''transfer_min_free_bytes'' \<and> value \<noteq> '''' \<and> outside_range value 0 (2 ^ 63 - 1)
      then Some (Errorf ''transfer_min_free_bytes must be a nonnegative integer'' [])
      else if key = ''clouddrive_webhook_debounce_seconds'' \<and> value \<noteq> '''' \<and> outside_range value 1 300
      then Some (Errorf ''clouddrive_webhook_debounce_seconds must be between 1 and 300'' [])
      else if key = ''c115_cid_map'' \<and> value \<noteq> '''' \<and> sd_StringMap sd value \<noteq> None
      then Some (Wrapf ''c115_cid_map must be a JSON object: %w'' [] (the (sd_StringMap sd value)))
      else if key = ''media_excluded_roots'' \<and> failure (parseMediaExcludedRoots sd value) \<noteq> None
      then failure (parseMediaExcludedRoots sd value)
      else None)"

section \<open>Updates\<close>

fun filter_settings :: "setting_decoders \<Rightarrow> (string \<times> string) list \<Rightarrow> error + (string \<times> string) list" where
  "filter_settings sd [] = Inr []"
| "filter_settings sd ((key, rawValue) # rest) =
     (if key \<notin> set allowedSettingKeys then Inl (Errorf ''unknown setting %q'' [quoted key])
      else let value = TrimSpace rawValue in
        if key \<in> set secretSettingKeys \<and> value = '''' then filter_settings sd rest
        else case check_setting sd key value of
          Some e \<Rightarrow> Inl e
        | None \<Rightarrow> map_sum id ((#) (key, value)) (filter_settings sd rest))"

definition UpdateSettings :: "setting_decoders \<Rightarrow> (string \<times> string) list \<Rightarrow> gotime \<Rightarrow> unit dbop" where
  "UpdateSettings sd values now =
     (case filter_settings sd values of
        Inl e \<Rightarrow> db_fail e
      | Inr filtered \<Rightarrow> SetSettingsAndDefaultAccountCookie filtered (lookup_string filtered ''115_cookie'') now)"

section \<open>Health\<close>

record ServiceHealth =
  he_Status :: string
  he_Message :: string
  he_Latency :: int64
  he_Details :: string

record SettingsState =
  st_Values :: "(string \<times> string) list"
  st_Configured :: "(string \<times> bool) list"
  st_Health :: "(string \<times> ServiceHealth) list"

text \<open>
  \<open>pr_NewRequest\<close> says whether an address makes a request, \<open>pr_Get\<close> is the exchange with its header and gives the
  status, \<open>pr_Health\<close> the state of CloudDrive2: whether it is ready, its message and its version.
\<close>

record 'o probes =
  pr_NewRequest :: "string \<Rightarrow> error option"
  pr_Get :: "string \<Rightarrow> (string \<times> string) option \<Rightarrow> ('o, int) dbm"
  pr_Health :: "('o, bool \<times> string \<times> string) dbm"

definition unconfigured :: "string \<Rightarrow> int64 \<Rightarrow> ServiceHealth" where
  "unconfigured message latency =
     \<lparr>he_Status = ''unconfigured'', he_Message = message, he_Latency = latency, he_Details = ''''\<rparr>"

definition unhealthy :: "string \<Rightarrow> int64 \<Rightarrow> ServiceHealth" where
  "unhealthy message latency = \<lparr>he_Status = ''error'', he_Message = message, he_Latency = latency, he_Details = ''''\<rparr>"

definition healthy :: "string \<Rightarrow> int64 \<Rightarrow> ServiceHealth" where
  "healthy message latency = \<lparr>he_Status = ''ok'', he_Message = message, he_Latency = latency, he_Details = ''''\<rparr>"

text \<open>The end of a check, with the milliseconds since its start.\<close>

definition timed ::
  "gotime \<Rightarrow> ('o service, 'a) dbm \<Rightarrow> (int64 \<Rightarrow> error + 'a \<Rightarrow> ServiceHealth) \<Rightarrow> ('o service, ServiceHealth) dbm" where
  "timed start m f =
     db_bind (db_try m) (\<lambda>r. db_bind time_Now (\<lambda>now. db_ret (f ((now - start) div 1000000) r)))"

definition config :: "string \<Rightarrow> ('o service, string) dbm" where
  "config key = db_bind (db_try (on_db (GetConfig key))) (\<lambda>r. db_ret (case r of Inr v \<Rightarrow> v | Inl _ \<Rightarrow> ''''))"

text \<open>The Chinese words of the messages: not configured, accessible, valid, responds, account, check failed, all, unusable, usable.\<close>

definition not_configured :: string where
  "not_configured = utf8 [0x672A, 0x914D, 0x7F6E]"

definition accessible :: string where
  "accessible = utf8 [0x53EF, 0x8BBF, 0x95EE, 0xFF0C]"

definition valid_word :: string where
  "valid_word = utf8 [0x6709, 0x6548]"

definition responds :: string where
  "responds = utf8 [0x54CD, 0x5E94]"

definition account_word :: string where
  "account_word = utf8 [0x8D26, 0x53F7]"

definition check_failed :: string where
  "check_failed = utf8 [0x68C0, 0x67E5, 0x5931, 0x8D25]"

definition all_of :: string where
  "all_of = utf8 [0x6240, 0x6709]"

definition unusable :: string where
  "unusable = utf8 [0x5747, 0x4E0D, 0x53EF, 0x7528]"

definition usable :: string where
  "usable = utf8 [0x53EF, 0x7528]"

definition quark_word :: string where
  "quark_word = utf8 [0x5938, 0x514B]"

definition resource_word :: string where
  "resource_word = utf8 [0x8D44, 0x6E90]"

definition check_emby :: "'o probes \<Rightarrow> gotime \<Rightarrow> ('o service, ServiceHealth) dbm" where
  "check_emby probes start =
     db_bind (setting ''emby_url'') (\<lambda>stored.
     db_bind (if stored = '''' then config ''emby_url'' else db_ret stored) (\<lambda>baseURL.
     if baseURL = '''' then db_ret (unconfigured (not_configured @ '' Emby URL'') 0)
     else db_bind (config ''emby_api_key'') (\<lambda>apiKey.
       if apiKey = '''' then db_ret (unconfigured (not_configured @ '' Emby API Key'') 0)
       else let address = strip_slashes baseURL @ ''/System/Info'' in
         if pr_NewRequest probes address \<noteq> None
         then db_ret (unhealthy (''Emby URL '' @ utf8 [0x65E0, 0x6548]) 0)
         else timed start (on_out (pr_Get probes address (Some (''X-Emby-Token'', apiKey)))) (\<lambda>latency r.
           case r of
             Inl e \<Rightarrow> unhealthy (utf8 [0x8FDE, 0x63A5, 0x8D85, 0x65F6, 0x6216, 0x62D2, 0x7EDD] @ '': '' @ err_text e) latency
           | Inr status \<Rightarrow>
               if status = 200 then healthy (''Emby '' @ accessible @ ''API Key '' @ valid_word) latency
               else unhealthy (''Emby '' @ responds @ '' HTTP '' @ show_int status) latency))))"

definition check_resource :: "'o probes \<Rightarrow> gotime \<Rightarrow> ('o service, ServiceHealth) dbm" where
  "check_resource probes start =
     db_bind (setting ''resource_api_url'') (\<lambda>url.
     if url = '''' then db_ret (unconfigured (not_configured @ resource_word @ '' API URL'') 0)
     else db_bind (setting ''resource_api_token'') (\<lambda>token.
       let address = strip_slashes url @ ''/api/v1/home/summary'' in
       case pr_NewRequest probes address of
         Some e \<Rightarrow> db_ret (unhealthy (err_text e) 0)
       | None \<Rightarrow>
           timed start (on_out (pr_Get probes address
               (if token \<noteq> '''' then Some (''Authorization'', ''Bearer '' @ token) else None))) (\<lambda>latency r.
             case r of
               Inl e \<Rightarrow> unhealthy (utf8 [0x65E0, 0x6CD5, 0x8FDE, 0x63A5, 0x8D44, 0x6E90, 0x670D, 0x52A1] @ '': '' @ err_text e) latency
             | Inr status \<Rightarrow>
                 if status = 200 then healthy (resource_word @ '' API '' @ accessible @ ''Token '' @ valid_word) latency
                 else unhealthy (resource_word @ '' API '' @ responds @ '' HTTP '' @ show_int status) latency)))"

definition check_clouddrive :: "'o probes \<Rightarrow> gotime \<Rightarrow> ('o service, ServiceHealth) dbm" where
  "check_clouddrive probes start =
     db_bind (config ''clouddrive_url'') (\<lambda>cloudURL.
     db_bind (setting ''clouddrive_mount_path'') (\<lambda>mountPath.
     if cloudURL = '''' \<or> mountPath = ''''
     then db_ret (unconfigured (not_configured @ '' CloudDrive2 URL '' @ utf8 [0x6216, 0x6302, 0x8F7D, 0x76EE, 0x5F55]) 0)
     else timed start (on_out (pr_Health probes)) (\<lambda>latency r.
       case r of
         Inl e \<Rightarrow> unhealthy (''CloudDrive2 gRPC '' @ check_failed @ '': '' @ err_text e) latency
       | Inr (ready, message, version) \<Rightarrow>
           if \<not> ready \<or> message \<noteq> ''''
           then unhealthy (if message = '''' then ''CloudDrive2 '' @ utf8 [0x5C1A, 0x672A, 0x5C31, 0x7EEA] else message) latency
           else (healthy (''CloudDrive2 gRPC '' @ utf8 [0x670D, 0x52A1, 0x5728, 0x7EBF]) latency)\<lparr>he_Details := version\<rparr>)))"

text \<open>The verdict over the accounts of a provider, with its messages; only the 115 check looks at the text of the error.\<close>

definition account_health ::
  "string \<Rightarrow> string \<Rightarrow> string \<Rightarrow> string \<Rightarrow> bool \<Rightarrow> int64 \<Rightarrow> error + DriveAccount list \<Rightarrow> ServiceHealth" where
  "account_health missing failing none some by_text latency r =
     (case r of
        Inl e \<Rightarrow>
          if by_text \<and> sublist ''no drive accounts configured'' (err_text e) then unconfigured missing latency
          else unhealthy (failing @ '': '' @ err_text e) latency
      | Inr accounts \<Rightarrow>
          if accounts = [] then unconfigured missing latency
          else let active = length (filter (\<lambda>a. acc_Status a = ''active'') accounts) in
            if active = 0 then unhealthy none latency
            else healthy (some @ '' '' @ show_nat active @ '' / '' @ show_nat (length accounts)) latency)"

definition CheckAvailability :: "'o providers \<Rightarrow> 'o probes \<Rightarrow> string \<Rightarrow> ('o service, ServiceHealth) dbm" where
  "CheckAvailability providers probes component =
     db_bind time_Now (\<lambda>start.
     if component = ''emby'' then check_emby probes start
     else if component = ''resource'' then check_resource probes start
     else if component = ''clouddrive'' then check_clouddrive probes start
     else if component = ''c115''
     then timed start (CheckAccounts providers ''115'')
            (account_health (not_configured @ '' 115 '' @ account_word) (''115 '' @ account_word @ check_failed)
               (all_of @ '' 115 '' @ account_word @ unusable) (''115 '' @ account_word @ usable) True)
     else if component = ''quark''
     then timed start (CheckAccounts providers ''quark'')
            (account_health (not_configured @ quark_word @ account_word) (quark_word @ account_word @ check_failed)
               (all_of @ quark_word @ account_word @ unusable) (quark_word @ account_word @ usable) False)
     else db_ret (unhealthy (utf8 [0x672A, 0x77E5, 0x7EC4, 0x4EF6]) 0))"

fun check_each_of :: "'o providers \<Rightarrow> 'o probes \<Rightarrow> string list \<Rightarrow> ('o service, (string \<times> ServiceHealth) list) dbm" where
  "check_each_of providers probes [] = db_ret []"
| "check_each_of providers probes (c # cs) =
     db_bind (CheckAvailability providers probes c) (\<lambda>h.
     db_bind (check_each_of providers probes cs) (\<lambda>hs. db_ret ((c, h) # hs)))"

definition CheckAll :: "'o providers \<Rightarrow> 'o probes \<Rightarrow> ('o service, (string \<times> ServiceHealth) list) dbm" where
  "CheckAll providers probes =
     check_each_of providers probes [''c115'', ''quark'', ''emby'', ''clouddrive'', ''resource'']"

definition SettingsService_State :: "'o providers \<Rightarrow> 'o probes \<Rightarrow> ('o service, SettingsState) dbm" where
  "SettingsService_State providers probes =
     db_bind (on_db GetAllSettings) (\<lambda>rows.
     let stored = filter (\<lambda>(k, _). k \<in> set allowedSettingKeys) rows;
         configured = map (\<lambda>(c, is_configured). (c, is_configured stored)) monitoredComponents in
     db_bind (on_db ListAccounts) (\<lambda>accounts.
     let owns = (\<lambda>kind. list_ex (\<lambda>a. acc_Type a = kind) accounts) in
     db_bind (CheckAll providers probes) (\<lambda>health.
     db_ret \<lparr>st_Values = RedactSecrets stored,
       st_Configured = AList.update ''quark'' (owns ''quark'') (AList.update ''c115'' (owns ''115'') configured),
       st_Health = health\<rparr>)))"

definition SettingsService_Get :: "string \<Rightarrow> string dbop" where
  "SettingsService_Get key = GetSetting key"

section \<open>What an update writes\<close>

lemma cookie_keeps_settings:
  "db_within (\<lambda>d d'. system_settings d' = system_settings d)
     (if cookie \<noteq> '''' then write_accounts (store_cookie cookie now) else db_ret ())"
  by (simp add: db_within_def write_accounts_def db_stmt_def db_ret_def Let_def split: prod.split)

lemma committed_after:
  assumes "db_tx (db_bind m (\<lambda>_. db_bind m' (\<lambda>_. db_ret (Commit ())))) [] d = (Inr (), [], d')"
    and "m [] d = (Inr (), [], mid)"
  shows "\<exists>x fs. m' [] mid = (Inr x, fs, d')"
proof -
  obtain r fs d1 where "m' [] mid = (r, fs, d1)" by (cases "m' [] mid")
  with assms show ?thesis by (cases r) (auto simp: db_tx_def db_bind_def db_ret_def split: prod.splits if_splits)
qed

lemma written_settings:
  assumes "SetSettingsAndDefaultAccountCookie kvs cookie now [] d = (Inr (), [], d')"
  shows "system_settings d' = foldl (\<lambda>rows kv. upsert_setting (fst kv) (snd kv) now rows) (system_settings d) kvs"
proof -
  let ?mid = "d\<lparr>system_settings := foldl (\<lambda>rows kv. upsert_setting (fst kv) (snd kv) now rows) (system_settings d) kvs\<rparr>"
  from committed_after [OF assms [unfolded SetSettingsAndDefaultAccountCookie_def] insert_settings_eval]
  obtain x fs where "(if cookie \<noteq> '''' then write_accounts (store_cookie cookie now) else db_ret ()) [] ?mid = (Inr x, fs, d')"
    by blast
  moreover have "system_settings (db_state ((if cookie \<noteq> '''' then write_accounts (store_cookie cookie now) else db_ret ()) [] ?mid)) =
      system_settings ?mid"
    using cookie_keeps_settings [of cookie now] unfolding db_within_def by (simp split: prod.splits)
  ultimately show ?thesis by simp
qed

lemma update_outcome:
  assumes "UpdateSettings sd vals now fs d = (r, fs', d')"
  shows "(\<exists>e. r = Inl e \<and> d' = d) \<or>
    r = Inr () \<and> (\<exists>kvs. filter_settings sd vals = Inr kvs \<and>
      system_settings d' = foldl (\<lambda>rows kv. upsert_setting (fst kv) (snd kv) now rows) (system_settings d) kvs)"
proof (cases "filter_settings sd vals")
  case (Inr kvs)
  let ?op = "SetSettingsAndDefaultAccountCookie kvs (lookup_string kvs ''115_cookie'') now"
  from Inr assms have run: "?op fs d = (r, fs', d')" by (simp add: UpdateSettings_def)
  show ?thesis
  proof (cases r)
    case (Inl e)
    then show ?thesis using settings_op.error_unchanged [of kvs "lookup_string kvs ''115_cookie''" now fs d e] run by simp
  next
    case (Inr x)
    then have "?op [] d = (Inr (), [], d')" using settings_op.success run by simp
    then show ?thesis using written_settings Inr \<open>filter_settings sd vals = Inr kvs\<close> by simp
  qed
qed (use assms in \<open>auto simp: UpdateSettings_def db_fail_def\<close>)

lemma filter_settings_cons:
  "filter_settings sd ((key, rawValue) # rest) = Inr kvs \<longleftrightarrow>
     key \<in> set allowedSettingKeys \<and>
     (\<exists>kvs'. filter_settings sd rest = Inr kvs' \<and>
        (if key \<in> set secretSettingKeys \<and> TrimSpace rawValue = '''' then kvs = kvs'
         else check_setting sd key (TrimSpace rawValue) = None \<and> kvs = (key, TrimSpace rawValue) # kvs'))"
  by (cases "filter_settings sd rest") (auto simp: Let_def split: option.splits)

lemma filtered_checked:
  "filter_settings sd vals = Inr kvs \<Longrightarrow> (k, v) \<in> set kvs \<Longrightarrow>
   k \<in> set allowedSettingKeys \<and> check_setting sd k v = None \<and> TrimSpace v = v"
proof (induction vals arbitrary: kvs)
  case (Cons kv vals)
  then show ?case
    by (cases kv) (auto simp: filter_settings_cons simp del: filter_settings.simps(2) split: if_splits)
qed simp

lemma filtered_keys:
  "filter_settings sd vals = Inr kvs \<Longrightarrow> set (map fst kvs) \<subseteq> set (map fst vals) \<and>
     (distinct (map fst vals) \<longrightarrow> distinct (map fst kvs))"
proof (induction vals arbitrary: kvs)
  case (Cons kv vals)
  obtain key raw where kv: "kv = (key, raw)" by (cases kv)
  with Cons.prems obtain kvs' where "filter_settings sd vals = Inr kvs'" "kvs = kvs' \<or> kvs = (key, TrimSpace raw) # kvs'"
    by (auto simp: filter_settings_cons simp del: filter_settings.simps(2) split: if_splits)
  with Cons.IH [OF this(1)] kv show ?case by (auto simp del: set_map)
qed simp

lemma filtered_map:
  "filter_settings sd vals = Inr kvs \<Longrightarrow> distinct (map fst vals) \<Longrightarrow>
   map_of kvs k = (case map_of vals k of
       None \<Rightarrow> None
     | Some v \<Rightarrow> if k \<in> set secretSettingKeys \<and> TrimSpace v = '''' then None else Some (TrimSpace v))"
proof (induction vals arbitrary: kvs)
  case (Cons kv vals)
  obtain key raw where kv: "kv = (key, raw)" by (cases kv)
  with Cons.prems(2) have "map_of vals key = None" by (simp add: map_of_eq_None_iff)
  with Cons kv show ?case
    by (auto simp: filter_settings_cons simp del: filter_settings.simps(2) split: if_splits)
qed simp

section \<open>What the import reads of them\<close>

lemma read_digits_ge: "read_digits base acc s = Some n \<Longrightarrow> 0 < base \<Longrightarrow> acc \<le> n"
proof (induction base acc s rule: read_digits.induct)
  case (2 base acc c s)
  then obtain d where d: "digit_value c = Some d" "d < base" "read_digits base (base * acc + d) s = Some n"
    by (auto split: option.splits if_splits)
  with 2 have "base * acc + d \<le> n" by auto
  moreover from \<open>0 < base\<close> have "acc \<le> base * acc" by simp
  ultimately show ?case by linarith
qed simp

text \<open>The longest run of octal digits in front, read in base 8, is no larger than the whole in base 10.\<close>

lemma read_octal_le:
  "read_digits 10 acc s = Some n \<Longrightarrow> acc' \<le> acc \<Longrightarrow>
   \<exists>m. read_digits 8 acc' (filter (\<lambda>c. c \<noteq> CHR ''_'') (takeWhile (\<lambda>c. c \<in> set ''01234567_'') s)) = Some m \<and> m \<le> n"
proof (induction s arbitrary: acc acc')
  case Nil
  then show ?case by simp
next
  case (Cons c s)
  then obtain d where d: "digit_value c = Some d" "d < 10" "read_digits 10 (10 * acc + d) s = Some n"
    by (auto split: option.splits if_splits)
  have "c \<noteq> CHR ''_''" using d(1) by (auto simp: digit_value_def)
  moreover have "d < 8" if "c \<in> set ''01234567_''"
    using that d(1) by (auto simp: digit_value_def)
  moreover have "acc' \<le> n" using read_digits_ge [OF Cons.prems(1)] Cons.prems(2) by simp
  moreover have "8 * acc' + d \<le> 10 * acc + d" using Cons.prems(2) by simp
  ultimately show ?case using Cons.IH [OF d(3)] d(1) by auto
qed

lemma decimal_char:
  assumes "digit_value c = Some d" "d < 10"
  shows "c \<in> set ''0123456789''"
proof -
  have "48 \<le> (of_char c :: nat)" "(of_char c :: nat) < 58"
    using assms by (auto simp: digit_value_def Let_def split: if_splits)
  then have "(of_char c :: nat) \<in> of_char ` set ''0123456789''"
    by simp presburger
  then show ?thesis by (metis imageE of_char_eq_iff)
qed

lemma decimal_chars: "read_digits 10 acc s = Some n \<Longrightarrow> c \<in> set s \<Longrightarrow> c \<in> set ''0123456789''"
proof (induction s arbitrary: acc)
  case (Cons a s)
  from Cons.prems(1) obtain d where d: "digit_value a = Some d" "d < 10" "read_digits 10 (10 * acc + d) s = Some n"
    by (auto split: option.splits if_splits)
  from Cons.prems(2) consider "c = a" | "c \<in> set s" by auto
  then show ?case using decimal_char [OF d(1,2)] Cons.IH [OF d(3)] by cases blast+
qed simp

lemma plain_digits: "\<forall>c \<in> set s. c \<noteq> CHR ''_'' \<Longrightarrow> s \<noteq> [] \<Longrightarrow> underscores_ok ok s"
proof (induction s arbitrary: ok)
  case (Cons c s)
  then show ?case by (cases s) auto
qed simp

lemma scan_base_octal:
  "c \<notin> set ''bBoOxX'' \<Longrightarrow>
   scan_base (CHR ''0'' # c # t) = (8, CHR ''0'' # takeWhile (\<lambda>x. x \<in> set ''01234567_'') (c # t), False)"
  by (simp add: scan_base_def)

lemma scan_base_decimal:
  assumes "\<And>c t. s \<noteq> CHR ''0'' # c # t"
  shows "scan_base s = (10, takeWhile (\<lambda>x. x \<in> set ''0123456789_'') s, False)"
proof (cases s)
  case (Cons a s')
  show ?thesis
  proof (cases s')
    case (Cons c t)
    with \<open>s = a # s'\<close> assms have "a \<noteq> CHR ''0''" by auto
    with Cons \<open>s = a # s'\<close> show ?thesis by (cases a) (auto simp: scan_base_def split: bool.splits)
  qed (simp add: scan_base_def \<open>s = a # s'\<close> split: char.splits bool.splits)
qed (simp add: scan_base_def)

lemma Trimmed_left: "TrimSpace v = v \<Longrightarrow> TrimLeftSpace v = v"
proof -
  assume v: "TrimSpace v = v"
  have "suffix (TrimLeftSpace v) v" unfolding TrimLeftSpace_def by (rule trim_with_suffix)
  moreover have "prefix v (TrimLeftSpace v)" using TrimRightSpace_prefix [of "TrimLeftSpace v"] v by (simp add: TrimSpace_def)
  ultimately show ?thesis by (metis prefix_length_le suffix_length_le suffix_order.antisym le_antisym suffix_def append_eq_append_conv self_append_conv2)
qed

lemma filtered_run: "P a \<Longrightarrow> \<forall>x \<in> set (a # xs). Q x \<Longrightarrow> filter Q (takeWhile P (a # xs)) = a # takeWhile P xs"
  by (auto simp: filter_id_conv dest: set_takeWhileD)

text \<open>Where \<open>ParseInt\<close> reads a number that is not negative, \<open>Sscan\<close> reads one that is no larger.\<close>

lemma scanned_le:
  assumes "Atoi v = Some n" "0 \<le> n" "TrimSpace v = v"
  shows "\<exists>m. Sscan v = Some m \<and> 0 \<le> m \<and> m \<le> n"
proof -
  obtain neg t where t: "split_sign v = (neg, t)" by (cases "split_sign v")
  with assms(1) obtain k where k: "t \<noteq> []" "read_digits 10 0 t = Some k" "signed64 neg k = Some n"
    by (auto simp: Atoi_def bind_eq_Some_conv split: if_splits)
  note digits = decimal_chars [OF k(2)]
  have plain: "\<forall>c \<in> set t. c \<noteq> CHR ''_''" using digits by fastforce
  have signed: "\<exists>m. signed64 neg j = Some m \<and> 0 \<le> m \<and> m \<le> n" if "j \<le> k" for j
    using that k(3) assms(2) by (auto simp: signed64_def Let_def split: if_splits)
  obtain base ds where ds: "scan_base t = (base, ds, False)" "ds \<noteq> []" "\<forall>c \<in> set ds. c \<noteq> CHR ''_''"
    and j: "\<exists>j. read_digits base 0 ds = Some j \<and> j \<le> k"
  proof (cases "\<exists>c t'. t = CHR ''0'' # c # t'")
    case True
    then obtain c t' where s: "t = CHR ''0'' # c # t'" by blast
    have "c \<notin> set ''bBoOxX''" using digits [of c] s by auto
    note b = scan_base_octal [OF this, of t']
    let ?ds = "CHR ''0'' # takeWhile (\<lambda>x. x \<in> set ''01234567_'') (c # t')"
    have clean: "\<forall>x \<in> set ?ds. x \<noteq> CHR ''_''" using plain s by (auto dest: set_takeWhileD)
    have "filter (\<lambda>x. x \<noteq> CHR ''_'') (takeWhile (\<lambda>x. x \<in> set ''01234567_'') t) = ?ds"
      unfolding s by (rule filtered_run) (use plain s in auto)
    then have "\<exists>j. read_digits 8 0 ?ds = Some j \<and> j \<le> k" using read_octal_le [OF k(2) order_refl] by metis
    then show ?thesis using that [OF b [folded s]] clean by blast
  next
    case False
    have "takeWhile (\<lambda>x. x \<in> set ''0123456789_'') t = t"
      using digits by (intro takeWhile_eq_all_conv [THEN iffD2]) auto
    with scan_base_decimal [of t] False show ?thesis using that [of 10 t] k plain by auto
  qed
  have "filter (\<lambda>c. c \<noteq> CHR ''_'') ds = ds" using ds(3) by (simp add: filter_id_conv)
  moreover have "underscores_ok False ds" using plain_digits ds by blast
  ultimately show ?thesis
    using j signed ds t Trimmed_left [OF assms(3)] by (auto simp: Sscan_def)
qed

section \<open>Histories of updates\<close>

text \<open>Every stored setting of the service is trimmed and passes its checks.\<close>

definition settings_checked :: "setting_decoders \<Rightarrow> db \<Rightarrow> bool" where
  "settings_checked sd d \<longleftrightarrow>
     (\<forall>r \<in> set (system_settings d). set_Key r \<in> set allowedSettingKeys \<longrightarrow>
        check_setting sd (set_Key r) (set_Value r) = None \<and> TrimSpace (set_Value r) = set_Value r)"

text \<open>Updates one after another, each with its time and its faults; an update that fails is an attempt all the same.\<close>

fun run_updates :: "setting_decoders \<Rightarrow> ((string \<times> string) list \<times> gotime \<times> bool list) list \<Rightarrow> db \<Rightarrow> db" where
  "run_updates sd [] d = d"
| "run_updates sd ((vals, now, flt) # ups) d = run_updates sd ups (db_state (UpdateSettings sd vals now flt d))"

lemma upserted_row:
  "r \<in> set (upsert_setting key v now rows) \<Longrightarrow> r \<in> set rows \<or> set_Key r = key \<and> set_Value r = v"
  by (auto simp: upsert_setting_def set_sql_update split: if_splits)

lemma upserted_rows:
  "r \<in> set (foldl (\<lambda>rows kv. upsert_setting (fst kv) (snd kv) now rows) rows kvs) \<Longrightarrow>
   r \<in> set rows \<or> (set_Key r, set_Value r) \<in> set kvs"
proof (induction kvs arbitrary: rows)
  case (Cons kv kvs)
  then show ?case by (cases kv) (fastforce dest: upserted_row)
qed simp

lemma update_keeps_checked:
  assumes "settings_checked sd d"
  shows "settings_checked sd (db_state (UpdateSettings sd vals now flt d))"
proof -
  obtain r flt' d' where run: "UpdateSettings sd vals now flt d = (r, flt', d')" by (cases "UpdateSettings sd vals now flt d")
  from update_outcome [OF run] show ?thesis
  proof (elim disjE exE conjE)
    fix kvs assume "filter_settings sd vals = Inr kvs" and
      rows: "system_settings d' = foldl (\<lambda>rows kv. upsert_setting (fst kv) (snd kv) now rows) (system_settings d) kvs"
    then have "check_setting sd (set_Key r) (set_Value r) = None \<and> TrimSpace (set_Value r) = set_Value r"
      if "r \<in> set (system_settings d')" "set_Key r \<in> set allowedSettingKeys" for r
      using upserted_rows [of r now "system_settings d" kvs] that filtered_checked assms
      by (auto simp: settings_checked_def)
    then show ?thesis by (simp add: settings_checked_def run)
  qed (use assms run in simp)
qed

lemma run_updates_checked: "settings_checked sd d \<Longrightarrow> settings_checked sd (run_updates sd ups d)"
  by (induction sd ups d rule: run_updates.induct) (simp_all add: update_keeps_checked)

text \<open>What a checked database gives for a key.\<close>

lemma checked_value:
  assumes "settings_checked sd d" "key \<in> set allowedSettingKeys"
  shows "db_wp (GetSetting key) (\<lambda>v d'. d' = d \<and>
      (v = '''' \<or> check_setting sd key v = None \<and> TrimSpace v = v)) (\<lambda>e _. e = ErrDriver) d"
  unfolding GetSetting_def
  by (rule db_wp_query) (use assms in \<open>auto simp: settings_checked_def split: option.split dest!: sql_find_Some\<close>)

lemma checked_temp_dir: "check_setting sd ''transfer_temp_dir'' v = None \<Longrightarrow> v = '''' \<or> IsAbs v"
  by (auto simp: check_setting_def path_settings_def split: if_splits)

lemma checked_min_free:
  "check_setting sd ''transfer_min_free_bytes'' v = None \<Longrightarrow> v = '''' \<or> (\<exists>n. Atoi v = Some n \<and> 0 \<le> n)"
  by (auto simp: check_setting_def path_settings_def outside_range_def suffix_to_prefix split: if_splits option.splits)

lemma default_temp_dir: "IsAbs defaultTransferTempDir"
  by (simp add: defaultTransferTempDir_def IsAbs_def slash_def)

lemma transfer_settings_readable:
  assumes "settings_checked sd (sv_db s)"
  shows "db_wp transferSettings
    (\<lambda>(directory, minimum) _. IsAbs directory \<and> 0 \<le> minimum) (\<lambda>e _. e = ErrDriver) s"
proof -
  have keys: "''transfer_temp_dir'' \<in> set allowedSettingKeys" "''transfer_min_free_bytes'' \<in> set allowedSettingKeys"
    by (simp_all add: allowedSettingKeys_def)
  have minimum: "db_wp (if TrimSpace v = '''' then db_ret (directory, defaultTransferMinFreeBytes)
       else case Sscan v of
         Some n \<Rightarrow> if n < 0 then db_fail (Errorf ''transfer_min_free_bytes is invalid'' []) else db_ret (directory, n)
       | None \<Rightarrow> db_fail (Errorf ''transfer_min_free_bytes is invalid'' []))
      (\<lambda>(directory, minimum) _. IsAbs directory \<and> 0 \<le> minimum) (\<lambda>e _. e = ErrDriver) s'"
    if "v = '''' \<or> check_setting sd ''transfer_min_free_bytes'' v = None \<and> TrimSpace v = v" "IsAbs directory"
    for v directory s'
  proof (cases "v = ''''")
    case False
    with that checked_min_free obtain n where "Atoi v = Some n" "0 \<le> n" "TrimSpace v = v" by blast
    with scanned_le obtain m where "Sscan v = Some m" "0 \<le> m" by blast
    with that False show ?thesis by (auto intro!: db_wp_if db_wp_ret)
  qed (use that in \<open>auto intro!: db_wp_ret simp: defaultTransferMinFreeBytes_def\<close>)
  show ?thesis
    unfolding transferSettings_def Let_def
  proof (rule db_wp_bind, rule db_wp_on_db, rule db_wp_conseq [OF checked_value [OF assms keys(1)]], goal_cases)
    case (1 v d)
    then have dir: "IsAbs (if TrimSpace v = '''' then defaultTransferTempDir else v)"
      using checked_temp_dir [of sd v] default_temp_dir by auto
    show ?case
    proof (rule db_wp_if, use dir in blast, rule db_wp_bind, rule db_wp_on_db,
        rule db_wp_conseq [OF checked_value [of sd _ "''transfer_min_free_bytes''"]], goal_cases)
      case (3 v' d')
      then show ?case by (intro minimum [OF _ dir]) simp
    qed (use 1 assms keys in simp_all)
  qed simp
qed

section \<open>Properties\<close>

text \<open>
  C21. What an update stores is what is read back: an update that succeeds was given known keys only, and afterwards
  every key it was given reads as the trimmed value, except that a blank secret keeps the stored one, and every
  other key reads as before. An update that fails, be it by a check or by the driver, leaves the database as it was.
\<close>

theorem settings_update_exact:
  assumes run: "UpdateSettings sd vals now flt d = (r, flt', d')" and keys: "distinct (map fst vals)"
  shows "case r of
      Inl _ \<Rightarrow> d' = d
    | Inr _ \<Rightarrow> set (map fst vals) \<subseteq> set allowedSettingKeys \<and>
        (\<forall>key. db_result (SettingsService_Get key [] d') =
           (case map_of vals key of
              None \<Rightarrow> db_result (SettingsService_Get key [] d)
            | Some v \<Rightarrow> if key \<in> set secretSettingKeys \<and> TrimSpace v = ''''
                        then db_result (SettingsService_Get key [] d) else Inr (TrimSpace v)))"
proof -
  have known: "set (map fst vals) \<subseteq> set allowedSettingKeys" if "filter_settings sd vals = Inr kvs" for kvs
    using that
  proof (induction vals arbitrary: kvs)
    case (Cons kv vals)
    then show ?case by (cases kv) (auto simp: filter_settings_cons simp del: filter_settings.simps(2))
  qed simp
  from update_outcome [OF run] show ?thesis
  proof (elim disjE exE conjE)
    fix kvs assume r: "r = Inr ()" and kvs: "filter_settings sd vals = Inr kvs"
      and rows: "system_settings d' = foldl (\<lambda>rows kv. upsert_setting (fst kv) (snd kv) now rows) (system_settings d) kvs"
    have "distinct (map fst kvs)" using filtered_keys [OF kvs] keys by blast
    then have "setting_map d' = setting_map d ++ map_of kvs"
      using setting_map_foldl [of kvs now "system_settings d"] by (simp add: setting_map_def rows)
    then show ?thesis
      using known [OF kvs] r filtered_map [OF kvs keys]
      by (auto simp: SettingsService_Get_def GetSetting_map map_add_def split: option.split)
  qed simp
qed

text \<open>
  C20. Settings the service accepted serve the import: after any history of updates, with driver faults anywhere, every
  stored setting passes its checks, and reading the transfer settings for an import fails only when the driver does;
  it yields an absolute directory and a minimum of free bytes that is not negative.
\<close>

theorem accepted_settings_usable:
  assumes "settings_checked sd d" "sv_db s = run_updates sd ups d"
  shows "settings_checked sd (sv_db s) \<and>
    (case db_result (transferSettings flt s) of
       Inl e \<Rightarrow> e = ErrDriver
     | Inr (directory, minimum) \<Rightarrow> IsAbs directory \<and> 0 \<le> minimum)"
proof -
  have checked: "settings_checked sd (sv_db s)" using run_updates_checked assms by simp
  have "(\<lambda>r _. case r of Inl e \<Rightarrow> e = ErrDriver | Inr (directory, minimum) \<Rightarrow> IsAbs directory \<and> 0 \<le> minimum)
      (db_result (transferSettings flt s)) (db_state (transferSettings flt s))"
    by (rule db_wp_result, rule db_wp_conseq [OF transfer_settings_readable [OF checked]]) auto
  with checked show ?thesis by simp
qed

text \<open>
  The check reads the minimum of free bytes in base 10, the import by \<open>fmt.Sscan\<close>, for which a leading zero means
  base 8: an accepted value of 999 bytes, written 0999, is read as 0.
\<close>

definition example_decoders :: setting_decoders where
  "example_decoders = \<lparr>sd_URL = \<lparr>url_Parse = (\<lambda>_. None), url_ParseRequestURI = (\<lambda>_. None)\<rparr>,
     sd_StringMap = (\<lambda>_. None), sd_Strings = (\<lambda>_. Inr [])\<rparr>"

lemma leading_zero_misread:
  "filter_settings example_decoders [(''transfer_min_free_bytes'', ''0999'')] = Inr [(''transfer_min_free_bytes'', ''0999'')]"
  "Atoi ''0999'' = Some 999" "Sscan ''0999'' = Some 0"
  by code_simp+

section \<open>Examples\<close>

definition example_update :: "(string \<times> string) list" where
  "example_update = [(''transfer_temp_dir'', '' /srv/t ''), (''emby_api_key'', '' ''), (''quark_download_connections'', ''4'')]"

theorem settings_update_exact_witness:
  "db_result (SettingsService_Get ''transfer_temp_dir'' [] (db_state (UpdateSettings example_decoders example_update 9 [] empty_db)))
     = Inr ''/srv/t''"
proof -
  let ?run = "UpdateSettings example_decoders example_update 9 [] empty_db"
  obtain r flt' d' where run: "?run = (r, flt', d')" by (cases ?run)
  have "fst ?run = Inr ()" by code_simp
  then have r: "r = Inr ()" by (simp add: run)
  have "distinct (map fst example_update)" by (simp add: example_update_def)
  moreover have "map_of example_update ''transfer_temp_dir'' = Some '' /srv/t ''" by (simp add: example_update_def)
  moreover have "TrimSpace '' /srv/t '' = ''/srv/t''" by code_simp
  moreover have "''transfer_temp_dir'' \<notin> set secretSettingKeys" by code_simp
  ultimately show ?thesis using settings_update_exact [OF run] by (simp add: r run)
qed

definition example_settings_service :: "unit service" where
  "example_settings_service = \<lparr>sv_db = run_updates example_decoders [(example_update, 9, [])] empty_db, sv_out = (),
     sv_clock = int, sv_uuids = (\<lambda>_. ''u''), sv_mediaMu = False, sv_running = [], sv_cancelled = [], sv_worker = False,
     sv_stopped = False, sv_submitted = [], sv_calls = [], sv_upload = ('''', '''', '''')\<rparr>"

theorem accepted_settings_usable_witness:
  "settings_checked example_decoders (sv_db example_settings_service) \<and>
   db_result (transferSettings [] example_settings_service) = Inr (''/srv/t'', defaultTransferMinFreeBytes) \<and>
   IsAbs ''/srv/t''"
proof -
  have "settings_checked example_decoders empty_db" by (simp add: settings_checked_def empty_db_def)
  moreover have "sv_db example_settings_service = run_updates example_decoders [(example_update, 9, [])] empty_db"
    by (simp add: example_settings_service_def)
  moreover have "db_result (transferSettings [] example_settings_service) = Inr (''/srv/t'', defaultTransferMinFreeBytes)"
    by code_simp
  ultimately show ?thesis
    using accepted_settings_usable [of example_decoders empty_db example_settings_service "[(example_update, 9, [])]" "[]"]
    by simp
qed

end
