(* ===== verification/Spec2Isabelle.thy ===== *)
theory Spec2Isabelle
  imports TaskStore ApprovalStore CrossDriveStore AccountStore AccessStore ScheduleStore TransferWorker TaskPayload
    TaskQueue ProviderInventory UploadVerify ImportVerified EmbyHandler Settings
begin

text \<open>
  Embymedia manages a media library over cloud drives: a Go server (\<open>cmd/server\<close>) keeps its state in SQLite
  (\<open>internal/storage\<close>), runs tasks one at a time (\<open>internal/service/taskqueue.go\<close>), imports shares of the Quark
  drive into 115 (\<open>internal/service/cross_drive_import.go\<close>), with a second program on the NAS that downloads and
  publishes files (\<open>cmd/transfer-worker\<close>, \<open>internal/transfer\<close>), lets agents in by tokens
  (\<open>internal/security\<close>), and deletes media in Emby together with their originals on 115
  (\<open>internal/api/emby_deletion.go\<close>, \<open>internal/service/emby_deletion_sources.go\<close>). This library models those parts and
  proves what makes each of them, and their composition, correct. All paths below are relative to \<open>src\<close>.

  \<^bold>\<open>How programs are modelled.\<close> A program is a state transformer with errors as values (\<open>dbm\<close>, theory DbMonad):
  it takes a list of fault decisions and the state, and gives an error or a result, the decisions left, and the
  state. Every SQL statement, and every call of the outside world that may fail on its own, consumes a decision, so
  a theorem over all lists of decisions covers a fault, or a cancelled context, at every point; \<open>db_tx\<close> is a
  transaction (a fault or an error rolls it back), \<open>db_try\<close> and \<open>db_wrap\<close> look at and wrap errors. Reasoning is by
  weakest preconditions (\<open>db_wp\<close>, collection \<open>wp_rules\<close>), evolutions (\<open>db_within\<close>: every run stays in a reflexive,
  transitive relation), safety of operations (\<open>db_safe\<close>) and evaluation without faults (\<open>db_eval\<close>). The tables of
  the database are lists of records in insertion order (theory Models, from \<open>internal/domain\<close>). The services work
  on the record \<open>service\<close> of theory Service: the database, the outside world (a type parameter), the clock and
  the identifiers to come, the media mutex and the in-memory fields of the queue. Two of its fields are ghosts the
  program does not have: \<open>sv_submitted\<close>, the shares submitted for saving, and \<open>sv_calls\<close>, the calls the deletion
  endpoint makes: the pages read from 115, the objects recycled there and the exchanges with Emby. Calls of other
  parts (renaming, moving, folders, the scans of Emby) are not on it.

  \<^bold>\<open>Which theory models what.\<close>

  \<^item> GoPrelude (strings, errors, JSON values and table operations), GoPath (\<open>path/filepath\<close>), GoHash (SHA-1 and
    SHA-256, executable), DbMonad (the monad, its rules, the locales for atomic and invariant-keeping operations and
    for evolutions), Models (\<open>internal/domain\<close>) and Service are what the components share.
  \<^item> TaskStore, ApprovalStore, AccountStore, AccessStore and ScheduleStore: the tables of
    \<open>internal/storage/sqlite.go\<close> with \<open>audit_query.go\<close> and \<open>share_subscription.go\<close>, and the authorizer of agents,
    \<open>internal/security/token.go\<close>. CrossDriveStore: the checkpoints of an import, \<open>internal/storage/cross_drive.go\<close>.
  \<^item> Download and DownloadProgress: \<open>internal/transfer/checkpoint.go\<close> and \<open>download.go\<close>. TransferProtocol:
    \<open>protocol.go\<close>. TransferPublish: \<open>publish.go\<close>, over a file tree with symbolic links. TransferWorker:
    \<open>cmd/transfer-worker/main.go\<close>, one request per process over the two.
  \<^item> TaskPayload: payload parsers and validation of \<open>taskqueue.go\<close>, \<open>autofill.go\<close>, \<open>metadata.go\<close>, \<open>drive.go\<close> and
    \<open>provider_quark.go\<close>. DriveFacade: the provider interface of \<open>drive_provider.go\<close>. ProviderListing and
    ProviderInventory: paged listings, destination folders and the discovery of a saved share. TaskQueue: enqueue,
    the worker and the mutex of \<open>taskqueue.go\<close>. UploadVerify and Upload115: \<open>provider_115_upload.go\<close> and
    \<open>clouddrive_upload.go\<close>. NasClient: \<open>nas_worker.go\<close>. EmbyBoundary: episodes and gaps.
  \<^item> ImportService: \<open>runQuarkTo115Import\<close> with all it calls in \<open>cross_drive_import.go\<close> and \<open>nas_cross_drive.go\<close>.
    ImportFrames: what each of its parts may change. ImportOnce: the history of a task over restarts. ImportVerified:
    what a successful import leaves.
  \<^item> Drive115: the 115 client of \<open>drive.go\<close> (accounts, pages, changes, deletion targets). MediaPaths: the roots of
    \<open>media.go\<close> and \<open>media_series.go\<close>. EmbyDeletion: \<open>emby_deletion_sources.go\<close>. EmbyRecycle: what a recycling run
    calls. EmbyPlan: what a prepared plan is. EmbyDeletionApi: the endpoint of \<open>emby_deletion.go\<close>, with its variables
    as the record \<open>handlerVars\<close> and its early returns as steps. EmbyHandler: what a run of the endpoint may call.
  \<^item> Settings: \<open>settings.go\<close>, with the checks of values, updates, the state without secrets and the availability
    checks, and what an accepted value means for the import that reads it.

  \<^bold>\<open>What the theorems show.\<close> Stores: consistency of the task, account and checkpoint tables over any history of
  operations with faults anywhere; at most one claim of a task and of an approval, the latter only after the decision
  that says approved; a finished task stays as it is, up to the redaction of its error text at a later start, and that
  redaction is complete; a run that lost its import changes nothing, with one operation excepted that is not fenced
  (\<open>fenced_outcome\<close> says which operations report the loss); exact outcomes of recovery, retry and verification;
  admission of tokens, their rate, refusals that cost nothing, and lookup after a save. Transfer: an interrupted download resumes
  with the bytes of the source and completes when undisturbed; a publication touches one place only when no symbolic link
  is on the way (\<open>publish_follows_links\<close> shows what one does); destinations
  stay below the mount as paths. Services: a listing by pages of 200 is the inventory; what a discovery stores lies
  below the saved roots; a claimed task settles; an upload is verified only
  against the listed object; the wait for it is over by its ceiling. Imports: a share is submitted at most once over any history;
  after success every file is at its destination with its hash. Deletion: nothing but reads happens before Emby
  authorised the user and every item and the plan was made for the paths Emby named; a plan names each listed
  object once; recycling follows the plan and trusts only fresh listings. Settings: an update reads back, and what it
  accepted the import can use. Properties with hypotheses have a theorem
  \<open>..._witness\<close> that applies them to a concrete input.

  \<^bold>\<open>How the parts compose.\<close> ImportOnce runs the import inside \<open>executeTask\<close> of the queue over the task store, so
  that its history has the queue's claims, recoveries and settlements. ImportVerified uses the fences of
  CrossDriveStore, the discovery of ProviderInventory, the verification of UploadVerify and the answers of
  NasClient. TransferWorker composes the validation of TransferProtocol with Download and TransferPublish.
  EmbyHandler runs authorization, plan (EmbyPlan over MediaPaths and Drive115) and recycling (EmbyRecycle) under
  the mutex the queue's worker holds while a task runs (\<open>TryMediaMutation\<close>).

  \<^bold>\<open>Bounds.\<close> Recursions that are not structural have measures; where the Go loop has no bound of its own, the
  model has one it cannot reach. Path resolution follows 40 links, as Linux does. The wait for an upload polls at
  most 14402 times, once a second under a ceiling of four hours, and the wait for a directory 122 times under two
  minutes. The Go loops count time, not polls: with a clock that does not run backwards the deadline comes first, so
  that more polls change nothing, and the elapsed time is bounded by the ceiling (both proved in UploadVerify for the
  former). The walk of a saved share has the program's depth limit of 20 folders, the walk of a deletion 2048
  levels, more than a path of 4096 bytes can have. The loops of \<open>consumeRange\<close> and \<open>copyContext\<close> end because a
  buffer has at least one byte; their guards stand for calls the program refuses or does not make. Listings advance
  by the page, so inventories end by the announced total (\<open>inventory_from\<close>) or the entry limit, and the pages of
  application keys by the offset 10000.

  \<^bold>\<open>What is a parameter.\<close> Drive providers (\<open>DriveProvider\<close>), the HTTP exchange and JSON decoding of the 115 client
  (\<open>drive115\<close>), the 115 and OSS SDKs (\<open>upload_sdk\<close>), the SSH process (\<open>ssh\<close>), Emby (\<open>emby\<close>, \<open>nativeEmby\<close>), the local
  files and the host file system (\<open>local_files\<close>, \<open>hostfs\<close>), the ranged HTTP source of a download (\<open>net\<close>), parsing
  by \<open>net/url\<close> and the JSON decoder (\<open>setting_decoders\<close>), the availability probes (\<open>probes\<close>), \<open>strings.ToLower\<close>, and, in ImportService, the download engine (\<open>ie_fetch\<close>, whose own model is
  Download). No theorem assumes more of them than it states. \<open>strings.EqualFold\<close> is modelled on ASCII. Go's
  \<open>int64\<close> is \<open>int\<close>: the parsers keep it in range, and the sum of two sizes that a request may choose freely wraps
  (\<open>add64\<close>).

  \<^bold>\<open>Where a model is coarser.\<close> Columns that hold JSON hold the decoded value: \<open>json_payload\<close> is encoding followed by
  decoding, which turns a list of strings into a list of values and leaves the rest, and the redaction looks
  for its patterns in the log entries, where the code looks in their JSON text (a control character escaped
  right before the rest of a pattern could complete it there). The update time 0 of an account stands for NULL
  (\<open>ranked_at\<close>). Of the migration at the start (\<open>migrate\<close>) the statements on accounts and the redaction are
  modelled, the creation of tables, columns and indexes and the copy of the segments of an earlier version
  are not. A write that fails in \<open>copyContext\<close> has written nothing, where the code may have written a part: the file
  is removed either way, and the properties of a failed copy allow any beginning of the source. The opening of a
  Quark download may save a refreshed cookie of its account (\<open>OpenProviderDownload\<close>); in ImportService the
  download runs over the outside world only and leaves the accounts alone.

  \<^bold>\<open>Not modelled.\<close> The remaining HTTP API and the MCP server (\<open>internal/api/routes.go\<close>, \<open>internal/mcp\<close>) route
  requests to the services. The clients of Quark and CloudDrive2 and the rest of the 115 client (search, offline
  tasks, share snapshots and links) are mostly decoding of undocumented answers. Search, metadata, posters, the Emby
  client and the STRM synchronisation of \<open>media.go\<close> rest on regular expressions, title matching and the file
  system; the autofill and replacement workflows (\<open>autofill.go\<close>, \<open>replacement*.go\<close>) sit on top of them. The
  scheduler (\<open>cron.go\<close>) and the polling of share subscriptions only enqueue tasks; start-up and the web front end
  are wiring. Concurrency is modelled where the code shares state: the worker
  and the endpoints by the mutex, the segments of a download by an arbitrary order of their completion; goroutines
  of one service are otherwise run one after another.
\<close>

end
